(* ===== verification/Prelude.thy ===== *)
theory Prelude
  imports Complex_Main
begin

text \<open>
  Shared vocabulary of the development: the Go types and library functions the modelled
  code relies on, and the collections of facts the component theories extend.

  \<^item> \<open>gotime\<close> is a point in time in nanoseconds since Go's zero time, so that the zero value
    \<open>time.Time{}\<close> is 0 and \<open>IsZero\<close> is equality with 0; \<open>duration\<close> is a signed number
    of nanoseconds. Both are unbounded: the code adds configured windows of at most days.
  \<^item> Strings are byte lists. \<open>TrimSpace\<close> removes every UTF-8 encoded Unicode white space, as
    Go's does; the case mappings are the ASCII part of Go's.
  \<^item> A call to a database or cache may fail. Which calls fail is a schedule of faults in the
    state: the statement may not run at all, or it may run and only its acknowledgement be lost.
  \<^item> \<open>f64\<close> is a \<open>float64\<close> with NaN and the infinities; finite values are exact rationals, so
    the rounding of binary floating point is not modelled.
\<close>

section \<open>Collections of facts\<close>

named_theorems status_simps \<open>status constants and their distinctness\<close>
named_theorems step_defs \<open>definitions of the operations a component's proofs unfold\<close>

section \<open>Time\<close>

type_synonym gotime = int
type_synonym duration = int

abbreviation Millisecond :: duration where "Millisecond \<equiv> 1000000"
abbreviation Second :: duration where "Second \<equiv> 1000000000"
abbreviation Minute :: duration where "Minute \<equiv> 60000000000"
abbreviation Hour :: duration where "Hour \<equiv> 3600000000000"

text \<open>Go's \<open>/\<close> on integers truncates towards zero.\<close>

definition go_div :: "int \<Rightarrow> int \<Rightarrow> int" where
  "go_div a b = sgn a * sgn b * (\<bar>a\<bar> div \<bar>b\<bar>)"

definition go_mod :: "int \<Rightarrow> int \<Rightarrow> int" where
  "go_mod a b = a - b * go_div a b"

lemma go_div_nonneg [simp]: "0 \<le> a \<Longrightarrow> 0 < b \<Longrightarrow> go_div a b = a div b"
  by (cases "a = 0") (simp_all add: go_div_def)

lemma go_mod_nonneg [simp]: "0 \<le> a \<Longrightarrow> 0 < b \<Longrightarrow> go_mod a b = a mod b"
  by (simp add: go_mod_def minus_mult_div_eq_mod)

lemma go_div_neg: "a < 0 \<Longrightarrow> 0 < b \<Longrightarrow> go_div a b \<le> 0"
  by (simp add: go_div_def pos_imp_zdiv_nonneg_iff)

text \<open>\<open>after a b\<close> is Go's \<open>a.After(b)\<close>; \<open>before\<close> is \<open>a.Before(b)\<close>.\<close>

abbreviation after :: "gotime \<Rightarrow> gotime \<Rightarrow> bool" where "after a b \<equiv> b < a"
abbreviation before :: "gotime \<Rightarrow> gotime \<Rightarrow> bool" where "before a b \<equiv> a < b"
abbreviation is_zero :: "gotime \<Rightarrow> bool" where "is_zero t \<equiv> t = 0"

text \<open>\<open>int(d.Seconds())\<close>: whole seconds, truncated towards zero.\<close>

definition whole_seconds :: "duration \<Rightarrow> int" where
  "whole_seconds d = go_div d Second"

section \<open>Strings\<close>

definition space_seqs :: "string list" where
  "space_seqs =
    [[CHR 0x09], [CHR 0x0A], [CHR 0x0B], [CHR 0x0C], [CHR 0x0D], [CHR 0x20],
     [CHR 0xC2, CHR 0x85], [CHR 0xC2, CHR 0xA0], [CHR 0xE1, CHR 0x9A, CHR 0x80],
     [CHR 0xE2, CHR 0x80, CHR 0x80], [CHR 0xE2, CHR 0x80, CHR 0x81],
     [CHR 0xE2, CHR 0x80, CHR 0x82], [CHR 0xE2, CHR 0x80, CHR 0x83],
     [CHR 0xE2, CHR 0x80, CHR 0x84], [CHR 0xE2, CHR 0x80, CHR 0x85],
     [CHR 0xE2, CHR 0x80, CHR 0x86], [CHR 0xE2, CHR 0x80, CHR 0x87],
     [CHR 0xE2, CHR 0x80, CHR 0x88], [CHR 0xE2, CHR 0x80, CHR 0x89],
     [CHR 0xE2, CHR 0x80, CHR 0x8A], [CHR 0xE2, CHR 0x80, CHR 0xA8],
     [CHR 0xE2, CHR 0x80, CHR 0xA9], [CHR 0xE2, CHR 0x80, CHR 0xAF],
     [CHR 0xE2, CHR 0x81, CHR 0x9F], [CHR 0xE3, CHR 0x80, CHR 0x80]]"

fun has_prefix :: "'a list \<Rightarrow> 'a list \<Rightarrow> bool" where
  "has_prefix s [] = True"
| "has_prefix [] (p # ps) = False"
| "has_prefix (c # s) (p # ps) = (c = p \<and> has_prefix s ps)"

fun strip_any :: "string list \<Rightarrow> string \<Rightarrow> string option" where
  "strip_any [] s = None"
| "strip_any (p # ps) s =
     (if p \<noteq> [] \<and> has_prefix s p then Some (drop (length p) s) else strip_any ps s)"

lemma has_prefix_length: "has_prefix s p \<Longrightarrow> length p \<le> length s"
  by (induction s p rule: has_prefix.induct) auto

lemma strip_any_shorter: "strip_any ps s = Some r \<Longrightarrow> length r < length s"
proof (induction ps)
  case (Cons p ps)
  then show ?case
    using has_prefix_length [of s p] by (cases p) (auto split: if_splits)
qed simp

function trim_with :: "string list \<Rightarrow> string \<Rightarrow> string" where
  "trim_with ps s = (case strip_any ps s of None \<Rightarrow> s | Some r \<Rightarrow> trim_with ps r)"
  by pat_completeness auto
termination
  by (relation "measure (\<lambda>(ps, s). length s)") (auto dest: strip_any_shorter)

declare trim_with.simps [simp del]

definition trim_space :: "string \<Rightarrow> string" where
  "trim_space s =
     rev (trim_with (map rev space_seqs) (rev (trim_with space_seqs s)))"

definition to_upper_char :: "char \<Rightarrow> char" where
  "to_upper_char c = (if 97 \<le> (of_char c :: nat) \<and> (of_char c :: nat) \<le> 122 then char_of ((of_char c :: nat) - 32) else c)"

definition to_lower_char :: "char \<Rightarrow> char" where
  "to_lower_char c = (if 65 \<le> (of_char c :: nat) \<and> (of_char c :: nat) \<le> 90 then char_of ((of_char c :: nat) + 32) else c)"

definition to_upper :: "string \<Rightarrow> string" where
  "to_upper s = map to_upper_char s"

definition to_lower :: "string \<Rightarrow> string" where
  "to_lower s = map to_lower_char s"

text \<open>\<open>strings.EqualFold\<close>, on ASCII.\<close>

definition equal_fold :: "string \<Rightarrow> string \<Rightarrow> bool" where
  "equal_fold a b = (to_lower a = to_lower b)"

text \<open>Decimal numerals, as \<open>strconv.Itoa\<close> writes them, and \<open>strings.Contains\<close>.\<close>

fun nat_digits :: "nat \<Rightarrow> string" where
  "nat_digits n = (if n < 10 then [char_of (48 + n)] else nat_digits (n div 10) @ [char_of (48 + n mod 10)])"

declare nat_digits.simps [simp del]

definition show_int :: "int \<Rightarrow> string" where
  "show_int i = (if i < 0 then CHR ''-'' # nat_digits (nat (- i)) else nat_digits (nat i))"

fun parse_digits :: "nat \<Rightarrow> string \<Rightarrow> nat option" where
  "parse_digits acc [] = Some acc"
| "parse_digits acc (c # s) =
     (let d = (of_char c :: nat) in if 48 \<le> d \<and> d \<le> 57 then parse_digits (10 * acc + (d - 48)) s else None)"

text \<open>\<open>strconv.ParseInt(s, 10, 64)\<close>, for the results the caller keeps: positive numbers.\<close>

definition parse_positive_int64 :: "string \<Rightarrow> int option" where
  "parse_positive_int64 s =
     (let digits = (case s of c # r \<Rightarrow> if c = CHR ''+'' then r else s | [] \<Rightarrow> [])
      in if digits = [] then None
         else case parse_digits 0 digits of
           None \<Rightarrow> None
         | Some n \<Rightarrow> if n = 0 \<or> int n > 9223372036854775807 then None else Some (int n))"

fun contains :: "string \<Rightarrow> string \<Rightarrow> bool" where
  "contains [] p = (p = [])"
| "contains (c # s) p = (has_prefix (c # s) p \<or> contains s p)"

lemma length_trim_with: "length (trim_with ps s) \<le> length s"
proof (induction ps s rule: trim_with.induct)
  case (1 ps s)
  then show ?case
    using strip_any_shorter [of ps s]
    by (subst trim_with.simps) (fastforce split: option.splits)
qed

lemma length_trim_space: "length (trim_space s) \<le> length s"
  using length_trim_with [of space_seqs s]
    length_trim_with [of "map rev space_seqs" "rev (trim_with space_seqs s)"]
  by (simp add: trim_space_def)

lemma has_prefix_append: "has_prefix s p \<longleftrightarrow> (\<exists>r. s = p @ r)"
  by (induction s p rule: has_prefix.induct) auto

lemma strip_any_keeps:
  "strip_any ps s = Some r \<Longrightarrow> c \<in> set s \<Longrightarrow> \<forall>p \<in> set ps. c \<notin> set p \<Longrightarrow> c \<in> set r"
  by (induction ps) (auto split: if_splits simp: has_prefix_append)

text \<open>A character that no white space sequence contains survives trimming.\<close>

lemma trim_with_keeps:
  "c \<in> set s \<Longrightarrow> \<forall>p \<in> set ps. c \<notin> set p \<Longrightarrow> c \<in> set (trim_with ps s)"
proof (induction ps s rule: trim_with.induct)
  case (1 ps s)
  then show ?case
    using strip_any_keeps [of ps s _ c] by (subst trim_with.simps) (auto split: option.splits)
qed

lemma trim_space_keeps:
  "c \<in> set s \<Longrightarrow> \<forall>p \<in> set space_seqs. c \<notin> set p \<Longrightarrow> c \<in> set (trim_space s)"
  by (simp add: trim_space_def trim_with_keeps)

section \<open>Faults\<close>

datatype fault = Fine | Refused | AckLost

type_synonym faults = "fault list"

fun next_fault :: "faults \<Rightarrow> fault \<times> faults" where
  "next_fault [] = (Fine, [])"
| "next_fault (f # fs) = (f, fs)"

text \<open>The answer of a repository call: an error, or a value.\<close>

datatype 'a answer = DbErr | DbOk 'a

section \<open>Floating point amounts\<close>

text \<open>The conversion of a number to \<open>int64\<close> drops its fraction; beyond the range of \<open>int64\<close> Go leaves it open.\<close>

definition go_trunc :: "rat \<Rightarrow> int" where
  "go_trunc x = (if x < 0 then - \<lfloor>- x\<rfloor> else \<lfloor>x\<rfloor>)"

datatype f64 = NaN | PInf | NInf | Fin rat

fun f_lt :: "f64 \<Rightarrow> f64 \<Rightarrow> bool" where
  "f_lt NaN _ = False"
| "f_lt _ NaN = False"
| "f_lt (Fin a) (Fin b) = (a < b)"
| "f_lt NInf NInf = False"
| "f_lt NInf _ = True"
| "f_lt _ PInf = True"
| "f_lt _ _ = False"

end
