(* ===== verification/Currency.thy ===== *)
theory Currency
  imports Prelude
begin

text \<open>
  Currencies and amounts: \<open>payment/currency.go\<close>, \<open>payment/fee.go\<close>, \<open>payment/amount.go\<close> and
  \<open>service/payment_amounts.go\<close>. The decimals of the code are exact rationals here; its
  rounding modes are modelled, the 16 digits that \<open>Div\<close> keeps included. The text form of a
  decimal is left out: the operations take and return the number it denotes.
\<close>

section \<open>Decimals\<close>

definition round_half_away :: "rat \<Rightarrow> int" where
  "round_half_away x = (if x \<ge> 0 then \<lfloor>x + 1/2\<rfloor> else - \<lfloor>1/2 - x\<rfloor>)"

definition dec_round :: "nat \<Rightarrow> rat \<Rightarrow> rat" where
  "dec_round n x = of_int (round_half_away (x * 10 ^ n)) / 10 ^ n"

definition dec_round_up :: "nat \<Rightarrow> rat \<Rightarrow> rat" where
  "dec_round_up n x = (if x \<ge> 0 then of_int \<lceil>x * 10 ^ n\<rceil> / 10 ^ n else of_int \<lfloor>x * 10 ^ n\<rfloor> / 10 ^ n)"

definition dec_div :: "rat \<Rightarrow> rat \<Rightarrow> rat" where
  "dec_div a b = dec_round 16 (a / b)"

definition dec_truncate :: "rat \<Rightarrow> int" where
  "dec_truncate x = (if x \<ge> 0 then \<lfloor>x\<rfloor> else - \<lfloor>- x\<rfloor>)"

lemma round_half_away_of_int [simp]: "round_half_away (of_int k) = k"
proof -
  have "\<lfloor>rat_of_int k + 1 / 2\<rfloor> = k" "\<lfloor>1 / 2 - rat_of_int k\<rfloor> = - k" by (simp_all add: floor_eq_iff)
  then show ?thesis by (simp add: round_half_away_def)
qed

lemma round_half_away_mono:
  assumes "x \<le> y"
  shows "round_half_away x \<le> round_half_away y"
proof (cases "x \<ge> 0 \<or> y < 0")
  case True
  with assms show ?thesis by (auto simp: round_half_away_def intro!: floor_mono)
next
  case False
  then have "0 \<le> \<lfloor>1/2 - x\<rfloor>" "0 \<le> \<lfloor>y + 1/2\<rfloor>" by simp_all
  then have "- \<lfloor>1/2 - x\<rfloor> \<le> \<lfloor>y + 1/2\<rfloor>" by linarith
  with False show ?thesis by (simp add: round_half_away_def)
qed

lemma dec_round_mono: "x \<le> y \<Longrightarrow> dec_round n x \<le> dec_round n y"
  by (simp add: dec_round_def divide_right_mono round_half_away_mono)

lemma dec_round_nonneg: "0 \<le> x \<Longrightarrow> 0 \<le> dec_round n x"
  by (simp add: dec_round_def round_half_away_def)

lemma dec_round_fix:
  assumes "x * 10 ^ n = of_int k"
  shows "dec_round n x = x"
proof -
  have "x = of_int k / 10 ^ n" using assms by (simp add: field_simps)
  then show ?thesis unfolding dec_round_def assms by simp
qed

lemma dec_round_idem [simp]: "dec_round n (dec_round n x) = dec_round n x"
  by (rule dec_round_fix [of _ _ "round_half_away (x * 10 ^ n)"]) (simp add: dec_round_def)

lemma dec_round_up_ge: "0 \<le> x \<Longrightarrow> x \<le> dec_round_up n x"
  by (simp add: dec_round_up_def pos_le_divide_eq)

lemma dec_round_up_less: "0 \<le> x \<Longrightarrow> dec_round_up n x < x + 1 / 10 ^ n"
  using ceiling_correct [of "x * 10 ^ n"] by (simp add: dec_round_up_def field_simps)

section \<open>Currencies\<close>

definition DefaultPaymentCurrency :: string where "DefaultPaymentCurrency = ''CNY''"

record amount_unit =
  api_minor_unit :: nat
  max_fraction_digits :: nat

definition zero_decimal_unit :: amount_unit where
  "zero_decimal_unit = \<lparr>api_minor_unit = 0, max_fraction_digits = 0\<rparr>"
definition two_decimal_unit :: amount_unit where
  "two_decimal_unit = \<lparr>api_minor_unit = 2, max_fraction_digits = 2\<rparr>"
definition three_decimal_unit :: amount_unit where
  "three_decimal_unit = \<lparr>api_minor_unit = 3, max_fraction_digits = 3\<rparr>"
definition stripe_legacy_zero_unit :: amount_unit where
  "stripe_legacy_zero_unit = \<lparr>api_minor_unit = 2, max_fraction_digits = 0\<rparr>"

definition payment_currency_amount_units :: "(string \<times> amount_unit) list" where
  "payment_currency_amount_units =
     map (\<lambda>c. (c, zero_decimal_unit))
       [''BIF'', ''CLP'', ''DJF'', ''GNF'', ''JPY'', ''KMF'', ''KRW'', ''MGA'', ''PYG'', ''RWF'',
        ''VND'', ''VUV'', ''XAF'', ''XOF'', ''XPF''] @
     map (\<lambda>c. (c, stripe_legacy_zero_unit)) [''ISK'', ''UGX''] @
     map (\<lambda>c. (c, three_decimal_unit)) [''BHD'', ''IQD'', ''JOD'', ''KWD'', ''LYD'', ''OMR'', ''TND'']"

definition normalize_payment_currency :: "string \<Rightarrow> string option" where
  "normalize_payment_currency raw =
     (let currency = to_upper (trim_space raw)
      in if currency = [] then Some DefaultPaymentCurrency
         else if length currency \<noteq> 3 then None
         else if list_ex (\<lambda>c. (of_char c :: nat) < 65 \<or> (of_char c :: nat) > 90) currency then None
         else Some currency)"

definition amount_unit_for :: "string \<Rightarrow> amount_unit" where
  "amount_unit_for currency =
     (case normalize_payment_currency currency of
        None \<Rightarrow> two_decimal_unit
      | Some c \<Rightarrow> (case map_of payment_currency_amount_units c of Some u \<Rightarrow> u | None \<Rightarrow> two_decimal_unit))"

definition currency_minor_unit :: "string \<Rightarrow> nat" where
  "currency_minor_unit currency = api_minor_unit (amount_unit_for currency)"

definition currency_max_fraction_digits :: "string \<Rightarrow> nat" where
  "currency_max_fraction_digits currency = max_fraction_digits (amount_unit_for currency)"

datatype amount_error = BadCurrency | NotWhole | TooManyDigits nat

text \<open>\<open>AmountToMinorUnit\<close> from the parsed amount on.\<close>

definition amount_to_minor_unit :: "rat \<Rightarrow> string \<Rightarrow> amount_error + int" where
  "amount_to_minor_unit d currency =
     (case normalize_payment_currency currency of
        None \<Rightarrow> Inl BadCurrency
      | Some c \<Rightarrow>
          let unit = amount_unit_for c;
              scaled = d * 10 ^ max_fraction_digits unit
          in if scaled \<noteq> of_int (dec_truncate scaled) then
               Inl (if max_fraction_digits unit = 0 then NotWhole else TooManyDigits (max_fraction_digits unit))
             else Inr (dec_truncate (d * 10 ^ api_minor_unit unit)))"

definition minor_unit_to_amount :: "int \<Rightarrow> string \<Rightarrow> rat" where
  "minor_unit_to_amount v currency = dec_div (of_int v) (10 ^ currency_minor_unit currency)"

definition calculate_pay_amount_for_currency :: "rat \<Rightarrow> rat \<Rightarrow> string \<Rightarrow> rat" where
  "calculate_pay_amount_for_currency amount fee_rate currency =
     (let digits = currency_max_fraction_digits currency
      in if fee_rate \<le> 0 then dec_round digits amount
         else let fee = dec_round_up digits (dec_div (amount * fee_rate) 100)
              in dec_round digits (amount + fee))"

section \<open>Balances and refunds\<close>

definition amountToleranceCNY :: rat where "amountToleranceCNY = 1 / 100"

definition payment_amount_tolerance_for_currency :: "string \<Rightarrow> rat" where
  "payment_amount_tolerance_for_currency currency =
     (let minor_unit = currency_minor_unit currency
      in if minor_unit \<le> 2 then amountToleranceCNY else 1 / 10 ^ minor_unit / 2)"

definition normalize_balance_recharge_multiplier :: "f64 \<Rightarrow> rat" where
  "normalize_balance_recharge_multiplier m = (case m of Fin x \<Rightarrow> if x \<le> 0 then 1 else x | _ \<Rightarrow> 1)"

definition normalize_subscription_usd_to_cny_rate :: "f64 \<Rightarrow> rat" where
  "normalize_subscription_usd_to_cny_rate r = (case r of Fin x \<Rightarrow> if x < 0 then 0 else x | _ \<Rightarrow> 0)"

definition calculate_credited_balance :: "rat \<Rightarrow> f64 \<Rightarrow> rat" where
  "calculate_credited_balance payment multiplier =
     dec_round 2 (payment * normalize_balance_recharge_multiplier multiplier)"

definition calculate_gateway_refund_amount :: "rat \<Rightarrow> rat \<Rightarrow> rat \<Rightarrow> string \<Rightarrow> rat" where
  "calculate_gateway_refund_amount order_amount pay_amount refund_amount currency =
     (if order_amount \<le> 0 \<or> pay_amount \<le> 0 \<or> refund_amount \<le> 0 then 0
      else let digits = currency_max_fraction_digits currency
           in if \<bar>refund_amount - order_amount\<bar> \<le> payment_amount_tolerance_for_currency currency
              then dec_round digits pay_amount
              else dec_round digits (dec_div (pay_amount * refund_amount) order_amount))"


lemma dec_truncate_exact: "x = of_int k \<Longrightarrow> dec_truncate x = k"
  by (simp add: dec_truncate_def)

lemma amount_unit_cases:
  "amount_unit_for c \<in> {zero_decimal_unit, two_decimal_unit, three_decimal_unit, stripe_legacy_zero_unit}"
proof -
  have "\<forall>(k, u) \<in> set payment_currency_amount_units.
      u \<in> {zero_decimal_unit, two_decimal_unit, three_decimal_unit, stripe_legacy_zero_unit}"
    unfolding payment_currency_amount_units_def by auto
  then show ?thesis
    by (auto simp: amount_unit_for_def split: option.splits dest!: map_of_SomeD)
qed

lemmas unit_defs = zero_decimal_unit_def two_decimal_unit_def three_decimal_unit_def stripe_legacy_zero_unit_def

lemma unit_bounds:
  "max_fraction_digits (amount_unit_for c) \<le> api_minor_unit (amount_unit_for c)"
  "api_minor_unit (amount_unit_for c) \<le> 3"
  using amount_unit_cases [of c] by (auto simp: unit_defs)

text \<open>an amount is only turned into minor units when it has no more digits than its currency allows,
  and then nothing is cut off: the minor units denote exactly the amount.\<close>

theorem minor_unit_exact:
  assumes "amount_to_minor_unit d currency = Inr m" "normalize_payment_currency currency = Some c"
  shows "d * 10 ^ api_minor_unit (amount_unit_for c) = of_int m"
proof -
  let ?f = "max_fraction_digits (amount_unit_for c)" and ?a = "api_minor_unit (amount_unit_for c)"
  obtain k where k: "d * 10 ^ ?f = of_int k" and m: "m = dec_truncate (d * 10 ^ ?a)"
    using assms by (auto simp: amount_to_minor_unit_def Let_def split: if_splits)
  have "(10::rat) ^ ?a = 10 ^ ?f * 10 ^ (?a - ?f)"
    using unit_bounds(1) [of c] by (simp flip: power_add)
  then have "d * 10 ^ ?a = of_int (k * 10 ^ (?a - ?f))" using k by (simp add: mult.assoc [symmetric])
  with m show ?thesis using dec_truncate_exact by metis
qed

lemma minor_unit_to_amount_exact:
  "minor_unit_to_amount v currency = of_int v / 10 ^ currency_minor_unit currency"
proof -
  let ?a = "currency_minor_unit currency"
  have "?a \<le> 16" using unit_bounds(2) [of currency] by (simp add: currency_minor_unit_def)
  then have e: "(10::rat) ^ 16 = 10 ^ (16 - ?a) * 10 ^ ?a" by (simp flip: power_add)
  have "of_int v / 10 ^ ?a * 10 ^ 16 = rat_of_int (v * 10 ^ (16 - ?a))" unfolding e by simp
  then show ?thesis unfolding minor_unit_to_amount_def dec_div_def by (rule dec_round_fix)
qed


text \<open>a fee is never rounded away: for an amount within the digits of its currency, the amount to pay is
  the amount plus at least the fee (as \<open>Div\<close> yields it) and less than one smallest unit more.\<close>

theorem pay_amount_covers_fee:
  assumes "0 \<le> amount" "0 < fee_rate" "amount * 10 ^ currency_max_fraction_digits currency = of_int k"
  shows "amount + dec_div (amount * fee_rate) 100 \<le> calculate_pay_amount_for_currency amount fee_rate currency \<and>
    calculate_pay_amount_for_currency amount fee_rate currency
      < amount + dec_div (amount * fee_rate) 100 + 1 / 10 ^ currency_max_fraction_digits currency"
proof -
  let ?n = "currency_max_fraction_digits currency"
  let ?fee = "dec_div (amount * fee_rate) 100"
  have fee: "0 \<le> ?fee" unfolding dec_div_def using assms(1,2) by (intro dec_round_nonneg) simp
  have "(amount + dec_round_up ?n ?fee) * 10 ^ ?n = of_int (k + \<lceil>?fee * 10 ^ ?n\<rceil>)"
    using assms(3) fee by (simp add: dec_round_up_def algebra_simps)
  from dec_round_fix [OF this]
  have "calculate_pay_amount_for_currency amount fee_rate currency = amount + dec_round_up ?n ?fee"
    using assms(2) by (simp add: calculate_pay_amount_for_currency_def Let_def)
  then show ?thesis using dec_round_up_ge [OF fee] dec_round_up_less [OF fee] by (simp add: add.assoc)
qed

lemma dec_div_le: "0 < b \<Longrightarrow> a \<le> c * b \<Longrightarrow> dec_div a b \<le> dec_round 16 c"
  unfolding dec_div_def by (intro dec_round_mono) (simp add: pos_divide_le_eq)

text \<open>the amount a gateway is asked to refund is never negative and never more than what was paid, rounded
  to the currency, as long as no more than the order's amount is refunded.\<close>

theorem gateway_refund_bounded:
  assumes "refund_amount \<le> order_amount" "pay_amount * 10 ^ 16 = of_int k"
  shows "0 \<le> calculate_gateway_refund_amount order_amount pay_amount refund_amount currency \<and>
    (0 < pay_amount \<longrightarrow> calculate_gateway_refund_amount order_amount pay_amount refund_amount currency
       \<le> dec_round (currency_max_fraction_digits currency) pay_amount)"
proof -
  let ?n = "currency_max_fraction_digits currency"
  have pos: "0 \<le> dec_round ?n pay_amount" if "0 < pay_amount" using that by (simp add: dec_round_nonneg)
  have part: "0 \<le> dec_div (pay_amount * refund_amount) order_amount \<and>
      dec_div (pay_amount * refund_amount) order_amount \<le> pay_amount"
    if "0 < order_amount" "0 < pay_amount" "0 < refund_amount"
  proof
    show "0 \<le> dec_div (pay_amount * refund_amount) order_amount"
      unfolding dec_div_def using that by (intro dec_round_nonneg) simp
    have "pay_amount * refund_amount \<le> pay_amount * order_amount" using assms(1) that by simp
    from dec_div_le [OF that(1) this] show "dec_div (pay_amount * refund_amount) order_amount \<le> pay_amount"
      using dec_round_fix [OF assms(2)] by simp
  qed
  show ?thesis
    using pos part
    by (auto simp: calculate_gateway_refund_amount_def Let_def intro: dec_round_nonneg dec_round_mono)
qed

section \<open>The properties at concrete inputs\<close>

lemma minor_unit_exact_witness: "(1234 / 100 :: rat) * 10 ^ api_minor_unit (amount_unit_for ''USD'') = of_int 1234"
  by (rule minor_unit_exact [of _ "''usd''"]) code_simp+


lemma pay_amount_covers_fee_witness: "10 + dec_div (10 * 3) 100 \<le> calculate_pay_amount_for_currency 10 3 ''CNY''"
proof -
  have "(10::rat) * 10 ^ currency_max_fraction_digits ''CNY'' = of_int 1000" by code_simp
  with pay_amount_covers_fee [of 10 3 "''CNY''" 1000] show ?thesis by simp
qed

lemma gateway_refund_bounded_witness:
  "calculate_gateway_refund_amount 30 100 10 ''CNY'' \<le> dec_round (currency_max_fraction_digits ''CNY'') 100"
  using gateway_refund_bounded [of 10 30 100 "10 ^ 18" "''CNY''"] by simp

end
