(* ===== verification/Usage_Billing.thy ===== *)
theory Usage_Billing
  imports Currency
begin

text \<open>
  Billing of requests: \<open>service/usage_billing.go\<close>, \<open>repository/usage_billing_repo.go\<close> and the
  rental split of \<open>service/token_bank_strategy.go\<close> with \<open>repository/token_bank_settlement.go\<close>.
  A request is charged in one transaction, which claims the pair of its request id and API key in
  the table \<open>usage_billing_dedup\<close> and then books subscription usage, the balance, the quota and
  the rate windows of the key, the quota of the upstream account and the rental shares. Cleaning
  moves old claims to an archive table that the claim also consults.

  A statement runs on the tables of \<open>billing_db\<close> and returns an error or a value with the new
  tables; a transaction that returns an error leaves the tables as they were. Amounts are the
  decimals that the statements send to the database (the shortest decimal of the float); NaN,
  infinities and overflow of \<open>NUMERIC(20,8)\<close> are left out. What the database knows about time
  zones is the parameter \<open>zones\<close>, and \<open>sha\<close> stands for the hash of the formatted fingerprint.
\<close>

section \<open>Tables\<close>

record billing_user =
  bu_balance :: rat
  bu_frozen :: rat
  bu_deleted :: bool

record billing_key =
  bk_quota :: rat
  bk_quota_used :: rat
  bk_status :: string
  bk_usage_5h :: rat
  bk_usage_1d :: rat
  bk_usage_7d :: rat
  bk_window_5h :: "gotime option"
  bk_window_1d :: "gotime option"
  bk_window_7d :: "gotime option"
  bk_deleted :: bool

record billing_subscription =
  bs_group :: int
  bs_daily :: rat
  bs_weekly :: rat
  bs_monthly :: rat
  bs_deleted :: bool

text \<open>The quota fields of the JSON column \<open>accounts.extra\<close>.\<close>

record quota_extra =
  qe_used :: "rat option"
  qe_limit :: "rat option"
  qe_daily_used :: "rat option"
  qe_daily_limit :: "rat option"
  qe_daily_start :: "gotime option"
  qe_daily_mode :: "string option"
  qe_daily_reset_at :: "gotime option"
  qe_daily_hour :: "int option"
  qe_weekly_used :: "rat option"
  qe_weekly_limit :: "rat option"
  qe_weekly_start :: "gotime option"
  qe_weekly_mode :: "string option"
  qe_weekly_reset_at :: "gotime option"
  qe_weekly_hour :: "int option"
  qe_weekly_day :: "int option"
  qe_timezone :: "string option"

record billing_account =
  ba_extra :: quota_extra
  ba_deleted :: bool

record rental_snapshot =
  rs_owner_account :: int
  rs_owner_user :: int
  rs_admin_user :: int
  rs_channel :: int
  rs_bps :: int
  rs_platform :: string
  rs_group :: int

record revenue_entry =
  re_request :: string
  re_key :: int
  re_account :: int
  re_rental :: rental_snapshot
  re_model :: string
  re_billing_type :: int
  re_input :: int
  re_output :: int
  re_cache :: int
  re_bill :: rat
  re_owner :: rat
  re_admin :: rat

type_synonym claim_key = "string \<times> int"

text \<open>A claim holds the fingerprint and the time of its insertion.\<close>

record billing_db =
  bd_users :: "int \<Rightarrow> billing_user option"
  bd_keys :: "int \<Rightarrow> billing_key option"
  bd_subs :: "int \<Rightarrow> billing_subscription option"
  bd_groups :: "int \<Rightarrow> bool"
  bd_accounts :: "int \<Rightarrow> billing_account option"
  bd_dedup :: "claim_key \<Rightarrow> (string \<times> gotime) option"
  bd_archive :: "claim_key \<Rightarrow> string option"
  bd_ledger :: "revenue_entry list"
  bd_outbox :: "int list"
  bd_now :: gotime

datatype billing_error =
    RequestIDRequired
  | RequestConflict
  | SubscriptionNotFound
  | UserNotFound
  | APIKeyNotFound
  | AccountNotFound
  | IncompleteRental
  | InvalidRevenue
  | NoRows
  | UniqueViolation
  | CheckViolation
  | InsufficientBalance
  | CostExceedsHold
  | FrozenInsufficient

type_synonym 'a stmt = "billing_db \<Rightarrow> billing_error + 'a \<times> billing_db"

definition and_then :: "'a stmt \<Rightarrow> ('a \<Rightarrow> 'b stmt) \<Rightarrow> 'b stmt" where
  "and_then m f db = (case m db of Inl e \<Rightarrow> Inl e | Inr (a, db') \<Rightarrow> f a db')"

text \<open>The end of a transaction: an error rolls back.\<close>

definition transact :: "'a stmt \<Rightarrow> billing_db \<Rightarrow> (billing_error + 'a) \<times> billing_db" where
  "transact m db = (case m db of Inl e \<Rightarrow> (Inl e, db) | Inr (a, db') \<Rightarrow> (Inr a, db'))"

section \<open>Commands\<close>

record usage_command =
  uc_rental :: "rental_snapshot option"
  uc_request_id :: string
  uc_key :: int
  uc_fingerprint :: string
  uc_payload_hash :: string
  uc_user :: int
  uc_account :: int
  uc_subscription :: "int option"
  uc_account_type :: string
  uc_model :: string
  uc_tier :: string
  uc_effort :: string
  uc_billing_type :: int
  uc_input :: int
  uc_output :: int
  uc_cache_creation :: int
  uc_cache_read :: int
  uc_images :: int
  uc_media :: string
  uc_balance_cost :: rat
  uc_subscription_cost :: rat
  uc_key_quota_cost :: rat
  uc_rate_limit_cost :: rat
  uc_account_cost :: rat

definition UsageBillingMonetaryScale :: nat where "UsageBillingMonetaryScale = 8"

definition quantize_usage_billing_amount :: "rat \<Rightarrow> rat" where
  "quantize_usage_billing_amount v = (if v = 0 then v else dec_round UsageBillingMonetaryScale v)"

definition quantize_monetary_fields :: "usage_command \<Rightarrow> usage_command" where
  "quantize_monetary_fields c = c\<lparr>
     uc_balance_cost := quantize_usage_billing_amount (uc_balance_cost c),
     uc_subscription_cost := quantize_usage_billing_amount (uc_subscription_cost c),
     uc_key_quota_cost := quantize_usage_billing_amount (uc_key_quota_cost c),
     uc_rate_limit_cost := quantize_usage_billing_amount (uc_rate_limit_cost c),
     uc_account_cost := quantize_usage_billing_amount (uc_account_cost c)\<rparr>"

text \<open>The formatted parts of a fingerprint, in order.\<close>

datatype fp_part = FInt int | FText string | FAmount rat

definition value_or_zero :: "int option \<Rightarrow> int" where
  "value_or_zero v = (case v of None \<Rightarrow> 0 | Some i \<Rightarrow> i)"

definition payload_part :: "string \<Rightarrow> fp_part list" where
  "payload_part h = (if trim_space h \<noteq> [] then [FText (trim_space h)] else [])"

definition usage_fingerprint_parts :: "usage_command \<Rightarrow> fp_part list" where
  "usage_fingerprint_parts c =
     [FInt (uc_user c), FInt (uc_account c), FInt (uc_key c), FText (trim_space (uc_account_type c)),
      FText (trim_space (uc_model c)), FText (trim_space (uc_tier c)), FText (trim_space (uc_effort c)),
      FInt (uc_billing_type c), FInt (uc_input c), FInt (uc_output c), FInt (uc_cache_creation c),
      FInt (uc_cache_read c), FInt (uc_images c), FText (trim_space (uc_media c)),
      FInt (value_or_zero (uc_subscription c)), FAmount (uc_balance_cost c), FAmount (uc_subscription_cost c),
      FAmount (uc_key_quota_cost c), FAmount (uc_rate_limit_cost c), FAmount (uc_account_cost c)] @
     payload_part (uc_payload_hash c) @
     (case uc_rental c of None \<Rightarrow> []
      | Some r \<Rightarrow> [FText ''rental'', FInt (rs_owner_account r), FInt (rs_owner_user r), FInt (rs_admin_user r),
                   FInt (rs_channel r), FInt (rs_bps r), FText (rs_platform r), FInt (rs_group r)])"

definition normalize_usage :: "(fp_part list \<Rightarrow> string) \<Rightarrow> usage_command \<Rightarrow> usage_command" where
  "normalize_usage sha c =
     (let c1 = c\<lparr>uc_request_id := trim_space (uc_request_id c)\<rparr>;
          c2 = (if trim_space (uc_fingerprint c1) = []
                then c1\<lparr>uc_fingerprint := sha (usage_fingerprint_parts c1)\<rparr> else c1)
      in quantize_monetary_fields c2)"

record account_quota_state =
  qs_total_used :: rat
  qs_total_limit :: rat
  qs_daily_used :: rat
  qs_daily_limit :: rat
  qs_weekly_used :: rat
  qs_weekly_limit :: rat

record apply_result =
  ar_revenue_users :: "int list"
  ar_applied :: bool
  ar_quota_exhausted :: bool
  ar_new_balance :: "rat option"
  ar_overdrafted :: bool
  ar_quota_state :: "account_quota_state option"

definition no_apply_result :: apply_result where
  "no_apply_result = \<lparr>ar_revenue_users = [], ar_applied = False, ar_quota_exhausted = False,
     ar_new_balance = None, ar_overdrafted = False, ar_quota_state = None\<rparr>"

section \<open>Claims\<close>

definition claim_usage_billing_request :: "string \<Rightarrow> int \<Rightarrow> string \<Rightarrow> bool stmt" where
  "claim_usage_billing_request rid kid fp db =
     (case bd_dedup db (rid, kid) of
        Some (old, _) \<Rightarrow>
          if trim_space old \<noteq> trim_space fp then Inl RequestConflict else Inr (False, db)
      | None \<Rightarrow>
          let db' = db\<lparr>bd_dedup := (bd_dedup db)((rid, kid) \<mapsto> (fp, bd_now db))\<rparr> in
          (case bd_archive db (rid, kid) of
             Some old \<Rightarrow>
               if trim_space old \<noteq> trim_space fp then Inl RequestConflict else Inr (False, db')
           | None \<Rightarrow> Inr (True, db')))"

text \<open>
  \<open>CleanupUsageBillingDedup\<close> moves the claims made before the cutoff to the archive, batch by
  batch; \<open>victims\<close> is one batch.
\<close>

definition archive_claims :: "gotime \<Rightarrow> claim_key list \<Rightarrow> billing_db \<Rightarrow> billing_db" where
  "archive_claims cutoff victims db =
     (let moved = (\<lambda>k. k \<in> set victims \<and> (case bd_dedup db k of None \<Rightarrow> False | Some (_, t) \<Rightarrow> t < cutoff))
      in db\<lparr>bd_archive := (\<lambda>k. case bd_archive db k of
                Some old \<Rightarrow> Some old
              | None \<Rightarrow> if moved k then map_option fst (bd_dedup db k) else None),
            bd_dedup := (\<lambda>k. if moved k then None else bd_dedup db k)\<rparr>)"

section \<open>Effects\<close>

text \<open>A column of type \<open>NUMERIC(20,8)\<close> or \<open>NUMERIC(20,10)\<close> rounds what is assigned to it.\<close>

definition numeric8 :: "rat \<Rightarrow> rat" where "numeric8 = dec_round 8"

definition numeric10 :: "rat \<Rightarrow> rat" where "numeric10 = dec_round 10"

text \<open>The row that \<open>WHERE id = $1 AND deleted_at IS NULL\<close> selects.\<close>

definition live_user :: "billing_db \<Rightarrow> int \<Rightarrow> billing_user option" where
  "live_user db uid =
     (case bd_users db uid of Some u \<Rightarrow> if bu_deleted u then None else Some u | None \<Rightarrow> None)"

definition live_key :: "billing_db \<Rightarrow> int \<Rightarrow> billing_key option" where
  "live_key db kid =
     (case bd_keys db kid of Some k \<Rightarrow> if bk_deleted k then None else Some k | None \<Rightarrow> None)"

definition put_user :: "int \<Rightarrow> billing_user \<Rightarrow> billing_db \<Rightarrow> billing_db" where
  "put_user uid u db = db\<lparr>bd_users := (bd_users db)(uid \<mapsto> u)\<rparr>"

definition put_key :: "int \<Rightarrow> billing_key \<Rightarrow> billing_db \<Rightarrow> billing_db" where
  "put_key kid k db = db\<lparr>bd_keys := (bd_keys db)(kid \<mapsto> k)\<rparr>"

definition increment_usage_billing_subscription :: "int \<Rightarrow> rat \<Rightarrow> unit stmt" where
  "increment_usage_billing_subscription sid cost db =
     (case bd_subs db sid of
        None \<Rightarrow> Inl SubscriptionNotFound
      | Some s \<Rightarrow>
          if bs_deleted s \<or> \<not> bd_groups db (bs_group s) then Inl SubscriptionNotFound
          else Inr ((), db\<lparr>bd_subs := (bd_subs db)(sid \<mapsto> s\<lparr>
                 bs_daily := numeric10 (bs_daily s + cost),
                 bs_weekly := numeric10 (bs_weekly s + cost),
                 bs_monthly := numeric10 (bs_monthly s + cost)\<rparr>)\<rparr>))"

text \<open>
  The first update takes the amount from a sufficient balance; when it finds no row, the second
  one records the debt.
\<close>

definition deduct_usage_billing_balance :: "int \<Rightarrow> rat \<Rightarrow> (rat \<times> bool) stmt" where
  "deduct_usage_billing_balance uid amount db =
     (case live_user db uid of
        None \<Rightarrow> Inl UserNotFound
      | Some u \<Rightarrow>
          let b = numeric8 (bu_balance u - amount); db' = put_user uid (u\<lparr>bu_balance := b\<rparr>) db in
          if bu_balance u \<ge> amount then Inr ((b, True), db') else Inr ((b, False), db'))"

definition StatusAPIKeyActive :: string where "StatusAPIKeyActive = ''active''"
definition StatusAPIKeyQuotaExhausted :: string where "StatusAPIKeyQuotaExhausted = ''quota_exhausted''"

definition increment_usage_billing_api_key_quota :: "int \<Rightarrow> rat \<Rightarrow> bool stmt" where
  "increment_usage_billing_api_key_quota kid amount db =
     (case live_key db kid of
        None \<Rightarrow> Inl APIKeyNotFound
      | Some k \<Rightarrow>
          let used = numeric8 (bk_quota_used k + amount);
              st = (if bk_quota k > 0 \<and> bk_status k = StatusAPIKeyActive \<and> bk_quota_used k < bk_quota k \<and>
                       bk_quota_used k + amount \<ge> bk_quota k
                    then StatusAPIKeyQuotaExhausted else bk_status k)
          in Inr (bk_quota k > 0 \<and> used \<ge> bk_quota k \<and> used - amount < bk_quota k,
                  put_key kid (k\<lparr>bk_quota_used := used, bk_status := st\<rparr>) db))"

text \<open>
  A window that has run out starts again with this cost. The windows of one and seven days start
  at the beginning of the day in the time zone of the session.
\<close>

record zones =
  zn_day_start :: "gotime \<Rightarrow> gotime"
  zn_local :: "string \<Rightarrow> gotime \<Rightarrow> int"
  zn_instant :: "string \<Rightarrow> int \<Rightarrow> gotime"

definition window_out :: "gotime \<Rightarrow> duration \<Rightarrow> gotime option \<Rightarrow> bool" where
  "window_out now len start = (case start of None \<Rightarrow> False | Some s \<Rightarrow> s + len \<le> now)"

definition window_usage :: "gotime \<Rightarrow> duration \<Rightarrow> gotime option \<Rightarrow> rat \<Rightarrow> rat \<Rightarrow> rat" where
  "window_usage now len start used cost =
     numeric8 (if window_out now len start then cost else used + cost)"

definition window_start :: "gotime \<Rightarrow> duration \<Rightarrow> gotime option \<Rightarrow> gotime \<Rightarrow> gotime option" where
  "window_start now len start fresh =
     (if start = None \<or> window_out now len start then Some fresh else start)"

definition increment_usage_billing_api_key_rate_limit :: "zones \<Rightarrow> int \<Rightarrow> rat \<Rightarrow> unit stmt" where
  "increment_usage_billing_api_key_rate_limit z kid cost db =
     (case live_key db kid of
        None \<Rightarrow> Inl APIKeyNotFound
      | Some k \<Rightarrow>
          let now = bd_now db in
          Inr ((), put_key kid (k\<lparr>
            bk_usage_5h := window_usage now (5 * Hour) (bk_window_5h k) (bk_usage_5h k) cost,
            bk_usage_1d := window_usage now (24 * Hour) (bk_window_1d k) (bk_usage_1d k) cost,
            bk_usage_7d := window_usage now (7 * 24 * Hour) (bk_window_7d k) (bk_usage_7d k) cost,
            bk_window_5h := window_start now (5 * Hour) (bk_window_5h k) now,
            bk_window_1d := window_start now (24 * Hour) (bk_window_1d k) (zn_day_start z now),
            bk_window_7d := window_start now (7 * 24 * Hour) (bk_window_7d k) (zn_day_start z now)\<rparr>) db))"

section \<open>Quotas of upstream accounts\<close>

text \<open>
  Periods are rolling (a length from their start) or fixed (until a precomputed reset time). Local
  times are nanoseconds on the local calendar, counted from a Thursday, 1 January 1970.
\<close>

definition or_zero :: "rat option \<Rightarrow> rat" where
  "or_zero v = (case v of None \<Rightarrow> 0 | Some x \<Rightarrow> x)"

definition or_default :: "'a \<Rightarrow> 'a option \<Rightarrow> 'a" where
  "or_default d v = (case v of None \<Rightarrow> d | Some x \<Rightarrow> x)"

definition daily_expired :: "gotime \<Rightarrow> quota_extra \<Rightarrow> bool" where
  "daily_expired now e =
     (if or_default ''rolling'' (qe_daily_mode e) = ''fixed''
      then now \<ge> or_default 0 (qe_daily_reset_at e)
      else or_default 0 (qe_daily_start e) + 24 * Hour \<le> now)"

definition weekly_expired :: "gotime \<Rightarrow> quota_extra \<Rightarrow> bool" where
  "weekly_expired now e =
     (if or_default ''rolling'' (qe_weekly_mode e) = ''fixed''
      then now \<ge> or_default 0 (qe_weekly_reset_at e)
      else or_default 0 (qe_weekly_start e) + 168 * Hour \<le> now)"

definition Day :: duration where "Day = 24 * Hour"

definition quota_zone :: "quota_extra \<Rightarrow> string" where
  "quota_zone e = or_default ''UTC'' (qe_timezone e)"

definition local_midnight :: "zones \<Rightarrow> quota_extra \<Rightarrow> gotime \<Rightarrow> int" where
  "local_midnight z e now = (let l = zn_local z (quota_zone e) now in l - l mod Day)"

definition next_daily_reset_at :: "zones \<Rightarrow> gotime \<Rightarrow> quota_extra \<Rightarrow> gotime option" where
  "next_daily_reset_at z now e =
     (if or_default ''rolling'' (qe_daily_mode e) = ''fixed''
      then let point = local_midnight z e now + or_default 0 (qe_daily_hour e) * Hour;
               inst = zn_instant z (quota_zone e)
           in Some (if now \<ge> inst point then inst (point + Day) else inst point)
      else None)"

definition day_of_week :: "int \<Rightarrow> int" where
  "day_of_week l = (l div Day + 4) mod 7"

definition days_forward :: "zones \<Rightarrow> gotime \<Rightarrow> quota_extra \<Rightarrow> int" where
  "days_forward z now e =
     go_mod (or_default 1 (qe_weekly_day e) - day_of_week (zn_local z (quota_zone e) now) + 7) 7"

definition next_weekly_reset_at :: "zones \<Rightarrow> gotime \<Rightarrow> quota_extra \<Rightarrow> gotime option" where
  "next_weekly_reset_at z now e =
     (if or_default ''rolling'' (qe_weekly_mode e) = ''fixed''
      then let point = local_midnight z e now + or_default 0 (qe_weekly_hour e) * Hour;
               inst = zn_instant z (quota_zone e)
           in Some (if days_forward z now e = 0 \<and> now \<ge> inst point then inst (point + 7 * Day)
                    else inst (point + days_forward z now e * Day))
      else None)"

text \<open>
  The new value of \<open>extra\<close>: the total always grows; a period with a limit restarts when it has
  expired, and a fixed one then gets its next reset time.
\<close>

definition bump_extra :: "zones \<Rightarrow> gotime \<Rightarrow> rat \<Rightarrow> quota_extra \<Rightarrow> quota_extra" where
  "bump_extra z now amount e =
     (let daily = or_zero (qe_daily_limit e) > 0; weekly = or_zero (qe_weekly_limit e) > 0;
          d = daily_expired now e; w = weekly_expired now e
      in e\<lparr>qe_used := Some (or_zero (qe_used e) + amount),
           qe_daily_used := (if daily then Some (if d then amount else or_zero (qe_daily_used e) + amount)
                             else qe_daily_used e),
           qe_daily_start := (if daily then (if d then Some now else Some (or_default now (qe_daily_start e)))
                              else qe_daily_start e),
           qe_daily_reset_at := (if daily \<and> d \<and> next_daily_reset_at z now e \<noteq> None
                                 then next_daily_reset_at z now e else qe_daily_reset_at e),
           qe_weekly_used := (if weekly then Some (if w then amount else or_zero (qe_weekly_used e) + amount)
                              else qe_weekly_used e),
           qe_weekly_start := (if weekly then (if w then Some now else Some (or_default now (qe_weekly_start e)))
                               else qe_weekly_start e),
           qe_weekly_reset_at := (if weekly \<and> w \<and> next_weekly_reset_at z now e \<noteq> None
                                  then next_weekly_reset_at z now e else qe_weekly_reset_at e)\<rparr>)"

definition crossed :: "rat \<Rightarrow> rat \<Rightarrow> rat \<Rightarrow> bool" where
  "crossed amount used limit = (limit > 0 \<and> used \<ge> limit \<and> used - amount < limit)"

definition increment_usage_billing_account_quota :: "zones \<Rightarrow> int \<Rightarrow> rat \<Rightarrow> account_quota_state stmt" where
  "increment_usage_billing_account_quota z aid amount db =
     (case bd_accounts db aid of
        None \<Rightarrow> Inl AccountNotFound
      | Some a \<Rightarrow>
          if ba_deleted a then Inl AccountNotFound
          else let e = bump_extra z (bd_now db) amount (ba_extra a);
                   st = \<lparr>qs_total_used = or_zero (qe_used e), qs_total_limit = or_zero (qe_limit e),
                         qs_daily_used = or_zero (qe_daily_used e), qs_daily_limit = or_zero (qe_daily_limit e),
                         qs_weekly_used = or_zero (qe_weekly_used e), qs_weekly_limit = or_zero (qe_weekly_limit e)\<rparr>;
                   db1 = db\<lparr>bd_accounts := (bd_accounts db)(aid \<mapsto> a\<lparr>ba_extra := e\<rparr>)\<rparr>;
                   changed = crossed amount (qs_total_used st) (qs_total_limit st) \<or>
                     crossed amount (qs_daily_used st) (qs_daily_limit st) \<or>
                     crossed amount (qs_weekly_used st) (qs_weekly_limit st)
               in Inr (st, if changed then db1\<lparr>bd_outbox := bd_outbox db1 @ [aid]\<rparr> else db1))"

section \<open>Rental shares\<close>

record revenue_allocation =
  al_bill :: rat
  al_owner :: rat
  al_admin :: rat

definition rental_split :: "rat \<Rightarrow> rental_snapshot \<Rightarrow> billing_error + revenue_allocation" where
  "rental_split amount s =
     (if amount < 0 \<or> rs_bps s < 0 \<or> rs_bps s > 10000 then Inl InvalidRevenue
      else let bill = dec_round UsageBillingMonetaryScale amount;
               owner = dec_round UsageBillingMonetaryScale (dec_div (bill * of_int (rs_bps s)) 10000)
           in Inr \<lparr>al_bill = bill, al_owner = owner, al_admin = bill - owner\<rparr>)"

text \<open>Every participant is locked, and so has to exist.\<close>

fun lock_users :: "int list \<Rightarrow> unit stmt" where
  "lock_users [] db = Inr ((), db)"
| "lock_users (i # is) db = (case live_user db i of None \<Rightarrow> Inl NoRows | Some _ \<Rightarrow> lock_users is db)"

type_synonym rental_settlement = "rental_snapshot \<times> revenue_allocation"

definition prepare_rental_settlement :: "usage_command \<Rightarrow> rental_settlement option stmt" where
  "prepare_rental_settlement c db =
     (case uc_rental c of
        None \<Rightarrow> Inr (None, db)
      | Some s \<Rightarrow>
          if rs_owner_account s \<le> 0 \<or> rs_owner_user s \<le> 0 \<or> rs_admin_user s \<le> 0 \<or> rs_channel s \<le> 0 \<or>
             rs_group s \<le> 0 then Inl IncompleteRental
          else case rental_split (uc_balance_cost c + uc_subscription_cost c) s of
            Inl e \<Rightarrow> Inl e
          | Inr a \<Rightarrow>
              if al_bill a = 0 then Inr (None, db)
              else case lock_users (remdups_adj (sort [uc_user c, rs_owner_user s, rs_admin_user s])) db of
                Inl e \<Rightarrow> Inl e
              | Inr (_, db') \<Rightarrow> Inr (Some (s, a), db'))"

definition credit_balance :: "int \<Rightarrow> rat \<Rightarrow> rat stmt" where
  "credit_balance uid amount db =
     (case live_user db uid of
        None \<Rightarrow> Inl NoRows
      | Some u \<Rightarrow> let b = numeric8 (bu_balance u + amount) in Inr (b, put_user uid (u\<lparr>bu_balance := b\<rparr>) db))"

text \<open>The ledger has a unique index on request and key, and checks that the shares make the bill.\<close>

definition insert_revenue :: "revenue_entry \<Rightarrow> unit stmt" where
  "insert_revenue e db =
     (if \<exists>x \<in> set (bd_ledger db). re_request x = re_request e \<and> re_key x = re_key e then Inl UniqueViolation
      else if re_bill e \<ge> 0 \<and> re_owner e \<ge> 0 \<and> re_admin e \<ge> 0 \<and> re_owner e + re_admin e = re_bill e
      then Inr ((), db\<lparr>bd_ledger := bd_ledger db @ [e]\<rparr>) else Inl CheckViolation)"

definition apply_rental_settlement ::
  "rental_settlement option \<Rightarrow> usage_command \<Rightarrow> apply_result \<Rightarrow> apply_result stmt" where
  "apply_rental_settlement rs c r db =
     (case rs of
        None \<Rightarrow> Inr (r, db)
      | Some (p, a) \<Rightarrow>
          and_then (insert_revenue \<lparr>re_request = uc_request_id c, re_key = uc_key c, re_account = uc_account c,
              re_rental = p, re_model = uc_model c, re_billing_type = uc_billing_type c, re_input = uc_input c,
              re_output = uc_output c, re_cache = uc_cache_creation c + uc_cache_read c,
              re_bill = numeric8 (al_bill a), re_owner = numeric8 (al_owner a), re_admin = numeric8 (al_admin a)\<rparr>)
            (\<lambda>_. and_then (credit_balance (rs_owner_user p) (numeric8 (al_owner a)))
              (\<lambda>b1. and_then (credit_balance (rs_admin_user p) (numeric8 (al_admin a)))
                (\<lambda>b2 db'. Inr (r\<lparr>
                   ar_new_balance := (if rs_admin_user p = uc_user c then Some b2
                                      else if rs_owner_user p = uc_user c then Some b1 else ar_new_balance r),
                   ar_revenue_users := rs_owner_user p #
                     (if rs_admin_user p \<noteq> rs_owner_user p then [rs_admin_user p] else [])\<rparr>, db')))) db)"

section \<open>The transaction\<close>

definition AccountTypeAPIKey :: string where "AccountTypeAPIKey = ''apikey''"
definition AccountTypeBedrock :: string where "AccountTypeBedrock = ''bedrock''"

text \<open>An effect on a key that no longer exists is skipped.\<close>

definition skip_missing_key :: "'a \<Rightarrow> 'a stmt \<Rightarrow> 'a stmt" where
  "skip_missing_key d m db =
     (case m db of Inl APIKeyNotFound \<Rightarrow> Inr (d, db) | Inl e \<Rightarrow> Inl e | Inr x \<Rightarrow> Inr x)"

definition effect_subscription :: "usage_command \<Rightarrow> apply_result \<Rightarrow> apply_result stmt" where
  "effect_subscription c r db =
     (case uc_subscription c of
        Some sid \<Rightarrow>
          if uc_subscription_cost c > 0
          then and_then (increment_usage_billing_subscription sid (uc_subscription_cost c)) (\<lambda>_ d. Inr (r, d)) db
          else Inr (r, db)
      | None \<Rightarrow> Inr (r, db))"

definition effect_balance :: "usage_command \<Rightarrow> apply_result \<Rightarrow> apply_result stmt" where
  "effect_balance c r db =
     (if uc_balance_cost c > 0
      then and_then (deduct_usage_billing_balance (uc_user c) (uc_balance_cost c))
             (\<lambda>(b, sufficient) d. Inr (r\<lparr>ar_new_balance := Some b, ar_overdrafted := \<not> sufficient\<rparr>, d)) db
      else Inr (r, db))"

definition effect_key_quota :: "usage_command \<Rightarrow> apply_result \<Rightarrow> apply_result stmt" where
  "effect_key_quota c r db =
     (if uc_key_quota_cost c > 0
      then and_then (skip_missing_key False (increment_usage_billing_api_key_quota (uc_key c) (uc_key_quota_cost c)))
             (\<lambda>x d. Inr (r\<lparr>ar_quota_exhausted := x\<rparr>, d)) db
      else Inr (r, db))"

definition effect_rate_limit :: "zones \<Rightarrow> usage_command \<Rightarrow> apply_result \<Rightarrow> apply_result stmt" where
  "effect_rate_limit z c r db =
     (if uc_rate_limit_cost c > 0
      then and_then (skip_missing_key () (increment_usage_billing_api_key_rate_limit z (uc_key c) (uc_rate_limit_cost c)))
             (\<lambda>_ d. Inr (r, d)) db
      else Inr (r, db))"

definition effect_account :: "zones \<Rightarrow> usage_command \<Rightarrow> apply_result \<Rightarrow> apply_result stmt" where
  "effect_account z c r db =
     (if uc_account_cost c > 0 \<and>
         (equal_fold (uc_account_type c) AccountTypeAPIKey \<or> equal_fold (uc_account_type c) AccountTypeBedrock)
      then and_then (increment_usage_billing_account_quota z (uc_account c) (uc_account_cost c))
             (\<lambda>q d. Inr (r\<lparr>ar_quota_state := Some q\<rparr>, d)) db
      else Inr (r, db))"

definition apply_usage_billing_effects :: "zones \<Rightarrow> usage_command \<Rightarrow> apply_result \<Rightarrow> apply_result stmt" where
  "apply_usage_billing_effects z c r =
     and_then (effect_subscription c r) (\<lambda>r1.
     and_then (effect_balance c r1) (\<lambda>r2.
     and_then (effect_key_quota c r2) (\<lambda>r3.
     and_then (effect_rate_limit z c r3) (effect_account z c))))"

text \<open>What runs once the request is claimed.\<close>

definition charge_request :: "zones \<Rightarrow> usage_command \<Rightarrow> apply_result stmt" where
  "charge_request z c =
     and_then (prepare_rental_settlement c) (\<lambda>rs.
     and_then (apply_usage_billing_effects z c (no_apply_result\<lparr>ar_applied := True\<rparr>))
       (apply_rental_settlement rs c))"

text \<open>
  A transaction on a request that is claimed first. When the request is already claimed the
  transaction is not committed.
\<close>

definition claimed_transaction :: "string \<Rightarrow> int \<Rightarrow> string \<Rightarrow> 'a \<Rightarrow> 'a stmt \<Rightarrow> 'a stmt" where
  "claimed_transaction rid kid fp skipped m db =
     (case claim_usage_billing_request rid kid fp db of
        Inl e \<Rightarrow> Inl e
      | Inr (False, _) \<Rightarrow> Inr (skipped, db)
      | Inr (True, db') \<Rightarrow> m db')"

definition apply_usage_billing ::
  "(fp_part list \<Rightarrow> string) \<Rightarrow> zones \<Rightarrow> usage_command option \<Rightarrow>
   billing_db \<Rightarrow> (billing_error + apply_result) \<times> billing_db" where
  "apply_usage_billing sha z cmd db =
     (case cmd of
        None \<Rightarrow> (Inr no_apply_result, db)
      | Some c0 \<Rightarrow>
          let c = normalize_usage sha c0 in
          if uc_request_id c = [] then (Inl RequestIDRequired, db)
          else transact (claimed_transaction (uc_request_id c) (uc_key c) (uc_fingerprint c)
                           no_apply_result (charge_request z c)) db)"

end
