(* ===== verification/Batch_Hold.thy ===== *)
theory Batch_Hold
  imports Usage_Billing
begin

text \<open>
  Balance holds of batch image jobs: the hold part of \<open>service/usage_billing.go\<close> and
  \<open>repository/usage_billing_repo.go\<close>, and \<open>service/batch_image_billing_hold.go\<close>. A hold moves
  money from the balance of a user to the frozen balance, a capture takes the actual cost out of
  it and gives the rest back, a release gives all of it back. Each is claimed in the table that
  requests are claimed in, under a request id made of the batch id.
\<close>

section \<open>Commands\<close>

record hold_command =
  hc_request_id :: string
  hc_key :: int
  hc_fingerprint :: string
  hc_payload_hash :: string
  hc_user :: int
  hc_batch :: string
  hc_hold :: rat
  hc_actual :: rat

definition hold_fingerprint_parts :: "hold_command \<Rightarrow> fp_part list" where
  "hold_fingerprint_parts c =
     [FInt (hc_user c), FInt (hc_key c), FText (trim_space (hc_batch c)), FAmount (hc_hold c), FAmount (hc_actual c)] @
     payload_part (hc_payload_hash c)"

definition normalize_hold :: "(fp_part list \<Rightarrow> string) \<Rightarrow> hold_command \<Rightarrow> hold_command" where
  "normalize_hold sha c =
     (let c1 = c\<lparr>hc_request_id := trim_space (hc_request_id c), hc_batch := trim_space (hc_batch c)\<rparr>
      in if trim_space (hc_fingerprint c1) = []
         then c1\<lparr>hc_fingerprint := sha (hold_fingerprint_parts c1)\<rparr> else c1)"

record hold_result =
  hr_applied :: bool
  hr_new_balance :: "rat option"
  hr_frozen :: "rat option"

definition no_hold_result :: hold_result where
  "no_hold_result = \<lparr>hr_applied = False, hr_new_balance = None, hr_frozen = None\<rparr>"

definition batch_image_hold_request_id :: "string \<Rightarrow> string" where
  "batch_image_hold_request_id b = ''batch_image_hold:'' @ trim_space b"

definition batch_image_capture_request_id :: "string \<Rightarrow> string" where
  "batch_image_capture_request_id b = ''batch_image_capture:'' @ trim_space b"

definition batch_image_release_request_id :: "string \<Rightarrow> string" where
  "batch_image_release_request_id b = ''batch_image_release:'' @ trim_space b"

section \<open>Statements\<close>

text \<open>Both columns of a user are written by one update, which then returns them.\<close>

definition set_funds :: "int \<Rightarrow> billing_user \<Rightarrow> rat \<Rightarrow> rat \<Rightarrow> hold_result stmt" where
  "set_funds uid u balance frozen db =
     Inr (no_hold_result\<lparr>hr_new_balance := Some (numeric8 balance), hr_frozen := Some (numeric8 frozen)\<rparr>,
          put_user uid (u\<lparr>bu_balance := numeric8 balance, bu_frozen := numeric8 frozen\<rparr>) db)"

definition reserve_batch_image_balance :: "hold_command \<Rightarrow> hold_result stmt" where
  "reserve_batch_image_balance c db =
     (if hc_hold c \<le> 0 then Inr (no_hold_result, db)
      else case live_user db (hc_user c) of
        None \<Rightarrow> Inl UserNotFound
      | Some u \<Rightarrow>
          if bu_balance u \<ge> hc_hold c
          then set_funds (hc_user c) u (bu_balance u - hc_hold c) (bu_frozen u + hc_hold c) db
          else Inl InsufficientBalance)"

definition capture_batch_image_balance :: "hold_command \<Rightarrow> hold_result stmt" where
  "capture_batch_image_balance c db =
     (if hc_hold c \<le> 0 \<and> hc_actual c \<le> 0 then Inr (no_hold_result, db)
      else if hc_actual c - hc_hold c > 1 / 10 ^ 8 then Inl CostExceedsHold
      else case live_user db (hc_user c) of
        None \<Rightarrow> Inl UserNotFound
      | Some u \<Rightarrow>
          if bu_frozen u \<ge> hc_hold c
          then set_funds (hc_user c) u
                 (bu_balance u + (if hc_hold c > hc_actual c then hc_hold c - hc_actual c else 0)
                               - (if hc_actual c > hc_hold c then hc_actual c - hc_hold c else 0))
                 (bu_frozen u - hc_hold c) db
          else Inl FrozenInsufficient)"

definition batch_image_hold_claim_exists :: "string \<Rightarrow> int \<Rightarrow> billing_db \<Rightarrow> bool" where
  "batch_image_hold_claim_exists rid kid db =
     (bd_dedup db (rid, kid) \<noteq> None \<or> bd_archive db (rid, kid) \<noteq> None)"

definition release_batch_image_balance :: "hold_command \<Rightarrow> hold_result stmt" where
  "release_batch_image_balance c db =
     (if hc_hold c \<le> 0 then Inr (no_hold_result, db)
      else if \<not> batch_image_hold_claim_exists (batch_image_hold_request_id (hc_batch c)) (hc_key c) db
      then Inr (no_hold_result, db)
      else case live_user db (hc_user c) of
        None \<Rightarrow> Inl UserNotFound
      | Some u \<Rightarrow>
          if bu_frozen u \<ge> hc_hold c
          then set_funds (hc_user c) u (bu_balance u + hc_hold c) (bu_frozen u - hc_hold c) db
          else Inl FrozenInsufficient)"

section \<open>The transaction\<close>

definition apply_batch_image_balance_hold ::
  "(hold_command \<Rightarrow> hold_result stmt) \<Rightarrow> (fp_part list \<Rightarrow> string) \<Rightarrow> hold_command option \<Rightarrow>
   billing_db \<Rightarrow> (billing_error + hold_result) \<times> billing_db" where
  "apply_batch_image_balance_hold f sha cmd db =
     (case cmd of
        None \<Rightarrow> (Inr no_hold_result, db)
      | Some c0 \<Rightarrow>
          let c = normalize_hold sha c0 in
          if hc_request_id c = [] then (Inl RequestIDRequired, db)
          else transact (claimed_transaction (hc_request_id c) (hc_key c) (hc_fingerprint c) no_hold_result
                 (and_then (f c) (\<lambda>r d. Inr (r\<lparr>hr_applied := True\<rparr>, d)))) db)"

definition ReserveBatchImageBalance where
  "ReserveBatchImageBalance = apply_batch_image_balance_hold reserve_batch_image_balance"

definition CaptureBatchImageBalance where
  "CaptureBatchImageBalance = apply_batch_image_balance_hold capture_batch_image_balance"

definition ReleaseBatchImageBalance where
  "ReleaseBatchImageBalance = apply_batch_image_balance_hold release_batch_image_balance"

end
