(* ===== verification/Workers.thy ===== *)
theory Workers
  imports Prelude
begin

text \<open>
  Workers that share a database of any type. A worker issues its statements through \<open>call\<close>: before
  each of them any statements of other workers may run, and each may be refused or lose its
  acknowledgement. The locale \<open>workers\<close> is the rely of a worker on the others: a relation between
  databases that every statement stays within, so that a whole operation does.
\<close>

record 'd world =
  pw_db :: 'd
  pw_env :: "('d \<Rightarrow> 'd) list list"
  pw_faults :: faults

definition interfere :: "('d \<Rightarrow> 'd) list \<Rightarrow> 'd \<Rightarrow> 'd" where
  "interfere es db = fold (\<lambda>e d. e d) es db"

definition call :: "('d \<Rightarrow> 'a \<times> 'd) \<Rightarrow> 'd world \<Rightarrow> 'a answer \<times> 'd world" where
  "call f w =
     (let db = interfere (case pw_env w of [] \<Rightarrow> [] | e # _ \<Rightarrow> e) (pw_db w);
          (flt, fs) = next_fault (pw_faults w);
          w0 = \<lparr>pw_db = db, pw_env = (case pw_env w of [] \<Rightarrow> [] | _ # es \<Rightarrow> es), pw_faults = fs\<rparr>
      in case flt of
           Fine \<Rightarrow> (DbOk (fst (f db)), w0\<lparr>pw_db := snd (f db)\<rparr>)
         | Refused \<Rightarrow> (DbErr, w0)
         | AckLost \<Rightarrow> (DbErr, w0\<lparr>pw_db := snd (f db)\<rparr>))"

text \<open>A call and what follows it when it succeeds.\<close>

definition call_then :: "'a answer \<times> 'd world \<Rightarrow> ('a \<Rightarrow> 'd world \<Rightarrow> 'b answer \<times> 'd world) \<Rightarrow> 'b answer \<times> 'd world" where
  "call_then p k = (case p of (DbErr, w) \<Rightarrow> (DbErr, w) | (DbOk x, w) \<Rightarrow> k x w)"

lemma call_then_simps [simp]: "call_then (DbErr, w) k = (DbErr, w)" "call_then (DbOk x, w) k = k x w"
  by (simp_all add: call_then_def)

text \<open>A worker that nobody disturbs and whose statements succeed.\<close>

definition calm :: "'d world \<Rightarrow> bool" where
  "calm w \<longleftrightarrow> pw_env w = [] \<and> pw_faults w = []"

lemma call_calm [simp]:
  "calm w \<Longrightarrow> call f w = (DbOk (fst (f (pw_db w))), w\<lparr>pw_db := snd (f (pw_db w))\<rparr>)"
  by (cases w) (simp add: calm_def call_def interfere_def)

lemma calm_db [simp]: "calm (w\<lparr>pw_db := db\<rparr>) = calm w"
  by (simp add: calm_def)

section \<open>What stays within a relation\<close>

text \<open>
  A relation between databases that a statement, or every statement of the other workers,
  stays within; and the same for what a worker does with its world.
\<close>

definition safe :: "('d \<Rightarrow> 'd \<Rightarrow> bool) \<Rightarrow> ('d \<Rightarrow> 'a \<times> 'd) \<Rightarrow> bool" where
  "safe G f \<longleftrightarrow> (\<forall>db. G db (snd (f db)))"

definition safe_env :: "('d \<Rightarrow> 'd \<Rightarrow> bool) \<Rightarrow> 'd world \<Rightarrow> bool" where
  "safe_env G w \<longleftrightarrow> (\<forall>es \<in> set (pw_env w). \<forall>e \<in> set es. \<forall>db. G db (e db))"

definition progress :: "('d \<Rightarrow> 'd \<Rightarrow> bool) \<Rightarrow> 'd world \<Rightarrow> 'd world \<Rightarrow> bool" where
  "progress G w w' \<longleftrightarrow> (safe_env G w \<longrightarrow> safe_env G w' \<and> G (pw_db w) (pw_db w'))"

named_theorems progress_rules \<open>how an operation of a worker is composed\<close>

locale workers =
  fixes G :: "'d \<Rightarrow> 'd \<Rightarrow> bool"
  assumes G_refl: "G db db"
    and G_trans: "G a b \<Longrightarrow> G b c \<Longrightarrow> G a c"
begin

lemma G_interfere: "\<forall>e \<in> set es. \<forall>d. G d (e d) \<Longrightarrow> G db (interfere es db)"
proof (induction es arbitrary: db)
  case (Cons e es)
  then have "G db (e db)" "G (e db) (interfere es (e db))" by simp_all
  then show ?case by (simp add: interfere_def) (rule G_trans)
qed (simp add: interfere_def G_refl)

lemma call_cases:
  assumes "call f w = (ans, w')" "safe_env G w"
  shows "safe_env G w' \<and> (\<exists>db. G (pw_db w) db \<and>
    (ans = DbErr \<and> (pw_db w' = db \<or> pw_db w' = snd (f db)) \<or> ans = DbOk (fst (f db)) \<and> pw_db w' = snd (f db)))"
proof -
  define es where "es = (case pw_env w of [] \<Rightarrow> [] | e # _ \<Rightarrow> e)"
  have "\<forall>e \<in> set es. \<forall>d. G d (e d)" using assms(2) by (cases "pw_env w") (auto simp: es_def safe_env_def)
  then have "G (pw_db w) (interfere es (pw_db w))" by (rule G_interfere)
  moreover have "safe_env G w'"
    using assms by (auto simp: call_def Let_def safe_env_def split: prod.splits fault.splits list.splits)
  ultimately show ?thesis
    using assms(1) by (auto simp: call_def Let_def es_def [symmetric] split: prod.splits fault.splits)
qed

lemma progress_refl [simp]: "progress G w w"
  by (simp add: progress_def G_refl)

lemma progress_trans: "progress G a b \<Longrightarrow> progress G b c \<Longrightarrow> progress G a c"
  using G_trans by (auto simp: progress_def)

lemma progress_callI: "safe G f \<Longrightarrow> progress G w (snd (call f w))"
proof (unfold progress_def, intro impI)
  assume f: "safe G f" and env: "safe_env G w"
  obtain ans w' where c: "call f w = (ans, w')" by (cases "call f w")
  from call_cases [OF c env] f show "safe_env G (snd (call f w)) \<and> G (pw_db w) (pw_db (snd (call f w)))"
    by (auto simp: c safe_def intro: G_trans)
qed

lemma progress_call_read [progress_rules]: "progress G w (snd (call (\<lambda>db. (f db, db)) w))"
  by (rule progress_callI) (simp add: safe_def G_refl)

lemma progress_bind [progress_rules]:
  "progress G w (snd p) \<Longrightarrow> (\<And>a w1. p = (a, w1) \<Longrightarrow> progress G w1 (snd (k a w1))) \<Longrightarrow>
   progress G w (snd (case p of (a, w1) \<Rightarrow> k a w1))"
  by (cases p) (auto intro: progress_trans)

lemma progress_bind_world [progress_rules]:
  "progress G w (snd p) \<Longrightarrow> (\<And>a w1. p = (a, w1) \<Longrightarrow> progress G w1 (k a w1)) \<Longrightarrow>
   progress G w (case p of (a, w1) \<Rightarrow> k a w1)"
  by (cases p) (auto intro: progress_trans)

lemma progress_if [progress_rules]:
  "(c \<Longrightarrow> progress G w (snd a)) \<Longrightarrow> (\<not> c \<Longrightarrow> progress G w (snd b)) \<Longrightarrow> progress G w (snd (if c then a else b))"
  "(c \<Longrightarrow> progress G w v) \<Longrightarrow> (\<not> c \<Longrightarrow> progress G w v') \<Longrightarrow> progress G w (if c then v else v')"
  by simp_all

lemma progress_answer [progress_rules]:
  "progress G w (snd a) \<Longrightarrow> (\<And>x. progress G w (snd (b x))) \<Longrightarrow> progress G w (snd (case ans of DbErr \<Rightarrow> a | DbOk x \<Rightarrow> b x))"
  "progress G w v \<Longrightarrow> (\<And>x. progress G w (v' x)) \<Longrightarrow> progress G w (case ans of DbErr \<Rightarrow> v | DbOk x \<Rightarrow> v' x)"
  by (simp_all split: answer.split)

lemma progress_option [progress_rules]:
  "progress G w (snd a) \<Longrightarrow> (\<And>x. progress G w (snd (b x))) \<Longrightarrow> progress G w (snd (case opt of None \<Rightarrow> a | Some x \<Rightarrow> b x))"
  "progress G w v \<Longrightarrow> (\<And>x. progress G w (v' x)) \<Longrightarrow> progress G w (case opt of None \<Rightarrow> v | Some x \<Rightarrow> v' x)"
  by (simp_all split: option.split)

lemma progress_sum [progress_rules]:
  "(\<And>x. progress G w (snd (l x))) \<Longrightarrow> (\<And>x. progress G w (snd (r x))) \<Longrightarrow>
     progress G w (snd (case res of Inl x \<Rightarrow> l x | Inr x \<Rightarrow> r x))"
  by (simp split: sum.split)

lemma progress_bool [progress_rules]:
  "progress G w (snd a) \<Longrightarrow> progress G w (snd b) \<Longrightarrow> progress G w (snd (case c of True \<Rightarrow> a | False \<Rightarrow> b))"
  by (simp split: bool.split)

lemma progress_f64 [progress_rules]:
  "(\<And>x. progress G w (snd (f x))) \<Longrightarrow> progress G w (snd b) \<Longrightarrow>
     progress G w (snd (case fl of NaN \<Rightarrow> b | PInf \<Rightarrow> b | NInf \<Rightarrow> b | Fin x \<Rightarrow> f x))"
  by (simp split: f64.split)

lemma progress_call_then [progress_rules]:
  "progress G w (snd p) \<Longrightarrow> (\<And>x w1. p = (DbOk x, w1) \<Longrightarrow> progress G w1 (snd (k x w1))) \<Longrightarrow>
   progress G w (snd (call_then p k))"
  by (cases p; cases "fst p") (auto simp: call_then_def intro: progress_trans)

lemma progress_ret [progress_rules]: "progress G w v \<Longrightarrow> progress G w (snd (x, v))"
  by simp

end

end
