(* ===== verification/Batch_Job.thy ===== *)
theory Batch_Job
  imports Batch_Hold Workers
begin

text \<open>
  Batch image jobs and their table: \<open>service/batch_image.go\<close> and \<open>repository/batch_image_repo.go\<close>.
  A job goes through the statuses from \<open>created\<close> to \<open>completed\<close>, or ends failed or cancelled; its
  row keeps the counts, the prices fixed at submission and the state of its settlement. The jobs
  share the database with the billing tables. Of the time stamps only those that a statement
  reads are kept. The events of a job are the list of their types.
\<close>

section \<open>Statuses\<close>

definition StatusCreated :: string where "StatusCreated = ''created''"
definition StatusUploading :: string where "StatusUploading = ''uploading''"
definition StatusSubmitted :: string where "StatusSubmitted = ''submitted''"
definition StatusRunning :: string where "StatusRunning = ''running''"
definition StatusIndexing :: string where "StatusIndexing = ''indexing''"
definition StatusSettling :: string where "StatusSettling = ''settling''"
definition StatusCompleted :: string where "StatusCompleted = ''completed''"
definition StatusFailed :: string where "StatusFailed = ''failed''"
definition StatusCancelled :: string where "StatusCancelled = ''cancelled''"
definition StatusOutputDeleted :: string where "StatusOutputDeleted = ''output_deleted''"

lemmas batch_status_defs = StatusCreated_def StatusUploading_def StatusSubmitted_def StatusRunning_def StatusIndexing_def
  StatusSettling_def StatusCompleted_def StatusFailed_def StatusCancelled_def StatusOutputDeleted_def

definition is_supported_batch_image_provider :: "string \<Rightarrow> bool" where
  "is_supported_batch_image_provider p = (p \<in> {''gemini_api'', ''vertex''})"

definition is_terminal_batch_image_job_status :: "string \<Rightarrow> bool" where
  "is_terminal_batch_image_job_status s = (s \<in> {StatusCompleted, StatusFailed, StatusCancelled, StatusOutputDeleted})"

definition can_transition_batch_image_job :: "string \<Rightarrow> string \<Rightarrow> bool" where
  "can_transition_batch_image_job from_st to_st =
     (if from_st = [] \<or> to_st = [] then False
      else if is_terminal_batch_image_job_status from_st
      then to_st = StatusOutputDeleted \<and> from_st \<noteq> StatusOutputDeleted \<and>
           (from_st = StatusCompleted \<or> from_st = StatusFailed \<or> from_st = StatusCancelled)
      else if to_st = StatusFailed then True
      else (from_st, to_st) \<in>
        {(StatusCreated, StatusUploading), (StatusCreated, StatusSubmitted), (StatusCreated, StatusCancelled),
         (StatusUploading, StatusSubmitted), (StatusUploading, StatusCancelled),
         (StatusSubmitted, StatusRunning), (StatusSubmitted, StatusIndexing), (StatusSubmitted, StatusFailed),
         (StatusSubmitted, StatusCancelled),
         (StatusRunning, StatusRunning), (StatusRunning, StatusIndexing), (StatusRunning, StatusFailed),
         (StatusRunning, StatusCancelled),
         (StatusIndexing, StatusSettling), (StatusIndexing, StatusFailed), (StatusSettling, StatusCompleted)})"

section \<open>Tables\<close>

record batch_item =
  bi_custom_id :: string
  bi_status :: string
  bi_images :: int
  bi_mime :: "string option"
  bi_error :: "string option"

definition ItemPending :: string where "ItemPending = ''pending''"
definition ItemSuccess :: string where "ItemSuccess = ''success''"
definition ItemFailed :: string where "ItemFailed = ''failed''"

record batch_job =
  bj_batch :: string
  bj_user :: int
  bj_key :: "int option"
  bj_account :: "int option"
  bj_provider :: string
  bj_model :: string
  bj_status :: string
  bj_provider_job :: "string option"
  bj_output_ref :: "string option"
  bj_item_count :: int
  bj_success :: int
  bj_fail :: int
  bj_estimated :: rat
  bj_hold :: "rat option"
  bj_actual :: "rat option"
  bj_unit_price :: rat
  bj_price_version :: int
  bj_idempotency_key :: "string option"
  bj_request_hash :: "string option"
  bj_manifest :: "string option"
  bj_retry :: int
  bj_error_code :: "string option"
  bj_updated :: gotime
  bj_user_deleted :: bool
  bj_items :: "batch_item list"
  bj_events :: "string list"

record batch_db =
  jd_bill :: billing_db
  jd_jobs :: "batch_job list"
  jd_now :: gotime

datatype job_error =
    JobNotFound
  | JobExists
  | ItemExists
  | InvalidTransition
  | InvalidProvider
  | IndexStateConflict
  | AlreadySettled
  | SettlementInvalidStatus
  | SettlementManifestConflict
  | RecordDeleteNotReady

definition deref :: "string option \<Rightarrow> string" where
  "deref s = (case s of None \<Rightarrow> [] | Some x \<Rightarrow> trim_space x)"

type_synonym 'a job_stmt = "batch_db \<Rightarrow> (job_error + 'a) \<times> batch_db"

text \<open>The jobs are listed by their ids; batch ids are unique.\<close>

definition job_at :: "string \<Rightarrow> batch_db \<Rightarrow> batch_job option" where
  "job_at b db = find (\<lambda>j. bj_batch j = b) (jd_jobs db)"

definition put_job :: "string \<Rightarrow> batch_job \<Rightarrow> batch_db \<Rightarrow> batch_db" where
  "put_job b j db = db\<lparr>jd_jobs := map (\<lambda>x. if bj_batch x = b then j else x) (jd_jobs db)\<rparr>"

definition append_event :: "string \<Rightarrow> string \<Rightarrow> unit job_stmt" where
  "append_event b ev db =
     (case job_at b db of
        None \<Rightarrow> (Inl JobNotFound, db)
      | Some j \<Rightarrow> (Inr (), put_job b (j\<lparr>bj_events := bj_events j @ [ev]\<rparr>) db))"

section \<open>Statements\<close>

definition get_job_by_idempotency_key :: "int \<Rightarrow> int \<Rightarrow> string \<Rightarrow> batch_job job_stmt" where
  "get_job_by_idempotency_key uid kid key db =
     (case find (\<lambda>j. bj_user j = uid \<and> bj_key j = Some kid \<and> bj_idempotency_key j = Some key) (rev (jd_jobs db)) of
        None \<Rightarrow> (Inl JobNotFound, db)
      | Some j \<Rightarrow> (Inr j, db))"

definition get_job :: "string \<Rightarrow> batch_job job_stmt" where
  "get_job b db = (case job_at b db of None \<Rightarrow> (Inl JobNotFound, db) | Some j \<Rightarrow> (Inr j, db))"

definition get_job_for_owner :: "int \<Rightarrow> int \<Rightarrow> string \<Rightarrow> batch_job job_stmt" where
  "get_job_for_owner uid kid b db =
     (case job_at b db of
        Some j \<Rightarrow> if bj_user j = uid \<and> bj_key j = Some kid \<and> \<not> bj_user_deleted j then (Inr j, db) else (Inl JobNotFound, db)
      | None \<Rightarrow> (Inl JobNotFound, db))"

text \<open>The columns for amounts have ten decimals; the caller gets the row back as it was stored.\<close>

definition create_job :: "batch_job \<Rightarrow> batch_job job_stmt" where
  "create_job p db =
     (let j = p\<lparr>bj_status := (if bj_status p = [] then StatusCreated else bj_status p),
                bj_estimated := numeric10 (bj_estimated p), bj_hold := map_option numeric10 (bj_hold p),
                bj_actual := map_option numeric10 (bj_actual p), bj_unit_price := numeric10 (bj_unit_price p),
                bj_updated := jd_now db, bj_user_deleted := False, bj_items := [], bj_events := []\<rparr>
      in if \<not> is_supported_batch_image_provider (bj_provider p) then (Inl InvalidProvider, db)
         else if job_at (bj_batch p) db \<noteq> None then (Inl JobExists, db)
         else (Inr j, db\<lparr>jd_jobs := jd_jobs db @ [j]\<rparr>))"

text \<open>The transition and its event are one transaction.\<close>

definition transition_job :: "string \<Rightarrow> string \<Rightarrow> string option \<Rightarrow> string \<Rightarrow> unit job_stmt" where
  "transition_job b to_st code ev db =
     (case job_at b db of
        None \<Rightarrow> (Inl JobNotFound, db)
      | Some j \<Rightarrow>
          if \<not> can_transition_batch_image_job (bj_status j) to_st then (Inl InvalidTransition, db)
          else let j1 = j\<lparr>bj_status := to_st, bj_updated := jd_now db,
                          bj_error_code := (if to_st = StatusFailed then code else bj_error_code j)\<rparr>;
                   j2 = (if ev \<noteq> [] then j1\<lparr>bj_events := bj_events j1 @ [ev]\<rparr> else j1)
               in (Inr (), put_job b j2 db))"

definition touch_job_submitting :: "string \<Rightarrow> batch_db \<Rightarrow> unit \<times> batch_db" where
  "touch_job_submitting b db =
     ((), case job_at b db of
        Some j \<Rightarrow> if bj_status j \<in> {StatusCreated, StatusUploading} then put_job b (j\<lparr>bj_updated := jd_now db\<rparr>) db else db
      | None \<Rightarrow> db)"

definition stale_unsubmitted :: "gotime \<Rightarrow> batch_job \<Rightarrow> bool" where
  "stale_unsubmitted cutoff j \<longleftrightarrow>
     bj_status j \<in> {StatusCreated, StatusUploading} \<and> bj_provider_job j = None \<and> bj_updated j \<le> cutoff"

definition fail_stale_update :: "string \<Rightarrow> gotime \<Rightarrow> string \<Rightarrow> batch_db \<Rightarrow> bool \<times> batch_db" where
  "fail_stale_update b cutoff code db =
     (case job_at b db of
        Some j \<Rightarrow>
          if stale_unsubmitted cutoff j
          then (True, put_job b (j\<lparr>bj_status := StatusFailed, bj_error_code := Some code, bj_updated := jd_now db\<rparr>) db)
          else (False, db)
      | None \<Rightarrow> (False, db))"

definition held_amount :: "batch_job \<Rightarrow> rat" where
  "held_amount j = (case bj_hold j of None \<Rightarrow> bj_estimated j | Some h \<Rightarrow> h)"

definition list_stale_unsubmitted :: "gotime \<Rightarrow> int \<Rightarrow> batch_db \<Rightarrow> batch_job list" where
  "list_stale_unsubmitted cutoff limit db =
     take (nat (if limit \<le> 0 \<or> limit > 1000 then 100 else limit))
       (filter (\<lambda>j. stale_unsubmitted cutoff j \<and> held_amount j > 0) (sort_key bj_updated (jd_jobs db)))"

definition update_provider_submit :: "string \<Rightarrow> string \<Rightarrow> string \<Rightarrow> unit job_stmt" where
  "update_provider_submit b name ref db =
     (case job_at b db of
        None \<Rightarrow> (Inl JobNotFound, db)
      | Some j \<Rightarrow>
          if \<not> can_transition_batch_image_job (bj_status j) StatusSubmitted then (Inl InvalidTransition, db)
          else (Inr (), put_job b (j\<lparr>bj_status := StatusSubmitted, bj_provider_job := Some name,
                  bj_output_ref := (if ref = [] then None else Some ref), bj_updated := jd_now db,
                  bj_events := bj_events j @ [''provider_submitted'']\<rparr>) db))"

definition update_output_ref :: "string \<Rightarrow> string \<Rightarrow> unit job_stmt" where
  "update_output_ref b ref db =
     (case job_at b db of
        None \<Rightarrow> (Inl JobNotFound, db)
      | Some j \<Rightarrow> (Inr (), put_job b (j\<lparr>bj_output_ref := Some ref, bj_updated := jd_now db\<rparr>) db))"

text \<open>The update of \<open>RecordBatchImageJobSubmitFailure\<close> looks at no status.\<close>

definition submit_failure_update :: "string \<Rightarrow> string \<Rightarrow> bool \<Rightarrow> batch_db \<Rightarrow> unit \<times> batch_db" where
  "submit_failure_update b code mark_failed db =
     ((), case job_at b db of
        Some j \<Rightarrow> put_job b (j\<lparr>bj_status := (if mark_failed then StatusFailed else bj_status j),
                 bj_error_code := Some code, bj_updated := jd_now db\<rparr>) db
      | None \<Rightarrow> db)"

definition mark_job_settled :: "string \<Rightarrow> rat \<Rightarrow> string \<Rightarrow> unit job_stmt" where
  "mark_job_settled b actual manifest db =
     (case job_at b db of
        None \<Rightarrow> (Inl JobNotFound, db)
      | Some j \<Rightarrow>
          if bj_status j = StatusSettling \<and> bj_manifest j \<in> {None, Some [], Some manifest}
          then (Inr (), put_job b (j\<lparr>bj_status := StatusCompleted, bj_actual := Some (numeric10 actual),
                  bj_manifest := Some manifest, bj_updated := jd_now db,
                  bj_events := bj_events j @ [''settlement_completed'']\<rparr>) db)
          else if bj_status j \<noteq> StatusSettling
          then (if bj_status j = StatusCompleted then (Inl AlreadySettled, db) else (Inl SettlementInvalidStatus, db))
          else (Inl SettlementManifestConflict, db))"

definition settlement_failed_update :: "string \<Rightarrow> string \<Rightarrow> int job_stmt" where
  "settlement_failed_update b code db =
     (case job_at b db of
        None \<Rightarrow> (Inl JobNotFound, db)
      | Some j \<Rightarrow> (Inr (bj_retry j + 1),
          put_job b (j\<lparr>bj_error_code := Some code, bj_retry := bj_retry j + 1, bj_updated := jd_now db\<rparr>) db))"

definition create_items :: "string \<Rightarrow> batch_item list \<Rightarrow> unit job_stmt" where
  "create_items b items db =
     (case job_at b db of
        None \<Rightarrow> (Inl JobNotFound, db)
      | Some j \<Rightarrow>
          if distinct (map bi_custom_id (bj_items j @ items))
          then (Inr (), put_job b (j\<lparr>bj_items := bj_items j @ items\<rparr>) db) else (Inl ItemExists, db))"

definition replace_items :: "string \<Rightarrow> batch_item list \<Rightarrow> int \<Rightarrow> int \<Rightarrow> unit job_stmt" where
  "replace_items b items succ failed db =
     (case job_at b db of
        None \<Rightarrow> (Inl JobNotFound, db)
      | Some j \<Rightarrow>
          if bj_status j \<noteq> StatusIndexing then (Inl IndexStateConflict, db)
          else if \<not> distinct (map bi_custom_id items) then (Inl ItemExists, db)
          else (Inr (), put_job b (j\<lparr>bj_items := items, bj_success := succ, bj_fail := failed, bj_updated := jd_now db\<rparr>) db))"

definition mark_user_deleted_update :: "int \<Rightarrow> int \<Rightarrow> string \<Rightarrow> unit job_stmt" where
  "mark_user_deleted_update uid kid b db =
     (case job_at b db of
        Some j \<Rightarrow>
          if bj_user j = uid \<and> bj_key j = Some kid \<and> \<not> bj_user_deleted j \<and>
             bj_status j \<in> {StatusCompleted, StatusFailed, StatusCancelled, StatusOutputDeleted}
          then (Inr (), put_job b (j\<lparr>bj_user_deleted := True, bj_updated := jd_now db\<rparr>) db)
          else (Inl RecordDeleteNotReady, db)
      | None \<Rightarrow> (Inl RecordDeleteNotReady, db))"

end
