(* ===== verification/Batch_Result.thy ===== *)
theory Batch_Result
  imports Batch_Job
begin

text \<open>
  The output of a batch image job, line by line: \<open>ParseBatchImageResultLine\<close> and its helpers in
  \<open>service/batch_image_processor.go\<close>. What \<open>encoding/json\<close> decodes a line to is a value of
  \<open>json\<close>; an object lists each of its keys once. A key that is absent reads as null, as the Go
  map gives the nil interface.
\<close>

section \<open>Decoded JSON\<close>

datatype json =
    JNull
  | JBool bool
  | JNum rat
  | JStr string
  | JArr "json list"
  | JObj "(string \<times> json) list"

type_synonym json_obj = "(string \<times> json) list"

definition obj_get :: "json_obj \<Rightarrow> string \<Rightarrow> json" where
  "obj_get m key = (case map_of m key of None \<Rightarrow> JNull | Some v \<Rightarrow> v)"

definition map_string :: "json_obj \<Rightarrow> string \<Rightarrow> string" where
  "map_string m key =
     (case obj_get m key of JStr s \<Rightarrow> trim_space s | JNum x \<Rightarrow> show_int (go_trunc x) | _ \<Rightarrow> [])"

fun nested_any :: "json \<Rightarrow> string list \<Rightarrow> json" where
  "nested_any v [] = v"
| "nested_any (JObj m) (k # ks) = nested_any (obj_get m k) ks"
| "nested_any _ (k # ks) = JNull"

definition nested_string :: "json_obj \<Rightarrow> string list \<Rightarrow> string" where
  "nested_string m ks = (case nested_any (JObj m) ks of JStr s \<Rightarrow> trim_space s | _ \<Rightarrow> [])"

fun first_map :: "json list \<Rightarrow> json_obj option" where
  "first_map [] = None"
| "first_map (JObj m # vs) = Some m"
| "first_map (v # vs) = first_map vs"

fun first_non_empty_string :: "string list \<Rightarrow> string" where
  "first_non_empty_string [] = []"
| "first_non_empty_string (s # ss) = (if trim_space s \<noteq> [] then trim_space s else first_non_empty_string ss)"

section \<open>Images\<close>

text \<open>The media type of a part that holds an image.\<close>

definition image_part :: "json \<Rightarrow> string option" where
  "image_part v =
     (case v of
        JObj part \<Rightarrow>
          (case first_map [obj_get part ''inlineData'', obj_get part ''inline_data''] of
             None \<Rightarrow> None
           | Some inline \<Rightarrow>
               let data = trim_space (map_string inline ''data'');
                   mime = first_non_empty_string [map_string inline ''mimeType'', map_string inline ''mime_type'']
               in if data = [] \<or> \<not> has_prefix (to_lower (trim_space mime)) ''image/'' then None
                  else Some (trim_space mime))
      | _ \<Rightarrow> None)"

definition candidate_images :: "json \<Rightarrow> string list" where
  "candidate_images c =
     (case c of
        JObj m \<Rightarrow> (case nested_any (JObj m) [''content'', ''parts''] of JArr parts \<Rightarrow> List.map_filter image_part parts | _ \<Rightarrow> [])
      | _ \<Rightarrow> [])"

definition find_image_parts_in_candidates :: "json \<Rightarrow> int \<times> string" where
  "find_image_parts_in_candidates raw =
     (case raw of
        JArr cs \<Rightarrow>
          let mimes = concat (map candidate_images cs)
          in (int (length mimes), case mimes of [] \<Rightarrow> [] | m # _ \<Rightarrow> m)
      | _ \<Rightarrow> (0, []))"

definition find_image_parts :: "json_obj \<Rightarrow> int \<times> string" where
  "find_image_parts m =
     (let r = find_image_parts_in_candidates (nested_any (JObj m) [''response'', ''candidates''])
      in if fst r > 0 then r else find_image_parts_in_candidates (obj_get m ''candidates''))"

definition batch_file_extension :: "string \<Rightarrow> string" where
  "batch_file_extension mime =
     (let t = to_lower (trim_space mime)
      in if t = ''image/png'' then ''png''
         else if t = ''image/jpeg'' \<or> t = ''image/jpg'' then ''jpg''
         else if t = ''image/webp'' then ''webp'' else [])"

definition has_candidates :: "json_obj \<Rightarrow> bool" where
  "has_candidates m \<longleftrightarrow>
     map_of m ''candidates'' \<noteq> None \<or>
     (case nested_any (JObj m) [''response'', ''candidates''] of JArr _ \<Rightarrow> True | _ \<Rightarrow> False)"

section \<open>Failures\<close>

definition map_failure_code :: "string \<Rightarrow> string \<Rightarrow> string" where
  "map_failure_code code message =
     (let text_l = to_lower (trim_space (code @ '' '' @ message));
          any = list_ex (contains text_l)
      in if any [''safety'', ''policy'', ''blocked'', ''prohibited''] then ''SAFETY_BLOCKED''
         else if any [''invalid_argument'', ''invalid argument'', ''bad request''] then ''INVALID_ARGUMENT''
         else if any [''quota'', ''rate'', ''resource_exhausted'', ''too many requests''] then ''PROVIDER_RATE_LIMITED''
         else ''PROVIDER_ITEM_FAILED'')"

definition failure_from_provider_fields :: "json_obj \<Rightarrow> (string \<times> string) option" where
  "failure_from_provider_fields m =
     (case first_map [obj_get m ''status'', obj_get m ''error''] of
        None \<Rightarrow> None
      | Some f \<Rightarrow>
          let message = first_non_empty_string [map_string f ''message'', map_string f ''details''];
              code = first_non_empty_string [map_string f ''code'', map_string f ''status'']
          in Some (map_failure_code code message, message))"

section \<open>A line\<close>

record parsed_result =
  pr_custom_id :: string
  pr_succeeded :: bool
  pr_mime :: string
  pr_extension :: string
  pr_images :: int
  pr_error_code :: string
  pr_error_message :: string

definition batchImageMaxErrorMessageLength :: nat where "batchImageMaxErrorMessageLength = 1000"

definition truncate_batch_image_message :: "string \<Rightarrow> nat \<Rightarrow> string" where
  "truncate_batch_image_message message limit =
     (let m = trim_space message in if limit = 0 \<or> length m \<le> limit then m else take limit m)"

definition failed_result :: "string \<Rightarrow> string \<Rightarrow> string \<Rightarrow> parsed_result" where
  "failed_result cid code message =
     \<lparr>pr_custom_id = cid, pr_succeeded = False, pr_mime = [], pr_extension = [], pr_images = 0, pr_error_code = code,
      pr_error_message = message\<rparr>"

text \<open>None: the line is no JSON object (\<open>null\<close> has no custom id either).\<close>

definition parse_result_line :: "json option \<Rightarrow> parsed_result option" where
  "parse_result_line line =
     (case line of
        Some (JObj m) \<Rightarrow>
          let cid = first_non_empty_string [map_string m ''key'', map_string m ''custom_id'', map_string m ''customId'',
                      nested_string m [''request'', ''key'']]
          in if cid = [] then None
             else let (n, mime) = find_image_parts m in
               Some (if n > 0
                     then \<lparr>pr_custom_id = cid, pr_succeeded = True, pr_mime = mime, pr_extension = batch_file_extension mime,
                           pr_images = n, pr_error_code = [], pr_error_message = []\<rparr>
                     else case failure_from_provider_fields m of
                         Some (code, message) \<Rightarrow>
                           failed_result cid code (truncate_batch_image_message message batchImageMaxErrorMessageLength)
                       | None \<Rightarrow>
                           if map_of m ''response'' \<noteq> None \<or> has_candidates m
                           then failed_result cid ''EMPTY_IMAGE_OUTPUT'' ''provider response contained no image output''
                           else failed_result cid ''PROVIDER_ITEM_FAILED'' ''provider result line contained no image output'')
      | _ \<Rightarrow> None)"

definition optional_string :: "string \<Rightarrow> string option" where
  "optional_string s = (if trim_space s = [] then None else Some (trim_space s))"

text \<open>The row of an item.\<close>

definition item_of_result :: "parsed_result \<Rightarrow> batch_item" where
  "item_of_result p =
     \<lparr>bi_custom_id = pr_custom_id p, bi_status = (if pr_succeeded p then ItemSuccess else ItemFailed), bi_images = pr_images p,
      bi_mime = (if pr_succeeded p then optional_string (pr_mime p) else None),
      bi_error = (if pr_succeeded p then None else optional_string (pr_error_code p))\<rparr>"

section \<open>What a line says\<close>

lemma parse_images:
  "parse_result_line l = Some p \<Longrightarrow> pr_succeeded p \<longleftrightarrow> pr_images p > 0"
  by (auto simp: parse_result_line_def failed_result_def Let_def split: option.splits json.splits prod.splits if_splits)

lemma parse_custom_id:
  "parse_result_line l = Some p \<Longrightarrow> pr_custom_id p \<noteq> []"
  by (auto simp: parse_result_line_def failed_result_def Let_def split: option.splits json.splits prod.splits if_splits)

end
