(* ===== verification/Batch_Service.thy ===== *)
theory Batch_Service
  imports Batch_Result "HOL-Library.List_Lexorder" "HOL-Library.Char_ord"
begin

text \<open>
  The life of a batch image job: submission and cancellation in \<open>service/batch_image_public.go\<close>, the
  worker's processing in \<open>batch_image_processor.go\<close>, settlement in \<open>batch_image_settlement.go\<close>, the
  recovery of stale submissions in \<open>batch_image_billing_recovery.go\<close>, and the service half of
  \<open>batch_image_billing_hold.go\<close>. Every statement is a call of a worker. What the provider of a job
  and the queue answer are parameters of the operation; validation of a request and the choice of
  an account come before it. Cache invalidation and logging are left out.
\<close>

type_synonym batch_world = "batch_db world"

datatype batch_error =
    DbFailure
  | JobErr job_error
  | BillErr billing_error
  | BatchConflict
  | BatchInsufficient
  | HoldFailed
  | MissingAPIKey
  | MissingAccount
  | BatchQueueFailed
  | ProviderSubmitFailed string
  | UnsupportedProvider
  | UnsupportedAccount
  | GroupDisabled
  | CancelFailed
  | MissingProviderJob
  | InvalidStatus
  | InvalidCounts
  | ManifestConflict
  | PricingMissing
  | CostOverHold
  | BillingFailed
  | OutputMissing
  | IndexFailed string

section \<open>Calls\<close>

text \<open>A statement of the job table, and a transaction of the billing tables.\<close>

definition ask :: "'a job_stmt \<Rightarrow> batch_world \<Rightarrow> (batch_error + 'a) \<times> batch_world" where
  "ask f w = (case call f w of
      (DbErr, w1) \<Rightarrow> (Inl DbFailure, w1)
    | (DbOk (Inl e), w1) \<Rightarrow> (Inl (JobErr e), w1)
    | (DbOk (Inr x), w1) \<Rightarrow> (Inr x, w1))"

definition on_bill :: "(billing_db \<Rightarrow> 'a \<times> billing_db) \<Rightarrow> batch_db \<Rightarrow> 'a \<times> batch_db" where
  "on_bill f db = (let (x, b) = f (jd_bill db) in (x, db\<lparr>jd_bill := b\<rparr>))"

definition bill :: "(billing_db \<Rightarrow> (billing_error + 'a) \<times> billing_db) \<Rightarrow> batch_world \<Rightarrow> (batch_error + 'a) \<times> batch_world" where
  "bill f w = (case call (on_bill f) w of
      (DbErr, w1) \<Rightarrow> (Inl DbFailure, w1)
    | (DbOk (Inl e), w1) \<Rightarrow> (Inl (BillErr e), w1)
    | (DbOk (Inr x), w1) \<Rightarrow> (Inr x, w1))"

definition ignore :: "'a \<times> batch_world \<Rightarrow> batch_world" where
  "ignore = snd"

section \<open>Holds\<close>

definition build_batch_image_hold_command :: "batch_job \<Rightarrow> string \<Rightarrow> rat \<Rightarrow> string \<Rightarrow> batch_error + hold_command" where
  "build_batch_image_hold_command job rid actual payload =
     (case bj_key job of
        None \<Rightarrow> Inl MissingAPIKey
      | Some kid \<Rightarrow>
          if kid \<le> 0 then Inl MissingAPIKey
          else Inr \<lparr>hc_request_id = rid, hc_key = kid, hc_fingerprint = [], hc_payload_hash = trim_space payload,
                    hc_user = bj_user job, hc_batch = bj_batch job,
                    hc_hold = (if held_amount job < 0 then 0 else held_amount job),
                    hc_actual = (if actual < 0 then 0 else actual)\<rparr>)"

definition reserve_batch_image_balance_hold ::
  "(fp_part list \<Rightarrow> string) \<Rightarrow> batch_job \<Rightarrow> string \<Rightarrow> batch_world \<Rightarrow> (batch_error + unit) \<times> batch_world" where
  "reserve_batch_image_balance_hold sha job payload w =
     (case build_batch_image_hold_command job (batch_image_hold_request_id (bj_batch job)) 0 payload of
        Inl e \<Rightarrow> (Inl e, w)
      | Inr c \<Rightarrow>
          if hc_hold c \<le> 0 then (Inr (), w)
          else case bill (ReserveBatchImageBalance sha (Some c)) w of
            (Inl (BillErr InsufficientBalance), w1) \<Rightarrow> (Inl BatchInsufficient, w1)
          | (Inl e, w1) \<Rightarrow> (Inl HoldFailed, w1)
          | (Inr _, w1) \<Rightarrow> (Inr (), w1))"

definition capture_batch_image_balance_hold ::
  "(fp_part list \<Rightarrow> string) \<Rightarrow> batch_job \<Rightarrow> rat \<Rightarrow> string \<Rightarrow> batch_world \<Rightarrow> (batch_error + unit) \<times> batch_world" where
  "capture_batch_image_balance_hold sha job actual payload w =
     (case build_batch_image_hold_command job (batch_image_capture_request_id (bj_batch job)) actual payload of
        Inl e \<Rightarrow> (Inl e, w)
      | Inr c \<Rightarrow>
          case bill (CaptureBatchImageBalance sha (Some c)) w of
            (Inl e, w1) \<Rightarrow> (Inl BillingFailed, w1)
          | (Inr _, w1) \<Rightarrow> (Inr (), w1))"

text \<open>A conflict of fingerprints counts as released.\<close>

definition release_batch_image_balance_hold ::
  "(fp_part list \<Rightarrow> string) \<Rightarrow> batch_job \<Rightarrow> string \<Rightarrow> batch_world \<Rightarrow> (batch_error + unit) \<times> batch_world" where
  "release_batch_image_balance_hold sha job payload w =
     (case build_batch_image_hold_command job (batch_image_release_request_id (bj_batch job)) 0 payload of
        Inl e \<Rightarrow> (Inl e, w)
      | Inr c \<Rightarrow>
          if hc_hold c \<le> 0 then (Inr (), w)
          else case bill (ReleaseBatchImageBalance sha (Some c)) w of
            (Inl (BillErr RequestConflict), w1) \<Rightarrow> (Inr (), w1)
          | (Inl e, w1) \<Rightarrow> (Inl HoldFailed, w1)
          | (Inr _, w1) \<Rightarrow> (Inr (), w1))"

section \<open>Updates followed by an event\<close>

definition record_submit_failure :: "string \<Rightarrow> string \<Rightarrow> bool \<Rightarrow> batch_world \<Rightarrow> batch_world" where
  "record_submit_failure b code mark_failed w =
     (case call (submit_failure_update b code mark_failed) w of
        (DbErr, w1) \<Rightarrow> w1
      | (DbOk _, w1) \<Rightarrow> ignore (ask (append_event b (if mark_failed then ''submit_failed'' else ''queue_failed'')) w1))"

definition mark_user_deleted :: "int \<Rightarrow> int \<Rightarrow> string \<Rightarrow> batch_world \<Rightarrow> (batch_error + unit) \<times> batch_world" where
  "mark_user_deleted uid kid b w =
     (case ask (mark_user_deleted_update uid kid b) w of
        (Inl e, w1) \<Rightarrow> (Inl e, w1)
      | (Inr _, w1) \<Rightarrow> ask (append_event b ''user_record_deleted'') w1)"

text \<open>Whether the update was applied is known apart from the error of the event.\<close>

definition fail_stale_unsubmitted_job :: "string \<Rightarrow> gotime \<Rightarrow> string \<Rightarrow> batch_world \<Rightarrow> (bool \<times> bool) \<times> batch_world" where
  "fail_stale_unsubmitted_job b cutoff code w =
     (case call (fail_stale_update b cutoff code) w of
        (DbErr, w1) \<Rightarrow> ((False, True), w1)
      | (DbOk False, w1) \<Rightarrow> ((False, False), w1)
      | (DbOk True, w1) \<Rightarrow>
          (case ask (append_event b ''billing_hold_recovery_failed_unsubmitted'') w1 of
             (Inl _, w2) \<Rightarrow> ((True, True), w2) | (Inr _, w2) \<Rightarrow> ((True, False), w2)))"

definition set_job_settlement_failed :: "string \<Rightarrow> string \<Rightarrow> batch_world \<Rightarrow> (batch_error + int) \<times> batch_world" where
  "set_job_settlement_failed b code w =
     (case ask (settlement_failed_update b code) w of
        (Inl e, w1) \<Rightarrow> (Inl e, w1)
      | (Inr n, w1) \<Rightarrow>
          (case ask (append_event b ''settlement_failed'') w1 of
             (Inl e, w2) \<Rightarrow> (Inl e, w2) | (Inr _, w2) \<Rightarrow> (Inr n, w2)))"

section \<open>Prices\<close>

record batch_group =
  bg_allow :: bool
  bg_rate :: rat
  bg_image_independent :: bool
  bg_image_rate :: rat
  bg_discount :: rat
  bg_hold :: rat
  bg_price :: "rat option"

record pricing_snapshot =
  ps_base :: rat
  ps_group_rate :: rat
  ps_account_rate :: rat
  ps_discount :: rat
  ps_hold_rate :: rat
  ps_unit :: rat
  ps_hold_unit :: rat
  ps_estimated :: rat
  ps_hold :: rat

definition nonneg :: "rat \<Rightarrow> rat" where "nonneg x = (if x < 0 then 0 else x)"

text \<open>
  The prices once the group is known: \<open>configured\<close> is its own price, \<open>resolved\<close> the answer of the
  price resolver. The rate of the hold is never below that of the charge.
\<close>

definition snapshot_of :: "rat option \<Rightarrow> unit + rat \<Rightarrow> rat \<Rightarrow> rat \<Rightarrow> rat \<Rightarrow> rat \<Rightarrow> nat \<Rightarrow> batch_error + pricing_snapshot" where
  "snapshot_of configured resolved group_rate discount hold_rate account_rate items =
     (case (case configured of Some u \<Rightarrow> Inr u | None \<Rightarrow> resolved) of
        Inl _ \<Rightarrow> Inl PricingMissing
      | Inr u \<Rightarrow>
          if u < 0 then Inl PricingMissing
          else let hold = (if hold_rate < discount then discount else hold_rate);
                   am = nonneg account_rate;
                   std = u * group_rate * am
               in Inr \<lparr>ps_base = u, ps_group_rate = group_rate, ps_account_rate = am, ps_discount = discount,
                       ps_hold_rate = hold, ps_unit = std * discount, ps_hold_unit = std * hold,
                       ps_estimated = std * discount * of_nat items, ps_hold = std * hold * of_nat items\<rparr>)"

text \<open>
  \<open>grp\<close> is what the lookup of the group of the key answers (None for a key without a group),
  \<open>user_rate\<close> the rate of the user in it.
\<close>

definition resolve_pricing_snapshot ::
  "(unit + batch_group) option \<Rightarrow> unit + rat option \<Rightarrow> unit + rat \<Rightarrow> rat \<Rightarrow> nat \<Rightarrow> batch_error + pricing_snapshot" where
  "resolve_pricing_snapshot grp user_rate resolved account_rate items =
     (case grp of
        None \<Rightarrow> snapshot_of None resolved 1 (1/2) (6/10) account_rate items
      | Some (Inl _) \<Rightarrow> Inl PricingMissing
      | Some (Inr g) \<Rightarrow>
          if \<not> bg_allow g then Inl GroupDisabled
          else case user_rate of
            Inl _ \<Rightarrow> Inl PricingMissing
          | Inr ur \<Rightarrow>
              let eff = (case ur of None \<Rightarrow> nonneg (bg_rate g) | Some r \<Rightarrow> r)
              in snapshot_of (case bg_price g of Some p \<Rightarrow> if p \<ge> 0 then Some p else None | None \<Rightarrow> None) resolved
                   (nonneg (if bg_image_independent g then bg_image_rate g else eff)) (nonneg (bg_discount g))
                   (if bg_hold g \<ge> 0 then bg_hold g else 6/10) account_rate items)"

section \<open>Submission\<close>

record submit_request =
  sr_user :: int
  sr_key :: int
  sr_account :: int
  sr_provider :: string
  sr_model :: string
  sr_items :: "string list"
  sr_idempotency_key :: string
  sr_hash :: string
  sr_batch :: string
  sr_price :: pricing_snapshot

text \<open>The provider refuses with the reason that is recorded, answers without a job, or names the job.\<close>

datatype provider_answer = Refuses string | NoJob | Submitted string string

definition job_of_request :: "submit_request \<Rightarrow> batch_job" where
  "job_of_request r =
     \<lparr>bj_batch = sr_batch r, bj_user = sr_user r, bj_key = Some (sr_key r), bj_account = Some (sr_account r),
      bj_provider = sr_provider r, bj_model = sr_model r, bj_status = StatusCreated, bj_provider_job = None,
      bj_output_ref = None, bj_item_count = int (length (sr_items r)), bj_success = 0, bj_fail = 0,
      bj_estimated = ps_estimated (sr_price r), bj_hold = Some (ps_hold (sr_price r)), bj_actual = None,
      bj_unit_price = ps_unit (sr_price r), bj_price_version = 1,
      bj_idempotency_key = (if sr_idempotency_key r = [] then None else Some (sr_idempotency_key r)),
      bj_request_hash = Some (sr_hash r), bj_manifest = None, bj_retry = 0, bj_error_code = None, bj_updated = 0,
      bj_user_deleted = False, bj_items = [], bj_events = []\<rparr>"

definition pending_items :: "string list \<Rightarrow> batch_item list" where
  "pending_items ids = map (\<lambda>i. \<lparr>bi_custom_id = i, bi_status = ItemPending, bi_images = 0, bi_mime = None, bi_error = None\<rparr>) ids"

definition create_pending_items :: "string \<Rightarrow> string list \<Rightarrow> batch_world \<Rightarrow> (batch_error + unit) \<times> batch_world" where
  "create_pending_items b ids w =
     (if ids = [] then (Inr (), w) else ask (create_items b (pending_items ids)) w)"

definition hide_pre_upstream_submit_failure :: "submit_request \<Rightarrow> batch_job \<Rightarrow> batch_world \<Rightarrow> batch_world" where
  "hide_pre_upstream_submit_failure r job w =
     (if bj_provider_job job \<noteq> None then w
      else ignore (mark_user_deleted (sr_user r) (sr_key r) (bj_batch job) w))"

text \<open>When the queue refuses, the retry is only noted as an event.\<close>

definition enqueue_billing_retry :: "bool \<Rightarrow> string \<Rightarrow> batch_world \<Rightarrow> batch_world" where
  "enqueue_billing_retry queue b w =
     (if queue then w else ignore (ask (append_event b ''billing_retry_enqueue_failed'') w))"

definition release_failed_submit_hold ::
  "(fp_part list \<Rightarrow> string) \<Rightarrow> bool \<Rightarrow> batch_job \<Rightarrow> string \<Rightarrow> batch_world \<Rightarrow> (batch_error + unit) \<times> batch_world" where
  "release_failed_submit_hold sha queue job hash w =
     (case release_batch_image_balance_hold sha job hash w of
        (Inr _, w1) \<Rightarrow> (Inr (), w1)
      | (Inl _, w1) \<Rightarrow>
          (Inl HoldFailed, enqueue_billing_retry queue (bj_batch job)
             (record_submit_failure (bj_batch job) ''BILLING_RELEASE_FAILED'' True w1)))"

text \<open>
  After a failure before the provider has the job: the hold is given back, the job is marked
  failed and hidden from its owner.
\<close>

definition fail_submission ::
  "(fp_part list \<Rightarrow> string) \<Rightarrow> bool \<Rightarrow> submit_request \<Rightarrow> batch_job \<Rightarrow> string \<Rightarrow> batch_error \<Rightarrow>
   batch_world \<Rightarrow> (batch_error + batch_job) \<times> batch_world" where
  "fail_submission sha queue r job code e w =
     (case release_failed_submit_hold sha queue job (sr_hash r) w of
        (Inl e', w1) \<Rightarrow> (Inl e', w1)
      | (Inr _, w1) \<Rightarrow>
          (Inl e, hide_pre_upstream_submit_failure r job (record_submit_failure (bj_batch job) code True w1)))"

text \<open>After the provider has taken the job: the row learns its name and the job is queued.\<close>

definition finish_submission ::
  "bool \<Rightarrow> batch_job \<Rightarrow> string \<Rightarrow> string \<Rightarrow> batch_world \<Rightarrow> (batch_error + batch_job) \<times> batch_world" where
  "finish_submission queue job name ref w =
     (case ask (update_provider_submit (bj_batch job) name ref) w of
        (Inl e, w1) \<Rightarrow> (Inl e, ignore (ask (append_event (bj_batch job) ''provider_job_aborted_after_submit'') w1))
      | (Inr _, w1) \<Rightarrow>
          if \<not> queue then (Inl BatchQueueFailed, record_submit_failure (bj_batch job) ''QUEUE_FAILED'' False w1)
          else ask (get_job (bj_batch job)) w1)"

text \<open>\<open>touches\<close> is how often the heartbeat ran while the provider was working.\<close>

fun heartbeats :: "nat \<Rightarrow> string \<Rightarrow> batch_world \<Rightarrow> batch_world" where
  "heartbeats 0 b w = w"
| "heartbeats (Suc n) b w = heartbeats n b (snd (call (touch_job_submitting b) w))"

definition upload_job ::
  "(fp_part list \<Rightarrow> string) \<Rightarrow> bool \<Rightarrow> provider_answer \<Rightarrow> nat \<Rightarrow> submit_request \<Rightarrow> batch_job \<Rightarrow>
   batch_world \<Rightarrow> (batch_error + batch_job) \<times> batch_world" where
  "upload_job sha queue prov touches r job w =
     (case ask (transition_job (bj_batch job) StatusUploading None ''upload_started'') w of
        (Inl e, w1) \<Rightarrow>
          (case release_failed_submit_hold sha queue job (sr_hash r) w1 of
             (Inl e', w2) \<Rightarrow> (Inl e', w2)
           | (Inr _, w2) \<Rightarrow>
               (Inl e, if e = JobErr InvalidTransition then w2
                       else hide_pre_upstream_submit_failure r job
                         (record_submit_failure (bj_batch job) ''UPLOAD_TRANSITION_FAILED'' True w2)))
      | (Inr _, w1) \<Rightarrow>
          let w2 = heartbeats touches (bj_batch job) w1 in
          (case prov of
             Refuses reason \<Rightarrow> fail_submission sha queue r job reason (ProviderSubmitFailed reason) w2
           | NoJob \<Rightarrow> fail_submission sha queue r job ''PROVIDER_SUBMIT_FAILED'' (ProviderSubmitFailed ''PROVIDER_SUBMIT_FAILED'') w2
           | Submitted name ref \<Rightarrow>
               if trim_space name = []
               then fail_submission sha queue r job ''PROVIDER_SUBMIT_FAILED'' (ProviderSubmitFailed ''PROVIDER_SUBMIT_FAILED'') w2
               else finish_submission queue job name ref w2))"

definition create_and_submit ::
  "(fp_part list \<Rightarrow> string) \<Rightarrow> bool \<Rightarrow> provider_answer \<Rightarrow> nat \<Rightarrow> submit_request \<Rightarrow>
   batch_world \<Rightarrow> (batch_error + batch_job) \<times> batch_world" where
  "create_and_submit sha queue prov touches r w =
     (case ask (create_job (job_of_request r)) w of
        (Inl e, w1) \<Rightarrow> (Inl e, w1)
      | (Inr job, w1) \<Rightarrow>
          (case reserve_batch_image_balance_hold sha job (sr_hash r) w1 of
             (Inl e, w2) \<Rightarrow>
               (Inl e, hide_pre_upstream_submit_failure r job (record_submit_failure (bj_batch job)
                  (if e = BatchInsufficient then ''INSUFFICIENT_BALANCE'' else ''BILLING_HOLD_FAILED'') True w2))
           | (Inr _, w2) \<Rightarrow>
               (case create_pending_items (bj_batch job) (sr_items r) w2 of
                  (Inl e, w3) \<Rightarrow> fail_submission sha queue r job ''ITEM_CREATE_FAILED'' BatchQueueFailed w3
                | (Inr _, w3) \<Rightarrow> upload_job sha queue prov touches r job w3)))"

definition submit ::
  "(fp_part list \<Rightarrow> string) \<Rightarrow> bool \<Rightarrow> provider_answer \<Rightarrow> nat \<Rightarrow> submit_request \<Rightarrow>
   batch_world \<Rightarrow> (batch_error + batch_job) \<times> batch_world" where
  "submit sha queue prov touches r w =
     (if sr_idempotency_key r = [] then create_and_submit sha queue prov touches r w
      else case ask (get_job_by_idempotency_key (sr_user r) (sr_key r) (sr_idempotency_key r)) w of
        (Inr old, w1) \<Rightarrow>
          if deref (bj_request_hash old) \<noteq> sr_hash r then (Inl BatchConflict, w1)
          else if bj_status old = StatusSubmitted \<and> \<not> queue
          then (Inl BatchQueueFailed, record_submit_failure (bj_batch old) ''QUEUE_FAILED'' False w1)
          else (Inr old, w1)
      | (Inl (JobErr JobNotFound), w1) \<Rightarrow> create_and_submit sha queue prov touches r w1
      | (Inl e, w1) \<Rightarrow> (Inl e, w1))"

section \<open>Cancellation\<close>

definition is_processor_done_status :: "string \<Rightarrow> bool" where
  "is_processor_done_status s = (s = StatusSettling \<or> is_terminal_batch_image_job_status s)"

text \<open>\<open>cancelled\<close> is the answer of the provider: None when it is not supported.\<close>

definition cancel ::
  "(fp_part list \<Rightarrow> string) \<Rightarrow> bool \<Rightarrow> bool option \<Rightarrow> bool \<Rightarrow> int \<Rightarrow> int \<Rightarrow> string \<Rightarrow>
   batch_world \<Rightarrow> (batch_error + batch_job) \<times> batch_world" where
  "cancel sha queue cancelled account_ok uid kid b w =
     (case ask (get_job_for_owner uid kid b) w of
        (Inl e, w1) \<Rightarrow> (Inl e, w1)
      | (Inr job, w1) \<Rightarrow>
          if is_processor_done_status (bj_status job)
          then if bj_status job = StatusFailed \<or> bj_status job = StatusCancelled
               then case release_batch_image_balance_hold sha job (deref (bj_request_hash job)) w1 of
                 (Inl _, w2) \<Rightarrow> (Inl CancelFailed, enqueue_billing_retry queue (bj_batch job) w2)
               | (Inr _, w2) \<Rightarrow> (Inr job, w2)
               else (Inr job, w1)
          else if deref (bj_provider_job job) \<noteq> []
          then case cancelled of
              None \<Rightarrow> (Inl UnsupportedProvider, w1)
            | Some done_ok \<Rightarrow>
                if bj_account job = None \<or> \<not> account_ok \<or> \<not> done_ok then (Inl CancelFailed, w1)
                else let w2 = ignore (ask (append_event (bj_batch job) ''job_cancel_requested'') w1)
                     in if \<not> queue then (Inl CancelFailed, w2) else ask (get_job_for_owner uid kid b) w2
          else case ask (transition_job (bj_batch job) StatusCancelled None ''job_cancelled'') w1 of
              (Inl e, w2) \<Rightarrow> (Inl e, w2)
            | (Inr _, w2) \<Rightarrow>
                (case release_batch_image_balance_hold sha job (deref (bj_request_hash job)) w2 of
                   (Inl _, w3) \<Rightarrow> (Inl CancelFailed, enqueue_billing_retry queue (bj_batch job) w3)
                 | (Inr _, w3) \<Rightarrow> ask (get_job_for_owner uid kid b) w3))"

section \<open>Recovery of stale submissions\<close>

fun release_stale_each ::
  "(fp_part list \<Rightarrow> string) \<Rightarrow> gotime \<Rightarrow> batch_job list \<Rightarrow> int \<Rightarrow> bool \<Rightarrow> batch_world \<Rightarrow> (int \<times> bool) \<times> batch_world" where
  "release_stale_each sha cutoff [] n err w = ((n, err), w)"
| "release_stale_each sha cutoff (job # jobs) n err w =
     (case fail_stale_unsubmitted_job (bj_batch job) cutoff ''SUBMIT_STALE_BEFORE_PROVIDER'' w of
        ((False, e), w1) \<Rightarrow> release_stale_each sha cutoff jobs n (err \<or> e) w1
      | ((True, _), w1) \<Rightarrow>
          (case release_batch_image_balance_hold sha job (deref (bj_request_hash job)) w1 of
             (Inl _, w2) \<Rightarrow> release_stale_each sha cutoff jobs n True w2
           | (Inr _, w2) \<Rightarrow> release_stale_each sha cutoff jobs (n + 1) err w2))"

text \<open>The count of released jobs, and whether an error is reported.\<close>

definition release_stale_unsubmitted_once ::
  "(fp_part list \<Rightarrow> string) \<Rightarrow> duration \<Rightarrow> int \<Rightarrow> batch_world \<Rightarrow> (int \<times> bool) \<times> batch_world" where
  "release_stale_unsubmitted_once sha stale_after limit w =
     (let age = (if stale_after \<le> 0 then 10 * Minute else stale_after);
          lim = (if limit \<le> 0 then 100 else limit);
          cutoff = jd_now (pw_db w) - age
      in case call (\<lambda>db. (list_stale_unsubmitted cutoff lim db, db)) w of
           (DbErr, w1) \<Rightarrow> ((0, True), w1)
         | (DbOk jobs, w1) \<Rightarrow> release_stale_each sha cutoff jobs 0 False w1)"

section \<open>Indexing the output\<close>

record index_result =
  ix_items :: "batch_item list"
  ix_success :: int
  ix_fail :: int

datatype index_error = ParseFailed | DuplicateCustomID | NoResultLines

text \<open>
  The output is the list of its lines that are not blank, decoded; None is a line that does not
  decode. Lines of items that were not submitted are dropped, when anything was submitted; an item with
  two lines is an error. The result lists the items in reverse.
\<close>

fun index_lines :: "string list \<Rightarrow> json option list \<Rightarrow> index_result \<Rightarrow> index_error + index_result" where
  "index_lines expected [] r = Inr r"
| "index_lines expected (l # ls) r =
     (case parse_result_line l of
        None \<Rightarrow> Inl ParseFailed
      | Some p \<Rightarrow>
          if expected \<noteq> [] \<and> pr_custom_id p \<notin> set expected then index_lines expected ls r
          else if pr_custom_id p \<in> bi_custom_id ` set (ix_items r) then Inl DuplicateCustomID
          else index_lines expected ls
            (if pr_succeeded p then r\<lparr>ix_items := item_of_result p # ix_items r, ix_success := ix_success r + 1\<rparr>
             else r\<lparr>ix_items := item_of_result p # ix_items r, ix_fail := ix_fail r + 1\<rparr>))"

text \<open>Submitted items without a line become failed ones. An output of nothing is an error.\<close>

definition index_output :: "string list \<Rightarrow> json option list \<Rightarrow> index_error + index_result" where
  "index_output expected ls =
     (case index_lines expected ls \<lparr>ix_items = [], ix_success = 0, ix_fail = 0\<rparr> of
        Inl e \<Rightarrow> Inl e
      | Inr r \<Rightarrow>
          let missing = sort (filter (\<lambda>c. c \<notin> bi_custom_id ` set (ix_items r)) (remdups expected));
              failed = map (\<lambda>c. \<lparr>bi_custom_id = c, bi_status = ItemFailed, bi_images = 0, bi_mime = None, bi_error = Some ''PROVIDER_RESULT_MISSING''\<rparr>) missing
          in if ix_items r = [] \<and> missing = [] then Inl NoResultLines
             else Inr \<lparr>ix_items = rev (ix_items r) @ failed, ix_success = ix_success r,
                       ix_fail = ix_fail r + int (length missing)\<rparr>)"

text \<open>Whether lines were dropped or items were missing; then the reconciliation is noted as an event.\<close>

definition index_reconciled :: "string list \<Rightarrow> json option list \<Rightarrow> bool" where
  "index_reconciled expected ls \<longleftrightarrow> expected \<noteq> [] \<and>
     (list_ex (\<lambda>l. case parse_result_line l of Some p \<Rightarrow> pr_custom_id p \<notin> set expected | None \<Rightarrow> False) ls \<or>
      list_ex (\<lambda>c. \<not> list_ex (\<lambda>l. case parse_result_line l of Some p \<Rightarrow> pr_custom_id p = c | None \<Rightarrow> False) ls) expected)"

definition index_job ::
  "json option list option \<Rightarrow> batch_job \<Rightarrow> batch_world \<Rightarrow> (batch_error + index_result) \<times> batch_world" where
  "index_job output job w =
     (case call (\<lambda>db. (map bi_custom_id (case job_at (bj_batch job) db of None \<Rightarrow> [] | Some j \<Rightarrow> bj_items j), db)) w of
        (DbErr, w1) \<Rightarrow> (Inl DbFailure, w1)
      | (DbOk expected, w1) \<Rightarrow>
          (case output of
             None \<Rightarrow> (Inl OutputMissing, w1)
           | Some ls \<Rightarrow>
               (case index_output expected ls of
                  Inl ParseFailed \<Rightarrow> (Inl (IndexFailed ''INDEX_PARSE_FAILED''), w1)
                | Inl DuplicateCustomID \<Rightarrow> (Inl (IndexFailed ''DUPLICATE_CUSTOM_ID_IN_OUTPUT''), w1)
                | Inl NoResultLines \<Rightarrow> (Inl (IndexFailed ''INDEX_PARSE_FAILED''), w1)
                | Inr r \<Rightarrow>
                    let w2 = (if index_reconciled expected ls then ignore (ask (append_event (bj_batch job) ''index_reconciled'') w1) else w1)
                    in (case ask (replace_items (bj_batch job) (ix_items r) (ix_success r) (ix_fail r)) w2 of
                          (Inl e, w3) \<Rightarrow> (Inl e, w3) | (Inr _, w3) \<Rightarrow> (Inr r, w3)))))"

section \<open>Processing\<close>

datatype provider_state = PQueued | PRunning | PSucceeded | PFailed string | PExpired string | PCancelled | POther

datatype process_result = Terminal | Requeue

definition release_terminal_hold ::
  "(fp_part list \<Rightarrow> string) \<Rightarrow> batch_job \<Rightarrow> batch_world \<Rightarrow> (batch_error + unit) \<times> batch_world" where
  "release_terminal_hold sha job w =
     (if bj_status job \<noteq> StatusFailed \<and> bj_status job \<noteq> StatusCancelled then (Inr (), w)
      else release_batch_image_balance_hold sha job (deref (bj_request_hash job)) w)"

text \<open>A job that ends: the transition first, then the release of its hold.\<close>

definition end_job ::
  "(fp_part list \<Rightarrow> string) \<Rightarrow> batch_job \<Rightarrow> string \<Rightarrow> string option \<Rightarrow> string \<Rightarrow>
   batch_world \<Rightarrow> (batch_error + process_result) \<times> batch_world" where
  "end_job sha job st code ev w =
     (case ask (transition_job (bj_batch job) st code ev) w of
        (Inl e, w1) \<Rightarrow> (Inl e, w1)
      | (Inr _, w1) \<Rightarrow>
          (case release_terminal_hold sha (job\<lparr>bj_status := st\<rparr>) w1 of
             (Inl e, w2) \<Rightarrow> (Inl e, w2) | (Inr _, w2) \<Rightarrow> (Inr Terminal, w2)))"

definition index_and_settle ::
  "(fp_part list \<Rightarrow> string) \<Rightarrow> json option list option \<Rightarrow> batch_job \<Rightarrow>
   batch_world \<Rightarrow> (batch_error + process_result) \<times> batch_world" where
  "index_and_settle sha output job w =
     (case index_job output job w of
        (Inl OutputMissing, w1) \<Rightarrow> (Inl OutputMissing, w1)
      | (Inl (JobErr IndexStateConflict), w1) \<Rightarrow> (Inr Requeue, w1)
      | (Inl (IndexFailed code), w1) \<Rightarrow> end_job sha job StatusFailed (Some code) ''indexing_failed'' w1
      | (Inl _, w1) \<Rightarrow> end_job sha job StatusFailed (Some ''INDEX_PARSE_FAILED'') ''indexing_failed'' w1
      | (Inr _, w1) \<Rightarrow>
          (case ask (transition_job (bj_batch job) StatusSettling None ''indexing_completed'') w1 of
             (Inl e, w2) \<Rightarrow> (Inl e, w2) | (Inr _, w2) \<Rightarrow> (Inr Requeue, w2)))"

definition persist_provider_output_ref :: "batch_job \<Rightarrow> string \<Rightarrow> batch_world \<Rightarrow> (batch_error + unit) \<times> batch_world" where
  "persist_provider_output_ref job ref w =
     (if trim_space ref = [] \<or> deref (bj_output_ref job) = trim_space ref then (Inr (), w)
      else ask (update_output_ref (bj_batch job) (trim_space ref)) w)"

text \<open>\<open>registered\<close>: the provider is known; \<open>account_ok\<close>: the account exists and suits it. What the provider reports: an error or no status (None), or a state with the place of its output.\<close>

definition process_job ::
  "(fp_part list \<Rightarrow> string) \<Rightarrow> bool \<Rightarrow> bool \<Rightarrow> (provider_state \<times> string) option \<Rightarrow> json option list option \<Rightarrow>
   string \<Rightarrow> batch_world \<Rightarrow> (batch_error + process_result) \<times> batch_world" where
  "process_job sha registered account_ok report output b w =
     (case ask (get_job b) w of
        (Inl e, w1) \<Rightarrow> (Inl e, w1)
      | (Inr job, w1) \<Rightarrow>
          if is_processor_done_status (bj_status job)
          then (case release_terminal_hold sha job w1 of (Inl e, w2) \<Rightarrow> (Inl e, w2) | (Inr _, w2) \<Rightarrow> (Inr Terminal, w2))
          else if \<not> registered then (Inl UnsupportedProvider, w1)
          else if (case bj_account job of None \<Rightarrow> True | Some a \<Rightarrow> a \<le> 0) then (Inl MissingAccount, w1)
          else if \<not> account_ok then (Inl UnsupportedAccount, w1)
          else if deref (bj_provider_job job) = [] then (Inl MissingProviderJob, w1)
          else if bj_status job = StatusIndexing then index_and_settle sha output job w1
          else case report of
              None \<Rightarrow> (Inr Requeue, w1)
            | Some (st, ref) \<Rightarrow>
                (case persist_provider_output_ref job ref w1 of
                   (Inl e, w2) \<Rightarrow> (Inl e, w2)
                 | (Inr _, w2) \<Rightarrow>
                     (case st of
                        PRunning \<Rightarrow>
                          if bj_status job = StatusRunning then (Inr Requeue, w2)
                          else (case ask (transition_job b StatusRunning None ''provider_status_checked'') w2 of
                                  (Inl e, w3) \<Rightarrow> (Inl e, w3) | (Inr _, w3) \<Rightarrow> (Inr Requeue, w3))
                      | PSucceeded \<Rightarrow>
                          (case ask (transition_job b StatusIndexing None ''indexing_started'') w2 of
                             (Inl e, w3) \<Rightarrow> (Inl e, w3)
                           | (Inr _, w3) \<Rightarrow> index_and_settle sha output (job\<lparr>bj_status := StatusIndexing\<rparr>) w3)
                      | PFailed code \<Rightarrow>
                          end_job sha job StatusFailed
                            (Some (if trim_space code = [] then ''PROVIDER_BATCH_FAILED'' else trim_space code)) ''job_failed'' w2
                      | PExpired code \<Rightarrow>
                          end_job sha job StatusFailed
                            (Some (if trim_space code = [] then ''PROVIDER_BATCH_EXPIRED'' else trim_space code)) ''job_failed'' w2
                      | PCancelled \<Rightarrow> end_job sha job StatusCancelled None ''job_failed'' w2
                      | _ \<Rightarrow> (Inr Requeue, w2))))"

section \<open>Settlement\<close>

definition settlement_manifest_hash :: "(fp_part list \<Rightarrow> string) \<Rightarrow> batch_job \<Rightarrow> string" where
  "settlement_manifest_hash sha j =
     sha [FText (trim_space (bj_batch j)), FText (trim_space (bj_provider j)), FText (trim_space (bj_model j)),
          FText (deref (bj_provider_job j)), FText (deref (bj_output_ref j)), FInt (bj_success j), FInt (bj_fail j),
          FInt (bj_item_count j)]"

definition batchImageSettlementMaxRetries :: int where "batchImageSettlementMaxRetries = 5"

definition batchImageCostEpsilon :: rat where "batchImageCostEpsilon = 1 / 10 ^ 8"

definition is_settlement_retry_exhausted :: "batch_job \<Rightarrow> bool" where
  "is_settlement_retry_exhausted j \<longleftrightarrow>
     bj_status j = StatusSettling \<and> bj_retry j \<ge> batchImageSettlementMaxRetries \<and>
     has_prefix (deref (bj_error_code j)) ''SETTLEMENT_''"

definition settlement_unit_price :: "(batch_job \<Rightarrow> rat option) \<Rightarrow> batch_job \<Rightarrow> rat option" where
  "settlement_unit_price pricing j =
     (case (if bj_price_version j \<ge> 1 then Some (bj_unit_price j) else pricing j) of
        None \<Rightarrow> None | Some u \<Rightarrow> if u < 0 then None else Some u)"

definition fail_exhausted_settlement ::
  "(fp_part list \<Rightarrow> string) \<Rightarrow> batch_job \<Rightarrow> batch_world \<Rightarrow> batch_error \<times> batch_world" where
  "fail_exhausted_settlement sha job w =
     (case release_batch_image_balance_hold sha job (deref (bj_request_hash job)) w of
        (Inl _, w1) \<Rightarrow> (BillingFailed, ignore (set_job_settlement_failed (bj_batch job) ''SETTLEMENT_RELEASE_FAILED'' w1))
      | (Inr _, w1) \<Rightarrow>
          (case ask (transition_job (bj_batch job) StatusFailed (Some ''SETTLEMENT_BILLING_RETRY_EXHAUSTED'')
                      ''settlement_retry_exhausted'') w1 of
             (Inl e, w2) \<Rightarrow> (e, w2) | (Inr _, w2) \<Rightarrow> (BillingFailed, w2)))"

text \<open>A failure is recorded; the one that reaches the limit ends the job. The caller's error stands
  unless ending the job gives another one.\<close>

definition record_settlement_failure ::
  "(fp_part list \<Rightarrow> string) \<Rightarrow> batch_job \<Rightarrow> string \<Rightarrow> batch_error \<Rightarrow> batch_world \<Rightarrow> batch_error \<times> batch_world" where
  "record_settlement_failure sha job code e w =
     (case set_job_settlement_failed (bj_batch job) code w of
        (Inl _, w1) \<Rightarrow> (e, w1)
      | (Inr n, w1) \<Rightarrow>
          if n \<ge> batchImageSettlementMaxRetries
          then fail_exhausted_settlement sha (job\<lparr>bj_retry := n, bj_error_code := Some code\<rparr>) w1 else (e, w1))"

definition fail_settlement ::
  "(fp_part list \<Rightarrow> string) \<Rightarrow> batch_job \<Rightarrow> string \<Rightarrow> batch_error \<Rightarrow> batch_world \<Rightarrow> (batch_error + 'a) \<times> batch_world" where
  "fail_settlement sha job code e w = (let (e', w1) = record_settlement_failure sha job code e w in (Inl e', w1))"

text \<open>The actual cost of a settled job; None when it had been settled before.\<close>

definition settle ::
  "(fp_part list \<Rightarrow> string) \<Rightarrow> (batch_job \<Rightarrow> rat option) \<Rightarrow> string \<Rightarrow> batch_world \<Rightarrow> (batch_error + rat option) \<times> batch_world" where
  "settle sha pricing b w =
     (case ask (get_job b) w of
        (Inl e, w1) \<Rightarrow> (Inl e, w1)
      | (Inr job, w1) \<Rightarrow>
          let manifest = settlement_manifest_hash sha job in
          if bj_status job = StatusCompleted then (Inr None, w1)
          else if bj_status job \<noteq> StatusSettling then (Inl InvalidStatus, w1)
          else if (case bj_key job of None \<Rightarrow> True | Some k \<Rightarrow> k \<le> 0) then (Inl MissingAPIKey, w1)
          else if (case bj_account job of None \<Rightarrow> True | Some a \<Rightarrow> a \<le> 0) then (Inl MissingAccount, w1)
          else if is_settlement_retry_exhausted job
          then (let (e, w2) = fail_exhausted_settlement sha job w1 in (Inl e, w2))
          else if bj_success job < 0 \<or> bj_fail job < 0 \<or> bj_item_count job < 0 \<or> bj_success job + bj_fail job > bj_item_count job
          then fail_settlement sha job ''SETTLEMENT_INVALID_COUNTS'' InvalidCounts w1
          else if deref (bj_manifest job) \<noteq> [] \<and> deref (bj_manifest job) \<noteq> manifest
          then fail_settlement sha job ''SETTLEMENT_MANIFEST_CONFLICT'' ManifestConflict w1
          else case settlement_unit_price pricing job of
              None \<Rightarrow> fail_settlement sha job ''SETTLEMENT_PRICING_MISSING'' PricingMissing w1
            | Some u \<Rightarrow>
                let actual = of_int (bj_success job) * u in
                if actual - held_amount job > batchImageCostEpsilon
                then fail_settlement sha job ''SETTLEMENT_COST_EXCEEDS_HOLD'' CostOverHold w1
                else (case capture_batch_image_balance_hold sha job actual manifest w1 of
                        (Inl e, w2) \<Rightarrow> fail_settlement sha job ''SETTLEMENT_BILLING_FAILED'' e w2
                      | (Inr _, w2) \<Rightarrow>
                          (case ask (mark_job_settled b actual manifest) w2 of
                             (Inl e, w3) \<Rightarrow> (Inl e, w3) | (Inr _, w3) \<Rightarrow> (Inr (Some actual), w3))))"

text \<open>The worker's entry point.\<close>

definition pipeline_process ::
  "(fp_part list \<Rightarrow> string) \<Rightarrow> (batch_job \<Rightarrow> rat option) \<Rightarrow> bool \<Rightarrow> bool \<Rightarrow> (provider_state \<times> string) option \<Rightarrow>
   json option list option \<Rightarrow> string \<Rightarrow> batch_world \<Rightarrow> (batch_error + process_result) \<times> batch_world" where
  "pipeline_process sha pricing registered account_ok report output b w =
     (case ask (get_job b) w of
        (Inl e, w1) \<Rightarrow> (Inl e, w1)
      | (Inr job, w1) \<Rightarrow>
          if bj_status job \<noteq> StatusSettling then process_job sha registered account_ok report output b w1
          else case settle sha pricing b w1 of
              (Inr _, w2) \<Rightarrow> (Inr Terminal, w2)
            | (Inl BillingFailed, w2) \<Rightarrow>
                (case ask (get_job b) w2 of
                   (Inr j, w3) \<Rightarrow> (Inr (if is_terminal_batch_image_job_status (bj_status j) then Terminal else Requeue), w3)
                 | (Inl _, w3) \<Rightarrow> (Inr Requeue, w3))
            | (Inl e, w2) \<Rightarrow> (Inl e, w2))"

end
