(* ===== verification/Billing_Claims.thy ===== *)
theory Billing_Claims
  imports Batch_Hold
begin

text \<open>
  What the billing transactions do to the funds of the users and to the quotas of the keys. An
  effect is a change of balances, frozen balances and used quotas that leaves the claims alone;
  the statements of \<open>Usage_Billing\<close> and \<open>Batch_Hold\<close> have exactly the effects named here, with no
  rounding, as long as the stored amounts and those of the commands have eight decimals.
\<close>

section \<open>Amounts of eight decimals\<close>

definition scale8 :: "rat \<Rightarrow> bool" where
  "scale8 x \<longleftrightarrow> (\<exists>n::int. x * 10 ^ 8 = of_int n)"

lemma scale8_add: "scale8 a \<Longrightarrow> scale8 b \<Longrightarrow> scale8 (a + b)"
  unfolding scale8_def by (metis of_int_add distrib_right)

lemma scale8_diff: "scale8 a \<Longrightarrow> scale8 b \<Longrightarrow> scale8 (a - b)"
  unfolding scale8_def by (metis of_int_diff left_diff_distrib)

lemma scale8_zero: "scale8 0"
  unfolding scale8_def by (rule exI [of _ 0]) simp

lemma scale8_round: "scale8 (dec_round 8 x)"
  unfolding scale8_def dec_round_def by (rule exI [of _ "round_half_away (x * 10 ^ 8)"]) simp

lemmas scale8_rules [intro, simp] = scale8_add scale8_diff scale8_zero scale8_round

lemma numeric8_scale8 [simp]: "scale8 x \<Longrightarrow> numeric8 x = x"
  unfolding scale8_def numeric8_def by (auto intro: dec_round_fix)

lemma scale8_numeric8 [simp]: "scale8 (numeric8 x)"
  by (simp add: numeric8_def)

lemma scale8_quantized [simp]: "scale8 (quantize_usage_billing_amount v)"
  by (simp add: quantize_usage_billing_amount_def UsageBillingMonetaryScale_def)

section \<open>Effects\<close>

definition balance_of :: "billing_db \<Rightarrow> int \<Rightarrow> rat" where
  "balance_of db u = (case bd_users db u of None \<Rightarrow> 0 | Some x \<Rightarrow> bu_balance x)"

definition frozen_of :: "billing_db \<Rightarrow> int \<Rightarrow> rat" where
  "frozen_of db u = (case bd_users db u of None \<Rightarrow> 0 | Some x \<Rightarrow> bu_frozen x)"

definition quota_used_of :: "billing_db \<Rightarrow> int \<Rightarrow> rat" where
  "quota_used_of db k = (case bd_keys db k of None \<Rightarrow> 0 | Some x \<Rightarrow> bk_quota_used x)"

definition scaled :: "billing_db \<Rightarrow> bool" where
  "scaled db \<longleftrightarrow> (\<forall>u. scale8 (balance_of db u) \<and> scale8 (frozen_of db u)) \<and> (\<forall>k. scale8 (quota_used_of db k))"

definition on_id :: "int \<Rightarrow> rat \<Rightarrow> int \<Rightarrow> rat" where
  "on_id i x = (\<lambda>j. if j = i then x else 0)"

definition nothing :: "int \<Rightarrow> rat" where "nothing = (\<lambda>_. 0)"

definition plus_fun :: "(int \<Rightarrow> rat) \<Rightarrow> (int \<Rightarrow> rat) \<Rightarrow> int \<Rightarrow> rat" where
  "plus_fun f g = (\<lambda>i. f i + g i)"

definition effect ::
  "(int \<Rightarrow> rat) \<Rightarrow> (int \<Rightarrow> rat) \<Rightarrow> (int \<Rightarrow> rat) \<Rightarrow> billing_db \<Rightarrow> billing_db \<Rightarrow> bool" where
  "effect fb ff fk db db' \<longleftrightarrow>
     bd_dedup db' = bd_dedup db \<and> bd_archive db' = bd_archive db \<and> scaled db' \<and>
     (\<forall>u. balance_of db' u = balance_of db u + fb u) \<and> (\<forall>u. frozen_of db' u = frozen_of db u + ff u) \<and>
     (\<forall>k. live_key db k \<noteq> None \<longrightarrow> quota_used_of db' k = quota_used_of db k + fk k) \<and>
     (\<forall>u. (live_user db' u = None) = (live_user db u = None)) \<and>
     (\<forall>k. (live_key db' k = None) = (live_key db k = None))"

text \<open>A statement has an effect when it has it wherever it succeeds.\<close>

definition moves :: "(int \<Rightarrow> rat) \<Rightarrow> (int \<Rightarrow> rat) \<Rightarrow> (int \<Rightarrow> rat) \<Rightarrow> 'a stmt \<Rightarrow> bool" where
  "moves fb ff fk m \<longleftrightarrow> (\<forall>db a db'. scaled db \<longrightarrow> m db = Inr (a, db') \<longrightarrow> effect fb ff fk db db')"

named_theorems moves_rules \<open>the effects of the statements\<close>

lemma movesI:
  "(\<And>db a db'. scaled db \<Longrightarrow> m db = Inr (a, db') \<Longrightarrow> effect fb ff fk db db') \<Longrightarrow> moves fb ff fk m"
  by (auto simp: moves_def)

lemma movesD: "moves fb ff fk m \<Longrightarrow> scaled db \<Longrightarrow> m db = Inr (a, db') \<Longrightarrow> effect fb ff fk db db'"
  by (auto simp: moves_def)

lemma effect_refl: "scaled db \<Longrightarrow> effect nothing nothing nothing db db"
  by (simp add: effect_def nothing_def)

lemma effect_trans:
  "effect fb ff fk a b \<Longrightarrow> effect gb gf gk b c \<Longrightarrow>
   effect (plus_fun fb gb) (plus_fun ff gf) (plus_fun fk gk) a c"
  by (simp add: effect_def plus_fun_def)

lemma plus_nothing [simp]: "plus_fun nothing f = f" "plus_fun f nothing = f"
  by (simp_all add: plus_fun_def nothing_def)

lemma on_id_zero [simp]: "on_id i 0 = nothing"
  by (auto simp: on_id_def nothing_def)

lemma moves_return [moves_rules]: "moves nothing nothing nothing (\<lambda>db. Inr (x, db))"
  by (auto intro!: movesI effect_refl)

lemma moves_if: "(c \<Longrightarrow> moves fb ff fk m) \<Longrightarrow> (\<not> c \<Longrightarrow> moves fb ff fk n) \<Longrightarrow> moves fb ff fk (\<lambda>db. if c then m db else n db)"
  by (cases c) simp_all

lemma moves_and_then:
  assumes "moves fb ff fk m" "\<And>a. moves gb gf gk (f a)"
  shows "moves (plus_fun fb gb) (plus_fun ff gf) (plus_fun fk gk) (and_then m f)"
proof (rule movesI)
  fix db a db' assume s: "scaled db" and r: "and_then m f db = Inr (a, db')"
  then obtain x d where m: "m db = Inr (x, d)" and f: "f x d = Inr (a, db')"
    by (auto simp: and_then_def split: sum.splits)
  from movesD [OF assms(1) s m] have e: "effect fb ff fk db d" .
  moreover from e have "scaled d" by (simp add: effect_def)
  ultimately show "effect (plus_fun fb gb) (plus_fun ff gf) (plus_fun fk gk) db db'"
    using movesD [OF assms(2) _ f] by (blast intro: effect_trans)
qed

lemma effect_user:
  assumes "scaled db" "live_user db i = Some u"
    and "scale8 (bu_balance v)" "scale8 (bu_frozen v)" "bu_deleted v = bu_deleted u"
  shows "effect (on_id i (bu_balance v - bu_balance u)) (on_id i (bu_frozen v - bu_frozen u)) nothing db (put_user i v db)"
  using assms
  by (auto simp: effect_def put_user_def scaled_def balance_of_def frozen_of_def quota_used_of_def live_user_def
      live_key_def on_id_def nothing_def split: option.splits if_splits)

lemma live_scale8:
  "scaled db \<Longrightarrow> live_user db i = Some u \<Longrightarrow> scale8 (bu_balance u) \<and> scale8 (bu_frozen u)"
  "scaled db \<Longrightarrow> live_key db i = Some k \<Longrightarrow> scale8 (bk_quota_used k)"
proof -
  assume s: "scaled db" and u: "live_user db i = Some u"
  then have "bd_users db i = Some u" by (auto simp: live_user_def split: option.splits if_splits)
  then have "balance_of db i = bu_balance u" "frozen_of db i = bu_frozen u"
    by (simp_all add: balance_of_def frozen_of_def)
  with s show "scale8 (bu_balance u) \<and> scale8 (bu_frozen u)" unfolding scaled_def by metis
next
  assume s: "scaled db" and k: "live_key db i = Some k"
  then have "bd_keys db i = Some k" by (auto simp: live_key_def split: option.splits if_splits)
  then have "quota_used_of db i = bk_quota_used k" by (simp add: quota_used_of_def)
  with s show "scale8 (bk_quota_used k)" unfolding scaled_def by metis
qed

lemma effect_key:
  assumes "scaled db" "live_key db i = Some k" "scale8 (bk_quota_used v)" "bk_deleted v = bk_deleted k"
  shows "effect nothing nothing (on_id i (bk_quota_used v - bk_quota_used k)) db (put_key i v db)"
  using assms
  by (auto simp: effect_def put_key_def scaled_def balance_of_def frozen_of_def quota_used_of_def live_user_def
      live_key_def on_id_def nothing_def split: option.splits if_splits)

text \<open>Tables that the effects do not speak of.\<close>

lemma effect_other:
  assumes "scaled db" "bd_users db' = bd_users db" "bd_keys db' = bd_keys db"
    "bd_dedup db' = bd_dedup db" "bd_archive db' = bd_archive db"
  shows "effect nothing nothing nothing db db'"
  using assms by (simp add: effect_def scaled_def balance_of_def frozen_of_def quota_used_of_def live_user_def
      live_key_def nothing_def)

section \<open>The effects of charging\<close>

definition if_positive :: "rat \<Rightarrow> rat" where "if_positive x = (if x > 0 then x else 0)"

lemma moves_subscription: "moves nothing nothing nothing (increment_usage_billing_subscription sid cost)"
  by (rule movesI) (auto simp: increment_usage_billing_subscription_def intro!: effect_other split: option.splits if_splits)

lemma moves_deduct:
  assumes "scale8 amount"
  shows "moves (on_id uid (- amount)) nothing nothing (deduct_usage_billing_balance uid amount)"
proof (rule movesI)
  fix db a db' assume s: "scaled db" and r: "deduct_usage_billing_balance uid amount db = Inr (a, db')"
  then obtain u where u: "live_user db uid = Some u" and d: "db' = put_user uid (u\<lparr>bu_balance := numeric8 (bu_balance u - amount)\<rparr>) db"
    by (auto simp: deduct_usage_billing_balance_def Let_def split: option.splits if_splits)
  from live_scale8(1) [OF s u] assms have "scale8 (bu_balance u - amount)" by blast
  with effect_user [OF s u, of "u\<lparr>bu_balance := numeric8 (bu_balance u - amount)\<rparr>"] live_scale8(1) [OF s u]
  show "effect (on_id uid (- amount)) nothing nothing db db'" by (simp add: d)
qed

lemma moves_credit:
  assumes "scale8 amount"
  shows "moves (on_id uid amount) nothing nothing (credit_balance uid amount)"
proof (rule movesI)
  fix db a db' assume s: "scaled db" and r: "credit_balance uid amount db = Inr (a, db')"
  then obtain u where u: "live_user db uid = Some u" and d: "db' = put_user uid (u\<lparr>bu_balance := numeric8 (bu_balance u + amount)\<rparr>) db"
    by (auto simp: credit_balance_def Let_def split: option.splits)
  from live_scale8(1) [OF s u] assms have "scale8 (bu_balance u + amount)" by blast
  with effect_user [OF s u, of "u\<lparr>bu_balance := numeric8 (bu_balance u + amount)\<rparr>"] live_scale8(1) [OF s u]
  show "effect (on_id uid amount) nothing nothing db db'" by (simp add: d)
qed

lemma effect_no_key: "live_key db i = None \<Longrightarrow> scaled db \<Longrightarrow> effect nothing nothing (on_id i x) db db"
  by (auto simp: effect_def nothing_def on_id_def)

lemma moves_key_quota:
  assumes "scale8 amount"
  shows "moves nothing nothing (on_id kid amount) (skip_missing_key d (increment_usage_billing_api_key_quota kid amount))"
proof (rule movesI)
  fix db a db' assume s: "scaled db" and r: "skip_missing_key d (increment_usage_billing_api_key_quota kid amount) db = Inr (a, db')"
  show "effect nothing nothing (on_id kid amount) db db'"
  proof (cases "live_key db kid")
    case None
    with r have "db' = db" by (simp add: skip_missing_key_def increment_usage_billing_api_key_quota_def)
    with None s show ?thesis by (simp add: effect_no_key)
  next
    case (Some k)
    define used where "used = numeric8 (bk_quota_used k + amount)"
    from r Some obtain st where d: "db' = put_key kid (k\<lparr>bk_quota_used := used, bk_status := st\<rparr>) db"
      by (auto simp: skip_missing_key_def increment_usage_billing_api_key_quota_def used_def Let_def)
    from live_scale8(2) [OF s Some] assms have "used = bk_quota_used k + amount" by (simp add: used_def)
    with effect_key [OF s Some, of "k\<lparr>bk_quota_used := used, bk_status := st\<rparr>"] live_scale8(2) [OF s Some] assms
    show ?thesis by (simp add: d)
  qed
qed

lemma moves_rate_limit:
  "moves nothing nothing nothing (skip_missing_key d (increment_usage_billing_api_key_rate_limit z kid cost))"
proof (rule movesI)
  fix db a db' assume s: "scaled db"
    and r: "skip_missing_key d (increment_usage_billing_api_key_rate_limit z kid cost) db = Inr (a, db')"
  show "effect nothing nothing nothing db db'"
  proof (cases "live_key db kid")
    case None
    with r have "db' = db" by (simp add: skip_missing_key_def increment_usage_billing_api_key_rate_limit_def)
    with s show ?thesis by (simp add: effect_refl)
  next
    case (Some k)
    with r obtain v where d: "db' = put_key kid v db" "bk_quota_used v = bk_quota_used k" "bk_deleted v = bk_deleted k"
      by (auto simp: skip_missing_key_def increment_usage_billing_api_key_rate_limit_def Let_def)
    with effect_key [OF s Some, of v] live_scale8(2) [OF s Some] show ?thesis by simp
  qed
qed

lemma moves_account: "moves nothing nothing nothing (increment_usage_billing_account_quota z aid amount)"
  by (rule movesI)
    (auto simp: increment_usage_billing_account_quota_def Let_def intro!: effect_other split: option.splits if_splits)

lemma moves_then_return: "moves fb ff fk m \<Longrightarrow> (\<And>a d. \<exists>x. f a d = Inr (x, d)) \<Longrightarrow> moves fb ff fk (and_then m f)"
proof (rule movesI)
  fix db a db' assume m: "moves fb ff fk m" and f: "\<And>a d. \<exists>x. f a d = Inr (x, d)"
    and s: "scaled db" and r: "and_then m f db = Inr (a, db')"
  from r obtain x d where "m db = Inr (x, d)" "f x d = Inr (a, db')" by (auto simp: and_then_def split: sum.splits)
  moreover from f [of x d] this have "d = db'" by auto
  ultimately show "effect fb ff fk db db'" using movesD [OF m s] by simp
qed

text \<open>The amounts of a command that has been normalised.\<close>

definition scaled_command :: "usage_command \<Rightarrow> bool" where
  "scaled_command c \<longleftrightarrow> scale8 (uc_balance_cost c) \<and> scale8 (uc_key_quota_cost c)"

lemma moves_effects:
  assumes c: "scaled_command c"
  shows "moves (on_id (uc_user c) (- if_positive (uc_balance_cost c))) nothing
    (on_id (uc_key c) (if_positive (uc_key_quota_cost c))) (apply_usage_billing_effects z c r)"
proof -
  have sub: "moves nothing nothing nothing (effect_subscription c r0)" for r0
    unfolding effect_subscription_def [abs_def]
    by (cases "uc_subscription c"; cases "uc_subscription_cost c > 0")
      (auto intro!: moves_return moves_then_return moves_subscription)
  have bal: "moves (on_id (uc_user c) (- if_positive (uc_balance_cost c))) nothing nothing (effect_balance c r0)" for r0
    unfolding effect_balance_def [abs_def] if_positive_def using c
    by (auto intro!: moves_return moves_then_return moves_deduct simp: scaled_command_def split: prod.splits)
  have key: "moves nothing nothing (on_id (uc_key c) (if_positive (uc_key_quota_cost c))) (effect_key_quota c r0)" for r0
    unfolding effect_key_quota_def [abs_def] if_positive_def using c
    by (auto intro!: moves_return moves_then_return moves_key_quota simp: scaled_command_def)
  have rate: "moves nothing nothing nothing (effect_rate_limit z c r0)" for r0
    unfolding effect_rate_limit_def [abs_def] by (auto intro!: moves_if moves_return moves_then_return moves_rate_limit)
  have acc: "moves nothing nothing nothing (effect_account z c r0)" for r0
    unfolding effect_account_def [abs_def] by (auto intro!: moves_if moves_return moves_then_return moves_account)
  note r34 = moves_and_then [OF rate acc, simplified]
  note r234 = moves_and_then [OF key r34, simplified]
  note r1234 = moves_and_then [OF bal r234, simplified]
  from moves_and_then [OF sub r1234] show ?thesis by (simp add: apply_usage_billing_effects_def)
qed

section \<open>Rental shares\<close>

definition rental_of :: "usage_command \<Rightarrow> rental_settlement option" where
  "rental_of c =
     (case uc_rental c of
        None \<Rightarrow> None
      | Some s \<Rightarrow> (case rental_split (uc_balance_cost c + uc_subscription_cost c) s of
          Inl _ \<Rightarrow> None
        | Inr a \<Rightarrow> if al_bill a = 0 then None else Some (s, a)))"

definition rental_delta :: "usage_command \<Rightarrow> int \<Rightarrow> rat" where
  "rental_delta c =
     (case rental_of c of
        None \<Rightarrow> nothing
      | Some (s, a) \<Rightarrow> plus_fun (on_id (rs_owner_user s) (al_owner a)) (on_id (rs_admin_user s) (al_admin a)))"

lemma rental_split_scale8: "rental_split x s = Inr a \<Longrightarrow> scale8 (al_bill a) \<and> scale8 (al_owner a) \<and> scale8 (al_admin a)"
  by (auto simp: rental_split_def Let_def UsageBillingMonetaryScale_def split: if_splits)

text \<open>The shares make the bill, and none is negative: the check of the ledger never fails.\<close>

lemma rental_split_exact:
  assumes "rental_split x s = Inr a"
  shows "al_owner a + al_admin a = al_bill a" "0 \<le> al_owner a" "0 \<le> al_admin a"
proof -
  let ?bill = "dec_round UsageBillingMonetaryScale x"
  from assms have bps: "0 \<le> rs_bps s" "rs_bps s \<le> 10000" "0 \<le> x"
    and a: "al_bill a = ?bill" "al_owner a = dec_round UsageBillingMonetaryScale (dec_div (?bill * of_int (rs_bps s)) 10000)"
      "al_admin a = al_bill a - al_owner a"
    by (auto simp: rental_split_def Let_def split: if_splits)
  have b: "0 \<le> ?bill" using bps by (simp add: dec_round_nonneg)
  have q: "?bill * of_int (rs_bps s) / 10000 \<le> ?bill" 
    using mult_left_mono [OF _ b, of "of_int (rs_bps s)" 10000] bps by (simp add: divide_le_eq)
  obtain k where k: "?bill * 10 ^ 8 = of_int k" using scale8_round [of x] by (auto simp: scale8_def UsageBillingMonetaryScale_def)
  then have "?bill * 10 ^ 16 = of_int (k * 10 ^ 8)" by (simp add: field_simps)
  then have fix16: "dec_round 16 ?bill = ?bill" by (rule dec_round_fix)
  have "dec_div (?bill * of_int (rs_bps s)) 10000 \<le> ?bill"
    using dec_round_mono [OF q, of 16] by (simp add: dec_div_def fix16)
  from dec_round_mono [OF this, of UsageBillingMonetaryScale] have "al_owner a \<le> al_bill a" by (simp add: a)
  then show "0 \<le> al_admin a" by (simp add: a(3))
  show "0 \<le> al_owner a" unfolding a(2) dec_div_def using b bps by (intro dec_round_nonneg) simp
  show "al_owner a + al_admin a = al_bill a" by (simp add: a(3))
qed

lemma lock_users_same: "lock_users is db = Inr ((), db') \<Longrightarrow> db' = db"
  by (induction "is" db rule: lock_users.induct) (auto split: option.splits)

lemma prepare_rental_same:
  "prepare_rental_settlement c db = Inr (rs, db') \<Longrightarrow> rs = rental_of c \<and> db' = db"
  by (auto simp: prepare_rental_settlement_def rental_of_def dest: lock_users_same split: option.splits sum.splits if_splits)

lemma moves_insert_revenue: "moves nothing nothing nothing (insert_revenue e)"
  by (rule movesI) (auto simp: insert_revenue_def intro!: effect_other split: if_splits)

lemma moves_settlement: "moves (rental_delta c) nothing nothing (apply_rental_settlement (rental_of c) c r)"
proof (cases "rental_of c")
  case None
  then show ?thesis by (simp add: apply_rental_settlement_def [abs_def] rental_delta_def moves_return)
next
  case (Some rs)
  obtain s a where rs: "rs = (s, a)" by (cases rs)
  with Some have "scale8 (al_owner a) \<and> scale8 (al_admin a)"
    by (auto simp: rental_of_def dest!: rental_split_scale8 split: option.splits sum.splits if_splits)
  then have o: "moves (on_id (rs_owner_user s) (al_owner a)) nothing nothing (credit_balance (rs_owner_user s) (numeric8 (al_owner a)))"
    and d: "moves (on_id (rs_admin_user s) (al_admin a)) nothing nothing (credit_balance (rs_admin_user s) (numeric8 (al_admin a)))"
    by (simp_all add: moves_credit)
  note m = moves_and_then [OF moves_insert_revenue moves_and_then [OF o moves_then_return [OF d]], simplified]
  show ?thesis unfolding rental_delta_def Some rs apply_rental_settlement_def [abs_def]
    by (simp only: option.case prod.case) (rule m, blast)
qed

definition charge_delta :: "usage_command \<Rightarrow> int \<Rightarrow> rat" where
  "charge_delta c = plus_fun (on_id (uc_user c) (- if_positive (uc_balance_cost c))) (rental_delta c)"

definition quota_delta :: "usage_command \<Rightarrow> int \<Rightarrow> rat" where
  "quota_delta c = on_id (uc_key c) (if_positive (uc_key_quota_cost c))"

lemma moves_charge:
  assumes "scaled_command c"
  shows "moves (charge_delta c) nothing (quota_delta c) (charge_request z c)"
proof (rule movesI)
  fix db r db' assume s: "scaled db" and "charge_request z c db = Inr (r, db')"
  then have "and_then (apply_usage_billing_effects z c (no_apply_result\<lparr>ar_applied := True\<rparr>))
      (apply_rental_settlement (rental_of c) c) db = Inr (r, db')"
    by (auto simp: charge_request_def and_then_def dest!: prepare_rental_same split: sum.splits)
  with movesD [OF moves_and_then [OF moves_effects [OF assms] moves_settlement] s]
  show "effect (charge_delta c) nothing (quota_delta c) db db'" by (simp add: charge_delta_def quota_delta_def)
qed

end
