(* ===== verification/Billing_Ledger.thy ===== *)
theory Billing_Ledger
  imports Billing_Claims
begin

text \<open>
  Runs of the billing transactions. The operations of all workers are one list, in the order in
  which the database commits them; each may fail before it has any effect or lose its
  acknowledgement. The transactions that were applied are the log of a run: each of them once per
  request and key, and the funds and quotas are what the log says.
\<close>

section \<open>Runs\<close>

datatype billing_op =
    Charge "usage_command option"
  | Reserve "hold_command option"
  | Capture "hold_command option"
  | Release "hold_command option"
  | ArchiveClaims gotime "claim_key list"
  | Wait gotime

datatype applied_op =
    Charged usage_command
  | Reserved hold_command
  | Captured hold_command
  | Released hold_command

fun applied_key :: "applied_op \<Rightarrow> claim_key" where
  "applied_key (Charged c) = (uc_request_id c, uc_key c)"
| "applied_key (Reserved h) = (hc_request_id h, hc_key h)"
| "applied_key (Captured h) = (hc_request_id h, hc_key h)"
| "applied_key (Released h) = (hc_request_id h, hc_key h)"

definition hold_log :: "(hold_command \<Rightarrow> applied_op) \<Rightarrow> (fp_part list \<Rightarrow> string) \<Rightarrow> hold_command option \<Rightarrow>
    (billing_error + hold_result) \<times> billing_db \<Rightarrow> applied_op option \<times> billing_db" where
  "hold_log f sha cmd out =
     ((case (cmd, fst out) of (Some h, Inr r) \<Rightarrow> if hr_applied r then Some (f (normalize_hold sha h)) else None
        | _ \<Rightarrow> None), snd out)"

fun run_op :: "(fp_part list \<Rightarrow> string) \<Rightarrow> zones \<Rightarrow> billing_op \<Rightarrow> billing_db \<Rightarrow> applied_op option \<times> billing_db" where
  "run_op sha z (Charge cmd) db =
     (let out = apply_usage_billing sha z cmd db
      in ((case (cmd, fst out) of (Some c, Inr r) \<Rightarrow> if ar_applied r then Some (Charged (normalize_usage sha c)) else None
            | _ \<Rightarrow> None), snd out))"
| "run_op sha z (Reserve cmd) db = hold_log Reserved sha cmd (ReserveBatchImageBalance sha cmd db)"
| "run_op sha z (Capture cmd) db = hold_log Captured sha cmd (CaptureBatchImageBalance sha cmd db)"
| "run_op sha z (Release cmd) db = hold_log Released sha cmd (ReleaseBatchImageBalance sha cmd db)"
| "run_op sha z (ArchiveClaims cutoff victims) db = (None, archive_claims cutoff victims db)"
| "run_op sha z (Wait t) db = (None, db\<lparr>bd_now := t\<rparr>)"

fun run_ops :: "(fp_part list \<Rightarrow> string) \<Rightarrow> zones \<Rightarrow> (billing_op \<times> fault) list \<Rightarrow> billing_db \<Rightarrow> applied_op list \<times> billing_db" where
  "run_ops sha z [] db = ([], db)"
| "run_ops sha z ((op, f) # ops) db =
     (if f = Refused then run_ops sha z ops db
      else let (a, d) = run_op sha z op db; (as, d') = run_ops sha z ops d
           in ((case a of None \<Rightarrow> [] | Some x \<Rightarrow> [x]) @ as, d'))"

text \<open>The amounts of a hold, as the job table keeps them, may have more than eight decimals.\<close>

fun scaled_op :: "billing_op \<Rightarrow> bool" where
  "scaled_op (Reserve (Some h)) = scale8 (hc_hold h)"
| "scaled_op (Capture (Some h)) = (scale8 (hc_hold h) \<and> scale8 (hc_actual h))"
| "scaled_op (Release (Some h)) = scale8 (hc_hold h)"
| "scaled_op _ = True"

section \<open>What a transaction does\<close>

definition claimed :: "billing_db \<Rightarrow> claim_key \<Rightarrow> bool" where
  "claimed db k = batch_image_hold_claim_exists (fst k) (snd k) db"

definition hold_key :: "hold_command \<Rightarrow> claim_key" where
  "hold_key h = (batch_image_hold_request_id (hc_batch h), hc_key h)"

text \<open>A release of a batch that was never held is applied without an effect.\<close>

fun balance_delta :: "billing_db \<Rightarrow> applied_op \<Rightarrow> int \<Rightarrow> rat" where
  "balance_delta db (Charged c) = charge_delta c"
| "balance_delta db (Reserved h) = on_id (hc_user h) (- if_positive (hc_hold h))"
| "balance_delta db (Captured h) =
     (if hc_hold h \<le> 0 \<and> hc_actual h \<le> 0 then nothing else on_id (hc_user h) (hc_hold h - hc_actual h))"
| "balance_delta db (Released h) =
     (if claimed db (hold_key h) then on_id (hc_user h) (if_positive (hc_hold h)) else nothing)"

fun frozen_delta :: "billing_db \<Rightarrow> applied_op \<Rightarrow> int \<Rightarrow> rat" where
  "frozen_delta db (Charged c) = nothing"
| "frozen_delta db (Reserved h) = on_id (hc_user h) (if_positive (hc_hold h))"
| "frozen_delta db (Captured h) =
     (if hc_hold h \<le> 0 \<and> hc_actual h \<le> 0 then nothing else on_id (hc_user h) (- hc_hold h))"
| "frozen_delta db (Released h) =
     (if claimed db (hold_key h) then on_id (hc_user h) (- if_positive (hc_hold h)) else nothing)"

fun key_delta :: "applied_op \<Rightarrow> int \<Rightarrow> rat" where
  "key_delta (Charged c) = quota_delta c"
| "key_delta _ = nothing"

lemma effect_delta:
  "effect fb ff fk db db' \<Longrightarrow> fb = gb \<Longrightarrow> ff = gf \<Longrightarrow> fk = gk \<Longrightarrow> effect gb gf gk db db'"
  by simp

lemma claim_True:
  assumes "claim_usage_billing_request rid kid fp db = Inr (True, d)"
  shows "\<not> claimed db (rid, kid)" "claimed d k \<longleftrightarrow> k = (rid, kid) \<or> claimed db k"
    "scaled d = scaled db" "effect fb ff fk d d' \<longleftrightarrow>
      (effect fb ff fk (db\<lparr>bd_dedup := bd_dedup d\<rparr>) d')"
proof -
  from assms have n: "bd_dedup db (rid, kid) = None" "bd_archive db (rid, kid) = None"
    and d: "d = db\<lparr>bd_dedup := (bd_dedup db)((rid, kid) \<mapsto> (fp, bd_now db))\<rparr>"
    by (auto simp: claim_usage_billing_request_def Let_def split: option.splits if_splits)
  show "\<not> claimed db (rid, kid)" using n by (simp add: claimed_def batch_image_hold_claim_exists_def)
  show "claimed d k \<longleftrightarrow> k = (rid, kid) \<or> claimed db k"
    by (cases k) (auto simp: d claimed_def batch_image_hold_claim_exists_def)
  show "scaled d = scaled db" by (simp add: d scaled_def balance_of_def frozen_of_def quota_used_of_def)
  show "effect fb ff fk d d' \<longleftrightarrow> effect fb ff fk (db\<lparr>bd_dedup := bd_dedup d\<rparr>) d'" by (simp add: d)
qed

text \<open>One step of a run: nothing, or one applied transaction with its effect.\<close>

definition step_ok :: "applied_op option \<Rightarrow> billing_db \<Rightarrow> billing_db \<Rightarrow> bool" where
  "step_ok x db db' \<longleftrightarrow>
     (case x of
        None \<Rightarrow> \<forall>k. claimed db' k = claimed db k
      | Some a \<Rightarrow> \<not> claimed db (applied_key a) \<and> (\<forall>k. claimed db' k \<longleftrightarrow> k = applied_key a \<or> claimed db k)) \<and>
     (let b = (case x of None \<Rightarrow> nothing | Some a \<Rightarrow> balance_delta db a);
          f = (case x of None \<Rightarrow> nothing | Some a \<Rightarrow> frozen_delta db a);
          q = (case x of None \<Rightarrow> nothing | Some a \<Rightarrow> key_delta a)
      in scaled db' \<and> (\<forall>u. balance_of db' u = balance_of db u + b u) \<and> (\<forall>u. frozen_of db' u = frozen_of db u + f u) \<and>
         (\<forall>k. live_key db k \<noteq> None \<longrightarrow> quota_used_of db' k = quota_used_of db k + q k) \<and>
         (\<forall>u. (live_user db' u = None) = (live_user db u = None)) \<and>
         (\<forall>k. (live_key db' k = None) = (live_key db k = None)))"

lemma step_same: "scaled db \<Longrightarrow> step_ok None db db"
  by (simp add: step_ok_def nothing_def)

lemma step_claimed:
  assumes s: "scaled db" and c: "claim_usage_billing_request rid kid fp db = Inr (True, d)" and k: "applied_key a = (rid, kid)"
    and e: "effect (balance_delta db a) (frozen_delta db a) (key_delta a) d d'"
  shows "step_ok (Some a) db d'"
proof -
  have same: "balance_of d u = balance_of db u" "frozen_of d u = frozen_of db u" "quota_used_of d i = quota_used_of db i"
    "live_user d u = live_user db u" "live_key d i = live_key db i" for u i
    using c by (auto simp: claim_usage_billing_request_def Let_def balance_of_def frozen_of_def quota_used_of_def
        live_user_def live_key_def split: option.splits if_splits)
  have "claimed d' x = claimed d x" for x using e by (simp add: effect_def claimed_def batch_image_hold_claim_exists_def)
  with claim_True(1,2) [OF c] e k show ?thesis by (simp add: step_ok_def effect_def same)
qed

lemma transact_cases:
  assumes "transact (claimed_transaction rid kid fp skipped m) db = (out, db')"
  obtains (same) "db' = db" "\<forall>r. out = Inr r \<longrightarrow> r = skipped"
  | (applied) d r where "claim_usage_billing_request rid kid fp db = Inr (True, d)" "m d = Inr (r, db')" "out = Inr r"
  using assms by (auto simp: transact_def claimed_transaction_def split: sum.splits prod.splits bool.splits)

lemma claimed_archive [simp]: "claimed (archive_claims cutoff victims db) k = claimed db k"
  by (cases k) (auto simp: claimed_def batch_image_hold_claim_exists_def archive_claims_def Let_def split: option.splits)

lemma step_archive: "scaled db \<Longrightarrow> step_ok None db (archive_claims cutoff victims db)"
proof -
  assume s: "scaled db"
  let ?d = "archive_claims cutoff victims db"
  have same: "bd_users ?d = bd_users db" "bd_keys ?d = bd_keys db" by (simp_all add: archive_claims_def Let_def)
  have "balance_of ?d = balance_of db" "frozen_of ?d = frozen_of db" "quota_used_of ?d = quota_used_of db"
    "live_user ?d = live_user db" "live_key ?d = live_key db"
    by (auto simp: balance_of_def frozen_of_def quota_used_of_def live_user_def live_key_def same)
  with s show ?thesis by (simp add: step_ok_def nothing_def scaled_def)
qed

lemma step_wait: "scaled db \<Longrightarrow> step_ok None db (db\<lparr>bd_now := t\<rparr>)"
  by (simp add: step_ok_def nothing_def scaled_def claimed_def batch_image_hold_claim_exists_def balance_of_def
      frozen_of_def quota_used_of_def live_user_def live_key_def)

lemma scaled_normalized: "scaled_command (normalize_usage sha c)"
  by (simp add: scaled_command_def normalize_usage_def Let_def quantize_monetary_fields_def)

lemma charge_applied: "charge_request z c db = Inr (r, db') \<Longrightarrow> ar_applied r"
proof -
  assume r: "charge_request z c db = Inr (r, db')"
  have eff: "ar_applied r2" if "apply_usage_billing_effects z c r1 d = Inr (r2, d')" "ar_applied r1" for r1 r2 d d'
    using that
    by (auto simp: apply_usage_billing_effects_def and_then_def effect_subscription_def effect_balance_def
        effect_key_quota_def effect_rate_limit_def effect_account_def split: sum.splits option.splits if_splits prod.splits)
  have "ar_applied r2" if "apply_rental_settlement rs c r1 d = Inr (r2, d')" "ar_applied r1" for rs r1 r2 d d'
    using that by (auto simp: apply_rental_settlement_def and_then_def split: sum.splits option.splits prod.splits)
  with r eff show ?thesis
    by (auto simp: charge_request_def and_then_def split: sum.splits)
qed

lemma effect_set_funds:
  assumes "scaled d" "live_user d i = Some u" "set_funds i u b f d = Inr (r, d')"
    "scale8 b" "scale8 f"
  shows "effect (on_id i (b - bu_balance u)) (on_id i (f - bu_frozen u)) nothing d d'"
  using effect_user [OF assms(1,2), of "u\<lparr>bu_balance := b, bu_frozen := f\<rparr>"] assms(3-5)
  by (auto simp: set_funds_def)

lemma reserve_effect:
  assumes s: "scaled d" and h: "scale8 (hc_hold h)" and r: "reserve_batch_image_balance h d = Inr (r, d')"
  shows "effect (balance_delta db (Reserved h)) (frozen_delta db (Reserved h)) nothing d d'"
proof (cases "hc_hold h > 0")
  case True
  then obtain u where u: "live_user d (hc_user h) = Some u"
    and f: "set_funds (hc_user h) u (bu_balance u - hc_hold h) (bu_frozen u + hc_hold h) d = Inr (r, d')"
    using r by (auto simp: reserve_batch_image_balance_def split: option.splits if_splits)
  from effect_set_funds [OF s u f] live_scale8(1) [OF s u] h True show ?thesis by (simp add: if_positive_def)
next
  case False
  with r s show ?thesis by (auto simp: reserve_batch_image_balance_def if_positive_def effect_refl)
qed

lemma capture_effect:
  assumes s: "scaled d" and h: "scale8 (hc_hold h)" "scale8 (hc_actual h)"
    and r: "capture_batch_image_balance h d = Inr (r, d')"
  shows "effect (balance_delta db (Captured h)) (frozen_delta db (Captured h)) nothing d d'"
proof (cases "hc_hold h \<le> 0 \<and> hc_actual h \<le> 0")
  case False
  define b where "b u = bu_balance u + (if hc_hold h > hc_actual h then hc_hold h - hc_actual h else 0)
      - (if hc_actual h > hc_hold h then hc_actual h - hc_hold h else 0)" for u :: billing_user
  from False obtain u where u: "live_user d (hc_user h) = Some u"
    and f: "set_funds (hc_user h) u (b u) (bu_frozen u - hc_hold h) d = Inr (r, d')"
    using r by (auto simp: capture_batch_image_balance_def b_def split: option.splits if_splits)
  have b: "b u = bu_balance u + (hc_hold h - hc_actual h)" by (auto simp: b_def)
  from effect_set_funds [OF s u f] live_scale8(1) [OF s u] h have
    "effect (on_id (hc_user h) (hc_hold h - hc_actual h)) (on_id (hc_user h) (- hc_hold h)) nothing d d'" by (simp add: b)
  moreover from False have "balance_delta db (Captured h) = on_id (hc_user h) (hc_hold h - hc_actual h)"
    "frozen_delta db (Captured h) = on_id (hc_user h) (- hc_hold h)" by auto
  ultimately show ?thesis by simp
next
  case True
  with r s show ?thesis by (simp add: capture_batch_image_balance_def effect_refl)
qed

lemma release_effect:
  assumes s: "scaled d" and h: "scale8 (hc_hold h)" and r: "release_batch_image_balance h d = Inr (r, d')"
    and c: "claimed d (hold_key h) = claimed db (hold_key h)"
  shows "effect (balance_delta db (Released h)) (frozen_delta db (Released h)) nothing d d'"
proof (cases "hc_hold h > 0 \<and> claimed d (hold_key h)")
  case True
  then have held: "batch_image_hold_claim_exists (batch_image_hold_request_id (hc_batch h)) (hc_key h) d"
    by (simp add: claimed_def hold_key_def)
  with True obtain u where u: "live_user d (hc_user h) = Some u"
    and f: "set_funds (hc_user h) u (bu_balance u + hc_hold h) (bu_frozen u - hc_hold h) d = Inr (r, d')"
    using r by (auto simp: release_batch_image_balance_def split: option.splits if_splits)
  from effect_set_funds [OF s u f] live_scale8(1) [OF s u] h True c show ?thesis by (simp add: if_positive_def)
next
  case False
  with r s c show ?thesis
    by (auto simp: release_batch_image_balance_def claimed_def hold_key_def if_positive_def effect_refl split: if_splits)
qed

text \<open>A release is claimed under an id of its own, so its claim is not the claim of a hold.\<close>

definition own_id :: "billing_op \<Rightarrow> bool" where
  "own_id op \<longleftrightarrow> (case op of
     Release (Some h) \<Rightarrow> trim_space (hc_request_id h) = batch_image_release_request_id (hc_batch h)
   | _ \<Rightarrow> True)"

lemma release_id_neq: "batch_image_release_request_id b \<noteq> batch_image_hold_request_id b'"
  by (simp add: batch_image_release_request_id_def batch_image_hold_request_id_def)

definition hold_body :: "(hold_command \<Rightarrow> hold_result stmt) \<Rightarrow> hold_command \<Rightarrow> hold_result stmt" where
  "hold_body f h = and_then (f h) (\<lambda>r d. Inr (r\<lparr>hr_applied := True\<rparr>, d))"

lemma hold_step:
  assumes s: "scaled db" and x: "hold_log C sha cmd (apply_batch_image_balance_hold f sha cmd db) = (x, db')"
    and k: "\<And>h. applied_key (C h) = (hc_request_id h, hc_key h)" and q: "\<And>h. key_delta (C h) = nothing"
    and e: "\<And>h c d r d'. cmd = Some c \<Longrightarrow> h = normalize_hold sha c \<Longrightarrow> scaled d \<Longrightarrow>
      (\<And>j. j \<noteq> (hc_request_id h, hc_key h) \<Longrightarrow> claimed d j = claimed db j) \<Longrightarrow> f h d = Inr (r, d') \<Longrightarrow>
      effect (balance_delta db (C h)) (frozen_delta db (C h)) nothing d d'"
  shows "step_ok x db db'"
proof (cases cmd)
  case None
  with x s show ?thesis by (auto simp: hold_log_def apply_batch_image_balance_hold_def step_same)
next
  case (Some c)
  define h where "h = normalize_hold sha c"
  obtain out d' where o: "apply_batch_image_balance_hold f sha cmd db = (out, d')" by (cases "apply_batch_image_balance_hold f sha cmd db")
  with x Some have x': "db' = d'" "x = (case out of Inr r \<Rightarrow> if hr_applied r then Some (C h) else None | Inl _ \<Rightarrow> None)"
    by (auto simp: hold_log_def h_def split: sum.splits)
  show ?thesis
  proof (cases "hc_request_id h = []")
    case True
    with o Some have "out = Inl RequestIDRequired" "d' = db" by (simp_all add: apply_batch_image_balance_hold_def Let_def h_def)
    with x' s show ?thesis by (simp add: step_same)
  next
    case False
    with o Some have t: "transact (claimed_transaction (hc_request_id h) (hc_key h) (hc_fingerprint h) no_hold_result (hold_body f h)) db = (out, d')"
      by (simp add: apply_batch_image_balance_hold_def Let_def h_def hold_body_def)
    from t show ?thesis
    proof (cases rule: transact_cases)
      case same
      then have "x = None" using x'(2) by (auto simp: no_hold_result_def split: sum.splits)
      with same x' s show ?thesis by (simp add: step_same)
    next
      case (applied d r)
      then obtain r0 where r: "r = r0\<lparr>hr_applied := True\<rparr>" "f h d = Inr (r0, d')"
        by (auto simp: hold_body_def and_then_def split: sum.splits)
      from claim_True [OF applied(1)] s have d: "scaled d" "\<And>j. j \<noteq> (hc_request_id h, hc_key h) \<Longrightarrow> claimed d j = claimed db j"
        by simp_all
      have "step_ok (Some (C h)) db d'"
        by (rule step_claimed [OF s applied(1) k]) (simp add: q e [OF Some h_def d r(2)])
      with applied r x' show ?thesis by simp
    qed
  qed
qed

lemma normalize_hold_fields [simp]:
  "hc_hold (normalize_hold sha c) = hc_hold c" "hc_actual (normalize_hold sha c) = hc_actual c"
  "hc_user (normalize_hold sha c) = hc_user c" "hc_key (normalize_hold sha c) = hc_key c"
  "hc_request_id (normalize_hold sha c) = trim_space (hc_request_id c)" "hc_batch (normalize_hold sha c) = trim_space (hc_batch c)"
  by (simp_all add: normalize_hold_def Let_def)

lemma charge_step:
  assumes s: "scaled db" and x: "run_op sha z (Charge cmd) db = (x, db')"
  shows "step_ok x db db'"
proof (cases cmd)
  case None
  with x s show ?thesis by (auto simp: apply_usage_billing_def step_same)
next
  case (Some c0)
  define c where "c = normalize_usage sha c0"
  obtain out d' where o: "apply_usage_billing sha z cmd db = (out, d')" by (cases "apply_usage_billing sha z cmd db")
  with x Some have x': "db' = d'" "x = (case out of Inr r \<Rightarrow> if ar_applied r then Some (Charged c) else None | Inl _ \<Rightarrow> None)"
    by (auto simp: c_def Let_def split: sum.splits)
  show ?thesis
  proof (cases "uc_request_id c = []")
    case True
    with o Some have "out = Inl RequestIDRequired" "d' = db" by (simp_all add: apply_usage_billing_def Let_def c_def)
    with x' s show ?thesis by (simp add: step_same)
  next
    case False
    with o Some have t: "transact (claimed_transaction (uc_request_id c) (uc_key c) (uc_fingerprint c) no_apply_result (charge_request z c)) db = (out, d')"
      by (simp add: apply_usage_billing_def Let_def c_def)
    from t show ?thesis
    proof (cases rule: transact_cases)
      case same
      then have "x = None" using x'(2) by (auto simp: no_apply_result_def split: sum.splits)
      with same x' s show ?thesis by (simp add: step_same)
    next
      case (applied d r)
      from claim_True(3) [OF applied(1)] s have "scaled d" by simp
      moreover have "scaled_command c" by (simp add: c_def scaled_normalized)
      ultimately have "effect (balance_delta db (Charged c)) (frozen_delta db (Charged c)) (key_delta (Charged c)) d d'"
        using movesD [OF moves_charge _ applied(2)] by simp
      from step_claimed [OF s applied(1) _ this] have "step_ok (Some (Charged c)) db d'" by simp
      with applied charge_applied [OF applied(2)] x' show ?thesis by simp
    qed
  qed
qed

lemma run_op_step:
  assumes s: "scaled db" and ops: "scaled_op op" "own_id op" and x: "run_op sha z op db = (x, db')"
  shows "step_ok x db db'"
proof (cases op)
  case (Charge cmd)
  with charge_step [OF s] x show ?thesis by simp
next
  case (Reserve cmd)
  with ops x show ?thesis
    by (intro hold_step [OF s, of Reserved sha cmd reserve_batch_image_balance])
      (auto simp: ReserveBatchImageBalance_def simp del: balance_delta.simps frozen_delta.simps intro!: reserve_effect)
next
  case (Capture cmd)
  with ops x show ?thesis
    by (intro hold_step [OF s, of Captured sha cmd capture_batch_image_balance])
      (auto simp: CaptureBatchImageBalance_def simp del: balance_delta.simps frozen_delta.simps intro!: capture_effect)
next
  case (Release cmd)
  with ops x show ?thesis
    by (intro hold_step [OF s, of Released sha cmd release_batch_image_balance])
      (auto simp: ReleaseBatchImageBalance_def own_id_def hold_key_def release_id_neq [symmetric]
        simp del: balance_delta.simps frozen_delta.simps intro!: release_effect)
next
  case (ArchiveClaims cutoff victims)
  with x s show ?thesis by (auto simp: step_archive)
next
  case (Wait t)
  with x s show ?thesis by (auto simp: step_wait)
qed

section \<open>Funds and quotas are what the log says\<close>

definition funds_of :: "billing_db \<Rightarrow> int \<Rightarrow> rat" where
  "funds_of db u = balance_of db u + frozen_of db u"

text \<open>Holding and releasing only move funds; charging and capturing take them.\<close>

fun funds_delta :: "applied_op \<Rightarrow> int \<Rightarrow> rat" where
  "funds_delta (Charged c) = charge_delta c"
| "funds_delta (Captured h) = (if hc_hold h \<le> 0 \<and> hc_actual h \<le> 0 then nothing else on_id (hc_user h) (- hc_actual h))"
| "funds_delta _ = nothing"

lemma funds_delta: "balance_delta db a u + frozen_delta db a u = funds_delta a u"
  by (cases a) (auto simp: nothing_def on_id_def)

lemma step_fields:
  assumes "step_ok x db db'"
  shows "scaled db'" "funds_of db' u = funds_of db u + (case x of None \<Rightarrow> 0 | Some a \<Rightarrow> funds_delta a u)"
    "live_key db k \<noteq> None \<Longrightarrow> quota_used_of db' k = quota_used_of db k + (case x of None \<Rightarrow> 0 | Some a \<Rightarrow> key_delta a k)"
    "frozen_of db' u = frozen_of db u + (case x of None \<Rightarrow> 0 | Some a \<Rightarrow> frozen_delta db a u)"
    "balance_of db' u = balance_of db u + (case x of None \<Rightarrow> 0 | Some a \<Rightarrow> balance_delta db a u)"
    "(live_key db' k = None) = (live_key db k = None)" "(live_user db' u = None) = (live_user db u = None)"
    "claimed db' i \<longleftrightarrow> claimed db i \<or> (\<exists>a. x = Some a \<and> i = applied_key a)"
    "x = Some a \<Longrightarrow> \<not> claimed db (applied_key a)"
  using assms
  by (cases x; auto simp: step_ok_def Let_def funds_of_def funds_delta [of db, symmetric] nothing_def
      simp del: split_paired_All)+

definition plain_run :: "(billing_op \<times> fault) list \<Rightarrow> bool" where
  "plain_run ops \<longleftrightarrow> (\<forall>(op, f) \<in> set ops. scaled_op op \<and> own_id op)"

lemma run_log:
  assumes "run_ops sha z ops db = (acts, db')" "scaled db" "plain_run ops"
  shows "distinct (map applied_key acts) \<and> (\<forall>a \<in> set acts. \<not> claimed db (applied_key a)) \<and>
    (\<forall>i. claimed db' i \<longleftrightarrow> claimed db i \<or> i \<in> applied_key ` set acts) \<and>
    funds_of db' u = funds_of db u + (\<Sum>a \<leftarrow> acts. funds_delta a u) \<and>
    (live_key db k \<noteq> None \<longrightarrow> quota_used_of db' k = quota_used_of db k + (\<Sum>a \<leftarrow> acts. key_delta a k))"
  using assms
proof (induction ops arbitrary: db acts)
  case Nil
  then show ?case by auto
next
  case (Cons p ops)
  obtain op f where p: "p = (op, f)" by (cases p)
  from Cons.prems(3) have plain: "plain_run ops" and op: "scaled_op op" "own_id op" by (auto simp: p plain_run_def)
  show ?case
  proof (cases "f = Refused")
    case True
    with Cons.IH [OF _ Cons.prems(2) plain] Cons.prems(1) show ?thesis by (simp add: p)
  next
    case False
    obtain x d where x: "run_op sha z op db = (x, d)" by (cases "run_op sha z op db")
    obtain as d' where r: "run_ops sha z ops d = (as, d')" by (cases "run_ops sha z ops d")
    from Cons.prems(1) False x r have d': "d' = db'" and acts: "acts = (case x of None \<Rightarrow> [] | Some a \<Rightarrow> [a]) @ as"
      by (auto simp: p)
    note step = step_fields [OF run_op_step [OF Cons.prems(2) op x]]
    note ih = Cons.IH [OF r [unfolded d'] step(1) plain]
    show ?thesis
    proof (cases x)
      case None
      with ih step(2,3,6,8) acts show ?thesis by simp
    next
      case (Some a)
      with ih step(2,3,6) step(8) [of "applied_key a"] step(9) acts show ?thesis by (auto simp: step(8))
    qed
  qed
qed


section \<open>Frozen money is the money of the open holds\<close>

record batch_terms =
  bt_user :: int
  bt_key :: int
  bt_hold :: rat

definition held :: "(string \<Rightarrow> batch_terms) \<Rightarrow> billing_db \<Rightarrow> string \<Rightarrow> bool" where
  "held T db b = claimed db (batch_image_hold_request_id b, bt_key (T b))"

definition captured :: "(string \<Rightarrow> batch_terms) \<Rightarrow> billing_db \<Rightarrow> string \<Rightarrow> bool" where
  "captured T db b = claimed db (batch_image_capture_request_id b, bt_key (T b))"

definition released :: "(string \<Rightarrow> batch_terms) \<Rightarrow> billing_db \<Rightarrow> string \<Rightarrow> bool" where
  "released T db b = claimed db (batch_image_release_request_id b, bt_key (T b))"

definition open_hold :: "(string \<Rightarrow> batch_terms) \<Rightarrow> billing_db \<Rightarrow> string \<Rightarrow> bool" where
  "open_hold T db b \<longleftrightarrow> held T db b \<and> \<not> captured T db b \<and> \<not> released T db b"

text \<open>The commands of the job service: every hold operation of a batch carries the terms of its job.\<close>

definition of_batch :: "string set \<Rightarrow> (string \<Rightarrow> batch_terms) \<Rightarrow> (string \<Rightarrow> string) \<Rightarrow> hold_command \<Rightarrow> bool" where
  "of_batch B T rid h \<longleftrightarrow>
     (let b = trim_space (hc_batch h)
      in b \<in> B \<and> trim_space (hc_request_id h) = rid (hc_batch h) \<and> hc_user h = bt_user (T b) \<and>
         hc_key h = bt_key (T b) \<and> hc_hold h = bt_hold (T b) \<and> scale8 (hc_actual h))"

fun batch_op :: "string set \<Rightarrow> (string \<Rightarrow> batch_terms) \<Rightarrow> billing_op \<Rightarrow> bool" where
  "batch_op B T (Charge (Some c)) =
     (\<forall>b \<in> B. trim_space (uc_request_id c) \<notin>
        {batch_image_hold_request_id b, batch_image_capture_request_id b, batch_image_release_request_id b})"
| "batch_op B T (Reserve (Some h)) = of_batch B T batch_image_hold_request_id h"
| "batch_op B T (Capture (Some h)) = of_batch B T batch_image_capture_request_id h"
| "batch_op B T (Release (Some h)) = of_batch B T batch_image_release_request_id h"
| "batch_op B T _ = True"

text \<open>
  The order that the life of a job is meant to give: a hold is captured or released only after
  it was taken, and never both.
\<close>

fun in_order :: "(string \<Rightarrow> batch_terms) \<Rightarrow> billing_op \<Rightarrow> billing_db \<Rightarrow> bool" where
  "in_order T (Capture (Some h)) db = (held T db (trim_space (hc_batch h)) \<and> \<not> released T db (trim_space (hc_batch h)))"
| "in_order T (Release (Some h)) db = (held T db (trim_space (hc_batch h)) \<and> \<not> captured T db (trim_space (hc_batch h)))"
| "in_order T _ db = True"

fun orderly :: "(fp_part list \<Rightarrow> string) \<Rightarrow> zones \<Rightarrow> (string \<Rightarrow> batch_terms) \<Rightarrow> (billing_op \<times> fault) list \<Rightarrow> billing_db \<Rightarrow> bool" where
  "orderly sha z T [] db = True"
| "orderly sha z T ((op, f) # ops) db =
     (if f = Refused then orderly sha z T ops db
      else in_order T op db \<and> orderly sha z T ops (snd (run_op sha z op db)))"

definition good_batches :: "string set \<Rightarrow> (string \<Rightarrow> batch_terms) \<Rightarrow> bool" where
  "good_batches B T \<longleftrightarrow> finite B \<and> (\<forall>b \<in> B. trim_space b = b \<and> bt_hold (T b) > 0 \<and> scale8 (bt_hold (T b)))"

definition open_total :: "string set \<Rightarrow> (string \<Rightarrow> batch_terms) \<Rightarrow> billing_db \<Rightarrow> int \<Rightarrow> rat" where
  "open_total B T db u = (\<Sum>b \<in> B. if open_hold T db b \<and> bt_user (T b) = u then bt_hold (T b) else 0)"

definition holds_ok :: "string set \<Rightarrow> (string \<Rightarrow> batch_terms) \<Rightarrow> billing_db \<Rightarrow> bool" where
  "holds_ok B T db \<longleftrightarrow> scaled db \<and> (\<forall>u. frozen_of db u = open_total B T db u) \<and>
     (\<forall>b \<in> B. captured T db b \<or> released T db b \<longrightarrow> held T db b)"

lemma batch_op_plain: "batch_op B T op \<Longrightarrow> good_batches B T \<Longrightarrow> scaled_op op \<and> own_id op"
  by (cases "(B, T, op)" rule: batch_op.cases) (auto simp: of_batch_def Let_def good_batches_def own_id_def)

lemma hold_logD:
  "hold_log C sha cmd out = (Some a, db') \<Longrightarrow> \<exists>h. cmd = Some h \<and> a = C (normalize_hold sha h)"
  by (auto simp: hold_log_def split: option.splits sum.splits if_splits)

lemma run_op_applied:
  assumes "run_op sha z op db = (Some a, db')"
  obtains c where "op = Charge (Some c)" "a = Charged (normalize_usage sha c)"
  | h where "op = Reserve (Some h)" "a = Reserved (normalize_hold sha h)"
  | h where "op = Capture (Some h)" "a = Captured (normalize_hold sha h)"
  | h where "op = Release (Some h)" "a = Released (normalize_hold sha h)"
proof (cases op)
  case (Charge cmd)
  with assms obtain c where "cmd = Some c" "a = Charged (normalize_usage sha c)"
    by (auto simp: Let_def split: option.splits sum.splits if_splits)
  with Charge that(1) show thesis by blast
qed (use assms that in \<open>auto dest!: hold_logD\<close>)

lemma open_total_change:
  assumes B: "finite B" "b0 \<in> B" and same: "\<And>b. b \<in> B \<Longrightarrow> b \<noteq> b0 \<Longrightarrow> open_hold T db' b = open_hold T db b"
  shows "open_total B T db' u = open_total B T db u +
    (if bt_user (T b0) = u then (if open_hold T db' b0 then bt_hold (T b0) else 0) - (if open_hold T db b0 then bt_hold (T b0) else 0) else 0)"
proof -
  have "(\<Sum>b \<in> B - {b0}. if open_hold T db' b \<and> bt_user (T b) = u then bt_hold (T b) else 0) =
    (\<Sum>b \<in> B - {b0}. if open_hold T db b \<and> bt_user (T b) = u then bt_hold (T b) else 0)"
    by (rule sum.cong) (simp_all add: same)
  then show ?thesis unfolding open_total_def sum.remove [OF B] by simp
qed

lemma open_total_same:
  "(\<And>b. b \<in> B \<Longrightarrow> open_hold T db' b = open_hold T db b) \<Longrightarrow> open_total B T db' u = open_total B T db u"
  unfolding open_total_def by (rule sum.cong) simp_all

lemma batch_ids [simp]:
  "batch_image_hold_request_id b \<noteq> batch_image_capture_request_id b'" "batch_image_capture_request_id b \<noteq> batch_image_hold_request_id b'"
  "batch_image_hold_request_id b \<noteq> batch_image_release_request_id b'" "batch_image_release_request_id b \<noteq> batch_image_hold_request_id b'"
  "batch_image_capture_request_id b \<noteq> batch_image_release_request_id b'" "batch_image_release_request_id b \<noteq> batch_image_capture_request_id b'"
  "batch_image_hold_request_id b = batch_image_hold_request_id b' \<longleftrightarrow> trim_space b = trim_space b'"
  "batch_image_capture_request_id b = batch_image_capture_request_id b' \<longleftrightarrow> trim_space b = trim_space b'"
  "batch_image_release_request_id b = batch_image_release_request_id b' \<longleftrightarrow> trim_space b = trim_space b'"
  by (simp_all add: batch_image_hold_request_id_def batch_image_capture_request_id_def batch_image_release_request_id_def)

lemma holds_step:
  assumes ok: "holds_ok B T db" and good: "good_batches B T" and op: "batch_op B T op" "in_order T op db"
    and r: "run_op sha z op db = (x, db')"
  shows "holds_ok B T db'"
proof -
  from ok have s: "scaled db" by (simp add: holds_ok_def)
  from batch_op_plain [OF op(1) good] have "scaled_op op" "own_id op" by simp_all
  note step = step_fields [OF run_op_step [OF s this r]]
  from good have fin: "finite B" and trims: "\<And>b. b \<in> B \<Longrightarrow> trim_space b = b" "\<And>b. b \<in> B \<Longrightarrow> bt_hold (T b) > 0"
    by (auto simp: good_batches_def)
  from ok have before: "\<And>u. frozen_of db u = open_total B T db u" "\<And>b. b \<in> B \<Longrightarrow> captured T db b \<or> released T db b \<longrightarrow> held T db b"
    by (auto simp: holds_ok_def)
  note sts = held_def captured_def released_def open_hold_def
  show ?thesis
  proof (cases x)
    case None
    have "held T db' = held T db" "captured T db' = captured T db" "released T db' = released T db"
      by (simp_all add: fun_eq_iff held_def captured_def released_def step(8) None)
    moreover from this have "open_total B T db' u = open_total B T db u" for u 
      by (intro open_total_same) (simp add: open_hold_def)
    ultimately show ?thesis using None step(1,4) ok by (simp add: holds_ok_def)
  next
    case (Some a)
    with r have "run_op sha z op db = (Some a, db')" by simp
    then show ?thesis
    proof (cases rule: run_op_applied)
      case (1 c)
      with op(1) have c: "trim_space (uc_request_id c) \<notin>
        {batch_image_hold_request_id b, batch_image_capture_request_id b, batch_image_release_request_id b}" if "b \<in> B" for b
        using that by auto
      have k: "applied_key a = (trim_space (uc_request_id c), uc_key c)"
        by (simp add: 1 normalize_usage_def Let_def quantize_monetary_fields_def)
      have "held T db' b = held T db b \<and> captured T db' b = captured T db b \<and> released T db' b = released T db b" if "b \<in> B" for b
        using c [OF that] k by (auto simp: sts step(8) Some)
      moreover from this have "open_total B T db' u = open_total B T db u" for u
        by (intro open_total_same) (simp add: open_hold_def)
      ultimately show ?thesis using step(1,4) before by (simp add: holds_ok_def Some 1 nothing_def)
    next
      case (2 h)
      define b0 where "b0 = trim_space (hc_batch h)"
      from op(1) have b0: "b0 \<in> B" and h: "hc_user h = bt_user (T b0)" "hc_hold h = bt_hold (T b0)"
        and k: "applied_key a = (batch_image_hold_request_id b0, bt_key (T b0))"
        by (auto simp: 2 of_batch_def Let_def b0_def batch_image_hold_request_id_def good_batches_def trims)
      have st: "held T db' b \<longleftrightarrow> held T db b \<or> b = b0" "captured T db' b = captured T db b" "released T db' b = released T db b" if "b \<in> B" for b
        using that trims b0 by (auto simp: sts step(8) Some k)
      have new: "\<not> held T db b0" using step(9) [OF Some] by (simp add: k held_def)
      have "open_total B T db' u = open_total B T db u + on_id (bt_user (T b0)) (bt_hold (T b0)) u" for u
        using open_total_change [OF fin b0, of T db' db u] st before(2) [OF b0] new b0
        by (auto simp: open_hold_def on_id_def)
      then show ?thesis using step(1,4) before st trims [OF b0] h by (auto simp: holds_ok_def Some 2 if_positive_def)
    next
      case (3 h)
      define b0 where "b0 = trim_space (hc_batch h)"
      from op(1) have b0: "b0 \<in> B" and h: "hc_user h = bt_user (T b0)" "hc_hold h = bt_hold (T b0)"
        and k: "applied_key a = (batch_image_capture_request_id b0, bt_key (T b0))"
        by (auto simp: 3 of_batch_def Let_def b0_def batch_image_capture_request_id_def good_batches_def trims)
      have st: "held T db' b = held T db b" "captured T db' b \<longleftrightarrow> captured T db b \<or> b = b0" "released T db' b = released T db b" if "b \<in> B" for b
        using that trims b0 by (auto simp: sts step(8) Some k)
      have new: "\<not> captured T db b0" "held T db b0" "\<not> released T db b0"
        using step(9) [OF Some, unfolded k] op(2) by (simp_all add: captured_def 3 b0_def)
      have "open_total B T db' u = open_total B T db u + on_id (bt_user (T b0)) (- bt_hold (T b0)) u" for u
        using open_total_change [OF fin b0, of T db' db u] st new b0 by (auto simp: open_hold_def on_id_def)
      then show ?thesis using step(1,4) before st trims [OF b0] h new by (auto simp: holds_ok_def Some 3)
    next
      case (4 h)
      define b0 where "b0 = trim_space (hc_batch h)"
      from op(1) have b0: "b0 \<in> B" and h: "hc_user h = bt_user (T b0)" "hc_hold h = bt_hold (T b0)" "hc_key h = bt_key (T b0)"
        and k: "applied_key a = (batch_image_release_request_id b0, bt_key (T b0))"
        by (auto simp: 4 of_batch_def Let_def b0_def batch_image_release_request_id_def good_batches_def trims)
      have st: "held T db' b = held T db b" "captured T db' b = captured T db b" "released T db' b \<longleftrightarrow> released T db b \<or> b = b0" if "b \<in> B" for b
        using that trims b0 by (auto simp: sts step(8) Some k)
      have new: "\<not> captured T db b0" "held T db b0" "\<not> released T db b0"
        using step(9) [OF Some, unfolded k] op(2) by (simp_all add: released_def 4 b0_def)
      then have hk: "claimed db (hold_key (normalize_hold sha h))"
        by (simp add: held_def hold_key_def h flip: b0_def)
      have "open_total B T db' u = open_total B T db u + on_id (bt_user (T b0)) (- bt_hold (T b0)) u" for u
        using open_total_change [OF fin b0, of T db' db u] st new b0 by (auto simp: open_hold_def on_id_def)
      then show ?thesis using step(1,4) before st trims [OF b0] h new hk by (auto simp: holds_ok_def Some 4 if_positive_def)
    qed
  qed
qed

lemma holds_run:
  assumes "run_ops sha z ops db = (acts, db')" "holds_ok B T db" "good_batches B T"
    "\<forall>(op, f) \<in> set ops. batch_op B T op" "orderly sha z T ops db"
  shows "holds_ok B T db'"
  using assms
proof (induction ops arbitrary: db acts)
  case (Cons p ops)
  obtain op f where p: "p = (op, f)" by (cases p)
  show ?case
  proof (cases "f = Refused")
    case True
    with Cons show ?thesis by (auto simp: p)
  next
    case False
    obtain x d where x: "run_op sha z op db = (x, d)" by (cases "run_op sha z op db")
    obtain as d' where r: "run_ops sha z ops d = (as, d')" by (cases "run_ops sha z ops d")
    from Cons.prems False x r have d: "d' = db'" "orderly sha z T ops d" and op: "batch_op B T op" "in_order T op db"
      by (auto simp: p)
    from Cons.IH [OF r [unfolded d(1)] holds_step [OF Cons.prems(2,3) op x] Cons.prems(3) _ d(2)] Cons.prems(4)
    show ?thesis by (simp add: p)
  qed
qed auto

text \<open>Before the first job: nothing is claimed and nothing is frozen.\<close>

definition fresh_batches :: "string set \<Rightarrow> (string \<Rightarrow> batch_terms) \<Rightarrow> billing_db \<Rightarrow> bool" where
  "fresh_batches B T db \<longleftrightarrow> scaled db \<and> (\<forall>u. frozen_of db u = 0) \<and>
     (\<forall>b \<in> B. \<not> held T db b \<and> \<not> captured T db b \<and> \<not> released T db b)"

lemma fresh_holds: "fresh_batches B T db \<Longrightarrow> holds_ok B T db"
  by (simp add: fresh_batches_def holds_ok_def open_total_def open_hold_def)


lemma open_total_ge:
  assumes "good_batches B T" "b \<in> B" "open_hold T db b"
  shows "bt_hold (T b) \<le> open_total B T db (bt_user (T b))"
proof -
  let ?f = "\<lambda>x. if open_hold T db x \<and> bt_user (T x) = bt_user (T b) then bt_hold (T x) else 0"
  have "?f b \<le> sum ?f B" using assms by (intro member_le_sum) (auto simp: good_batches_def intro: less_imp_le)
  with assms show ?thesis by (simp add: open_total_def)
qed

lemma release_open:
  assumes ok: "holds_ok B T db" and good: "good_batches B T" and h: "of_batch B T batch_image_release_request_id h"
    and o: "open_hold T db (trim_space (hc_batch h))" and u: "live_user db (hc_user h) \<noteq> None"
    and out: "ReleaseBatchImageBalance sha (Some h) db = (out, db')"
  shows "\<exists>r. out = Inr r \<and> hr_applied r" "balance_of db' (hc_user h) = balance_of db (hc_user h) + hc_hold h"
    "frozen_of db' (hc_user h) = frozen_of db (hc_user h) - hc_hold h"
proof -
  define b where "b = trim_space (hc_batch h)"
  define n where "n = normalize_hold sha h"
  from h good have b: "b \<in> B" "trim_space b = b" and f: "hc_user h = bt_user (T b)" "hc_key h = bt_key (T b)" "hc_hold h = bt_hold (T b)"
    "trim_space (hc_request_id h) = batch_image_release_request_id b"
    by (auto simp: of_batch_def Let_def b_def good_batches_def batch_image_release_request_id_def)
  from good b have pos: "hc_hold h > 0" "scale8 (hc_hold h)" by (auto simp: f good_batches_def)
  from o have st: "held T db b" "\<not> released T db b" by (auto simp: open_hold_def b_def)
  have rid: "hc_request_id n \<noteq> []" "hc_request_id n = batch_image_release_request_id b" "hc_batch n = b"
    "hc_user n = hc_user h" "hc_key n = bt_key (T b)" "hc_hold n = hc_hold h"
    by (simp_all add: n_def f batch_image_release_request_id_def b_def)
  from u obtain x where x: "live_user db (hc_user h) = Some x" by auto
  have "bd_dedup db (hc_request_id n, hc_key n) = None" "bd_archive db (hc_request_id n, hc_key n) = None"
    using st(2) by (simp_all add: rid released_def claimed_def batch_image_hold_claim_exists_def del: not_None_eq)
  then obtain d where c: "claim_usage_billing_request (hc_request_id n) (hc_key n) (hc_fingerprint n) db = Inr (True, d)"
    by (simp add: claim_usage_billing_request_def Let_def)
  then have same: "live_user d = live_user db" by (auto simp: claim_usage_billing_request_def Let_def live_user_def split: option.splits if_splits)
  have "bd_users db (hc_user h) = Some x" using x by (auto simp: live_user_def split: option.splits if_splits)
  then have fx: "bu_frozen x = frozen_of db (hc_user h)" by (simp add: frozen_of_def)
  also have "\<dots> \<ge> hc_hold h"
    using ok open_total_ge [OF good b(1)] o f by (simp add: holds_ok_def flip: b_def)
  finally have enough: "bu_frozen x \<ge> hc_hold h" .
  have held: "batch_image_hold_claim_exists (batch_image_hold_request_id b) (hc_key n) d"
    using st(1) claim_True(2) [OF c, of "(batch_image_hold_request_id b, bt_key (T b))"]
    by (simp add: held_def claimed_def rid)
  have x': "live_user d (hc_user h) = Some x" by (simp add: same x)
  obtain r d' where rel: "release_batch_image_balance n d = Inr (r, d')"
    using pos enough held x' by (simp add: release_batch_image_balance_def rid set_funds_def)
  have "transact (claimed_transaction (hc_request_id n) (hc_key n) (hc_fingerprint n) no_hold_result
      (hold_body release_batch_image_balance n)) db = (Inr (r\<lparr>hr_applied := True\<rparr>), d')"
    by (simp add: transact_def claimed_transaction_def c hold_body_def and_then_def rel)
  with out rid(1) have o': "out = Inr (r\<lparr>hr_applied := True\<rparr>)" "db' = d'"
    by (simp_all add: ReleaseBatchImageBalance_def apply_batch_image_balance_hold_def Let_def hold_body_def flip: n_def)
  then show "\<exists>r. out = Inr r \<and> hr_applied r" by simp
  have "run_op sha z (Release (Some h)) db = (Some (Released n), db')" for z
    by (simp add: hold_log_def out o' n_def)
  then have "step_ok (Some (Released n)) db db'"
    using ok pos h by (intro run_op_step [of _ "Release (Some h)"]) (auto simp: holds_ok_def own_id_def of_batch_def Let_def)
  note step = step_fields(4,5) [OF this, of "hc_user h"]
  have "claimed db (hold_key n)" using st(1) by (simp add: hold_key_def held_def rid)
  with step pos show "balance_of db' (hc_user h) = balance_of db (hc_user h) + hc_hold h"
    "frozen_of db' (hc_user h) = frozen_of db (hc_user h) - hc_hold h"
    by (simp_all add: rid on_id_def if_positive_def)
qed


section \<open>Concrete runs\<close>

definition demo_sha :: "fp_part list \<Rightarrow> string" where "demo_sha _ = ''fp''"

definition demo_zones :: zones where
  "demo_zones = \<lparr>zn_day_start = (\<lambda>t. t - t mod Day), zn_local = (\<lambda>_ t. t), zn_instant = (\<lambda>_ t. t)\<rparr>"

definition demo_bill_db :: billing_db where
  "demo_bill_db = \<lparr>
     bd_users = [1 \<mapsto> \<lparr>bu_balance = 10, bu_frozen = 0, bu_deleted = False\<rparr>],
     bd_keys = [7 \<mapsto> \<lparr>bk_quota = 5, bk_quota_used = 0, bk_status = ''active'', bk_usage_5h = 0, bk_usage_1d = 0,
       bk_usage_7d = 0, bk_window_5h = None, bk_window_1d = None, bk_window_7d = None, bk_deleted = False\<rparr>],
     bd_subs = Map.empty, bd_groups = (\<lambda>_. True), bd_accounts = Map.empty, bd_dedup = Map.empty,
     bd_archive = Map.empty, bd_ledger = [], bd_outbox = [], bd_now = 0\<rparr>"

definition demo_charge :: usage_command where
  "demo_charge = \<lparr>uc_rental = None, uc_request_id = ''r1'', uc_key = 7, uc_fingerprint = ''fp'', uc_payload_hash = [],
     uc_user = 1, uc_account = 3, uc_subscription = None, uc_account_type = ''oauth'', uc_model = ''m'', uc_tier = [],
     uc_effort = [], uc_billing_type = 0, uc_input = 10, uc_output = 5, uc_cache_creation = 0, uc_cache_read = 0,
     uc_images = 0, uc_media = [], uc_balance_cost = 2, uc_subscription_cost = 0, uc_key_quota_cost = 2,
     uc_rate_limit_cost = 0, uc_account_cost = 0\<rparr>"

definition demo_hold :: "string \<Rightarrow> hold_command" where
  "demo_hold rid = \<lparr>hc_request_id = rid, hc_key = 7, hc_fingerprint = ''fp'', hc_payload_hash = [], hc_user = 1,
     hc_batch = ''b1'', hc_hold = 3, hc_actual = 0\<rparr>"

definition demo_ops :: "(billing_op \<times> fault) list" where
  "demo_ops = [(Charge (Some demo_charge), AckLost), (Charge (Some demo_charge), Fine),
     (Reserve (Some (demo_hold ''batch_image_hold:b1'')), Fine)]"

definition demo_terms :: "string \<Rightarrow> batch_terms" where
  "demo_terms _ = \<lparr>bt_user = 1, bt_key = 7, bt_hold = 3\<rparr>"

lemma demo_bill_trims [simp]:
  "trim_space ''r1'' = ''r1''" "trim_space ''fp'' = ''fp''" "trim_space ''b1'' = ''b1''" "trim_space [] = []"
  "trim_space ''batch_image_hold:b1'' = ''batch_image_hold:b1''" "trim_space ''batch_image_release:b1'' = ''batch_image_release:b1''"
  by code_simp+

lemma scale8_int [simp]: "scale8 (of_int k)" "scale8 (numeral n)" "scale8 1"
  unfolding scale8_def
  by (rule exI [of _ "k * 10 ^ 8"], simp) (rule exI [of _ "numeral n * 10 ^ 8"], simp, rule exI [of _ "10 ^ 8"], simp)

lemma demo_bill_fresh: "fresh_batches {''b1''} demo_terms demo_bill_db" "scaled demo_bill_db"
  by (auto simp: fresh_batches_def scaled_def demo_bill_db_def balance_of_def frozen_of_def quota_used_of_def held_def
      captured_def released_def claimed_def batch_image_hold_claim_exists_def)

lemma demo_good: "good_batches {''b1''} demo_terms"
  by (simp add: good_batches_def demo_terms_def)

lemma demo_batch: "\<forall>(op, f) \<in> set demo_ops. batch_op {''b1''} demo_terms op" "orderly demo_sha demo_zones demo_terms demo_ops demo_bill_db"
  "plain_run demo_ops" "of_batch {''b1''} demo_terms batch_image_release_request_id (demo_hold ''batch_image_release:b1'')"
  by (simp_all add: demo_ops_def demo_hold_def demo_terms_def of_batch_def Let_def demo_charge_def plain_run_def own_id_def
      batch_image_hold_request_id_def batch_image_capture_request_id_def batch_image_release_request_id_def)

definition demo_after :: billing_db where
  "demo_after = snd (run_ops demo_sha demo_zones demo_ops demo_bill_db)"

lemma quantize_scale8 [simp]: "scale8 v \<Longrightarrow> quantize_usage_billing_amount v = v"
  using numeric8_scale8 [of v] by (simp add: quantize_usage_billing_amount_def UsageBillingMonetaryScale_def numeric8_def)

lemma demo_normal [simp]: "normalize_usage demo_sha demo_charge = demo_charge"
  "normalize_hold demo_sha (demo_hold ''batch_image_hold:b1'') = demo_hold ''batch_image_hold:b1''"
  by (simp_all add: normalize_usage_def normalize_hold_def Let_def quantize_monetary_fields_def demo_charge_def demo_hold_def)

lemmas demo_eval = transact_def claimed_transaction_def claim_usage_billing_request_def Let_def and_then_def
  charge_request_def prepare_rental_settlement_def apply_usage_billing_effects_def effect_subscription_def
  effect_balance_def effect_key_quota_def effect_rate_limit_def effect_account_def apply_rental_settlement_def
  skip_missing_key_def deduct_usage_billing_balance_def increment_usage_billing_api_key_quota_def live_user_def live_key_def
  normalize_usage_def normalize_hold_def quantize_monetary_fields_def put_user_def put_key_def no_apply_result_def no_hold_result_def set_funds_def reserve_batch_image_balance_def

definition demo_paid :: billing_db where
  "demo_paid = snd (apply_usage_billing demo_sha demo_zones (Some demo_charge) demo_bill_db)"

lemma demo_paid: "run_op demo_sha demo_zones (Charge (Some demo_charge)) demo_bill_db = (Some (Charged demo_charge), demo_paid)"
  "run_op demo_sha demo_zones (Charge (Some demo_charge)) demo_paid = (None, demo_paid)"
  "bd_users demo_paid 1 = Some \<lparr>bu_balance = 8, bu_frozen = 0, bu_deleted = False\<rparr>"
  "bd_dedup demo_paid (''batch_image_hold:b1'', 7) = None" "bd_archive demo_paid (''batch_image_hold:b1'', 7) = None"
  by (simp_all add: demo_paid_def apply_usage_billing_def, simp_all add: demo_eval demo_charge_def demo_bill_db_def)

lemma demo_log: "run_ops demo_sha demo_zones demo_ops demo_bill_db =
    ([Charged demo_charge, Reserved (demo_hold ''batch_image_hold:b1'')], demo_after)"
  "bd_users demo_after 1 = Some \<lparr>bu_balance = 5, bu_frozen = 3, bu_deleted = False\<rparr>"
  by (simp_all add: demo_after_def demo_ops_def demo_paid Let_def hold_log_def ReserveBatchImageBalance_def
      apply_batch_image_balance_hold_def del: run_op.simps(1))
    (simp_all add: demo_eval demo_paid demo_hold_def split: prod.splits)




text \<open>
  The amounts of holds are not rounded to eight decimals, unlike those of requests: half a unit
  held and given back leaves the balance and the frozen balance a unit higher each.
\<close>

lemma half_unit_hold_mints:
  "numeric8 (10 - 5 / 10 ^ 9) = 10" "numeric8 (0 + 5 / 10 ^ 9) = 1 / 10 ^ 8"
  "numeric8 (10 + 5 / 10 ^ 9) = 10 + 1 / 10 ^ 8" "numeric8 (1 / 10 ^ 8 - 5 / 10 ^ 9) = 1 / 10 ^ 8"
  by (simp_all add: numeric8_def dec_round_def round_half_away_def)

end
