(* ===== verification/Batch_Safety.thy ===== *)
theory Batch_Safety
  imports Batch_Service Billing_Ledger
begin

text \<open>
  What the life of a batch image job does with the money of its user. Undisturbed, a job is
  settled at its actual cost, a submission that fails gives its hold back, and an indexed job
  never costs more than its hold. Three interleavings in which money goes astray are run on a
  concrete database.
\<close>

section \<open>The price of a job and its hold\<close>

lemma nonneg [simp]: "0 \<le> nonneg x"
  by (simp add: nonneg_def)

lemma snapshot_of_prices:
  assumes "snapshot_of conf res gm disc hold ar n = Inr p" "0 \<le> gm" "0 \<le> disc"
  shows "0 \<le> ps_unit p" "ps_unit p \<le> ps_hold_unit p" "ps_hold p = ps_hold_unit p * of_nat n"
proof -
  define h where "h = (if hold < disc then disc else hold)"
  have u: "0 \<le> ps_base p" "ps_unit p = ps_base p * gm * nonneg ar * disc" "ps_hold_unit p = ps_base p * gm * nonneg ar * h"
    using assms(1)
    by (auto simp: snapshot_of_def Let_def h_def split: option.splits sum.splits if_splits)
  then have std: "0 \<le> ps_base p * gm * nonneg ar" using assms(2) by simp
  with assms(3) show "0 \<le> ps_unit p" by (simp add: u(2))
  have "disc \<le> h" by (simp add: h_def)
  from mult_left_mono [OF this std] show "ps_unit p \<le> ps_hold_unit p" by (simp add: u)
  show "ps_hold p = ps_hold_unit p * of_nat n"
    using assms(1) by (auto simp: snapshot_of_def Let_def split: option.splits sum.splits if_splits)
qed

lemma snapshot_prices:
  assumes "resolve_pricing_snapshot grp ur res ar n = Inr p"
  shows "0 \<le> ps_unit p" "ps_unit p \<le> ps_hold_unit p" "ps_hold p = ps_hold_unit p * of_nat n"
proof -
  from assms obtain conf gm disc hold where "snapshot_of conf res gm disc hold ar n = Inr p" "0 \<le> gm" "0 \<le> disc"
  proof (cases grp)
    case None
    with assms that [of None 1 "1/2" "6/10"] show thesis by (simp add: resolve_pricing_snapshot_def)
  next
    case (Some g)
    with assms that show thesis by (auto simp: resolve_pricing_snapshot_def Let_def split: sum.splits if_splits)
  qed
  from snapshot_of_prices [OF this] show "0 \<le> ps_unit p" "ps_unit p \<le> ps_hold_unit p" "ps_hold p = ps_hold_unit p * of_nat n"
    by simp_all
qed

text \<open>Rounding the unit price up 200 times stays within the tolerance of the settlement.\<close>

lemma rounded_cost_covered:
  fixes u h :: rat and s n :: int
  assumes "0 \<le> u" "u \<le> h" "0 \<le> s" "s \<le> n" "n \<le> 200"
  shows "of_int s * numeric10 u - numeric10 (h * of_int n) \<le> 1 / 10 ^ 8"
proof -
  define k where "k = round_half_away (u * 10 ^ 10)"
  have k: "numeric10 u = of_int k / 10 ^ 10" by (simp add: numeric10_def dec_round_def k_def)
  have x: "0 \<le> u * 10 ^ 10" using assms(1) by simp
  then have k': "k = \<lfloor>u * 10 ^ 10 + 1/2\<rfloor>" by (simp add: k_def round_half_away_def)
  then have k0: "0 \<le> k" using x by simp
  from k' have "of_int k \<le> u * 10 ^ 10 + 1/2" by simp
  then have "of_int n * of_int k \<le> of_int n * (u * 10 ^ 10 + 1/2)" using assms by (intro mult_left_mono) auto
  moreover have "of_int n / 2 \<le> (of_int (n div 2) :: rat) + 1/2"
  proof -
    have "n \<le> 2 * (n div 2) + 1" by presburger
    then have "(of_int n :: rat) \<le> of_int (2 * (n div 2) + 1)" by (simp only: of_int_le_iff)
    then show ?thesis by simp
  qed
  ultimately have "of_int (n * k - n div 2) \<le> u * of_int n * 10 ^ 10 + (1/2 :: rat)" by (simp add: field_simps)
  then have "n * k - n div 2 \<le> \<lfloor>u * of_int n * 10 ^ 10 + 1/2\<rfloor>" by (simp only: le_floor_iff)
  also have "\<dots> = round_half_away (u * of_int n * 10 ^ 10)" using assms by (simp add: round_half_away_def)
  finally have "of_int (n * k - n div 2) \<le> (of_int (round_half_away (u * of_int n * 10 ^ 10)) :: rat)"
    by (simp only: of_int_le_iff)
  then have "of_int (n * k - n div 2) / 10 ^ 10 \<le> numeric10 (u * of_int n)"
    by (simp add: numeric10_def dec_round_def divide_right_mono)
  also have "\<dots> \<le> numeric10 (h * of_int n)" unfolding numeric10_def using assms by (intro dec_round_mono mult_right_mono) auto
  finally have covered: "of_int (n * k - n div 2) / 10 ^ 10 \<le> numeric10 (h * of_int n)" .
  have "s * k \<le> n * k" using assms k0 by (intro mult_right_mono)
  moreover have "n div 2 \<le> 100" using assms by simp
  ultimately have "s * k - 100 \<le> n * k - n div 2" by linarith
  then have "(of_int (s * k - 100) :: rat) \<le> of_int (n * k - n div 2)" by (simp only: of_int_le_iff)
  with covered show ?thesis unfolding k by (simp add: field_simps)
qed

section \<open>Indexing accounts for every item\<close>

lemma item_of_result_id [simp]: "bi_custom_id (item_of_result p) = pr_custom_id p"
  by (simp add: item_of_result_def)

lemma index_lines_counts:
  assumes "index_lines ids ls r = Inr r'" "ix_success r + ix_fail r = int (length (ix_items r))"
    "0 \<le> ix_success r" "0 \<le> ix_fail r" "distinct (map bi_custom_id (ix_items r))"
    "ids \<noteq> [] \<longrightarrow> bi_custom_id ` set (ix_items r) \<subseteq> set ids"
  shows "ix_success r' + ix_fail r' = int (length (ix_items r')) \<and> 0 \<le> ix_success r' \<and> 0 \<le> ix_fail r' \<and>
    distinct (map bi_custom_id (ix_items r')) \<and> (ids \<noteq> [] \<longrightarrow> bi_custom_id ` set (ix_items r') \<subseteq> set ids)"
  using assms
proof (induction ids ls r rule: index_lines.induct)
  case (2 ids l ls r)
  show ?case
  proof (cases "parse_result_line l")
    case (Some p)
    with 2 show ?thesis
      by (cases "ids \<noteq> [] \<and> pr_custom_id p \<notin> set ids"; cases "pr_custom_id p \<in> bi_custom_id ` set (ix_items r)";
          cases "pr_succeeded p") auto
  qed (use 2 in simp)
qed auto

lemma index_output_counts:
  assumes "index_output ids ls = Inr r" "distinct ids" "ids \<noteq> []"
  shows "0 \<le> ix_success r" "0 \<le> ix_fail r" "ix_success r + ix_fail r = int (length ids)"
    "distinct (map bi_custom_id (ix_items r))" "bi_custom_id ` set (ix_items r) = set ids"
proof -
  obtain r0 where r0: "index_lines ids ls \<lparr>ix_items = [], ix_success = 0, ix_fail = 0\<rparr> = Inr r0"
    using assms(1) by (auto simp: index_output_def split: sum.splits)
  define missing where "missing = sort (filter (\<lambda>c. c \<notin> bi_custom_id ` set (ix_items r0)) ids)"
  from assms(1) r0 assms(2) have r: "ix_success r = ix_success r0" "ix_fail r = ix_fail r0 + int (length missing)"
    "map bi_custom_id (ix_items r) = rev (map bi_custom_id (ix_items r0)) @ missing"
    by (auto simp: index_output_def missing_def Let_def distinct_remdups_id rev_map comp_def split: if_splits)
  from index_lines_counts [OF r0] assms(3) have c: "ix_success r0 + ix_fail r0 = int (length (ix_items r0))"
    "0 \<le> ix_success r0" "0 \<le> ix_fail r0" "distinct (map bi_custom_id (ix_items r0))"
    "bi_custom_id ` set (ix_items r0) \<subseteq> set ids" by simp_all
  have set_r: "set (map bi_custom_id (ix_items r)) = set ids" using c(5) by (auto simp: r(3) missing_def)
  then show "bi_custom_id ` set (ix_items r) = set ids" by simp
  show d: "distinct (map bi_custom_id (ix_items r))" using c(4) assms(2) by (auto simp: r(3) missing_def)
  have "length (map bi_custom_id (ix_items r)) = length ids"
    using distinct_card [OF d] distinct_card [OF assms(2)] set_r by simp
  moreover have "length (map bi_custom_id (ix_items r)) = length (ix_items r0) + length missing" by (simp only: r(3)) simp
  ultimately show "ix_success r + ix_fail r = int (length ids)" using c(1) r by simp
  show "0 \<le> ix_success r" "0 \<le> ix_fail r" using c r by simp_all
qed

text \<open>C13: What the provider delivers never costs more than the hold. For a job of up to 200 items (the default
  limit), priced by the snapshot that submission resolves and stored with ten decimals, indexing any output
  counts every submitted item exactly once, and the successes times the stored unit price exceed the stored
  hold by at most the tolerance of the settlement: neither check of the settlement on the counts and the cost
  can fail.\<close>

theorem indexed_job_within_hold:
  assumes "resolve_pricing_snapshot grp user_rate resolved account_rate (length ids) = Inr p"
    and "distinct ids" "ids \<noteq> []" "length ids \<le> 200" "index_output ids ls = Inr r"
  shows "0 \<le> ix_success r \<and> 0 \<le> ix_fail r \<and> ix_success r + ix_fail r = int (length ids) \<and>
    of_int (ix_success r) * numeric10 (ps_unit p) - numeric10 (ps_hold p) \<le> batchImageCostEpsilon"
  using index_output_counts(1-3) [OF assms(5,2,3)] snapshot_prices [OF assms(1)] assms(4)
    rounded_cost_covered [of "ps_unit p" "ps_hold_unit p" "ix_success r" "int (length ids)"]
  by (simp add: batchImageCostEpsilon_def)

definition image_line :: "string \<Rightarrow> json option" where
  "image_line c = Some (JObj [(''key'', JStr c), (''response'', JObj [(''candidates'', JArr [JObj [(''content'', JObj [(''parts'',
     JArr [JObj [(''inlineData'', JObj [(''mimeType'', JStr ''image/png''), (''data'', JStr ''aGk='')])]])])]])])])"

lemma parse_image_lines:
  "parse_result_line (image_line ''y'') = Some \<lparr>pr_custom_id = ''y'', pr_succeeded = True, pr_mime = ''image/png'',
     pr_extension = ''png'', pr_images = 1, pr_error_code = [], pr_error_message = []\<rparr>"
  "parse_result_line (image_line ''z'') = Some \<lparr>pr_custom_id = ''z'', pr_succeeded = True, pr_mime = ''image/png'',
     pr_extension = ''png'', pr_images = 1, pr_error_code = [], pr_error_message = []\<rparr>"
  by code_simp+

lemma trim_mime: "trim_space ''image/png'' = ''image/png''"
  by code_simp

theorem indexed_job_within_hold_witness:
  "of_int (ix_success \<lparr>ix_items = [\<lparr>bi_custom_id = ''y'', bi_status = ItemSuccess, bi_images = 1, bi_mime = Some ''image/png'', bi_error = None\<rparr>,
      \<lparr>bi_custom_id = ''x'', bi_status = ItemFailed, bi_images = 0, bi_mime = None, bi_error = Some ''PROVIDER_RESULT_MISSING''\<rparr>],
      ix_success = 1, ix_fail = 1\<rparr>) * numeric10 1 - numeric10 (12/5) \<le> batchImageCostEpsilon"
proof -
  have p: "resolve_pricing_snapshot None (Inr None) (Inr 2) 1 (length [''x'', ''y'']) = Inr
    \<lparr>ps_base = 2, ps_group_rate = 1, ps_account_rate = 1, ps_discount = 1/2, ps_hold_rate = 6/10, ps_unit = 1,
     ps_hold_unit = 6/5, ps_estimated = 2, ps_hold = 12/5\<rparr>"
    by (simp add: resolve_pricing_snapshot_def snapshot_of_def nonneg_def)
  have i: "index_output [''x'', ''y''] [image_line ''y'', image_line ''z''] = Inr \<lparr>ix_items =
      [\<lparr>bi_custom_id = ''y'', bi_status = ItemSuccess, bi_images = 1, bi_mime = Some ''image/png'', bi_error = None\<rparr>,
       \<lparr>bi_custom_id = ''x'', bi_status = ItemFailed, bi_images = 0, bi_mime = None, bi_error = Some ''PROVIDER_RESULT_MISSING''\<rparr>],
      ix_success = 1, ix_fail = 1\<rparr>"
    by (simp add: index_output_def parse_image_lines item_of_result_def optional_string_def trim_mime)
  from indexed_job_within_hold [OF p _ _ _ i] show ?thesis by simp
qed

section \<open>Undisturbed operations\<close>

lemma ask_calm: "calm w \<Longrightarrow> f (pw_db w) = (Inr x, d) \<Longrightarrow> ask f w = (Inr x, w\<lparr>pw_db := d\<rparr>)"
  "calm w \<Longrightarrow> f (pw_db w) = (Inl e, d) \<Longrightarrow> ask f w = (Inl (JobErr e), w\<lparr>pw_db := d\<rparr>)"
  by (simp_all add: ask_def)

lemma bill_calm:
  "calm w \<Longrightarrow> f (jd_bill (pw_db w)) = (Inr x, bl) \<Longrightarrow> bill f w = (Inr x, w\<lparr>pw_db := (pw_db w)\<lparr>jd_bill := bl\<rparr>\<rparr>)"
  by (simp add: bill_def on_bill_def)

lemma find_put:
  "bj_batch j = b \<Longrightarrow> find (\<lambda>j. bj_batch j = b) (map (\<lambda>x. if bj_batch x = b then j else x) js) =
     (if find (\<lambda>j. bj_batch j = b) js = None then None else Some j)"
  by (induction js) auto

lemma job_at_put [simp]:
  "bj_batch j = b \<Longrightarrow> job_at b (put_job b j db) = (if job_at b db = None then None else Some j)"
  by (simp add: job_at_def put_job_def find_put)

lemma job_fields [simp]:
  "jd_bill (put_job b j db) = jd_bill db" "jd_now (put_job b j db) = jd_now db"
  "job_at b (db\<lparr>jd_bill := bl\<rparr>) = job_at b db" "job_at b (put_job b j db\<lparr>jd_bill := bl\<rparr>) = job_at b (put_job b j db)"
  by (simp_all add: put_job_def job_at_def)

lemma job_at_batch: "job_at b db = Some j \<Longrightarrow> bj_batch j = b"
  by (auto simp: job_at_def find_Some_iff)

text \<open>A hold transaction whose request is new and whose statement succeeds is applied.\<close>

lemma hold_tx:
  assumes n: "n = normalize_hold sha c" "hc_request_id n \<noteq> []" and new: "\<not> claimed db (hc_request_id n, hc_key n)"
    and body: "\<And>d. live_user d = live_user db \<Longrightarrow>
      (\<And>k. k \<noteq> (hc_request_id n, hc_key n) \<Longrightarrow> claimed d k = claimed db k) \<Longrightarrow> \<exists>r d'. f n d = Inr (r, d')"
  shows "\<exists>r db'. apply_batch_image_balance_hold f sha (Some c) db = (Inr r, db') \<and> hr_applied r"
proof -
  from new have "bd_dedup db (hc_request_id n, hc_key n) = None" "bd_archive db (hc_request_id n, hc_key n) = None"
    by (simp_all add: claimed_def batch_image_hold_claim_exists_def del: not_None_eq)
  then obtain d where c: "claim_usage_billing_request (hc_request_id n) (hc_key n) (hc_fingerprint n) db = Inr (True, d)"
    by (simp add: claim_usage_billing_request_def Let_def)
  then have "live_user d = live_user db"
    by (auto simp: claim_usage_billing_request_def Let_def live_user_def split: option.splits if_splits)
  with body [of d] claim_True(2) [OF c] obtain r d' where f: "f n d = Inr (r, d')" by auto
  have "transact (claimed_transaction (hc_request_id n) (hc_key n) (hc_fingerprint n) no_hold_result
      (and_then (f n) (\<lambda>r d. Inr (r\<lparr>hr_applied := True\<rparr>, d)))) db = (Inr (r\<lparr>hr_applied := True\<rparr>), d')"
    by (simp add: transact_def claimed_transaction_def c and_then_def f)
  then show ?thesis using n(2) by (simp add: apply_batch_image_balance_hold_def Let_def flip: n(1))
qed

text \<open>The fields of the commands that the service builds.\<close>

definition good_job :: "batch_job \<Rightarrow> bool" where
  "good_job j \<longleftrightarrow> (\<exists>kid. bj_key j = Some kid \<and> kid > 0) \<and> held_amount j > 0 \<and> scale8 (held_amount j)"

definition job_key :: "batch_job \<Rightarrow> int" where "job_key j = the (bj_key j)"

definition job_command :: "batch_job \<Rightarrow> string \<Rightarrow> rat \<Rightarrow> string \<Rightarrow> hold_command" where
  "job_command j rid actual payload =
     \<lparr>hc_request_id = rid, hc_key = job_key j, hc_fingerprint = [], hc_payload_hash = trim_space payload,
      hc_user = bj_user j, hc_batch = bj_batch j, hc_hold = held_amount j, hc_actual = actual\<rparr>"

lemma build_command:
  "good_job j \<Longrightarrow> 0 \<le> actual \<Longrightarrow> build_batch_image_hold_command j rid actual payload = Inr (job_command j rid actual payload)"
  by (auto simp: good_job_def build_batch_image_hold_command_def job_command_def job_key_def)

text \<open>A batch id as submission makes it has nothing to trim.\<close>

definition plain_id :: "string \<Rightarrow> bool" where
  "plain_id b \<longleftrightarrow> trim_space b = b \<and> trim_space (batch_image_hold_request_id b) = batch_image_hold_request_id b \<and>
     trim_space (batch_image_capture_request_id b) = batch_image_capture_request_id b \<and>
     trim_space (batch_image_release_request_id b) = batch_image_release_request_id b"

definition job_terms :: "batch_job \<Rightarrow> string \<Rightarrow> batch_terms" where
  "job_terms j = (\<lambda>_. \<lparr>bt_user = bj_user j, bt_key = job_key j, bt_hold = held_amount j\<rparr>)"

abbreviation "job_held j bl \<equiv> held (job_terms j) bl (bj_batch j)"
abbreviation "job_captured j bl \<equiv> captured (job_terms j) bl (bj_batch j)"
abbreviation "job_released j bl \<equiv> released (job_terms j) bl (bj_batch j)"

text \<open>What an applied capture leaves: the actual cost is gone, the rest is back, the hold is over.\<close>

lemma capture_calm:
  assumes w: "calm w" and j: "good_job j" "plain_id (bj_batch j)" and a: "0 \<le> actual" "scale8 actual" "actual - held_amount j \<le> 1 / 10 ^ 8"
    and bl: "scaled (jd_bill (pw_db w))" "\<not> job_captured j (jd_bill (pw_db w))"
      "live_user (jd_bill (pw_db w)) (bj_user j) = Some u" "bu_frozen u \<ge> held_amount j"
  obtains bl' where "capture_batch_image_balance_hold sha j actual payload w = (Inr (), w\<lparr>pw_db := (pw_db w)\<lparr>jd_bill := bl'\<rparr>\<rparr>)"
    "step_ok (Some (Captured (normalize_hold sha (job_command j (batch_image_capture_request_id (bj_batch j)) actual payload))))
       (jd_bill (pw_db w)) bl'"
proof -
  define c where "c = job_command j (batch_image_capture_request_id (bj_batch j)) actual payload"
  define n where "n = normalize_hold sha c"
  have f: "hc_request_id n = batch_image_capture_request_id (bj_batch j)" "hc_key n = job_key j" "hc_user n = bj_user j"
    "hc_hold n = held_amount j" "hc_actual n = actual" "hc_hold c = held_amount j" "hc_actual c = actual"
    using j(2) by (simp_all add: n_def c_def job_command_def plain_id_def)
  from j(1) have pos: "held_amount j > 0" "scale8 (held_amount j)" by (simp_all add: good_job_def)
  obtain r bl' where r: "CaptureBatchImageBalance sha (Some c) (jd_bill (pw_db w)) = (Inr r, bl')" "hr_applied r"
  proof -
    have "\<exists>r db'. apply_batch_image_balance_hold capture_batch_image_balance sha (Some c) (jd_bill (pw_db w)) = (Inr r, db') \<and> hr_applied r"
    proof (rule hold_tx [OF n_def])
      show "hc_request_id n \<noteq> []" by (simp add: f batch_image_capture_request_id_def)
      show "\<not> claimed (jd_bill (pw_db w)) (hc_request_id n, hc_key n)" using bl(2) by (simp add: f captured_def job_terms_def)
      show "\<exists>r d'. capture_batch_image_balance n d = Inr (r, d')" if "live_user d = live_user (jd_bill (pw_db w))" for d
        using that bl(3,4) pos a(3) by (simp add: capture_batch_image_balance_def f set_funds_def)
    qed
    then show thesis using that by (auto simp: CaptureBatchImageBalance_def)
  qed
  have "run_op sha z (Capture (Some c)) (jd_bill (pw_db w)) = (Some (Captured n), bl')" for z
    by (simp add: hold_log_def r n_def)
  then have st: "step_ok (Some (Captured n)) (jd_bill (pw_db w)) bl'"
    using run_op_step [OF bl(1), of "Capture (Some c)"] pos a(2) by (simp add: f own_id_def)
  show thesis
  proof (rule that)
    show "capture_batch_image_balance_hold sha j actual payload w = (Inr (), w\<lparr>pw_db := (pw_db w)\<lparr>jd_bill := bl'\<rparr>\<rparr>)"
      by (simp add: capture_batch_image_balance_hold_def build_command [OF j(1) a(1)] bill_calm [OF w, where f = "CaptureBatchImageBalance sha (Some c)", OF r(1)] flip: c_def)
  qed (use st in \<open>simp add: n_def c_def\<close>)
qed

text \<open>A hold that can be taken, and one that can be released.\<close>

lemma reserve_calm:
  assumes w: "calm w" and j: "good_job j" "plain_id (bj_batch j)"
    and bl: "scaled (jd_bill (pw_db w))" "\<not> job_held j (jd_bill (pw_db w))"
      "live_user (jd_bill (pw_db w)) (bj_user j) = Some u" "bu_balance u \<ge> held_amount j"
  obtains bl' where "reserve_batch_image_balance_hold sha j payload w = (Inr (), w\<lparr>pw_db := (pw_db w)\<lparr>jd_bill := bl'\<rparr>\<rparr>)"
    "step_ok (Some (Reserved (normalize_hold sha (job_command j (batch_image_hold_request_id (bj_batch j)) 0 payload))))
       (jd_bill (pw_db w)) bl'"
proof -
  define c where "c = job_command j (batch_image_hold_request_id (bj_batch j)) 0 payload"
  define n where "n = normalize_hold sha c"
  have f: "hc_request_id n = batch_image_hold_request_id (bj_batch j)" "hc_key n = job_key j" "hc_user n = bj_user j"
    "hc_hold n = held_amount j" "hc_hold c = held_amount j"
    using j(2) by (simp_all add: n_def c_def job_command_def plain_id_def)
  from j(1) have pos: "held_amount j > 0" "scale8 (held_amount j)" by (simp_all add: good_job_def)
  obtain r bl' where r: "ReserveBatchImageBalance sha (Some c) (jd_bill (pw_db w)) = (Inr r, bl')" "hr_applied r"
  proof -
    have "\<exists>r db'. apply_batch_image_balance_hold reserve_batch_image_balance sha (Some c) (jd_bill (pw_db w)) = (Inr r, db') \<and> hr_applied r"
    proof (rule hold_tx [OF n_def])
      show "hc_request_id n \<noteq> []" by (simp add: f batch_image_hold_request_id_def)
      show "\<not> claimed (jd_bill (pw_db w)) (hc_request_id n, hc_key n)" using bl(2) by (simp add: f held_def job_terms_def)
      show "\<exists>r d'. reserve_batch_image_balance n d = Inr (r, d')" if "live_user d = live_user (jd_bill (pw_db w))" for d
        using that bl(3,4) pos by (simp add: reserve_batch_image_balance_def f set_funds_def)
    qed
    then show thesis using that by (auto simp: ReserveBatchImageBalance_def)
  qed
  have "run_op sha z (Reserve (Some c)) (jd_bill (pw_db w)) = (Some (Reserved n), bl')" for z
    by (simp add: hold_log_def r n_def)
  then have st: "step_ok (Some (Reserved n)) (jd_bill (pw_db w)) bl'"
    using run_op_step [OF bl(1), of "Reserve (Some c)"] pos by (simp add: f own_id_def)
  show thesis
  proof (rule that)
    show "reserve_batch_image_balance_hold sha j payload w = (Inr (), w\<lparr>pw_db := (pw_db w)\<lparr>jd_bill := bl'\<rparr>\<rparr>)"
      using pos by (simp add: reserve_batch_image_balance_hold_def build_command [OF j(1)] f
          bill_calm [OF w, where f = "ReserveBatchImageBalance sha (Some c)", OF r(1)] flip: c_def)
  qed (use st in \<open>simp add: n_def c_def\<close>)
qed

lemma release_calm:
  assumes w: "calm w" and j: "good_job j" "plain_id (bj_batch j)"
    and bl: "scaled (jd_bill (pw_db w))" "job_held j (jd_bill (pw_db w))" "\<not> job_released j (jd_bill (pw_db w))"
      "live_user (jd_bill (pw_db w)) (bj_user j) = Some u" "bu_frozen u \<ge> held_amount j"
  obtains bl' where "release_batch_image_balance_hold sha j payload w = (Inr (), w\<lparr>pw_db := (pw_db w)\<lparr>jd_bill := bl'\<rparr>\<rparr>)"
    "step_ok (Some (Released (normalize_hold sha (job_command j (batch_image_release_request_id (bj_batch j)) 0 payload))))
       (jd_bill (pw_db w)) bl'"
proof -
  define c where "c = job_command j (batch_image_release_request_id (bj_batch j)) 0 payload"
  define n where "n = normalize_hold sha c"
  have f: "hc_request_id n = batch_image_release_request_id (bj_batch j)" "hc_key n = job_key j" "hc_user n = bj_user j"
    "hc_hold n = held_amount j" "hc_hold c = held_amount j" "hc_batch n = bj_batch j" "hc_batch c = bj_batch j"
    "hc_request_id c = batch_image_release_request_id (bj_batch j)"
    using j(2) by (simp_all add: n_def c_def job_command_def plain_id_def)
  from j(1) have pos: "held_amount j > 0" "scale8 (held_amount j)" by (simp_all add: good_job_def)
  obtain r bl' where r: "ReleaseBatchImageBalance sha (Some c) (jd_bill (pw_db w)) = (Inr r, bl')" "hr_applied r"
  proof -
    have "\<exists>r db'. apply_batch_image_balance_hold release_batch_image_balance sha (Some c) (jd_bill (pw_db w)) = (Inr r, db') \<and> hr_applied r"
    proof (rule hold_tx [OF n_def])
      show "hc_request_id n \<noteq> []" by (simp add: f batch_image_release_request_id_def)
      show "\<not> claimed (jd_bill (pw_db w)) (hc_request_id n, hc_key n)" using bl(3) by (simp add: f released_def job_terms_def)
      show "\<exists>r d'. release_batch_image_balance n d = Inr (r, d')"
        if "live_user d = live_user (jd_bill (pw_db w))"
          "\<And>k. k \<noteq> (hc_request_id n, hc_key n) \<Longrightarrow> claimed d k = claimed (jd_bill (pw_db w)) k" for d
      proof -
        have "claimed d (batch_image_hold_request_id (bj_batch j), job_key j)"
          using that(2) bl(2) by (simp add: f held_def job_terms_def)
        then show ?thesis using that(1) bl(4,5) pos
          by (simp add: release_batch_image_balance_def f set_funds_def claimed_def)
      qed
    qed
    then show thesis using that by (auto simp: ReleaseBatchImageBalance_def)
  qed
  have "run_op sha z (Release (Some c)) (jd_bill (pw_db w)) = (Some (Released n), bl')" for z
    by (simp add: hold_log_def r n_def)
  then have st: "step_ok (Some (Released n)) (jd_bill (pw_db w)) bl'"
    using run_op_step [OF bl(1), of "Release (Some c)"] pos j(2) by (simp add: f own_id_def plain_id_def)
  show thesis
  proof (rule that)
    show "release_batch_image_balance_hold sha j payload w = (Inr (), w\<lparr>pw_db := (pw_db w)\<lparr>jd_bill := bl'\<rparr>\<rparr>)"
      using pos by (simp add: release_batch_image_balance_hold_def build_command [OF j(1)] f
          bill_calm [OF w, where f = "ReleaseBatchImageBalance sha (Some c)", OF r(1)] flip: c_def)
  qed (use st in \<open>simp add: n_def c_def\<close>)
qed

section \<open>Settlement\<close>

text \<open>A job that is settling for the first time, with its hold open.\<close>

definition settleable :: "batch_db \<Rightarrow> batch_job \<Rightarrow> bool" where
  "settleable db j \<longleftrightarrow> job_at (bj_batch j) db = Some j \<and> bj_status j = StatusSettling \<and> good_job j \<and> plain_id (bj_batch j) \<and>
     (\<exists>a. bj_account j = Some a \<and> a > 0) \<and> \<not> is_settlement_retry_exhausted j \<and> bj_manifest j = None \<and>
     bj_price_version j \<ge> 1 \<and> 0 \<le> bj_unit_price j \<and> 0 \<le> bj_success j \<and> 0 \<le> bj_fail j \<and>
     bj_success j + bj_fail j \<le> bj_item_count j \<and> scaled (jd_bill db) \<and> \<not> job_captured j (jd_bill db) \<and>
     (\<exists>u. live_user (jd_bill db) (bj_user j) = Some u \<and> bu_frozen u \<ge> held_amount j)"


section \<open>Submissions that fail\<close>

text \<open>A row of the job table and the billing tables; what an undisturbed statement does to them.\<close>

definition at_row :: "batch_world \<Rightarrow> string \<Rightarrow> batch_job \<Rightarrow> billing_db \<Rightarrow> bool" where
  "at_row w b j bl \<longleftrightarrow> calm w \<and> job_at b (pw_db w) = Some j \<and> bj_batch j = b \<and> jd_bill (pw_db w) = bl"

lemma at_row_put:
  "at_row w b j bl \<Longrightarrow> bj_batch j' = b \<Longrightarrow> at_row (w\<lparr>pw_db := put_job b j' (pw_db w)\<rparr>) b j' bl"
  by (simp add: at_row_def)

lemma row_event: "at_row w b j bl \<Longrightarrow> \<exists>w'. ask (append_event b ev) w = (Inr (), w') \<and> at_row w' b (j\<lparr>bj_events := bj_events j @ [ev]\<rparr>) bl"
  by (auto simp: at_row_def append_event_def ask_def)

lemma row_transition:
  assumes "at_row w b j bl" "can_transition_batch_image_job (bj_status j) st"
  shows "\<exists>w' j'. ask (transition_job b st code ev) w = (Inr (), w') \<and> at_row w' b j' bl \<and> bj_status j' = st \<and>
    bj_user j' = bj_user j \<and> bj_key j' = bj_key j \<and> bj_user_deleted j' = bj_user_deleted j \<and> bj_items j' = bj_items j"
  using assms by (auto simp: at_row_def ask_def transition_job_def Let_def)

lemma row_items:
  assumes "at_row w b j bl" "distinct ids" "bj_items j = []"
  shows "\<exists>w' j'. create_pending_items b ids w = (Inr (), w') \<and> at_row w' b j' bl \<and> bj_status j' = bj_status j \<and>
    bj_user j' = bj_user j \<and> bj_key j' = bj_key j \<and> bj_user_deleted j' = bj_user_deleted j"
  using assms by (auto simp: at_row_def ask_def create_pending_items_def create_items_def pending_items_def comp_def)

lemma row_touch:
  assumes "at_row w b j bl"
  shows "\<exists>j'. at_row (snd (call (touch_job_submitting b) w)) b j' bl \<and> bj_status j' = bj_status j \<and>
    bj_user j' = bj_user j \<and> bj_key j' = bj_key j \<and> bj_user_deleted j' = bj_user_deleted j"
  using assms by (auto simp: at_row_def touch_job_submitting_def)

lemma row_heartbeats:
  "at_row w b j bl \<Longrightarrow> \<exists>j'. at_row (heartbeats n b w) b j' bl \<and> bj_status j' = bj_status j \<and>
    bj_user j' = bj_user j \<and> bj_key j' = bj_key j \<and> bj_user_deleted j' = bj_user_deleted j"
proof (induction n arbitrary: w j)
  case (Suc n)
  from row_touch [OF Suc.prems] obtain j1 where t: "at_row (snd (call (touch_job_submitting b) w)) b j1 bl"
    "bj_status j1 = bj_status j" "bj_user j1 = bj_user j" "bj_key j1 = bj_key j" "bj_user_deleted j1 = bj_user_deleted j" by blast
  from Suc.IH [OF t(1)] t(2-) show ?case by auto
qed auto

lemma row_record:
  assumes "at_row w b j bl"
  shows "\<exists>j'. at_row (record_submit_failure b code True w) b j' bl \<and> bj_status j' = StatusFailed \<and>
    bj_user j' = bj_user j \<and> bj_key j' = bj_key j \<and> bj_user_deleted j' = bj_user_deleted j"
proof -
  define j1 where "j1 = j\<lparr>bj_status := StatusFailed, bj_error_code := Some code, bj_updated := jd_now (pw_db w)\<rparr>"
  define w1 where "w1 = w\<lparr>pw_db := put_job b j1 (pw_db w)\<rparr>"
  have "at_row w1 b j1 bl" unfolding w1_def
    by (rule at_row_put [OF assms(1)]) (use assms(1) in \<open>simp add: j1_def at_row_def\<close>)
  then obtain w2 where "ask (append_event b ''submit_failed'') w1 = (Inr (), w2)"
    "at_row w2 b (j1\<lparr>bj_events := bj_events j1 @ [''submit_failed'']\<rparr>) bl" using row_event by blast
  moreover have "call (submit_failure_update b code True) w = (DbOk (), w1)"
    using assms by (simp add: at_row_def submit_failure_update_def w1_def j1_def)
  ultimately have "at_row (record_submit_failure b code True w) b (j1\<lparr>bj_events := bj_events j1 @ [''submit_failed'']\<rparr>) bl"
    by (simp add: record_submit_failure_def ignore_def)
  then show ?thesis by (intro exI [of _ "j1\<lparr>bj_events := bj_events j1 @ [''submit_failed'']\<rparr>"]) (simp add: j1_def)
qed

lemma row_hide:
  assumes "at_row w b j bl" "bj_status j = StatusFailed" "bj_user j = sr_user r" "bj_key j = Some (sr_key r)"
    "\<not> bj_user_deleted j" "bj_provider_job job = None" "bj_batch job = b"
  shows "\<exists>j'. at_row (hide_pre_upstream_submit_failure r job w) b j' bl \<and> bj_status j' = StatusFailed \<and> bj_user_deleted j'"
proof -
  define j1 where "j1 = j\<lparr>bj_user_deleted := True, bj_updated := jd_now (pw_db w)\<rparr>"
  define w1 where "w1 = w\<lparr>pw_db := put_job b j1 (pw_db w)\<rparr>"
  have "at_row w1 b j1 bl" unfolding w1_def
    by (rule at_row_put [OF assms(1)]) (use assms(1) in \<open>simp add: j1_def at_row_def\<close>)
  then obtain w2 where "ask (append_event b ''user_record_deleted'') w1 = (Inr (), w2)"
    "at_row w2 b (j1\<lparr>bj_events := bj_events j1 @ [''user_record_deleted'']\<rparr>) bl" using row_event by blast
  moreover have "ask (mark_user_deleted_update (sr_user r) (sr_key r) b) w = (Inr (), w1)"
    using assms by (simp add: at_row_def ask_def mark_user_deleted_update_def w1_def j1_def)
  ultimately have "at_row (hide_pre_upstream_submit_failure r job w) b (j1\<lparr>bj_events := bj_events j1 @ [''user_record_deleted'']\<rparr>) bl"
    using assms(6,7) by (simp add: hide_pre_upstream_submit_failure_def mark_user_deleted_def ignore_def)
  then show ?thesis using assms(2)
    by (intro exI [of _ "j1\<lparr>bj_events := bj_events j1 @ [''user_record_deleted'']\<rparr>"]) (simp add: j1_def)
qed

text \<open>A request that submission accepts: a new batch id, distinct items, and enough balance for its hold.\<close>

definition acceptable :: "batch_db \<Rightarrow> submit_request \<Rightarrow> bool" where
  "acceptable db r \<longleftrightarrow> (let h = numeric10 (ps_hold (sr_price r)); T = \<lambda>_. \<lparr>bt_user = sr_user r, bt_key = sr_key r, bt_hold = h\<rparr> in
     sr_idempotency_key r = [] \<and> is_supported_batch_image_provider (sr_provider r) \<and> job_at (sr_batch r) db = None \<and>
     plain_id (sr_batch r) \<and> sr_key r > 0 \<and> h > 0 \<and> scale8 h \<and> distinct (sr_items r) \<and> scaled (jd_bill db) \<and>
     \<not> held T (jd_bill db) (sr_batch r) \<and> \<not> released T (jd_bill db) (sr_batch r) \<and>
     (\<exists>u. live_user (jd_bill db) (sr_user r) = Some u \<and> bu_balance u \<ge> h \<and> bu_frozen u \<ge> 0))"

lemma live_amounts: "live_user d i = Some u \<Longrightarrow> frozen_of d i = bu_frozen u \<and> balance_of d i = bu_balance u"
  by (auto simp: live_user_def frozen_of_def balance_of_def split: option.splits if_splits)

lemma create_row:
  assumes "calm w" "acceptable (pw_db w) r"
  obtains w' j where "ask (create_job (job_of_request r)) w = (Inr j, w')" "at_row w' (sr_batch r) j (jd_bill (pw_db w))"
    "good_job j" "bj_batch j = sr_batch r" "bj_status j = StatusCreated" "bj_user j = sr_user r" "bj_key j = Some (sr_key r)"
    "held_amount j = numeric10 (ps_hold (sr_price r))" "bj_provider_job j = None" "bj_items j = []" "\<not> bj_user_deleted j"
proof -
  define j where "j = (job_of_request r)\<lparr>bj_estimated := numeric10 (bj_estimated (job_of_request r)),
    bj_hold := Some (numeric10 (ps_hold (sr_price r))), bj_unit_price := numeric10 (bj_unit_price (job_of_request r)),
    bj_updated := jd_now (pw_db w)\<rparr>"
  define w' where "w' = w\<lparr>pw_db := (pw_db w)\<lparr>jd_jobs := jd_jobs (pw_db w) @ [j]\<rparr>\<rparr>"
  have "find P (xs @ [x]) = (if find P xs = None then if P x then Some x else None else find P xs)" for P and xs :: "batch_job list" and x
    by (induction xs) auto
  moreover from assms(2) have n: "job_at (sr_batch r) (pw_db w) = None" "is_supported_batch_image_provider (sr_provider r)"
    by (simp_all add: acceptable_def Let_def)
  ultimately have at': "job_at (sr_batch r) (pw_db w') = Some j" by (simp add: w'_def job_at_def j_def job_of_request_def)
  have run: "ask (create_job (job_of_request r)) w = (Inr j, w')"
    using assms(1) n by (simp add: ask_def create_job_def Let_def job_of_request_def j_def w'_def StatusCreated_def)
  show thesis
    by (rule that [OF run]) (use assms at' in \<open>simp_all add: at_row_def w'_def j_def job_of_request_def good_job_def held_amount_def
        acceptable_def Let_def\<close>)
qed

text \<open>How far every undisturbed submission gets: the provider has been asked, and the hold is taken.\<close>

lemma submission_holds:
  assumes w: "calm w" and a: "acceptable (pw_db w) r" and p: "prov = NoJob \<or> prov = Refuses reason"
  obtains code w5 j j5 bl2 where
    "submit sha queue prov touches r w = fail_submission sha queue r j code (ProviderSubmitFailed code) w5"
    "at_row w5 (sr_batch r) j5 bl2" "bj_user j5 = sr_user r" "bj_key j5 = Some (sr_key r)" "\<not> bj_user_deleted j5"
    "good_job j" "bj_batch j = sr_batch r" "bj_user j = sr_user r" "bj_key j = Some (sr_key r)"
    "held_amount j = numeric10 (ps_hold (sr_price r))" "bj_provider_job j = None"
    "step_ok (Some (Reserved (normalize_hold sha (job_command j (batch_image_hold_request_id (sr_batch r)) 0 (sr_hash r)))))
       (jd_bill (pw_db w)) bl2"
proof -
  let ?b = "sr_batch r"
  let ?h = "numeric10 (ps_hold (sr_price r))"
  define bl where "bl = jd_bill (pw_db w)"
  from a obtain u where u: "live_user bl (sr_user r) = Some u" "bu_balance u \<ge> ?h" "bu_frozen u \<ge> 0"
    and idem: "sr_idempotency_key r = []" and pid: "plain_id ?b" and s: "scaled bl" and ids: "distinct (sr_items r)"
    by (auto simp: acceptable_def Let_def bl_def)
  obtain w1 j where cr: "ask (create_job (job_of_request r)) w = (Inr j, w1)" and r1: "at_row w1 ?b j bl"
    and j: "good_job j" "bj_batch j = ?b" "bj_status j = StatusCreated" "bj_user j = sr_user r" "bj_key j = Some (sr_key r)"
      "held_amount j = ?h" "bj_provider_job j = None" "bj_items j = []" "\<not> bj_user_deleted j"
    using create_row [OF w a] unfolding bl_def by blast
  from r1 have w1: "calm w1" "jd_bill (pw_db w1) = bl" by (simp_all add: at_row_def)
  have T: "job_terms j = (\<lambda>_. \<lparr>bt_user = sr_user r, bt_key = sr_key r, bt_hold = ?h\<rparr>)" by (simp add: job_terms_def job_key_def j)
  from a have fresh: "\<not> job_held j bl" "\<not> job_released j bl" by (simp_all add: acceptable_def Let_def T j bl_def)
  obtain bl2 where res: "reserve_batch_image_balance_hold sha j (sr_hash r) w1 = (Inr (), w1\<lparr>pw_db := (pw_db w1)\<lparr>jd_bill := bl2\<rparr>\<rparr>)"
    and st2: "step_ok (Some (Reserved (normalize_hold sha (job_command j (batch_image_hold_request_id ?b) 0 (sr_hash r))))) bl bl2"
    using reserve_calm [OF w1(1) j(1), of u sha "sr_hash r"] pid s fresh u by (auto simp: w1 j)
  define w2 where "w2 = w1\<lparr>pw_db := (pw_db w1)\<lparr>jd_bill := bl2\<rparr>\<rparr>"
  have r2: "at_row w2 ?b j bl2" using r1 by (simp add: at_row_def w2_def)
  obtain w3 j3 where it: "create_pending_items ?b (sr_items r) w2 = (Inr (), w3)" and r3: "at_row w3 ?b j3 bl2"
    "bj_status j3 = StatusCreated" "bj_user j3 = sr_user r" "bj_key j3 = Some (sr_key r)" "\<not> bj_user_deleted j3"
    using row_items [OF r2 ids j(8)] j by auto
  have "can_transition_batch_image_job StatusCreated StatusUploading"
    by (simp add: can_transition_batch_image_job_def is_terminal_batch_image_job_status_def batch_status_defs)
  then obtain w4 j4 where tr: "ask (transition_job ?b StatusUploading None ''upload_started'') w3 = (Inr (), w4)"
    and r4: "at_row w4 ?b j4 bl2" "bj_user j4 = sr_user r" "bj_key j4 = Some (sr_key r)" "\<not> bj_user_deleted j4"
    using row_transition [OF r3(1)] r3 by metis
  obtain j5 where r5: "at_row (heartbeats touches ?b w4) ?b j5 bl2" "bj_user j5 = sr_user r" "bj_key j5 = Some (sr_key r)" "\<not> bj_user_deleted j5"
    using row_heartbeats [OF r4(1)] r4 by metis
  have "\<exists>code. submit sha queue prov touches r w = fail_submission sha queue r j code (ProviderSubmitFailed code) (heartbeats touches ?b w4)"
    using p by (auto simp: submit_def idem create_and_submit_def cr res j it [unfolded w2_def] upload_job_def tr Let_def)
  then obtain code where "submit sha queue prov touches r w =
    fail_submission sha queue r j code (ProviderSubmitFailed code) (heartbeats touches ?b w4)" by blast
  from that [OF this r5 j(1,2,4,5,6,7) st2 [unfolded bl_def]] show thesis .
qed

text \<open>The release after a refusal takes the hold back, and nothing else of the funds has changed.\<close>

lemma refused_hold_released:
  assumes a: "acceptable (pw_db w) r" and r5: "at_row w5 (sr_batch r) j5 bl2" and bl: "bl = jd_bill (pw_db w)"
    and j: "good_job j" "bj_batch j = sr_batch r" "bj_user j = sr_user r" "bj_key j = Some (sr_key r)"
      "held_amount j = numeric10 (ps_hold (sr_price r))"
    and st2: "step_ok (Some (Reserved (normalize_hold sha (job_command j (batch_image_hold_request_id (sr_batch r)) 0 (sr_hash r))))) bl bl2"
  shows "\<exists>bl6. release_batch_image_balance_hold sha j (sr_hash r) w5 = (Inr (), w5\<lparr>pw_db := (pw_db w5)\<lparr>jd_bill := bl6\<rparr>\<rparr>) \<and>
    (\<forall>x. balance_of bl6 x = balance_of bl x \<and> frozen_of bl6 x = frozen_of bl x)"
proof -
  let ?b = "sr_batch r" and ?h = "numeric10 (ps_hold (sr_price r))"
  from a obtain u where u: "live_user bl (sr_user r) = Some u" "bu_frozen u \<ge> 0" and pid: "plain_id ?b"
    by (auto simp: acceptable_def Let_def bl)
  have w5: "calm w5" "jd_bill (pw_db w5) = bl2" using r5 by (simp_all add: at_row_def)
  have T: "job_terms j = (\<lambda>_. \<lparr>bt_user = sr_user r, bt_key = sr_key r, bt_hold = ?h\<rparr>)" by (simp add: job_terms_def job_key_def j)
  from a have fresh: "\<not> job_released j bl" by (simp add: acceptable_def Let_def T j bl)
  note d2 = step_fields [OF st2]
  have key: "job_key j = sr_key r" by (simp add: job_key_def j)
  have held2: "job_held j bl2" using pid by (simp add: d2(8) held_def T j job_command_def plain_id_def key)
  have free2: "\<not> job_released j bl2"
    using fresh pid by (simp add: d2(8) released_def T j job_command_def plain_id_def key)
  have pos: "?h > 0" using j(1) by (simp add: good_job_def j)
  from d2(7) [of "sr_user r"] u obtain u2 where u2: "live_user bl2 (sr_user r) = Some u2" by auto
  have "bu_frozen u2 = bu_frozen u + ?h"
    using d2(4) [of "sr_user r"] live_amounts [OF u2] live_amounts [OF u(1)] pos
    by (simp add: job_command_def j if_positive_def on_id_def)
  with u(2) have enough: "bu_frozen u2 \<ge> ?h" by simp
  obtain bl6 where rel: "release_batch_image_balance_hold sha j (sr_hash r) w5 = (Inr (), w5\<lparr>pw_db := (pw_db w5)\<lparr>jd_bill := bl6\<rparr>\<rparr>)"
    and st6: "step_ok (Some (Released (normalize_hold sha (job_command j (batch_image_release_request_id ?b) 0 (sr_hash r))))) bl2 bl6"
    using release_calm [OF w5(1) j(1), of u2 sha "sr_hash r"] pid d2(1) held2 free2 u2 enough by (auto simp: w5 j)
  note d6 = step_fields [OF st6]
  have hk: "claimed bl2 (hold_key (normalize_hold sha (job_command j rid 0 (sr_hash r))))" for rid
    using held2 pid by (simp add: hold_key_def job_command_def held_def T j plain_id_def key)
  have "balance_of bl6 x = balance_of bl x \<and> frozen_of bl6 x = frozen_of bl x" for x
    using d6(4,5) [of x] d2(4,5) [of x] hk by (simp add: job_command_def j if_positive_def on_id_def pos)
  with rel show ?thesis by blast
qed


section \<open>Concrete runs\<close>

definition demo_price :: pricing_snapshot where
  "demo_price = \<lparr>ps_base = 2, ps_group_rate = 1, ps_account_rate = 1, ps_discount = 1/2, ps_hold_rate = 3/4,
     ps_unit = 1, ps_hold_unit = 3/2, ps_estimated = 2, ps_hold = 3\<rparr>"

definition demo_request :: "string \<Rightarrow> string \<Rightarrow> submit_request" where
  "demo_request b key = \<lparr>sr_user = 1, sr_key = 7, sr_account = 3, sr_provider = ''vertex'', sr_model = ''m'',
     sr_items = [''x'', ''y''], sr_idempotency_key = key, sr_hash = ''h'', sr_batch = b, sr_price = demo_price\<rparr>"

definition demo_batch_db :: batch_db where
  "demo_batch_db = \<lparr>jd_bill = demo_bill_db, jd_jobs = [], jd_now = 0\<rparr>"

definition quiet :: "batch_db \<Rightarrow> batch_world" where
  "quiet db = \<lparr>pw_db = db, pw_env = [], pw_faults = []\<rparr>"

definition frozen_in :: "batch_world \<Rightarrow> rat" where "frozen_in w = frozen_of (jd_bill (pw_db w)) 1"
definition balance_in :: "batch_world \<Rightarrow> rat" where "balance_in w = balance_of (jd_bill (pw_db w)) 1"
definition statuses_in :: "batch_world \<Rightarrow> string list" where "statuses_in w = map bj_status (jd_jobs (pw_db w))"

text \<open>The owner cancels after the job was created and before its hold is taken.\<close>

definition owner_cancels :: "batch_db \<Rightarrow> batch_db" where
  "owner_cancels db = pw_db (snd (cancel demo_sha True None True 1 7 ''b1'' (quiet db)))"

definition cancelled_early :: "(batch_error + batch_job) \<times> batch_world" where
  "cancelled_early = submit demo_sha True (Submitted ''job'' []) 0 (demo_request ''b1'' [])
     \<lparr>pw_db = demo_batch_db, pw_env = [[], [owner_cancels]], pw_faults = []\<rparr>"


text \<open>Two jobs of one user are settling; the statements of the first have failed four times.\<close>

definition settling_job :: "string \<Rightarrow> int \<Rightarrow> batch_job" where
  "settling_job b retries = (job_of_request (demo_request b []))\<lparr>bj_status := StatusSettling, bj_provider_job := Some ''job'',
     bj_success := 1, bj_fail := 1, bj_retry := retries,
     bj_error_code := (if retries = 0 then None else Some ''SETTLEMENT_BILLING_FAILED'')\<rparr>"

definition two_settling :: batch_db where
  "two_settling = \<lparr>jd_bill = demo_bill_db\<lparr>
       bd_users := [1 \<mapsto> \<lparr>bu_balance = 4, bu_frozen = 6, bu_deleted = False\<rparr>],
       bd_dedup := [(''batch_image_hold:b1'', 7) \<mapsto> (''fp'', 0), (''batch_image_hold:b2'', 7) \<mapsto> (''fp'', 0)]\<rparr>,
     jd_jobs = [settling_job ''b1'' 4, settling_job ''b2'' 0], jd_now = 0\<rparr>"

definition capture_unacknowledged :: "(batch_error + rat option) \<times> batch_world" where
  "capture_unacknowledged = settle demo_sha (\<lambda>_. None) ''b1'' \<lparr>pw_db = two_settling, pw_env = [], pw_faults = [Fine, AckLost]\<rparr>"


text \<open>Two submissions with one idempotency key: the second runs after the first has looked the key up.\<close>

definition second_submission :: "batch_db \<Rightarrow> batch_db" where
  "second_submission db = pw_db (snd (submit demo_sha True (Submitted ''job2'' []) 0 (demo_request ''b2'' ''k'') (quiet db)))"

definition submitted_twice :: "(batch_error + batch_job) \<times> batch_world" where
  "submitted_twice = submit demo_sha True (Submitted ''job1'' []) 0 (demo_request ''b1'' ''k'')
     \<lparr>pw_db = demo_batch_db, pw_env = [[], [second_submission]], pw_faults = []\<rparr>"

text \<open>An idempotency key does not keep two submissions apart. The key is looked up before the job is
  created and no index makes it unique: two submissions of the same request under the same key that overlap
  both create a job, both take a hold and both reach the provider.\<close>

theorem same_key_submits_twice:
  "statuses_in (snd submitted_twice) = [StatusSubmitted, StatusSubmitted] \<and>
   map bj_idempotency_key (jd_jobs (pw_db (snd submitted_twice))) = [Some ''k'', Some ''k''] \<and>
   map bj_request_hash (jd_jobs (pw_db (snd submitted_twice))) = [Some ''h'', Some ''h''] \<and>
   frozen_in (snd submitted_twice) = 6"
  by code_simp

text \<open>Sequentially, the second submission gets the job of the first.\<close>

lemma same_key_sequential:
  "jd_jobs (second_submission (second_submission demo_batch_db)) = jd_jobs (second_submission demo_batch_db)"
  by code_simp

section \<open>Witnesses\<close>

lemma demo_plain_id: "plain_id ''b1''"
  by code_simp

lemma demo_scaled: "scaled (jd_bill demo_batch_db)" "scaled (jd_bill two_settling)"
  by (auto simp: scaled_def demo_batch_db_def two_settling_def demo_bill_db_def balance_of_def frozen_of_def quota_used_of_def)

lemma numeric10_int [simp]: "numeric10 (numeral n) = numeral n"
  unfolding numeric10_def by (rule dec_round_fix [of _ _ "numeral n * 10 ^ 10"]) simp

lemma demo_acceptable: "acceptable (pw_db (quiet demo_batch_db)) (demo_request ''b1'' [])"
  using demo_plain_id demo_scaled
  by (simp add: acceptable_def Let_def quiet_def demo_request_def demo_price_def is_supported_batch_image_provider_def
      demo_batch_db_def job_at_def held_def released_def claimed_def batch_image_hold_claim_exists_def demo_bill_db_def live_user_def)

lemma quiet_calm: "calm (quiet db)"
  by (simp add: calm_def quiet_def)


lemma demo_settleable: "settleable (pw_db (quiet two_settling)) (settling_job ''b1'' 4)"
proof -
  have s: "scaled (jd_bill (pw_db (quiet two_settling)))" using demo_scaled by (simp add: quiet_def)
  have p: "plain_id (bj_batch (settling_job ''b1'' 4))" using demo_plain_id by (simp add: settling_job_def job_of_request_def demo_request_def)
  have e: "\<not> is_settlement_retry_exhausted (settling_job ''b1'' 4)" by code_simp
  have c: "\<not> job_captured (settling_job ''b1'' 4) (jd_bill (pw_db (quiet two_settling)))" by code_simp
  show ?thesis using s p e c
    by (simp add: settleable_def)
      (simp add: quiet_def two_settling_def job_at_def settling_job_def job_of_request_def demo_request_def good_job_def
        held_amount_def demo_price_def live_user_def)
qed


end
