(* ===== verification/Idem_Repo.thy ===== *)
theory Idem_Repo
  imports Prelude
begin

text \<open>
  The store of idempotency records: the interface \<open>IdempotencyRepository\<close> of
  \<open>service/idempotency.go\<close> as a record of operations and as a locale with its laws, and the
  SQL repository of \<open>repository/idempotency_repo.go\<close> that provides it. A table is the list
  of its rows; every statement is atomic and may fail as the fault schedule says.
\<close>

section \<open>Records and statuses\<close>

definition StatusProcessing :: string where "StatusProcessing = ''processing''"
definition StatusSucceeded :: string where "StatusSucceeded = ''succeeded''"
definition StatusFailedRetryable :: string where "StatusFailedRetryable = ''failed_retryable''"

lemma idem_status_distinct [status_simps, simp]:
  "StatusProcessing \<noteq> StatusSucceeded" "StatusSucceeded \<noteq> StatusProcessing"
  "StatusProcessing \<noteq> StatusFailedRetryable" "StatusFailedRetryable \<noteq> StatusProcessing"
  "StatusSucceeded \<noteq> StatusFailedRetryable" "StatusFailedRetryable \<noteq> StatusSucceeded"
  by (simp_all add: StatusProcessing_def StatusSucceeded_def StatusFailedRetryable_def)

record idem_record =
  ir_id :: int
  ir_scope :: string
  ir_key_hash :: string
  ir_fingerprint :: string
  ir_status :: string
  ir_response_status :: "int option"
  ir_response_body :: "string option"
  ir_error_reason :: "string option"
  ir_locked_until :: "gotime option"
  ir_expires_at :: gotime
  ir_created_at :: gotime
  ir_updated_at :: gotime

record 's idem_repo =
  create_processing :: "idem_record \<Rightarrow> 's \<Rightarrow> (bool \<times> idem_record) answer \<times> 's"
  get_by_scope_and_key_hash :: "string \<Rightarrow> string \<Rightarrow> 's \<Rightarrow> idem_record option answer \<times> 's"
  try_reclaim :: "int \<Rightarrow> string \<Rightarrow> gotime \<Rightarrow> gotime \<Rightarrow> gotime \<Rightarrow> 's \<Rightarrow> bool answer \<times> 's"
  extend_processing_lock :: "int \<Rightarrow> string \<Rightarrow> gotime \<Rightarrow> gotime \<Rightarrow> 's \<Rightarrow> bool answer \<times> 's"
  mark_succeeded :: "int \<Rightarrow> int \<Rightarrow> string \<Rightarrow> gotime \<Rightarrow> 's \<Rightarrow> unit answer \<times> 's"
  mark_failed_retryable :: "int \<Rightarrow> string \<Rightarrow> gotime \<Rightarrow> gotime \<Rightarrow> 's \<Rightarrow> unit answer \<times> 's"
  delete_expired :: "gotime \<Rightarrow> int \<Rightarrow> 's \<Rightarrow> int answer \<times> 's"

section \<open>What a statement does to one row\<close>

definition reclaim_guard :: "int \<Rightarrow> string \<Rightarrow> gotime \<Rightarrow> idem_record \<Rightarrow> bool" where
  "reclaim_guard rid from now r \<longleftrightarrow>
     ir_id r = rid \<and> ir_status r = from \<and>
     (case ir_locked_until r of None \<Rightarrow> True | Some l \<Rightarrow> l \<le> now)"

definition reclaim_row :: "gotime \<Rightarrow> gotime \<Rightarrow> gotime \<Rightarrow> idem_record \<Rightarrow> idem_record" where
  "reclaim_row lu ea clock r =
     r\<lparr>ir_status := StatusProcessing, ir_locked_until := Some lu, ir_error_reason := None,
       ir_updated_at := clock, ir_expires_at := ea\<rparr>"

definition extend_guard :: "int \<Rightarrow> string \<Rightarrow> idem_record \<Rightarrow> bool" where
  "extend_guard rid fp r \<longleftrightarrow>
     ir_id r = rid \<and> ir_status r = StatusProcessing \<and> ir_fingerprint r = fp"

definition extend_row :: "gotime \<Rightarrow> gotime \<Rightarrow> gotime \<Rightarrow> idem_record \<Rightarrow> idem_record" where
  "extend_row lu ea clock r =
     r\<lparr>ir_locked_until := Some lu, ir_expires_at := ea, ir_updated_at := clock\<rparr>"

definition succeed_row :: "int \<Rightarrow> string \<Rightarrow> gotime \<Rightarrow> gotime \<Rightarrow> idem_record \<Rightarrow> idem_record" where
  "succeed_row code body ea clock r =
     r\<lparr>ir_status := StatusSucceeded, ir_response_status := Some code, ir_response_body := Some body,
       ir_error_reason := None, ir_locked_until := None, ir_expires_at := ea, ir_updated_at := clock\<rparr>"

definition fail_row :: "string \<Rightarrow> gotime \<Rightarrow> gotime \<Rightarrow> gotime \<Rightarrow> idem_record \<Rightarrow> idem_record" where
  "fail_row reason lu ea clock r =
     r\<lparr>ir_status := StatusFailedRetryable, ir_error_reason := Some reason,
       ir_locked_until := Some lu, ir_expires_at := ea, ir_updated_at := clock\<rparr>"

lemmas row_defs = reclaim_row_def extend_row_def succeed_row_def fail_row_def

section \<open>The SQL repository\<close>

record idem_db =
  db_rows :: "idem_record list"
  db_next_id :: int
  db_clock :: gotime
  db_faults :: faults

definition run_stmt :: "(idem_db \<Rightarrow> 'a \<times> idem_db) \<Rightarrow> idem_db \<Rightarrow> 'a answer \<times> idem_db" where
  "run_stmt f s =
     (let (flt, fs) = next_fault (db_faults s); s0 = s\<lparr>db_faults := fs\<rparr>
      in case flt of
           Fine \<Rightarrow> (let (a, s') = f s0 in (DbOk a, s'))
         | Refused \<Rightarrow> (DbErr, s0)
         | AckLost \<Rightarrow> (DbErr, snd (f s0)))"

definition update_where ::
  "(idem_record \<Rightarrow> bool) \<Rightarrow> (idem_record \<Rightarrow> idem_record) \<Rightarrow> idem_record list \<Rightarrow> idem_record list" where
  "update_where p f rows = map (\<lambda>r. if p r then f r else r) rows"

definition find_row :: "string \<Rightarrow> string \<Rightarrow> idem_record list \<Rightarrow> idem_record option" where
  "find_row scope hash rows = find (\<lambda>r. ir_scope r = scope \<and> ir_key_hash r = hash) rows"

definition create_stmt :: "idem_record \<Rightarrow> idem_db \<Rightarrow> (bool \<times> idem_record) \<times> idem_db" where
  "create_stmt rec s = (let s1 = s\<lparr>db_next_id := db_next_id s + 1\<rparr>
     in case find_row (ir_scope rec) (ir_key_hash rec) (db_rows s) of
          Some _ \<Rightarrow> ((False, rec), s1)
        | None \<Rightarrow>
            let row = rec\<lparr>ir_id := db_next_id s, ir_response_status := None,
                  ir_response_body := None, ir_error_reason := None,
                  ir_created_at := db_clock s, ir_updated_at := db_clock s\<rparr>
            in ((True, rec\<lparr>ir_id := db_next_id s, ir_created_at := db_clock s,
                   ir_updated_at := db_clock s\<rparr>),
                s1\<lparr>db_rows := db_rows s @ [row]\<rparr>))"

definition sql_create_processing ::
  "idem_record \<Rightarrow> idem_db \<Rightarrow> (bool \<times> idem_record) answer \<times> idem_db" where
  "sql_create_processing record = run_stmt (create_stmt record)"

definition sql_get_by_scope_and_key_hash ::
  "string \<Rightarrow> string \<Rightarrow> idem_db \<Rightarrow> idem_record option answer \<times> idem_db" where
  "sql_get_by_scope_and_key_hash scope hash =
     run_stmt (\<lambda>s. (find_row scope hash (db_rows s), s))"

definition sql_try_reclaim ::
  "int \<Rightarrow> string \<Rightarrow> gotime \<Rightarrow> gotime \<Rightarrow> gotime \<Rightarrow> idem_db \<Rightarrow> bool answer \<times> idem_db" where
  "sql_try_reclaim rid from now lu ea = run_stmt (\<lambda>s.
     (list_ex (reclaim_guard rid from now) (db_rows s),
      s\<lparr>db_rows := update_where (reclaim_guard rid from now)
                     (reclaim_row lu ea (db_clock s)) (db_rows s)\<rparr>))"

definition sql_extend_processing_lock ::
  "int \<Rightarrow> string \<Rightarrow> gotime \<Rightarrow> gotime \<Rightarrow> idem_db \<Rightarrow> bool answer \<times> idem_db" where
  "sql_extend_processing_lock rid fp lu ea = run_stmt (\<lambda>s.
     (list_ex (extend_guard rid fp) (db_rows s),
      s\<lparr>db_rows := update_where (extend_guard rid fp) (extend_row lu ea (db_clock s)) (db_rows s)\<rparr>))"

definition sql_mark_succeeded ::
  "int \<Rightarrow> int \<Rightarrow> string \<Rightarrow> gotime \<Rightarrow> idem_db \<Rightarrow> unit answer \<times> idem_db" where
  "sql_mark_succeeded rid code body ea = run_stmt (\<lambda>s.
     ((), s\<lparr>db_rows := update_where (\<lambda>r. ir_id r = rid)
                         (succeed_row code body ea (db_clock s)) (db_rows s)\<rparr>))"

definition sql_mark_failed_retryable ::
  "int \<Rightarrow> string \<Rightarrow> gotime \<Rightarrow> gotime \<Rightarrow> idem_db \<Rightarrow> unit answer \<times> idem_db" where
  "sql_mark_failed_retryable rid reason lu ea = run_stmt (\<lambda>s.
     ((), s\<lparr>db_rows := update_where (\<lambda>r. ir_id r = rid)
                         (fail_row reason lu ea (db_clock s)) (db_rows s)\<rparr>))"

definition sql_delete_expired :: "gotime \<Rightarrow> int \<Rightarrow> idem_db \<Rightarrow> int answer \<times> idem_db" where
  "sql_delete_expired now limit = run_stmt (\<lambda>s.
     let n = (if limit \<le> 0 then 500 else limit);
         victims = map ir_id (take (nat n)
           (sort_key ir_expires_at (filter (\<lambda>r. ir_expires_at r \<le> now) (db_rows s))));
         gone = filter (\<lambda>r. ir_id r \<in> set victims) (db_rows s)
     in (int (length gone),
         s\<lparr>db_rows := filter (\<lambda>r. ir_id r \<notin> set victims) (db_rows s)\<rparr>))"

definition sql_repo :: "idem_db idem_repo" where
  "sql_repo = \<lparr>create_processing = sql_create_processing,
     get_by_scope_and_key_hash = sql_get_by_scope_and_key_hash,
     try_reclaim = sql_try_reclaim, extend_processing_lock = sql_extend_processing_lock,
     mark_succeeded = sql_mark_succeeded, mark_failed_retryable = sql_mark_failed_retryable,
     delete_expired = sql_delete_expired\<rparr>"

lemmas sql_defs [step_defs] =
  sql_create_processing_def sql_get_by_scope_and_key_hash_def sql_try_reclaim_def
  sql_extend_processing_lock_def sql_mark_succeeded_def sql_mark_failed_retryable_def
  sql_delete_expired_def

lemma sql_repo_simps [simp]:
  "create_processing sql_repo = sql_create_processing"
  "get_by_scope_and_key_hash sql_repo = sql_get_by_scope_and_key_hash"
  "try_reclaim sql_repo = sql_try_reclaim"
  "extend_processing_lock sql_repo = sql_extend_processing_lock"
  "mark_succeeded sql_repo = sql_mark_succeeded"
  "mark_failed_retryable sql_repo = sql_mark_failed_retryable"
  "delete_expired sql_repo = sql_delete_expired"
  by (simp_all add: sql_repo_def)


section \<open>The contract of a repository\<close>

text \<open>
  \<open>look s scope hash\<close> is the record a state stores under a key. The laws say what each
  answer means for the records; every operation keeps \<open>ok\<close>, whether it fails or not.
\<close>

locale idem_store =
  fixes R :: "'s idem_repo"
    and look :: "'s \<Rightarrow> string \<Rightarrow> string \<Rightarrow> idem_record option"
    and ok :: "'s \<Rightarrow> bool"
    and clock :: "'s \<Rightarrow> gotime"
  assumes key_of: "ok s \<Longrightarrow> look s a h = Some r \<Longrightarrow> ir_scope r = a \<and> ir_key_hash r = h \<and> 0 < ir_id r"
    and id_inj: "ok s \<Longrightarrow> look s a h = Some r \<Longrightarrow> look s a' h' = Some r' \<Longrightarrow> ir_id r = ir_id r' \<Longrightarrow> r = r'"
    and create_new: "ok s \<Longrightarrow> create_processing R rec s = (DbOk (True, rec'), s') \<Longrightarrow>
        look s (ir_scope rec) (ir_key_hash rec) = None \<and>
        (\<exists>i > 0. rec' = rec\<lparr>ir_id := i, ir_created_at := clock s, ir_updated_at := clock s\<rparr> \<and>
           look s' = (look s)(ir_scope rec := (look s (ir_scope rec))(ir_key_hash rec \<mapsto>
             rec'\<lparr>ir_response_status := None, ir_response_body := None, ir_error_reason := None\<rparr>)))"
    and create_old: "ok s \<Longrightarrow> create_processing R rec s = (DbOk (False, rec'), s') \<Longrightarrow>
        look s (ir_scope rec) (ir_key_hash rec) \<noteq> None \<and> rec' = rec \<and> look s' = look s"
    and create_keeps: "ok s \<Longrightarrow> create_processing R rec s = (ans1, s') \<Longrightarrow> look s a h = Some r \<Longrightarrow> look s' a h = Some r"
    and get_same: "get_by_scope_and_key_hash R a h s = (ans, s') \<Longrightarrow> look s' = look s"
    and get_value: "get_by_scope_and_key_hash R a h s = (DbOk x, s') \<Longrightarrow> x = look s a h"
    and reclaim_look: "ok s \<Longrightarrow> try_reclaim R i from now lu ea s = (DbOk b, s') \<Longrightarrow>
        look s' a h = map_option (\<lambda>r. if reclaim_guard i from now r then reclaim_row lu ea (clock s) r else r) (look s a h)"
    and reclaim_value: "ok s \<Longrightarrow> try_reclaim R i from now lu ea s = (DbOk b, s') \<Longrightarrow>
        b = (\<exists>a h r. look s a h = Some r \<and> reclaim_guard i from now r)"
    and extend_look: "ok s \<Longrightarrow> extend_processing_lock R i fp lu ea s = (DbOk b, s') \<Longrightarrow>
        look s' a h = map_option (\<lambda>r. if extend_guard i fp r then extend_row lu ea (clock s) r else r) (look s a h)"
    and extend_value: "ok s \<Longrightarrow> extend_processing_lock R i fp lu ea s = (DbOk b, s') \<Longrightarrow>
        b = (\<exists>a h r. look s a h = Some r \<and> extend_guard i fp r)"
    and extend_any: "ok s \<Longrightarrow> extend_processing_lock R i fp lu ea s = (ans3, s') \<Longrightarrow>
        look s' a h = look s a h \<or>
        look s' a h = map_option (\<lambda>r. if extend_guard i fp r then extend_row lu ea (clock s) r else r) (look s a h)"
    and succeed_look: "ok s \<Longrightarrow> mark_succeeded R i code body ea s = (DbOk u, s') \<Longrightarrow>
        look s' a h = map_option (\<lambda>r. if ir_id r = i then succeed_row code body ea (clock s) r else r) (look s a h)"
    and fail_look: "ok s \<Longrightarrow> mark_failed_retryable R i reason lu ea s = (DbOk u, s') \<Longrightarrow>
        look s' a h = map_option (\<lambda>r. if ir_id r = i then fail_row reason lu ea (clock s) r else r) (look s a h)"
    and delete_only: "ok s \<Longrightarrow> delete_expired R now n s = (ans5, s') \<Longrightarrow> look s' a h = Some r \<Longrightarrow> look s a h = Some r"
    and delete_keeps: "ok s \<Longrightarrow> delete_expired R now n s = (ans5, s') \<Longrightarrow> look s a h = Some r \<Longrightarrow>
        now < ir_expires_at r \<Longrightarrow> look s' a h = Some r"
    and ok_create: "ok s \<Longrightarrow> create_processing R rec s = (ans1, s') \<Longrightarrow> ok s'"
    and ok_get: "ok s \<Longrightarrow> get_by_scope_and_key_hash R a h s = (ans2, s') \<Longrightarrow> ok s'"
    and ok_reclaim: "ok s \<Longrightarrow> try_reclaim R i from now lu ea s = (ans3, s') \<Longrightarrow> ok s'"
    and ok_extend: "ok s \<Longrightarrow> extend_processing_lock R i fp lu ea s = (ans3, s') \<Longrightarrow> ok s'"
    and ok_succeed: "ok s \<Longrightarrow> mark_succeeded R i code body ea s = (ans4, s') \<Longrightarrow> ok s'"
    and ok_fail: "ok s \<Longrightarrow> mark_failed_retryable R i reason lu ea s = (ans4, s') \<Longrightarrow> ok s'"
    and ok_delete: "ok s \<Longrightarrow> delete_expired R now n s = (ans5, s') \<Longrightarrow> ok s'"

section \<open>The SQL repository keeps the contract\<close>

definition row_key :: "idem_record \<Rightarrow> string \<times> string" where
  "row_key r = (ir_scope r, ir_key_hash r)"

definition db_ok :: "idem_db \<Rightarrow> bool" where
  "db_ok s \<longleftrightarrow> distinct (map ir_id (db_rows s)) \<and> distinct (map row_key (db_rows s)) \<and>
     (\<forall>r \<in> set (db_rows s). 0 < ir_id r \<and> ir_id r < db_next_id s) \<and> 0 < db_next_id s"

definition db_look :: "idem_db \<Rightarrow> string \<Rightarrow> string \<Rightarrow> idem_record option" where
  "db_look s scope hash = find_row scope hash (db_rows s)"

lemma find_row_map:
  assumes "\<And>r. row_key (g r) = row_key r"
  shows "find_row a h (map g rows) = map_option g (find_row a h rows)"
  using assms by (induction rows) (auto simp: find_row_def row_key_def)

lemma find_row_append:
  "find_row a h (xs @ ys) = (case find_row a h xs of None \<Rightarrow> find_row a h ys | Some r \<Rightarrow> Some r)"
  by (induction xs) (auto simp: find_row_def)

lemma find_row_Some: "find_row a h rows = Some r \<Longrightarrow> r \<in> set rows \<and> row_key r = (a, h)"
  by (auto simp: find_row_def row_key_def find_Some_iff)

lemma find_row_None: "find_row a h rows = None \<longleftrightarrow> (a, h) \<notin> row_key ` set rows"
  by (auto simp: find_row_def row_key_def find_None_iff)

lemma find_row_mem:
  "distinct (map row_key rows) \<Longrightarrow> r \<in> set rows \<Longrightarrow> find_row (ir_scope r) (ir_key_hash r) rows = Some r"
  by (induction rows) (auto simp: find_row_def row_key_def image_iff)

lemma find_row_filter:
  "distinct (map row_key rows) \<Longrightarrow>
   find_row a h (filter P rows) = (case find_row a h rows of None \<Rightarrow> None | Some r \<Rightarrow> if P r then Some r else None)"
proof (induction rows)
  case (Cons x rows)
  then show ?case
    using find_row_None [of a h "filter P rows"]
    by (auto simp: find_row_def row_key_def image_iff split: option.splits)
qed (simp add: find_row_def)

lemma run_stmt_cases:
  assumes "run_stmt f s = (ans, s')"
  shows "\<exists>fs. (ans = DbOk (fst (f (s\<lparr>db_faults := fs\<rparr>))) \<and> s' = snd (f (s\<lparr>db_faults := fs\<rparr>))) \<or>
    (ans = DbErr \<and> (s' = s\<lparr>db_faults := fs\<rparr> \<or> s' = snd (f (s\<lparr>db_faults := fs\<rparr>))))"
proof -
  obtain flt fs where nf: "next_fault (db_faults s) = (flt, fs)" by (cases "next_fault (db_faults s)")
  obtain a t where ft: "f (s\<lparr>db_faults := fs\<rparr>) = (a, t)" by (cases "f (s\<lparr>db_faults := fs\<rparr>)")
  show ?thesis
    by (rule exI [of _ fs]) (use assms nf ft in \<open>cases flt; simp add: run_stmt_def\<close>)
qed

lemma run_stmtE:
  assumes "run_stmt f s = (ans, s')"
  obtains (Done) fs where "ans = DbOk (fst (f (s\<lparr>db_faults := fs\<rparr>)))" "s' = snd (f (s\<lparr>db_faults := fs\<rparr>))"
    | (NotRun) fs where "ans = DbErr" "s' = s\<lparr>db_faults := fs\<rparr>"
    | (Lost) fs where "ans = DbErr" "s' = snd (f (s\<lparr>db_faults := fs\<rparr>))"
  using run_stmt_cases [OF assms] by blast

lemma row_key_rows [simp]:
  "row_key (reclaim_row lu ea c r) = row_key r" "row_key (extend_row lu ea c r) = row_key r"
  "row_key (succeed_row code body ea c r) = row_key r" "row_key (fail_row reason lu ea c r) = row_key r"
  by (simp_all add: row_key_def row_defs)

lemma ir_id_rows [simp]:
  "ir_id (reclaim_row lu ea c r) = ir_id r" "ir_id (extend_row lu ea c r) = ir_id r"
  "ir_id (succeed_row code body ea c r) = ir_id r" "ir_id (fail_row reason lu ea c r) = ir_id r"
  by (simp_all add: row_defs)

lemma db_ok_faults [simp]: "db_ok (s\<lparr>db_faults := fs\<rparr>) = db_ok s"
  by (simp add: db_ok_def)

lemma db_look_faults [simp]: "db_look (s\<lparr>db_faults := fs\<rparr>) = db_look s"
  by (simp add: db_look_def fun_eq_iff)

lemma db_ok_update:
  assumes "db_ok s" "\<And>r. row_key (f r) = row_key r" "\<And>r. ir_id (f r) = ir_id r" "rows = db_rows s"
  shows "db_ok (s\<lparr>db_rows := update_where p f rows\<rparr>)"
proof -
  have "map ir_id (update_where p f (db_rows s)) = map ir_id (db_rows s)"
    "map row_key (update_where p f (db_rows s)) = map row_key (db_rows s)"
    using assms(2,3) by (auto simp: update_where_def)
  moreover have "\<forall>r \<in> set (update_where p f (db_rows s)). 0 < ir_id r \<and> ir_id r < db_next_id s"
    using assms(1,3) by (auto simp: update_where_def db_ok_def)
  ultimately show ?thesis
    using assms(1) by (simp add: db_ok_def assms(4))
qed

lemma find_row_update:
  assumes "\<And>r. row_key (f r) = row_key r"
  shows "find_row a h (update_where p f rows) = map_option (\<lambda>r. if p r then f r else r) (find_row a h rows)"
  unfolding update_where_def using assms by (subst find_row_map) simp_all

lemma find_row_update_map:
  assumes "\<And>r. row_key (f r) = row_key r" "\<And>r. g (f r) = g r"
  shows "map_option g (find_row a h (update_where p f rows)) = map_option g (find_row a h rows)"
  using assms by (cases "find_row a h rows") (auto simp: find_row_update)

lemma db_rows_look: "db_ok s \<Longrightarrow> list_ex P (db_rows s) \<longleftrightarrow> (\<exists>a h r. db_look s a h = Some r \<and> P r)"
  unfolding db_look_def db_ok_def list_ex_iff using find_row_mem find_row_Some by metis

lemma db_ok_create:
  assumes "db_ok s" "find_row (ir_scope rec) (ir_key_hash rec) (db_rows s) = None"
    "ir_id row = db_next_id s" "row_key row = row_key rec"
  shows "db_ok (s\<lparr>db_next_id := db_next_id s + 1, db_rows := db_rows s @ [row]\<rparr>)"
  using assms by (fastforce simp: db_ok_def find_row_None row_key_def)

lemma create_stmt_ok:
  assumes "db_ok s"
  shows "db_ok (snd (create_stmt rec s))"
proof (cases "find_row (ir_scope rec) (ir_key_hash rec) (db_rows s)")
  case None
  with db_ok_create [OF assms None] show ?thesis
    by (simp add: create_stmt_def Let_def row_key_def)
next
  case (Some r)
  with assms show ?thesis by (auto simp: create_stmt_def Let_def db_ok_def)
qed

lemma db_ok_filter: "db_ok s \<Longrightarrow> db_ok (s\<lparr>db_rows := filter P (db_rows s)\<rparr>)"
  by (auto simp: db_ok_def distinct_map_filter)

lemma sql_delete_look:
  assumes "db_ok s" "sql_delete_expired now n s = (ans, s')"
  shows "db_ok s' \<and> (db_look s' a h = db_look s a h \<or>
    db_look s' a h = None \<and> (\<exists>r. db_look s a h = Some r \<and> ir_expires_at r \<le> now))"
proof -
  define victims where "victims = map ir_id (take (nat (if n \<le> 0 then 500 else n))
    (sort_key ir_expires_at (filter (\<lambda>r. ir_expires_at r \<le> now) (db_rows s))))"
  have dist: "distinct (map row_key (db_rows s))" and ids: "inj_on ir_id (set (db_rows s))"
    using assms(1) by (auto simp: db_ok_def distinct_map)
  have expired: "ir_expires_at r \<le> now" if "r \<in> set (db_rows s)" "ir_id r \<in> set victims" for r
    using that ids by (auto simp: victims_def dest!: in_set_takeD dest: inj_onD)
  let ?t = "s\<lparr>db_rows := filter (\<lambda>r. ir_id r \<notin> set victims) (db_rows s)\<rparr>"
  have step: "db_look ?t a h = db_look s a h \<or> db_look ?t a h = None \<and> (\<exists>r. db_look s a h = Some r \<and> ir_expires_at r \<le> now)"
    using expired by (auto simp: db_look_def find_row_filter [OF dist] dest!: find_row_Some split: option.splits)
  have stmt: "snd (let m = (if n \<le> 0 then 500 else n);
         victims = map ir_id (take (nat m)
           (sort_key ir_expires_at (filter (\<lambda>r. ir_expires_at r \<le> now) (db_rows t))));
         gone = filter (\<lambda>r. ir_id r \<in> set victims) (db_rows t)
     in (int (length gone), t\<lparr>db_rows := filter (\<lambda>r. ir_id r \<notin> set victims) (db_rows t)\<rparr>))
     = t\<lparr>db_rows := filter (\<lambda>r. ir_id r \<notin> set victims) (db_rows t)\<rparr>"
    if "db_rows t = db_rows s" for t
    by (simp add: Let_def victims_def that)
  have "db_ok s' \<and> (db_look s' a h = db_look s a h \<or> db_look s' a h = db_look ?t a h)"
    using assms(2) unfolding sql_delete_expired_def
  proof (cases rule: run_stmtE)
    case (Done fs)
    with assms(1) stmt [of "s\<lparr>db_faults := fs\<rparr>"] show ?thesis
      using db_ok_filter [of "s\<lparr>db_faults := fs\<rparr>"] by (simp add: db_look_def)
  next
    case (NotRun fs)
    with assms(1) show ?thesis by simp
  next
    case (Lost fs)
    with assms(1) stmt [of "s\<lparr>db_faults := fs\<rparr>"] show ?thesis
      using db_ok_filter [of "s\<lparr>db_faults := fs\<rparr>"] by (simp add: db_look_def)
  qed
  with step show ?thesis by auto
qed

interpretation sql: idem_store sql_repo db_look db_ok db_clock
proof (unfold_locales, goal_cases)
  case (1 s a h r) then show ?case
    by (auto simp: db_ok_def db_look_def row_key_def dest!: find_row_Some)
next
  case (2 s a h r a' h' r') then show ?case
    by (auto simp: db_ok_def db_look_def distinct_map inj_on_def dest!: find_row_Some)
next
  case (3 s rec rec' s') then show ?case
    by (auto simp: sql_create_processing_def create_stmt_def Let_def db_look_def find_row_append fun_eq_iff db_ok_def
        elim!: run_stmtE split: option.splits) (auto simp: find_row_def)
next
  case (4 s rec rec' s') then show ?case
    by (auto simp: sql_create_processing_def create_stmt_def Let_def db_look_def fun_eq_iff
        elim!: run_stmtE split: option.splits)
next
  case (5 s rec ans s' a h r) then show ?case
    by (auto simp: sql_create_processing_def create_stmt_def Let_def db_look_def find_row_append
        elim!: run_stmtE split: option.splits)
next
  case (6 a h s ans s') then show ?case
    by (auto simp: sql_get_by_scope_and_key_hash_def elim!: run_stmtE)
next
  case (7 a h s x s') then show ?case
    by (auto simp: sql_get_by_scope_and_key_hash_def db_look_def elim!: run_stmtE)
next
  case (8 s i st now lu ea b s' a h) then show ?case
    by (auto simp: sql_try_reclaim_def db_look_def find_row_update elim!: run_stmtE)
next
  case (9 s i st now lu ea b s') then show ?case
    by (auto simp: sql_try_reclaim_def db_rows_look elim!: run_stmtE)
next
  case (10 s i fp lu ea b s' a h) then show ?case
    by (auto simp: sql_extend_processing_lock_def db_look_def find_row_update elim!: run_stmtE)
next
  case (11 s i fp lu ea b s') then show ?case
    by (auto simp: sql_extend_processing_lock_def db_rows_look elim!: run_stmtE)
next
  case (12 s i fp lu ea ans s' a h) then show ?case
    by (auto simp: sql_extend_processing_lock_def db_look_def find_row_update elim!: run_stmtE)
next
  case (13 s i code body ea u s' a h) then show ?case
    by (auto simp: sql_mark_succeeded_def db_look_def find_row_update elim!: run_stmtE)
next
  case (14 s i reason lu ea u s' a h) then show ?case
    by (auto simp: sql_mark_failed_retryable_def db_look_def find_row_update elim!: run_stmtE)
next
  case (15 s now n ans s' a h r) then show ?case
    using sql_delete_look [of s now n ans s' a h] by auto
next
  case (16 s now n ans s' a h r) then show ?case
    using sql_delete_look [of s now n ans s' a h] by auto
next
  case (17 s rec ans s') then show ?case
    by (auto simp: sql_create_processing_def elim!: run_stmtE intro: create_stmt_ok)
next
  case (18 s a h ans s') then show ?case
    by (auto simp: sql_get_by_scope_and_key_hash_def elim!: run_stmtE)
next
  case (19 s i st now lu ea ans s') then show ?case
    by (auto simp: sql_try_reclaim_def elim!: run_stmtE intro!: db_ok_update)
next
  case (20 s i fp lu ea ans s') then show ?case
    by (auto simp: sql_extend_processing_lock_def elim!: run_stmtE intro!: db_ok_update)
next
  case (21 s i code body ea ans s') then show ?case
    by (auto simp: sql_mark_succeeded_def elim!: run_stmtE intro!: db_ok_update)
next
  case (22 s i reason lu ea ans s') then show ?case
    by (auto simp: sql_mark_failed_retryable_def elim!: run_stmtE intro!: db_ok_update)
next
  case (23 s now n ans s') then show ?case
    using sql_delete_look [of s now n ans s'] by auto
qed

end
