(* ===== verification/Idempotency.thy ===== *)
theory Idempotency
  imports Idem_Repo
begin

text \<open>
  The idempotency coordinator of \<open>service/idempotency.go\<close>: key normalisation, the claim of a
  key, the execution under a lease, and the stored result. \<open>Execute\<close> is cut at the points
  where the code branches on a repository answer; every early return is a branch. Logging and
  metrics are left out. What the code takes from its libraries (SHA-256, JSON, the log redactor)
  is the argument \<open>lib\<close>; the guarded operation is a function on a world of its own.
\<close>

section \<open>Configuration, options, errors\<close>

record idem_config =
  cfg_default_ttl :: duration
  cfg_system_operation_ttl :: duration
  cfg_processing_timeout :: duration
  cfg_failed_retry_backoff :: duration
  cfg_max_stored_response_len :: int
  cfg_observe_only :: bool

definition default_idempotency_config :: idem_config where
  "default_idempotency_config =
     \<lparr>cfg_default_ttl = 24 * Hour, cfg_system_operation_ttl = 1 * Hour,
      cfg_processing_timeout = 30 * Second, cfg_failed_retry_backoff = 5 * Second,
      cfg_max_stored_response_len = 64 * 1024, cfg_observe_only = True\<rparr>"

record 'p idem_options =
  op_scope :: string
  op_actor_scope :: string
  op_method :: string
  op_route :: string
  op_key :: string
  op_payload :: 'p
  op_ttl :: duration
  op_require_key :: bool
  op_execution_timeout :: duration

record ('p, 'd) idem_lib =
  lib_sha256_hex :: "string \<Rightarrow> string"
  lib_marshal_payload :: "'p \<Rightarrow> string option"
  lib_marshal :: "'d \<Rightarrow> string option"
  lib_redact :: "string \<Rightarrow> string"
  lib_unmarshal :: "string \<Rightarrow> 'd option"
  lib_empty_object :: 'd

datatype 'e idem_error =
    KeyRequired | KeyInvalid | KeyConflict
  | InProgress "int option" | RetryBackoff "int option"
  | StoreUnavail | InvalidPayload | ScopeRequired | ExecutorNil
  | ExecutionFailed 'e

section \<open>Keys and fingerprints\<close>

definition normalize_idempotency_key :: "string \<Rightarrow> 'e idem_error + string" where
  "normalize_idempotency_key raw =
     (let key = trim_space raw
      in if key = [] then Inr []
         else if length key > 128 then Inl KeyInvalid
         else if list_ex (\<lambda>c. (of_char c :: nat) < 33 \<or> (of_char c :: nat) > 126) key then Inl KeyInvalid
         else Inr key)"

definition hash_idempotency_key :: "('p, 'd) idem_lib \<Rightarrow> string \<Rightarrow> string" where
  "hash_idempotency_key lib key = lib_sha256_hex lib key"

definition build_idempotency_fingerprint ::
  "('p, 'd) idem_lib \<Rightarrow> string \<Rightarrow> string \<Rightarrow> string \<Rightarrow> 'p \<Rightarrow> 'e idem_error + string" where
  "build_idempotency_fingerprint lib method route actor payload =
     (let method' = (if method = [] then ''POST'' else method);
          route' = (if route = [] then ''/'' else route);
          actor' = (if actor = [] then ''anonymous'' else actor)
      in case lib_marshal_payload lib payload of
           None \<Rightarrow> Inl InvalidPayload
         | Some raw \<Rightarrow> Inr (lib_sha256_hex lib
             (to_upper method' @ [CHR 0x0A] @ route' @ [CHR 0x0A] @ actor' @ [CHR 0x0A] @ raw)))"

section \<open>Stored responses\<close>

text \<open>\<open>utf8.ValidString\<close>, on the bytes as numbers.\<close>

definition cont_byte :: "nat \<Rightarrow> bool" where
  "cont_byte b \<longleftrightarrow> 128 \<le> b \<and> b \<le> 191"

fun utf8_valid :: "nat list \<Rightarrow> bool" where
  "utf8_valid [] = True"
| "utf8_valid (a # xs) =
     (if a < 128 then utf8_valid xs
      else case xs of
        [] \<Rightarrow> False
      | b # ys \<Rightarrow>
          if 194 \<le> a \<and> a \<le> 223 then cont_byte b \<and> utf8_valid ys
          else case ys of
            [] \<Rightarrow> False
          | c # zs \<Rightarrow>
              if 224 \<le> a \<and> a \<le> 239 then
                cont_byte b \<and> (a = 224 \<longrightarrow> 160 \<le> b) \<and> (a = 237 \<longrightarrow> b \<le> 159) \<and>
                cont_byte c \<and> utf8_valid zs
              else case zs of
                [] \<Rightarrow> False
              | d # ws \<Rightarrow>
                  240 \<le> a \<and> a \<le> 244 \<and> cont_byte b \<and> (a = 240 \<longrightarrow> 144 \<le> b) \<and>
                  (a = 244 \<longrightarrow> b \<le> 143) \<and> cont_byte c \<and> cont_byte d \<and> utf8_valid ws)"

definition valid_string :: "string \<Rightarrow> bool" where
  "valid_string s = utf8_valid (map of_char s)"

fun back_to_valid :: "string \<Rightarrow> nat \<Rightarrow> string" where
  "back_to_valid s 0 = []"
| "back_to_valid s (Suc n) = (if valid_string (take (Suc n) s) then take (Suc n) s else back_to_valid s n)"

definition truncate_utf8 :: "string \<Rightarrow> int \<Rightarrow> string" where
  "truncate_utf8 s max_bytes =
     (if max_bytes \<le> 0 \<or> int (length s) \<le> max_bytes then s else back_to_valid s (nat max_bytes))"

definition marshal_stored_response ::
  "('p, 'd) idem_lib \<Rightarrow> idem_config \<Rightarrow> 'd \<Rightarrow> string option" where
  "marshal_stored_response lib cfg data =
     (case lib_marshal lib data of
        None \<Rightarrow> None
      | Some raw \<Rightarrow>
          let redacted = lib_redact lib raw
          in if cfg_max_stored_response_len cfg > 0 \<and> int (length redacted) > cfg_max_stored_response_len cfg
             then Some (truncate_utf8 redacted (cfg_max_stored_response_len cfg) @ ''...(truncated)'')
             else Some redacted)"

definition decode_stored_response :: "('p, 'd) idem_lib \<Rightarrow> string option \<Rightarrow> 'd option" where
  "decode_stored_response lib stored =
     (case stored of
        None \<Rightarrow> Some (lib_empty_object lib)
      | Some s \<Rightarrow> if trim_space s = [] then Some (lib_empty_object lib) else lib_unmarshal lib s)"

section \<open>The claim\<close>

definition retry_after :: "gotime option \<Rightarrow> gotime \<Rightarrow> int option" where
  "retry_after locked_until now =
     (case locked_until of
        None \<Rightarrow> None
      | Some l \<Rightarrow> (let sec = whole_seconds (l - now) in Some (if sec \<le> 0 then 1 else sec)))"

datatype ('d, 'e) claim = ClaimErr "'e idem_error" | ClaimReplay 'd | Claimed int

text \<open>The \<open>switch existing.Status\<close> of a key that someone else created.\<close>

definition claim_by_status ::
  "'s idem_repo \<Rightarrow> ('p, 'd) idem_lib \<Rightarrow> gotime \<Rightarrow> gotime \<Rightarrow> gotime \<Rightarrow> idem_record \<Rightarrow> 's
     \<Rightarrow> ('d, 'e) claim \<times> 's" where
  "claim_by_status R lib now locked_until expires_at existing s =
     (if ir_status existing = StatusSucceeded then
        (case decode_stored_response lib (ir_response_body existing) of
           None \<Rightarrow> (ClaimErr StoreUnavail, s)
         | Some data \<Rightarrow> (ClaimReplay data, s))
      else if ir_status existing = StatusProcessing then
        (ClaimErr (InProgress (retry_after (ir_locked_until existing) now)), s)
      else if ir_status existing = StatusFailedRetryable then
        (if (case ir_locked_until existing of None \<Rightarrow> False | Some l \<Rightarrow> after l now)
         then (ClaimErr (RetryBackoff (retry_after (ir_locked_until existing) now)), s)
         else case try_reclaim R (ir_id existing) StatusFailedRetryable now locked_until expires_at s of
                (DbErr, s1) \<Rightarrow> (ClaimErr StoreUnavail, s1)
              | (DbOk False, s1) \<Rightarrow> (ClaimErr (InProgress (retry_after (ir_locked_until existing) now)), s1)
              | (DbOk True, s1) \<Rightarrow> (Claimed (ir_id existing), s1))
      else (ClaimErr KeyConflict, s))"

text \<open>The re-read after a lost race for an expired record.\<close>

definition claim_latest ::
  "'s idem_repo \<Rightarrow> ('p, 'd) idem_lib \<Rightarrow> string \<Rightarrow> string \<Rightarrow> string \<Rightarrow> gotime \<Rightarrow> gotime \<Rightarrow> gotime \<Rightarrow> 's
     \<Rightarrow> ('d, 'e) claim \<times> 's" where
  "claim_latest R lib scope key_hash fingerprint now locked_until expires_at s =
     (case get_by_scope_and_key_hash R scope key_hash s of
        (DbErr, s1) \<Rightarrow> (ClaimErr StoreUnavail, s1)
      | (DbOk None, s1) \<Rightarrow> (ClaimErr StoreUnavail, s1)
      | (DbOk (Some latest), s1) \<Rightarrow>
          if ir_fingerprint latest \<noteq> fingerprint then (ClaimErr KeyConflict, s1)
          else claim_by_status R lib now locked_until expires_at latest s1)"

definition claim_existing ::
  "'s idem_repo \<Rightarrow> ('p, 'd) idem_lib \<Rightarrow> string \<Rightarrow> string \<Rightarrow> string \<Rightarrow> gotime \<Rightarrow> gotime \<Rightarrow> gotime \<Rightarrow> 's
     \<Rightarrow> ('d, 'e) claim \<times> 's" where
  "claim_existing R lib scope key_hash fingerprint now locked_until expires_at s =
     (case get_by_scope_and_key_hash R scope key_hash s of
        (DbErr, s1) \<Rightarrow> (ClaimErr StoreUnavail, s1)
      | (DbOk None, s1) \<Rightarrow> (ClaimErr StoreUnavail, s1)
      | (DbOk (Some existing), s1) \<Rightarrow>
          if ir_fingerprint existing \<noteq> fingerprint then (ClaimErr KeyConflict, s1)
          else if \<not> after (ir_expires_at existing) now then
            (case try_reclaim R (ir_id existing) (ir_status existing) now locked_until expires_at s1 of
               (DbErr, s2) \<Rightarrow> (ClaimErr StoreUnavail, s2)
             | (DbOk True, s2) \<Rightarrow> (Claimed (ir_id existing), s2)
             | (DbOk False, s2) \<Rightarrow>
                 claim_latest R lib scope key_hash fingerprint now locked_until expires_at s2)
          else claim_by_status R lib now locked_until expires_at existing s1)"

definition new_record :: "string \<Rightarrow> string \<Rightarrow> string \<Rightarrow> gotime \<Rightarrow> gotime \<Rightarrow> idem_record" where
  "new_record scope key_hash fingerprint locked_until expires_at =
     \<lparr>ir_id = 0, ir_scope = scope, ir_key_hash = key_hash, ir_fingerprint = fingerprint,
      ir_status = StatusProcessing, ir_response_status = None, ir_response_body = None,
      ir_error_reason = None, ir_locked_until = Some locked_until, ir_expires_at = expires_at,
      ir_created_at = 0, ir_updated_at = 0\<rparr>"

definition claim_key ::
  "'s idem_repo \<Rightarrow> ('p, 'd) idem_lib \<Rightarrow> string \<Rightarrow> string \<Rightarrow> string \<Rightarrow> gotime \<Rightarrow> gotime \<Rightarrow> gotime \<Rightarrow> 's
     \<Rightarrow> ('d, 'e) claim \<times> 's" where
  "claim_key R lib scope key_hash fingerprint now locked_until expires_at s =
     (case create_processing R (new_record scope key_hash fingerprint locked_until expires_at) s of
        (DbErr, s1) \<Rightarrow> (ClaimErr StoreUnavail, s1)
      | (DbOk (True, record), s1) \<Rightarrow>
          (if ir_id record = 0 then ClaimErr StoreUnavail else Claimed (ir_id record), s1)
      | (DbOk (False, _), s1) \<Rightarrow>
          (case claim_existing R lib scope key_hash fingerprint now locked_until expires_at s1 of
             (Claimed i, s2) \<Rightarrow> (if i = 0 then ClaimErr StoreUnavail else Claimed i, s2)
           | (c, s2) \<Rightarrow> (c, s2)))"

section \<open>Execute\<close>

definition effective_ttl :: "idem_config \<Rightarrow> 'p idem_options \<Rightarrow> duration" where
  "effective_ttl cfg opts = (if op_ttl opts \<le> 0 then cfg_default_ttl cfg else op_ttl opts)"

definition renewal_lease :: "idem_config \<Rightarrow> duration" where
  "renewal_lease cfg =
     (if cfg_processing_timeout cfg \<le> 0 then cfg_processing_timeout default_idempotency_config
      else cfg_processing_timeout cfg)"

definition renewal_interval :: "idem_config \<Rightarrow> duration \<Rightarrow> duration" where
  "renewal_interval cfg ttl =
     (let interval = min (go_div (renewal_lease cfg) 3) (go_div ttl 3)
      in if interval < Millisecond then Millisecond else interval)"

text \<open>
  The renewal goroutine: one extension per tick that fires before it is stopped. An error skips
  the tick, an extension that matches no row ends the loop.
\<close>

fun renew_ticks ::
  "'s idem_repo \<Rightarrow> int \<Rightarrow> string \<Rightarrow> duration \<Rightarrow> duration \<Rightarrow> gotime list \<Rightarrow> 's \<Rightarrow> 's" where
  "renew_ticks R rid fp lease ttl [] s = s"
| "renew_ticks R rid fp lease ttl (now # ticks) s =
     (case extend_processing_lock R rid fp (now + lease) (now + ttl) s of
        (DbErr, s1) \<Rightarrow> renew_ticks R rid fp lease ttl ticks s1
      | (DbOk True, s1) \<Rightarrow> renew_ticks R rid fp lease ttl ticks s1
      | (DbOk False, s1) \<Rightarrow> s1)"

definition persist_outcome ::
  "'s idem_repo \<Rightarrow> ('p, 'd) idem_lib \<Rightarrow> idem_config \<Rightarrow> ('e \<Rightarrow> string) \<Rightarrow> int \<Rightarrow> gotime \<Rightarrow> gotime
     \<Rightarrow> 'e + 'd \<Rightarrow> 's \<Rightarrow> ('e idem_error + 'd \<times> bool) \<times> 's" where
  "persist_outcome R lib cfg reason_of rid expires_at now outcome s =
     (case outcome of
        Inl e \<Rightarrow>
          let reason = (if reason_of e = [] then ''EXECUTION_FAILED'' else reason_of e);
              (_, s1) = mark_failed_retryable R rid reason (now + cfg_failed_retry_backoff cfg) expires_at s
          in (Inl (ExecutionFailed e), s1)
      | Inr data \<Rightarrow>
          (case marshal_stored_response lib cfg data of
             None \<Rightarrow> (Inl StoreUnavail, s)
           | Some body \<Rightarrow>
               (case mark_succeeded R rid 200 body expires_at s of
                  (DbErr, s1) \<Rightarrow> (Inl StoreUnavail, s1)
                | (DbOk _, s1) \<Rightarrow> (Inr (data, False), s1))))"

text \<open>
  From the claim on: \<open>now\<close> is the time read before the claim, \<open>ticks\<close> the renewals that fire
  while the operation runs and those that fire between the stored outcome and the deferred stop
  of the renewal goroutine, \<open>fin\<close> the time read after the operation.
\<close>

definition execute_keyed ::
  "'s idem_repo \<Rightarrow> ('p, 'd) idem_lib \<Rightarrow> idem_config \<Rightarrow> ('e \<Rightarrow> string) \<Rightarrow> 'p idem_options \<Rightarrow> string
     \<Rightarrow> string \<Rightarrow> ('w \<Rightarrow> ('e + 'd) \<times> 'w) \<Rightarrow> gotime \<Rightarrow> gotime list \<times> gotime list \<Rightarrow> gotime \<Rightarrow> 's \<Rightarrow> 'w
     \<Rightarrow> ('e idem_error + 'd \<times> bool) \<times> 's \<times> 'w" where
  "execute_keyed R lib cfg reason_of opts key fingerprint execute now ticks fin s w =
     (let ttl = effective_ttl cfg opts; timed = op_execution_timeout opts > 0
      in case claim_key R lib (op_scope opts) (hash_idempotency_key lib key) fingerprint now
                (now + cfg_processing_timeout cfg) (now + ttl) s of
           (ClaimErr e, s1) \<Rightarrow> (Inl e, s1, w)
         | (ClaimReplay data, s1) \<Rightarrow> (Inr (data, True), s1, w)
         | (Claimed rid, s1) \<Rightarrow>
             let (outcome, w1) = execute w;
                 renew = (\<lambda>ts. if timed then renew_ticks R rid fingerprint (renewal_lease cfg) ttl ts else (\<lambda>t. t));
                 (result, s3) = persist_outcome R lib cfg reason_of rid
                   (if timed then fin + ttl else now + ttl) fin outcome (renew (fst ticks) s1)
             in (result, renew (snd ticks) s3, w1))"

definition idem_execute ::
  "'s idem_repo option \<Rightarrow> ('p, 'd) idem_lib \<Rightarrow> idem_config \<Rightarrow> ('e \<Rightarrow> string) \<Rightarrow> 'p idem_options
     \<Rightarrow> ('w \<Rightarrow> ('e + 'd) \<times> 'w) option \<Rightarrow> gotime \<Rightarrow> gotime list \<times> gotime list \<Rightarrow> gotime \<Rightarrow> 's \<Rightarrow> 'w
     \<Rightarrow> ('e idem_error + 'd \<times> bool) \<times> 's \<times> 'w" where
  "idem_execute repo lib cfg reason_of opts execute now ticks fin s w =
     (case execute of
        None \<Rightarrow> (Inl ExecutorNil, s, w)
      | Some run \<Rightarrow>
          (case normalize_idempotency_key (op_key opts) of
             Inl e \<Rightarrow> (Inl e, s, w)
           | Inr key \<Rightarrow>
               if key = [] then
                 (if op_require_key opts \<and> \<not> cfg_observe_only cfg then (Inl KeyRequired, s, w)
                  else case run w of
                         (Inl e, w1) \<Rightarrow> (Inl (ExecutionFailed e), s, w1)
                       | (Inr data, w1) \<Rightarrow> (Inr (data, False), s, w1))
               else case repo of
                 None \<Rightarrow> (Inl StoreUnavail, s, w)
               | Some R \<Rightarrow>
                   if op_scope opts = [] then (Inl ScopeRequired, s, w)
                   else case build_idempotency_fingerprint lib (op_method opts) (op_route opts)
                               (op_actor_scope opts) (op_payload opts) of
                          Inl e \<Rightarrow> (Inl e, s, w)
                        | Inr fingerprint \<Rightarrow>
                            execute_keyed R lib cfg reason_of opts key fingerprint run now ticks fin s w))"

lemmas claim_defs [step_defs] =
  claim_by_status_def claim_latest_def claim_existing_def claim_key_def

section \<open>The coordinator over any repository that keeps the contract\<close>

context idem_store
begin

lemma ok_claim_by_status:
  "ok s \<Longrightarrow> claim_by_status R lib now lu ea r s = (c, s') \<Longrightarrow> ok s'"
  by (auto simp: claim_by_status_def split: if_splits option.splits prod.splits answer.splits bool.splits
      dest: ok_reclaim)

lemma claim_by_status_claimed:
  assumes "ok s" "look s a h = Some r" "claim_by_status R lib now lu ea r s = (Claimed i, s')"
  shows "i = ir_id r \<and> (\<exists>x. look s' a h = Some (reclaim_row lu ea x r))"
  using assms
  by (auto simp: claim_by_status_def split: if_splits option.splits prod.splits answer.splits bool.splits)
    (use reclaim_look reclaim_value id_inj in \<open>force simp: reclaim_guard_def\<close>)+

text \<open>A claim succeeds only with the caller's fingerprint, and leaves its lease in the store.\<close>

lemma claim_existing_claimed:
  assumes "ok s" "claim_existing R lib a h fp now lu ea s = (Claimed i :: ('d, 'e) claim, s')"
  shows "ok s' \<and> (\<exists>r x. look s' a h = Some (reclaim_row lu ea x r) \<and> ir_id r = i \<and> ir_fingerprint r = fp)"
proof -
  obtain ans s1 where g0: "get_by_scope_and_key_hash R a h s = (ans, s1)"
    by (cases "get_by_scope_and_key_hash R a h s")
  obtain r where r: "ans = DbOk (Some r)" and fp: "ir_fingerprint r = fp"
    using assms(2) g0 by (auto simp: claim_existing_def split: answer.splits option.splits if_splits)
  note g = g0 [unfolded r]
  have c: "(if \<not> now < ir_expires_at r then
            (case try_reclaim R (ir_id r) (ir_status r) now lu ea s1 of
               (DbErr, s2) \<Rightarrow> (ClaimErr StoreUnavail, s2)
             | (DbOk True, s2) \<Rightarrow> (Claimed (ir_id r), s2)
             | (DbOk False, s2) \<Rightarrow> claim_latest R lib a h fp now lu ea s2)
          else claim_by_status R lib now lu ea r s1) = (Claimed i :: ('d, 'e) claim, s')"
    using assms(2) g fp by (simp add: claim_existing_def)
  have l1: "look s1 a h = Some r" and ok1: "ok s1"
    using get_same [OF g] get_value [OF g] ok_get [OF assms(1) g] by auto
  show ?thesis
  proof (cases "now < ir_expires_at r")
    case True
    with c have c': "claim_by_status R lib now lu ea r s1 = (Claimed i :: ('d, 'e) claim, s')" by simp
    show ?thesis
      using ok_claim_by_status [OF ok1 c'] claim_by_status_claimed [OF ok1 l1 c'] fp by blast
  next
    case False
    then obtain ans s2 where rc: "try_reclaim R (ir_id r) (ir_status r) now lu ea s1 = (ans, s2)"
      by (cases "try_reclaim R (ir_id r) (ir_status r) now lu ea s1")
    note ok2 = ok_reclaim [OF ok1 rc]
    consider "ans = DbOk True" "i = ir_id r" "s' = s2"
      | "ans = DbOk False" "claim_latest R lib a h fp now lu ea s2 = (Claimed i :: ('d, 'e) claim, s')"
      using c False rc by (auto split: answer.splits bool.splits)
    then show ?thesis
    proof cases
      case 1
      obtain a' h' r' where "look s1 a' h' = Some r'" "reclaim_guard (ir_id r) (ir_status r) now r'"
        using reclaim_value [OF ok1] rc 1 by blast
      moreover from this have "r' = r" using id_inj [OF ok1 _ l1] by (auto simp: reclaim_guard_def)
      ultimately show ?thesis
        using reclaim_look [OF ok1, of _ _ _ _ _ True s2 a h] rc 1 l1 fp ok2 by auto
    next
      case 2
      obtain ans2 s3 where g0': "get_by_scope_and_key_hash R a h s2 = (ans2, s3)"
        by (cases "get_by_scope_and_key_hash R a h s2")
      obtain r2 where r2: "ans2 = DbOk (Some r2)" and fp2: "ir_fingerprint r2 = fp"
        using 2(2) g0' by (auto simp: claim_latest_def split: answer.splits option.splits if_splits)
      note g2 = g0' [unfolded r2]
      have c2: "claim_by_status R lib now lu ea r2 s3 = (Claimed i :: ('d, 'e) claim, s')"
        using 2(2) g2 fp2 by (simp add: claim_latest_def)
      have l3: "look s3 a h = Some r2" and ok3: "ok s3"
        using get_same [OF g2] get_value [OF g2] ok_get [OF ok2 g2] by auto
      show ?thesis
        using claim_by_status_claimed [OF ok3 l3 c2] ok_claim_by_status [OF ok3 c2] fp2 by blast
    qed
  qed
qed

lemma claim_key_claimed:
  assumes "ok s" "claim_key R lib a h fp now lu ea s = (Claimed i :: ('d, 'e) claim, s')"
  shows "ok s' \<and> (\<exists>r. look s' a h = Some r \<and> ir_id r = i \<and> ir_fingerprint r = fp \<and>
    ir_status r = StatusProcessing \<and> ir_locked_until r = Some lu \<and> ir_expires_at r = ea)"
proof -
  obtain ans s1 where cr: "create_processing R (new_record a h fp lu ea) s = (ans, s1)"
    by (cases "create_processing R (new_record a h fp lu ea) s")
  note ok1 = ok_create [OF assms(1) cr]
  show ?thesis
  proof (cases ans)
    case DbErr
    with assms(2) cr show ?thesis by (simp add: claim_key_def)
  next
    case (DbOk p)
    obtain b rec where p: "p = (b, rec)" by (cases p)
    show ?thesis
    proof (cases b)
      case True
      with assms(2) cr DbOk p ok1 create_new [OF assms(1), of "new_record a h fp lu ea" rec s1]
      show ?thesis by (auto simp: claim_key_def new_record_def split: if_splits)
    next
      case False
      with assms(2) cr DbOk p have "claim_existing R lib a h fp now lu ea s1 = (Claimed i :: ('d, 'e) claim, s')"
        by (auto simp: claim_key_def split: prod.splits claim.splits if_splits)
      from claim_existing_claimed [OF ok1 this] show ?thesis by (auto simp: reclaim_row_def)
    qed
  qed
qed

text \<open>What a claim of an unexpired record with a settled or running execution can answer.\<close>

lemma claim_key_live:
  assumes "ok s" "look s a h = Some r" "now < ir_expires_at r"
    and "claim_key R lib a h fp now lu ea s = (c, s')"
  shows "c = ClaimErr StoreUnavail \<and> ok s' \<and> look s' a h = Some r \<or>
    c = ClaimErr KeyConflict \<and> ok s' \<and> look s' a h = Some r \<and> ir_fingerprint r \<noteq> fp \<or>
    (\<exists>s1. ok s1 \<and> look s1 a h = Some r \<and> ir_fingerprint r = fp \<and>
      (case claim_by_status R lib now lu ea r s1 of
         (Claimed i, s2) \<Rightarrow> (if i = 0 then ClaimErr StoreUnavail else Claimed i, s2) | (d, s2) \<Rightarrow> (d, s2)) = (c, s'))"
proof -
  obtain ans s1 where cr: "create_processing R (new_record a h fp lu ea) s = (ans, s1)"
    by (cases "create_processing R (new_record a h fp lu ea) s")
  note ok1 = ok_create [OF assms(1) cr] and l1 = create_keeps [OF assms(1) cr assms(2)]
  obtain ans2 s2 where g: "get_by_scope_and_key_hash R a h s1 = (ans2, s2)"
    by (cases "get_by_scope_and_key_hash R a h s1")
  have ok2: "ok s2" and l2: "look s2 a h = Some r" and v: "\<And>x. ans2 = DbOk x \<Longrightarrow> x = Some r"
    using ok_get [OF ok1 g] get_same [OF g] get_value [of a h s1 _ s2] g l1 by auto
  have new: "ans \<noteq> DbOk (True, rec)" for rec
    using create_new [OF assms(1), of "new_record a h fp lu ea" rec s1] cr assms(2)
    by (auto simp: new_record_def)
  show ?thesis
  proof (cases ans)
    case DbErr
    with assms(4) cr ok1 l1 show ?thesis by (auto simp: claim_key_def)
  next
    case (DbOk p)
    with new obtain rec where "p = (False, rec)" by (cases p) (metis (full_types))
    with assms(3,4) cr DbOk g v ok2 l2 show ?thesis
      by (cases ans2) (auto simp: claim_key_def claim_existing_def split: if_splits prod.splits claim.splits)
  qed
qed

lemma extend_ids:
  "ok s \<Longrightarrow> extend_processing_lock R i fp lu ea s = (ans, s') \<Longrightarrow>
     map_option (\<lambda>r. (ir_id r, ir_fingerprint r)) (look s' a h) =
     map_option (\<lambda>r. (ir_id r, ir_fingerprint r)) (look s a h)"
  using extend_any [of s i fp lu ea ans s' a h] by (cases "look s a h") (auto simp: extend_row_def)

lemma renew_ticks_idle:
  "ok s \<Longrightarrow> look s a h = Some r \<Longrightarrow> ir_status r \<noteq> StatusProcessing \<Longrightarrow>
     ok (renew_ticks R i fp lease ttl ticks s) \<and> look (renew_ticks R i fp lease ttl ticks s) a h = Some r"
proof (induction ticks arbitrary: s)
  case (Cons now ticks)
  obtain ans s1 where e: "extend_processing_lock R i fp (now + lease) (now + ttl) s = (ans, s1)"
    by (cases "extend_processing_lock R i fp (now + lease) (now + ttl) s")
  have "look s1 a h = Some r"
    using extend_any [OF Cons.prems(1) e, of a h] Cons.prems(2,3) by (auto simp: extend_guard_def)
  with Cons.IH [of s1] ok_extend [OF Cons.prems(1) e] e Cons.prems(3)
  show ?case by (simp split: answer.splits bool.splits)
qed simp

lemma renew_ticks_ids:
  "ok s \<Longrightarrow> ok (renew_ticks R i fp lease ttl ticks s) \<and>
     map_option (\<lambda>r. (ir_id r, ir_fingerprint r)) (look (renew_ticks R i fp lease ttl ticks s) a h) =
     map_option (\<lambda>r. (ir_id r, ir_fingerprint r)) (look s a h)"
proof (induction ticks arbitrary: s)
  case (Cons now ticks)
  obtain ans s1 where e: "extend_processing_lock R i fp (now + lease) (now + ttl) s = (ans, s1)"
    by (cases "extend_processing_lock R i fp (now + lease) (now + ttl) s")
  from Cons.IH [of s1] ok_extend [OF Cons.prems e] extend_ids [OF Cons.prems e, of a h] e
  show ?case by (simp split: answer.splits bool.splits)
qed simp

text \<open>A successful first execution leaves a settled record under its key.\<close>

lemma execute_keyed_fresh:
  fixes lib :: "('p, 'd) idem_lib" and reason_of :: "'e \<Rightarrow> string"
  assumes "ok s"
    and "execute_keyed R lib cfg reason_of opts key fp run now ticks fin s w = (Inr (d, False), s', w')"
  shows "ok s' \<and> (\<exists>r body. look s' (op_scope opts) (hash_idempotency_key lib key) = Some r \<and>
    ir_fingerprint r = fp \<and> ir_status r = StatusSucceeded \<and> ir_response_body r = Some body \<and>
    marshal_stored_response lib cfg d = Some body \<and>
    ir_expires_at r = (if op_execution_timeout opts > 0 then fin else now) + effective_ttl cfg opts)"
proof -
  let ?ttl = "effective_ttl cfg opts" and ?h = "hash_idempotency_key lib key"
  let ?lease = "renewal_lease cfg"
  let ?timed = "op_execution_timeout opts > 0"
  let ?ea = "if ?timed then fin + ?ttl else now + ?ttl"
  obtain c s1 where ck: "claim_key R lib (op_scope opts) ?h fp now
      (now + cfg_processing_timeout cfg) (now + ?ttl) s = (c :: ('d, 'e) claim, s1)"
    by (rule that [OF prod.collapse [symmetric]])
  obtain i where c: "c = Claimed i"
    using assms(2) ck by (cases c) (auto simp: execute_keyed_def Let_def)
  obtain r0 where ok1: "ok s1" and l1: "look s1 (op_scope opts) ?h = Some r0" "ir_id r0 = i" "ir_fingerprint r0 = fp"
    using claim_key_claimed [OF assms(1) ck [unfolded c]] by blast
  define renew where "renew = (\<lambda>ts. if ?timed then renew_ticks R i fp ?lease ?ttl ts else (\<lambda>t. t))"
  define s2 where "s2 = renew (fst ticks) s1"
  have ok2: "ok s2" and l2: "map_option (\<lambda>r. (ir_id r, ir_fingerprint r)) (look s2 (op_scope opts) ?h) = Some (i, fp)"
    using renew_ticks_ids [OF ok1, of i fp ?lease ?ttl "fst ticks" "op_scope opts" ?h] l1 ok1
    by (simp_all add: s2_def renew_def)
  obtain body s3 where body: "marshal_stored_response lib cfg d = Some body"
    and ms: "mark_succeeded R i 200 body ?ea s2 = (DbOk (), s3)" and s': "s' = renew (snd ticks) s3"
    using assms(2) ck c
    by (auto simp: execute_keyed_def persist_outcome_def Let_def s2_def renew_def
        split: prod.splits sum.splits option.splits answer.splits if_splits)
  obtain r where r: "look s3 (op_scope opts) ?h = Some r" "ir_fingerprint r = fp" "ir_status r = StatusSucceeded"
    "ir_response_body r = Some body" "ir_expires_at r = ?ea"
    using l2 succeed_look [OF ok2 ms, of "op_scope opts" ?h] by (auto simp: succeed_row_def)
  have "ok s' \<and> look s' (op_scope opts) ?h = Some r"
    using renew_ticks_idle [OF ok_succeed [OF ok2 ms] r(1)] r ok_succeed [OF ok2 ms] s'
    by (simp add: renew_def)
  with r body show ?thesis by auto
qed

text \<open>While a settled record is unexpired, no request for its key runs its operation.\<close>

lemma execute_settled:
  assumes "ok s" "look s (op_scope opts) (hash_idempotency_key lib key) = Some r"
    and "ir_status r = StatusSucceeded" "now < ir_expires_at r"
    and "execute_keyed R lib cfg reason_of opts key fp run now ticks fin s w = (res, s', w')"
  shows "w' = w \<and> ok s' \<and> look s' (op_scope opts) (hash_idempotency_key lib key) = Some r \<and>
    (res = Inl StoreUnavail \<or> res = Inl KeyConflict \<and> ir_fingerprint r \<noteq> fp \<or>
     ir_fingerprint r = fp \<and>
       (\<exists>d. decode_stored_response lib (ir_response_body r) = Some d \<and> res = Inr (d, True)))"
  using claim_key_live [OF assms(1,2,4)] assms(3,5)
  by (fastforce simp: execute_keyed_def claim_by_status_def Let_def split: claim.splits prod.splits option.splits)

text \<open>While the owner of an unexpired record is still running, no one else runs.\<close>

lemma execute_busy:
  assumes "ok s" "look s (op_scope opts) (hash_idempotency_key lib key) = Some r"
    and "ir_status r = StatusProcessing" "now < ir_expires_at r"
    and "execute_keyed R lib cfg reason_of opts key fp run now ticks fin s w = (res, s', w')"
  shows "w' = w \<and> ok s' \<and> look s' (op_scope opts) (hash_idempotency_key lib key) = Some r \<and>
    res \<in> {Inl StoreUnavail, Inl KeyConflict, Inl (InProgress (retry_after (ir_locked_until r) now))}"
  using claim_key_live [OF assms(1,2,4)] assms(3,5)
  by (fastforce simp: execute_keyed_def claim_by_status_def Let_def split: claim.splits prod.splits option.splits)

text \<open>A record of another request is never touched.\<close>

lemma execute_foreign:
  fixes lib :: "('p, 'd) idem_lib" and reason_of :: "'e \<Rightarrow> string"
  assumes "ok s" "look s (op_scope opts) (hash_idempotency_key lib key) = Some r" "ir_fingerprint r \<noteq> fp"
    and "execute_keyed R lib cfg reason_of opts key fp run now ticks fin s w = (res, s', w')"
  shows "w' = w \<and> res \<in> {Inl KeyConflict, Inl StoreUnavail} \<and>
    look s' (op_scope opts) (hash_idempotency_key lib key) = Some r"
proof -
  let ?a = "op_scope opts" and ?h = "hash_idempotency_key lib key"
  define rec where "rec = new_record ?a ?h fp (now + cfg_processing_timeout cfg) (now + effective_ttl cfg opts)"
  obtain ans s1 where cr: "create_processing R rec s = (ans, s1)" by (cases "create_processing R rec s")
  note l1 = create_keeps [OF assms(1) cr assms(2)]
  obtain ans2 s2 where g: "get_by_scope_and_key_hash R ?a ?h s1 = (ans2, s2)"
    by (cases "get_by_scope_and_key_hash R ?a ?h s1")
  have l2: "look s2 ?a ?h = Some r" and v: "\<And>x. ans2 = DbOk x \<Longrightarrow> x = Some r"
    using get_same [OF g] get_value [of ?a ?h s1 _ s2] g l1 by auto
  have new: "ans \<noteq> DbOk (True, rec')" for rec'
    using create_new [OF assms(1), of rec rec' s1] cr assms(2) by (auto simp: rec_def new_record_def)
  have "claim_key R lib ?a ?h fp now (now + cfg_processing_timeout cfg) (now + effective_ttl cfg opts) s
    \<in> {(ClaimErr StoreUnavail :: ('d, 'e) claim, s1), (ClaimErr StoreUnavail, s2), (ClaimErr KeyConflict, s2)}"
  proof (cases ans)
    case DbErr
    with cr show ?thesis by (simp add: claim_key_def rec_def)
  next
    case (DbOk p)
    with new obtain rec' where "p = (False, rec')" by (cases p) (metis (full_types))
    with assms(3) cr DbOk g v show ?thesis
      by (cases ans2) (auto simp: claim_key_def claim_existing_def rec_def)
  qed
  with assms(4) l1 l2 show ?thesis by (auto simp: execute_keyed_def Let_def)
qed

end

section \<open>Properties of the coordinator over the SQL repository\<close>

record ('p, 'd, 'e, 'w) request =
  rq_opts :: "'p idem_options"
  rq_run :: "'w \<Rightarrow> ('e + 'd) \<times> 'w"
  rq_now :: gotime
  rq_ticks :: "gotime list \<times> gotime list"
  rq_fin :: gotime

fun run_requests ::
  "('p, 'd) idem_lib \<Rightarrow> idem_config \<Rightarrow> ('e \<Rightarrow> string) \<Rightarrow> ('p, 'd, 'e, 'w) request list \<Rightarrow> idem_db \<Rightarrow> 'w
     \<Rightarrow> ('e idem_error + 'd \<times> bool) list \<times> idem_db \<times> 'w" where
  "run_requests lib cfg reason_of [] s w = ([], s, w)"
| "run_requests lib cfg reason_of (q # qs) s w =
     (let (res, s1, w1) = idem_execute (Some sql_repo) lib cfg reason_of (rq_opts q) (Some (rq_run q))
            (rq_now q) (rq_ticks q) (rq_fin q) s w;
          (rest, s2, w2) = run_requests lib cfg reason_of qs s1 w1
      in (res # rest, s2, w2))"

definition result_expiry :: "idem_config \<Rightarrow> 'p idem_options \<Rightarrow> gotime \<Rightarrow> gotime \<Rightarrow> gotime" where
  "result_expiry cfg opts now fin =
     (if op_execution_timeout opts > 0 then fin else now) + effective_ttl cfg opts"

lemma idem_execute_keyed:
  assumes "normalize_idempotency_key (op_key opts) = (Inr key :: 'e idem_error + string)" "key \<noteq> []"
  shows "idem_execute (Some R) lib cfg (reason_of :: 'e \<Rightarrow> string) opts (Some run) now ticks fin s w =
    (if op_scope opts = [] then (Inl ScopeRequired, s, w)
     else case build_idempotency_fingerprint lib (op_method opts) (op_route opts)
                 (op_actor_scope opts) (op_payload opts) of
            Inl e \<Rightarrow> (Inl e, s, w)
          | Inr fp \<Rightarrow> execute_keyed R lib cfg reason_of opts key fp run now ticks fin s w)"
  using assms by (simp add: idem_execute_def)

lemma build_fingerprint_Inl:
  "build_idempotency_fingerprint lib m r a p = Inl e \<Longrightarrow> e = InvalidPayload"
  by (auto simp: build_idempotency_fingerprint_def Let_def split: option.splits)

lemma run_requests_settled:
  assumes "db_ok s" "db_look s scope (hash_idempotency_key lib key) = Some r"
    and "ir_status r = StatusSucceeded" "scope \<noteq> []" "key \<noteq> []"
    and "\<forall>q \<in> set qs. op_scope (rq_opts q) = scope \<and>
      normalize_idempotency_key (op_key (rq_opts q)) = (Inr key :: 'e idem_error + string) \<and>
      rq_now q < ir_expires_at r"
    and "run_requests lib cfg (reason_of :: 'e \<Rightarrow> string) qs s w = (results, s', w')"
  shows "w' = w \<and> (\<forall>res \<in> set results. (\<exists>d. res = Inr (d, True)) \<or>
    res \<in> {Inl StoreUnavail, Inl KeyConflict, Inl InvalidPayload})"
  using assms
proof (induction qs arbitrary: s w results)
  case (Cons q qs)
  obtain res s1 w1 where first: "idem_execute (Some sql_repo) lib cfg reason_of (rq_opts q) (Some (rq_run q))
      (rq_now q) (rq_ticks q) (rq_fin q) s w = (res, s1, w1)"
    using prod_cases3 by blast
  obtain rest s2 w2 where rest: "run_requests lib cfg reason_of qs s1 w1 = (rest, s2, w2)"
    using prod_cases3 by blast
  have q: "op_scope (rq_opts q) = scope" "rq_now q < ir_expires_at r"
    "normalize_idempotency_key (op_key (rq_opts q)) = (Inr key :: 'e idem_error + string)"
    using Cons.prems(6) by auto
  have step: "w1 = w \<and> db_ok s1 \<and> db_look s1 scope (hash_idempotency_key lib key) = Some r \<and>
    ((\<exists>d. res = Inr (d, True)) \<or> res \<in> {Inl StoreUnavail, Inl KeyConflict, Inl InvalidPayload})"
  proof (cases "build_idempotency_fingerprint lib (op_method (rq_opts q)) (op_route (rq_opts q))
      (op_actor_scope (rq_opts q)) (op_payload (rq_opts q)) :: 'e idem_error + string")
    case (Inl e)
    then have "res = Inl InvalidPayload \<and> s1 = s \<and> w1 = w"
      using first Cons.prems(4) q(1) build_fingerprint_Inl [OF Inl]
      by (simp add: idem_execute_keyed [OF q(3) \<open>key \<noteq> []\<close>])
    with Cons.prems(1,2) show ?thesis by simp
  next
    case (Inr fp)
    then have "execute_keyed sql_repo lib cfg reason_of (rq_opts q) key fp (rq_run q) (rq_now q)
        (rq_ticks q) (rq_fin q) s w = (res, s1, w1)"
      using first Cons.prems(4) q(1) by (simp add: idem_execute_keyed [OF q(3) \<open>key \<noteq> []\<close>])
    from sql.execute_settled [OF Cons.prems(1) _ Cons.prems(3) q(2) this] show ?thesis
      using Cons.prems(2) q(1) by auto
  qed
  with Cons.IH [of s1 w1 rest] Cons.prems first rest show ?case by (auto simp: Let_def)
qed simp

text \<open>C4: once a keyed request has executed and its result is stored, every later request with the same
  scope and key that starts before the stored result expires is answered without running its operation,
  whatever calls of the repository fail: it replays the stored result or reports an error.\<close>

theorem execute_at_most_once:
  assumes ok: "db_ok s"
    and key: "normalize_idempotency_key (op_key opts) = (Inr key :: 'e idem_error + string)" "key \<noteq> []"
    and first: "idem_execute (Some sql_repo) lib cfg (reason_of :: 'e \<Rightarrow> string) opts (Some run)
      now ticks fin s w = (Inr (d, False), s1, w1)"
    and later: "\<forall>q \<in> set qs. op_scope (rq_opts q) = op_scope opts \<and>
      normalize_idempotency_key (op_key (rq_opts q)) = (Inr key :: 'e idem_error + string) \<and>
      rq_now q < result_expiry cfg opts now fin"
    and run: "run_requests lib cfg reason_of qs s1 w1 = (results, s2, w2)"
  shows "w2 = w1 \<and> (\<forall>res \<in> set results. (\<exists>d. res = Inr (d, True)) \<or>
    res \<in> {Inl StoreUnavail, Inl KeyConflict, Inl InvalidPayload})"
proof -
  obtain fp where scope: "op_scope opts \<noteq> []" and
    ex: "execute_keyed sql_repo lib cfg reason_of opts key fp run now ticks fin s w = (Inr (d, False), s1, w1)"
    using first by (simp add: idem_execute_keyed [OF key] split: if_splits sum.splits)
  from sql.execute_keyed_fresh [OF ok ex] obtain r where
    "db_ok s1" "db_look s1 (op_scope opts) (hash_idempotency_key lib key) = Some r"
    "ir_status r = StatusSucceeded" "ir_expires_at r = result_expiry cfg opts now fin"
    by (auto simp: result_expiry_def)
  with run_requests_settled [OF _ _ _ scope key(2) _ run] later show ?thesis by auto
qed

section \<open>Fault-free runs over the SQL repository\<close>

lemma sql_fine:
  assumes "db_faults s = []"
  shows "sql_create_processing rec s = (DbOk (fst (create_stmt rec s)), snd (create_stmt rec s))"
    and "sql_get_by_scope_and_key_hash a h s = (DbOk (db_look s a h), s)"
    and "sql_try_reclaim i st now lu ea s = (DbOk (list_ex (reclaim_guard i st now) (db_rows s)),
      s\<lparr>db_rows := update_where (reclaim_guard i st now) (reclaim_row lu ea (db_clock s)) (db_rows s)\<rparr>)"
proof -
  have [simp]: "s\<lparr>db_faults := []\<rparr> = s" using assms by (cases s) simp
  show "sql_create_processing rec s = (DbOk (fst (create_stmt rec s)), snd (create_stmt rec s))"
    "sql_get_by_scope_and_key_hash a h s = (DbOk (db_look s a h), s)"
    "sql_try_reclaim i st now lu ea s = (DbOk (list_ex (reclaim_guard i st now) (db_rows s)),
      s\<lparr>db_rows := update_where (reclaim_guard i st now) (reclaim_row lu ea (db_clock s)) (db_rows s)\<rparr>)"
    using assms by (simp_all add: sql_defs run_stmt_def db_look_def split: prod.splits)
qed

lemma create_stmt_old:
  "db_look s (ir_scope rec) (ir_key_hash rec) = Some r \<Longrightarrow>
   create_stmt rec s = ((False, rec), s\<lparr>db_next_id := db_next_id s + 1\<rparr>)"
  by (simp add: create_stmt_def db_look_def)

lemma claim_key_fine:
  assumes "db_faults s = []" "db_look s a h = Some r" "ir_fingerprint r = fp" "now < ir_expires_at r"
  shows "claim_key sql_repo lib a h fp now lu ea s =
    (case claim_by_status sql_repo lib now lu ea r (s\<lparr>db_next_id := db_next_id s + 1\<rparr>) of
       (Claimed i, s2) \<Rightarrow> (if i = 0 then ClaimErr StoreUnavail else Claimed i, s2) | (c, s2) \<Rightarrow> (c, s2))"
  using assms
  by (simp add: claim_key_def claim_existing_def sql_fine create_stmt_old new_record_def db_look_def
      split: prod.splits claim.splits)

lemma find_row_rows_reclaim:
  "db_ok s \<Longrightarrow> db_look s a h = Some r \<Longrightarrow> reclaim_guard (ir_id r) st now r \<Longrightarrow>
   list_ex (reclaim_guard (ir_id r) st now) (db_rows s)"
  by (auto simp: db_look_def list_ex_iff dest!: find_row_Some)


text \<open>a key whose record belongs to a different request is never executed and its record never
  changes: the caller gets a key conflict, or an error when the store fails, even after the record
  has expired.\<close>

theorem foreign_fingerprint_refused:
  assumes ok: "db_ok s"
    and key: "normalize_idempotency_key (op_key opts) = (Inr key :: 'e idem_error + string)" "key \<noteq> []"
    and row: "db_look s (op_scope opts) (hash_idempotency_key lib key) = Some r" "op_scope opts \<noteq> []"
    and other: "build_idempotency_fingerprint lib (op_method opts) (op_route opts) (op_actor_scope opts)
      (op_payload opts) = (Inr fp :: 'e idem_error + string)" "ir_fingerprint r \<noteq> fp"
    and run: "idem_execute (Some sql_repo) lib cfg (reason_of :: 'e \<Rightarrow> string) opts (Some run)
      now ticks fin s w = (res, s1, w1)"
  shows "w1 = w \<and> res \<in> {Inl KeyConflict, Inl StoreUnavail} \<and>
    db_look s1 (op_scope opts) (hash_idempotency_key lib key) = Some r"
proof -
  have "execute_keyed sql_repo lib cfg reason_of opts key fp run now ticks fin s w = (res, s1, w1)"
    using run row other by (simp add: idem_execute_keyed [OF key])
  then show ?thesis by (rule sql.execute_foreign [OF ok row(1) other(2)])
qed

text \<open>a key whose unexpired record is still being processed, or has a status the code does not
  know, is never executed by another request; the caller is told to wait, whatever calls fail.\<close>

theorem in_progress_not_rerun:
  assumes ok: "db_ok s"
    and key: "normalize_idempotency_key (op_key opts) = (Inr key :: 'e idem_error + string)" "key \<noteq> []"
    and row: "db_look s (op_scope opts) (hash_idempotency_key lib key) = Some r" "op_scope opts \<noteq> []"
      "ir_status r = StatusProcessing" "now < ir_expires_at r"
    and run: "idem_execute (Some sql_repo) lib cfg (reason_of :: 'e \<Rightarrow> string) opts (Some run)
      now ticks fin s w = (res, s1, w1)"
  shows "w1 = w \<and> db_look s1 (op_scope opts) (hash_idempotency_key lib key) = Some r \<and>
    res \<in> {Inl StoreUnavail, Inl KeyConflict, Inl InvalidPayload,
      Inl (InProgress (retry_after (ir_locked_until r) now))}"
proof (cases "build_idempotency_fingerprint lib (op_method opts) (op_route opts) (op_actor_scope opts)
    (op_payload opts) :: 'e idem_error + string")
  case (Inl e)
  then show ?thesis
    using run row build_fingerprint_Inl [OF Inl] by (auto simp: idem_execute_keyed [OF key])
next
  case (Inr fp)
  then have "execute_keyed sql_repo lib cfg reason_of opts key fp run now ticks fin s w = (res, s1, w1)"
    using run row by (simp add: idem_execute_keyed [OF key])
  from sql.execute_busy [OF ok row(1,3,4) this] show ?thesis by auto
qed

text \<open>a failed execution blocks its key until the back-off has passed: before that a request is
  told to retry after at least one second and runs nothing; from then on, when no repository call
  fails, the same request is executed again.\<close>

theorem failed_backoff_then_retry:
  assumes ok: "db_ok s" and fine: "db_faults s = []"
    and key: "normalize_idempotency_key (op_key opts) = (Inr key :: 'e idem_error + string)" "key \<noteq> []"
    and row: "db_look s (op_scope opts) (hash_idempotency_key lib key) = Some r" "op_scope opts \<noteq> []"
      "ir_status r = StatusFailedRetryable" "ir_locked_until r = Some backoff" "now < ir_expires_at r"
    and same: "build_idempotency_fingerprint lib (op_method opts) (op_route opts) (op_actor_scope opts)
      (op_payload opts) = (Inr (ir_fingerprint r) :: 'e idem_error + string)"
    and run: "idem_execute (Some sql_repo) lib cfg (reason_of :: 'e \<Rightarrow> string) opts (Some run)
      now ticks fin s w = (res, s1, w1)"
  shows "if now < backoff
    then w1 = w \<and> (\<exists>n \<ge> 1. res = Inl (RetryBackoff (Some n)))
    else w1 = snd (run w)"
proof -
  have ex: "execute_keyed sql_repo lib cfg reason_of opts key (ir_fingerprint r) run now ticks fin s w = (res, s1, w1)"
    using run row same by (simp add: idem_execute_keyed [OF key])
  have pos: "0 < ir_id r" using sql.key_of [OF ok row(1)] by simp
  let ?s = "s\<lparr>db_next_id := db_next_id s + 1\<rparr>"
  have rows: "list_ex (reclaim_guard (ir_id r) StatusFailedRetryable now) (db_rows s) \<longleftrightarrow> True"
    if "\<not> now < backoff"
    using that find_row_rows_reclaim [OF ok row(1), of StatusFailedRetryable now] row(3,4)
    by (simp add: reclaim_guard_def)
  show ?thesis
  proof (cases "now < backoff")
    case True
    with ex row show ?thesis
      by (auto simp: execute_keyed_def claim_key_fine [OF fine row(1) refl row(5)] claim_by_status_def
          retry_after_def Let_def)
  next
    case False
    with ex row rows pos fine show ?thesis
      by (auto simp: execute_keyed_def claim_key_fine [OF fine row(1) refl row(5)] claim_by_status_def
          sql_fine Let_def split: prod.splits)
  qed
qed

section \<open>Stored results that do not fit\<close>

lemma back_to_valid_prefix: "\<exists>k \<le> n. back_to_valid s n = take k s \<and> valid_string (take k s)"
proof (induction n)
  case 0
  show ?case by (intro exI [of _ 0]) (simp add: valid_string_def)
next
  case (Suc n)
  then show ?case by (auto intro: le_SucI)
qed

lemma back_to_valid_longest:
  "k \<le> n \<Longrightarrow> n \<le> length s \<Longrightarrow> valid_string (take k s) \<Longrightarrow> k \<le> length (back_to_valid s n)"
  by (induction n) (auto simp: le_Suc_eq)

lemma utf8_valid_boundary:
  "utf8_valid xs \<Longrightarrow> n \<le> length xs \<Longrightarrow> \<exists>k \<le> n. n \<le> k + 3 \<and> utf8_valid (take k xs)"
proof (induction xs arbitrary: n rule: utf8_valid.induct)
  case (2 a xs)
  have small: ?case if "n \<le> 3" using that by (intro exI [of _ 0]) simp
  have ascii: ?case if "a < 128"
  proof (cases n)
    case (Suc m)
    with 2(1) [OF that, of m] 2(5,6) that obtain k where "k \<le> m" "m \<le> k + 3" "utf8_valid (take k xs)" by auto
    with Suc that show ?thesis by (intro exI [of _ "Suc k"]) simp
  qed simp
  have two: ?case if "194 \<le> a" "a \<le> 223" "xs = b # ys" "3 < n" for b ys
  proof -
    obtain m where m: "n = Suc (Suc m)" using \<open>3 < n\<close> by (metis Suc_lessE less_Suc_eq numeral_3_eq_3)
    with 2(2) [of b ys m] 2(5,6) that obtain k where "k \<le> m" "m \<le> k + 3" "utf8_valid (take k ys)" by auto
    with m that 2(5) show ?thesis by (intro exI [of _ "Suc (Suc k)"]) simp
  qed
  have three: ?case if "224 \<le> a" "a \<le> 239" "xs = b # c # zs" "3 < n" for b c zs
  proof -
    obtain m where m: "n = Suc (Suc (Suc m))" using \<open>3 < n\<close> by (metis Suc_lessE numeral_3_eq_3)
    with 2(3) [of b "c # zs" c zs m] 2(5,6) that
    obtain k where "k \<le> m" "m \<le> k + 3" "utf8_valid (take k zs)" by auto
    with m that 2(5) show ?thesis by (intro exI [of _ "Suc (Suc (Suc k))"]) simp
  qed
  have four: ?case if "240 \<le> a" "xs = b # c # d # ws" "3 < n" for b c d ws
  proof -
    obtain m where m: "n = Suc (Suc (Suc (Suc m)))"
      using that [of "n - 4"] \<open>3 < n\<close> by simp
    with 2(4) [of b "c # d # ws" c "d # ws" d ws m] 2(5,6) that
    obtain k where "k \<le> m" "m \<le> k + 3" "utf8_valid (take k ws)" by auto
    with m that 2(5) show ?thesis by (intro exI [of _ "Suc (Suc (Suc (Suc k)))"]) simp
  qed
  consider "n \<le> 3" | "a < 128" | "\<not> a < 128" "3 < n" by linarith
  then show ?case
  proof cases
    case 1 then show ?thesis by (rule small)
  next
    case 2 then show ?thesis by (rule ascii)
  next
    case 3
    then obtain b ys where b: "xs = b # ys" using 2(5) by (cases xs) auto
    show ?thesis
    proof (cases "194 \<le> a \<and> a \<le> 223")
      case True
      with two b 3 show ?thesis by blast
    next
      case False
      then obtain c zs where c: "ys = c # zs" using 2(5) b 3 by (cases ys) auto
      show ?thesis
      proof (cases "224 \<le> a \<and> a \<le> 239")
        case True
        with three b c 3 show ?thesis by blast
      next
        case False
        then obtain d ws where "zs = d # ws" "240 \<le> a"
          using 2(5) b c 3 \<open>\<not> (194 \<le> a \<and> a \<le> 223)\<close> by (cases zs) auto
        with four b c 3 show ?thesis by blast
      qed
    qed
  qed
qed simp

text \<open>a text cut to a byte limit is a prefix of the text within the limit that is valid UTF-8, no
  longer prefix within the limit is, and of a valid text at most three bytes below the limit are lost.\<close>

theorem truncate_utf8_longest:
  assumes "0 < limit" "limit < int (length s)"
  shows "let t = truncate_utf8 s limit in
    (\<exists>rest. s = t @ rest) \<and> int (length t) \<le> limit \<and> valid_string t \<and>
    (\<forall>k. int k \<le> limit \<and> valid_string (take k s) \<longrightarrow> k \<le> length t) \<and>
    (valid_string s \<longrightarrow> limit - 3 \<le> int (length t))"
proof -
  let ?n = "nat limit"
  have t: "truncate_utf8 s limit = back_to_valid s ?n" and n: "?n \<le> length s"
    using assms by (simp_all add: truncate_utf8_def)
  obtain k where k: "k \<le> ?n" "back_to_valid s ?n = take k s" "valid_string (take k s)"
    using back_to_valid_prefix by blast
  have longest: "m \<le> length (take k s)" if "int m \<le> limit" "valid_string (take m s)" for m
    using back_to_valid_longest [of m ?n s] that n k by (simp add: nat_le_iff le_nat_iff)
  have "limit - 3 \<le> int (length (take k s))" if "valid_string s"
  proof -
    have "\<exists>m \<le> ?n. ?n \<le> m + 3 \<and> valid_string (take m s)"
      using utf8_valid_boundary [of "map of_char s" ?n] that n by (simp add: valid_string_def take_map)
    then obtain m where m: "m \<le> ?n" "?n \<le> m + 3" "valid_string (take m s)" by blast
    with longest [of m] assms(1) show ?thesis by linarith
  qed
  moreover have "\<exists>rest. s = take k s @ rest" by (rule exI [of _ "drop k s"]) simp
  moreover have "int (length (take k s)) \<le> limit" using k(1) assms by simp
  ultimately show ?thesis using k longest unfolding Let_def t k(2) by blast
qed

text \<open>a result that exceeds the storage limit is stored cut off with a marker that is not JSON, so
  the first caller gets its result but no later request ever does: every retry fails.\<close>

theorem oversized_result_not_replayed:
  assumes ok: "db_ok s"
    and key: "normalize_idempotency_key (op_key opts) = (Inr key :: 'e idem_error + string)" "key \<noteq> []"
    and first: "idem_execute (Some sql_repo) lib cfg (reason_of :: 'e \<Rightarrow> string) opts (Some run)
      now ticks fin s w = (Inr (d, False), s1, w1)"
    and big: "lib_marshal lib d = Some raw" "0 < cfg_max_stored_response_len cfg"
      "cfg_max_stored_response_len cfg < int (length (lib_redact lib raw))"
    and not_json: "\<forall>t. lib_unmarshal lib (t @ ''...(truncated)'') = None"
    and live: "now2 < result_expiry cfg opts now fin"
    and again: "idem_execute (Some sql_repo) lib cfg reason_of opts (Some run2) now2 ticks2 fin2 s1 w1
      = (res, s2, w2)"
  shows "w2 = w1 \<and> res = Inl StoreUnavail"
proof -
  obtain fp where scope: "op_scope opts \<noteq> []" and
    fp: "build_idempotency_fingerprint lib (op_method opts) (op_route opts) (op_actor_scope opts)
      (op_payload opts) = (Inr fp :: 'e idem_error + string)" and
    ex: "execute_keyed sql_repo lib cfg reason_of opts key fp run now ticks fin s w = (Inr (d, False), s1, w1)"
    using first by (simp add: idem_execute_keyed [OF key] split: if_splits sum.splits)
  define body where "body = truncate_utf8 (lib_redact lib raw) (cfg_max_stored_response_len cfg) @ ''...(truncated)''"
  obtain r where r: "db_ok s1" "db_look s1 (op_scope opts) (hash_idempotency_key lib key) = Some r"
    "ir_fingerprint r = fp" "ir_status r = StatusSucceeded" "ir_response_body r = Some body"
    "now2 < ir_expires_at r"
    using sql.execute_keyed_fresh [OF ok ex] big live
    by (auto simp: result_expiry_def marshal_stored_response_def Let_def body_def)
  have "CHR '')'' \<in> set (trim_space body)"
    by (rule trim_space_keeps) (simp_all add: body_def space_seqs_def)
  then have "decode_stored_response lib (ir_response_body r) = None"
    using not_json r(5) by (auto simp: decode_stored_response_def body_def)
  moreover have "execute_keyed sql_repo lib cfg reason_of opts key fp run2 now2 ticks2 fin2 s1 w1 = (res, s2, w2)"
    using again scope fp by (simp add: idem_execute_keyed [OF key])
  ultimately show ?thesis
    using sql.execute_settled [OF r(1,2,4,6)] r(3) by fastforce
qed

text \<open>the renewal of a lease fires at least three times per lease and per retention period, as long
  as the configured times are not below three milliseconds, and the interval is positive for any configuration.\<close>

theorem renewal_interval_bounds:
  "Millisecond \<le> renewal_interval cfg ttl \<and>
   (3 * Millisecond \<le> renewal_lease cfg \<and> 3 * Millisecond \<le> ttl \<longrightarrow>
      3 * renewal_interval cfg ttl \<le> renewal_lease cfg \<and> 3 * renewal_interval cfg ttl \<le> ttl)"
  by (auto simp: renewal_interval_def Let_def min_def)

section \<open>The properties at concrete inputs\<close>

definition demo_lib :: "(string, string) idem_lib" where
  "demo_lib = \<lparr>lib_sha256_hex = (\<lambda>s. s), lib_marshal_payload = Some, lib_marshal = Some,
     lib_redact = (\<lambda>s. s),
     lib_unmarshal = (\<lambda>s. if drop (length s - 14) s = ''...(truncated)'' then None else Some s),
     lib_empty_object = ''{}''\<rparr>"

definition demo_opts :: "string idem_options" where
  "demo_opts = \<lparr>op_scope = ''pay'', op_actor_scope = [], op_method = [], op_route = [], op_key = '' k1'',
     op_payload = ''p'', op_ttl = 100, op_require_key = True, op_execution_timeout = 5\<rparr>"

definition demo_run :: "nat \<Rightarrow> (string + string) \<times> nat" where
  "demo_run n = (Inr ''[1]'', Suc n)"

definition demo_fail :: "nat \<Rightarrow> (string + string) \<times> nat" where
  "demo_fail n = (Inl ''BOOM'', Suc n)"

definition demo_db :: idem_db where
  "demo_db = \<lparr>db_rows = [], db_next_id = 1, db_clock = 7, db_faults = []\<rparr>"

definition demo_exec ::
  "idem_config \<Rightarrow> (nat \<Rightarrow> (string + string) \<times> nat) \<Rightarrow> gotime \<Rightarrow> idem_db \<Rightarrow> nat
     \<Rightarrow> (string idem_error + string \<times> bool) \<times> idem_db \<times> nat" where
  "demo_exec cfg run now s w =
     idem_execute (Some sql_repo) demo_lib cfg (\<lambda>e. e) demo_opts (Some run) now ([], []) (now + 2) s w"

definition demo_db1 :: idem_db where
  "demo_db1 = fst (snd (demo_exec default_idempotency_config demo_run 10 demo_db 0))"

definition demo_request :: "(string, string, string, nat) request" where
  "demo_request = \<lparr>rq_opts = demo_opts, rq_run = demo_run, rq_now = 50, rq_ticks = ([], []), rq_fin = 51\<rparr>"

lemma demo_ok: "db_ok demo_db"
  by (simp add: db_ok_def demo_db_def)

lemma demo_key: "normalize_idempotency_key (op_key demo_opts) = (Inr ''k1'' :: string idem_error + string)"
  by code_simp

lemma demo_first: "demo_exec default_idempotency_config demo_run 10 demo_db 0 = (Inr (''[1]'', False), demo_db1, 1)"
  by code_simp


lemmas demo_first_run = demo_first [unfolded demo_exec_def]

lemma execute_at_most_once_witness:
  "snd (snd (run_requests demo_lib default_idempotency_config (\<lambda>e. e) [demo_request] demo_db1 (1 :: nat))) = 1"
proof -
  obtain results s2 w2 where run: "run_requests demo_lib default_idempotency_config (\<lambda>e. e)
      [demo_request] demo_db1 (1 :: nat) = (results, s2, w2)" using prod_cases3 by blast
  have "\<forall>q \<in> set [demo_request]. op_scope (rq_opts q) = op_scope demo_opts \<and>
      normalize_idempotency_key (op_key (rq_opts q)) = (Inr ''k1'' :: string idem_error + string) \<and>
      rq_now q < result_expiry default_idempotency_config demo_opts 10 (10 + 2)"
    using demo_key by (simp add: demo_request_def demo_opts_def result_expiry_def effective_ttl_def)
  from execute_at_most_once [OF demo_ok demo_key _ demo_first_run this run] run show ?thesis by simp
qed

lemma demo_db1_fine: "db_faults demo_db1 = []"
  by code_simp


lemma foreign_fingerprint_refused_witness:
  "snd (snd (idem_execute (Some sql_repo) demo_lib default_idempotency_config (\<lambda>e. e)
     (demo_opts\<lparr>op_payload := ''q''\<rparr>) (Some demo_run) 5000 ([], []) 5001 demo_db1 1)) = 1"
proof -
  obtain res s1 w1 where run: "idem_execute (Some sql_repo) demo_lib default_idempotency_config (\<lambda>e. e)
     (demo_opts\<lparr>op_payload := ''q''\<rparr>) (Some demo_run) 5000 ([], []) 5001 demo_db1 1 = (res, s1, w1)"
    using prod_cases3 by blast
  have ok: "db_ok demo_db1" by code_simp
  have key: "normalize_idempotency_key (op_key (demo_opts\<lparr>op_payload := ''q''\<rparr>)) = (Inr ''k1'' :: string idem_error + string)"
    using demo_key by simp
  have row: "db_look demo_db1 (op_scope (demo_opts\<lparr>op_payload := ''q''\<rparr>)) (hash_idempotency_key demo_lib ''k1'')
      = Some (hd (db_rows demo_db1))" by code_simp
  have fp: "build_idempotency_fingerprint demo_lib (op_method (demo_opts\<lparr>op_payload := ''q''\<rparr>))
      (op_route (demo_opts\<lparr>op_payload := ''q''\<rparr>)) (op_actor_scope (demo_opts\<lparr>op_payload := ''q''\<rparr>))
      (op_payload (demo_opts\<lparr>op_payload := ''q''\<rparr>))
      = (Inr (''POST'' @ [CHR 0x0A] @ ''/'' @ [CHR 0x0A] @ ''anonymous'' @ [CHR 0x0A] @ ''q'') :: string idem_error + string)"
    by code_simp
  have other: "ir_fingerprint (hd (db_rows demo_db1))
      \<noteq> ''POST'' @ [CHR 0x0A] @ ''/'' @ [CHR 0x0A] @ ''anonymous'' @ [CHR 0x0A] @ ''q''" by code_simp
  from foreign_fingerprint_refused [OF ok key _ row _ fp other run] run show ?thesis
    by (simp add: demo_opts_def)
qed

definition demo_row :: "string \<Rightarrow> idem_record" where
  "demo_row st = (new_record ''pay'' ''k1''
     (''POST'' @ [CHR 0x0A] @ ''/'' @ [CHR 0x0A] @ ''anonymous'' @ [CHR 0x0A] @ ''p'') 20 90)
     \<lparr>ir_id := 1, ir_status := st\<rparr>"

definition demo_db_row :: "string \<Rightarrow> idem_db" where
  "demo_db_row st = \<lparr>db_rows = [demo_row st], db_next_id = 2, db_clock = 7, db_faults = []\<rparr>"

lemma demo_row_facts:
  "db_ok (demo_db_row st)" "db_faults (demo_db_row st) = []" "op_scope demo_opts \<noteq> []"
  "db_look (demo_db_row st) (op_scope demo_opts) (hash_idempotency_key demo_lib ''k1'') = Some (demo_row st)"
  "ir_status (demo_row st) = st" "ir_locked_until (demo_row st) = Some 20"
  "now < 90 \<Longrightarrow> now < ir_expires_at (demo_row st)"
  by (simp_all add: db_ok_def demo_db_row_def demo_row_def new_record_def row_key_def db_look_def find_row_def
      demo_opts_def hash_idempotency_key_def demo_lib_def)

lemma in_progress_not_rerun_witness:
  "snd (snd (idem_execute (Some sql_repo) demo_lib default_idempotency_config (\<lambda>e. e) demo_opts
     (Some demo_run) 15 ([], []) 16 (demo_db_row StatusProcessing) 1)) = 1"
proof -
  obtain res s1 w1 where run: "idem_execute (Some sql_repo) demo_lib default_idempotency_config (\<lambda>e. e)
     demo_opts (Some demo_run) 15 ([], []) 16 (demo_db_row StatusProcessing) 1 = (res, s1, w1)"
    using prod_cases3 by blast
  from in_progress_not_rerun [OF demo_row_facts(1) demo_key _ demo_row_facts(4,3,5) demo_row_facts(7) run] run
  show ?thesis by simp
qed

lemma failed_backoff_then_retry_witness:
  "snd (snd (idem_execute (Some sql_repo) demo_lib default_idempotency_config (\<lambda>e. e) demo_opts
     (Some demo_run) 25 ([], []) 26 (demo_db_row StatusFailedRetryable) 1)) = 2"
proof -
  obtain res s1 w1 where run: "idem_execute (Some sql_repo) demo_lib default_idempotency_config (\<lambda>e. e)
     demo_opts (Some demo_run) 25 ([], []) 26 (demo_db_row StatusFailedRetryable) 1 = (res, s1, w1)"
    using prod_cases3 by blast
  have same: "build_idempotency_fingerprint demo_lib (op_method demo_opts) (op_route demo_opts)
      (op_actor_scope demo_opts) (op_payload demo_opts)
      = (Inr (ir_fingerprint (demo_row StatusFailedRetryable)) :: string idem_error + string)" by code_simp
  from failed_backoff_then_retry [OF demo_row_facts(1,2) demo_key _ demo_row_facts(4,3,5,6) demo_row_facts(7) same run] run
  show ?thesis by (simp add: demo_run_def)
qed

lemma truncate_utf8_longest_witness:
  "let t = truncate_utf8 [CHR ''a'', CHR 0xC3, CHR 0xA9, CHR ''b''] 2 in int (length t) \<le> 2 \<and> valid_string t"
  using truncate_utf8_longest [of 2 "[CHR ''a'', CHR 0xC3, CHR 0xA9, CHR ''b'']"] by (simp add: Let_def)

definition demo_tight :: idem_config where
  "demo_tight = default_idempotency_config\<lparr>cfg_max_stored_response_len := 2\<rparr>"

lemma oversized_result_not_replayed_witness:
  "\<exists>s1. idem_execute (Some sql_repo) demo_lib demo_tight (\<lambda>e. e) demo_opts (Some demo_run)
      10 ([], []) 12 demo_db 0 = (Inr (''[1]'', False), s1, 1) \<and>
    fst (idem_execute (Some sql_repo) demo_lib demo_tight (\<lambda>e. e) demo_opts (Some demo_run)
      20 ([], []) 21 s1 1) = Inl StoreUnavail"
proof -
  let ?s1 = "fst (snd (demo_exec demo_tight demo_run 10 demo_db 0))"
  have "demo_exec demo_tight demo_run 10 demo_db 0 = (Inr (''[1]'', False), ?s1, 1)" by code_simp
  then have first: "idem_execute (Some sql_repo) demo_lib demo_tight (\<lambda>e. e) demo_opts (Some demo_run)
      10 ([], []) (10 + 2) demo_db 0 = (Inr (''[1]'', False), ?s1, 1)" by (simp add: demo_exec_def)
  obtain res s2 w2 where run: "idem_execute (Some sql_repo) demo_lib demo_tight (\<lambda>e. e) demo_opts
      (Some demo_run) 20 ([], []) 21 ?s1 1 = (res, s2, w2)" using prod_cases3 by blast
  from oversized_result_not_replayed [OF demo_ok demo_key _ first _ _ _ _ _ run, of "''[1]''"]
  have "res = Inl StoreUnavail"
    by (simp add: demo_lib_def demo_tight_def default_idempotency_config_def result_expiry_def effective_ttl_def demo_opts_def)
  with first run show ?thesis by (intro exI [of _ ?s1]) simp
qed

lemma renewal_interval_bounds_witness:
  "3 * renewal_interval default_idempotency_config Minute \<le> Minute"
  using renewal_interval_bounds [of default_idempotency_config Minute]
  by (simp add: renewal_lease_def default_idempotency_config_def)

end
