(* ===== verification/System_Lock.thy ===== *)
theory System_Lock
  imports Idempotency
begin

text \<open>
  The global lock of administrative system operations, \<open>service/system_operation_lock_service.go\<close>,
  over the store of idempotency records. \<open>Acquire\<close> is cut into its repository calls, so that
  several callers can be interleaved statement by statement; \<open>sys_acquire\<close> runs one caller
  alone. A lock handle carries the state of its renewal goroutine.
\<close>

section \<open>The service\<close>

definition systemOperationLockScope :: string where
  "systemOperationLockScope = ''admin.system.operations.global_lock''"
definition systemOperationLockKey :: string where
  "systemOperationLockKey = ''global-system-operation-lock''"

record lock_service =
  sv_lease :: duration
  sv_renew_interval :: duration
  sv_ttl :: duration

definition new_system_operation_lock_service :: "idem_config \<Rightarrow> lock_service" where
  "new_system_operation_lock_service cfg =
     (let lease = (if cfg_processing_timeout cfg \<le> 0 then 30 * Second else cfg_processing_timeout cfg);
          renew_interval = (if go_div lease 3 < Second then Second else go_div lease 3);
          ttl = (if cfg_system_operation_ttl cfg \<le> 0 then Hour else cfg_system_operation_ttl cfg)
      in \<lparr>sv_lease = lease, sv_renew_interval = renew_interval, sv_ttl = ttl\<rparr>)"

record sys_lock =
  lk_record_id :: int
  lk_operation_id :: string
  lk_stopped :: bool
  lk_renewing :: bool

datatype sys_error = SysStoreUnavail | SysOperationIdRequired | SysBusy "string option" "int option"

definition busy_error :: "string \<Rightarrow> gotime option \<Rightarrow> gotime \<Rightarrow> sys_error" where
  "busy_error op locked_until now =
     SysBusy (if op = [] then None else Some op) (retry_after locked_until now)"

section \<open>Acquire, one repository call at a time\<close>

text \<open>
  Where an acquisition stands: before the read of the existing record, before the reclaim of the
  record it read, before the read after a lost reclaim, or at its result. The time is the one
  read at the start of the call.
\<close>

datatype acquisition =
    AcqRead string gotime
  | AcqReclaim string gotime idem_record
  | AcqLatest string gotime
  | AcqDone "sys_error + sys_lock"

definition new_lock :: "int \<Rightarrow> string \<Rightarrow> acquisition" where
  "new_lock rid op =
     AcqDone (if rid = 0 then Inl SysStoreUnavail
       else Inr \<lparr>lk_record_id = rid, lk_operation_id = op, lk_stopped = False, lk_renewing = True\<rparr>)"

definition sys_key_hash :: "('p, 'd) idem_lib \<Rightarrow> string" where
  "sys_key_hash lib = hash_idempotency_key lib systemOperationLockKey"

definition acq_start ::
  "'s idem_repo option \<Rightarrow> ('p, 'd) idem_lib \<Rightarrow> lock_service \<Rightarrow> string \<Rightarrow> gotime \<Rightarrow> 's \<Rightarrow> acquisition \<times> 's" where
  "acq_start repo lib svc op now s =
     (case repo of
        None \<Rightarrow> (AcqDone (Inl SysStoreUnavail), s)
      | Some R \<Rightarrow>
          if op = [] then (AcqDone (Inl SysOperationIdRequired), s)
          else case create_processing R (new_record systemOperationLockScope (sys_key_hash lib) op
                      (now + sv_lease svc) (now + sv_ttl svc)) s of
                 (DbErr, s1) \<Rightarrow> (AcqDone (Inl SysStoreUnavail), s1)
               | (DbOk (True, record), s1) \<Rightarrow> (new_lock (ir_id record) op, s1)
               | (DbOk (False, _), s1) \<Rightarrow> (AcqRead op now, s1))"

definition acq_read ::
  "'s idem_repo \<Rightarrow> ('p, 'd) idem_lib \<Rightarrow> string \<Rightarrow> gotime \<Rightarrow> 's \<Rightarrow> acquisition \<times> 's" where
  "acq_read R lib op now s =
     (case get_by_scope_and_key_hash R systemOperationLockScope (sys_key_hash lib) s of
        (DbErr, s1) \<Rightarrow> (AcqDone (Inl SysStoreUnavail), s1)
      | (DbOk None, s1) \<Rightarrow> (AcqDone (Inl SysStoreUnavail), s1)
      | (DbOk (Some existing), s1) \<Rightarrow>
          if ir_status existing = StatusProcessing \<and>
             (case ir_locked_until existing of None \<Rightarrow> False | Some l \<Rightarrow> after l now)
          then (AcqDone (Inl (busy_error (ir_fingerprint existing) (ir_locked_until existing) now)), s1)
          else (AcqReclaim op now existing, s1))"

definition acq_reclaim ::
  "'s idem_repo \<Rightarrow> lock_service \<Rightarrow> string \<Rightarrow> gotime \<Rightarrow> idem_record \<Rightarrow> 's \<Rightarrow> acquisition \<times> 's" where
  "acq_reclaim R svc op now existing s =
     (case try_reclaim R (ir_id existing) (ir_status existing) now (now + sv_lease svc) (now + sv_ttl svc) s of
        (DbErr, s1) \<Rightarrow> (AcqDone (Inl SysStoreUnavail), s1)
      | (DbOk False, s1) \<Rightarrow> (AcqLatest op now, s1)
      | (DbOk True, s1) \<Rightarrow> (new_lock (ir_id existing) op, s1))"

definition acq_latest ::
  "'s idem_repo \<Rightarrow> ('p, 'd) idem_lib \<Rightarrow> gotime \<Rightarrow> 's \<Rightarrow> acquisition \<times> 's" where
  "acq_latest R lib now s =
     (case get_by_scope_and_key_hash R systemOperationLockScope (sys_key_hash lib) s of
        (DbOk (Some latest), s1) \<Rightarrow>
          (AcqDone (Inl (busy_error (ir_fingerprint latest) (ir_locked_until latest) now)), s1)
      | (_, s1) \<Rightarrow> (AcqDone (Inl (SysBusy None None)), s1))"

fun acq_next ::
  "'s idem_repo \<Rightarrow> ('p, 'd) idem_lib \<Rightarrow> lock_service \<Rightarrow> acquisition \<Rightarrow> 's \<Rightarrow> acquisition \<times> 's" where
  "acq_next R lib svc (AcqRead op now) s = acq_read R lib op now s"
| "acq_next R lib svc (AcqReclaim op now existing) s = acq_reclaim R svc op now existing s"
| "acq_next R lib svc (AcqLatest op now) s = acq_latest R lib now s"
| "acq_next R lib svc (AcqDone res) s = (AcqDone res, s)"

text \<open>One caller alone: at most four repository calls.\<close>

definition sys_acquire ::
  "'s idem_repo option \<Rightarrow> ('p, 'd) idem_lib \<Rightarrow> lock_service \<Rightarrow> string \<Rightarrow> gotime \<Rightarrow> 's
     \<Rightarrow> (sys_error + sys_lock) \<times> 's" where
  "sys_acquire repo lib svc op now s =
     (let (a1, s1) = acq_start repo lib svc op now s
      in case repo of
           None \<Rightarrow> (Inl SysStoreUnavail, s1)
         | Some R \<Rightarrow>
             let (a2, s2) = acq_next R lib svc a1 s1;
                 (a3, s3) = acq_next R lib svc a2 s2;
                 (a4, s4) = acq_next R lib svc a3 s3
             in (case a4 of AcqDone res \<Rightarrow> res | _ \<Rightarrow> Inl SysStoreUnavail, s4))"

section \<open>Renewal and release\<close>

text \<open>One tick of the renewal goroutine of a lock.\<close>

definition sys_renew ::
  "'s idem_repo \<Rightarrow> lock_service \<Rightarrow> sys_lock \<Rightarrow> gotime \<Rightarrow> 's \<Rightarrow> sys_lock \<times> 's" where
  "sys_renew R svc lk now s =
     (if lk_stopped lk then (lk\<lparr>lk_renewing := False\<rparr>, s)
      else if \<not> lk_renewing lk then (lk, s)
      else case extend_processing_lock R (lk_record_id lk) (lk_operation_id lk)
                  (now + sv_lease svc) (now + sv_ttl svc) s of
             (DbErr, s1) \<Rightarrow> (lk, s1)
           | (DbOk True, s1) \<Rightarrow> (lk, s1)
           | (DbOk False, s1) \<Rightarrow> (lk\<lparr>lk_renewing := False\<rparr>, s1))"

definition release_body :: "sys_lock \<Rightarrow> string" where
  "release_body lk =
     CHR ''{'' # CHR 0x22 # ''operation_id'' @ CHR 0x22 # CHR '':'' # CHR 0x22 # lk_operation_id lk @
     CHR 0x22 # CHR '','' # CHR 0x22 # ''released'' @ CHR 0x22 # '':true}''"

text \<open>\<open>Release\<close>; \<open>now\<close> and \<open>now2\<close> are its two readings of the clock.\<close>

definition sys_release ::
  "'s idem_repo option \<Rightarrow> lock_service \<Rightarrow> sys_lock option \<Rightarrow> bool \<Rightarrow> string \<Rightarrow> gotime \<Rightarrow> gotime \<Rightarrow> 's
     \<Rightarrow> unit answer \<times> sys_lock option \<times> 's" where
  "sys_release repo svc lock succeeded reason now now2 s =
     (case (repo, lock) of
        (Some R, Some lk) \<Rightarrow>
          let lk' = lk\<lparr>lk_stopped := True\<rparr>;
              (ans, s1) =
                (if succeeded
                 then mark_succeeded R (lk_record_id lk) 200 (release_body lk) (now + sv_ttl svc) s
                 else mark_failed_retryable R (lk_record_id lk)
                        (if reason = [] then ''SYSTEM_OPERATION_FAILED'' else reason) now2 (now + sv_ttl svc) s)
          in (ans, Some lk', s1)
      | _ \<Rightarrow> (DbOk (), lock, s))"

lemmas acq_defs [step_defs] =
  acq_start_def acq_read_def acq_reclaim_def acq_latest_def new_lock_def

section \<open>Several callers\<close>

text \<open>
  The lock in use: the table, the clock, the acquisitions under way and the handles given out.
  Any caller may make its next repository call at any time; renewal ticks, releases and the
  clean-up of expired records fall between them.
\<close>

record lock_sys =
  sy_db :: idem_db
  sy_now :: gotime
  sy_pending :: "acquisition list"
  sy_locks :: "sys_lock list"

datatype lock_event =
    EvWait gotime | EvStart string | EvAdvance nat | EvRenew nat | EvRelease nat bool string | EvClean int

fun won :: "acquisition \<Rightarrow> sys_lock list" where
  "won (AcqDone (Inr lk)) = [lk]"
| "won _ = []"

inductive lock_step ::
  "('p, 'd) idem_lib \<Rightarrow> lock_service \<Rightarrow> lock_sys \<Rightarrow> lock_event \<Rightarrow> lock_sys \<Rightarrow> bool"
  for lib svc where
  wait: "sy_now s \<le> t \<Longrightarrow> lock_step lib svc s (EvWait t) (s\<lparr>sy_now := t\<rparr>)"
| start: "acq_start (Some sql_repo) lib svc op (sy_now s) (sy_db s) = (a, db) \<Longrightarrow>
    lock_step lib svc s (EvStart op)
      (s\<lparr>sy_db := db, sy_pending := sy_pending s @ [a], sy_locks := sy_locks s @ won a\<rparr>)"
| advance: "i < length (sy_pending s) \<Longrightarrow> \<forall>res. sy_pending s ! i \<noteq> AcqDone res \<Longrightarrow>
    acq_next sql_repo lib svc (sy_pending s ! i) (sy_db s) = (a, db) \<Longrightarrow>
    lock_step lib svc s (EvAdvance i)
      (s\<lparr>sy_db := db, sy_pending := (sy_pending s)[i := a], sy_locks := sy_locks s @ won a\<rparr>)"
| renew: "i < length (sy_locks s) \<Longrightarrow>
    sys_renew sql_repo svc (sy_locks s ! i) (sy_now s) (sy_db s) = (lk, db) \<Longrightarrow>
    lock_step lib svc s (EvRenew i) (s\<lparr>sy_db := db, sy_locks := (sy_locks s)[i := lk]\<rparr>)"
| release: "i < length (sy_locks s) \<Longrightarrow>
    sys_release (Some sql_repo) svc (Some (sy_locks s ! i)) ok reason (sy_now s) (sy_now s) (sy_db s)
      = (ans, Some lk, db) \<Longrightarrow>
    lock_step lib svc s (EvRelease i ok reason) (s\<lparr>sy_db := db, sy_locks := (sy_locks s)[i := lk]\<rparr>)"
| clean: "sql_delete_expired (sy_now s) n (sy_db s) = (ans, db) \<Longrightarrow>
    lock_step lib svc s (EvClean n) (s\<lparr>sy_db := db\<rparr>)"

inductive_cases lock_stepE: "lock_step lib svc s ev s'"

inductive lock_run ::
  "('p, 'd) idem_lib \<Rightarrow> lock_service \<Rightarrow> lock_sys \<Rightarrow> lock_event list \<Rightarrow> lock_sys \<Rightarrow> bool"
  for lib svc where
  stop: "lock_run lib svc s [] s"
| more: "lock_step lib svc s ev s1 \<Longrightarrow> lock_run lib svc s1 evs s2 \<Longrightarrow> lock_run lib svc s (ev # evs) s2"

fun acq_time :: "acquisition \<Rightarrow> gotime option" where
  "acq_time (AcqRead op now) = Some now"
| "acq_time (AcqReclaim op now r) = Some now"
| "acq_time (AcqLatest op now) = Some now"
| "acq_time (AcqDone res) = None"

text \<open>The time an event's acquisition counts its lease from.\<close>

fun acquired_at :: "lock_sys \<Rightarrow> lock_event \<Rightarrow> gotime option" where
  "acquired_at s (EvStart op) = Some (sy_now s)"
| "acquired_at s (EvAdvance i) = acq_time (sy_pending s ! i)"
| "acquired_at s _ = None"

fun is_release :: "lock_event \<Rightarrow> bool" where
  "is_release (EvRelease i ok reason) = True"
| "is_release _ = False"

definition lock_key :: "('p, 'd) idem_lib \<Rightarrow> string \<times> string" where
  "lock_key lib = (systemOperationLockScope, sys_key_hash lib)"

text \<open>An id once read under the lock's key never belongs to another key.\<close>

fun pending_ok :: "('p, 'd) idem_lib \<Rightarrow> idem_db \<Rightarrow> acquisition \<Rightarrow> bool" where
  "pending_ok lib db (AcqReclaim op now r) \<longleftrightarrow>
     ir_id r < db_next_id db \<and> (\<forall>x \<in> set (db_rows db). ir_id x = ir_id r \<longrightarrow> row_key x = lock_key lib)"
| "pending_ok lib db _ \<longleftrightarrow> True"

definition lock_inv :: "('p, 'd) idem_lib \<Rightarrow> lock_sys \<Rightarrow> bool" where
  "lock_inv lib s \<longleftrightarrow> db_ok (sy_db s) \<and>
     (\<forall>a \<in> set (sy_pending s). pending_ok lib (sy_db s) a \<and> (\<forall>t. acq_time a = Some t \<longrightarrow> t \<le> sy_now s))"

text \<open>The lock's record is leased and kept at least until \<open>T\<close>.\<close>

definition leased :: "('p, 'd) idem_lib \<Rightarrow> gotime \<Rightarrow> lock_sys \<Rightarrow> bool" where
  "leased lib T s \<longleftrightarrow> (\<exists>r l. db_look (sy_db s) systemOperationLockScope (sys_key_hash lib) = Some r \<and>
     ir_status r = StatusProcessing \<and> ir_locked_until r = Some l \<and> T \<le> l \<and> T \<le> ir_expires_at r)"


section \<open>How the table evolves\<close>

definition evolves :: "idem_db \<Rightarrow> idem_db \<Rightarrow> bool" where
  "evolves s s' \<longleftrightarrow> db_next_id s \<le> db_next_id s' \<and>
     (\<forall>x' \<in> set (db_rows s'). (\<exists>x \<in> set (db_rows s). ir_id x = ir_id x' \<and> row_key x = row_key x') \<or>
        db_next_id s \<le> ir_id x')"

lemma evolves_refl [simp]: "evolves s s"
  by (auto simp: evolves_def)

lemma evolves_faults [simp]: "evolves s (s\<lparr>db_faults := fs\<rparr>)"
  by (auto simp: evolves_def)

lemma evolves_run:
  assumes "run_stmt f s = (ans, s')" "\<And>fs. evolves s (snd (f (s\<lparr>db_faults := fs\<rparr>)))"
  shows "evolves s s'"
  using assms(1) by (cases rule: run_stmtE) (use assms(2) in \<open>auto simp: evolves_def\<close>)

lemma evolves_update:
  assumes "db_next_id s' = db_next_id s" "db_rows s' = update_where p f (db_rows s)"
    "\<And>r. row_key (f r) = row_key r" "\<And>r. ir_id (f r) = ir_id r"
  shows "evolves s s'"
  using assms by (force simp: evolves_def update_where_def)

lemma sql_evolves:
  "sql_create_processing rec s = (a1, s') \<Longrightarrow> evolves s s'"
  "sql_get_by_scope_and_key_hash a h s = (a2, s') \<Longrightarrow> evolves s s'"
  "sql_try_reclaim i st now lu ea s = (a3, s') \<Longrightarrow> evolves s s'"
  "sql_extend_processing_lock i fp lu ea s = (a3, s') \<Longrightarrow> evolves s s'"
  "sql_mark_succeeded i code body ea s = (a4, s') \<Longrightarrow> evolves s s'"
  "sql_mark_failed_retryable i reason lu ea s = (a4, s') \<Longrightarrow> evolves s s'"
  "sql_delete_expired now n s = (a5, s') \<Longrightarrow> evolves s s'"
proof -
  show "sql_create_processing rec s = (a1, s') \<Longrightarrow> evolves s s'"
    unfolding sql_defs
    by (erule evolves_run) (auto simp: create_stmt_def Let_def evolves_def split: option.splits)
  show "sql_delete_expired now n s = (a5, s') \<Longrightarrow> evolves s s'"
    unfolding sql_defs by (erule evolves_run) (auto simp: Let_def evolves_def)
qed (unfold sql_defs, (erule evolves_run, (simp; fail | (simp, rule evolves_update, simp, simp, rule refl, simp, simp) | (simp, rule evolves_update, simp, simp, simp, simp)))+)

lemma evolves_pending:
  assumes "evolves db db'" "pending_ok lib db a"
  shows "pending_ok lib db' a"
proof (cases a)
  case (AcqReclaim op now r)
  with assms show ?thesis by (fastforce simp: evolves_def)
qed simp_all


lemma evolves_acq_start: "acq_start (Some sql_repo) lib svc op now db = (a, db') \<Longrightarrow> evolves db db'"
  by (auto simp: acq_start_def split: if_splits prod.splits answer.splits bool.splits dest: sql_evolves)

lemma evolves_acq_next: "acq_next sql_repo lib svc a db = (a', db') \<Longrightarrow> evolves db db'"
  by (cases a) (auto simp: acq_read_def acq_reclaim_def acq_latest_def
      split: if_splits prod.splits answer.splits bool.splits option.splits dest: sql_evolves)

lemma evolves_renew: "sys_renew sql_repo svc lk now db = (lk', db') \<Longrightarrow> evolves db db'"
  by (auto simp: sys_renew_def split: if_splits prod.splits answer.splits bool.splits dest: sql_evolves)

lemma evolves_release:
  "sys_release (Some sql_repo) svc (Some lk) ok reason now now2 db = (ans, lk', db') \<Longrightarrow> evolves db db'"
  by (auto simp: sys_release_def Let_def split: if_splits prod.splits dest: sql_evolves)

lemma ok_acq_start: "db_ok db \<Longrightarrow> acq_start (Some sql_repo) lib svc op now db = (a, db') \<Longrightarrow> db_ok db'"
  by (auto simp: acq_start_def split: if_splits prod.splits answer.splits bool.splits
      dest: sql.ok_create [simplified])

lemma ok_acq_next: "db_ok db \<Longrightarrow> acq_next sql_repo lib svc a db = (a', db') \<Longrightarrow> db_ok db'"
  by (cases a) (auto simp: acq_read_def acq_reclaim_def acq_latest_def
      split: if_splits prod.splits answer.splits bool.splits option.splits
      dest: sql.ok_get [simplified] sql.ok_reclaim [simplified])

lemma ok_renew: "db_ok db \<Longrightarrow> sys_renew sql_repo svc lk now db = (lk', db') \<Longrightarrow> db_ok db'"
  by (auto simp: sys_renew_def split: if_splits prod.splits answer.splits bool.splits
      dest: sql.ok_extend [simplified])

lemma ok_release:
  "db_ok db \<Longrightarrow> sys_release (Some sql_repo) svc (Some lk) ok reason now now2 db = (ans, lk', db') \<Longrightarrow> db_ok db'"
  by (auto simp: sys_release_def Let_def split: if_splits prod.splits
      dest: sql.ok_succeed [simplified] sql.ok_fail [simplified])

text \<open>An acquisition keeps its time, and a reclaim is only tried on a record read under the lock's key.\<close>

lemma acq_start_pending:
  assumes "db_ok db" "acq_start (Some sql_repo) lib svc op now db = (a, db')"
  shows "pending_ok lib db' a \<and> (\<forall>t. acq_time a = Some t \<longrightarrow> t = now)"
  using assms(2) by (auto simp: acq_start_def new_lock_def split: if_splits prod.splits answer.splits bool.splits)

lemma look_pending:
  assumes "db_ok db" "db_look db systemOperationLockScope (sys_key_hash lib) = Some r"
  shows "pending_ok lib db (AcqReclaim op now r)"
proof -
  have "r \<in> set (db_rows db)" "row_key r = lock_key lib"
    using assms(2) by (auto simp: db_look_def lock_key_def dest: find_row_Some)
  moreover have "inj_on ir_id (set (db_rows db))" "\<forall>x \<in> set (db_rows db). ir_id x < db_next_id db"
    using assms(1) by (auto simp: db_ok_def distinct_map)
  ultimately show ?thesis by (auto dest: inj_onD)
qed

lemma acq_next_pending:
  assumes "db_ok db" "acq_next sql_repo lib svc a db = (a', db')"
  shows "pending_ok lib db' a' \<and> (\<forall>t. acq_time a' = Some t \<longrightarrow> acq_time a = Some t)"
proof (cases a)
  case (AcqRead op now)
  obtain ans db1 where g: "sql_get_by_scope_and_key_hash systemOperationLockScope (sys_key_hash lib) db = (ans, db1)"
    by (cases "sql_get_by_scope_and_key_hash systemOperationLockScope (sys_key_hash lib) db")
  have "db_ok db1" "\<And>x. ans = DbOk x \<Longrightarrow> x = db_look db1 systemOperationLockScope (sys_key_hash lib)"
    using sql.ok_get [simplified, OF assms(1) g] sql.get_value [simplified, of _ _ db _ db1]
      sql.get_same [simplified, OF g] g by auto
  then show ?thesis
    using assms(2) AcqRead g look_pending [of db1 lib]
    by (auto simp: acq_read_def split: answer.splits option.splits if_splits)
qed (use assms(2) in \<open>auto simp: acq_reclaim_def acq_latest_def new_lock_def
      split: prod.splits answer.splits bool.splits option.splits if_splits\<close>)


lemma lock_inv_step:
  assumes "lock_inv lib s" "lock_step lib svc s ev s'"
  shows "lock_inv lib s' \<and> sy_now s \<le> sy_now s'"
  using assms(2)
proof cases
  case (start op a db)
  then show ?thesis
    using assms(1) ok_acq_start [of "sy_db s"] acq_start_pending [of "sy_db s" lib svc op "sy_now s" a db]
      evolves_acq_start [of lib svc op "sy_now s" "sy_db s" a db]
    by (auto simp: lock_inv_def intro: evolves_pending)
next
  case (advance i a db)
  have old: "acq_time (sy_pending s ! i) = Some t \<Longrightarrow> t \<le> sy_now s" for t
    using assms(1) advance by (auto simp: lock_inv_def)
  show ?thesis
    using assms(1) advance ok_acq_next [of "sy_db s"] acq_next_pending [of "sy_db s" lib svc "sy_pending s ! i" a db]
      evolves_acq_next [of lib svc "sy_pending s ! i" "sy_db s" a db] old
    by (auto simp: lock_inv_def intro: evolves_pending dest!: set_update_subset_insert [THEN subsetD])
next
  case (renew i lk db)
  with assms(1) ok_renew evolves_renew show ?thesis by (fastforce simp: lock_inv_def intro: evolves_pending)
next
  case (release i ok reason ans lk db)
  with assms(1) ok_release evolves_release show ?thesis by (fastforce simp: lock_inv_def intro: evolves_pending)
next
  case (clean n ans db)
  with assms(1) sql.ok_delete [simplified] sql_evolves(7) show ?thesis
    by (fastforce simp: lock_inv_def intro: evolves_pending)
qed (use assms(1) in \<open>fastforce simp: lock_inv_def\<close>)

section \<open>Exclusion while a lease runs\<close>

abbreviation lock_look :: "('p, 'd) idem_lib \<Rightarrow> idem_db \<Rightarrow> idem_record option" where
  "lock_look lib db \<equiv> db_look db systemOperationLockScope (sys_key_hash lib)"

definition held :: "gotime \<Rightarrow> idem_record \<Rightarrow> bool" where
  "held T r \<longleftrightarrow> ir_status r = StatusProcessing \<and> T \<le> ir_expires_at r \<and>
     (\<exists>l. ir_locked_until r = Some l \<and> T \<le> l)"

lemma leased_held: "leased lib T s \<longleftrightarrow> (\<exists>r. lock_look lib (sy_db s) = Some r \<and> held T r)"
  by (auto simp: leased_def held_def)

lemma held_blocks_reclaim: "held T r \<Longrightarrow> now < T \<Longrightarrow> \<not> reclaim_guard i st now r"
  by (auto simp: held_def reclaim_guard_def)

lemma start_blocked:
  assumes "db_ok db" "lock_look lib db = Some r" "acq_start (Some sql_repo) lib svc op now db = (a, db')"
  shows "won a = [] \<and> lock_look lib db' = Some r"
proof (cases "op = []")
  case False
  obtain ans db1 where c: "sql_create_processing (new_record systemOperationLockScope (sys_key_hash lib) op
      (now + sv_lease svc) (now + sv_ttl svc)) db = (ans, db1)"
    by (rule that [OF prod.collapse [symmetric]])
  have "lock_look lib db1 = Some r" using sql.create_keeps [simplified, OF assms(1) c assms(2)] .
  moreover have "\<not> fst p" if "ans = DbOk p" for p
    using sql.create_new [simplified, OF assms(1), of "new_record systemOperationLockScope (sys_key_hash lib) op
      (now + sv_lease svc) (now + sv_ttl svc)" "snd p" db1] c assms(2) that
    by (cases p) (auto simp: new_record_def)
  ultimately show ?thesis
    using assms(3) False c by (auto simp: acq_start_def split: answer.splits bool.splits)
qed (use assms in \<open>auto simp: acq_start_def\<close>)

lemma next_blocked:
  assumes "db_ok db" "lock_look lib db = Some r" "held T r" "acq_next sql_repo lib svc a db = (a', db')"
    and "pending_ok lib db a" "\<forall>t. acq_time a = Some t \<longrightarrow> t < T" "\<forall>res. a \<noteq> AcqDone res"
  shows "won a' = [] \<and> lock_look lib db' = Some r"
proof (cases a)
  case (AcqReclaim op now x)
  obtain ans db1 where rc: "sql_try_reclaim (ir_id x) (ir_status x) now (now + sv_lease svc) (now + sv_ttl svc) db
      = (ans, db1)" by (rule that [OF prod.collapse [symmetric]])
  have free: "\<not> (\<exists>a h y. db_look db a h = Some y \<and> reclaim_guard (ir_id x) (ir_status x) now y)"
  proof safe
    fix a h y assume y: "db_look db a h = Some y" "reclaim_guard (ir_id x) (ir_status x) now y"
    then have "y \<in> set (db_rows db)" "row_key y = (a, h)" by (auto simp: db_look_def dest: find_row_Some)
    with assms(5) y(2) AcqReclaim have "(a, h) = lock_key lib" by (auto simp: reclaim_guard_def)
    with y assms(2,3,6) AcqReclaim held_blocks_reclaim show False by (auto simp: lock_key_def)
  qed
  then have won: "ans \<noteq> DbOk True" using sql.reclaim_value [simplified, OF assms(1)] rc by blast
  have "list_ex (reclaim_guard (ir_id x) (ir_status x) now) (db_rows db) = False"
    using free db_rows_look [OF assms(1)] by blast
  then have "lock_look lib db1 = lock_look lib db"
    using rc unfolding sql_try_reclaim_def
    by (elim run_stmtE) (auto simp: db_look_def update_where_def list_ex_iff intro!: arg_cong [where f = "find_row _ _"] map_idI)
  with won rc assms(2,4) AcqReclaim show ?thesis by (auto simp: acq_reclaim_def split: answer.splits bool.splits)
qed (use assms(2,4,7) sql.get_same [simplified, THEN fun_cong, THEN fun_cong] in
  \<open>fastforce simp: acq_read_def acq_latest_def split: prod.splits answer.splits option.splits if_splits\<close>)+


lemma renew_held:
  assumes "db_ok db" "lock_look lib db = Some r" "held T r" "sys_renew sql_repo svc lk now db = (lk', db')"
    and "T \<le> now + sv_lease svc" "T \<le> now + sv_ttl svc"
  shows "\<exists>r'. lock_look lib db' = Some r' \<and> held T r'"
proof -
  obtain ans db1 where e: "sql_extend_processing_lock (lk_record_id lk) (lk_operation_id lk)
      (now + sv_lease svc) (now + sv_ttl svc) db = (ans, db1)" by (rule that [OF prod.collapse [symmetric]])
  have "\<exists>r'. lock_look lib db1 = Some r' \<and> held T r'"
    using sql.extend_any [simplified, OF assms(1) e, of systemOperationLockScope "sys_key_hash lib"] assms(2,3,5,6)
    by (auto simp: held_def extend_row_def)
  with e assms(2,3,4) show ?thesis
    by (auto simp: sys_renew_def split: if_splits answer.splits bool.splits)
qed

lemma leased_step:
  assumes "lock_inv lib s" "leased lib T s" "lock_step lib svc s ev s'" "\<not> is_release ev" "sy_now s < T"
    and "T \<le> sy_now s + sv_lease svc" "T \<le> sy_now s + sv_ttl svc"
  shows "leased lib T s' \<and> length (sy_locks s') = length (sy_locks s)"
proof -
  obtain r where r: "lock_look lib (sy_db s) = Some r" "held T r" using assms(2) by (auto simp: leased_held)
  have ok: "db_ok (sy_db s)" using assms(1) by (simp add: lock_inv_def)
  show ?thesis
    using assms(3)
  proof cases
    case (start op a db)
    with start_blocked [OF ok r(1) start(3)] r(2) show ?thesis by (auto simp: leased_held)
  next
    case (advance i a db)
    have "pending_ok lib (sy_db s) (sy_pending s ! i)" "\<forall>t. acq_time (sy_pending s ! i) = Some t \<longrightarrow> t < T"
      using assms(1,5) advance(3) by (auto simp: lock_inv_def) (meson le_less_trans nth_mem)
    with advance next_blocked [OF ok r advance(5)] r(2) show ?thesis by (auto simp: leased_held)
  next
    case (renew i lk db)
    with renew_held [OF ok r renew(4) assms(6,7)] show ?thesis by (auto simp: leased_held)
  next
    case (clean n ans db)
    have "lock_look lib db = Some r"
      using sql.delete_keeps [simplified, OF ok clean(3) r(1)] r(2) assms(5) by (auto simp: held_def)
    with clean r(2) show ?thesis by (auto simp: leased_held)
  qed (use assms(2,4) in \<open>auto simp: leased_def\<close>)
qed

lemma lock_run_now: "lock_run lib svc s evs s' \<Longrightarrow> lock_inv lib s \<Longrightarrow> sy_now s \<le> sy_now s' \<and> lock_inv lib s'"
  by (induction rule: lock_run.induct) (use lock_inv_step in force)+

lemma leased_run:
  "lock_run lib svc s evs s' \<Longrightarrow> lock_inv lib s \<Longrightarrow> leased lib T s \<Longrightarrow> \<forall>ev \<in> set evs. \<not> is_release ev \<Longrightarrow>
     sy_now s' < T \<Longrightarrow> T \<le> sy_now s + sv_lease svc \<Longrightarrow> T \<le> sy_now s + sv_ttl svc \<Longrightarrow>
     leased lib T s' \<and> length (sy_locks s') = length (sy_locks s)"
proof (induction rule: lock_run.induct)
  case (more s ev s1 evs s2)
  have "lock_inv lib s1" "sy_now s \<le> sy_now s1" "sy_now s1 \<le> sy_now s2"
    using lock_inv_step [OF more.prems(1) more.hyps(1)] lock_run_now [OF more.hyps(2)] by auto
  with more.IH leased_step [OF more.prems(1,2) more.hyps(1)] more.prems show ?case by force
qed simp

text \<open>The winning call writes the lease.\<close>

lemma start_wins:
  assumes "db_ok db" "acq_start (Some sql_repo) lib svc op now db = (a, db')" "won a \<noteq> []"
  shows "\<exists>r. lock_look lib db' = Some r \<and> held (now + min (sv_lease svc) (sv_ttl svc)) r"
proof -
  obtain ans db1 where c: "sql_create_processing (new_record systemOperationLockScope (sys_key_hash lib) op
      (now + sv_lease svc) (now + sv_ttl svc)) db = (ans, db1)"
    by (rule that [OF prod.collapse [symmetric]])
  obtain rec where rec: "ans = DbOk (True, rec)" "db1 = db'"
    using assms(2,3) c by (auto simp: acq_start_def split: if_splits answer.splits bool.splits)
  from sql.create_new [simplified, OF assms(1) c [unfolded rec(1)]] rec(2)
  show ?thesis by (auto simp: new_record_def held_def)
qed

lemma next_wins:
  assumes "db_ok db" "acq_next sql_repo lib svc a db = (a', db')" "won a' \<noteq> []" "\<forall>res. a \<noteq> AcqDone res"
    and "pending_ok lib db a"
  shows "\<exists>r now. acq_time a = Some now \<and> lock_look lib db' = Some r \<and> held (now + min (sv_lease svc) (sv_ttl svc)) r"
proof (cases a)
  case (AcqReclaim op now x)
  have rc: "sql_try_reclaim (ir_id x) (ir_status x) now (now + sv_lease svc) (now + sv_ttl svc) db = (DbOk True, db')"
    using assms(2,3) AcqReclaim by (auto simp: acq_reclaim_def split: prod.splits answer.splits bool.splits)
  obtain a h y where y: "db_look db a h = Some y" "reclaim_guard (ir_id x) (ir_status x) now y"
    using sql.reclaim_value [simplified, OF assms(1) rc] by blast
  then have "y \<in> set (db_rows db)" "row_key y = (a, h)" by (auto simp: db_look_def dest: find_row_Some)
  with assms(5) y(2) AcqReclaim have "(a, h) = lock_key lib" by (auto simp: reclaim_guard_def)
  with y sql.reclaim_look [simplified, OF assms(1) rc, of a h] AcqReclaim
  show ?thesis by (auto simp: lock_key_def reclaim_row_def held_def)
qed (use assms(2,3,4) in \<open>auto simp: acq_read_def acq_latest_def split: prod.splits answer.splits option.splits if_splits\<close>)

text \<open>C27: however the calls of several callers interleave and whatever calls fail, once a caller has won
  the lock no other caller wins it until the shorter of lease and retention time has passed since the
  winner read the clock, unless someone releases the lock.\<close>

theorem system_lock_exclusive:
  assumes inv: "lock_inv lib s"
    and win: "lock_step lib svc s ev s1" "length (sy_locks s1) = Suc (length (sy_locks s))"
      "acquired_at s ev = Some t0"
    and run: "lock_run lib svc s1 evs s2" "\<forall>ev \<in> set evs. \<not> is_release ev"
    and lease: "sy_now s2 < t0 + min (sv_lease svc) (sv_ttl svc)"
  shows "length (sy_locks s2) = length (sy_locks s1)"
proof -
  have ok: "db_ok (sy_db s)" and inv1: "lock_inv lib s1" and now: "sy_now s \<le> sy_now s1"
    using inv lock_inv_step [OF inv win(1)] by (auto simp: lock_inv_def)
  have "leased lib (t0 + min (sv_lease svc) (sv_ttl svc)) s1 \<and> t0 \<le> sy_now s"
    using win(1)
  proof cases
    case (start op a db)
    then have "won a \<noteq> []" using win(2) by auto
    with start start_wins [OF ok start(3)] win(3) show ?thesis by (auto simp: leased_held)
  next
    case (advance i a db)
    have "pending_ok lib (sy_db s) (sy_pending s ! i)" "\<forall>t. acq_time (sy_pending s ! i) = Some t \<longrightarrow> t \<le> sy_now s"
      using inv advance(3) by (auto simp: lock_inv_def)
    moreover have "won a \<noteq> []" using win(2) advance by auto
    ultimately show ?thesis using advance next_wins [OF ok advance(5)] win(3) by (auto simp: leased_held)
  qed (use win(2) in auto)
  with leased_run [OF run(1) inv1 _ run(2) lease] now show ?thesis by auto
qed


section \<open>Renewal and release without failures\<close>

lemma sql_fine_lock:
  assumes "db_faults s = []"
  shows "sql_extend_processing_lock i fp lu ea s = (DbOk (list_ex (extend_guard i fp) (db_rows s)),
      s\<lparr>db_rows := update_where (extend_guard i fp) (extend_row lu ea (db_clock s)) (db_rows s)\<rparr>)"
    and "sql_mark_succeeded i code body ea s = (DbOk (),
      s\<lparr>db_rows := update_where (\<lambda>r. ir_id r = i) (succeed_row code body ea (db_clock s)) (db_rows s)\<rparr>)"
    and "sql_mark_failed_retryable i reason lu ea s = (DbOk (),
      s\<lparr>db_rows := update_where (\<lambda>r. ir_id r = i) (fail_row reason lu ea (db_clock s)) (db_rows s)\<rparr>)"
proof -
  have [simp]: "s\<lparr>db_faults := []\<rparr> = s" using assms by (cases s) simp
  show "sql_extend_processing_lock i fp lu ea s = (DbOk (list_ex (extend_guard i fp) (db_rows s)),
      s\<lparr>db_rows := update_where (extend_guard i fp) (extend_row lu ea (db_clock s)) (db_rows s)\<rparr>)"
    "sql_mark_succeeded i code body ea s = (DbOk (),
      s\<lparr>db_rows := update_where (\<lambda>r. ir_id r = i) (succeed_row code body ea (db_clock s)) (db_rows s)\<rparr>)"
    "sql_mark_failed_retryable i reason lu ea s = (DbOk (),
      s\<lparr>db_rows := update_where (\<lambda>r. ir_id r = i) (fail_row reason lu ea (db_clock s)) (db_rows s)\<rparr>)"
    using assms by (simp_all add: sql_defs run_stmt_def)
qed

definition free_at :: "gotime \<Rightarrow> idem_record \<Rightarrow> bool" where
  "free_at t r \<longleftrightarrow> (case ir_locked_until r of None \<Rightarrow> True | Some l \<Rightarrow> l \<le> t)"

lemma acquire_existing_fine:
  assumes "db_ok s" "db_faults s = []" "lock_look lib s = Some r" "op \<noteq> []" "free_at t r"
  shows "\<exists>s1. sys_acquire (Some sql_repo) lib svc op t s =
      (Inr \<lparr>lk_record_id = ir_id r, lk_operation_id = op, lk_stopped = False, lk_renewing = True\<rparr>, s1) \<and>
    db_ok s1 \<and> db_faults s1 = [] \<and>
    lock_look lib s1 = Some (reclaim_row (t + sv_lease svc) (t + sv_ttl svc) (db_clock s) r)"
proof -
  let ?s = "s\<lparr>db_next_id := db_next_id s + 1\<rparr>"
  let ?g = "reclaim_guard (ir_id r) (ir_status r) t"
  let ?row = "reclaim_row (t + sv_lease svc) (t + sv_ttl svc) (db_clock s)"
  let ?s1 = "?s\<lparr>db_rows := update_where ?g ?row (db_rows s)\<rparr>"
  have pos: "0 < ir_id r" using sql.key_of [OF assms(1,3)] by simp
  have g: "?g r" using assms(5) by (simp add: reclaim_guard_def free_at_def)
  have rows: "list_ex ?g (db_rows s)" using find_row_rows_reclaim [OF assms(1,3) g] .
  have look: "lock_look lib ?s = Some r" using assms(3) by (simp add: db_look_def)
  have busy: "\<not> (case ir_locked_until r of None \<Rightarrow> False | Some l \<Rightarrow> t < l)"
    using assms(5) by (auto simp: free_at_def split: option.splits)
  have start: "acq_start (Some sql_repo) lib svc op t s = (AcqRead op t, ?s)"
    using assms(2,4) create_stmt_old [of s "new_record systemOperationLockScope (sys_key_hash lib) op
      (t + sv_lease svc) (t + sv_ttl svc)" r] assms(3)
    by (simp add: acq_start_def sql_fine new_record_def)
  have read: "acq_next sql_repo lib svc (AcqRead op t) ?s = (AcqReclaim op t r, ?s)"
    using assms(2) look busy by (auto simp: acq_read_def sql_fine)
  have reclaim: "acq_next sql_repo lib svc (AcqReclaim op t r) ?s = (new_lock (ir_id r) op, ?s1)"
    using assms(2) rows by (simp add: acq_reclaim_def sql_fine)
  have settled: "acq_next sql_repo lib svc (new_lock (ir_id r) op) ?s1 = (new_lock (ir_id r) op, ?s1)"
    by (simp add: new_lock_def)
  have "db_ok ?s" using assms(1) by (auto simp: db_ok_def)
  then have "db_ok ?s1" by (rule db_ok_update) simp_all
  moreover have "lock_look lib ?s1 = Some (?row r)"
    using assms(3) g by (simp add: db_look_def find_row_update)
  moreover have "sys_acquire (Some sql_repo) lib svc op t s =
      (Inr \<lparr>lk_record_id = ir_id r, lk_operation_id = op, lk_stopped = False, lk_renewing = True\<rparr>, ?s1)"
    unfolding sys_acquire_def start Let_def prod.case option.case read reclaim settled
    using pos by (simp add: new_lock_def)
  ultimately show ?thesis using assms(2) by simp
qed

lemma db_look_extend:
  "lock_look lib s = Some r \<Longrightarrow> db_ok s \<Longrightarrow>
   list_ex (extend_guard (ir_id r) fp) (db_rows s) \<longleftrightarrow> extend_guard (ir_id r) fp r"
  unfolding db_rows_look by (metis (lifting) extend_guard_def sql.id_inj)

lemma renew_fine:
  assumes "db_ok s" "db_faults s = []" "lock_look lib s = Some r" "lk_record_id lk = ir_id r"
    "\<not> lk_stopped lk" "lk_renewing lk" "ir_status r = StatusProcessing"
  shows "if ir_fingerprint r = lk_operation_id lk
    then fst (sys_renew sql_repo svc lk t s) = lk \<and> (\<exists>r'. lock_look lib (snd (sys_renew sql_repo svc lk t s)) = Some r' \<and>
      ir_locked_until r' = Some (t + sv_lease svc) \<and> ir_status r' = StatusProcessing)
    else sys_renew sql_repo svc lk t s = (lk\<lparr>lk_renewing := False\<rparr>, s)"
proof -
  note g = db_look_extend [OF assms(3,1), of "lk_operation_id lk"]
  have no: "update_where (extend_guard (ir_id r) (lk_operation_id lk)) f (db_rows s) = db_rows s"
    if "\<not> list_ex (extend_guard (ir_id r) (lk_operation_id lk)) (db_rows s)" for f
    using that by (auto simp: update_where_def list_ex_iff intro: map_idI)
  show ?thesis
    using assms g no
    by (auto simp: sys_renew_def sql_fine_lock extend_guard_def db_look_def find_row_update extend_row_def row_key_def)
qed

text \<open>The operation whose acquisition created the lock record keeps its lock: every renewal tick finds
  its record and moves the lease to a full lease from the tick.\<close>

theorem first_owner_renews:
  assumes "db_ok s" "db_faults s = []" "lock_look lib s = None" "op \<noteq> []"
  shows "\<exists>lk s1. sys_acquire (Some sql_repo) lib svc op t s = (Inr lk, s1) \<and>
    fst (sys_renew sql_repo svc lk t1 s1) = lk \<and>
    (\<exists>r. lock_look lib (snd (sys_renew sql_repo svc lk t1 s1)) = Some r \<and>
       ir_locked_until r = Some (t1 + sv_lease svc))"
proof -
  let ?rec = "new_record systemOperationLockScope (sys_key_hash lib) op (t + sv_lease svc) (t + sv_ttl svc)"
  have c: "sql_create_processing ?rec s = (DbOk (fst (create_stmt ?rec s)), snd (create_stmt ?rec s))"
    using assms(2) by (rule sql_fine)
  obtain rec s1 where cs: "create_stmt ?rec s = ((True, rec), s1)"
    and s1: "db_faults s1 = []"
    using assms(2,3) by (auto simp: create_stmt_def db_look_def Let_def new_record_def)
  note new = sql.create_new [simplified, OF assms(1), of ?rec rec s1]
  have pos: "0 < ir_id rec" and look: "lock_look lib s1 = Some (rec\<lparr>ir_response_status := None,
      ir_response_body := None, ir_error_reason := None\<rparr>)" (is "_ = Some ?r")
    and rec: "ir_fingerprint rec = op" "ir_status rec = StatusProcessing"
    using new c cs by (auto simp: new_record_def)
  have ok: "db_ok s1" using sql.ok_create [simplified, OF assms(1)] c cs by simp
  let ?lk = "\<lparr>lk_record_id = ir_id rec, lk_operation_id = op, lk_stopped = False, lk_renewing = True\<rparr>"
  have "sys_acquire (Some sql_repo) lib svc op t s = (Inr ?lk, s1)"
    using assms(4) c cs pos by (simp add: sys_acquire_def acq_start_def new_lock_def)
  with renew_fine [OF ok s1 look, of ?lk svc t1] rec show ?thesis by auto
qed

text \<open>C33: a lock won by reclaiming the record of another operation is not renewed: the reclaim leaves
  the old operation's fingerprint in the record, the first renewal tick finds no row and ends the
  renewal, and after one lease any other operation acquires the lock although it was not released.\<close>

theorem reclaimed_lock_lost:
  assumes "db_ok s" "db_faults s = []" "lock_look lib s = Some r" "free_at t r"
    and "op \<noteq> []" "ir_fingerprint r \<noteq> op" "op3 \<noteq> []" "t + sv_lease svc \<le> t3"
  shows "\<exists>lk s1. sys_acquire (Some sql_repo) lib svc op t s = (Inr lk, s1) \<and>
    \<not> lk_renewing (fst (sys_renew sql_repo svc lk t1 s1)) \<and>
    (\<exists>lk3 s3. sys_acquire (Some sql_repo) lib svc op3 t3 (snd (sys_renew sql_repo svc lk t1 s1)) = (Inr lk3, s3))"
proof -
  obtain s1 where a: "sys_acquire (Some sql_repo) lib svc op t s =
      (Inr \<lparr>lk_record_id = ir_id r, lk_operation_id = op, lk_stopped = False, lk_renewing = True\<rparr>, s1)"
      (is "_ = (Inr ?lk, _)")
    and s1: "db_ok s1" "db_faults s1 = []"
      "lock_look lib s1 = Some (reclaim_row (t + sv_lease svc) (t + sv_ttl svc) (db_clock s) r)"
    using acquire_existing_fine [OF assms(1,2,3,5,4)] by blast
  have re: "sys_renew sql_repo svc ?lk t1 s1 = (?lk\<lparr>lk_renewing := False\<rparr>, s1)"
    using renew_fine [OF s1, of ?lk svc t1] assms(6) by (simp add: reclaim_row_def split: if_splits)
  have "\<exists>lk3 s3. sys_acquire (Some sql_repo) lib svc op3 t3 s1 = (Inr lk3, s3)"
    using acquire_existing_fine [OF s1 assms(7), of t3 svc] assms(8) by (auto simp: free_at_def reclaim_row_def)
  with a re show ?thesis by auto
qed

text \<open>a release is addressed by the record id alone, so a stale owner's late release frees the lock of
  the present owner: another operation acquires it at once, while the present lease still runs.\<close>

theorem stale_release_frees:
  assumes "db_ok s" "db_faults s = []" "lock_look lib s = Some r" "held T r" "t < T"
    and "lk_record_id stale = ir_id r" "op3 \<noteq> []"
  shows "\<exists>ans lk' s1. sys_release (Some sql_repo) svc (Some stale) succeeded reason t t s = (ans, lk', s1) \<and>
    (\<exists>lk3 s3. sys_acquire (Some sql_repo) lib svc op3 t s1 = (Inr lk3, s3))"
proof -
  obtain ans lk' s1 where rel: "sys_release (Some sql_repo) svc (Some stale) succeeded reason t t s = (ans, lk', s1)"
    using prod_cases3 by blast
  have ok: "db_ok s1" using ok_release [OF assms(1) rel] .
  have "db_faults s1 = [] \<and> (\<exists>r'. lock_look lib s1 = Some r' \<and> free_at t r')"
    using rel assms(2,3,6)
    by (auto simp: sys_release_def sql_fine_lock db_look_def find_row_update free_at_def succeed_row_def fail_row_def
        row_key_def split: if_splits)
  then obtain r' where "db_faults s1 = []" "lock_look lib s1 = Some r'" "free_at t r'" by blast
  from acquire_existing_fine [OF ok this(1,2) assms(7) this(3), of svc] rel show ?thesis by blast
qed


section \<open>The properties at concrete inputs\<close>

definition demo_svc :: lock_service where
  "demo_svc = new_system_operation_lock_service default_idempotency_config"

definition demo_sys :: lock_sys where
  "demo_sys = \<lparr>sy_db = demo_db, sy_now = 100, sy_pending = [], sy_locks = []\<rparr>"

definition demo_start :: "string \<Rightarrow> lock_sys \<Rightarrow> lock_sys" where
  "demo_start op s = (let (a, db) = acq_start (Some sql_repo) demo_lib demo_svc op (sy_now s) (sy_db s)
     in s\<lparr>sy_db := db, sy_pending := sy_pending s @ [a], sy_locks := sy_locks s @ won a\<rparr>)"

lemma demo_start_step: "lock_step demo_lib demo_svc s (EvStart op) (demo_start op s)"
proof -
  obtain a db where eq: "acq_start (Some sql_repo) demo_lib demo_svc op (sy_now s) (sy_db s) = (a, db)"
    by (rule that [OF prod.collapse [symmetric]])
  from lock_step.start [OF eq] eq show ?thesis by (simp add: demo_start_def)
qed

lemma system_lock_exclusive_witness:
  "length (sy_locks (demo_start ''b'' (demo_start ''a'' demo_sys))) = 1"
proof -
  have inv: "lock_inv demo_lib demo_sys" using demo_ok by (simp add: lock_inv_def demo_sys_def)
  have one: "length (sy_locks (demo_start ''a'' demo_sys)) = Suc (length (sy_locks demo_sys))" by code_simp
  have now: "sy_now (demo_start op s) = sy_now s" for op s
    by (simp add: demo_start_def case_prod_unfold Let_def)
  have run: "lock_run demo_lib demo_svc (demo_start ''a'' demo_sys) [EvStart ''b'']
      (demo_start ''b'' (demo_start ''a'' demo_sys))"
    by (rule lock_run.more [OF demo_start_step lock_run.stop])
  have "0 < sv_lease demo_svc" "0 < sv_ttl demo_svc" by code_simp+
  with system_lock_exclusive [OF inv demo_start_step one _ run] one
  show ?thesis by (simp add: now) (simp add: demo_sys_def)
qed

lemma first_owner_renews_witness:
  "\<exists>lk s1. sys_acquire (Some sql_repo) demo_lib demo_svc ''a'' 100 demo_db = (Inr lk, s1) \<and>
    fst (sys_renew sql_repo demo_svc lk 110 s1) = lk \<and>
    (\<exists>r. lock_look demo_lib (snd (sys_renew sql_repo demo_svc lk 110 s1)) = Some r \<and>
       ir_locked_until r = Some (110 + sv_lease demo_svc))"
  by (rule first_owner_renews [OF demo_ok]) (simp_all add: demo_db_def db_look_def find_row_def)

definition demo_lock_row :: "string \<Rightarrow> gotime option \<Rightarrow> idem_record" where
  "demo_lock_row st locked = (new_record systemOperationLockScope (sys_key_hash demo_lib) ''old'' 20 90)
     \<lparr>ir_id := 1, ir_status := st, ir_locked_until := locked\<rparr>"

definition demo_lock_db :: "string \<Rightarrow> gotime option \<Rightarrow> idem_db" where
  "demo_lock_db st locked = \<lparr>db_rows = [demo_lock_row st locked], db_next_id = 2, db_clock = 7, db_faults = []\<rparr>"

lemma demo_lock_db_facts:
  "db_ok (demo_lock_db st locked)" "db_faults (demo_lock_db st locked) = []"
  "lock_look demo_lib (demo_lock_db st locked) = Some (demo_lock_row st locked)"
  by (simp_all add: db_ok_def demo_lock_db_def demo_lock_row_def new_record_def db_look_def find_row_def)

lemma reclaimed_lock_lost_witness:
  "\<exists>lk s1. sys_acquire (Some sql_repo) demo_lib demo_svc ''new'' 100 (demo_lock_db StatusSucceeded None) = (Inr lk, s1) \<and>
    \<not> lk_renewing (fst (sys_renew sql_repo demo_svc lk 110 s1)) \<and>
    (\<exists>lk3 s3. sys_acquire (Some sql_repo) demo_lib demo_svc ''third'' (100 + sv_lease demo_svc)
       (snd (sys_renew sql_repo demo_svc lk 110 s1)) = (Inr lk3, s3))"
  by (rule reclaimed_lock_lost [OF demo_lock_db_facts])
    (simp_all add: demo_lock_row_def new_record_def free_at_def)

lemma stale_release_frees_witness:
  "\<exists>ans lk' s1. sys_release (Some sql_repo) demo_svc
      (Some \<lparr>lk_record_id = 1, lk_operation_id = ''stale'', lk_stopped = False, lk_renewing = False\<rparr>)
      True [] 50 50 (demo_lock_db StatusProcessing (Some 80)) = (ans, lk', s1) \<and>
    (\<exists>lk3 s3. sys_acquire (Some sql_repo) demo_lib demo_svc ''third'' 50 s1 = (Inr lk3, s3))"
  by (rule stale_release_frees [OF demo_lock_db_facts, of 80])
    (simp_all add: demo_lock_row_def new_record_def held_def)

end
