(* ===== verification/Failover.thy ===== *)
theory Failover
  imports Prelude
begin

text \<open>
  Account failover of one request, \<open>handler/failover_loop.go\<close>, with the loops of two of its
  callers: the TypeSafe gateway (\<open>gateway_systemone.go\<close>) and the chat completions gateway
  (\<open>gateway_handler_chat_completions.go\<close>). Each iteration of a loop gets what its
  environment does (selection, profit gate, upstream, client) as a record; logging is left out,
  sleeping and temporary unscheduling are effects of a step.
\<close>

section \<open>Upstream errors\<close>

datatype next_account_action = NextAccountLegacyRetry | NextAccountRetry | NextAccountStop
datatype failure_stage = StageUnset | GatewayFailureStageInference | GatewayFailureStageAccountAuth
datatype failure_scope =
  ScopeUnset | GatewayFailureScopeAccount | GatewayFailureScopeProvider | GatewayFailureScopeRequest

record upstream_failover_error =
  ue_status_code :: int
  ue_force_cache_billing :: bool
  ue_retryable_on_same_account :: bool
  ue_same_account_retry_delay :: duration
  ue_same_account_retry_deadline :: gotime
  ue_same_account_retry_max :: int
  ue_request_scoped_transient :: bool
  ue_stage :: failure_stage
  ue_scope :: failure_scope
  ue_next_account_action :: next_account_action

definition should_retry_next_account :: "upstream_failover_error option \<Rightarrow> bool" where
  "should_retry_next_account e =
     (case e of None \<Rightarrow> False | Some x \<Rightarrow> ue_next_account_action x \<noteq> NextAccountStop)"

definition is_credential_failure :: "upstream_failover_error option \<Rightarrow> bool" where
  "is_credential_failure e =
     (case e of None \<Rightarrow> False | Some x \<Rightarrow> ue_stage x = GatewayFailureStageAccountAuth)"

definition should_report_account_schedule_failure :: "upstream_failover_error option \<Rightarrow> bool" where
  "should_report_account_schedule_failure e =
     (case e of
        None \<Rightarrow> False
      | Some x \<Rightarrow> \<not> is_credential_failure e \<or> ue_scope x = GatewayFailureScopeAccount)"

section \<open>Retries on the same account\<close>

definition maxSameAccountRetries :: int where "maxSameAccountRetries = 3"
definition sameAccountRetryDelay :: duration where "sameAccountRetryDelay = 500 * Millisecond"
definition maxRequestScopedRetryDelay :: duration where "maxRequestScopedRetryDelay = 8 * Second"
definition singleAccountBackoffDelay :: duration where "singleAccountBackoffDelay = 2 * Second"
definition maxProfitVetoAttempts :: int where "maxProfitVetoAttempts = 10"

fun delay_loop :: "nat \<Rightarrow> duration \<Rightarrow> duration" where
  "delay_loop 0 delay = delay"
| "delay_loop (Suc n) delay =
     (if delay \<ge> go_div maxRequestScopedRetryDelay 2 then maxRequestScopedRetryDelay
      else delay_loop n (delay * 2))"

definition same_account_retry_delay_for :: "upstream_failover_error option \<Rightarrow> int \<Rightarrow> duration" where
  "same_account_retry_delay_for err retry_count =
     (case err of
        None \<Rightarrow> sameAccountRetryDelay
      | Some e \<Rightarrow>
          if ue_same_account_retry_delay e > 0 then ue_same_account_retry_delay e
          else if \<not> ue_request_scoped_transient e \<or> retry_count \<le> 1 then sameAccountRetryDelay
          else delay_loop (nat (retry_count - 1)) sameAccountRetryDelay)"

definition same_account_retry_deadline_allows :: "upstream_failover_error option \<Rightarrow> gotime \<Rightarrow> bool" where
  "same_account_retry_deadline_allows err now =
     (case err of
        None \<Rightarrow> True
      | Some e \<Rightarrow> is_zero (ue_same_account_retry_deadline e) \<or> before now (ue_same_account_retry_deadline e))"

definition same_account_retry_allowed :: "upstream_failover_error option \<Rightarrow> int \<Rightarrow> int \<Rightarrow> gotime \<Rightarrow> bool" where
  "same_account_retry_allowed err retry_count retry_limit now =
     (case err of
        None \<Rightarrow> False
      | Some e \<Rightarrow>
          if \<not> ue_retryable_on_same_account e then False
          else if \<not> same_account_retry_deadline_allows err now then False
          else if ue_same_account_retry_max e > 0 then
            (if retry_limit \<le> 0 then False
             else retry_count < (if ue_same_account_retry_max e < retry_limit
                                 then ue_same_account_retry_max e else retry_limit))
          else if \<not> is_zero (ue_same_account_retry_deadline e) then True
          else retry_limit > 0 \<and> retry_count < retry_limit)"

text \<open>
  \<open>GetPoolModeRetryCount\<close>: whether the account is in pool mode with credentials, and the
  number parsed from its credential, if there is one.
\<close>

definition get_pool_mode_retry_count :: "bool \<Rightarrow> int option \<Rightarrow> int" where
  "get_pool_mode_retry_count pool_mode raw =
     (if \<not> pool_mode then 3
      else case raw of
        None \<Rightarrow> 3
      | Some count \<Rightarrow> if count < 0 then 0 else if count > 10 then 10 else count)"

text \<open>The account's limit, if there is an account.\<close>

definition effective_same_account_retry_limit :: "upstream_failover_error option \<Rightarrow> int option \<Rightarrow> int" where
  "effective_same_account_retry_limit err account_limit =
     (case account_limit of
        None \<Rightarrow> 0
      | Some limit \<Rightarrow>
          (case err of
             Some e \<Rightarrow> if limit > 0 \<and> ue_same_account_retry_max e > 0 \<and> ue_same_account_retry_max e < limit
                       then ue_same_account_retry_max e else limit
           | None \<Rightarrow> limit))"

section \<open>The failover state\<close>

datatype failover_action = FailoverContinue | FailoverExhausted | FailoverCanceled

datatype failover_effect = Slept duration | TempUnscheduled int

record failover_state =
  fs_switch_count :: int
  fs_max_switches :: int
  fs_failed :: "int set"
  fs_retry_count :: "int \<Rightarrow> int"
  fs_last_err :: "upstream_failover_error option"
  fs_force_cache_billing :: bool
  fs_has_bound_session :: bool
  fs_vetoed :: "int set"
  fs_veto_count :: int

definition new_failover_state :: "int \<Rightarrow> bool \<Rightarrow> failover_state" where
  "new_failover_state max_switches has_bound_session =
     \<lparr>fs_switch_count = 0, fs_max_switches = max_switches, fs_failed = {}, fs_retry_count = (\<lambda>_. 0),
      fs_last_err = None, fs_force_cache_billing = False, fs_has_bound_session = has_bound_session,
      fs_vetoed = {}, fs_veto_count = 0\<rparr>"

definition record_profit_veto :: "int \<Rightarrow> failover_state \<Rightarrow> failover_action \<times> failover_state" where
  "record_profit_veto account s =
     (let s1 = s\<lparr>fs_failed := insert account (fs_failed s), fs_vetoed := insert account (fs_vetoed s),
                 fs_veto_count := fs_veto_count s + 1\<rparr>
      in (if fs_veto_count s1 \<ge> maxProfitVetoAttempts then FailoverExhausted else FailoverContinue, s1))"

definition all_exclusions_are_profit_vetoed :: "failover_state \<Rightarrow> bool" where
  "all_exclusions_are_profit_vetoed s =
     (if fs_vetoed s = {} \<or> fs_failed s = {} then False else fs_failed s \<subseteq> fs_vetoed s)"

definition need_force_cache_billing :: "bool \<Rightarrow> upstream_failover_error option \<Rightarrow> bool \<Rightarrow> bool" where
  "need_force_cache_billing bound err same_account_retry =
     ((bound \<and> \<not> same_account_retry) \<or> (case err of None \<Rightarrow> False | Some e \<Rightarrow> ue_force_cache_billing e))"

text \<open>\<open>interrupted\<close> says whether the client leaves during a wait; a wait of no length is not interrupted.\<close>

definition sleep_with_context :: "bool \<Rightarrow> duration \<Rightarrow> bool" where
  "sleep_with_context interrupted d = (d \<le> 0 \<or> \<not> interrupted)"

definition handle_failover_error ::
  "bool \<Rightarrow> bool \<Rightarrow> gotime \<Rightarrow> int \<Rightarrow> string \<Rightarrow> int \<Rightarrow> upstream_failover_error option \<Rightarrow> failover_state
     \<Rightarrow> failover_action \<times> failover_state \<times> failover_effect list" where
  "handle_failover_error canceled interrupted now account platform retry_limit err s =
     (if canceled then (FailoverCanceled, s, [])
      else let s0 = s\<lparr>fs_last_err := err\<rparr> in
      if \<not> should_retry_next_account err then (FailoverExhausted, s0, [])
      else
        let retry = same_account_retry_allowed err (fs_retry_count s0 account) retry_limit now;
            s1 = (if need_force_cache_billing (fs_has_bound_session s0) err retry
                  then s0\<lparr>fs_force_cache_billing := True\<rparr> else s0)
        in if retry then
             let s2 = s1\<lparr>fs_retry_count := (fs_retry_count s1)(account := fs_retry_count s1 account + 1)\<rparr>;
                 delay = same_account_retry_delay_for err (fs_retry_count s2 account)
             in (if sleep_with_context interrupted delay then FailoverContinue else FailoverCanceled, s2, [Slept delay])
           else
             let unsched = (case err of
                   Some e \<Rightarrow> if ue_retryable_on_same_account e then [TempUnscheduled account] else []
                 | None \<Rightarrow> []);
                 s2 = s1\<lparr>fs_failed := insert account (fs_failed s1)\<rparr>
             in if fs_switch_count s2 \<ge> fs_max_switches s2 then (FailoverExhausted, s2, unsched)
                else
                  let s3 = s2\<lparr>fs_switch_count := fs_switch_count s2 + 1\<rparr>;
                      delay = (fs_switch_count s3 - 1) * Second
                  in if platform = ''antigravity'' then
                       (if sleep_with_context interrupted delay then FailoverContinue else FailoverCanceled,
                        s3, unsched @ [Slept delay])
                     else (FailoverContinue, s3, unsched))"

definition handle_selection_exhausted ::
  "bool \<Rightarrow> bool \<Rightarrow> failover_state \<Rightarrow> failover_action \<times> failover_state \<times> failover_effect list" where
  "handle_selection_exhausted canceled interrupted s =
     (if canceled then (FailoverCanceled, s, [])
      else if (case fs_last_err s of None \<Rightarrow> False | Some e \<Rightarrow> ue_status_code e = 503) \<and>
              fs_switch_count s \<le> fs_max_switches s then
        (if all_exclusions_are_profit_vetoed s then (FailoverExhausted, s, [])
         else if \<not> sleep_with_context interrupted singleAccountBackoffDelay
         then (FailoverCanceled, s, [Slept singleAccountBackoffDelay])
         else (FailoverContinue, s\<lparr>fs_failed := fs_vetoed s\<rparr>, [Slept singleAccountBackoffDelay]))
      else (FailoverExhausted, s, []))"

lemmas failover_defs [step_defs] =
  record_profit_veto_def handle_failover_error_def handle_selection_exhausted_def

section \<open>The request loops\<close>

text \<open>What happens to a selected account in one iteration.\<close>

datatype attempt =
    SlotRefused
  | Vetoed
  | Answered
  | FailedOtherwise
  | FailedOver bool "upstream_failover_error option"

datatype selection = NoAccount | Selected int string int attempt

record iteration =
  it_gone :: bool
  it_selection :: selection
  it_gone_selecting :: bool
  it_canceled :: bool
  it_interrupted :: bool
  it_now :: gotime

datatype loop_result =
    ClientGone | NoAvailableAccounts | AllExhausted | ProfitVetoExhausted
  | SlotError | Served | ForwardFailed | UpstreamExhausted "upstream_failover_error option"

text \<open>The common part of an iteration that found no account.\<close>

definition no_account_step :: "iteration \<Rightarrow> failover_state \<Rightarrow> loop_result + failover_state" where
  "no_account_step it s =
     (if it_gone_selecting it then Inl ClientGone
      else if fs_failed s = {} then Inl NoAvailableAccounts
      else case handle_selection_exhausted (it_canceled it) (it_interrupted it) s of
             (FailoverContinue, s1, _) \<Rightarrow> Inr s1
           | (FailoverCanceled, _, _) \<Rightarrow> Inl ClientGone
           | (FailoverExhausted, s1, _) \<Rightarrow>
               Inl (if fs_last_err s1 \<noteq> None then UpstreamExhausted (fs_last_err s1) else AllExhausted))"

definition veto_step :: "int \<Rightarrow> failover_state \<Rightarrow> loop_result + failover_state" where
  "veto_step account s =
     (case record_profit_veto account s of
        (FailoverExhausted, _) \<Rightarrow> Inl ProfitVetoExhausted
      | (_, s1) \<Rightarrow> Inr s1)"

definition failed_over_step ::
  "iteration \<Rightarrow> int \<Rightarrow> string \<Rightarrow> int \<Rightarrow> upstream_failover_error option \<Rightarrow> failover_state
     \<Rightarrow> loop_result + failover_state" where
  "failed_over_step it account platform retry_limit err s =
     (case handle_failover_error (it_canceled it) (it_interrupted it) (it_now it) account platform retry_limit err s of
        (FailoverContinue, s1, _) \<Rightarrow> Inr s1
      | (FailoverExhausted, s1, _) \<Rightarrow> Inl (UpstreamExhausted (fs_last_err s1))
      | (FailoverCanceled, _, _) \<Rightarrow> Inl ClientGone)"

text \<open>\<open>gateway_systemone.go\<close>: the platform is not checked and nothing is streamed.\<close>

definition systemone_step :: "iteration \<Rightarrow> failover_state \<Rightarrow> loop_result + failover_state" where
  "systemone_step it s =
     (if it_gone it then Inl ClientGone
      else case it_selection it of
        NoAccount \<Rightarrow> no_account_step it s
      | Selected account platform retry_limit att \<Rightarrow>
          (case att of
             SlotRefused \<Rightarrow> Inl SlotError
           | Vetoed \<Rightarrow> veto_step account s
           | FailedOver _ err \<Rightarrow> failed_over_step it account platform retry_limit err s
           | FailedOtherwise \<Rightarrow> Inl ForwardFailed
           | _ \<Rightarrow> Inl Served))"

text \<open>
  \<open>ChatCompletions\<close>: a Gemini group skips an account of another platform, and an upstream
  error after the response has begun ends the request.
\<close>

definition chat_completions_step :: "bool \<Rightarrow> iteration \<Rightarrow> failover_state \<Rightarrow> loop_result + failover_state" where
  "chat_completions_step gemini_group it s =
     (if it_gone it then Inl ClientGone
      else case it_selection it of
        NoAccount \<Rightarrow> no_account_step it s
      | Selected account platform retry_limit att \<Rightarrow>
          if att = SlotRefused then Inl SlotError
          else if att = Vetoed then veto_step account s
          else if gemini_group \<and> platform \<noteq> ''gemini'' then Inr (s\<lparr>fs_failed := insert account (fs_failed s)\<rparr>)
          else case att of
             FailedOver written err \<Rightarrow>
               if written then Inl (UpstreamExhausted err)
               else failed_over_step it account platform retry_limit err s
           | FailedOtherwise \<Rightarrow> Inl ForwardFailed
           | _ \<Rightarrow> Inl Served)"

text \<open>A loop over the iterations its environment supplies; None when it is still running after them.\<close>

fun run_loop :: "(iteration \<Rightarrow> failover_state \<Rightarrow> loop_result + failover_state) \<Rightarrow> iteration list \<Rightarrow> failover_state
    \<Rightarrow> loop_result option" where
  "run_loop step [] s = None"
| "run_loop step (it # its) s = (case step it s of Inl r \<Rightarrow> Some r | Inr s1 \<Rightarrow> run_loop step its s1)"


section \<open>Waiting times\<close>

lemma delay_loop_bound:
  assumes "0 < d" "d \<le> maxRequestScopedRetryDelay"
  shows "delay_loop n d = min maxRequestScopedRetryDelay (d * 2 ^ n)"
  using assms
proof (induction n arbitrary: d)
  case (Suc n)
  show ?case
  proof (cases "d \<ge> go_div maxRequestScopedRetryDelay 2")
    case True
    then have "maxRequestScopedRetryDelay \<le> d * 2" by (simp add: maxRequestScopedRetryDelay_def)
    also have "d * 2 \<le> d * 2 ^ Suc n" using Suc.prems(1) by simp
    finally show ?thesis using True by simp
  next
    case False
    then have "d * 2 \<le> maxRequestScopedRetryDelay" by (simp add: maxRequestScopedRetryDelay_def)
    with Suc.IH [of "d * 2"] Suc.prems(1) False show ?thesis by (simp add: mult.assoc)
  qed
qed simp

text \<open>the wait before the n-th retry of a request-scoped transient error is half a second doubled n-1
  times and never more than eight seconds.\<close>

theorem request_scoped_backoff:
  assumes "ue_request_scoped_transient e" "ue_same_account_retry_delay e \<le> 0" "1 \<le> n"
  shows "same_account_retry_delay_for (Some e) n = min (8 * Second) (500 * Millisecond * 2 ^ nat (n - 1))"
  using assms delay_loop_bound [of sameAccountRetryDelay "nat (n - 1)"]
  by (cases "n = 1") (simp_all add: same_account_retry_delay_for_def sameAccountRetryDelay_def maxRequestScopedRetryDelay_def)

section \<open>The states of a request\<close>

inductive loop_state ::
  "(iteration \<Rightarrow> failover_state \<Rightarrow> loop_result + failover_state) \<Rightarrow> failover_state \<Rightarrow> failover_state \<Rightarrow> bool"
  for step s0 where
  start: "loop_state step s0 s0"
| again: "loop_state step s0 s \<Longrightarrow> step it s = Inr s1 \<Longrightarrow> loop_state step s0 s1"

definition failover_inv :: "failover_state \<Rightarrow> bool" where
  "failover_inv s \<longleftrightarrow> fs_vetoed s \<subseteq> fs_failed s \<and> finite (fs_failed s) \<and>
     0 \<le> fs_switch_count s \<and> fs_switch_count s \<le> fs_max_switches s \<and>
     0 \<le> fs_veto_count s \<and> fs_veto_count s < maxProfitVetoAttempts \<and>
     int (card (fs_vetoed s)) \<le> fs_veto_count s"

lemma no_account_stepD:
  "no_account_step it s = Inr s1 \<Longrightarrow> s1 = s\<lparr>fs_failed := fs_vetoed s\<rparr> \<and> \<not> fs_failed s \<subseteq> fs_vetoed s"
  by (auto simp: no_account_step_def handle_selection_exhausted_def all_exclusions_are_profit_vetoed_def
      split: if_splits option.splits)

lemma veto_stepD:
  "veto_step a s = Inr s1 \<Longrightarrow> s1 = s\<lparr>fs_failed := insert a (fs_failed s), fs_vetoed := insert a (fs_vetoed s),
     fs_veto_count := fs_veto_count s + 1\<rparr> \<and> fs_veto_count s + 1 < maxProfitVetoAttempts"
  by (auto simp: veto_step_def record_profit_veto_def Let_def split: if_splits)

text \<open>An upstream error that does not end the request retries the account or switches.\<close>

lemma failed_over_stepD:
  assumes "failed_over_step it a p l err s = Inr s1"
  shows "\<exists>force. same_account_retry_allowed err (fs_retry_count s a) l (it_now it) \<and>
      s1 = s\<lparr>fs_last_err := err, fs_force_cache_billing := force,
             fs_retry_count := (fs_retry_count s)(a := fs_retry_count s a + 1)\<rparr> \<or>
    fs_switch_count s < fs_max_switches s \<and>
      s1 = s\<lparr>fs_last_err := err, fs_force_cache_billing := force, fs_failed := insert a (fs_failed s),
             fs_switch_count := fs_switch_count s + 1\<rparr>"
  using assms
  by (cases s) (auto simp: failed_over_step_def handle_failover_error_def Let_def split: if_splits prod.splits option.splits)


lemma inv_no_account: "failover_inv s \<Longrightarrow> no_account_step it s = Inr s1 \<Longrightarrow> failover_inv s1"
  by (drule no_account_stepD) (auto simp: failover_inv_def intro: finite_subset)

lemma inv_veto: "failover_inv s \<Longrightarrow> veto_step a s = Inr s1 \<Longrightarrow> failover_inv s1"
  by (drule veto_stepD) (auto simp: failover_inv_def card_insert_if dest: finite_subset)

lemma inv_failed_over: "failover_inv s \<Longrightarrow> failed_over_step it a p l err s = Inr s1 \<Longrightarrow> failover_inv s1"
  by (drule failed_over_stepD) (auto simp: failover_inv_def)

lemma inv_systemone: "failover_inv s \<Longrightarrow> systemone_step it s = Inr s1 \<Longrightarrow> failover_inv s1"
  by (auto simp: systemone_step_def split: if_splits selection.splits attempt.splits
      intro: inv_no_account inv_veto inv_failed_over)

lemma inv_chat_completions: "failover_inv s \<Longrightarrow> chat_completions_step g it s = Inr s1 \<Longrightarrow> failover_inv s1"
  by (auto simp: chat_completions_step_def split: if_splits selection.splits attempt.splits
      intro: inv_no_account inv_veto inv_failed_over) (auto simp: failover_inv_def)

lemma inv_new: "0 \<le> m \<Longrightarrow> failover_inv (new_failover_state m b)"
  by (simp add: failover_inv_def new_failover_state_def maxProfitVetoAttempts_def)

text \<open>in every state either request loop reaches, an account rejected by the profit gate stays excluded
  from selection, no more accounts have been switched than allowed, and fewer than ten
  rejections have been recorded, one per rejected account or more.\<close>

theorem failover_invariant:
  assumes "0 \<le> max_switches" "step = systemone_step \<or> step = chat_completions_step gemini"
    and "loop_state step (new_failover_state max_switches bound) s"
  shows "fs_vetoed s \<subseteq> fs_failed s \<and> 0 \<le> fs_switch_count s \<and> fs_switch_count s \<le> fs_max_switches s \<and>
    fs_veto_count s < maxProfitVetoAttempts \<and> int (card (fs_vetoed s)) \<le> fs_veto_count s"
proof -
  have "failover_inv s"
    using assms(3)
  proof induction
    case start
    show ?case using assms(1) by (rule inv_new)
  next
    case (again s it s1)
    with assms(2) inv_systemone inv_chat_completions show ?case by blast
  qed
  then show ?thesis by (simp add: failover_inv_def)
qed

section \<open>Termination of the request loop\<close>

text \<open>
  An environment whose accounts come from a finite set, with retry limits as
  \<open>GetPoolModeRetryCount\<close> gives them and without errors that may be retried until a deadline.
\<close>

definition bounded_error :: "upstream_failover_error option \<Rightarrow> bool" where
  "bounded_error err = (case err of None \<Rightarrow> True
     | Some e \<Rightarrow> is_zero (ue_same_account_retry_deadline e) \<or> 0 < ue_same_account_retry_max e)"

fun bounded_selection :: "int set \<Rightarrow> selection \<Rightarrow> bool" where
  "bounded_selection A NoAccount = True"
| "bounded_selection A (Selected a p l (FailedOver w err)) = (a \<in> A \<and> l \<le> 10 \<and> bounded_error err)"
| "bounded_selection A (Selected a p l att) = (a \<in> A)"

definition remaining :: "int set \<Rightarrow> failover_state \<Rightarrow> nat" where
  "remaining A s =
     2 * nat (fs_max_switches s - fs_switch_count s) + (if fs_failed s \<subseteq> fs_vetoed s then 0 else 1) +
     nat (maxProfitVetoAttempts - fs_veto_count s) + (\<Sum>a \<in> A. nat (10 - fs_retry_count s a))"

lemma bounded_retry:
  "same_account_retry_allowed err c l now \<Longrightarrow> bounded_error err \<Longrightarrow> l \<le> 10 \<Longrightarrow> c < 10"
  by (auto simp: same_account_retry_allowed_def bounded_error_def split: option.splits if_splits)

lemma remaining_no_account: "no_account_step it s = Inr s1 \<Longrightarrow> remaining A s1 < remaining A s"
  by (drule no_account_stepD) (auto simp: remaining_def)

lemma remaining_veto: "veto_step a s = Inr s1 \<Longrightarrow> remaining A s1 < remaining A s"
  by (drule veto_stepD) (auto simp: remaining_def maxProfitVetoAttempts_def)

lemma remaining_failed_over:
  assumes "finite A" "a \<in> A" "l \<le> 10" "bounded_error err" "failed_over_step it a p l err s = Inr s1"
  shows "remaining A s1 < remaining A s"
proof -
  consider force where "fs_retry_count s a < 10"
      "s1 = s\<lparr>fs_last_err := err, fs_force_cache_billing := force,
             fs_retry_count := (fs_retry_count s)(a := fs_retry_count s a + 1)\<rparr>"
    | force where "fs_switch_count s < fs_max_switches s"
      "s1 = s\<lparr>fs_last_err := err, fs_force_cache_billing := force, fs_failed := insert a (fs_failed s),
             fs_switch_count := fs_switch_count s + 1\<rparr>"
    using failed_over_stepD [OF assms(5)] bounded_retry [OF _ assms(4,3)] by blast
  then show ?thesis
  proof cases
    case 1
    have "(\<Sum>b \<in> A. nat (10 - (if b = a then fs_retry_count s a + 1 else fs_retry_count s b)))
        < (\<Sum>b \<in> A. nat (10 - fs_retry_count s b))"
      using assms(1,2) 1(1) by (intro sum_strict_mono_ex1) auto
    with 1(2) show ?thesis by (simp add: remaining_def fun_upd_def)
  qed (auto simp: remaining_def)
qed

lemma remaining_systemone:
  "finite A \<Longrightarrow> bounded_selection A (it_selection it) \<Longrightarrow> systemone_step it s = Inr s1 \<Longrightarrow> remaining A s1 < remaining A s"
  by (auto simp: systemone_step_def split: if_splits selection.splits attempt.splits
      intro: remaining_no_account remaining_veto remaining_failed_over)

lemma remaining_chat_completions:
  "finite A \<Longrightarrow> bounded_selection A (it_selection it) \<Longrightarrow> chat_completions_step False it s = Inr s1 \<Longrightarrow>
     remaining A s1 < remaining A s"
  by (auto simp: chat_completions_step_def split: if_splits selection.splits attempt.splits
      intro: remaining_no_account remaining_veto remaining_failed_over)

lemma run_loop_bound:
  assumes "\<And>it s s1. P it \<Longrightarrow> step it s = Inr s1 \<Longrightarrow> m s1 < (m s :: nat)"
  shows "\<forall>it \<in> set its. P it \<Longrightarrow> m s < length its \<Longrightarrow> run_loop step its s \<noteq> None"
proof (induction its arbitrary: s)
  case (Cons it its)
  show ?case
  proof (cases "step it s")
    case (Inr s1)
    with assms [of it s s1] Cons show ?thesis by force
  qed simp
qed simp


text \<open>Two iterations: an account of another platform is offered and skipped, then nothing is offered.\<close>

definition wrong_platform_round :: "int \<Rightarrow> iteration list" where
  "wrong_platform_round b =
     [\<lparr>it_gone = False, it_selection = Selected b ''antigravity'' 3 Answered, it_gone_selecting = False,
       it_canceled = False, it_interrupted = False, it_now = 0\<rparr>,
      \<lparr>it_gone = False, it_selection = NoAccount, it_gone_selecting = False,
       it_canceled = False, it_interrupted = False, it_now = 0\<rparr>]"

lemma wrong_platform_livelock:
  assumes "fs_last_err s = Some e" "ue_status_code e = 503" "fs_switch_count s \<le> fs_max_switches s" "fs_vetoed s = {}"
  shows "run_loop (chat_completions_step True) (concat (replicate n (wrong_platform_round b))) s = None"
  using assms
proof (induction n arbitrary: s)
  case (Suc n)
  have "run_loop (chat_completions_step True) (concat (replicate (Suc n) (wrong_platform_round b))) s =
    run_loop (chat_completions_step True) (concat (replicate n (wrong_platform_round b))) (s\<lparr>fs_failed := {}\<rparr>)"
    using Suc.prems
    by (simp add: wrong_platform_round_def chat_completions_step_def no_account_step_def handle_selection_exhausted_def
        all_exclusions_are_profit_vetoed_def sleep_with_context_def)
  with Suc show ?case by simp
qed simp

text \<open>in a Gemini group the chat completions loop can run for ever without an upstream request: after one
  503 from the only Gemini account, a selector that keeps offering the same account of another
  platform whenever it is not excluded, and nothing else, keeps the loop going.\<close>

theorem gemini_group_livelock:
  assumes "ue_status_code e = 503" "ue_next_account_action e \<noteq> NextAccountStop" "\<not> ue_retryable_on_same_account e"
    and "0 < max_switches"
  shows "run_loop (chat_completions_step True)
    (\<lparr>it_gone = False, it_selection = Selected a ''gemini'' 3 (FailedOver False (Some e)), it_gone_selecting = False,
      it_canceled = False, it_interrupted = False, it_now = 0\<rparr> # concat (replicate n (wrong_platform_round b)))
    (new_failover_state max_switches bound) = None"
  using assms wrong_platform_livelock [where e = e and n = n and b = b]
  by (simp add: chat_completions_step_def failed_over_step_def handle_failover_error_def new_failover_state_def
      should_retry_next_account_def same_account_retry_allowed_def Let_def)


section \<open>The properties at concrete inputs\<close>

definition demo_error :: "int \<Rightarrow> bool \<Rightarrow> upstream_failover_error" where
  "demo_error code transient =
     \<lparr>ue_status_code = code, ue_force_cache_billing = False, ue_retryable_on_same_account = False,
      ue_same_account_retry_delay = 0, ue_same_account_retry_deadline = 0, ue_same_account_retry_max = 0,
      ue_request_scoped_transient = transient, ue_stage = StageUnset, ue_scope = ScopeUnset,
      ue_next_account_action = NextAccountLegacyRetry\<rparr>"

lemma request_scoped_backoff_witness:
  "same_account_retry_delay_for (Some (demo_error 503 True)) 4 = 4 * Second"
  using request_scoped_backoff [of "demo_error 503 True" 4] by (simp add: demo_error_def)

definition demo_iteration :: "selection \<Rightarrow> iteration" where
  "demo_iteration sel = \<lparr>it_gone = False, it_selection = sel, it_gone_selecting = False,
     it_canceled = False, it_interrupted = False, it_now = 0\<rparr>"

lemma failover_invariant_witness:
  "\<exists>s. loop_state systemone_step (new_failover_state 3 True) s \<and> fs_vetoed s = {7} \<and> fs_vetoed s \<subseteq> fs_failed s"
proof -
  obtain s where step: "systemone_step (demo_iteration (Selected 7 ''x'' 3 Vetoed)) (new_failover_state 3 True) = Inr s"
    and s: "fs_vetoed s = {7}"
    by (simp add: systemone_step_def demo_iteration_def veto_step_def record_profit_veto_def maxProfitVetoAttempts_def
        new_failover_state_def Let_def)
  have reach: "loop_state systemone_step (new_failover_state 3 True) s"
    using loop_state.again [where step = systemone_step, OF loop_state.start step] .
  have "fs_vetoed s \<subseteq> fs_failed s"
    using failover_invariant [of 3 systemone_step False True s] reach by simp
  with reach s show ?thesis by blast
qed


lemma gemini_group_livelock_witness:
  "run_loop (chat_completions_step True)
    (\<lparr>it_gone = False, it_selection = Selected 1 ''gemini'' 3 (FailedOver False (Some (demo_error 503 False))),
      it_gone_selecting = False, it_canceled = False, it_interrupted = False, it_now = 0\<rparr>
     # concat (replicate 1000 (wrong_platform_round 2))) (new_failover_state 3 True) = None"
  by (rule gemini_group_livelock) (simp_all add: demo_error_def)

end
