(* ===== verification/Payment_Store.thy ===== *)
theory Payment_Store
  imports Currency Workers
begin

text \<open>
  The tables the payment service works on and its statements: orders, redeem codes, users,
  subscriptions, the audit log. Every statement or transaction of the service is one function on
  the database, as the database runs it atomically. A worker issues its statements through
  \<open>call\<close>: before each of them any statements of other workers may run, and each may be refused or
  lose its acknowledgement. The ledger of balance movements and the list of rebates are history
  variables; no operation reads them.
\<close>

section \<open>Constants\<close>

definition OrderStatusPending :: string where "OrderStatusPending = ''PENDING''"
definition OrderStatusPaid :: string where "OrderStatusPaid = ''PAID''"
definition OrderStatusRecharging :: string where "OrderStatusRecharging = ''RECHARGING''"
definition OrderStatusCompleted :: string where "OrderStatusCompleted = ''COMPLETED''"
definition OrderStatusExpired :: string where "OrderStatusExpired = ''EXPIRED''"
definition OrderStatusCancelled :: string where "OrderStatusCancelled = ''CANCELLED''"
definition OrderStatusFailed :: string where "OrderStatusFailed = ''FAILED''"
definition OrderStatusRefundRequested :: string where "OrderStatusRefundRequested = ''REFUND_REQUESTED''"
definition OrderStatusRefunding :: string where "OrderStatusRefunding = ''REFUNDING''"
definition OrderStatusRefundPending :: string where "OrderStatusRefundPending = ''REFUND_PENDING''"
definition OrderStatusPartiallyRefunded :: string where "OrderStatusPartiallyRefunded = ''PARTIALLY_REFUNDED''"
definition OrderStatusRefunded :: string where "OrderStatusRefunded = ''REFUNDED''"
definition OrderStatusRefundFailed :: string where "OrderStatusRefundFailed = ''REFUND_FAILED''"

lemmas order_status_defs [status_simps] =
  OrderStatusPending_def OrderStatusPaid_def OrderStatusRecharging_def OrderStatusCompleted_def
  OrderStatusExpired_def OrderStatusCancelled_def OrderStatusFailed_def OrderStatusRefundRequested_def
  OrderStatusRefunding_def OrderStatusRefundPending_def OrderStatusPartiallyRefunded_def
  OrderStatusRefunded_def OrderStatusRefundFailed_def

definition OrderTypeBalance :: string where "OrderTypeBalance = ''balance''"
definition OrderTypeSubscription :: string where "OrderTypeSubscription = ''subscription''"
definition DeductionTypeBalance :: string where "DeductionTypeBalance = ''balance''"
definition DeductionTypeSubscription :: string where "DeductionTypeSubscription = ''subscription''"
definition DeductionTypeNone :: string where "DeductionTypeNone = ''none''"

lemmas order_type_defs [status_simps] =
  OrderTypeBalance_def OrderTypeSubscription_def
  DeductionTypeBalance_def DeductionTypeSubscription_def DeductionTypeNone_def

definition StatusUnused :: string where "StatusUnused = ''unused''"
definition StatusUsed :: string where "StatusUsed = ''used''"
definition StatusExpired :: string where "StatusExpired = ''expired''"
definition RedeemTypeBalance :: string where "RedeemTypeBalance = ''balance''"

lemmas redeem_status_defs [status_simps] =
  StatusUnused_def StatusUsed_def StatusExpired_def RedeemTypeBalance_def

section \<open>Tables\<close>

record pay_order =
  po_id :: int
  po_user_id :: int
  po_amount :: rat
  po_pay_amount :: rat
  po_bonus_amount :: rat
  po_currency :: string
  po_order_type :: string
  po_status :: string
  po_recharge_code :: string
  po_sub_group :: "int option"
  po_sub_days :: "int option"
  po_trade_no :: string
  po_out_trade_no :: string
  po_payment_type :: string
  po_paid_at :: "gotime option"
  po_completed_at :: "gotime option"
  po_failed_at :: "gotime option"
  po_failed_reason :: "string option"
  po_refund_amount :: rat
  po_refund_reason :: "string option"
  po_refund_at :: "gotime option"
  po_force_refund :: bool
  po_refund_request_reason :: "string option"
  po_refund_requested_at :: "gotime option"
  po_updated_at :: gotime
  po_expires_at :: gotime

record redeem_code =
  rc_code :: string
  rc_type :: string
  rc_value :: f64
  rc_status :: string
  rc_used_by :: "int option"
  rc_expires_at :: "gotime option"

record pay_user =
  us_balance :: rat
  us_total_recharged :: rat

record pay_sub =
  sb_id :: int
  sb_user :: int
  sb_group :: int
  sb_expires_at :: gotime
  sb_status :: string
  sb_notes :: string

text \<open>\<open>refundPendingAuditDetail\<close>, the one audit detail the service reads back.\<close>

record refund_pending_detail =
  rd_refund_id :: string
  rd_refund_amount :: rat
  rd_reason :: string
  rd_force :: bool
  rd_rollback_ok :: bool
  rd_held :: bool
  rd_deduction_type :: string
  rd_balance_deducted :: rat
  rd_sub_days_deducted :: int
  rd_subscription_id :: int
  rd_requested_at :: gotime

datatype audit_detail = PlainDetail | PendingDetail refund_pending_detail

record audit_entry =
  au_order :: int
  au_action :: string
  au_operator :: string
  au_detail :: audit_detail
  au_created_at :: gotime

datatype cause = ByRedeem string | ByRefund int | ByOther

record movement =
  mv_user :: int
  mv_delta :: rat
  mv_cause :: cause

record pay_db =
  pd_orders :: "int \<Rightarrow> pay_order option"
  pd_by_out_trade_no :: "string \<Rightarrow> int option"
  pd_codes :: "string \<Rightarrow> redeem_code option"
  pd_users :: "int \<Rightarrow> pay_user option"
  pd_subs :: "pay_sub list"
  pd_next_sub :: int
  pd_audit :: "audit_entry list"
  pd_ledger :: "movement list"
  pd_rebates :: "(int \<times> int \<times> rat) list"
  pd_clock :: gotime

section \<open>Statements\<close>

text \<open>An update of one order that matches a condition; every update stamps \<open>updated_at\<close>.\<close>

definition update_order ::
  "int \<Rightarrow> (pay_order \<Rightarrow> bool) \<Rightarrow> (pay_order \<Rightarrow> pay_order) \<Rightarrow> pay_db \<Rightarrow> int \<times> pay_db" where
  "update_order oid p f db =
     (case pd_orders db oid of
        None \<Rightarrow> (0, db)
      | Some o' \<Rightarrow>
          if p o' then (1, db\<lparr>pd_orders := (pd_orders db)(oid \<mapsto> f (o'\<lparr>po_updated_at := pd_clock db\<rparr>))\<rparr>)
          else (0, db))"

text \<open>\<open>(order_id, action)\<close> is unique (migration 131): a second entry is refused.\<close>

definition has_audit :: "int \<Rightarrow> string \<Rightarrow> pay_db \<Rightarrow> bool" where
  "has_audit oid action db = list_ex (\<lambda>a. au_order a = oid \<and> au_action a = action) (pd_audit db)"

definition insert_audit :: "int \<Rightarrow> string \<Rightarrow> string \<Rightarrow> audit_detail \<Rightarrow> pay_db \<Rightarrow> pay_db option" where
  "insert_audit oid action op detail db =
     (if has_audit oid action db then None
      else Some (db\<lparr>pd_audit := pd_audit db @
        [\<lparr>au_order = oid, au_action = action, au_operator = op, au_detail = detail,
          au_created_at = pd_clock db\<rparr>]\<rparr>))"

definition move_balance :: "int \<Rightarrow> rat \<Rightarrow> cause \<Rightarrow> pay_user \<Rightarrow> pay_db \<Rightarrow> pay_db" where
  "move_balance uid delta c u db =
     db\<lparr>pd_users := (pd_users db)(uid \<mapsto> u\<lparr>us_balance := us_balance u + delta\<rparr>),
        pd_ledger := pd_ledger db @ [\<lparr>mv_user = uid, mv_delta = delta, mv_cause = c\<rparr>]\<rparr>"

text \<open>\<open>UpdateBalance\<close> of the user repository; a credit also counts as recharged.\<close>

definition update_balance :: "int \<Rightarrow> rat \<Rightarrow> cause \<Rightarrow> pay_db \<Rightarrow> pay_db option" where
  "update_balance uid amount c db =
     (case pd_users db uid of
        None \<Rightarrow> None
      | Some u \<Rightarrow> Some (move_balance uid amount c
          (if amount > 0 then u\<lparr>us_total_recharged := us_total_recharged u + amount\<rparr> else u) db))"

text \<open>\<open>DeductAvailableBalance\<close>: at most what is there, never below zero.\<close>

definition deduct_available_balance :: "int \<Rightarrow> rat \<Rightarrow> cause \<Rightarrow> pay_db \<Rightarrow> rat option \<times> pay_db" where
  "deduct_available_balance uid amount c db =
     (if amount < 0 then (None, db)
      else case pd_users db uid of
        None \<Rightarrow> (None, db)
      | Some u \<Rightarrow>
          let deducted = min amount (max (us_balance u) 0)
          in (Some deducted, move_balance uid (- deducted) c u db))"

text \<open>\<open>ApplyRedeemBalanceAdjustment\<close>: a negative adjustment stops at zero.\<close>

definition apply_redeem_balance_adjustment :: "int \<Rightarrow> rat \<Rightarrow> cause \<Rightarrow> pay_db \<Rightarrow> pay_db option" where
  "apply_redeem_balance_adjustment uid delta c db =
     (case pd_users db uid of
        None \<Rightarrow> None
      | Some u \<Rightarrow> Some (move_balance uid (max (us_balance u + delta) 0 - us_balance u) c u db))"

text \<open>
  The transaction of a redemption: mark the code used where it is still unused, then move the
  balance. A failure of either part undoes both.
\<close>

datatype redeem_outcome = RedeemUsed | RedeemFailed | RedeemDone

definition redeem_tx :: "int \<Rightarrow> string \<Rightarrow> pay_db \<Rightarrow> redeem_outcome \<times> pay_db" where
  "redeem_tx uid code db =
     (case pd_codes db code of
        None \<Rightarrow> (RedeemUsed, db)
      | Some r \<Rightarrow>
          if rc_status r \<noteq> StatusUnused then (RedeemUsed, db)
          else
            let db1 = db\<lparr>pd_codes := (pd_codes db)(code \<mapsto> r\<lparr>rc_status := StatusUsed, rc_used_by := Some uid\<rparr>)\<rparr>;
                moved = (case rc_value r of
                    Fin v \<Rightarrow> if v < 0 then apply_redeem_balance_adjustment uid v (ByRedeem code) db1
                              else update_balance uid v (ByRedeem code) db1
                  | _ \<Rightarrow> None)
            in (case moved of None \<Rightarrow> (RedeemFailed, db) | Some db2 \<Rightarrow> (RedeemDone, db2)))"

definition create_code :: "redeem_code \<Rightarrow> pay_db \<Rightarrow> bool \<times> pay_db" where
  "create_code r db =
     (if pd_codes db (rc_code r) \<noteq> None then (False, db)
      else (True, db\<lparr>pd_codes := (pd_codes db)(rc_code r \<mapsto> r)\<rparr>))"

section \<open>Workers\<close>

type_synonym pay_world = "pay_db world"

definition now_of :: "pay_world \<Rightarrow> gotime" where
  "now_of w = pd_clock (pw_db w)"

text \<open>\<open>writeAuditLog\<close> and \<open>hasAuditLog\<close>: failures are logged or read as absence.\<close>

definition write_audit_log :: "int \<Rightarrow> string \<Rightarrow> string \<Rightarrow> pay_world \<Rightarrow> pay_world" where
  "write_audit_log oid action op w =
     snd (call (\<lambda>db. ((), case insert_audit oid action op PlainDetail db of None \<Rightarrow> db | Some db' \<Rightarrow> db')) w)"

definition has_audit_log :: "int \<Rightarrow> string \<Rightarrow> pay_world \<Rightarrow> bool \<times> pay_world" where
  "has_audit_log oid action w =
     (case call (\<lambda>db. (has_audit oid action db, db)) w of
        (DbOk b, w') \<Rightarrow> (b, w') | (DbErr, w') \<Rightarrow> (False, w'))"

definition get_order :: "int \<Rightarrow> pay_world \<Rightarrow> pay_order option answer \<times> pay_world" where
  "get_order oid = call (\<lambda>db. (pd_orders db oid, db))"

section \<open>What every statement keeps\<close>

text \<open>The movements a redeem code has caused.\<close>

definition code_moves :: "string \<Rightarrow> pay_db \<Rightarrow> movement list" where
  "code_moves c db = filter (\<lambda>m. mv_cause m = ByRedeem c) (pd_ledger db)"

definition code_inv :: "pay_db \<Rightarrow> string \<Rightarrow> bool" where
  "code_inv db c =
     (case pd_codes db c of
        None \<Rightarrow> code_moves c db = []
      | Some r \<Rightarrow>
          if rc_status r = StatusUsed then
            (case (rc_used_by r, code_moves c db) of
               (Some u, [m]) \<Rightarrow> mv_user m = u \<and> (case rc_value r of Fin v \<Rightarrow> 0 \<le> v \<longrightarrow> mv_delta m = v | _ \<Rightarrow> True)
             | _ \<Rightarrow> False)
          else code_moves c db = [])"

definition rebates_of :: "int \<Rightarrow> pay_db \<Rightarrow> (int \<times> int \<times> rat) list" where
  "rebates_of oid db = filter (\<lambda>(i, u, x). i = oid) (pd_rebates db)"

definition rebate_claimed :: "int \<Rightarrow> pay_db \<Rightarrow> bool" where
  "rebate_claimed oid db \<longleftrightarrow>
     has_audit oid ''AFFILIATE_REBATE_APPLIED'' db \<or> has_audit oid ''AFFILIATE_REBATE_SKIPPED'' db"

definition pay_inv :: "pay_db \<Rightarrow> bool" where
  "pay_inv db \<longleftrightarrow> (\<forall>c. code_inv db c) \<and>
     (\<forall>oid. length (rebates_of oid db) \<le> 1 \<and> (rebates_of oid db \<noteq> [] \<longrightarrow> rebate_claimed oid db))"

text \<open>A code keeps its content, and a used code keeps its user.\<close>

fun code_le :: "redeem_code option \<Rightarrow> redeem_code option \<Rightarrow> bool" where
  "code_le None r' = True"
| "code_le (Some r) None = False"
| "code_le (Some r) (Some r') = (r' = r \<or> rc_status r = StatusUnused \<and>
     (\<exists>u. r' = r\<lparr>rc_status := StatusUsed, rc_used_by := Some u\<rparr>))"

definition grows :: "pay_db \<Rightarrow> pay_db \<Rightarrow> bool" where
  "grows db db' \<longleftrightarrow> (pay_inv db \<longrightarrow> pay_inv db') \<and> (\<forall>c. code_le (pd_codes db c) (pd_codes db' c))"

lemma status_used_unused [simp]: "StatusUsed \<noteq> StatusUnused" "StatusUnused \<noteq> StatusUsed"
  by (simp_all add: status_simps)

lemma code_le_refl [simp]: "code_le r r"
  by (cases r) auto

lemma code_le_trans: "code_le a b \<Longrightarrow> code_le b c \<Longrightarrow> code_le a c"
  by (cases a; cases b; cases c) auto

lemma grows_refl [simp]: "grows db db"
  by (simp add: grows_def)

lemma grows_trans: "grows a b \<Longrightarrow> grows b c \<Longrightarrow> grows a c"
  unfolding grows_def using code_le_trans by blast

lemma code_inv_cong:
  "pd_codes db' c = pd_codes db c \<Longrightarrow> code_moves c db' = code_moves c db \<Longrightarrow> code_inv db' c = code_inv db c"
  by (simp only: code_inv_def)

text \<open>A statement that touches neither codes, ledger, rebates nor audit log, or adds to them harmlessly.\<close>

lemma grows_other:
  assumes "pd_codes db' = pd_codes db" "pd_rebates db' = pd_rebates db"
    and "\<And>oid. rebate_claimed oid db \<Longrightarrow> rebate_claimed oid db'"
    and "\<And>c. code_moves c db' = code_moves c db"
  shows "grows db db'"
proof -
  have "code_inv db' c = code_inv db c" for c using assms(1,4) by (intro code_inv_cong) simp_all
  moreover have "rebates_of oid db' = rebates_of oid db" for oid using assms(2) by (simp add: rebates_of_def)
  ultimately show ?thesis using assms(1,3) by (auto simp: grows_def pay_inv_def)
qed

lemma grows_update_order: "grows db (snd (update_order oid p f db))"
  by (auto simp: update_order_def rebate_claimed_def has_audit_def code_moves_def split: option.splits intro!: grows_other)

lemma grows_insert_audit: "insert_audit oid action op d db = Some db' \<Longrightarrow> grows db db'"
  by (auto simp: insert_audit_def rebate_claimed_def has_audit_def code_moves_def split: if_splits intro!: grows_other)

lemma grows_move_balance: "\<forall>k. c \<noteq> ByRedeem k \<Longrightarrow> grows db (move_balance uid d c u db)"
  by (auto simp: move_balance_def rebate_claimed_def has_audit_def code_moves_def intro!: grows_other)

lemma grows_update_balance: "\<forall>k. c \<noteq> ByRedeem k \<Longrightarrow> update_balance uid d c db = Some db' \<Longrightarrow> grows db db'"
  by (auto simp: update_balance_def grows_move_balance split: option.splits)

lemma grows_deduct: "\<forall>k. c \<noteq> ByRedeem k \<Longrightarrow> grows db (snd (deduct_available_balance uid d c db))"
  by (auto simp: deduct_available_balance_def grows_move_balance Let_def split: option.splits)

lemma grows_create_code:
  assumes "rc_status r \<noteq> StatusUsed"
  shows "grows db (snd (create_code r db))"
proof (cases "pd_codes db (rc_code r)")
  case None
  let ?db = "db\<lparr>pd_codes := (pd_codes db)(rc_code r \<mapsto> r)\<rparr>"
  have moves: "code_moves c ?db = code_moves c db" for c by (simp add: code_moves_def)
  have "code_inv db c \<Longrightarrow> code_inv ?db c" for c
  proof (cases "c = rc_code r")
    case True
    then show "code_inv db c \<Longrightarrow> code_inv ?db c" using assms None moves by (simp add: code_inv_def)
  next
    case False
    then show "code_inv db c \<Longrightarrow> code_inv ?db c" using code_inv_cong [of ?db c db] moves by simp
  qed
  then have "pay_inv db \<longrightarrow> pay_inv ?db"
    by (simp add: pay_inv_def rebates_of_def rebate_claimed_def has_audit_def)
  with None show ?thesis by (auto simp: create_code_def grows_def)
qed (simp add: create_code_def)

text \<open>A redemption moves a code from unused to used and adds its one movement.\<close>

lemma redeem_tx_cases:
  assumes "redeem_tx uid code db = (out, db')"
  shows "out \<noteq> RedeemDone \<and> db' = db \<or>
    (\<exists>r u d. out = RedeemDone \<and> pd_codes db code = Some r \<and> rc_status r = StatusUnused \<and>
       db' = move_balance uid d (ByRedeem code) u
         (db\<lparr>pd_codes := (pd_codes db)(code \<mapsto> r\<lparr>rc_status := StatusUsed, rc_used_by := Some uid\<rparr>)\<rparr>) \<and>
       (\<forall>v. rc_value r = Fin v \<and> 0 \<le> v \<longrightarrow> d = v))"
  using assms
  by (fastforce simp: redeem_tx_def Let_def update_balance_def apply_redeem_balance_adjustment_def
      split: option.splits if_splits f64.splits)

lemma grows_redeem_tx: "grows db (snd (redeem_tx uid code db))"
proof -
  obtain out db' where eq: "redeem_tx uid code db = (out, db')" by (cases "redeem_tx uid code db")
  from redeem_tx_cases [OF this] show ?thesis
  proof (elim disjE exE conjE)
    fix r u d
    assume code: "pd_codes db code = Some r" "rc_status r = StatusUnused"
      and db': "db' = move_balance uid d (ByRedeem code) u
         (db\<lparr>pd_codes := (pd_codes db)(code \<mapsto> r\<lparr>rc_status := StatusUsed, rc_used_by := Some uid\<rparr>)\<rparr>)"
      and d: "\<forall>v. rc_value r = Fin v \<and> 0 \<le> v \<longrightarrow> d = v"
    have moves: "code_moves c db' = code_moves c db @
        (if c = code then [\<lparr>mv_user = uid, mv_delta = d, mv_cause = ByRedeem code\<rparr>] else [])" for c
      by (simp add: db' move_balance_def code_moves_def)
    have "code_inv db' c" if "code_inv db c" for c
      using that code d moves [of c]
      by (auto simp: code_inv_def db' move_balance_def split: option.splits f64.splits)
    moreover have "rebates_of oid db' = rebates_of oid db" "rebate_claimed oid db' = rebate_claimed oid db" for oid
      by (simp_all add: db' move_balance_def rebates_of_def rebate_claimed_def has_audit_def)
    moreover have "code_le (pd_codes db c) (pd_codes db' c)" for c
      using code by (auto simp: db' move_balance_def)
    ultimately show ?thesis by (simp add: eq grows_def pay_inv_def)
  qed (simp add: eq)
qed

section \<open>Workers and the relations their statements keep\<close>

text \<open>
  The workers of the payment service also write the audit log, which the relation has to allow.
\<close>

locale worker = workers G for G :: "pay_db \<Rightarrow> pay_db \<Rightarrow> bool" +
  assumes G_audit: "insert_audit oid action op detail db = Some db' \<Longrightarrow> G db db'"
begin

lemma progress_write_audit: "progress G w (write_audit_log oid action op w)"
proof -
  have "safe G (\<lambda>db. ((), case insert_audit oid action op PlainDetail db of None \<Rightarrow> db | Some db' \<Rightarrow> db'))"
    by (auto simp: safe_def G_refl G_audit split: option.splits)
  then show ?thesis unfolding write_audit_log_def by (rule progress_callI)
qed

lemma progress_finite [progress_rules]:
  "progress G w (snd a) \<Longrightarrow> progress G w (snd b) \<Longrightarrow> progress G w (snd d) \<Longrightarrow>
     progress G w (snd (case out of RedeemUsed \<Rightarrow> a | RedeemFailed \<Rightarrow> b | RedeemDone \<Rightarrow> d))"
  by (simp split: redeem_outcome.split)

lemma progress_basic [progress_rules]:
  "progress G w (snd (get_order oid w))"
  "progress G w (write_audit_log oid act op w)" "progress G w (snd (has_audit_log oid act w))"
proof -
  show "progress G w (snd (get_order oid w))" by (simp add: get_order_def progress_call_read)
  show "progress G w (write_audit_log oid act op w)" by (rule progress_write_audit)
  show "progress G w (snd (has_audit_log oid act w))"
    unfolding has_audit_log_def by (intro progress_rules) simp_all
qed

end

interpretation growth: worker grows
  by unfold_locales (auto intro: grows_trans grows_insert_audit)

end
