(* ===== verification/Payment_Fulfillment.thy ===== *)
theory Payment_Fulfillment
  imports Payment_Store
begin

text \<open>
  Payment notification and fulfilment, \<open>service/payment_fulfillment.go\<close>, with the parts of the
  redeem and subscription services it relies on. What the service is configured with or takes
  from elsewhere is the record \<open>pay_service\<close>: the provider checks of an order, the groups, the
  Redis lock of a code and the affiliate service. Notification e-mails and logging are left out.
\<close>

datatype pay_error =
    NotFound | OrderNotFound | InvalidOrderType | InvalidStatus | Conflict | DbFailure
  | ProviderMismatch | MetadataMismatch | InvalidAmount | AmountMismatch
  | RedeemLocked | RedeemExpired | AlreadyRedeemed | RedeemNotFound | RedeemInvalid
  | CodeMismatch | GroupInactive | AffiliateFailure | LeaseMissing

type_synonym 'a pay_result = "pay_error + 'a"

record pay_service =
  svc_expected_provider :: "pay_order \<Rightarrow> string"
  svc_metadata_ok :: "pay_order \<Rightarrow> string \<Rightarrow> bool"
  svc_groups :: "int \<Rightarrow> (bool \<times> bool) option"
  svc_lock_granted :: "string \<Rightarrow> bool"
  svc_affiliate :: "(int \<Rightarrow> rat \<Rightarrow> rat option) option"

definition paymentFulfillmentLeaseDuration :: duration where
  "paymentFulfillmentLeaseDuration = 5 * Minute"

definition paymentGraceMinutes :: int where "paymentGraceMinutes = 5"

definition is_refund_status :: "string \<Rightarrow> bool" where
  "is_refund_status s =
     (s \<in> {OrderStatusRefundRequested, OrderStatusRefunding, OrderStatusRefundPending,
            OrderStatusPartiallyRefunded, OrderStatusRefunded, OrderStatusRefundFailed})"

definition is_supported_order_type :: "string \<Rightarrow> bool" where
  "is_supported_order_type t = (t = OrderTypeBalance \<or> t = OrderTypeSubscription)"

section \<open>Lease, completion, failure\<close>

definition lease_free :: "gotime \<Rightarrow> pay_order \<Rightarrow> bool" where
  "lease_free stale_before o' =
     (po_status o' = OrderStatusPaid \<or> po_status o' = OrderStatusFailed \<or>
      (po_status o' = OrderStatusRecharging \<and> po_updated_at o' \<le> stale_before))"

definition take_lease :: "int \<Rightarrow> gotime \<Rightarrow> pay_db \<Rightarrow> int \<times> pay_db" where
  "take_lease oid now = update_order oid (lease_free (now - paymentFulfillmentLeaseDuration))
     (\<lambda>x. x\<lparr>po_status := OrderStatusRecharging, po_updated_at := now,
            po_failed_at := None, po_failed_reason := None\<rparr>)"

text \<open>Microseconds, as \<open>Truncate(time.Microsecond)\<close>.\<close>

definition truncate_micro :: "gotime \<Rightarrow> gotime" where
  "truncate_micro t = t - t mod 1000"

definition acquire_fulfillment_lease :: "int \<Rightarrow> pay_world \<Rightarrow> gotime option pay_result \<times> pay_world" where
  "acquire_fulfillment_lease oid w =
     (let now = truncate_micro (now_of w)
      in case call (take_lease oid now) w of
           (DbErr, w1) \<Rightarrow> (Inl DbFailure, w1)
         | (DbOk updated, w1) \<Rightarrow>
             if updated = 0 then
               (case get_order oid w1 of
                  (DbErr, w2) \<Rightarrow> (Inl DbFailure, w2)
                | (DbOk None, w2) \<Rightarrow> (Inl DbFailure, w2)
                | (DbOk (Some current), w2) \<Rightarrow>
                    (if po_status current = OrderStatusCompleted then Inr None else Inl Conflict, w2))
             else
               (case get_order oid w1 of
                  (DbErr, w2) \<Rightarrow> (Inl DbFailure, w2)
                | (DbOk None, w2) \<Rightarrow> (Inl DbFailure, w2)
                | (DbOk (Some claimed), w2) \<Rightarrow>
                    (if po_status claimed \<noteq> OrderStatusRecharging then Inl Conflict
                     else Inr (Some (po_updated_at claimed)), w2)))"

definition lease_held :: "gotime \<Rightarrow> pay_order \<Rightarrow> bool" where
  "lease_held version x = (po_status x = OrderStatusRecharging \<and> po_updated_at x = version)"

definition complete_stmt :: "int \<Rightarrow> gotime \<Rightarrow> gotime \<Rightarrow> pay_db \<Rightarrow> int \<times> pay_db" where
  "complete_stmt oid version now = update_order oid (lease_held version)
     (\<lambda>x. x\<lparr>po_status := OrderStatusCompleted, po_completed_at := Some now\<rparr>)"

definition fail_stmt :: "int \<Rightarrow> gotime \<Rightarrow> gotime \<Rightarrow> pay_db \<Rightarrow> int \<times> pay_db" where
  "fail_stmt oid version now = update_order oid (lease_held version)
     (\<lambda>x. x\<lparr>po_status := OrderStatusFailed, po_failed_at := Some now,
            po_failed_reason := Some ''fulfilment failed''\<rparr>)"

definition mark_completed :: "pay_order \<Rightarrow> gotime option \<Rightarrow> string \<Rightarrow> pay_world \<Rightarrow> unit pay_result \<times> pay_world" where
  "mark_completed o' lease action w =
     (case lease of
        None \<Rightarrow> (Inl LeaseMissing, w)
      | Some version \<Rightarrow>
          let now = now_of w
          in case call (complete_stmt (po_id o') version now) w of
               (DbErr, w1) \<Rightarrow> (Inl DbFailure, w1)
             | (DbOk updated, w1) \<Rightarrow>
                 if updated = 0 then
                   (case get_order (po_id o') w1 of
                      (DbOk (Some current), w2) \<Rightarrow>
                        (if po_status current = OrderStatusCompleted then Inr () else Inl Conflict, w2)
                    | (_, w2) \<Rightarrow> (Inl Conflict, w2))
                 else
                   (let (present, w2) = has_audit_log (po_id o') action w1
                    in (Inr (), if present then w2 else write_audit_log (po_id o') action ''system'' w2)))"

definition mark_failed :: "int \<Rightarrow> gotime option \<Rightarrow> pay_world \<Rightarrow> pay_world" where
  "mark_failed oid lease w =
     (case lease of
        None \<Rightarrow> w
      | Some version \<Rightarrow>
          let now = now_of w
          in case call (fail_stmt oid version now) w of
               (DbOk c, w1) \<Rightarrow> if c > 0 then write_audit_log oid ''FULFILLMENT_FAILED'' ''system'' w1 else w1
             | (DbErr, w1) \<Rightarrow> w1)"

section \<open>Redeeming\<close>

definition code_expired :: "gotime \<Rightarrow> redeem_code \<Rightarrow> bool" where
  "code_expired now r =
     (if rc_status r = StatusExpired then True
      else rc_status r = StatusUnused \<and>
           (case rc_expires_at r of None \<Rightarrow> False | Some e \<Rightarrow> \<not> after e now))"

definition get_code :: "string \<Rightarrow> pay_world \<Rightarrow> redeem_code option answer \<times> pay_world" where
  "get_code code = call (\<lambda>db. (pd_codes db code, db))"

text \<open>\<open>redeemForPaymentFulfillment\<close>, for the code type of payments.\<close>

definition redeem_for_payment :: "pay_service \<Rightarrow> int \<Rightarrow> string \<Rightarrow> pay_world \<Rightarrow> unit pay_result \<times> pay_world" where
  "redeem_for_payment svc uid code w =
     (if \<not> svc_lock_granted svc code then (Inl RedeemLocked, w)
      else case get_code code w of
        (DbErr, w1) \<Rightarrow> (Inl DbFailure, w1)
      | (DbOk None, w1) \<Rightarrow> (Inl RedeemNotFound, w1)
      | (DbOk (Some r), w1) \<Rightarrow>
          if code_expired (now_of w1) r then (Inl RedeemExpired, w1)
          else if rc_status r \<noteq> StatusUnused then (Inl AlreadyRedeemed, w1)
          else if rc_type r \<noteq> RedeemTypeBalance then (Inl RedeemInvalid, w1)
          else case call (\<lambda>db. (pd_users db uid, db)) w1 of
            (DbErr, w2) \<Rightarrow> (Inl DbFailure, w2)
          | (DbOk None, w2) \<Rightarrow> (Inl DbFailure, w2)
          | (DbOk (Some _), w2) \<Rightarrow>
              (case call (redeem_tx uid code) w2 of
                 (DbErr, w3) \<Rightarrow> (Inl DbFailure, w3)
               | (DbOk RedeemUsed, w3) \<Rightarrow> (Inl AlreadyRedeemed, w3)
               | (DbOk RedeemFailed, w3) \<Rightarrow> (Inl DbFailure, w3)
               | (DbOk RedeemDone, w3) \<Rightarrow>
                   (case get_code code w3 of
                      (DbOk (Some _), w4) \<Rightarrow> (Inr (), w4)
                    | (_, w4) \<Rightarrow> (Inl DbFailure, w4))))"

text \<open>\<open>CreateCode\<close>.\<close>

definition create_redeem_code :: "redeem_code \<Rightarrow> pay_world \<Rightarrow> unit pay_result \<times> pay_world" where
  "create_redeem_code r w =
     (let code = trim_space (rc_code r); r' = r\<lparr>rc_code := code\<rparr>
      in if code = [] then (Inl RedeemInvalid, w)
         else if rc_value r' = Fin 0 then (Inl RedeemInvalid, w)
         else if code_expired (now_of w) r' then (Inl RedeemExpired, w)
         else case call (create_code r') w of
           (DbOk True, w1) \<Rightarrow> (Inr (), w1)
         | (_, w1) \<Rightarrow> (Inl DbFailure, w1))"

datatype redeem_action = RedeemActionCreate | RedeemActionRedeem | RedeemActionSkipCompleted

definition resolve_redeem_action :: "redeem_code option answer \<Rightarrow> redeem_action pay_result" where
  "resolve_redeem_action lookup =
     (case lookup of
        DbErr \<Rightarrow> Inl DbFailure
      | DbOk None \<Rightarrow> Inr RedeemActionCreate
      | DbOk (Some r) \<Rightarrow> Inr (if rc_status r = StatusUsed then RedeemActionSkipCompleted else RedeemActionRedeem))"

definition validate_payment_redeem_code :: "pay_order \<Rightarrow> redeem_code \<Rightarrow> bool" where
  "validate_payment_redeem_code o' r =
     (if rc_code r \<noteq> po_recharge_code o' then False
      else if rc_type r \<noteq> RedeemTypeBalance then False
      else if (case rc_value r of Fin v \<Rightarrow> \<bar>v - po_amount o'\<bar> > 1 / 10 ^ 8 | _ \<Rightarrow> True) then False
      else if rc_status r = StatusUnused then rc_used_by r = None
      else if rc_status r = StatusUsed then rc_used_by r = Some (po_user_id o')
      else False)"

section \<open>Affiliate rebate\<close>

definition order_amount_without_bonus :: "pay_order \<Rightarrow> rat" where
  "order_amount_without_bonus o' =
     (if po_order_type o' \<noteq> OrderTypeBalance \<or> po_bonus_amount o' \<le> 0 then po_amount o'
      else let base = dec_round 2 (po_amount o' - po_bonus_amount o') in if base < 0 then 0 else base)"

definition affiliate_rebate_base_amount :: "pay_order \<Rightarrow> rat" where
  "affiliate_rebate_base_amount o' =
     (if po_order_type o' = OrderTypeBalance then order_amount_without_bonus o'
      else if po_order_type o' = OrderTypeSubscription then po_amount o'
      else 0)"

text \<open>
  The rebate transaction: claim the audit entry of the order, accrue, and rename the entry when
  there was nothing to accrue. None undoes it all.
\<close>

definition rename_audit :: "int \<Rightarrow> string \<Rightarrow> string \<Rightarrow> audit_entry list \<Rightarrow> audit_entry list" where
  "rename_audit oid from_action to_action entries =
     map (\<lambda>a. if au_order a = oid \<and> au_action a = from_action then a\<lparr>au_action := to_action, au_operator := ''system''\<rparr> else a) entries"

definition rebate_tx :: "(int \<Rightarrow> rat \<Rightarrow> rat option) \<Rightarrow> int \<Rightarrow> int \<Rightarrow> rat \<Rightarrow> pay_db \<Rightarrow> bool \<times> pay_db" where
  "rebate_tx accrue oid uid base db =
     (if has_audit oid ''AFFILIATE_REBATE_APPLIED'' db \<or> has_audit oid ''AFFILIATE_REBATE_SKIPPED'' db then (True, db)
      else case insert_audit oid ''AFFILIATE_REBATE_APPLIED'' ''system'' PlainDetail db of
        None \<Rightarrow> (True, db)
      | Some db1 \<Rightarrow>
          (case accrue uid base of
             None \<Rightarrow> (False, db)
           | Some rebate \<Rightarrow>
               if rebate \<le> 0 then
                 (True, db1\<lparr>pd_audit := rename_audit oid ''AFFILIATE_REBATE_APPLIED'' ''AFFILIATE_REBATE_SKIPPED''
                    (pd_audit db1)\<rparr>)
               else (True, db1\<lparr>pd_rebates := pd_rebates db1 @ [(oid, uid, rebate)]\<rparr>)))"

definition apply_affiliate_rebate :: "pay_service \<Rightarrow> pay_order \<Rightarrow> pay_world \<Rightarrow> unit pay_result \<times> pay_world" where
  "apply_affiliate_rebate svc o' w =
     (let base = affiliate_rebate_base_amount o'
      in if base \<le> 0 then (Inr (), w)
         else case svc_affiliate svc of
           None \<Rightarrow> (Inr (), w)
         | Some accrue \<Rightarrow>
             (case call (rebate_tx accrue (po_id o') (po_user_id o') base) w of
                (DbOk True, w1) \<Rightarrow> (Inr (), w1)
              | (_, w1) \<Rightarrow>
                  (Inl AffiliateFailure, write_audit_log (po_id o') ''AFFILIATE_REBATE_FAILED'' ''system'' w1)))"

section \<open>Balance orders\<close>

definition finish_balance :: "pay_service \<Rightarrow> pay_order \<Rightarrow> gotime option \<Rightarrow> pay_world \<Rightarrow> unit pay_result \<times> pay_world" where
  "finish_balance svc o' lease w =
     (case apply_affiliate_rebate svc o' w of
        (Inl e, w1) \<Rightarrow> (Inl e, w1)
      | (Inr _, w1) \<Rightarrow> mark_completed o' lease ''RECHARGE_SUCCESS'' w1)"

definition redeem_then_finish :: "pay_service \<Rightarrow> pay_order \<Rightarrow> gotime option \<Rightarrow> pay_world \<Rightarrow> unit pay_result \<times> pay_world" where
  "redeem_then_finish svc o' lease w =
     (case redeem_for_payment svc (po_user_id o') (po_recharge_code o') w of
        (Inl e, w1) \<Rightarrow> (Inl e, w1)
      | (Inr _, w1) \<Rightarrow> finish_balance svc o' lease w1)"

definition payment_code :: "pay_order \<Rightarrow> redeem_code" where
  "payment_code o' = \<lparr>rc_code = po_recharge_code o', rc_type = RedeemTypeBalance, rc_value = Fin (po_amount o'),
     rc_status = StatusUnused, rc_used_by = None, rc_expires_at = None\<rparr>"

definition do_balance :: "pay_service \<Rightarrow> pay_order \<Rightarrow> gotime option \<Rightarrow> pay_world \<Rightarrow> unit pay_result \<times> pay_world" where
  "do_balance svc o' lease w =
     (let (lookup, w1) = get_code (po_recharge_code o') w
      in case resolve_redeem_action lookup of
           Inl e \<Rightarrow> (Inl e, w1)
         | Inr action \<Rightarrow>
             if (case lookup of DbOk (Some r) \<Rightarrow> \<not> validate_payment_redeem_code o' r | _ \<Rightarrow> False) then (Inl CodeMismatch, w1)
             else case action of
               RedeemActionSkipCompleted \<Rightarrow> finish_balance svc o' lease w1
             | RedeemActionCreate \<Rightarrow>
                 (case create_redeem_code (payment_code o') w1 of
                    (Inl e, w2) \<Rightarrow> (Inl e, w2)
                  | (Inr _, w2) \<Rightarrow> redeem_then_finish svc o' lease w2)
             | RedeemActionRedeem \<Rightarrow> redeem_then_finish svc o' lease w1)"

text \<open>The part the two kinds of fulfilment share: the lease around the work.\<close>

definition with_lease ::
  "pay_order \<Rightarrow> (gotime option \<Rightarrow> pay_world \<Rightarrow> unit pay_result \<times> pay_world) \<Rightarrow> pay_world \<Rightarrow> unit pay_result \<times> pay_world" where
  "with_lease o' work w =
     (case acquire_fulfillment_lease (po_id o') w of
        (Inl e, w1) \<Rightarrow> (Inl e, w1)
      | (Inr None, w1) \<Rightarrow> (Inr (), w1)
      | (Inr (Some version), w1) \<Rightarrow>
          (case work (Some version) w1 of
             (Inl e, w2) \<Rightarrow> (Inl e, mark_failed (po_id o') (Some version) w2)
           | (Inr _, w2) \<Rightarrow> (Inr (), w2)))"

definition fulfillable :: "pay_order \<Rightarrow> unit pay_result option" where
  "fulfillable o' =
     (if po_status o' = OrderStatusCompleted then Some (Inr ())
      else if is_refund_status (po_status o') then Some (Inl InvalidStatus)
      else if po_status o' \<noteq> OrderStatusPaid \<and> po_status o' \<noteq> OrderStatusFailed \<and> po_status o' \<noteq> OrderStatusRecharging
      then Some (Inl InvalidStatus)
      else None)"

definition execute_balance_fulfillment :: "pay_service \<Rightarrow> int \<Rightarrow> pay_world \<Rightarrow> unit pay_result \<times> pay_world" where
  "execute_balance_fulfillment svc oid w =
     (case get_order oid w of
        (DbOk (Some o'), w1) \<Rightarrow>
          if po_order_type o' \<noteq> OrderTypeBalance then (Inl InvalidOrderType, w1)
          else (case fulfillable o' of
                  Some res \<Rightarrow> (res, w1)
                | None \<Rightarrow> with_lease o' (do_balance svc o') w1)
      | (_, w1) \<Rightarrow> (Inl NotFound, w1))"

section \<open>Subscription orders\<close>

definition payment_subscription_order_note :: "int \<Rightarrow> string" where
  "payment_subscription_order_note oid = ''payment order '' @ show_int oid"

fun replace_crlf :: "string \<Rightarrow> string" where
  "replace_crlf (a # b # s) =
     (if a = CHR 0x0D \<and> b = CHR 0x0A then CHR 0x0A # replace_crlf s else a # replace_crlf (b # s))"
| "replace_crlf s = s"

fun split_lines :: "string \<Rightarrow> string \<Rightarrow> string list" where
  "split_lines acc [] = [rev acc]"
| "split_lines acc (c # s) = (if c = CHR 0x0A then rev acc # split_lines [] s else split_lines (c # acc) s)"

definition has_payment_subscription_order_note :: "string \<Rightarrow> string \<Rightarrow> bool" where
  "has_payment_subscription_order_note notes note =
     list_ex (\<lambda>line. trim_space line = note) (split_lines [] (replace_crlf notes))"

definition MaxValidityDays :: int where "MaxValidityDays = 36500"

text \<open>2099-12-31 23:59:59 UTC.\<close>

definition MaxExpiresAt :: gotime where "MaxExpiresAt = 66238041599 * Second"

definition add_days :: "gotime \<Rightarrow> int \<Rightarrow> gotime" where
  "add_days t d = t + d * (24 * Hour)"

definition cap_expiry :: "gotime \<Rightarrow> gotime" where
  "cap_expiry t = (if after t MaxExpiresAt then MaxExpiresAt else t)"

definition validity_days :: "int \<Rightarrow> int" where
  "validity_days d = (let d' = (if d \<le> 0 then 30 else d) in if d' > MaxValidityDays then MaxValidityDays else d')"

definition append_subscription_notes :: "string \<Rightarrow> string \<Rightarrow> string" where
  "append_subscription_notes old new =
     (if new = [] then old else if old = [] then new else old @ [CHR 0x0A] @ new)"

definition find_sub :: "int \<Rightarrow> int \<Rightarrow> pay_db \<Rightarrow> pay_sub option" where
  "find_sub uid gid db = find (\<lambda>s. sb_user s = uid \<and> sb_group s = gid) (pd_subs db)"

definition update_sub :: "int \<Rightarrow> (pay_sub \<Rightarrow> pay_sub) \<Rightarrow> pay_db \<Rightarrow> pay_db" where
  "update_sub sid f db = db\<lparr>pd_subs := map (\<lambda>s. if sb_id s = sid then f s else s) (pd_subs db)\<rparr>"

text \<open>\<open>updateExistingSubscriptionTerm\<close> without assignment semantics.\<close>

definition renew_sub :: "gotime \<Rightarrow> int \<Rightarrow> string \<Rightarrow> pay_sub \<Rightarrow> pay_sub" where
  "renew_sub now days notes s =
     (let expired = \<not> after (sb_expires_at s) now;
          expires = cap_expiry (add_days (if expired then now else sb_expires_at s) days)
      in s\<lparr>sb_expires_at := expires, sb_status := ''active'', sb_notes := append_subscription_notes (sb_notes s) notes\<rparr>)"

definition assign_or_extend_subscription ::
  "(int \<Rightarrow> (bool \<times> bool) option) \<Rightarrow> int \<Rightarrow> int \<Rightarrow> int \<Rightarrow> string \<Rightarrow> pay_db \<Rightarrow> pay_db option" where
  "assign_or_extend_subscription groups uid gid days notes db =
     (case groups gid of
        None \<Rightarrow> None
      | Some (active, subscription_type) \<Rightarrow>
          if \<not> subscription_type then None
          else case find_sub uid gid db of
            Some s \<Rightarrow> Some (update_sub (sb_id s) (renew_sub (pd_clock db) (validity_days days) notes) db)
          | None \<Rightarrow>
              Some (db\<lparr>pd_next_sub := pd_next_sub db + 1,
                       pd_subs := pd_subs db @ [\<lparr>sb_id = pd_next_sub db, sb_user = uid, sb_group = gid,
                         sb_expires_at = cap_expiry (add_days (pd_clock db) (validity_days days)),
                         sb_status = ''active'', sb_notes = notes\<rparr>]\<rparr>))"

definition has_assignment_audit :: "int \<Rightarrow> pay_db \<Rightarrow> bool" where
  "has_assignment_audit oid db =
     (has_audit oid ''SUBSCRIPTION_ASSIGNED'' db \<or> has_audit oid ''SUBSCRIPTION_SUCCESS'' db)"

text \<open>The transaction of \<open>ensurePaymentSubscriptionAssigned\<close>; None undoes it.\<close>

definition assign_tx ::
  "(int \<Rightarrow> (bool \<times> bool) option) \<Rightarrow> int \<Rightarrow> int \<Rightarrow> int \<Rightarrow> int \<Rightarrow> pay_db \<Rightarrow> bool \<times> pay_db" where
  "assign_tx groups oid uid gid days db =
     (if has_assignment_audit oid db then (True, db)
      else
        let note = payment_subscription_order_note oid;
            recovered = (case find_sub uid gid db of
                None \<Rightarrow> False | Some s \<Rightarrow> has_payment_subscription_order_note (sb_notes s) note);
            assigned = (if recovered then Some db else assign_or_extend_subscription groups uid gid days note db)
        in case assigned of
             None \<Rightarrow> (False, db)
           | Some db1 \<Rightarrow>
               (case insert_audit oid ''SUBSCRIPTION_ASSIGNED'' ''system'' PlainDetail db1 of
                  None \<Rightarrow> (has_assignment_audit oid db, db)
                | Some db2 \<Rightarrow> (True, db2)))"

definition do_sub :: "pay_service \<Rightarrow> pay_order \<Rightarrow> int \<Rightarrow> int \<Rightarrow> gotime option \<Rightarrow> pay_world \<Rightarrow> unit pay_result \<times> pay_world" where
  "do_sub svc o' gid days lease w =
     (case call (\<lambda>db. (svc_groups svc gid, db)) w of
        (DbOk (Some (True, _)), w1) \<Rightarrow>
          (case call (assign_tx (svc_groups svc) (po_id o') (po_user_id o') gid days) w1 of
             (DbOk True, w2) \<Rightarrow>
               (case apply_affiliate_rebate svc o' w2 of
                  (Inl e, w3) \<Rightarrow> (Inl e, w3)
                | (Inr _, w3) \<Rightarrow> mark_completed o' lease ''SUBSCRIPTION_SUCCESS'' w3)
           | (_, w2) \<Rightarrow> (Inl DbFailure, w2))
      | (_, w1) \<Rightarrow> (Inl GroupInactive, w1))"

definition execute_subscription_fulfillment :: "pay_service \<Rightarrow> int \<Rightarrow> pay_world \<Rightarrow> unit pay_result \<times> pay_world" where
  "execute_subscription_fulfillment svc oid w =
     (case get_order oid w of
        (DbOk (Some o'), w1) \<Rightarrow>
          (case fulfillable o' of
             Some res \<Rightarrow> (res, w1)
           | None \<Rightarrow>
               (case (po_sub_group o', po_sub_days o') of
                  (Some gid, Some days) \<Rightarrow> with_lease o' (do_sub svc o' gid days) w1
                | _ \<Rightarrow> (Inl InvalidStatus, w1)))
      | (_, w1) \<Rightarrow> (Inl NotFound, w1))"

section \<open>From the notification to the fulfilment\<close>

definition reject_unsupported_order_type :: "pay_order \<Rightarrow> pay_world \<Rightarrow> pay_world" where
  "reject_unsupported_order_type o' w =
     (let now = now_of w
      in case call (update_order (po_id o')
                (\<lambda>x. po_status x = OrderStatusPaid \<or> po_status x = OrderStatusRecharging)
                (\<lambda>x. x\<lparr>po_status := OrderStatusFailed, po_failed_at := Some now,
                       po_failed_reason := Some (''unsupported order type: '' @ po_order_type o')\<rparr>)) w of
           (DbOk c, w1) \<Rightarrow> if c > 0 then write_audit_log (po_id o') ''FULFILLMENT_FAILED'' ''system'' w1 else w1
         | (DbErr, w1) \<Rightarrow> w1)"

definition execute_fulfillment :: "pay_service \<Rightarrow> int \<Rightarrow> pay_world \<Rightarrow> unit pay_result \<times> pay_world" where
  "execute_fulfillment svc oid w =
     (case get_order oid w of
        (DbOk (Some o'), w1) \<Rightarrow>
          if po_order_type o' = OrderTypeSubscription then execute_subscription_fulfillment svc oid w1
          else if po_order_type o' = OrderTypeBalance then execute_balance_fulfillment svc oid w1
          else (Inr (), reject_unsupported_order_type o' w1)
      | (_, w1) \<Rightarrow> (Inl DbFailure, w1))"

definition already_processed :: "pay_service \<Rightarrow> pay_order \<Rightarrow> pay_world \<Rightarrow> unit pay_result \<times> pay_world" where
  "already_processed svc o' w =
     (case get_order (po_id o') w of
        (DbOk (Some cur), w1) \<Rightarrow>
          if po_status cur = OrderStatusCompleted \<or> po_status cur = OrderStatusRefunded then (Inr (), w1)
          else if po_status cur = OrderStatusFailed \<or> po_status cur = OrderStatusPaid \<or> po_status cur = OrderStatusRecharging
          then execute_fulfillment svc (po_id o') w1
          else if po_status cur = OrderStatusExpired
          then (Inr (), write_audit_log (po_id o') ''PAYMENT_AFTER_EXPIRY'' ''system'' w1)
          else (Inr (), w1)
      | (_, w1) \<Rightarrow> (Inr (), w1))"

definition payable :: "gotime \<Rightarrow> pay_order \<Rightarrow> bool" where
  "payable grace x =
     (po_status x = OrderStatusPending \<or> po_status x = OrderStatusCancelled \<or>
      (po_status x = OrderStatusExpired \<and> grace \<le> po_updated_at x))"

definition to_paid :: "pay_service \<Rightarrow> pay_order \<Rightarrow> string \<Rightarrow> rat \<Rightarrow> string \<Rightarrow> pay_world \<Rightarrow> unit pay_result \<times> pay_world" where
  "to_paid svc o' trade_no paid pk w =
     (let now = now_of w; grace = now - paymentGraceMinutes * Minute
      in case call (update_order (po_id o') (payable grace)
                (\<lambda>x. x\<lparr>po_status := OrderStatusPaid, po_pay_amount := paid, po_trade_no := trade_no,
                       po_paid_at := Some now, po_failed_at := None, po_failed_reason := None\<rparr>)) w of
           (DbErr, w1) \<Rightarrow> (Inl DbFailure, w1)
         | (DbOk c, w1) \<Rightarrow>
             if c = 0 then already_processed svc o' w1
             else
               let w2 = (if po_status o' = OrderStatusCancelled \<or> po_status o' = OrderStatusExpired
                         then write_audit_log (po_id o') ''ORDER_RECOVERED'' pk w1 else w1);
                   w3 = write_audit_log (po_id o') ''ORDER_PAID'' pk w2
               in execute_fulfillment svc (po_id o') w3)"

definition is_valid_provider_amount :: "f64 \<Rightarrow> bool" where
  "is_valid_provider_amount a = (case a of Fin x \<Rightarrow> x > 0 | _ \<Rightarrow> False)"

definition confirm_payment :: "pay_service \<Rightarrow> int \<Rightarrow> string \<Rightarrow> f64 \<Rightarrow> string \<Rightarrow> pay_world \<Rightarrow> unit pay_result \<times> pay_world" where
  "confirm_payment svc oid trade_no paid pk w =
     (case get_order oid w of
        (DbOk (Some o'), w1) \<Rightarrow>
          let expected = svc_expected_provider svc o'
          in if expected \<noteq> [] \<and> trim_space pk \<noteq> [] \<and> to_lower expected \<noteq> to_lower (trim_space pk)
             then (Inl ProviderMismatch, write_audit_log oid ''PAYMENT_PROVIDER_MISMATCH'' pk w1)
             else if \<not> svc_metadata_ok svc o' pk
             then (Inl MetadataMismatch, write_audit_log oid ''PAYMENT_PROVIDER_METADATA_MISMATCH'' pk w1)
             else if \<not> is_valid_provider_amount paid
             then (Inl InvalidAmount, write_audit_log oid ''PAYMENT_INVALID_AMOUNT'' pk w1)
             else (case paid of
                 Fin x \<Rightarrow>
                   if \<bar>x - po_pay_amount o'\<bar> > payment_amount_tolerance_for_currency (po_currency o')
                   then (Inl AmountMismatch, write_audit_log oid ''PAYMENT_AMOUNT_MISMATCH'' pk w1)
                   else to_paid svc o' trade_no x pk w1
               | _ \<Rightarrow> (Inl InvalidAmount, w1))
      | (_, w1) \<Rightarrow> (Inr (), w1))"

definition orderIDPrefix :: string where "orderIDPrefix = ''sub2_''"

definition parse_legacy_payment_order_id :: "string \<Rightarrow> int option" where
  "parse_legacy_payment_order_id order_id =
     (let t = trim_space order_id
      in if \<not> has_prefix t orderIDPrefix then None
         else parse_positive_int64 (drop (length orderIDPrefix) t))"

record payment_notification =
  pn_trade_no :: string
  pn_order_id :: string
  pn_amount :: f64
  pn_status :: string

definition handle_payment_notification ::
  "pay_service \<Rightarrow> payment_notification \<Rightarrow> string \<Rightarrow> pay_world \<Rightarrow> unit pay_result \<times> pay_world" where
  "handle_payment_notification svc n pk w =
     (if pn_status n \<noteq> ''success'' then (Inr (), w)
      else case call (\<lambda>db. (pd_by_out_trade_no db (pn_order_id n), db)) w of
        (DbErr, w1) \<Rightarrow> (Inl DbFailure, w1)
      | (DbOk (Some oid), w1) \<Rightarrow> confirm_payment svc oid (pn_trade_no n) (pn_amount n) pk w1
      | (DbOk None, w1) \<Rightarrow>
          (case parse_legacy_payment_order_id (pn_order_id n) of
             Some oid \<Rightarrow> confirm_payment svc oid (pn_trade_no n) (pn_amount n) pk w1
           | None \<Rightarrow> (Inl OrderNotFound, w1)))"

definition retry_fulfillment :: "pay_service \<Rightarrow> int \<Rightarrow> pay_world \<Rightarrow> unit pay_result \<times> pay_world" where
  "retry_fulfillment svc oid w =
     (case get_order oid w of
        (DbOk (Some o'), w1) \<Rightarrow>
          if po_paid_at o' = None then (Inl InvalidStatus, w1)
          else if is_refund_status (po_status o') then (Inl InvalidStatus, w1)
          else if po_status o' = OrderStatusCompleted then (Inl InvalidStatus, w1)
          else if po_status o' \<noteq> OrderStatusFailed \<and> po_status o' \<noteq> OrderStatusPaid \<and> po_status o' \<noteq> OrderStatusRecharging
          then (Inl InvalidStatus, w1)
          else if \<not> is_supported_order_type (po_order_type o') then (Inl InvalidOrderType, w1)
          else execute_fulfillment svc oid (write_audit_log oid ''RECHARGE_RETRY'' ''admin'' w1)
      | (_, w1) \<Rightarrow> (Inl NotFound, w1))"

end
