(* ===== verification/Payment_Refund.thy ===== *)
theory Payment_Refund
  imports Payment_Fulfillment
begin

text \<open>
  Refunds, \<open>service/payment_refund.go\<close>, with the parts of the subscription service they use. The
  provider instance of an order, whether its client can be created, its metadata check and whether
  it can be asked about refunds are the record \<open>refund_service\<close>; what the gateway answers to the one
  request an operation makes is an argument of the operation. A transaction is one function on the
  database; its rollback returns the database it started from. Invalidating caches is left out.
\<close>

datatype refund_error =
    RefundNotFound | RefundForbidden | RefundOrderType | RefundStatus | UserRefundDisabled | BalanceNotEnough
  | RefundConflict | RefundDb | ProviderLookupFailed | RefundDisabled | RefundAmountInvalid | RefundAmountExceeded
  | DeductionError | RefundFailedError | NoRefundProvider | RefundQueryUnsupported | RefundQueryFailed | RefundAuditUnreadable

record refund_service =
  rs_instance :: "pay_order \<Rightarrow> (bool \<times> bool) option answer"
  rs_creates :: "pay_order \<Rightarrow> bool"
  rs_metadata_ok :: "pay_order \<Rightarrow> bool"
  rs_can_query :: "pay_order \<Rightarrow> bool"

record refund_plan =
  rp_order_id :: int
  rp_order :: pay_order
  rp_refund_amount :: rat
  rp_gateway_amount :: rat
  rp_reason :: string
  rp_force :: bool
  rp_deduct_balance :: bool
  rp_deduction_type :: string
  rp_balance :: rat
  rp_sub_days :: int
  rp_sub_id :: int
  rp_held :: bool

record refund_result =
  rf_success :: bool
  rf_warning :: string
  rf_require_force :: bool
  rf_balance_deducted :: rat
  rf_sub_days :: int

record refund_response =
  rr_refund_id :: string
  rr_status :: string

text \<open>The answer of the gateway: a response, possibly missing, and whether it comes with an error.\<close>

record gateway_answer =
  ga_response :: "refund_response option"
  ga_error :: bool

definition warning_result :: "string \<Rightarrow> bool \<Rightarrow> refund_result" where
  "warning_result text force = \<lparr>rf_success = False, rf_warning = text, rf_require_force = force,
     rf_balance_deducted = 0, rf_sub_days = 0\<rparr>"

definition refundable :: "pay_order \<Rightarrow> bool" where
  "refundable x \<longleftrightarrow> po_status x \<in> {OrderStatusCompleted, OrderStatusRefundRequested, OrderStatusRefundFailed}"

text \<open>\<open>UpdateOneID\<close>: an update that misses its row is an error.\<close>

definition update_one :: "int \<Rightarrow> (pay_order \<Rightarrow> pay_order) \<Rightarrow> pay_db \<Rightarrow> int \<times> pay_db" where
  "update_one oid f = update_order oid (\<lambda>_. True) f"

section \<open>Requesting a refund\<close>

definition validate_refund_request ::
  "refund_service \<Rightarrow> int \<Rightarrow> int \<Rightarrow> pay_world \<Rightarrow> (refund_error + pay_order) \<times> pay_world" where
  "validate_refund_request svc oid uid w =
     (case get_order oid w of
        (DbOk (Some x), w1) \<Rightarrow>
          (if po_user_id x \<noteq> uid then Inl RefundForbidden
           else if po_order_type x \<noteq> OrderTypeBalance then Inl RefundOrderType
           else if po_status x \<noteq> OrderStatusCompleted then Inl RefundStatus
           else case rs_instance svc x of
             DbOk (Some (refund_enabled, allow_user)) \<Rightarrow> if \<not> allow_user then Inl UserRefundDisabled else Inr x
           | _ \<Rightarrow> Inl UserRefundDisabled, w1)
      | (_, w1) \<Rightarrow> (Inl RefundNotFound, w1))"

definition get_user :: "int \<Rightarrow> pay_world \<Rightarrow> pay_user option answer \<times> pay_world" where
  "get_user uid = call (\<lambda>db. (pd_users db uid, db))"

definition request_refund ::
  "refund_service \<Rightarrow> int \<Rightarrow> int \<Rightarrow> string \<Rightarrow> pay_world \<Rightarrow> (refund_error + unit) \<times> pay_world" where
  "request_refund svc oid uid reason w =
     (case validate_refund_request svc oid uid w of
        (Inl e, w1) \<Rightarrow> (Inl e, w1)
      | (Inr x, w1) \<Rightarrow>
          (case get_user (po_user_id x) w1 of
             (DbOk (Some u), w2) \<Rightarrow>
               if us_balance u < po_amount x then (Inl BalanceNotEnough, w2)
               else (let now = now_of w2
                     in case call (update_order oid
                          (\<lambda>y. po_user_id y = uid \<and> po_status y = OrderStatusCompleted \<and> po_order_type y = OrderTypeBalance)
                          (\<lambda>y. y\<lparr>po_status := OrderStatusRefundRequested, po_refund_requested_at := Some now,
                                 po_refund_request_reason := Some (trim_space reason), po_refund_amount := po_amount x\<rparr>)) w2 of
                       (DbErr, w3) \<Rightarrow> (Inl RefundDb, w3)
                     | (DbOk c, w3) \<Rightarrow>
                         if c = 0 then (Inl RefundConflict, w3)
                         else (Inr (), write_audit_log oid ''REFUND_REQUESTED'' (''user:'' @ show_int uid) w3))
           | (_, w2) \<Rightarrow> (Inl RefundDb, w2)))"

section \<open>Preparing a refund\<close>

text \<open>The active subscription, read from the database; the cache in front of it is left out.\<close>

definition get_active_subscription :: "int \<Rightarrow> int \<Rightarrow> pay_world \<Rightarrow> pay_sub option answer \<times> pay_world" where
  "get_active_subscription uid gid = call (\<lambda>db.
     (find (\<lambda>s. sb_user s = uid \<and> sb_group s = gid \<and> sb_status s = ''active'' \<and> after (sb_expires_at s) (pd_clock db)) (pd_subs db), db))"

definition prep_deduct ::
  "pay_order \<Rightarrow> refund_plan \<Rightarrow> bool \<Rightarrow> pay_world \<Rightarrow> refund_result option \<times> refund_plan \<times> pay_world" where
  "prep_deduct x p force w =
     (if po_order_type x = OrderTypeSubscription then
        (let p1 = p\<lparr>rp_deduction_type := DeductionTypeSubscription\<rparr>
         in case (po_sub_group x, po_sub_days x) of
              (Some gid, Some days) \<Rightarrow>
                (let p2 = p1\<lparr>rp_sub_days := days\<rparr>
                 in case get_active_subscription (po_user_id x) gid w of
                      (DbOk (Some s), w1) \<Rightarrow> (None, p2\<lparr>rp_sub_id := sb_id s\<rparr>, w1)
                    | (_, w1) \<Rightarrow>
                        (if force then None
                         else Some (warning_result ''cannot find active subscription for deduction, use force'' True), p2, w1))
            | _ \<Rightarrow> (None, p1, w))
      else
        (case get_user (po_user_id x) w of
           (DbOk (Some u), w1) \<Rightarrow>
             (let p1 = p\<lparr>rp_deduction_type := DeductionTypeBalance\<rparr>
              in if us_balance u < rp_refund_amount p \<and> \<not> force
                 then (Some (warning_result ''user balance is insufficient for deduction, use force'' True), p1, w1)
                 else (None, p1\<lparr>rp_balance := max 0 (min (rp_refund_amount p) (us_balance u))\<rparr>, w1))
         | (_, w1) \<Rightarrow>
             (if force then None else Some (warning_result ''cannot fetch user balance, use force'' True), p, w1)))"

definition refund_reason :: "pay_order \<Rightarrow> string \<Rightarrow> string" where
  "refund_reason x reason =
     (let r = trim_space reason;
          r1 = (if r = [] then (case po_refund_request_reason x of None \<Rightarrow> r | Some q \<Rightarrow> q) else r)
      in if r1 = [] then ''refund order:'' @ show_int (po_id x) else r1)"

definition prepare_refund ::
  "refund_service \<Rightarrow> int \<Rightarrow> f64 \<Rightarrow> string \<Rightarrow> bool \<Rightarrow> bool \<Rightarrow> pay_world \<Rightarrow>
   (refund_error + (refund_result + refund_plan)) \<times> pay_world" where
  "prepare_refund svc oid amt reason force deduct w =
     (case get_order oid w of
        (DbOk (Some x), w1) \<Rightarrow>
          if \<not> refundable x then (Inl RefundStatus, w1)
          else (case rs_instance svc x of
             DbErr \<Rightarrow> (Inl ProviderLookupFailed, w1)
           | DbOk None \<Rightarrow> (Inl RefundDisabled, w1)
           | DbOk (Some (refund_enabled, allow_user)) \<Rightarrow>
               if \<not> refund_enabled then (Inl RefundDisabled, w1)
               else (case amt of
                  Fin a \<Rightarrow>
                    let amount = (if a \<le> 0 then po_amount x else a)
                    in if amount - po_amount x > payment_amount_tolerance_for_currency (po_currency x)
                       then (Inl RefundAmountExceeded, w1)
                       else
                         let p = \<lparr>rp_order_id = oid, rp_order = x, rp_refund_amount = amount,
                                  rp_gateway_amount = calculate_gateway_refund_amount (po_amount x) (po_pay_amount x) amount (po_currency x),
                                  rp_reason = refund_reason x reason, rp_force = force, rp_deduct_balance = deduct,
                                  rp_deduction_type = DeductionTypeNone, rp_balance = 0, rp_sub_days = 0, rp_sub_id = 0,
                                  rp_held = False\<rparr>
                         in if \<not> deduct then (Inr (Inr p), w1)
                            else (case prep_deduct x p force w1 of
                                    (Some early, p1, w2) \<Rightarrow> (Inr (Inl early), w2)
                                  | (None, p1, w2) \<Rightarrow> (Inr (Inr p1), w2))
                | _ \<Rightarrow> (Inl RefundAmountInvalid, w1)))
      | (_, w1) \<Rightarrow> (Inl RefundNotFound, w1))"

section \<open>Deductions\<close>

datatype extend_outcome = ExtendOk | ExtendWouldExpire | ExtendError

text \<open>The transaction of \<open>ExtendSubscription\<close>.\<close>

definition clamp_days :: "int \<Rightarrow> int" where
  "clamp_days d = (if d > MaxValidityDays then MaxValidityDays else if d < - MaxValidityDays then - MaxValidityDays else d)"

definition extend_tx :: "int \<Rightarrow> int \<Rightarrow> pay_db \<Rightarrow> extend_outcome \<times> pay_db" where
  "extend_tx sid days db =
     (case find (\<lambda>s. sb_id s = sid) (pd_subs db) of
        None \<Rightarrow> (ExtendError, db)
      | Some s \<Rightarrow>
          let d = clamp_days days; now = pd_clock db; expired = \<not> after (sb_expires_at s) now
          in if expired \<and> d < 0 then (ExtendError, db)
             else
               let expires = cap_expiry (add_days (if expired then now else sb_expires_at s) d)
               in if \<not> after expires now then (ExtendWouldExpire, db)
                  else (ExtendOk, update_sub sid (\<lambda>t. t\<lparr>sb_expires_at := expires,
                          sb_status := (if sb_status s = ''expired'' then ''active'' else sb_status t)\<rparr>) db))"

definition get_sub :: "int \<Rightarrow> pay_world \<Rightarrow> pay_sub option answer \<times> pay_world" where
  "get_sub sid = call (\<lambda>db. (find (\<lambda>s. sb_id s = sid) (pd_subs db), db))"

definition extend_subscription :: "int \<Rightarrow> int \<Rightarrow> pay_world \<Rightarrow> extend_outcome \<times> pay_world" where
  "extend_subscription sid days w =
     (case call (extend_tx sid days) w of
        (DbErr, w1) \<Rightarrow> (ExtendError, w1)
      | (DbOk ExtendOk, w1) \<Rightarrow>
          (case get_sub sid w1 of
             (DbOk (Some s), w2) \<Rightarrow> (ExtendOk, w2)
           | (_, w2) \<Rightarrow> (ExtendError, w2))
      | (DbOk e, w1) \<Rightarrow> (e, w1))"

definition delete_sub :: "int \<Rightarrow> pay_db \<Rightarrow> pay_db" where
  "delete_sub sid db = db\<lparr>pd_subs := filter (\<lambda>s. sb_id s \<noteq> sid) (pd_subs db)\<rparr>"

definition revoke_subscription :: "int \<Rightarrow> pay_world \<Rightarrow> bool \<times> pay_world" where
  "revoke_subscription sid w =
     (case get_sub sid w of
        (DbOk (Some s), w1) \<Rightarrow>
          (case call (\<lambda>db. ((), delete_sub sid db)) w1 of (DbErr, w2) \<Rightarrow> (False, w2) | (DbOk _, w2) \<Rightarrow> (True, w2))
      | (_, w1) \<Rightarrow> (False, w1))"

definition restored_status :: "refund_plan \<Rightarrow> string" where
  "restored_status p =
     (if po_status (rp_order p) = OrderStatusRefundRequested then OrderStatusRefundRequested else OrderStatusCompleted)"

definition restore_status :: "refund_plan \<Rightarrow> pay_world \<Rightarrow> pay_world" where
  "restore_status p w = snd (call (update_one (rp_order_id p) (\<lambda>x. x\<lparr>po_status := restored_status p\<rparr>)) w)"

text \<open>\<open>UpdateBalance\<close> as one statement; False when there is no such user.\<close>

definition credit_user :: "int \<Rightarrow> rat \<Rightarrow> cause \<Rightarrow> pay_db \<Rightarrow> bool \<times> pay_db" where
  "credit_user uid amount c db =
     (case update_balance uid amount c db of None \<Rightarrow> (False, db) | Some db' \<Rightarrow> (True, db'))"

section \<open>The end of a refund\<close>

definition set_refunded :: "refund_plan \<Rightarrow> gotime \<Rightarrow> pay_order \<Rightarrow> pay_order" where
  "set_refunded p now x = x\<lparr>po_status := (if rp_refund_amount p < po_amount (rp_order p) then OrderStatusPartiallyRefunded
       else OrderStatusRefunded), po_refund_amount := rp_refund_amount p, po_refund_reason := Some (rp_reason p),
     po_refund_at := Some now, po_force_refund := rp_force p\<rparr>"

definition success_result :: "refund_plan \<Rightarrow> refund_result" where
  "success_result p = \<lparr>rf_success = True, rf_warning = [], rf_require_force = False,
     rf_balance_deducted = rp_balance p, rf_sub_days = rp_sub_days p\<rparr>"

definition mark_refund_ok :: "refund_plan \<Rightarrow> pay_world \<Rightarrow> (refund_error + refund_result) \<times> pay_world" where
  "mark_refund_ok p w =
     (let now = now_of w
      in case call (update_one (rp_order_id p) (set_refunded p now)) w of
           (DbErr, w1) \<Rightarrow> (Inl RefundDb, w1)
         | (DbOk c, w1) \<Rightarrow>
             if c = 0 then (Inl RefundDb, w1)
             else (Inr (success_result p), write_audit_log (rp_order_id p) ''REFUND_SUCCESS'' ''admin'' w1))"

text \<open>
  The detail as it will be read back: the field \<open>deductionRollbackOK\<close> is absent from a new entry and
  then reads as true.
\<close>

definition pending_detail :: "refund_plan \<Rightarrow> refund_response \<Rightarrow> gotime \<Rightarrow> refund_pending_detail" where
  "pending_detail p resp now = \<lparr>rd_refund_id = trim_space (rr_refund_id resp), rd_refund_amount = rp_refund_amount p,
     rd_reason = rp_reason p, rd_force = rp_force p, rd_rollback_ok = True, rd_held = True,
     rd_deduction_type = rp_deduction_type p, rd_balance_deducted = rp_balance p, rd_sub_days_deducted = rp_sub_days p,
     rd_subscription_id = rp_sub_id p, rd_requested_at = now\<rparr>"

definition set_refund_pending :: "refund_plan \<Rightarrow> pay_order \<Rightarrow> pay_order" where
  "set_refund_pending p x = x\<lparr>po_status := OrderStatusRefundPending, po_refund_amount := rp_refund_amount p,
     po_refund_reason := Some (rp_reason p), po_refund_at := None, po_force_refund := rp_force p,
     po_failed_at := None, po_failed_reason := None\<rparr>"

definition mark_pending_tx :: "refund_plan \<Rightarrow> refund_response \<Rightarrow> pay_db \<Rightarrow> bool \<times> pay_db" where
  "mark_pending_tx p resp db =
     (case update_one (rp_order_id p) (set_refund_pending p) db of
        (c, db1) \<Rightarrow>
          if c = 0 then (False, db)
          else (case insert_audit (rp_order_id p) ''REFUND_PENDING'' ''admin'' (PendingDetail (pending_detail p resp (pd_clock db))) db1 of
                  None \<Rightarrow> (False, db)
                | Some db2 \<Rightarrow> (True, db2)))"

definition mark_refund_pending ::
  "refund_plan \<Rightarrow> refund_response \<Rightarrow> pay_world \<Rightarrow> (refund_error + refund_result) \<times> pay_world" where
  "mark_refund_pending p resp w =
     (case call (mark_pending_tx p resp) w of
        (DbOk True, w1) \<Rightarrow> (Inr (warning_result ''gateway refund is pending confirmation'' False), w1)
      | (_, w1) \<Rightarrow> (Inl RefundDb, w1))"

definition rollback_refund :: "refund_plan \<Rightarrow> pay_world \<Rightarrow> bool \<times> pay_world" where
  "rollback_refund p w =
     (let (returned, w1) =
        (if rp_deduction_type p = DeductionTypeBalance \<and> rp_balance p > 0 then
           (case call (credit_user (po_user_id (rp_order p)) (rp_balance p) (ByRefund (rp_order_id p))) w of
              (DbOk True, w1) \<Rightarrow> (True, w1)
            | (_, w1) \<Rightarrow> (False, write_audit_log (rp_order_id p) ''REFUND_ROLLBACK_FAILED'' ''admin'' w1))
         else (True, w))
      in if \<not> returned then (False, w1)
         else if rp_deduction_type p = DeductionTypeSubscription \<and> rp_sub_days p > 0 \<and> rp_sub_id p > 0 then
           (case extend_subscription (rp_sub_id p) (rp_sub_days p) w1 of
              (ExtendOk, w2) \<Rightarrow> (True, w2)
            | (_, w2) \<Rightarrow> (False, write_audit_log (rp_order_id p) ''REFUND_ROLLBACK_FAILED'' ''admin'' w2))
         else (True, w1))"

definition handle_gw_fail :: "refund_plan \<Rightarrow> pay_world \<Rightarrow> (refund_error + refund_result) \<times> pay_world" where
  "handle_gw_fail p w =
     (case rollback_refund p w of
        (True, w1) \<Rightarrow>
          (Inr (warning_result ''gateway failed, rolled back'' False),
           write_audit_log (rp_order_id p) ''REFUND_GATEWAY_FAILED'' ''admin'' (restore_status p w1))
      | (False, w1) \<Rightarrow>
          (let now = now_of w1;
               w2 = snd (call (update_one (rp_order_id p) (\<lambda>x. x\<lparr>po_status := OrderStatusRefundFailed, po_failed_at := Some now,
                        po_failed_reason := Some ''gateway failed''\<rparr>)) w1)
           in (Inl RefundFailedError, write_audit_log (rp_order_id p) ''REFUND_FAILED'' ''admin'' w2)))"

section \<open>The gateway\<close>

definition ProviderStatusPending :: string where "ProviderStatusPending = ''pending''"
definition ProviderStatusSuccess :: string where "ProviderStatusSuccess = ''success''"
definition ProviderStatusFailed :: string where "ProviderStatusFailed = ''failed''"
definition ProviderStatusRefunded :: string where "ProviderStatusRefunded = ''refunded''"

lemmas provider_status_defs = ProviderStatusPending_def ProviderStatusSuccess_def ProviderStatusFailed_def ProviderStatusRefunded_def

definition valid_refund_response :: "refund_response option \<Rightarrow> bool" where
  "valid_refund_response resp =
     (case resp of
        None \<Rightarrow> False
      | Some r \<Rightarrow> trim_space (rr_status r) \<in> {ProviderStatusSuccess, ProviderStatusRefunded, ProviderStatusPending})"

definition refund_provider :: "refund_service \<Rightarrow> pay_order \<Rightarrow> bool" where
  "refund_provider svc x = (case rs_instance svc x of DbOk (Some _) \<Rightarrow> rs_creates svc x | _ \<Rightarrow> False)"

definition gw_refund ::
  "refund_service \<Rightarrow> gateway_answer \<Rightarrow> refund_plan \<Rightarrow> pay_world \<Rightarrow> refund_response option \<times> pay_world" where
  "gw_refund svc gw p w =
     (if po_trade_no (rp_order p) = [] then
        (Some \<lparr>rr_refund_id = [], rr_status = ProviderStatusSuccess\<rparr>,
         write_audit_log (po_id (rp_order p)) ''REFUND_NO_TRADE_NO'' ''admin'' w)
      else if \<not> refund_provider svc (rp_order p) then (None, w)
      else if \<not> rs_metadata_ok svc (rp_order p) then
        (None, write_audit_log (po_id (rp_order p)) ''REFUND_PROVIDER_METADATA_MISMATCH'' ''admin'' w)
      else if ga_error gw then
        ((case ga_response gw of
            Some r \<Rightarrow> if trim_space (rr_status r) = ProviderStatusPending then Some r else None
          | None \<Rightarrow> None), w)
      else (if valid_refund_response (ga_response gw) then ga_response gw else None, w))"

definition finish_refund :: "refund_plan \<Rightarrow> refund_response \<Rightarrow> pay_world \<Rightarrow> (refund_error + refund_result) \<times> pay_world" where
  "finish_refund p resp w =
     (if \<not> valid_refund_response (Some resp) then handle_gw_fail p w
      else if trim_space (rr_status resp) \<in> {ProviderStatusSuccess, ProviderStatusRefunded} then mark_refund_ok p w
      else if trim_space (rr_status resp) = ProviderStatusPending then mark_refund_pending p resp w
      else handle_gw_fail p w)"

section \<open>Executing a refund\<close>

text \<open>Deducting the balance or the days, unless an earlier rollback is known to have failed.\<close>

definition deduct_balance_step :: "refund_plan \<Rightarrow> pay_world \<Rightarrow> (refund_error + refund_plan) \<times> pay_world" where
  "deduct_balance_step p w =
     (if rp_deduction_type p = DeductionTypeBalance \<and> rp_balance p > 0 then
        (let (failed_before, w1) = has_audit_log (rp_order_id p) ''REFUND_ROLLBACK_FAILED'' w
         in if \<not> failed_before then
              (case call (deduct_available_balance (po_user_id (rp_order p)) (rp_balance p) (ByRefund (rp_order_id p))) w1 of
                 (DbOk (Some deducted), w2) \<Rightarrow> (Inr (p\<lparr>rp_balance := deducted\<rparr>), w2)
               | (_, w2) \<Rightarrow> (Inl DeductionError, restore_status p w2))
            else (Inr (p\<lparr>rp_balance := 0\<rparr>), w1))
      else (Inr p, w))"

definition deduct_days_step :: "refund_plan \<Rightarrow> pay_world \<Rightarrow> (refund_error + refund_plan) \<times> pay_world" where
  "deduct_days_step p w =
     (if rp_deduction_type p = DeductionTypeSubscription \<and> rp_sub_days p > 0 \<and> rp_sub_id p > 0 then
        (let (failed_before, w1) = has_audit_log (rp_order_id p) ''REFUND_ROLLBACK_FAILED'' w
         in if \<not> failed_before then
              (case extend_subscription (rp_sub_id p) (- rp_sub_days p) w1 of
                 (ExtendOk, w2) \<Rightarrow> (Inr p, w2)
               | (ExtendWouldExpire, w2) \<Rightarrow>
                   (case revoke_subscription (rp_sub_id p) w2 of
                      (True, w3) \<Rightarrow> (Inr p, w3)
                    | (False, w3) \<Rightarrow> (Inl DeductionError, restore_status p w3))
               | (ExtendError, w2) \<Rightarrow> (Inl DeductionError, restore_status p w2))
            else (Inr (p\<lparr>rp_sub_days := 0\<rparr>), w1))
      else (Inr p, w))"

definition execute_refund ::
  "refund_service \<Rightarrow> gateway_answer \<Rightarrow> refund_plan \<Rightarrow> pay_world \<Rightarrow> (refund_error + refund_result) \<times> pay_world" where
  "execute_refund svc gw p w =
     (case call (update_order (rp_order_id p) refundable (\<lambda>x. x\<lparr>po_status := OrderStatusRefunding\<rparr>)) w of
        (DbErr, w1) \<Rightarrow> (Inl RefundDb, w1)
      | (DbOk c, w1) \<Rightarrow>
          if c = 0 then (Inl RefundConflict, w1)
          else (case deduct_balance_step p w1 of
             (Inl e, w2) \<Rightarrow> (Inl e, w2)
           | (Inr p1, w2) \<Rightarrow>
               (case deduct_days_step p1 w2 of
                  (Inl e, w3) \<Rightarrow> (Inl e, w3)
                | (Inr p2, w3) \<Rightarrow>
                    (case gw_refund svc gw p2 w3 of
                       (None, w4) \<Rightarrow> handle_gw_fail p2 w4
                     | (Some resp, w4) \<Rightarrow> finish_refund p2 resp w4))))"

section \<open>Settling a pending refund\<close>

definition refund_finalize_plan :: "pay_order \<Rightarrow> refund_plan" where
  "refund_finalize_plan x =
     (let reason = (case po_refund_reason x of None \<Rightarrow> [] | Some r \<Rightarrow> trim_space r)
      in \<lparr>rp_order_id = po_id x, rp_order = x, rp_refund_amount = po_refund_amount x,
          rp_gateway_amount = calculate_gateway_refund_amount (po_amount x) (po_pay_amount x) (po_refund_amount x) (po_currency x),
          rp_reason = (if reason = [] then ''refund order:'' @ show_int (po_id x) else reason),
          rp_force = po_force_refund x, rp_deduct_balance = True, rp_deduction_type = DeductionTypeBalance,
          rp_balance = (if po_order_type x = OrderTypeBalance then po_refund_amount x else 0),
          rp_sub_days = 0, rp_sub_id = 0, rp_held = False\<rparr>)"

definition apply_pending_detail :: "refund_pending_detail \<Rightarrow> refund_plan \<Rightarrow> refund_plan" where
  "apply_pending_detail d p = p\<lparr>rp_held := True,
     rp_deduction_type := (if rd_deduction_type d = [] then DeductionTypeNone else rd_deduction_type d),
     rp_balance := rd_balance_deducted d, rp_sub_days := rd_sub_days_deducted d, rp_sub_id := rd_subscription_id d\<rparr>"

definition no_pending_detail :: refund_pending_detail where
  "no_pending_detail = \<lparr>rd_refund_id = [], rd_refund_amount = 0, rd_reason = [], rd_force = False, rd_rollback_ok = True,
     rd_held = False, rd_deduction_type = [], rd_balance_deducted = 0, rd_sub_days_deducted = 0, rd_subscription_id = 0,
     rd_requested_at = 0\<rparr>"

definition latest_refund_pending_detail :: "int \<Rightarrow> pay_world \<Rightarrow> (refund_error + refund_pending_detail) \<times> pay_world" where
  "latest_refund_pending_detail oid w =
     (case call (\<lambda>db. (find (\<lambda>a. au_order a = oid \<and> au_action a = ''REFUND_PENDING'') (rev (pd_audit db)), db)) w of
        (DbErr, w1) \<Rightarrow> (Inl RefundAuditUnreadable, w1)
      | (DbOk None, w1) \<Rightarrow> (Inr no_pending_detail, w1)
      | (DbOk (Some a), w1) \<Rightarrow>
          (case au_detail a of
             PendingDetail d \<Rightarrow> (Inr (d\<lparr>rd_refund_id := trim_space (rd_refund_id d), rd_requested_at := au_created_at a\<rparr>), w1)
           | PlainDetail \<Rightarrow> (Inl RefundAuditUnreadable, w1)))"

definition apply_final_deduction :: "refund_plan \<Rightarrow> pay_db \<Rightarrow> refund_plan option \<times> pay_db" where
  "apply_final_deduction p db =
     (if rp_held p then (Some p, db)
      else if rp_deduction_type p = DeductionTypeBalance \<and> rp_balance p > 0 then
        (case deduct_available_balance (po_user_id (rp_order p)) (rp_balance p) (ByRefund (rp_order_id p)) db of
           (Some deducted, db1) \<Rightarrow> (Some (p\<lparr>rp_balance := deducted\<rparr>), db1)
         | (None, db1) \<Rightarrow> (None, db1))
      else if rp_deduction_type p = DeductionTypeSubscription \<and> rp_sub_days p > 0 \<and> rp_sub_id p > 0 then
        (case extend_tx (rp_sub_id p) (- rp_sub_days p) db of
           (ExtendOk, db1) \<Rightarrow> (Some p, db1)
         | (ExtendWouldExpire, db1) \<Rightarrow> (Some p, delete_sub (rp_sub_id p) db1)
         | (ExtendError, db1) \<Rightarrow> (None, db1))
      else (Some p, db))"

definition finalize_success_tx :: "refund_plan \<Rightarrow> pay_db \<Rightarrow> (refund_error + refund_result) \<times> pay_db" where
  "finalize_success_tx p db =
     (case update_order (rp_order_id p) (\<lambda>x. po_status x = OrderStatusRefundPending) (\<lambda>x. x\<lparr>po_status := OrderStatusRefunding\<rparr>) db of
        (c, db1) \<Rightarrow>
          if c = 0 then (Inl RefundConflict, db)
          else (case apply_final_deduction p db1 of
             (None, db2) \<Rightarrow> (Inl DeductionError, db)
           | (Some p1, db2) \<Rightarrow>
               (case insert_audit (rp_order_id p) ''REFUND_SUCCESS'' ''admin'' PlainDetail
                       (snd (update_one (rp_order_id p) (set_refunded p1 (pd_clock db)) db2)) of
                  None \<Rightarrow> (Inl RefundDb, db)
                | Some db3 \<Rightarrow> (Inr (success_result p1), db3))))"

definition finalize_pending_refund_success :: "refund_plan \<Rightarrow> pay_world \<Rightarrow> (refund_error + refund_result) \<times> pay_world" where
  "finalize_pending_refund_success p w =
     (case call (finalize_success_tx p) w of (DbErr, w1) \<Rightarrow> (Inl RefundDb, w1) | (DbOk r, w1) \<Rightarrow> (r, w1))"

definition return_held_deduction :: "refund_plan \<Rightarrow> pay_db \<Rightarrow> bool \<times> pay_db" where
  "return_held_deduction p db =
     (let (returned, db1) =
        (if rp_deduction_type p = DeductionTypeBalance \<and> rp_balance p > 0
         then credit_user (po_user_id (rp_order p)) (rp_balance p) (ByRefund (rp_order_id p)) db else (True, db))
      in if \<not> returned then (False, db1)
         else if rp_deduction_type p = DeductionTypeSubscription \<and> rp_sub_days p > 0 \<and> rp_sub_id p > 0
         then (case extend_tx (rp_sub_id p) (rp_sub_days p) db1 of (ExtendOk, db2) \<Rightarrow> (True, db2) | (_, db2) \<Rightarrow> (False, db2))
         else (True, db1))"

datatype failed_tx_outcome = FailedMarked | ReturnFailed | FailedTxError refund_error

text \<open>\<open>finalizeRefundFailedTx\<close>: \<open>rollback_failed\<close> says that returning the deduction was tried before, in vain.\<close>

definition finalize_failed_tx :: "refund_plan \<Rightarrow> bool \<Rightarrow> pay_db \<Rightarrow> failed_tx_outcome \<times> pay_db" where
  "finalize_failed_tx p rollback_failed db =
     (case update_order (rp_order_id p) (\<lambda>x. po_status x = OrderStatusRefundPending)
             (\<lambda>x. x\<lparr>po_status := OrderStatusRefundFailed, po_failed_at := Some (pd_clock db), po_failed_reason := Some ''gateway failed''\<rparr>) db of
        (c, db1) \<Rightarrow>
          if c = 0 then (FailedTxError RefundConflict, db)
          else
            let (returned, db2) = (if rp_held p \<and> \<not> rollback_failed then return_held_deduction p db1 else (True, db1))
            in if \<not> returned then (ReturnFailed, db)
               else
                 (case (if rollback_failed then insert_audit (rp_order_id p) ''REFUND_ROLLBACK_FAILED'' ''admin'' PlainDetail db2 else Some db2) of
                    None \<Rightarrow> (FailedTxError RefundDb, db)
                  | Some db3 \<Rightarrow>
                      (case insert_audit (rp_order_id p) ''REFUND_FAILED'' ''admin'' PlainDetail db3 of
                         None \<Rightarrow> (FailedTxError RefundDb, db)
                       | Some db4 \<Rightarrow> (FailedMarked, db4))))"

definition finalize_refund_failed :: "refund_plan \<Rightarrow> pay_world \<Rightarrow> (refund_error + refund_result) \<times> pay_world" where
  "finalize_refund_failed p w =
     (case call (finalize_failed_tx p False) w of
        (DbErr, w1) \<Rightarrow> (Inl RefundDb, w1)
      | (DbOk FailedMarked, w1) \<Rightarrow> (Inr (warning_result ''gateway refund failed'' False), w1)
      | (DbOk (FailedTxError e), w1) \<Rightarrow> (Inl e, w1)
      | (DbOk ReturnFailed, w1) \<Rightarrow>
          (case call (finalize_failed_tx p True) w1 of
             (DbOk FailedMarked, w2) \<Rightarrow>
               (Inr (warning_result ''gateway refund failed; refund deduction rollback failed'' False), w2)
           | (DbOk (FailedTxError e), w2) \<Rightarrow> (Inl e, w2)
           | (_, w2) \<Rightarrow> (Inl RefundDb, w2)))"

definition finalize_plan_for ::
  "pay_order \<Rightarrow> refund_pending_detail \<Rightarrow> pay_world \<Rightarrow> refund_result option \<times> refund_plan \<times> pay_world" where
  "finalize_plan_for x d w =
     (let plan = refund_finalize_plan x
      in if rd_held d then (None, apply_pending_detail d plan, w)
         else if \<not> rd_rollback_ok d then (None, plan\<lparr>rp_balance := 0, rp_sub_days := 0\<rparr>, w)
         else if po_order_type x = OrderTypeSubscription then prep_deduct x plan True w
         else (None, plan, w))"

definition query_and_finalize_refund ::
  "refund_service \<Rightarrow> gateway_answer \<Rightarrow> int \<Rightarrow> pay_world \<Rightarrow> (refund_error + refund_result) \<times> pay_world" where
  "query_and_finalize_refund svc gw oid w =
     (case get_order oid w of
        (DbOk (Some x), w1) \<Rightarrow>
          if po_status x \<noteq> OrderStatusRefundPending then (Inl RefundStatus, w1)
          else if \<not> refund_provider svc x then (Inl NoRefundProvider, w1)
          else if \<not> rs_can_query svc x then (Inl RefundQueryUnsupported, w1)
          else (case latest_refund_pending_detail oid w1 of
             (Inl e, w2) \<Rightarrow> (Inl e, w2)
           | (Inr d, w2) \<Rightarrow>
               if ga_error gw then (Inl RefundQueryFailed, w2)
               else (case finalize_plan_for x d w2 of
                  (Some early, p, w3) \<Rightarrow> (Inr early, w3)
                | (None, p, w3) \<Rightarrow>
                    (case ga_response gw of
                       None \<Rightarrow> finalize_refund_failed p w3
                     | Some r \<Rightarrow>
                         if \<not> valid_refund_response (Some r) then finalize_refund_failed p w3
                         else if trim_space (rr_status r) \<in> {ProviderStatusSuccess, ProviderStatusRefunded}
                         then finalize_pending_refund_success p w3
                         else if trim_space (rr_status r) = ProviderStatusPending
                         then (Inr (warning_result ''gateway refund is still pending confirmation'' False),
                               write_audit_log oid ''REFUND_QUERY_PENDING'' ''admin'' w3)
                         else finalize_refund_failed p w3)))
      | (_, w1) \<Rightarrow> (Inl RefundNotFound, w1))"

end
