(* ===== verification/Fulfillment_Credit.thy ===== *)
theory Fulfillment_Credit
  imports Payment_Fulfillment
begin

text \<open>
  What the fulfilment of payments guarantees. The statements of a worker stay within relations
  between databases (\<open>grows\<close>, \<open>kept\<close>, \<open>only_audited\<close>), shown once for the interface of a fulfilment
  and used for the worker itself and for the workers that run between its statements.
\<close>

section \<open>Every operation only lets the database grow\<close>

text \<open>The rebate transaction adds a rebate only with the order's one claim.\<close>

lemma has_audit_append:
  "has_audit oid action (db\<lparr>pd_audit := pd_audit db @ [e]\<rparr>) \<longleftrightarrow> has_audit oid action db \<or> au_order e = oid \<and> au_action e = action"
  by (auto simp: has_audit_def)

lemma safe_rebate_tx: "safe grows (rebate_tx accrue oid uid base)"
proof -
  have "grows db (snd (rebate_tx accrue oid uid base db))" for db
  proof (cases "rebate_claimed oid db")
    case True
    then show ?thesis by (simp add: rebate_tx_def rebate_claimed_def)
  next
    case False
    then obtain db1 where ins: "insert_audit oid ''AFFILIATE_REBATE_APPLIED'' ''system'' PlainDetail db = Some db1"
      and db1: "db1 = db\<lparr>pd_audit := pd_audit db @ [\<lparr>au_order = oid, au_action = ''AFFILIATE_REBATE_APPLIED'',
        au_operator = ''system'', au_detail = PlainDetail, au_created_at = pd_clock db\<rparr>]\<rparr>"
      by (simp add: rebate_claimed_def insert_audit_def)
    let ?skip = "db1\<lparr>pd_audit := rename_audit oid ''AFFILIATE_REBATE_APPLIED'' ''AFFILIATE_REBATE_SKIPPED'' (pd_audit db1)\<rparr>"
    have claimed: "rebate_claimed oid db1" by (auto simp: rebate_claimed_def db1 has_audit_append)
    have skip: "rebate_claimed i ?skip" if "rebate_claimed i db" for i
      using that by (auto simp: rebate_claimed_def has_audit_def rename_audit_def db1 list_ex_iff)
    have moves: "code_moves c ?skip = code_moves c db" for c by (simp add: code_moves_def db1)
    have gskip: "grows db ?skip" using skip moves by (intro grows_other) (simp_all add: db1)
    have gadd: "grows db (db1\<lparr>pd_rebates := pd_rebates db1 @ [(oid, uid, x)]\<rparr>)" (is "grows db ?add") for x
    proof -
      have codes: "code_inv ?add c = code_inv db c" for c by (rule code_inv_cong) (simp_all add: db1 code_moves_def)
      have "length (rebates_of i ?add) \<le> 1 \<and> (rebates_of i ?add \<noteq> [] \<longrightarrow> rebate_claimed i ?add)" if "pay_inv db" for i
        using that False claimed
        by (cases "i = oid") (auto simp: pay_inv_def rebates_of_def db1 rebate_claimed_def has_audit_def)
      with codes show ?thesis by (auto simp: grows_def pay_inv_def db1)
    qed
    show ?thesis
      using False ins gskip gadd by (auto simp: rebate_tx_def rebate_claimed_def split: option.splits)
  qed
  then show ?thesis by (simp add: safe_def)
qed

section \<open>What a fulfilment keeps\<close>

text \<open>
  The statements a fulfilment issues for the orders it works on, and what follows when each
  of them stays within a relation.
\<close>

locale attempt = worker +
  fixes mine :: "pay_order \<Rightarrow> bool"
  assumes lease_safe: "mine o' \<Longrightarrow> safe G (take_lease (po_id o') now)"
    and fail_safe: "mine o' \<Longrightarrow> safe G (fail_stmt (po_id o') version now)"
    and redeem_safe: "mine o' \<Longrightarrow> safe G (redeem_tx (po_user_id o') (po_recharge_code o'))"
    and create_safe: "mine o' \<Longrightarrow> safe G (create_code ((payment_code o')\<lparr>rc_code := trim_space (po_recharge_code o')\<rparr>))"
    and rebate_safe: "mine o' \<Longrightarrow> safe G (rebate_tx accrue (po_id o') (po_user_id o') base)"
begin

lemma progress_actions [progress_rules]:
  "progress G w (snd a) \<Longrightarrow> progress G w (snd b) \<Longrightarrow> progress G w (snd d) \<Longrightarrow>
     progress G w (snd (case act of RedeemActionCreate \<Rightarrow> a | RedeemActionRedeem \<Rightarrow> b | RedeemActionSkipCompleted \<Rightarrow> d))"
  by (simp split: redeem_action.split)

lemma progress_get_code [progress_rules]: "progress G w (snd (get_code code w))"
  by (simp add: get_code_def progress_call_read)

lemmas stmt_progress = lease_safe [THEN progress_callI] fail_safe [THEN progress_callI] redeem_safe [THEN progress_callI] create_safe [THEN progress_callI]
  rebate_safe [THEN progress_callI]

lemma progress_lease: "mine o' \<Longrightarrow> progress G w (snd (acquire_fulfillment_lease (po_id o') w))"
  unfolding acquire_fulfillment_lease_def Let_def by (intro progress_rules stmt_progress) simp_all

lemma progress_fail: "mine o' \<Longrightarrow> progress G w (mark_failed (po_id o') lease w)"
  unfolding mark_failed_def Let_def by (intro progress_rules stmt_progress; simp)

lemma progress_redeem: "mine o' \<Longrightarrow> progress G w (snd (redeem_for_payment svc (po_user_id o') (po_recharge_code o') w))"
  unfolding redeem_for_payment_def by (intro progress_rules stmt_progress) simp_all

lemma progress_create: "mine o' \<Longrightarrow> progress G w (snd (create_redeem_code (payment_code o') w))"
proof -
  assume "mine o'"
  moreover have "rc_code (payment_code o') = po_recharge_code o'" by (simp add: payment_code_def)
  ultimately show ?thesis
    unfolding create_redeem_code_def Let_def by (intro progress_rules) (simp_all add: stmt_progress)
qed

lemma progress_rebate: "mine o' \<Longrightarrow> progress G w (snd (apply_affiliate_rebate svc o' w))"
  unfolding apply_affiliate_rebate_def Let_def by (intro progress_rules stmt_progress) simp_all

lemma progress_with_lease:
  "mine o' \<Longrightarrow> (\<And>lease w. progress G w (snd (work lease w))) \<Longrightarrow> progress G w (snd (with_lease o' work w))"
  unfolding with_lease_def by (intro progress_rules progress_lease progress_fail) simp_all

end

text \<open>With the completion of the order it is the whole work.\<close>

locale fulfilment = attempt +
  assumes complete_safe: "mine o' \<Longrightarrow> safe G (complete_stmt (po_id o') version now)"
begin

lemma progress_complete: "mine o' \<Longrightarrow> progress G w (snd (mark_completed o' lease action w))"
  unfolding mark_completed_def Let_def by (intro progress_rules complete_safe [THEN progress_callI]; simp)

lemma progress_finish: "mine o' \<Longrightarrow> progress G w (snd (finish_balance svc o' lease w))"
  unfolding finish_balance_def by (intro progress_rules progress_rebate progress_complete) simp_all

lemma progress_redeem_finish: "mine o' \<Longrightarrow> progress G w (snd (redeem_then_finish svc o' lease w))"
  unfolding redeem_then_finish_def by (intro progress_rules progress_redeem progress_finish) simp_all

lemma progress_balance: "mine o' \<Longrightarrow> progress G w (snd (do_balance svc o' lease w))"
  unfolding do_balance_def Let_def
  by (intro progress_rules progress_finish progress_redeem_finish progress_create) simp_all

end

interpretation growing: fulfilment grows "\<lambda>_. True"
proof unfold_locales
  show "safe grows (create_code ((payment_code o')\<lparr>rc_code := trim_space (po_recharge_code o')\<rparr>))" for o'
    by (simp add: safe_def grows_create_code payment_code_def)
qed (simp_all add: safe_def grows_update_order grows_redeem_tx take_lease_def complete_stmt_def fail_stmt_def
    safe_rebate_tx [unfolded safe_def])

section \<open>Credited exactly once\<close>

lemma progress_code:
  assumes "progress grows w w'" "safe_env grows w" "pd_codes (pw_db w) c = Some r"
  shows "\<exists>r'. pd_codes (pw_db w') c = Some r' \<and> rc_value r' = rc_value r \<and> rc_code r' = rc_code r \<and>
    (rc_status r = StatusUsed \<longrightarrow> r' = r)"
proof -
  have "code_le (pd_codes (pw_db w) c) (pd_codes (pw_db w') c)" using assms(1,2) by (simp add: progress_def grows_def)
  then have "code_le (Some r) (pd_codes (pw_db w') c)" by (simp add: assms(3))
  then show ?thesis by (cases "pd_codes (pw_db w') c") auto
qed

lemma get_code_ok:
  assumes "get_code c w = (DbOk x, w')" "safe_env grows w"
  shows "safe_env grows w' \<and> x = pd_codes (pw_db w') c"
  using growth.call_cases [OF assms(1) [unfolded get_code_def] assms(2)] by auto

lemma redeem_ok:
  assumes "redeem_for_payment svc uid c w = (Inr (), w')" "safe_env grows w"
  shows "\<exists>r. pd_codes (pw_db w') c = Some r \<and> rc_status r = StatusUsed \<and> rc_used_by r = Some uid \<and>
    (\<forall>r0. pd_codes (pw_db w) c = Some r0 \<longrightarrow> rc_value r = rc_value r0)"
proof -
  obtain x w1 where g: "get_code c w = (x, w1)" by (cases "get_code c w")
  obtain y w2 where u: "call (\<lambda>db. (pd_users db uid, db)) w1 = (y, w2)"
    by (cases "call (\<lambda>db. (pd_users db uid, db)) w1")
  obtain z w3 where t: "call (redeem_tx uid c) w2 = (z, w3)" by (cases "call (redeem_tx uid c) w2")
  obtain v w4 where g2: "get_code c w3 = (v, w4)" by (cases "get_code c w3")
  have z: "z = DbOk RedeemDone" and w': "w' = w4"
    using assms(1) g u t g2
    by (auto simp: redeem_for_payment_def split: if_splits answer.splits option.splits redeem_outcome.splits)
  have p1: "progress grows w w1" using growing.progress_get_code [where w = w and code = c] g by simp
  have p2: "progress grows w1 w2" using growth.progress_call_read [of w1 "\<lambda>db. pd_users db uid"] u by simp
  have p4: "progress grows w3 w4" using growing.progress_get_code [where w = w3 and code = c] g2 by simp
  have s2: "safe_env grows w2" using p1 p2 assms(2) by (simp add: progress_def)
  obtain db where db: "grows (pw_db w2) db" "fst (redeem_tx uid c db) = RedeemDone" "pw_db w3 = snd (redeem_tx uid c db)"
    and s3: "safe_env grows w3"
    using growth.call_cases [OF t s2] z by auto
  obtain r where r: "pd_codes db c = Some r" "rc_status r = StatusUnused"
    and r3: "pd_codes (pw_db w3) c = Some (r\<lparr>rc_status := StatusUsed, rc_used_by := Some uid\<rparr>)"
    using redeem_tx_cases [OF prod.collapse [symmetric], of uid c db] db(2,3) by (auto simp: move_balance_def)
  have "pd_codes (pw_db w4) c = Some (r\<lparr>rc_status := StatusUsed, rc_used_by := Some uid\<rparr>)"
    using progress_code [OF p4 s3 r3] by auto
  moreover have "rc_value r = rc_value r0" if r0: "pd_codes (pw_db w) c = Some r0" for r0
  proof -
    obtain r2 where r2: "pd_codes (pw_db w2) c = Some r2" "rc_value r2 = rc_value r0"
      using progress_code [OF growth.progress_trans [OF p1 p2] assms(2) r0] by auto
    have "code_le (pd_codes (pw_db w2) c) (pd_codes db c)" using db(1) by (simp add: grows_def)
    with r(1) r2 show ?thesis by auto
  qed
  ultimately show ?thesis using w' by auto
qed

lemma create_ok:
  assumes "create_redeem_code r w = (Inr (), w')" "safe_env grows w" "rc_status r \<noteq> StatusUsed" "trim_space (rc_code r) = rc_code r"
  shows "safe_env grows w' \<and> pd_codes (pw_db w') (rc_code r) = Some r"
proof -
  obtain ans where c: "call (create_code r) w = (ans, w')" "ans = DbOk True"
    using assms(1,4) by (auto simp: create_redeem_code_def Let_def split: if_splits prod.splits answer.splits bool.splits)
  from growth.call_cases [OF c(1) assms(2)] c(2) show ?thesis by (auto simp: create_code_def split: if_splits)
qed

lemma finish_ok:
  assumes "finish_balance svc o' lease w = (res, w')" "safe_env grows w" "pay_inv (pw_db w)"
    and "pd_codes (pw_db w) c = Some r" "rc_status r = StatusUsed" "rc_used_by r = Some uid"
  shows "\<exists>m. code_moves c (pw_db w') = [m] \<and> mv_user m = uid \<and> (\<forall>v. rc_value r = Fin v \<and> 0 \<le> v \<longrightarrow> mv_delta m = v)"
proof -
  have p: "progress grows w w'" using growing.progress_finish [where o' = o' and w = w and svc = svc and lease = lease] assms(1) by simp
  have "pay_inv (pw_db w')" using p assms(2,3) by (simp add: progress_def grows_def)
  moreover have "pd_codes (pw_db w') c = Some r" using progress_code [OF p assms(2,4)] assms(5) by auto
  ultimately have "code_inv (pw_db w') c" "pd_codes (pw_db w') c = Some r" by (simp_all add: pay_inv_def)
  with assms(5,6) show ?thesis by (auto simp: code_inv_def split: list.splits)
qed

text \<open>One code has credited the user the order's amount, and no other time.\<close>

definition credited_once :: "pay_order \<Rightarrow> pay_world \<Rightarrow> bool" where
  "credited_once o' w \<longleftrightarrow> (\<exists>m. code_moves (po_recharge_code o') (pw_db w) = [m] \<and> mv_user m = po_user_id o' \<and>
    \<bar>mv_delta m - po_amount o'\<bar> \<le> 1 / 10 ^ 8)"

lemma finish_credits:
  assumes "finish_balance svc o' lease w = (Inr (), w')" "safe_env grows w" "pay_inv (pw_db w)" "1 / 10 ^ 8 \<le> po_amount o'"
    "pd_codes (pw_db w) (po_recharge_code o') = Some r" "rc_status r = StatusUsed" "rc_used_by r = Some (po_user_id o')"
    "rc_value r = Fin v" "\<bar>v - po_amount o'\<bar> \<le> 1 / 10 ^ 8"
  shows "credited_once o' w'"
  using finish_ok [OF assms(1-3,5-7)] assms(4,8,9) by (auto simp: credited_once_def)

lemma redeem_credits:
  assumes f: "redeem_then_finish svc o' lease w = (Inr (), w')" "safe_env grows w" "pay_inv (pw_db w)" and a: "1 / 10 ^ 8 \<le> po_amount o'"
    and r0: "pd_codes (pw_db w) (po_recharge_code o') = Some r0" "rc_value r0 = Fin v" "\<bar>v - po_amount o'\<bar> \<le> 1 / 10 ^ 8"
  shows "credited_once o' w'"
proof -
  let ?c = "po_recharge_code o'" and ?u = "po_user_id o'"
  obtain w3 where rd: "redeem_for_payment svc ?u ?c w = (Inr (), w3)" and fb: "finish_balance svc o' lease w3 = (Inr (), w')"
    using f(1) by (auto simp: redeem_then_finish_def split: prod.splits sum.splits)
  have p: "progress grows w w3" using growing.progress_redeem [where o' = o' and w = w and svc = svc] rd by simp
  obtain r where "pd_codes (pw_db w3) ?c = Some r" "rc_status r = StatusUsed" "rc_used_by r = Some ?u" "rc_value r = Fin v"
    using redeem_ok [OF rd f(2)] r0 by auto
  from finish_credits [OF fb _ _ a this(1-4) r0(3)] show ?thesis using p f(2,3) by (simp add: progress_def grows_def)
qed

lemma existing_code_credits:
  assumes run: "do_balance svc o' lease w = (Inr (), w')" and g: "get_code (po_recharge_code o') w = (DbOk (Some r), w1)"
    and w1: "safe_env grows w1" "pay_inv (pw_db w1)" and a: "1 / 10 ^ 8 \<le> po_amount o'"
    and code: "pd_codes (pw_db w1) (po_recharge_code o') = Some r"
  shows "credited_once o' w'"
proof -
  from run g have valid: "validate_payment_redeem_code o' r"
    by (auto simp: do_balance_def resolve_redeem_action_def split: if_splits)
  obtain v where v: "rc_value r = Fin v" "\<bar>v - po_amount o'\<bar> \<le> 1 / 10 ^ 8"
    using valid by (auto simp: validate_payment_redeem_code_def split: if_splits f64.splits)
  show ?thesis
  proof (cases "rc_status r = StatusUsed")
    case True
    with valid have "rc_used_by r = Some (po_user_id o')" by (simp add: validate_payment_redeem_code_def split: if_splits)
    moreover have "finish_balance svc o' lease w1 = (Inr (), w')"
      using run g valid True by (simp add: do_balance_def resolve_redeem_action_def)
    ultimately show ?thesis using finish_credits [OF _ w1 a code True _ v] by simp
  next
    case False
    then have "redeem_then_finish svc o' lease w1 = (Inr (), w')"
      using run g valid by (simp add: do_balance_def resolve_redeem_action_def)
    from redeem_credits [OF this w1 a code v] show ?thesis .
  qed
qed

text \<open>C9: whatever other workers do between its statements and whatever statements fail, when the work on a
  balance order reports success the order's user has been credited by the order's code exactly once, with the
  order's amount to within the accepted tolerance.\<close>

theorem balance_credited_once:
  assumes inv: "pay_inv (pw_db w)" and env: "safe_env grows w"
    and run: "do_balance svc o' lease w = (Inr (), w')"
    and order: "trim_space (po_recharge_code o') = po_recharge_code o'" "1 / 10 ^ 8 \<le> po_amount o'"
  shows "\<exists>m. code_moves (po_recharge_code o') (pw_db w') = [m] \<and> mv_user m = po_user_id o' \<and>
    \<bar>mv_delta m - po_amount o'\<bar> \<le> 1 / 10 ^ 8"
proof -
  let ?c = "po_recharge_code o'"
  obtain lookup w1 where g: "get_code ?c w = (lookup, w1)" by (cases "get_code ?c w")
  have p1: "progress grows w w1" using growing.progress_get_code [where w = w and code = ?c] g by simp
  have s1: "safe_env grows w1" and i1: "pay_inv (pw_db w1)" using p1 inv env by (auto simp: progress_def grows_def)
  obtain action where action: "resolve_redeem_action lookup = Inr action"
    using run g by (auto simp: do_balance_def split: sum.splits)
  then obtain x where x: "lookup = DbOk x" by (auto simp: resolve_redeem_action_def split: answer.splits)
  have code: "x = pd_codes (pw_db w1) ?c" using get_code_ok [OF g [unfolded x] env] by simp
  have "credited_once o' w'"
  proof (cases x)
    case None
    then obtain w2 where c: "create_redeem_code (payment_code o') w1 = (Inr (), w2)"
      and f: "redeem_then_finish svc o' lease w2 = (Inr (), w')"
      using run g x by (auto simp: do_balance_def resolve_redeem_action_def split: prod.splits sum.splits)
    have "safe_env grows w2" "pd_codes (pw_db w2) ?c = Some (payment_code o')"
      using create_ok [OF c s1] order(1) by (simp_all add: payment_code_def)
    moreover have "pay_inv (pw_db w2)"
      using growing.progress_create [where o' = o' and w = w1] c s1 i1 by (simp add: progress_def grows_def)
    ultimately show ?thesis using redeem_credits [OF f _ _ order(2), of "payment_code o'" "po_amount o'"] by (simp add: payment_code_def)
  next
    case (Some r)
    with g x code have "get_code ?c w = (DbOk (Some r), w1)" "pd_codes (pw_db w1) ?c = Some r" by simp_all
    from existing_code_credits [OF run this(1) s1 i1 order(2) this(2)] show ?thesis .
  qed
  then show ?thesis by (simp add: credited_once_def)
qed

section \<open>Repeated attempts on one order\<close>

definition same_order :: "pay_order \<Rightarrow> pay_order \<Rightarrow> bool" where
  "same_order o0 x \<longleftrightarrow> po_id x = po_id o0 \<and> po_user_id x = po_user_id o0 \<and> po_amount x = po_amount o0 \<and>
     po_recharge_code x = po_recharge_code o0 \<and> po_order_type x = OrderTypeBalance \<and>
     trim_space (po_recharge_code o0) = po_recharge_code o0 \<and> po_recharge_code o0 \<noteq> [] \<and> 0 < po_amount o0"

definition paid_code :: "pay_order \<Rightarrow> redeem_code \<Rightarrow> bool" where
  "paid_code o0 r \<longleftrightarrow> rc_code r = po_recharge_code o0 \<and> rc_type r = RedeemTypeBalance \<and>
     rc_value r = Fin (po_amount o0) \<and> rc_expires_at r = None \<and>
     (rc_status r = StatusUnused \<and> rc_used_by r = None \<or> rc_status r = StatusUsed \<and> rc_used_by r = Some (po_user_id o0))"

definition being_fulfilled :: "pay_order \<Rightarrow> pay_db \<Rightarrow> bool" where
  "being_fulfilled o0 db \<longleftrightarrow> pay_inv db \<and> pd_users db (po_user_id o0) \<noteq> None \<and>
     (\<exists>x. pd_orders db (po_id o0) = Some x \<and> same_order o0 x \<and>
        po_status x \<in> {OrderStatusPaid, OrderStatusFailed, OrderStatusRecharging, OrderStatusCompleted}) \<and>
     (case pd_codes db (po_recharge_code o0) of None \<Rightarrow> True | Some r \<Rightarrow> paid_code o0 r)"

text \<open>Attempts one after another, each at a time and with a fault schedule of its own.\<close>

fun run_attempts :: "pay_service \<Rightarrow> int \<Rightarrow> (gotime \<times> faults) list \<Rightarrow> pay_db \<Rightarrow> pay_db" where
  "run_attempts svc oid [] db = db"
| "run_attempts svc oid ((t, fs) # rest) db =
     run_attempts svc oid rest (pw_db (snd (execute_balance_fulfillment svc oid
       \<lparr>pw_db = db\<lparr>pd_clock := t\<rparr>, pw_env = [], pw_faults = fs\<rparr>)))"

lemma grows_inv: "grows db db' \<Longrightarrow> pay_inv db \<Longrightarrow> pay_inv db'"
  by (simp add: grows_def)

lemma being_fulfilled_update:
  assumes "being_fulfilled o0 db" "\<And>x. same_order o0 x \<Longrightarrow> same_order o0 (f x)" "\<And>x. po_status (f x) = st"
    and "st \<in> {OrderStatusPaid, OrderStatusFailed, OrderStatusRecharging, OrderStatusCompleted}"
  shows "being_fulfilled o0 (snd (update_order (po_id o0) p f db))"
proof -
  have "same_order o0 (x\<lparr>po_updated_at := t\<rparr>) = same_order o0 x" for x t by (simp add: same_order_def)
  then show ?thesis
    using assms grows_inv [OF grows_update_order] by (auto simp: being_fulfilled_def update_order_def)
qed

lemma being_fulfilled_redeem:
  assumes "being_fulfilled o0 db"
  shows "being_fulfilled o0 (snd (redeem_tx (po_user_id o0) (po_recharge_code o0) db))"
proof -
  obtain out db' where eq: "redeem_tx (po_user_id o0) (po_recharge_code o0) db = (out, db')"
    by (cases "redeem_tx (po_user_id o0) (po_recharge_code o0) db")
  have "pay_inv db'"
    using grows_inv [OF grows_redeem_tx, of db "po_user_id o0" "po_recharge_code o0"] assms eq by (simp add: being_fulfilled_def)
  then show ?thesis
    using redeem_tx_cases [OF eq] assms
    by (auto simp: eq being_fulfilled_def move_balance_def paid_code_def)
qed

lemma being_fulfilled_rebate:
  "being_fulfilled o0 db \<Longrightarrow> being_fulfilled o0 (snd (rebate_tx accrue oid uid base db))"
  using grows_inv [of db "snd (rebate_tx accrue oid uid base db)"] safe_rebate_tx [of accrue oid uid base]
  by (auto simp: safe_def being_fulfilled_def rebate_tx_def insert_audit_def split: option.splits if_splits)

interpretation attempts: fulfilment "\<lambda>db db'. being_fulfilled o0 db \<longrightarrow> being_fulfilled o0 db'" "same_order o0" for o0
proof (unfold_locales, goal_cases)
  case (3 oid action op detail db db')
  then show ?case
    using grows_inv [OF grows_insert_audit [OF 3]] by (auto simp: being_fulfilled_def insert_audit_def split: if_splits)
next
  case (4 o' now)
  then show ?case
    by (auto simp: safe_def take_lease_def same_order_def intro!: being_fulfilled_update [where st = OrderStatusRecharging])
next
  case (5 o' version now)
  then show ?case
    by (auto simp: safe_def fail_stmt_def same_order_def intro!: being_fulfilled_update [where st = OrderStatusFailed])
next
  case (6 o')
  then show ?case by (simp add: safe_def same_order_def being_fulfilled_redeem)
next
  case (7 o')
  then have "payment_code o'\<lparr>rc_code := trim_space (po_recharge_code o')\<rparr> = payment_code o'"
    by (simp add: same_order_def payment_code_def)
  with 7 show ?case
    using grows_inv [OF grows_create_code, of "payment_code o'"]
    by (auto simp: safe_def being_fulfilled_def create_code_def payment_code_def paid_code_def same_order_def)
next
  case (8 o' accrue base)
  then show ?case by (simp add: safe_def being_fulfilled_rebate)
next
  case (9 o' version now)
  then show ?case
    by (auto simp: safe_def complete_stmt_def same_order_def intro!: being_fulfilled_update [where st = OrderStatusCompleted])
qed auto

section \<open>Completed orders are credited\<close>

text \<open>
  The used code of a balance order pays for it; a completed balance order has such a code, and no
  statement of a fulfilment changes the terms of an order.
\<close>

definition pays_for :: "redeem_code \<Rightarrow> pay_order \<Rightarrow> bool" where
  "pays_for r x \<longleftrightarrow> rc_status r = StatusUsed \<and> rc_used_by r = Some (po_user_id x) \<and>
     (\<exists>v. rc_value r = Fin v \<and> \<bar>v - po_amount x\<bar> \<le> 1 / 10 ^ 8)"

definition settled :: "pay_order \<Rightarrow> pay_db \<Rightarrow> bool" where
  "settled x db \<longleftrightarrow> (\<exists>r. pd_codes db (po_recharge_code x) = Some r \<and> pays_for r x)"

definition orders_settled :: "pay_db \<Rightarrow> bool" where
  "orders_settled db \<longleftrightarrow> (\<forall>oid x. pd_orders db oid = Some x \<longrightarrow>
     po_id x = oid \<and> trim_space (po_recharge_code x) = po_recharge_code x \<and>
     (po_order_type x = OrderTypeBalance \<and> po_status x = OrderStatusCompleted \<longrightarrow> settled x db))"

definition same_terms :: "pay_order \<Rightarrow> pay_order \<Rightarrow> bool" where
  "same_terms x y \<longleftrightarrow> po_id y = po_id x \<and> po_user_id y = po_user_id x \<and> po_amount y = po_amount x \<and>
     po_recharge_code y = po_recharge_code x \<and> po_order_type y = po_order_type x"

definition kept :: "pay_db \<Rightarrow> pay_db \<Rightarrow> bool" where
  "kept db db' \<longleftrightarrow> grows db db' \<and> (orders_settled db \<longrightarrow> orders_settled db') \<and>
     (\<forall>oid x. pd_orders db oid = Some x \<longrightarrow> (\<exists>y. pd_orders db' oid = Some y \<and> same_terms x y))"

definition stored :: "pay_order \<Rightarrow> pay_db \<Rightarrow> bool" where
  "stored o' db \<longleftrightarrow> (\<exists>x. pd_orders db (po_id o') = Some x \<and> same_terms o' x)"

lemma same_terms_refl [simp]: "same_terms x x"
  by (simp add: same_terms_def)

lemma same_terms_trans: "same_terms x y \<Longrightarrow> same_terms y z \<Longrightarrow> same_terms x z"
  by (simp add: same_terms_def)

lemma same_terms_settled: "same_terms x y \<Longrightarrow> settled y db = settled x db"
  by (simp add: same_terms_def settled_def pays_for_def)

lemma settled_grows: "settled x db \<Longrightarrow> grows db db' \<Longrightarrow> settled x db'"
proof -
  assume "settled x db" "grows db db'"
  then obtain r where r: "pd_codes db (po_recharge_code x) = Some r" "pays_for r x" by (auto simp: settled_def)
  moreover have "code_le (pd_codes db (po_recharge_code x)) (pd_codes db' (po_recharge_code x))"
    using \<open>grows db db'\<close> by (simp add: grows_def)
  ultimately show ?thesis
    by (cases "pd_codes db' (po_recharge_code x)") (auto simp: settled_def pays_for_def)
qed

lemma stored_kept: "stored x db \<Longrightarrow> kept db db' \<Longrightarrow> stored x db'"
  by (fastforce simp: stored_def kept_def intro: same_terms_trans)

lemma kept_same_orders: "grows db db' \<Longrightarrow> pd_orders db' = pd_orders db \<Longrightarrow> kept db db'"
  by (auto simp: kept_def orders_settled_def intro: settled_grows)

text \<open>Updates of an order keep its terms, and complete it only when it is settled.\<close>

lemma kept_update:
  assumes "\<And>x. same_terms x (f x)"
    and "\<And>x. pd_orders db oid = Some x \<Longrightarrow> po_status (f (x\<lparr>po_updated_at := pd_clock db\<rparr>)) = OrderStatusCompleted \<Longrightarrow>
      po_order_type x = OrderTypeBalance \<Longrightarrow> settled x db"
  shows "kept db (snd (update_order oid p f db))"
proof (cases "\<exists>x. pd_orders db oid = Some x \<and> p x")
  case True
  then obtain x where x: "pd_orders db oid = Some x" "p x" by blast
  let ?y = "f (x\<lparr>po_updated_at := pd_clock db\<rparr>)" and ?db = "snd (update_order oid p f db)"
  have db: "?db = db\<lparr>pd_orders := (pd_orders db)(oid \<mapsto> ?y)\<rparr>" using x by (simp add: update_order_def)
  have terms: "same_terms x ?y"
    using assms(1) [of "x\<lparr>po_updated_at := pd_clock db\<rparr>"] by (simp add: same_terms_def)
  have same: "settled z ?db = settled z db" for z by (simp add: db settled_def)
  have "orders_settled ?db" if "orders_settled db"
    using that assms(2) [OF x(1)] terms x(1) same_terms_settled [OF terms]
    unfolding orders_settled_def same by (auto simp: db same_terms_def)
  with terms x(1) show ?thesis by (auto simp: kept_def grows_update_order) (auto simp: db)
next
  case False
  then have "snd (update_order oid p f db) = db" by (auto simp: update_order_def split: option.splits)
  then show ?thesis by (simp add: kept_same_orders)
qed

interpretation keeping: attempt kept "\<lambda>_. True"
proof (unfold_locales, goal_cases)
  case 1
  show ?case by (simp add: kept_same_orders)
next
  case (2 a b c)
  then show ?case by (fastforce simp: kept_def intro: grows_trans same_terms_trans)
next
  case (3 oid action op detail db db')
  then show ?case
    by (intro kept_same_orders grows_insert_audit) (auto simp: insert_audit_def split: if_splits)
next
  case (4 o' now)
  show ?case
    unfolding safe_def take_lease_def by (intro allI kept_update) (simp_all add: same_terms_def order_status_defs)
next
  case (5 o' version now)
  show ?case
    unfolding safe_def fail_stmt_def by (intro allI kept_update) (simp_all add: same_terms_def order_status_defs)
next
  case (6 o')
  have "pd_orders (snd (redeem_tx uid code db)) = pd_orders db" for uid code db
    using redeem_tx_cases [OF prod.collapse [symmetric], of uid code db] by (auto simp: move_balance_def)
  then show ?case by (simp add: safe_def kept_same_orders grows_redeem_tx)
next
  case (7 o')
  show ?case
    by (auto simp: safe_def payment_code_def intro!: kept_same_orders grows_create_code) (simp add: create_code_def)
next
  case (8 o' accrue base)
  show ?case
    using safe_rebate_tx [of accrue "po_id o'" "po_user_id o'" base]
    by (auto simp: safe_def intro!: kept_same_orders)
      (auto simp: rebate_tx_def insert_audit_def split: option.splits)
qed

lemma safe_env_grows: "safe_env kept w \<Longrightarrow> safe_env grows w"
  by (auto simp: safe_env_def kept_def)

text \<open>Completing a stored order is safe once it is settled, if it is a balance order.\<close>

definition ready :: "pay_order \<Rightarrow> pay_world \<Rightarrow> bool" where
  "ready o' w \<longleftrightarrow> stored o' (pw_db w) \<and> (po_order_type o' = OrderTypeBalance \<longrightarrow> settled o' (pw_db w))"

lemma ready_progress: "ready o' w \<Longrightarrow> progress kept w w' \<Longrightarrow> safe_env kept w \<Longrightarrow> ready o' w'"
  by (auto simp: ready_def progress_def kept_def intro: settled_grows stored_kept)

lemma progress_complete_ready:
  assumes "ready o' w"
  shows "progress kept w (snd (call (complete_stmt (po_id o') version now) w))"
proof (unfold progress_def, intro impI)
  assume env: "safe_env kept w"
  obtain ans w' where c: "call (complete_stmt (po_id o') version now) w = (ans, w')"
    by (cases "call (complete_stmt (po_id o') version now) w")
  from keeping.call_cases [OF c env] obtain db where db: "kept (pw_db w) db" "safe_env kept w'"
      "pw_db w' = db \<or> pw_db w' = snd (complete_stmt (po_id o') version now db)" by auto
  have s: "stored o' db" "po_order_type o' = OrderTypeBalance \<Longrightarrow> settled o' db"
    using assms db(1) by (auto simp: ready_def kept_def intro: settled_grows stored_kept)
  then have "kept db (snd (complete_stmt (po_id o') version now db))"
    unfolding complete_stmt_def
    by (intro kept_update) (auto simp: same_terms_def stored_def settled_def pays_for_def)
  with db show "safe_env kept (snd (call (complete_stmt (po_id o') version now) w)) \<and>
      kept (pw_db w) (pw_db (snd (call (complete_stmt (po_id o') version now) w)))"
    by (auto simp: c intro: keeping.G_trans)
qed

lemma progress_mark_ready: "ready o' w \<Longrightarrow> progress kept w (snd (mark_completed o' lease action w))"
  unfolding mark_completed_def Let_def by (intro progress_rules progress_complete_ready) simp_all

lemma progress_finish_ready:
  assumes "ready o' w"
  shows "progress kept w (snd (finish_balance svc o' lease w))"
proof (cases "safe_env kept w")
  case True
  obtain res w1 where ar: "apply_affiliate_rebate svc o' w = (res, w1)" by (cases "apply_affiliate_rebate svc o' w")
  have p: "progress kept w w1" using keeping.progress_rebate [where w = w and svc = svc and o' = o'] ar by simp
  with progress_mark_ready [OF ready_progress [OF assms p True]] show ?thesis
    by (auto simp: finish_balance_def ar intro: keeping.progress_trans split: sum.splits)
qed (simp add: progress_def)

text \<open>What is known of the code when the order is about to be redeemed.\<close>

definition code_matches :: "pay_order \<Rightarrow> pay_world \<Rightarrow> bool" where
  "code_matches o' w \<longleftrightarrow> stored o' (pw_db w) \<and> (\<exists>r v. pd_codes (pw_db w) (po_recharge_code o') = Some r \<and>
     rc_value r = Fin v \<and> \<bar>v - po_amount o'\<bar> \<le> 1 / 10 ^ 8)"

lemma progress_redeem_ready:
  assumes "code_matches o' w"
  shows "progress kept w (snd (redeem_then_finish svc o' lease w))"
proof (cases "safe_env kept w")
  case True
  obtain res w1 where rd: "redeem_for_payment svc (po_user_id o') (po_recharge_code o') w = (res, w1)"
    by (cases "redeem_for_payment svc (po_user_id o') (po_recharge_code o') w")
  have p: "progress kept w w1"
    using keeping.progress_redeem [where w = w and svc = svc and o' = o'] rd by simp
  have "ready o' w1" if "res = Inr ()"
  proof -
    have "settled o' (pw_db w1)"
      using redeem_ok [OF rd [unfolded that] safe_env_grows [OF True]] assms
      by (fastforce simp: code_matches_def settled_def pays_for_def)
    moreover have "stored o' (pw_db w1)"
      using p True assms by (auto simp: progress_def code_matches_def intro: stored_kept)
    ultimately show ?thesis by (simp add: ready_def)
  qed
  with p show ?thesis
    by (auto simp: redeem_then_finish_def rd intro: keeping.progress_trans progress_finish_ready split: sum.splits)
qed (simp add: progress_def)

lemma stored_progress: "stored o' (pw_db w) \<Longrightarrow> progress kept w w' \<Longrightarrow> safe_env kept w \<Longrightarrow> stored o' (pw_db w')"
  by (auto simp: progress_def intro: stored_kept)

lemma validated_code:
  assumes "validate_payment_redeem_code o' r"
  shows "\<exists>v. rc_value r = Fin v \<and> \<bar>v - po_amount o'\<bar> \<le> 1 / 10 ^ 8" "rc_status r = StatusUsed \<Longrightarrow> pays_for r o'"
  using assms by (auto simp: validate_payment_redeem_code_def pays_for_def split: if_splits f64.splits)

lemma progress_balance_stored:
  assumes "stored o' (pw_db w)" "trim_space (po_recharge_code o') = po_recharge_code o'"
  shows "progress kept w (snd (do_balance svc o' lease w))"
proof (cases "safe_env kept w")
  case True
  obtain lookup w1 where g: "get_code (po_recharge_code o') w = (lookup, w1)" by (cases "get_code (po_recharge_code o') w")
  have p: "progress kept w w1"
    using keeping.progress_get_code [where w = w and code = "po_recharge_code o'"] g by simp
  have st: "stored o' (pw_db w1)" and s1: "safe_env kept w1"
    using stored_progress [OF assms(1) p True] p True by (auto simp: progress_def)
  have code: "pd_codes (pw_db w1) (po_recharge_code o') = x" if "lookup = DbOk x" for x
    using get_code_ok [OF g [unfolded that] safe_env_grows [OF True]] by simp
  have "progress kept w1 (snd (do_balance svc o' lease w))"
  proof (cases "\<exists>r. lookup = DbOk (Some r) \<and> validate_payment_redeem_code o' r")
    case True
    then obtain r where r: "lookup = DbOk (Some r)" "validate_payment_redeem_code o' r" by blast
    have "code_matches o' w1" using validated_code(1) [OF r(2)] code [OF r(1)] st by (auto simp: code_matches_def)
    moreover have "ready o' w1" if "rc_status r = StatusUsed"
      using validated_code(2) [OF r(2) that] code [OF r(1)] st by (simp add: ready_def settled_def)
    ultimately show ?thesis
      using r by (simp add: do_balance_def g resolve_redeem_action_def progress_redeem_ready progress_finish_ready)
  next
    case False
    obtain res w2 where c: "create_redeem_code (payment_code o') w1 = (res, w2)"
      by (cases "create_redeem_code (payment_code o') w1")
    have pc: "progress kept w1 w2" using keeping.progress_create [where w = w1 and o' = o'] c by simp
    have "code_matches o' w2" if "res = Inr ()"
      using create_ok [OF c [unfolded that] safe_env_grows [OF s1]] assms(2) stored_progress [OF st pc s1]
      by (simp add: payment_code_def code_matches_def)
    then show ?thesis
      using False pc
      by (auto simp: do_balance_def g resolve_redeem_action_def c
        intro: keeping.progress_trans progress_redeem_ready split: answer.splits option.splits sum.splits)
  qed
  with p show ?thesis by (rule keeping.progress_trans)
qed (simp add: progress_def)

lemma progress_with_lease_stored:
  assumes "stored o' (pw_db w)" and work: "\<And>lease v. stored o' (pw_db v) \<Longrightarrow> progress kept v (snd (work lease v))"
  shows "progress kept w (snd (with_lease o' work w))"
proof (cases "safe_env kept w")
  case True
  obtain res w1 where a: "acquire_fulfillment_lease (po_id o') w = (res, w1)" by (cases "acquire_fulfillment_lease (po_id o') w")
  have p: "progress kept w w1" using keeping.progress_lease [where w = w and o' = o'] a by simp
  have "progress kept w1 (snd (with_lease o' work w))"
  proof (cases "\<exists>v. res = Inr (Some v)")
    case True
    then obtain v where v: "res = Inr (Some v)" by blast
    obtain res2 w2 where b: "work (Some v) w1 = (res2, w2)" by (cases "work (Some v) w1")
    have "progress kept w1 w2"
      using work [OF stored_progress [OF assms(1) p \<open>safe_env kept w\<close>], of "Some v"] b by simp
    then show ?thesis
      using keeping.progress_fail [where o' = o' and w = w2 and lease = "Some v"]
      by (auto simp: with_lease_def a v b intro: keeping.progress_trans split: sum.splits)
  next
    case False
    then show ?thesis by (auto simp: with_lease_def a split: sum.splits option.splits)
  qed
  with p show ?thesis by (rule keeping.progress_trans)
qed (simp add: progress_def)

text \<open>An operation that reads an order first goes on with that order stored.\<close>

lemma progress_read_order:
  assumes inv: "orders_settled (pw_db w)" and g: "get_order oid w = (ans, w1)"
    and found: "\<And>o'. ans = DbOk (Some o') \<Longrightarrow> stored o' (pw_db w1) \<Longrightarrow> orders_settled (pw_db w1) \<Longrightarrow> po_id o' = oid \<Longrightarrow>
      pd_orders (pw_db w1) oid = Some o' \<Longrightarrow> progress kept w1 w'"
    and other: "\<forall>o'. ans \<noteq> DbOk (Some o') \<Longrightarrow> progress kept w1 w'"
  shows "progress kept w w'"
proof (cases "safe_env kept w")
  case True
  have p: "progress kept w w1" using keeping.progress_basic(1) [of w oid] g by simp
  have "progress kept w1 w'"
  proof (cases "\<exists>o'. ans = DbOk (Some o')")
    case True
    then obtain o' where o': "ans = DbOk (Some o')" by blast
    have x: "pd_orders (pw_db w1) oid = Some o'"
      using keeping.call_cases [OF g [unfolded get_order_def] \<open>safe_env kept w\<close>] o' by auto
    have i: "orders_settled (pw_db w1)" using p inv \<open>safe_env kept w\<close> by (simp add: progress_def kept_def)
    with x have "po_id o' = oid" by (auto simp: orders_settled_def)
    with x found [OF o' _ i] show ?thesis by (simp add: stored_def)
  qed (use other in blast)
  with p show ?thesis by (rule keeping.progress_trans)
qed (simp add: progress_def)

lemma stored_trimmed: "stored o' db \<Longrightarrow> orders_settled db \<Longrightarrow> trim_space (po_recharge_code o') = po_recharge_code o'"
  by (fastforce simp: stored_def orders_settled_def same_terms_def)

lemma progress_execute_balance:
  assumes inv: "orders_settled (pw_db w)"
  shows "progress kept w (snd (execute_balance_fulfillment svc oid w))"
proof -
  obtain ans w1 where g: "get_order oid w = (ans, w1)" by (cases "get_order oid w")
  show ?thesis
  proof (rule progress_read_order [OF inv g])
    fix o' assume o': "ans = DbOk (Some o')" and st: "stored o' (pw_db w1)" and i: "orders_settled (pw_db w1)"
    have "progress kept w1 (snd (with_lease o' (do_balance svc o') w1))"
      by (intro progress_with_lease_stored [OF st] progress_balance_stored stored_trimmed [OF st i])
    then show "progress kept w1 (snd (execute_balance_fulfillment svc oid w))"
      by (simp add: execute_balance_fulfillment_def g o' split: option.split)
  next
    assume "\<forall>o'. ans \<noteq> DbOk (Some o')"
    then show "progress kept w1 (snd (execute_balance_fulfillment svc oid w))"
      by (auto simp: execute_balance_fulfillment_def g split: answer.split option.split)
  qed
qed

lemma kept_more_audit:
  assumes "pd_orders db' = pd_orders db" "pd_codes db' = pd_codes db" "pd_rebates db' = pd_rebates db"
    "pd_ledger db' = pd_ledger db" "pd_audit db' = pd_audit db @ es"
  shows "kept db db'"
  using assms by (intro kept_same_orders grows_other) (auto simp: rebate_claimed_def has_audit_def code_moves_def)

lemma safe_assign_tx: "safe kept (assign_tx groups oid uid gid days)"
proof -
  have "kept db (snd (assign_tx groups oid uid gid days db))" for db
  proof (cases "snd (assign_tx groups oid uid gid days db) = db")
    case True
    then show ?thesis by (simp add: keeping.G_refl)
  next
    case False
    then obtain db1 db2 where st: "db1 = db \<or> assign_or_extend_subscription groups uid gid days (payment_subscription_order_note oid) db = Some db1"
      "insert_audit oid ''SUBSCRIPTION_ASSIGNED'' ''system'' PlainDetail db1 = Some db2"
      and eq: "snd (assign_tx groups oid uid gid days db) = db2"
      by (auto simp: assign_tx_def Let_def split: option.splits if_splits)
    from st have "kept db db2"
      by (auto simp: assign_or_extend_subscription_def update_sub_def insert_audit_def
          split: option.splits prod.splits if_splits intro!: kept_more_audit)
    with eq show ?thesis by simp
  qed
  then show ?thesis by (simp add: safe_def)
qed

lemma progress_sub_stored:
  assumes st: "stored o' (pw_db w)" and ty: "po_order_type o' \<noteq> OrderTypeBalance"
  shows "progress kept w (snd (do_sub svc o' gid days lease w))"
proof (cases "safe_env kept w")
  case True
  obtain grp w1 where g: "call (\<lambda>db. (svc_groups svc gid, db)) w = (grp, w1)"
    by (cases "call (\<lambda>db. (svc_groups svc gid, db)) w")
  obtain ans w2 where c: "call (assign_tx (svc_groups svc) (po_id o') (po_user_id o') gid days) w1 = (ans, w2)"
    by (cases "call (assign_tx (svc_groups svc) (po_id o') (po_user_id o') gid days) w1")
  obtain res w3 where a: "apply_affiliate_rebate svc o' w2 = (res, w3)" by (cases "apply_affiliate_rebate svc o' w2")
  have p1: "progress kept w w1" using keeping.progress_call_read [of w "\<lambda>db. svc_groups svc gid"] g by simp
  have "progress kept w1 w2" using keeping.progress_callI [OF safe_assign_tx] c by (metis snd_conv)
  with p1 have p2: "progress kept w w2" by (rule keeping.progress_trans)
  have "progress kept w2 w3" using keeping.progress_rebate [where w = w2 and svc = svc and o' = o'] a by simp
  with p2 have p3: "progress kept w w3" by (rule keeping.progress_trans)
  have "ready o' w3" using stored_progress [OF st p3 True] ty by (simp add: ready_def)
  from keeping.progress_trans [OF p3 progress_mark_ready [OF this]] show ?thesis
    using p1 p2 p3 by (simp add: do_sub_def g c a split: answer.split option.split prod.split bool.split sum.split)
qed (simp add: progress_def)

lemma stored_same: "stored a db \<Longrightarrow> stored b db \<Longrightarrow> po_id a = po_id b \<Longrightarrow> po_order_type a = po_order_type b"
  by (auto simp: stored_def same_terms_def)

lemma progress_execute_sub:
  assumes inv: "orders_settled (pw_db w)" and o': "stored o' (pw_db w)" "po_order_type o' = OrderTypeSubscription"
  shows "progress kept w (snd (execute_subscription_fulfillment svc (po_id o') w))"
proof (cases "safe_env kept w")
  case True
  obtain ans w1 where g: "get_order (po_id o') w = (ans, w1)" by (cases "get_order (po_id o') w")
  have st1: "stored o' (pw_db w1)"
    using keeping.progress_basic(1) [of w "po_id o'"] g by (auto intro: stored_progress [OF o'(1) _ True])
  show ?thesis
  proof (rule progress_read_order [OF inv g])
    fix x assume x: "ans = DbOk (Some x)" "stored x (pw_db w1)" "po_id x = po_id o'"
    then have "po_order_type x \<noteq> OrderTypeBalance" using stored_same [OF st1 x(2)] o'(2) by (auto simp: order_type_defs)
    then have "progress kept w1 (snd (with_lease x (do_sub svc x gid days) w1))" for gid days
      by (intro progress_with_lease_stored [OF x(2)] progress_sub_stored)
    then show "progress kept w1 (snd (execute_subscription_fulfillment svc (po_id o') w))"
      by (simp add: execute_subscription_fulfillment_def g x(1) split: option.split)
  next
    assume "\<forall>x. ans \<noteq> DbOk (Some x)"
    then show "progress kept w1 (snd (execute_subscription_fulfillment svc (po_id o') w))"
      by (auto simp: execute_subscription_fulfillment_def g split: answer.split option.split)
  qed
qed (simp add: progress_def)

lemma progress_update_open:
  "(\<And>x. same_terms x (f x)) \<Longrightarrow> (\<And>x. po_status (f x) \<noteq> OrderStatusCompleted) \<Longrightarrow>
   progress kept w (snd (call (update_order oid p f) w))"
  by (intro keeping.progress_callI) (auto simp: safe_def intro!: kept_update)

lemma progress_reject: "progress kept w (reject_unsupported_order_type o' w)"
  unfolding reject_unsupported_order_type_def Let_def
  by (intro progress_rules progress_update_open) (simp_all add: same_terms_def order_status_defs)

lemma progress_execute:
  assumes inv: "orders_settled (pw_db w)"
  shows "progress kept w (snd (execute_fulfillment svc oid w))"
proof -
  obtain ans w1 where g: "get_order oid w = (ans, w1)" by (cases "get_order oid w")
  show ?thesis
  proof (rule progress_read_order [OF inv g])
    fix o' assume o': "ans = DbOk (Some o')" "stored o' (pw_db w1)" "orders_settled (pw_db w1)" "po_id o' = oid"
    then show "progress kept w1 (snd (execute_fulfillment svc oid w))"
      using progress_execute_sub [OF o'(3,2), of svc] progress_execute_balance [OF o'(3), of svc oid] progress_reject
      by (simp add: execute_fulfillment_def g)
  qed (auto simp: execute_fulfillment_def g split: answer.split option.split)
qed

lemma progress_then_execute:
  assumes "orders_settled (pw_db w)" "progress kept w w1"
  shows "progress kept w (snd (execute_fulfillment svc oid w1))"
proof (cases "safe_env kept w")
  case True
  then have "orders_settled (pw_db w1)" using assms by (simp add: progress_def kept_def)
  from keeping.progress_trans [OF assms(2) progress_execute [OF this]] show ?thesis .
qed (simp add: progress_def)

lemma progress_already:
  assumes inv: "orders_settled (pw_db w)"
  shows "progress kept w (snd (already_processed svc o' w))"
proof -
  obtain ans w1 where g: "get_order (po_id o') w = (ans, w1)" by (cases "get_order (po_id o') w")
  show ?thesis
  proof (rule progress_read_order [OF inv g])
    fix x assume "ans = DbOk (Some x)" "orders_settled (pw_db w1)"
    then show "progress kept w1 (snd (already_processed svc o' w))"
      using progress_execute [of w1] keeping.progress_basic(2) by (simp add: already_processed_def g)
  qed (auto simp: already_processed_def g split: answer.split option.split)
qed

lemma progress_to_paid:
  assumes inv: "orders_settled (pw_db w)"
  shows "progress kept w (snd (to_paid svc o' trade_no paid pk w))"
proof (cases "safe_env kept w")
  case True
  let ?f = "\<lambda>x. x\<lparr>po_status := OrderStatusPaid, po_pay_amount := paid, po_trade_no := trade_no,
    po_paid_at := Some (now_of w), po_failed_at := None, po_failed_reason := None\<rparr>"
  let ?p = "payable (now_of w - paymentGraceMinutes * Minute)"
  obtain ans w1 where c: "call (update_order (po_id o') ?p ?f) w = (ans, w1)"
    by (cases "call (update_order (po_id o') ?p ?f) w")
  have p1: "progress kept w w1"
    using progress_update_open [of ?f w "po_id o'" ?p] c by (simp add: same_terms_def order_status_defs)
  have i1: "orders_settled (pw_db w1)" using p1 inv True by (simp add: progress_def kept_def)
  note audit = keeping.progress_basic(2)
  note logs = progress_then_execute [OF i1 audit] progress_then_execute [OF i1 keeping.progress_trans [OF audit audit]]
  have "progress kept w1 (snd (to_paid svc o' trade_no paid pk w))"
    using c by (simp add: to_paid_def Let_def logs progress_already [OF i1] split: answer.split)
  with p1 show ?thesis by (rule keeping.progress_trans)
qed (simp add: progress_def)

lemma progress_confirm:
  assumes inv: "orders_settled (pw_db w)"
  shows "progress kept w (snd (confirm_payment svc oid trade_no paid pk w))"
proof -
  obtain ans w1 where g: "get_order oid w = (ans, w1)" by (cases "get_order oid w")
  show ?thesis
  proof (rule progress_read_order [OF inv g])
    fix x assume "ans = DbOk (Some x)" "orders_settled (pw_db w1)"
    then show "progress kept w1 (snd (confirm_payment svc oid trade_no paid pk w))"
      using progress_to_paid [of w1] keeping.progress_basic(2)
      by (simp add: confirm_payment_def g Let_def split: f64.split)
  qed (auto simp: confirm_payment_def g split: answer.split option.split)
qed

lemma progress_notification:
  assumes inv: "orders_settled (pw_db w)"
  shows "progress kept w (snd (handle_payment_notification svc n pk w))"
proof (cases "safe_env kept w")
  case True
  obtain ans w1 where c: "call (\<lambda>db. (pd_by_out_trade_no db (pn_order_id n), db)) w = (ans, w1)"
    by (cases "call (\<lambda>db. (pd_by_out_trade_no db (pn_order_id n), db)) w")
  have p: "progress kept w w1"
    using keeping.progress_call_read [of w "\<lambda>db. pd_by_out_trade_no db (pn_order_id n)"] c by simp
  then have "orders_settled (pw_db w1)" using inv True by (simp add: progress_def kept_def)
  from keeping.progress_trans [OF p progress_confirm [OF this]] show ?thesis
    using p by (simp add: handle_payment_notification_def c split: answer.split option.split)
qed (simp add: progress_def)

lemma progress_retry:
  assumes inv: "orders_settled (pw_db w)"
  shows "progress kept w (snd (retry_fulfillment svc oid w))"
proof -
  obtain ans w1 where g: "get_order oid w = (ans, w1)" by (cases "get_order oid w")
  show ?thesis
  proof (rule progress_read_order [OF inv g])
    fix x assume "ans = DbOk (Some x)" "orders_settled (pw_db w1)"
    then show "progress kept w1 (snd (retry_fulfillment svc oid w))"
      using progress_then_execute [OF _ keeping.progress_basic(2)] by (simp add: retry_fulfillment_def g)
  qed (auto simp: retry_fulfillment_def g split: answer.split option.split)
qed

lemma settled_once:
  assumes "pay_inv db" "settled x db" "1 / 10 ^ 8 \<le> po_amount x"
  shows "\<exists>m. code_moves (po_recharge_code x) db = [m] \<and> mv_user m = po_user_id x \<and>
    \<bar>mv_delta m - po_amount x\<bar> \<le> 1 / 10 ^ 8"
proof -
  obtain r where "pd_codes db (po_recharge_code x) = Some r" "pays_for r x" using assms(2) by (auto simp: settled_def)
  moreover have "code_inv db (po_recharge_code x)" using assms(1) by (simp add: pay_inv_def)
  ultimately show ?thesis using assms(3) by (auto simp: code_inv_def pays_for_def split: list.splits)
qed

text \<open>The entry points: a notification of the provider, the administrator's retry, an attempt.\<close>

inductive payment_op :: "pay_service \<Rightarrow> pay_world \<Rightarrow> pay_world \<Rightarrow> bool" for svc where
  notified: "payment_op svc w (snd (handle_payment_notification svc n pk w))"
| retried: "payment_op svc w (snd (retry_fulfillment svc oid w))"
| attempted: "payment_op svc w (snd (execute_fulfillment svc oid w))"

lemma payment_op_progress: "payment_op svc w w' \<Longrightarrow> orders_settled (pw_db w) \<Longrightarrow> progress kept w w'"
  by (induction rule: payment_op.induct) (simp_all add: progress_notification progress_retry progress_execute)

text \<open>C5: a notification, a retry or an attempt on any order, interrupted between its statements by any statements
  that other such operations may make, and failing anywhere, keeps the promise that every completed balance
  order has credited its user by its code exactly once, and itself only makes such statements.\<close>

theorem completed_orders_credited:
  assumes "pay_inv (pw_db w)" "orders_settled (pw_db w)" "safe_env kept w"
    and "payment_op svc w w'"
    and "pd_orders (pw_db w') i = Some x" "po_order_type x = OrderTypeBalance"
      "po_status x = OrderStatusCompleted" "1 / 10 ^ 8 \<le> po_amount x"
  shows "kept (pw_db w) (pw_db w') \<and> (\<exists>m. code_moves (po_recharge_code x) (pw_db w') = [m] \<and>
    mv_user m = po_user_id x \<and> \<bar>mv_delta m - po_amount x\<bar> \<le> 1 / 10 ^ 8)"
proof -
  have k: "kept (pw_db w) (pw_db w')" "pay_inv (pw_db w')" "orders_settled (pw_db w')"
    using payment_op_progress [OF assms(4,2)] assms(1-3) by (auto simp: progress_def kept_def grows_def)
  have "settled x (pw_db w')" using k(3) assms(5-7) by (auto simp: orders_settled_def)
  with k(1) show ?thesis using settled_once [OF k(2) _ assms(8)] by simp
qed

section \<open>A fault-free attempt succeeds\<close>

lemma take_lease_calm:
  assumes "calm w" "pd_orders (pw_db w) (po_id o') = Some x" "lease_free (truncate_micro (now_of w) - paymentFulfillmentLeaseDuration) x"
  shows "\<exists>w' y. acquire_fulfillment_lease (po_id o') w = (Inr (Some (truncate_micro (now_of w))), w') \<and> calm w' \<and>
    pd_orders (pw_db w') (po_id o') = Some y \<and> lease_held (truncate_micro (now_of w)) y"
  using assms
  by (simp add: acquire_fulfillment_lease_def take_lease_def update_order_def get_order_def lease_held_def Let_def)

lemma redeem_calm:
  assumes "calm w" "svc_lock_granted svc c" "pd_codes (pw_db w) c = Some r" "rc_status r = StatusUnused"
    "rc_type r = RedeemTypeBalance" "rc_expires_at r = None" "rc_value r = Fin v" "0 < v" "pd_users (pw_db w) uid \<noteq> None"
  shows "\<exists>w'. redeem_for_payment svc uid c w = (Inr (), w') \<and> calm w' \<and> pd_orders (pw_db w') = pd_orders (pw_db w)"
  using assms
  by (auto simp: redeem_for_payment_def get_code_def code_expired_def redeem_tx_def Let_def update_balance_def
      move_balance_def now_of_def redeem_status_defs)

lemma create_calm:
  assumes "calm w" "pd_codes (pw_db w) (po_recharge_code o') = None" "trim_space (po_recharge_code o') = po_recharge_code o'"
    "po_recharge_code o' \<noteq> []" "0 < po_amount o'"
  shows "create_redeem_code (payment_code o') w = (Inr (), w\<lparr>pw_db := (pw_db w)\<lparr>pd_codes :=
    (pd_codes (pw_db w))(po_recharge_code o' \<mapsto> payment_code o')\<rparr>\<rparr>)"
  using assms
  by (simp add: create_redeem_code_def create_code_def payment_code_def code_expired_def Let_def redeem_status_defs)

definition affiliate_answers :: "pay_service \<Rightarrow> bool" where
  "affiliate_answers svc \<longleftrightarrow> (\<forall>accrue uid base. svc_affiliate svc = Some accrue \<longrightarrow> accrue uid base \<noteq> None)"

lemma rebate_calm:
  assumes "calm w" "affiliate_answers svc"
  shows "\<exists>w'. apply_affiliate_rebate svc o' w = (Inr (), w') \<and> calm w' \<and> pd_orders (pw_db w') = pd_orders (pw_db w)"
proof (cases "svc_affiliate svc")
  case (Some accrue)
  then obtain rebate where "accrue (po_user_id o') (affiliate_rebate_base_amount o') = Some rebate"
    using assms(2) by (auto simp: affiliate_answers_def)
  with Some assms(1) show ?thesis
    by (simp add: apply_affiliate_rebate_def Let_def rebate_tx_def insert_audit_def split: option.splits)
qed (use assms(1) in \<open>simp add: apply_affiliate_rebate_def Let_def\<close>)

lemma complete_calm:
  assumes "calm w" "pd_orders (pw_db w) (po_id o') = Some x" "lease_held version x"
  shows "\<exists>w' y. mark_completed o' (Some version) action w = (Inr (), w') \<and>
    pd_orders (pw_db w') (po_id o') = Some y \<and> po_status y = OrderStatusCompleted"
  using assms
  by (simp add: mark_completed_def complete_stmt_def update_order_def has_audit_log_def write_audit_log_def insert_audit_def Let_def)

lemma finish_calm:
  assumes "calm w" "pd_orders (pw_db w) (po_id o') = Some x" "lease_held version x"
    and aff: "affiliate_answers svc"
  shows "\<exists>w' y. finish_balance svc o' (Some version) w = (Inr (), w') \<and>
    pd_orders (pw_db w') (po_id o') = Some y \<and> po_status y = OrderStatusCompleted"
proof -
  obtain w1 where "apply_affiliate_rebate svc o' w = (Inr (), w1)" "calm w1" "pd_orders (pw_db w1) = pd_orders (pw_db w)"
    using rebate_calm [OF assms(1) aff] by blast
  with complete_calm [OF this(2), of o' x version] assms(2,3) show ?thesis by (simp add: finish_balance_def)
qed

lemma redeem_finish_calm:
  assumes "calm w" "pd_orders (pw_db w) (po_id o') = Some x" "lease_held version x"
    and aff: "affiliate_answers svc"
    and r: "pd_codes (pw_db w) (po_recharge_code o') = Some r" "paid_code o' r" "rc_status r = StatusUnused"
    and o': "0 < po_amount o'" "svc_lock_granted svc (po_recharge_code o')" "pd_users (pw_db w) (po_user_id o') \<noteq> None"
  shows "\<exists>w' y. redeem_then_finish svc o' (Some version) w = (Inr (), w') \<and>
    pd_orders (pw_db w') (po_id o') = Some y \<and> po_status y = OrderStatusCompleted"
proof -
  obtain w1 where "redeem_for_payment svc (po_user_id o') (po_recharge_code o') w = (Inr (), w1)"
      "calm w1" "pd_orders (pw_db w1) = pd_orders (pw_db w)"
    using redeem_calm [OF assms(1) o'(2) r(1,3)] r(2) o' by (auto simp: paid_code_def)
  with finish_calm [OF this(2) _ assms(3) aff, of o'] assms(2) show ?thesis by (simp add: redeem_then_finish_def)
qed

lemma paid_code_valid: "paid_code o' r \<Longrightarrow> validate_payment_redeem_code o' r"
  by (auto simp: paid_code_def validate_payment_redeem_code_def)

lemma balance_calm:
  assumes "calm w" "pd_orders (pw_db w) (po_id o') = Some x" "lease_held version x"
    and aff: "affiliate_answers svc"
    and code: "case pd_codes (pw_db w) (po_recharge_code o') of None \<Rightarrow> True | Some r \<Rightarrow> paid_code o' r"
    and o': "same_order o' o'" "svc_lock_granted svc (po_recharge_code o')" "pd_users (pw_db w) (po_user_id o') \<noteq> None"
  shows "\<exists>w' y. do_balance svc o' (Some version) w = (Inr (), w') \<and>
    pd_orders (pw_db w') (po_id o') = Some y \<and> po_status y = OrderStatusCompleted"
proof (cases "pd_codes (pw_db w) (po_recharge_code o')")
  case None
  let ?w = "w\<lparr>pw_db := (pw_db w)\<lparr>pd_codes := (pd_codes (pw_db w))(po_recharge_code o' \<mapsto> payment_code o')\<rparr>\<rparr>"
  have "create_redeem_code (payment_code o') w = (Inr (), ?w)"
    using None o'(1) by (intro create_calm assms(1)) (simp_all add: same_order_def)
  moreover have "paid_code o' (payment_code o')" "rc_status (payment_code o') = StatusUnused" "0 < po_amount o'"
    using o'(1) by (simp_all add: paid_code_def payment_code_def same_order_def)
  with redeem_finish_calm [of ?w o' x version svc "payment_code o'"] assms
  have "\<exists>w' y. redeem_then_finish svc o' (Some version) ?w = (Inr (), w') \<and>
    pd_orders (pw_db w') (po_id o') = Some y \<and> po_status y = OrderStatusCompleted" by simp
  ultimately show ?thesis
    using None assms(1) by (simp add: do_balance_def get_code_def resolve_redeem_action_def)
next
  case (Some r)
  with code have r: "paid_code o' r" by simp
  have same: "w\<lparr>pw_db := pw_db w\<rparr> = w" by simp
  show ?thesis
  proof (cases "rc_status r = StatusUsed")
    case True
    with Some r finish_calm [OF assms(1-3) aff] assms(1) show ?thesis
      by (simp add: do_balance_def get_code_def resolve_redeem_action_def paid_code_valid)
  next
    case False
    with r have "rc_status r = StatusUnused" by (auto simp: paid_code_def)
    with False Some r redeem_finish_calm [OF assms(1-3) aff Some r] o' assms(1) show ?thesis
      by (simp add: do_balance_def get_code_def resolve_redeem_action_def paid_code_valid same_order_def)
  qed
qed

lemma get_order_alone:
  assumes "get_order oid w = (DbOk x, w1)" "pw_env w = []"
  shows "x = pd_orders (pw_db w) oid \<and> pw_db w1 = pw_db w \<and> pw_env w1 = []"
  using assms by (auto simp: get_order_def call_def interfere_def Let_def split: prod.splits fault.splits)

lemma execute_keeps_being_fulfilled:
  assumes "being_fulfilled o0 (pw_db w)" "pw_env w = []"
  shows "being_fulfilled o0 (pw_db (snd (execute_balance_fulfillment svc (po_id o0) w)))"
proof -
  let ?G = "\<lambda>db db'. being_fulfilled o0 db \<longrightarrow> being_fulfilled o0 db'"
  obtain ans w1 where g: "get_order (po_id o0) w = (ans, w1)" by (cases "get_order (po_id o0) w")
  have p: "progress ?G w w1" using attempts.progress_basic(1) [of o0 w "po_id o0"] g by simp
  have "progress ?G w1 (snd (execute_balance_fulfillment svc (po_id o0) w))"
  proof (cases "\<exists>o'. ans = DbOk (Some o')")
    case True
    then obtain o' where o': "ans = DbOk (Some o')" by blast
    have "same_order o0 o'" using get_order_alone [OF g [unfolded o'] assms(2)] assms(1) by (auto simp: being_fulfilled_def)
    then have "progress ?G w1 (snd (with_lease o' (do_balance svc o') w1))"
      by (intro attempts.progress_with_lease attempts.progress_balance)
    then show ?thesis by (simp add: execute_balance_fulfillment_def g o' split: option.split)
  next
    case False
    then show ?thesis by (auto simp: execute_balance_fulfillment_def g split: answer.split option.split)
  qed
  with p have "progress ?G w (snd (execute_balance_fulfillment svc (po_id o0) w))"
    by (rule attempts.progress_trans)
  then show ?thesis using assms by (simp add: progress_def safe_env_def)
qed

lemma clock_inv [simp]:
  "pay_inv (db\<lparr>pd_clock := t\<rparr>) = pay_inv db" "orders_settled (db\<lparr>pd_clock := t\<rparr>) = orders_settled db"
  "being_fulfilled o0 (db\<lparr>pd_clock := t\<rparr>) = being_fulfilled o0 db"
proof -
  have "code_inv (db\<lparr>pd_clock := t\<rparr>) c = code_inv db c" for c by (rule code_inv_cong) (simp_all add: code_moves_def)
  then show i: "pay_inv (db\<lparr>pd_clock := t\<rparr>) = pay_inv db"
    by (simp add: pay_inv_def rebates_of_def rebate_claimed_def has_audit_def)
  show "orders_settled (db\<lparr>pd_clock := t\<rparr>) = orders_settled db" by (simp add: orders_settled_def settled_def)
  show "being_fulfilled o0 (db\<lparr>pd_clock := t\<rparr>) = being_fulfilled o0 db" by (simp add: being_fulfilled_def i)
qed

lemma execute_keeps_settled:
  assumes "orders_settled (pw_db w)" "pw_env w = []"
  shows "orders_settled (pw_db (snd (execute_balance_fulfillment svc oid w)))"
  using progress_execute_balance [OF assms(1), of svc oid] assms by (simp add: progress_def safe_env_def kept_def)

lemma run_attempts_keeps:
  "being_fulfilled o0 db \<Longrightarrow> orders_settled db \<Longrightarrow>
   being_fulfilled o0 (run_attempts svc (po_id o0) as db) \<and> orders_settled (run_attempts svc (po_id o0) as db)"
  by (induction svc "po_id o0" as db rule: run_attempts.induct)
    (simp_all add: execute_keeps_being_fulfilled execute_keeps_settled)

lemma execute_calm:
  assumes "calm w" "being_fulfilled o0 (pw_db w)" "svc_lock_granted svc (po_recharge_code o0)" "affiliate_answers svc"
    and free: "\<forall>x. pd_orders (pw_db w) (po_id o0) = Some x \<and> po_status x = OrderStatusRecharging \<longrightarrow>
      po_updated_at x \<le> truncate_micro (now_of w) - paymentFulfillmentLeaseDuration"
  shows "\<exists>w' y. execute_balance_fulfillment svc (po_id o0) w = (Inr (), w') \<and>
    pd_orders (pw_db w') (po_id o0) = Some y \<and> po_status y = OrderStatusCompleted"
proof -
  obtain x where x: "pd_orders (pw_db w) (po_id o0) = Some x" "same_order o0 x"
    and st: "po_status x \<in> {OrderStatusPaid, OrderStatusFailed, OrderStatusRecharging, OrderStatusCompleted}"
    and code: "case pd_codes (pw_db w) (po_recharge_code o0) of None \<Rightarrow> True | Some r \<Rightarrow> paid_code o0 r"
    and user: "pd_users (pw_db w) (po_user_id o0) \<noteq> None"
    using assms(2) by (auto simp: being_fulfilled_def)
  have g: "get_order (po_id o0) w = (DbOk (Some x), w)" using assms(1) x(1) by (simp add: get_order_def)
  have eq: "po_id x = po_id o0" "po_order_type x = OrderTypeBalance" "same_order x x" "paid_code x = paid_code o0"
    "po_recharge_code x = po_recharge_code o0" "po_user_id x = po_user_id o0"
    using x(2) by (auto simp: same_order_def paid_code_def fun_eq_iff)
  show ?thesis
  proof (cases "po_status x = OrderStatusCompleted")
    case True
    then show ?thesis using g eq x(1) by (simp add: execute_balance_fulfillment_def fulfillable_def)
  next
    case False
    then have f: "fulfillable x = None" "lease_free (truncate_micro (now_of w) - paymentFulfillmentLeaseDuration) x"
      using st free x(1) by (auto simp: fulfillable_def lease_free_def is_refund_status_def order_status_defs)
    obtain w1 y where l: "acquire_fulfillment_lease (po_id x) w = (Inr (Some (truncate_micro (now_of w))), w1)" "calm w1"
      "pd_orders (pw_db w1) (po_id x) = Some y" "lease_held (truncate_micro (now_of w)) y"
      using take_lease_calm [OF assms(1), of x x] x(1) eq(1) f(2) by auto
    have "pd_codes (pw_db w1) = pd_codes (pw_db w)" "pd_users (pw_db w1) = pd_users (pw_db w)"
      using l(1) assms(1) x(1) eq(1) by (auto simp: acquire_fulfillment_lease_def take_lease_def update_order_def
        get_order_def Let_def split: if_splits)
    then have "case pd_codes (pw_db w1) (po_recharge_code x) of None \<Rightarrow> True | Some r \<Rightarrow> paid_code x r"
      "pd_users (pw_db w1) (po_user_id x) \<noteq> None" "svc_lock_granted svc (po_recharge_code x)"
      using code user eq assms(3) by (simp_all only: not_False_eq_True)
    then obtain w2 z where "do_balance svc x (Some (truncate_micro (now_of w))) w1 = (Inr (), w2)"
      "pd_orders (pw_db w2) (po_id x) = Some z" "po_status z = OrderStatusCompleted"
      using balance_calm [OF l(2-4) assms(4)] eq(3) by blast
    with g eq f(1) l(1) show ?thesis by (simp add: execute_balance_fulfillment_def with_lease_def)
  qed
qed

text \<open>C18: however many attempts on a paid balance order have failed at whatever points, one attempt that meets no
  fault and finds the lease free succeeds, completes the order, and leaves the user credited exactly once,
  with exactly the order's amount.\<close>

theorem retries_credit_once:
  assumes "being_fulfilled o0 db0" "orders_settled db0"
    and svc: "svc_lock_granted svc (po_recharge_code o0)" "affiliate_answers svc"
    and db1: "db1 = run_attempts svc (po_id o0) attempts db0"
    and free: "\<forall>x. pd_orders db1 (po_id o0) = Some x \<and> po_status x = OrderStatusRecharging \<longrightarrow>
      po_updated_at x \<le> truncate_micro t - paymentFulfillmentLeaseDuration"
    and run: "execute_balance_fulfillment svc (po_id o0) \<lparr>pw_db = db1\<lparr>pd_clock := t\<rparr>, pw_env = [], pw_faults = []\<rparr> = (res, w')"
  shows "res = Inr () \<and> (\<exists>x. pd_orders (pw_db w') (po_id o0) = Some x \<and> po_status x = OrderStatusCompleted) \<and>
    (\<exists>m. code_moves (po_recharge_code o0) (pw_db w') = [m] \<and> mv_user m = po_user_id o0 \<and> mv_delta m = po_amount o0)"
proof -
  let ?w = "\<lparr>pw_db = db1\<lparr>pd_clock := t\<rparr>, pw_env = [], pw_faults = []\<rparr>"
  have inv: "being_fulfilled o0 (pw_db ?w)" "orders_settled (pw_db ?w)"
    using run_attempts_keeps [OF assms(1,2), of svc attempts] db1 by simp_all
  have inv': "being_fulfilled o0 (pw_db w')" "orders_settled (pw_db w')"
    using execute_keeps_being_fulfilled [OF inv(1), of svc] execute_keeps_settled [OF inv(2), of svc "po_id o0"] run by simp_all
  obtain y where y: "res = Inr ()" "pd_orders (pw_db w') (po_id o0) = Some y" "po_status y = OrderStatusCompleted"
    using execute_calm [of ?w o0 svc] inv(1) svc free run by (auto simp: calm_def now_of_def)
  have same: "same_order o0 y" using inv'(1) y(2) by (simp add: being_fulfilled_def)
  then have "settled y (pw_db w')" using inv'(2) y by (auto simp: orders_settled_def same_order_def)
  then obtain r where r: "pd_codes (pw_db w') (po_recharge_code o0) = Some r" "rc_status r = StatusUsed"
    using same by (auto simp: settled_def pays_for_def same_order_def)
  then have "paid_code o0 r" "code_inv (pw_db w') (po_recharge_code o0)" "0 < po_amount o0"
    using inv'(1) same by (auto simp: being_fulfilled_def pay_inv_def same_order_def)
  with r y show ?thesis by (auto simp: code_inv_def paid_code_def split: list.splits)
qed

section \<open>Payments that do not match\<close>

definition payment_matches :: "pay_service \<Rightarrow> pay_order \<Rightarrow> f64 \<Rightarrow> string \<Rightarrow> bool" where
  "payment_matches svc x paid pk \<longleftrightarrow>
     (svc_expected_provider svc x = [] \<or> trim_space pk = [] \<or>
      to_lower (svc_expected_provider svc x) = to_lower (trim_space pk)) \<and>
     svc_metadata_ok svc x pk \<and>
     (\<exists>v. paid = Fin v \<and> 0 < v \<and> \<bar>v - po_pay_amount x\<bar> \<le> payment_amount_tolerance_for_currency (po_currency x))"

definition only_audited :: "pay_db \<Rightarrow> pay_db \<Rightarrow> bool" where
  "only_audited db db' \<longleftrightarrow> pd_orders db' = pd_orders db \<and> pd_codes db' = pd_codes db \<and> pd_users db' = pd_users db \<and>
     pd_subs db' = pd_subs db \<and> pd_ledger db' = pd_ledger db \<and> pd_rebates db' = pd_rebates db"

interpretation auditing: worker only_audited
  by unfold_locales (auto simp: only_audited_def insert_audit_def split: if_splits)

text \<open>C28: a confirmation from another provider, with metadata that does not match, or whose amount is not a positive
  number within the currency's tolerance of the order's, leaves orders, codes, balances and subscriptions
  as they are, and is reported as an error unless the order could not be read.\<close>

theorem mismatched_payment_changes_nothing:
  assumes "pw_env w = []" "pd_orders (pw_db w) oid = Some x" "\<not> payment_matches svc x paid pk"
    and "confirm_payment svc oid trade_no paid pk w = (res, w')"
  shows "only_audited (pw_db w) (pw_db w') \<and> (pw_faults w = [] \<longrightarrow> res \<noteq> Inr ())"
proof -
  obtain ans w1 where g: "get_order oid w = (ans, w1)" by (cases "get_order oid w")
  have env: "safe_env only_audited w" using assms(1) by (simp add: safe_env_def)
  have p: "progress only_audited w w1" using auditing.progress_basic(1) [of w oid] g by simp
  have "progress only_audited w w' \<and> (ans \<noteq> DbErr \<longrightarrow> res \<noteq> Inr ())"
  proof (cases "\<exists>o'. ans = DbOk o'")
    case True
    then have "ans = DbOk (Some x)" using get_order_alone [OF _ assms(1)] g assms(2) by auto
    then show ?thesis
      using assms(3,4) g p auditing.progress_trans [OF p auditing.progress_basic(2)]
      by (auto simp: confirm_payment_def payment_matches_def is_valid_provider_amount_def Let_def
          split: if_splits f64.splits)
  next
    case False
    then show ?thesis using assms(4) g p by (cases ans) (auto simp: confirm_payment_def)
  qed
  moreover have "ans \<noteq> DbErr" if "pw_faults w = []"
    using g call_calm [of w] that assms(1) by (auto simp: get_order_def calm_def)
  ultimately show ?thesis using env by (auto simp: progress_def)
qed

section \<open>Concrete runs\<close>

definition demo_order :: pay_order where
  "demo_order = \<lparr>po_id = 1, po_user_id = 7, po_amount = 10, po_pay_amount = 10, po_bonus_amount = 0, po_currency = ''CNY'',
     po_order_type = OrderTypeBalance, po_status = OrderStatusPaid, po_recharge_code = ''P1'', po_sub_group = None,
     po_sub_days = None, po_trade_no = [], po_out_trade_no = ''T1'', po_payment_type = ''alipay'', po_paid_at = Some 1,
     po_completed_at = None, po_failed_at = None, po_failed_reason = None, po_refund_amount = 0,
     po_refund_reason = None, po_refund_at = None, po_force_refund = False, po_refund_request_reason = None,
     po_refund_requested_at = None, po_updated_at = 1, po_expires_at = 0\<rparr>"

definition demo_db :: pay_db where
  "demo_db = \<lparr>pd_orders = [1 \<mapsto> demo_order], pd_by_out_trade_no = [''T1'' \<mapsto> 1], pd_codes = Map.empty,
     pd_users = [7 \<mapsto> \<lparr>us_balance = 3, us_total_recharged = 0\<rparr>], pd_subs = [], pd_next_sub = 1,
     pd_audit = [], pd_ledger = [], pd_rebates = [], pd_clock = 5000\<rparr>"

definition demo_svc :: pay_service where
  "demo_svc = \<lparr>svc_expected_provider = (\<lambda>o'. ''alipay''), svc_metadata_ok = (\<lambda>o' pk. True), svc_groups = Map.empty,
     svc_lock_granted = (\<lambda>c. True), svc_affiliate = Some (\<lambda>uid base. if base < 1 then Some 0 else Some 1)\<rparr>"

text \<open>Another worker tries to redeem the same code between the fifth and the sixth statement.\<close>

definition demo_world :: pay_world where
  "demo_world = \<lparr>pw_db = demo_db, pw_env = [[], [], [], [], [\<lambda>db. snd (redeem_tx 8 ''Q'' db)]], pw_faults = []\<rparr>"

lemma demo_db_ok: "pay_inv demo_db" "orders_settled demo_db" "being_fulfilled demo_order demo_db"
proof -
  show i: "pay_inv demo_db"
    by (simp add: pay_inv_def demo_db_def code_inv_def code_moves_def rebates_of_def)
  have t: "trim_space ''P1'' = ''P1''" by code_simp
  then show "orders_settled demo_db"
    by (auto simp: orders_settled_def demo_db_def demo_order_def order_status_defs split: if_splits)
  show "being_fulfilled demo_order demo_db"
    unfolding being_fulfilled_def using i t
    by (simp add: demo_db_def) (simp add: demo_order_def same_order_def)
qed

lemma demo_world_safe: "safe_env grows demo_world" "safe_env kept demo_world"
proof -
  show "safe_env kept demo_world"
    using keeping.redeem_safe [where o' = "demo_order\<lparr>po_user_id := 8, po_recharge_code := ''Q''\<rparr>"]
    by (simp add: safe_env_def demo_world_def safe_def)
  then show "safe_env grows demo_world" by (rule safe_env_grows)
qed

lemma balance_credited_once_witness:
  "\<exists>m. code_moves ''P1'' (pw_db (snd (do_balance demo_svc demo_order (Some 1) (demo_world\<lparr>pw_db :=
      demo_db\<lparr>pd_orders := [1 \<mapsto> demo_order\<lparr>po_status := OrderStatusRecharging\<rparr>]\<rparr>\<rparr>)))) = [m] \<and>
    mv_user m = 7 \<and> \<bar>mv_delta m - 10\<bar> \<le> 1 / 10 ^ 8"
proof -
  let ?w = "demo_world\<lparr>pw_db := demo_db\<lparr>pd_orders := [1 \<mapsto> demo_order\<lparr>po_status := OrderStatusRecharging\<rparr>]\<rparr>\<rparr>"
  have "pay_inv (pw_db ?w)" by (simp add: pay_inv_def demo_db_def code_inv_def code_moves_def rebates_of_def)
  moreover have "safe_env grows ?w" using demo_world_safe(1) by (simp add: safe_env_def)
  moreover have "fst (do_balance demo_svc demo_order (Some 1) ?w) = Inr ()" by code_simp
  then have "do_balance demo_svc demo_order (Some 1) ?w = (Inr (), snd (do_balance demo_svc demo_order (Some 1) ?w))"
    by (simp add: prod_eq_iff)
  moreover have "trim_space (po_recharge_code demo_order) = po_recharge_code demo_order" "1 / 10 ^ 8 \<le> po_amount demo_order"
    by code_simp+
  ultimately have "\<exists>m. code_moves (po_recharge_code demo_order) (pw_db (snd (do_balance demo_svc demo_order (Some 1) ?w))) = [m] \<and>
      mv_user m = po_user_id demo_order \<and> \<bar>mv_delta m - po_amount demo_order\<bar> \<le> 1 / 10 ^ 8"
    by (rule balance_credited_once)
  then show ?thesis by (simp add: demo_order_def)
qed

definition demo_after :: pay_world where
  "demo_after = snd (execute_fulfillment demo_svc 1 demo_world)"

lemma completed_orders_credited_witness:
  "\<exists>m. code_moves ''P1'' (pw_db demo_after) = [m] \<and> mv_user m = 7 \<and> \<bar>mv_delta m - 10\<bar> \<le> 1 / 10 ^ 8"
proof -
  have "payment_op demo_svc demo_world demo_after" unfolding demo_after_def by (rule attempted)
  moreover have "map_option (\<lambda>x. (po_status x, po_order_type x, po_amount x, po_user_id x, po_recharge_code x))
      (pd_orders (pw_db demo_after) 1) = Some (OrderStatusCompleted, OrderTypeBalance, 10, 7, ''P1'')" by code_simp
  then obtain x where x: "pd_orders (pw_db demo_after) 1 = Some x" "po_order_type x = OrderTypeBalance"
      "po_status x = OrderStatusCompleted" "po_amount x = 10" "po_user_id x = 7" "po_recharge_code x = ''P1''" by auto
  ultimately show ?thesis
    using completed_orders_credited [of demo_world demo_svc demo_after 1 x] demo_db_ok demo_world_safe(2)
    by (simp add: demo_world_def)
qed

text \<open>Two attempts fail, at the redemption and after it; the third succeeds.\<close>

definition demo_attempts :: "(gotime \<times> faults) list" where
  "demo_attempts = [(5000, [Fine, Fine, Fine, Fine, Fine, Fine, Fine, Refused]),
     (10 ^ 6, [Fine, Fine, Fine, Fine, Fine, Fine, AckLost])]"

definition demo_retry :: "unit pay_result \<times> pay_world" where
  "demo_retry = execute_balance_fulfillment demo_svc (po_id demo_order) \<lparr>pw_db =
     (run_attempts demo_svc (po_id demo_order) demo_attempts demo_db)\<lparr>pd_clock := 10 ^ 12\<rparr>, pw_env = [], pw_faults = []\<rparr>"

lemma retries_credit_once_witness:
  "fst demo_retry = Inr () \<and> (\<exists>m. code_moves ''P1'' (pw_db (snd demo_retry)) = [m] \<and> mv_user m = 7 \<and> mv_delta m = 10)"
proof -
  let ?db = "run_attempts demo_svc (po_id demo_order) demo_attempts demo_db"
  have "list_all (\<lambda>x. po_updated_at x \<le> truncate_micro (10 ^ 12) - paymentFulfillmentLeaseDuration)
      (case pd_orders ?db (po_id demo_order) of None \<Rightarrow> [] | Some x \<Rightarrow> [x])" by code_simp
  then have "\<forall>x. pd_orders ?db (po_id demo_order) = Some x \<and> po_status x = OrderStatusRecharging \<longrightarrow>
      po_updated_at x \<le> truncate_micro (10 ^ 12) - paymentFulfillmentLeaseDuration" by auto
  moreover have "svc_lock_granted demo_svc (po_recharge_code demo_order)" by (simp add: demo_svc_def)
  moreover have "affiliate_answers demo_svc" by (simp only: demo_svc_def affiliate_answers_def) simp
  moreover have "execute_balance_fulfillment demo_svc (po_id demo_order) \<lparr>pw_db = ?db\<lparr>pd_clock := 10 ^ 12\<rparr>,
      pw_env = [], pw_faults = []\<rparr> = (fst demo_retry, snd demo_retry)" by (simp add: demo_retry_def)
  note facts = calculation this
  have "fst demo_retry = Inr () \<and> (\<exists>x. pd_orders (pw_db (snd demo_retry)) (po_id demo_order) = Some x \<and>
      po_status x = OrderStatusCompleted) \<and> (\<exists>m. code_moves (po_recharge_code demo_order) (pw_db (snd demo_retry)) = [m] \<and>
      mv_user m = po_user_id demo_order \<and> mv_delta m = po_amount demo_order)"
    by (rule retries_credit_once [OF demo_db_ok(3,2) _ _ refl]) (use facts in simp_all)
  then show ?thesis by (simp add: demo_order_def)
qed

lemma mismatched_payment_changes_nothing_witness:
  "only_audited demo_db (pw_db (snd (confirm_payment demo_svc 1 ''X'' (Fin 9) ''alipay''
     \<lparr>pw_db = demo_db, pw_env = [], pw_faults = []\<rparr>)))"
proof -
  let ?w = "\<lparr>pw_db = demo_db, pw_env = [], pw_faults = []\<rparr>"
  have t: "payment_amount_tolerance_for_currency ''CNY'' < 1" by code_simp
  have "\<not> payment_matches demo_svc demo_order (Fin 9) ''alipay''"
    using t by (auto simp: payment_matches_def demo_order_def)
  from mismatched_payment_changes_nothing [OF _ _ this prod.collapse [symmetric], of ?w 1 "''X''"]
  show ?thesis by (simp add: demo_db_def)
qed

end
