(* ===== verification/Refund_Money.thy ===== *)
theory Refund_Money
  imports Payment_Refund Fulfillment_Credit
begin

text \<open>
  What refunds do to the balance of a user. The operations on one balance order, run one at a time
  without database failures but with any answers of the gateway and any spending in between, keep an
  account of what has been taken back for the order; and the places where the code loses it.
\<close>

section \<open>The account of an order\<close>

definition refund_net :: "int \<Rightarrow> pay_db \<Rightarrow> rat" where
  "refund_net oid db = sum_list (map mv_delta (filter (\<lambda>m. mv_cause m = ByRefund oid) (pd_ledger db)))"

definition pending_entry :: "int \<Rightarrow> pay_db \<Rightarrow> audit_entry option" where
  "pending_entry oid db = find (\<lambda>a. au_order a = oid \<and> au_action a = ''REFUND_PENDING'') (rev (pd_audit db))"

definition held_account :: "int \<Rightarrow> pay_order \<Rightarrow> pay_db \<Rightarrow> bool" where
  "held_account oid x db \<longleftrightarrow> (\<exists>a d. pending_entry oid db = Some a \<and> au_detail a = PendingDetail d \<and> rd_held d \<and>
     rd_deduction_type d \<in> {DeductionTypeBalance, DeductionTypeNone} \<and>
     0 \<le> rd_balance_deducted d \<and> rd_balance_deducted d \<le> po_refund_amount x \<and>
     (rd_deduction_type d = DeductionTypeNone \<longrightarrow> rd_balance_deducted d = 0) \<and>
     refund_net oid db = - rd_balance_deducted d)"

definition order_account :: "int \<Rightarrow> pay_order \<Rightarrow> pay_db \<Rightarrow> bool" where
  "order_account oid x db \<longleftrightarrow>
     (refundable x \<longrightarrow> refund_net oid db = 0) \<and>
     (po_status x = OrderStatusRefundPending \<longrightarrow> held_account oid x db) \<and>
     (po_status x \<in> {OrderStatusRefunded, OrderStatusPartiallyRefunded} \<longrightarrow>
        - po_refund_amount x \<le> refund_net oid db \<and> refund_net oid db \<le> 0) \<and>
     (po_status x = OrderStatusRefunding \<longrightarrow> refund_net oid db \<le> 0)"

definition refund_order :: "int \<Rightarrow> pay_order \<Rightarrow> pay_db \<Rightarrow> bool" where
  "refund_order oid x db \<longleftrightarrow> pd_orders db oid = Some x \<and> po_id x = oid \<and> po_order_type x = OrderTypeBalance \<and>
     0 < po_amount x \<and> pd_users db (po_user_id x) \<noteq> None \<and> \<not> has_audit oid ''REFUND_ROLLBACK_FAILED'' db"

definition refund_inv :: "int \<Rightarrow> pay_db \<Rightarrow> bool" where
  "refund_inv oid db \<longleftrightarrow> (\<exists>x. refund_order oid x db \<and> order_account oid x db)"

text \<open>A plan that \<open>ExecuteRefund\<close> has taken the deduction of.\<close>

definition plan_fits :: "int \<Rightarrow> pay_order \<Rightarrow> refund_plan \<Rightarrow> bool" where
  "plan_fits oid x p \<longleftrightarrow> rp_order_id p = oid \<and> po_id (rp_order p) = oid \<and> po_user_id (rp_order p) = po_user_id x \<and>
     rp_deduction_type p \<in> {DeductionTypeBalance, DeductionTypeNone} \<and> 0 \<le> rp_balance p \<and>
     rp_balance p \<le> rp_refund_amount p \<and> (rp_deduction_type p = DeductionTypeNone \<longrightarrow> rp_balance p = 0) \<and> \<not> rp_held p"

definition taken :: "int \<Rightarrow> pay_order \<Rightarrow> refund_plan \<Rightarrow> pay_db \<Rightarrow> bool" where
  "taken oid x p db \<longleftrightarrow> refund_order oid x db \<and> po_status x = OrderStatusRefunding \<and> plan_fits oid x p \<and>
     refund_net oid db = - rp_balance p"

lemma type_neq [simp]: "DeductionTypeBalance \<noteq> DeductionTypeSubscription" "DeductionTypeNone \<noteq> DeductionTypeSubscription"
  "DeductionTypeNone \<noteq> DeductionTypeBalance" "DeductionTypeBalance \<noteq> DeductionTypeNone"
  "OrderTypeBalance \<noteq> OrderTypeSubscription"
  by (simp_all add: order_type_defs)

lemma net_move [simp]:
  "refund_net oid (move_balance uid d c u db) = refund_net oid db + (if c = ByRefund oid then d else 0)"
  by (simp add: refund_net_def move_balance_def)

lemma move_fields [simp]:
  "pd_orders (move_balance uid d c u db) = pd_orders db" "pd_audit (move_balance uid d c u db) = pd_audit db"
  "pd_users (move_balance uid d c u db) v \<noteq> None \<longleftrightarrow> v = uid \<or> pd_users db v \<noteq> None"
  by (simp_all add: move_balance_def)

section \<open>Statements and the account\<close>

definition audited :: "int \<Rightarrow> string \<Rightarrow> string \<Rightarrow> pay_db \<Rightarrow> pay_db" where
  "audited oid action op db = (case insert_audit oid action op PlainDetail db of None \<Rightarrow> db | Some db' \<Rightarrow> db')"

lemma write_audit_calm [simp]:
  "calm w \<Longrightarrow> write_audit_log oid action op w = w\<lparr>pw_db := audited oid action op (pw_db w)\<rparr>"
  by (simp add: write_audit_log_def audited_def)

lemma audited_fields [simp]:
  "pd_orders (audited oid action op db) = pd_orders db" "pd_users (audited oid action op db) = pd_users db"
  "pd_ledger (audited oid action op db) = pd_ledger db" "refund_net i (audited oid action op db) = refund_net i db"
  by (simp_all add: audited_def insert_audit_def refund_net_def split: option.split)

lemma audited_other [simp]:
  "action \<noteq> a \<Longrightarrow> has_audit i a (audited oid action op db) = has_audit i a db"
  "action \<noteq> ''REFUND_PENDING'' \<Longrightarrow> pending_entry i (audited oid action op db) = pending_entry i db"
  by (auto simp: audited_def insert_audit_def has_audit_def pending_entry_def split: option.split)

lemma audited_inv [simp]:
  assumes "action \<noteq> ''REFUND_PENDING''" "action \<noteq> ''REFUND_ROLLBACK_FAILED''"
  shows "refund_order oid x (audited i action op db) = refund_order oid x db"
    "order_account oid x (audited i action op db) = order_account oid x db"
    "refund_inv oid (audited i action op db) = refund_inv oid db"
    "taken oid x p (audited i action op db) = taken oid x p db"
proof -
  show o': "refund_order oid x (audited i action op db) = refund_order oid x db" for x
    using assms by (simp add: refund_order_def)
  show a: "order_account oid x (audited i action op db) = order_account oid x db" for x
    using assms by (simp add: order_account_def held_account_def)
  show "refund_inv oid (audited i action op db) = refund_inv oid db" by (simp add: refund_inv_def o' a)
  show "taken oid x p (audited i action op db) = taken oid x p db" by (simp add: taken_def o')
qed

text \<open>Setting the fields of the order.\<close>

lemma update_order_hit:
  assumes "pd_orders db oid = Some x" "q x"
  shows "update_order oid q f db = (1, db\<lparr>pd_orders := (pd_orders db)(oid \<mapsto> f (x\<lparr>po_updated_at := pd_clock db\<rparr>))\<rparr>)"
  using assms by (simp add: update_order_def)

lemma order_set:
  assumes "refund_order oid x db" "po_id y = po_id x" "po_order_type y = po_order_type x" "po_amount y = po_amount x"
    "po_user_id y = po_user_id x"
  shows "refund_order oid y (db\<lparr>pd_orders := (pd_orders db)(oid \<mapsto> y)\<rparr>)"
    "refund_net i (db\<lparr>pd_orders := (pd_orders db)(oid \<mapsto> y)\<rparr>) = refund_net i db"
    "pending_entry i (db\<lparr>pd_orders := (pd_orders db)(oid \<mapsto> y)\<rparr>) = pending_entry i db"
  using assms by (simp_all add: refund_order_def has_audit_def refund_net_def pending_entry_def)

section \<open>The operations keep the account\<close>

lemma account_refunded:
  assumes "po_status y \<in> {OrderStatusRefunded, OrderStatusPartiallyRefunded}" "- po_refund_amount y \<le> refund_net oid db" "refund_net oid db \<le> 0"
  shows "order_account oid y db"
  using assms by (auto simp: order_account_def refundable_def order_status_defs)

lemma account_refundable:
  assumes "refundable y" "refund_net oid db = 0"
  shows "order_account oid y db"
  using assms by (auto simp: order_account_def refundable_def order_status_defs)

lemma account_refunding:
  assumes "po_status y = OrderStatusRefunding" "refund_net oid db \<le> 0"
  shows "order_account oid y db"
  using assms by (auto simp: order_account_def refundable_def order_status_defs)

lemma account_pending:
  assumes "po_status y = OrderStatusRefundPending" "held_account oid y db"
  shows "order_account oid y db"
  using assms by (auto simp: order_account_def refundable_def order_status_defs)

lemma taken_inv: "taken oid x p db \<Longrightarrow> refund_inv oid db"
  by (auto simp: refund_inv_def taken_def plan_fits_def intro!: exI [of _ x] account_refunding)

lemma mark_ok_inv:
  assumes "calm w" "taken oid x p (pw_db w)"
  shows "refund_inv oid (pw_db (snd (mark_refund_ok p w)))"
proof -
  let ?f = "set_refunded p (now_of w)"
  have x: "pd_orders (pw_db w) oid = Some x" "rp_order_id p = oid" using assms(2) by (auto simp: taken_def refund_order_def plan_fits_def)
  let ?y = "?f (x\<lparr>po_updated_at := pd_clock (pw_db w)\<rparr>)" and ?db = "pw_db w"
  let ?db' = "?db\<lparr>pd_orders := (pd_orders ?db)(oid \<mapsto> ?y)\<rparr>"
  have o: "refund_order oid x ?db" using assms(2) by (simp add: taken_def)
  have "refund_order oid ?y ?db'" "refund_net oid ?db' = - rp_balance p"
    using order_set [OF o, of ?y] assms(2) by (simp_all add: set_refunded_def taken_def)
  moreover have "order_account oid ?y ?db'"
    using calculation(2) assms(2) by (intro account_refunded) (auto simp: set_refunded_def taken_def plan_fits_def)
  ultimately have "refund_inv oid ?db'" by (auto simp: refund_inv_def)
  then show ?thesis
    using assms(1) x by (simp add: mark_refund_ok_def update_one_def update_order_hit Let_def)
qed

lemma insert_audit_has: "insert_audit oid a op d db = None \<longleftrightarrow> has_audit oid a db"
  by (simp add: insert_audit_def)

lemma mark_pending_inv:
  assumes "calm w" "taken oid x p (pw_db w)"
  shows "refund_inv oid (pw_db (snd (mark_refund_pending p resp w)))"
proof -
  let ?db = "pw_db w"
  have x: "pd_orders ?db oid = Some x" "rp_order_id p = oid" using assms(2) by (auto simp: taken_def refund_order_def plan_fits_def)
  let ?y = "set_refund_pending p (x\<lparr>po_updated_at := pd_clock ?db\<rparr>)"
  let ?db' = "?db\<lparr>pd_orders := (pd_orders ?db)(oid \<mapsto> ?y)\<rparr>"
  have o: "refund_order oid x ?db" using assms(2) by (simp add: taken_def)
  have y: "refund_order oid ?y ?db'" "refund_net oid ?db' = - rp_balance p"
    using order_set [OF o, of ?y] assms(2) by (simp_all add: set_refund_pending_def taken_def)
  show ?thesis
  proof (cases "insert_audit oid ''REFUND_PENDING'' ''admin'' (PendingDetail (pending_detail p resp (pd_clock ?db))) ?db'")
    case None
    then show ?thesis
      using assms(1) x taken_inv [OF assms(2)]
      by (simp add: mark_refund_pending_def mark_pending_tx_def update_one_def update_order_hit)
  next
    case (Some db2)
    then have db2: "db2 = ?db'\<lparr>pd_audit := pd_audit ?db @ [\<lparr>au_order = oid, au_action = ''REFUND_PENDING'', au_operator = ''admin'',
        au_detail = PendingDetail (pending_detail p resp (pd_clock ?db)), au_created_at = pd_clock ?db\<rparr>]\<rparr>"
      by (simp add: insert_audit_def split: if_splits)
    have "refund_order oid ?y db2" using y(1) by (simp add: db2 refund_order_def has_audit_def)
    moreover have "held_account oid ?y db2"
      using y(2) assms(2)
      by (auto simp: held_account_def db2 pending_entry_def pending_detail_def taken_def plan_fits_def set_refund_pending_def refund_net_def)
    then have "order_account oid ?y db2" by (intro account_pending) (simp add: set_refund_pending_def)
    ultimately have "refund_inv oid db2" by (auto simp: refund_inv_def)
    then show ?thesis
      using assms(1) x Some by (simp add: mark_refund_pending_def mark_pending_tx_def update_one_def update_order_hit)
  qed
qed

text \<open>Balance and recharged total of a user.\<close>

definition balance_of :: "int \<Rightarrow> pay_db \<Rightarrow> rat" where
  "balance_of uid db = (case pd_users db uid of None \<Rightarrow> 0 | Some u \<Rightarrow> us_balance u)"

definition recharged_of :: "int \<Rightarrow> pay_db \<Rightarrow> rat" where
  "recharged_of uid db = (case pd_users db uid of None \<Rightarrow> 0 | Some u \<Rightarrow> us_total_recharged u)"

lemma user_fields [simp]:
  "balance_of uid (db\<lparr>pd_orders := os\<rparr>) = balance_of uid db" "recharged_of uid (db\<lparr>pd_orders := os\<rparr>) = recharged_of uid db"
  "balance_of uid (audited i a op db) = balance_of uid db" "recharged_of uid (audited i a op db) = recharged_of uid db"
  by (simp_all add: balance_of_def recharged_of_def)

lemma credit_user_ok:
  assumes "pd_users db uid \<noteq> None" "0 < amount"
  shows "\<exists>db'. credit_user uid amount (ByRefund oid) db = (True, db') \<and> pd_orders db' = pd_orders db \<and>
    pd_audit db' = pd_audit db \<and> (\<forall>v. pd_users db' v \<noteq> None \<longleftrightarrow> pd_users db v \<noteq> None) \<and>
    refund_net oid db' = refund_net oid db + amount \<and>
    balance_of uid db' = balance_of uid db + amount \<and> recharged_of uid db' = recharged_of uid db + amount"
proof -
  obtain u where u: "pd_users db uid = Some u" using assms(1) by auto
  let ?db' = "move_balance uid amount (ByRefund oid) (u\<lparr>us_total_recharged := us_total_recharged u + amount\<rparr>) db"
  have "credit_user uid amount (ByRefund oid) db = (True, ?db')"
    using u assms(2) by (simp add: credit_user_def update_balance_def)
  moreover have "balance_of uid ?db' = balance_of uid db + amount" "recharged_of uid ?db' = recharged_of uid db + amount"
    by (simp_all add: balance_of_def recharged_of_def u move_balance_def)
  moreover have "pd_users ?db' v \<noteq> None \<longleftrightarrow> pd_users db v \<noteq> None" for v
    by (simp add: move_balance_def u)
  ultimately show ?thesis by simp
qed

lemma rollback_calm:
  assumes "calm w" "taken oid x p (pw_db w)"
  shows "\<exists>w1. rollback_refund p w = (True, w1) \<and> calm w1 \<and> pd_orders (pw_db w1) = pd_orders (pw_db w) \<and>
    refund_order oid x (pw_db w1) \<and> refund_net oid (pw_db w1) = 0 \<and>
    balance_of (po_user_id x) (pw_db w1) = balance_of (po_user_id x) (pw_db w) + rp_balance p \<and>
    recharged_of (po_user_id x) (pw_db w1) = recharged_of (po_user_id x) (pw_db w) + rp_balance p"
proof (cases "rp_deduction_type p = DeductionTypeBalance \<and> rp_balance p > 0")
  case True
  have t: "pd_users (pw_db w) (po_user_id x) \<noteq> None" "rp_order_id p = oid" "po_user_id (rp_order p) = po_user_id x"
    using assms(2) by (simp_all add: taken_def plan_fits_def refund_order_def)
  obtain db' where db': "credit_user (po_user_id x) (rp_balance p) (ByRefund oid) (pw_db w) = (True, db')"
      "pd_orders db' = pd_orders (pw_db w)" "pd_audit db' = pd_audit (pw_db w)"
      "\<forall>v. pd_users db' v \<noteq> None \<longleftrightarrow> pd_users (pw_db w) v \<noteq> None"
      "refund_net oid db' = refund_net oid (pw_db w) + rp_balance p"
      "balance_of (po_user_id x) db' = balance_of (po_user_id x) (pw_db w) + rp_balance p"
      "recharged_of (po_user_id x) db' = recharged_of (po_user_id x) (pw_db w) + rp_balance p"
    using credit_user_ok [OF t(1), of "rp_balance p" oid] True by blast
  have "refund_order oid x db'" using assms(2) db' by (simp add: taken_def refund_order_def has_audit_def)
  with True t db' assms show ?thesis by (simp add: rollback_refund_def taken_def)
next
  case False
  have "rp_deduction_type p \<noteq> DeductionTypeSubscription" "rp_balance p = 0"
    using False assms(2) by (auto simp: taken_def plan_fits_def)
  with False assms show ?thesis by (simp add: rollback_refund_def taken_def)
qed

lemma gw_fail_inv:
  assumes "calm w" "taken oid x p (pw_db w)"
  shows "\<exists>r w'. handle_gw_fail p w = (Inr r, w') \<and> \<not> rf_success r \<and> refund_inv oid (pw_db w') \<and>
    map_option po_status (pd_orders (pw_db w') oid) = Some (restored_status p) \<and>
    balance_of (po_user_id x) (pw_db w') = balance_of (po_user_id x) (pw_db w) + rp_balance p \<and>
    recharged_of (po_user_id x) (pw_db w') = recharged_of (po_user_id x) (pw_db w) + rp_balance p"
proof -
  obtain w1 where w1: "rollback_refund p w = (True, w1)" "calm w1" "refund_order oid x (pw_db w1)"
    "refund_net oid (pw_db w1) = 0"
    "balance_of (po_user_id x) (pw_db w1) = balance_of (po_user_id x) (pw_db w) + rp_balance p"
    "recharged_of (po_user_id x) (pw_db w1) = recharged_of (po_user_id x) (pw_db w) + rp_balance p"
    using rollback_calm [OF assms] by blast
  let ?db = "pw_db w1"
  let ?y = "(x\<lparr>po_updated_at := pd_clock ?db\<rparr>)\<lparr>po_status := restored_status p\<rparr>"
  let ?db' = "?db\<lparr>pd_orders := (pd_orders ?db)(oid \<mapsto> ?y)\<rparr>"
  have oid: "rp_order_id p = oid" "pd_orders ?db oid = Some x" using assms(2) w1(3) by (simp_all add: taken_def plan_fits_def refund_order_def)
  have "refund_order oid ?y ?db'" "refund_net oid ?db' = 0" using order_set [OF w1(3), of ?y] w1(4) by simp_all
  moreover from this(2) have "order_account oid ?y ?db'"
    by (intro account_refundable) (simp_all add: refundable_def restored_status_def)
  ultimately have "refund_inv oid ?db'" by (auto simp: refund_inv_def)
  then show ?thesis
    using w1(1,2,5,6) oid by (simp add: handle_gw_fail_def restore_status_def update_one_def update_order_hit warning_result_def)
qed

lemma deduct_ok:
  assumes "pd_users db uid \<noteq> None" "0 \<le> amount"
  shows "\<exists>d db'. deduct_available_balance uid amount (ByRefund oid) db = (Some d, db') \<and> pd_orders db' = pd_orders db \<and>
    pd_audit db' = pd_audit db \<and> (\<forall>v. pd_users db' v \<noteq> None \<longleftrightarrow> pd_users db v \<noteq> None) \<and>
    refund_net oid db' = refund_net oid db - d \<and> d = min amount (max (balance_of uid db) 0) \<and>
    balance_of uid db' = balance_of uid db - d \<and> recharged_of uid db' = recharged_of uid db"
proof -
  obtain u where u: "pd_users db uid = Some u" using assms(1) by auto
  let ?d = "min amount (max (us_balance u) 0)"
  let ?db' = "move_balance uid (- ?d) (ByRefund oid) u db"
  have "deduct_available_balance uid amount (ByRefund oid) db = (Some ?d, ?db')"
    using u assms(2) by (simp add: deduct_available_balance_def Let_def)
  moreover have "balance_of uid ?db' = balance_of uid db - ?d" "recharged_of uid ?db' = recharged_of uid db"
    "?d = min amount (max (balance_of uid db) 0)"
    by (simp_all add: balance_of_def recharged_of_def u move_balance_def)
  moreover have "pd_users ?db' v \<noteq> None \<longleftrightarrow> pd_users db v \<noteq> None" for v by (simp add: move_balance_def u)
  ultimately show ?thesis by simp
qed

text \<open>The lock on the order and the deduction: the plan is taken.\<close>

definition lock_stmt :: "refund_plan \<Rightarrow> pay_db \<Rightarrow> int \<times> pay_db" where
  "lock_stmt p = update_order (rp_order_id p) refundable (\<lambda>x. x\<lparr>po_status := OrderStatusRefunding\<rparr>)"

lemma lock_calm:
  assumes "calm w" "refund_order oid x (pw_db w)" "order_account oid x (pw_db w)" "refundable x" "plan_fits oid x p"
  shows "\<exists>x1 w1. call (lock_stmt p) w = (DbOk 1, w1) \<and> calm w1 \<and> refund_order oid x1 (pw_db w1) \<and>
    po_status x1 = OrderStatusRefunding \<and> plan_fits oid x1 p \<and> po_user_id x1 = po_user_id x \<and> refund_net oid (pw_db w1) = 0 \<and>
    balance_of (po_user_id x) (pw_db w1) = balance_of (po_user_id x) (pw_db w) \<and>
    recharged_of (po_user_id x) (pw_db w1) = recharged_of (po_user_id x) (pw_db w)"
proof -
  let ?y = "x\<lparr>po_updated_at := pd_clock (pw_db w), po_status := OrderStatusRefunding\<rparr>"
  let ?db' = "(pw_db w)\<lparr>pd_orders := (pd_orders (pw_db w))(oid \<mapsto> ?y)\<rparr>"
  have oid: "rp_order_id p = oid" "pd_orders (pw_db w) oid = Some x" using assms(2,5) by (simp_all add: plan_fits_def refund_order_def)
  have "call (lock_stmt p) w = (DbOk 1, w\<lparr>pw_db := ?db'\<rparr>)"
    using assms(1,4) oid by (simp add: lock_stmt_def update_order_hit)
  moreover have "refund_order oid ?y ?db'" "refund_net oid ?db' = refund_net oid (pw_db w)"
    using order_set [OF assms(2), of ?y] by simp_all
  moreover have "refund_net oid (pw_db w) = 0" using assms(3,4) by (simp add: order_account_def)
  moreover have "plan_fits oid ?y p" using assms(5) by (simp add: plan_fits_def)
  ultimately show ?thesis
    using assms(1) by (intro exI [of _ ?y] exI [of _ "w\<lparr>pw_db := ?db'\<rparr>"]) simp
qed

lemma deduct_calm:
  assumes "calm w" "refund_order oid x (pw_db w)" "po_status x = OrderStatusRefunding" "plan_fits oid x p" "refund_net oid (pw_db w) = 0"
  shows "\<exists>d w1. deduct_balance_step p w = (Inr (p\<lparr>rp_balance := d\<rparr>), w1) \<and> calm w1 \<and> taken oid x (p\<lparr>rp_balance := d\<rparr>) (pw_db w1) \<and>
    d = min (rp_balance p) (max (balance_of (po_user_id x) (pw_db w)) 0) \<and>
    balance_of (po_user_id x) (pw_db w1) = balance_of (po_user_id x) (pw_db w) - d \<and>
    recharged_of (po_user_id x) (pw_db w1) = recharged_of (po_user_id x) (pw_db w)"
proof (cases "rp_deduction_type p = DeductionTypeBalance \<and> rp_balance p > 0")
  case True
  have t: "pd_users (pw_db w) (po_user_id x) \<noteq> None" "rp_order_id p = oid" "po_user_id (rp_order p) = po_user_id x"
    "\<not> has_audit oid ''REFUND_ROLLBACK_FAILED'' (pw_db w)"
    using assms(2,4) by (simp_all add: plan_fits_def refund_order_def)
  obtain d db' where d: "deduct_available_balance (po_user_id x) (rp_balance p) (ByRefund oid) (pw_db w) = (Some d, db')"
      "pd_orders db' = pd_orders (pw_db w)" "pd_audit db' = pd_audit (pw_db w)"
      "\<forall>v. pd_users db' v \<noteq> None \<longleftrightarrow> pd_users (pw_db w) v \<noteq> None"
      "refund_net oid db' = refund_net oid (pw_db w) - d" "d = min (rp_balance p) (max (balance_of (po_user_id x) (pw_db w)) 0)"
      "balance_of (po_user_id x) db' = balance_of (po_user_id x) (pw_db w) - d"
      "recharged_of (po_user_id x) db' = recharged_of (po_user_id x) (pw_db w)"
    using deduct_ok [OF t(1), of "rp_balance p" oid] True by fastforce
  have "0 \<le> d" "d \<le> rp_balance p" using d(6) True by auto
  with d assms(2-5) have "taken oid x (p\<lparr>rp_balance := d\<rparr>) db'"
    by (auto simp: taken_def refund_order_def plan_fits_def has_audit_def)
  with True t d assms(1) show ?thesis by (simp add: deduct_balance_step_def has_audit_log_def)
next
  case False
  then have "rp_balance p = 0" using assms(4) by (auto simp: plan_fits_def)
  moreover from this have "p\<lparr>rp_balance := 0\<rparr> = p" by (cases p) simp
  ultimately show ?thesis
    using False assms by (intro exI [of _ 0] exI [of _ w]) (simp add: deduct_balance_step_def taken_def plan_fits_def)
qed

lemma trim_statuses: "trim_space ProviderStatusSuccess = ProviderStatusSuccess" "trim_space ProviderStatusPending = ProviderStatusPending"
  by code_simp+

lemma gw_calm:
  assumes "calm w" "gw_refund svc gw p w = (r, w1)"
  shows "calm w1 \<and> (taken oid x q (pw_db w) \<longrightarrow> taken oid x q (pw_db w1)) \<and> balance_of uid (pw_db w1) = balance_of uid (pw_db w) \<and>
    recharged_of uid (pw_db w1) = recharged_of uid (pw_db w) \<and> (\<forall>resp. r = Some resp \<longrightarrow> valid_refund_response (Some resp))"
  using assms
  by (auto simp: gw_refund_def valid_refund_response_def trim_statuses split: if_splits option.splits)

definition status_of :: "int \<Rightarrow> pay_db \<Rightarrow> string option" where
  "status_of oid db = map_option po_status (pd_orders db oid)"

text \<open>How a taken plan ends: refunded, pending, rolled back, or stuck where a second pending entry is refused.\<close>

definition ended ::
  "int \<Rightarrow> refund_plan \<Rightarrow> pay_db \<Rightarrow> refund_error + refund_result \<Rightarrow> pay_db \<Rightarrow> int \<Rightarrow> bool" where
  "ended oid p db res db' uid \<longleftrightarrow>
     (case res of
        Inr r \<Rightarrow>
          rf_success r \<and> status_of oid db' \<in> {Some OrderStatusRefunded, Some OrderStatusPartiallyRefunded} \<and>
            rf_balance_deducted r = rp_balance p \<and> balance_of uid db' = balance_of uid db \<and> recharged_of uid db' = recharged_of uid db
        \<or> \<not> rf_success r \<and> status_of oid db' = Some OrderStatusRefundPending \<and>
            balance_of uid db' = balance_of uid db \<and> recharged_of uid db' = recharged_of uid db
        \<or> \<not> rf_success r \<and> status_of oid db' = Some (restored_status p) \<and>
            balance_of uid db' = balance_of uid db + rp_balance p \<and> recharged_of uid db' = recharged_of uid db + rp_balance p
      | Inl e \<Rightarrow> e = RefundDb \<and> status_of oid db' = Some OrderStatusRefunding \<and> balance_of uid db' = balance_of uid db \<and>
            recharged_of uid db' = recharged_of uid db \<and> has_audit oid ''REFUND_PENDING'' db \<and>
            refund_net oid db' = - rp_balance p)"

lemma status_of_set [simp]: "status_of oid (db\<lparr>pd_orders := (pd_orders db)(oid \<mapsto> y)\<rparr>) = Some (po_status y)"
  "status_of oid (audited i a op db) = status_of oid db"
  by (simp_all add: status_of_def)

lemma mark_ok_ended:
  assumes "calm w" "taken oid x p (pw_db w)"
  shows "ended oid p (pw_db w) (fst (mark_refund_ok p w)) (pw_db (snd (mark_refund_ok p w))) uid"
  using assms
  by (auto simp: ended_def mark_refund_ok_def update_one_def update_order_hit Let_def taken_def plan_fits_def refund_order_def
      success_result_def set_refunded_def)

lemma mark_pending_ended:
  assumes "calm w" "taken oid x p (pw_db w)"
  shows "ended oid p (pw_db w) (fst (mark_refund_pending p resp w)) (pw_db (snd (mark_refund_pending p resp w))) uid"
proof -
  let ?db = "pw_db w"
  let ?y = "set_refund_pending p (x\<lparr>po_updated_at := pd_clock ?db\<rparr>)"
  let ?db' = "?db\<lparr>pd_orders := (pd_orders ?db)(oid \<mapsto> ?y)\<rparr>"
  have x: "pd_orders ?db oid = Some x" "rp_order_id p = oid" "po_status x = OrderStatusRefunding"
    using assms(2) by (auto simp: taken_def refund_order_def plan_fits_def)
  have has: "has_audit oid ''REFUND_PENDING'' ?db' = has_audit oid ''REFUND_PENDING'' ?db" by (simp add: has_audit_def)
  show ?thesis
    using assms(1) x has
    by (auto simp: ended_def mark_refund_pending_def mark_pending_tx_def update_one_def update_order_hit insert_audit_def
        status_of_def set_refund_pending_def warning_result_def balance_of_def recharged_of_def)
      (use assms(2) in \<open>auto simp: taken_def\<close>)
qed

lemma finish_taken:
  assumes "calm w" "taken oid x p (pw_db w)" "r = None \<or> valid_refund_response r"
    and "(case r of None \<Rightarrow> handle_gw_fail p w | Some resp \<Rightarrow> finish_refund p resp w) = (res, w')"
  shows "refund_inv oid (pw_db w') \<and> ended oid p (pw_db w) res (pw_db w') (po_user_id x)"
proof -
  obtain r1 w1 where f: "handle_gw_fail p w = (Inr r1, w1)" "\<not> rf_success r1" "refund_inv oid (pw_db w1)"
    "map_option po_status (pd_orders (pw_db w1) oid) = Some (restored_status p)"
    "balance_of (po_user_id x) (pw_db w1) = balance_of (po_user_id x) (pw_db w) + rp_balance p"
    "recharged_of (po_user_id x) (pw_db w1) = recharged_of (po_user_id x) (pw_db w) + rp_balance p"
    using gw_fail_inv [OF assms(1,2)] by blast
  then have fail: "refund_inv oid (pw_db w1) \<and> ended oid p (pw_db w) (Inr r1) (pw_db w1) (po_user_id x)"
    by (auto simp: ended_def status_of_def)
  show ?thesis
  proof (cases r)
    case None
    then show ?thesis using fail f(1) assms(4) by simp
  next
    case (Some resp)
    then have v: "valid_refund_response (Some resp)" using assms(3) by simp
    show ?thesis
      using assms(4) Some v fail f(1)
        mark_ok_inv [OF assms(1,2)] mark_ok_ended [OF assms(1,2), of "po_user_id x"]
        mark_pending_inv [OF assms(1,2), of resp] mark_pending_ended [OF assms(1,2), of resp "po_user_id x"]
      by (auto simp: finish_refund_def split: if_splits)
  qed
qed

text \<open>The gateway is reached and answers that the refund is pending.\<close>

definition answers_pending :: "refund_service \<Rightarrow> gateway_answer \<Rightarrow> pay_order \<Rightarrow> bool" where
  "answers_pending svc gw x \<longleftrightarrow> po_trade_no x \<noteq> [] \<and> refund_provider svc x \<and> rs_metadata_ok svc x \<and>
     (\<exists>resp. ga_response gw = Some resp \<and> trim_space (rr_status resp) = ProviderStatusPending)"

lemma pending_refused:
  assumes "calm w" "answers_pending svc gw (rp_order p)" "gw_refund svc gw p w = (r, w1)"
    "has_audit (rp_order_id p) ''REFUND_PENDING'' (pw_db w1)" "pd_orders (pw_db w1) (rp_order_id p) \<noteq> None"
  shows "fst (case r of None \<Rightarrow> handle_gw_fail p w1 | Some resp \<Rightarrow> finish_refund p resp w1) = Inl RefundDb"
proof -
  obtain resp where resp: "ga_response gw = Some resp" "trim_space (rr_status resp) = ProviderStatusPending"
    using assms(2) by (auto simp: answers_pending_def)
  have r: "r = Some resp" "w1 = w"
    using assms(2,3) resp by (auto simp: gw_refund_def answers_pending_def valid_refund_response_def split: if_splits)
  obtain y where "pd_orders (pw_db w) (rp_order_id p) = Some y" using assms(5) r(2) by auto
  then show ?thesis
    using assms(1,4) r resp
    by (simp add: finish_refund_def valid_refund_response_def mark_refund_pending_def mark_pending_tx_def update_one_def
        update_order_hit insert_audit_def has_audit_def provider_status_defs)
qed

lemma execute_taken:
  assumes "calm w" "refund_order oid x (pw_db w)" "order_account oid x (pw_db w)" "refundable x" "plan_fits oid x p"
    and "execute_refund svc gw p w = (res, w')"
  shows "\<exists>d db1. d = min (rp_balance p) (max (balance_of (po_user_id x) (pw_db w)) 0) \<and>
    balance_of (po_user_id x) db1 = balance_of (po_user_id x) (pw_db w) - d \<and>
    recharged_of (po_user_id x) db1 = recharged_of (po_user_id x) (pw_db w) \<and>
    (has_audit oid ''REFUND_PENDING'' db1 \<longleftrightarrow> has_audit oid ''REFUND_PENDING'' (pw_db w)) \<and>
    refund_inv oid (pw_db w') \<and> ended oid (p\<lparr>rp_balance := d\<rparr>) db1 res (pw_db w') (po_user_id x) \<and>
    (answers_pending svc gw (rp_order p) \<and> has_audit oid ''REFUND_PENDING'' (pw_db w) \<longrightarrow> res = Inl RefundDb)"
proof -
  obtain x1 w1 where l: "call (lock_stmt p) w = (DbOk 1, w1)" "calm w1" "refund_order oid x1 (pw_db w1)"
      "po_status x1 = OrderStatusRefunding" "plan_fits oid x1 p" "po_user_id x1 = po_user_id x" "refund_net oid (pw_db w1) = 0"
      "balance_of (po_user_id x) (pw_db w1) = balance_of (po_user_id x) (pw_db w)"
      "recharged_of (po_user_id x) (pw_db w1) = recharged_of (po_user_id x) (pw_db w)"
    using lock_calm [OF assms(1-5)] by blast
  obtain d w2 where dd: "deduct_balance_step p w1 = (Inr (p\<lparr>rp_balance := d\<rparr>), w2)" "calm w2"
      "taken oid x1 (p\<lparr>rp_balance := d\<rparr>) (pw_db w2)" "d = min (rp_balance p) (max (balance_of (po_user_id x1) (pw_db w1)) 0)"
      "balance_of (po_user_id x1) (pw_db w2) = balance_of (po_user_id x1) (pw_db w1) - d"
      "recharged_of (po_user_id x1) (pw_db w2) = recharged_of (po_user_id x1) (pw_db w1)"
    using deduct_calm [OF l(2-5,7)] by blast
  let ?p = "p\<lparr>rp_balance := d\<rparr>"
  obtain r w3 where g: "gw_refund svc gw ?p w2 = (r, w3)" by (cases "gw_refund svc gw ?p w2")
  note gc = gw_calm [OF dd(2) g, of oid x1 ?p "po_user_id x"]
  have "rp_deduction_type ?p \<noteq> DeductionTypeSubscription" using l(5) by (auto simp: plan_fits_def)
  then have days: "deduct_days_step ?p w2 = (Inr ?p, w2)" by (simp add: deduct_days_step_def)
  have run: "(case r of None \<Rightarrow> handle_gw_fail ?p w3 | Some resp \<Rightarrow> finish_refund ?p resp w3) = (res, w')"
    using assms(6) l(1) dd(1) days g by (simp add: execute_refund_def lock_stmt_def [symmetric] split: option.splits)
  have valid: "r = None \<or> valid_refund_response r" using gc by (cases r) auto
  have fin: "refund_inv oid (pw_db w') \<and> ended oid ?p (pw_db w3) res (pw_db w') (po_user_id x)"
    using finish_taken [OF _ _ valid run, of oid x1] gc dd(3) l(6) by simp
  have "pd_audit (pw_db w1) = pd_audit (pw_db w)"
    using l(1) assms(1) by (auto simp: lock_stmt_def update_order_def split: option.splits if_splits)
  moreover have "pd_audit (pw_db w2) = pd_audit (pw_db w1)"
    using dd(1) l(2)
    by (auto simp: deduct_balance_step_def has_audit_log_def deduct_available_balance_def Let_def split: if_splits option.splits)
  moreover have "has_audit oid ''REFUND_PENDING'' (pw_db w3) = has_audit oid ''REFUND_PENDING'' (pw_db w2)"
    using g dd(2) by (auto simp: gw_refund_def split: if_splits)
  ultimately have has: "has_audit oid ''REFUND_PENDING'' (pw_db w3) = has_audit oid ''REFUND_PENDING'' (pw_db w)"
    by (simp add: has_audit_def)
  have "rp_order_id ?p = oid" "pd_orders (pw_db w3) oid \<noteq> None"
    using gc dd(3) by (auto simp: taken_def plan_fits_def refund_order_def)
  with pending_refused [OF dd(2) _ g] run has
  have "answers_pending svc gw (rp_order p) \<and> has_audit oid ''REFUND_PENDING'' (pw_db w) \<longrightarrow> res = Inl RefundDb" by simp
  then show ?thesis using has fin dd(4-6) l(6,8,9) gc by (intro exI [of _ d] exI [of _ "pw_db w3"]) simp
qed

lemma calm_same [simp]: "w\<lparr>pw_db := pw_db w\<rparr> = w"
  by simp

lemma prepare_calm:
  assumes "calm w" "refund_order oid x (pw_db w)" "prepare_refund svc oid amt reason force deduct w = (Inr (Inr p), w1)"
  shows "w1 = w \<and> refundable x \<and> plan_fits oid x p \<and> rp_order p = x \<and> 0 < rp_refund_amount p \<and>
    rp_refund_amount p \<le> po_amount x + payment_amount_tolerance_for_currency (po_currency x)"
proof -
  obtain u where u: "pd_users (pw_db w) (po_user_id x) = Some u" and x: "pd_orders (pw_db w) oid = Some x" "po_id x = oid"
      "po_order_type x = OrderTypeBalance" "0 < po_amount x"
    using assms(2) by (auto simp: refund_order_def)
  obtain a where a: "amt = Fin a"
    using assms(1,3) x by (auto simp: prepare_refund_def get_order_def split: if_splits answer.splits option.splits f64.splits)
  define amount where "amount = (if a \<le> 0 then po_amount x else a)"
  have pos: "0 < amount" using x(4) by (simp add: amount_def)
  show ?thesis
    using assms(1,3) x u pos
    by (auto simp: prepare_refund_def get_order_def a amount_def [symmetric] Let_def prep_deduct_def get_user_def plan_fits_def
        refundable_def split: if_splits answer.splits option.splits)
qed


text \<open>a plan that \<open>PrepareRefund\<close> lets through is for a refundable order, refunds a positive amount of at most the
  order's (within the tolerance), asks the gateway for at most what was paid, and deducts nothing from a user
  without balance and never more than is refunded.\<close>

theorem prepared_plan_bounded:
  assumes "calm w" "refund_order oid x (pw_db w)" "prepare_refund svc oid amt reason force deduct w = (Inr (Inr p), w1)"
  shows "refundable x \<and> 0 < rp_refund_amount p \<and>
    rp_refund_amount p \<le> po_amount x + payment_amount_tolerance_for_currency (po_currency x) \<and>
    0 \<le> rp_balance p \<and> rp_balance p \<le> rp_refund_amount p \<and> rp_balance p \<le> max 0 (balance_of (po_user_id x) (pw_db w)) \<and>
    (\<not> force \<and> deduct \<longrightarrow> rp_balance p = rp_refund_amount p)"
proof -
  obtain u where u: "pd_users (pw_db w) (po_user_id x) = Some u" and x: "pd_orders (pw_db w) oid = Some x"
      "po_order_type x = OrderTypeBalance"
    using assms(2) by (auto simp: refund_order_def)
  have "rp_balance p \<le> max 0 (balance_of (po_user_id x) (pw_db w)) \<and> (\<not> force \<and> deduct \<longrightarrow> rp_balance p = max 0 (rp_refund_amount p))"
    using assms(1,3) x u
    by (auto simp: prepare_refund_def get_order_def Let_def prep_deduct_def get_user_def balance_of_def
        split: if_splits answer.splits option.splits f64.splits)
  with prepare_calm [OF assms] show ?thesis by (auto simp: plan_fits_def)
qed

section \<open>Settling a pending refund\<close>

definition pending_plan :: "int \<Rightarrow> pay_order \<Rightarrow> refund_plan \<Rightarrow> pay_db \<Rightarrow> bool" where
  "pending_plan oid x p db \<longleftrightarrow> refund_order oid x db \<and> po_status x = OrderStatusRefundPending \<and>
     rp_order_id p = oid \<and> rp_order p = x \<and> rp_held p \<and> rp_deduction_type p \<in> {DeductionTypeBalance, DeductionTypeNone} \<and>
     (rp_deduction_type p = DeductionTypeNone \<longrightarrow> rp_balance p = 0) \<and>
     0 \<le> rp_balance p \<and> rp_balance p \<le> rp_refund_amount p \<and> refund_net oid db = - rp_balance p \<and> refund_inv oid db"

lemma plain_audit_inv:
  assumes "insert_audit oid a op PlainDetail db = Some db'" "a \<noteq> ''REFUND_PENDING''" "a \<noteq> ''REFUND_ROLLBACK_FAILED''"
  shows "refund_inv i db' = refund_inv i db" "status_of i db' = status_of i db" "balance_of v db' = balance_of v db"
proof -
  have "db' = audited oid a op db" using assms(1) by (simp add: audited_def)
  then show "refund_inv i db' = refund_inv i db" "status_of i db' = status_of i db" "balance_of v db' = balance_of v db"
    using assms(2,3) by simp_all
qed

lemma success_tx_inv:
  assumes "pending_plan oid x p db" "finalize_success_tx p db = (res, db')"
  shows "refund_inv oid db' \<and> balance_of v db' = balance_of v db \<and>
    (\<forall>r. res = Inr r \<longrightarrow> rf_success r \<and> rf_balance_deducted r = rp_balance p \<and>
       status_of oid db' \<in> {Some OrderStatusRefunded, Some OrderStatusPartiallyRefunded})"
proof -
  have x: "pd_orders db oid = Some x" "po_status x = OrderStatusRefundPending" "rp_order_id p = oid" "rp_held p" "refund_order oid x db"
    using assms(1) by (simp_all add: pending_plan_def refund_order_def)
  let ?y = "set_refunded p (pd_clock db) (x\<lparr>po_updated_at := pd_clock db, po_status := OrderStatusRefunding\<rparr>)"
  let ?db2 = "db\<lparr>pd_orders := (pd_orders db)(oid \<mapsto> ?y)\<rparr>"
  have y: "refund_order oid ?y ?db2" "refund_net oid ?db2 = - rp_balance p"
    using order_set [OF x(5), of ?y] assms(1) by (simp_all add: set_refunded_def pending_plan_def)
  have "order_account oid ?y ?db2"
    using y(2) assms(1) by (intro account_refunded) (auto simp: set_refunded_def pending_plan_def)
  with y have i2: "refund_inv oid ?db2" by (auto simp: refund_inv_def)
  have run: "finalize_success_tx p db = (case insert_audit oid ''REFUND_SUCCESS'' ''admin'' PlainDetail ?db2 of
      None \<Rightarrow> (Inl RefundDb, db) | Some db3 \<Rightarrow> (Inr (success_result p), db3))"
    using x by (simp add: finalize_success_tx_def update_order_hit apply_final_deduction_def update_one_def set_refunded_def fun_upd_twist)
  show ?thesis
  proof (cases "insert_audit oid ''REFUND_SUCCESS'' ''admin'' PlainDetail ?db2")
    case None
    then show ?thesis using run assms by (simp add: pending_plan_def)
  next
    case (Some db3)
    then show ?thesis
      using run assms(2) plain_audit_inv [OF Some] i2 by (auto simp: success_result_def set_refunded_def)
  qed
qed

lemma failed_tx_inv:
  assumes "pending_plan oid x p db" "finalize_failed_tx p False db = (out, db')"
  shows "refund_inv oid db' \<and> (out = FailedMarked \<and> status_of oid db' = Some OrderStatusRefundFailed \<and>
      balance_of (po_user_id x) db' = balance_of (po_user_id x) db + rp_balance p \<or> out = FailedTxError RefundDb \<and> db' = db)"
proof -
  have x: "pd_orders db oid = Some x" "po_status x = OrderStatusRefundPending" "rp_order_id p = oid" "rp_held p" "refund_order oid x db"
      "rp_order p = x" "pd_users db (po_user_id x) \<noteq> None"
    using assms(1) by (simp_all add: pending_plan_def refund_order_def)
  let ?y = "x\<lparr>po_updated_at := pd_clock db, po_status := OrderStatusRefundFailed, po_failed_at := Some (pd_clock db),
    po_failed_reason := Some ''gateway failed''\<rparr>"
  let ?db1 = "db\<lparr>pd_orders := (pd_orders db)(oid \<mapsto> ?y)\<rparr>"
  have y: "refund_order oid ?y ?db1" "refund_net oid ?db1 = - rp_balance p"
    using order_set [OF x(5), of ?y] assms(1) by (simp_all add: pending_plan_def)
  have "\<exists>db2. return_held_deduction p ?db1 = (True, db2) \<and> refund_order oid ?y db2 \<and> refund_net oid db2 = 0 \<and>
      status_of oid db2 = Some OrderStatusRefundFailed \<and> balance_of (po_user_id x) db2 = balance_of (po_user_id x) db + rp_balance p"
  proof (cases "rp_deduction_type p = DeductionTypeBalance \<and> rp_balance p > 0")
    case True
    have "pd_users ?db1 (po_user_id x) \<noteq> None" using x(7) by simp
    from credit_user_ok [OF this conjunct2 [OF True], of oid] obtain db2 where db2:
        "credit_user (po_user_id x) (rp_balance p) (ByRefund oid) ?db1 = (True, db2)"
        "pd_orders db2 = pd_orders ?db1" "pd_audit db2 = pd_audit ?db1" "\<forall>v. pd_users db2 v \<noteq> None \<longleftrightarrow> pd_users ?db1 v \<noteq> None"
        "refund_net oid db2 = refund_net oid ?db1 + rp_balance p"
        "balance_of (po_user_id x) db2 = balance_of (po_user_id x) ?db1 + rp_balance p" by blast
    have "refund_order oid ?y db2" using y(1) db2 by (simp add: refund_order_def has_audit_def)
    then show ?thesis
      using True x db2 y(2) by (simp add: return_held_deduction_def status_of_def)
  next
    case False
    then have "rp_balance p = 0" "rp_deduction_type p \<noteq> DeductionTypeSubscription" using assms(1) by (auto simp: pending_plan_def)
    with False y show ?thesis by (auto simp: return_held_deduction_def)
  qed
  then obtain db2 where db2: "return_held_deduction p ?db1 = (True, db2)" "refund_order oid ?y db2" "refund_net oid db2 = 0"
      "status_of oid db2 = Some OrderStatusRefundFailed" "balance_of (po_user_id x) db2 = balance_of (po_user_id x) db + rp_balance p"
    by blast
  have "order_account oid ?y db2" using db2(3) by (intro account_refundable) (simp_all add: refundable_def)
  with db2(2) have i2: "refund_inv oid db2" by (auto simp: refund_inv_def)
  have run: "finalize_failed_tx p False db = (case insert_audit oid ''REFUND_FAILED'' ''admin'' PlainDetail db2 of
      None \<Rightarrow> (FailedTxError RefundDb, db) | Some db4 \<Rightarrow> (FailedMarked, db4))"
    using x(1-4) db2(1) by (simp add: finalize_failed_tx_def update_order_hit)
  show ?thesis
  proof (cases "insert_audit oid ''REFUND_FAILED'' ''admin'' PlainDetail db2")
    case None
    then show ?thesis using run assms by (simp add: pending_plan_def)
  next
    case (Some db4)
    then show ?thesis using run assms(2) plain_audit_inv [OF Some] i2 db2 by auto
  qed
qed

lemma query_inv:
  assumes "calm w" "refund_inv oid (pw_db w)"
  shows "refund_inv oid (pw_db (snd (query_and_finalize_refund svc gw oid w)))"
proof -
  obtain x where x: "refund_order oid x (pw_db w)" "order_account oid x (pw_db w)" using assms(2) by (auto simp: refund_inv_def)
  then have g: "get_order oid w = (DbOk (Some x), w)" using assms(1) by (simp add: get_order_def refund_order_def)
  show ?thesis
  proof (cases "po_status x = OrderStatusRefundPending \<and> refund_provider svc x \<and> rs_can_query svc x \<and> \<not> ga_error gw")
    case True
    then obtain a d where d: "pending_entry oid (pw_db w) = Some a" "au_detail a = PendingDetail d" "rd_held d"
        "rd_deduction_type d \<in> {DeductionTypeBalance, DeductionTypeNone}" "0 \<le> rd_balance_deducted d"
        "rd_balance_deducted d \<le> po_refund_amount x" "rd_deduction_type d = DeductionTypeNone \<longrightarrow> rd_balance_deducted d = 0"
        "refund_net oid (pw_db w) = - rd_balance_deducted d"
      using x(2) by (auto simp: order_account_def held_account_def)
    let ?d = "d\<lparr>rd_refund_id := trim_space (rd_refund_id d), rd_requested_at := au_created_at a\<rparr>"
    let ?p = "apply_pending_detail ?d (refund_finalize_plan x)"
    have l: "latest_refund_pending_detail oid w = (Inr ?d, w)"
      using assms(1) d(1,2) by (simp add: latest_refund_pending_detail_def pending_entry_def)
    have p: "pending_plan oid x ?p (pw_db w)"
      using x(1) True d assms(2)
      by (auto simp: pending_plan_def apply_pending_detail_def refund_finalize_plan_def Let_def refund_order_def order_type_defs)
    obtain r1 db1 where s: "finalize_success_tx ?p (pw_db w) = (r1, db1)" by (cases "finalize_success_tx ?p (pw_db w)")
    obtain r2 db2 where f: "finalize_failed_tx ?p False (pw_db w) = (r2, db2)" by (cases "finalize_failed_tx ?p False (pw_db w)")
    have fail: "refund_inv oid (pw_db (snd (finalize_refund_failed ?p w)))"
      using failed_tx_inv [OF p f] assms(1) f by (auto simp: finalize_refund_failed_def)
    have ok: "refund_inv oid (pw_db (snd (finalize_pending_refund_success ?p w)))"
      using success_tx_inv [OF p s] assms(1) s by (simp add: finalize_pending_refund_success_def)
    show ?thesis
      using True g l d(3) fail ok assms(1,2)
      by (simp add: query_and_finalize_refund_def finalize_plan_for_def Let_def split: option.split)
  next
    case False
    have "pw_db (snd (latest_refund_pending_detail oid w)) = pw_db w"
      using assms(1) by (simp add: latest_refund_pending_detail_def split: option.split audit_detail.split)
    then show ?thesis
      using False g assms(2) by (auto simp: query_and_finalize_refund_def split: sum.split prod.split)
  qed
qed

lemma request_inv:
  assumes "calm w" "refund_inv oid (pw_db w)"
  shows "refund_inv oid (pw_db (snd (request_refund svc oid uid reason w)))"
proof -
  obtain x where x: "refund_order oid x (pw_db w)" "order_account oid x (pw_db w)" using assms(2) by (auto simp: refund_inv_def)
  then have g: "get_order oid w = (DbOk (Some x), w)" and o': "pd_orders (pw_db w) oid = Some x"
    using assms(1) by (simp_all add: get_order_def refund_order_def)
  obtain u where u: "pd_users (pw_db w) (po_user_id x) = Some u" using x(1) by (auto simp: refund_order_def)
  show ?thesis
  proof (cases "po_status x = OrderStatusCompleted")
    case True
    let ?y = "x\<lparr>po_updated_at := pd_clock (pw_db w), po_status := OrderStatusRefundRequested, po_refund_requested_at := Some (now_of w),
      po_refund_request_reason := Some (trim_space reason), po_refund_amount := po_amount x\<rparr>"
    let ?db' = "(pw_db w)\<lparr>pd_orders := (pd_orders (pw_db w))(oid \<mapsto> ?y)\<rparr>"
    have "refund_order oid ?y ?db'" "refund_net oid ?db' = refund_net oid (pw_db w)" using order_set [OF x(1), of ?y] by simp_all
    moreover have "refund_net oid (pw_db w) = 0" using x(2) True by (simp add: order_account_def refundable_def)
    ultimately have "refund_inv oid ?db'"
      by (auto simp: refund_inv_def refundable_def intro!: exI [of _ ?y] account_refundable)
    then show ?thesis
      using assms g o' u
      by (auto simp: request_refund_def validate_refund_request_def get_user_def update_order_def now_of_def
          split: answer.split option.split)
  next
    case False
    then show ?thesis
      using g assms(2) by (auto simp: request_refund_def validate_refund_request_def)
  qed
qed

text \<open>One operation on the order after another, and anything the users earn or spend in between.\<close>

definition alone :: "pay_db \<Rightarrow> pay_world" where
  "alone db = \<lparr>pw_db = db, pw_env = [], pw_faults = []\<rparr>"

inductive refund_step :: "refund_service \<Rightarrow> int \<Rightarrow> pay_db \<Rightarrow> pay_db \<Rightarrow> bool" for svc oid where
  requested: "refund_step svc oid db (pw_db (snd (request_refund svc oid uid reason (alone db))))"
| executed: "prepare_refund svc oid amt reason force deduct (alone db) = (Inr (Inr p), w) \<Longrightarrow>
    refund_step svc oid db (pw_db (snd (execute_refund svc gw p w)))"
| settled: "refund_step svc oid db (pw_db (snd (query_and_finalize_refund svc gw oid (alone db))))"
| spent: "(\<And>v. us v \<noteq> None \<longleftrightarrow> pd_users db v \<noteq> None) \<Longrightarrow> refund_step svc oid db (db\<lparr>pd_users := us, pd_clock := t\<rparr>)"

inductive refund_run :: "refund_service \<Rightarrow> int \<Rightarrow> pay_db \<Rightarrow> pay_db \<Rightarrow> bool" for svc oid db0 where
  start: "refund_run svc oid db0 db0"
| more: "refund_run svc oid db0 db \<Longrightarrow> refund_step svc oid db db' \<Longrightarrow> refund_run svc oid db0 db'"

lemma alone_simps [simp]: "calm (alone db)" "pw_db (alone db) = db"
  by (simp_all add: alone_def calm_def)

lemma refund_step_inv: "refund_step svc oid db db' \<Longrightarrow> refund_inv oid db \<Longrightarrow> refund_inv oid db'"
proof (induction rule: refund_step.induct)
  case (requested db uid reason)
  then show ?case by (simp add: request_inv)
next
  case (executed amt reason force deduct db p w gw)
  then obtain x where x: "refund_order oid x (pw_db (alone db))" "order_account oid x (pw_db (alone db))"
    by (auto simp: refund_inv_def)
  from prepare_calm [OF alone_simps(1) x(1) executed(1)] have "w = alone db" "refundable x" "plan_fits oid x p" by simp_all
  with execute_taken [OF alone_simps(1) x this(2,3) prod.collapse [symmetric], of svc gw] show ?case by auto
next
  case (settled db gw)
  then show ?case by (simp add: query_inv)
next
  case (spent us db t)
  then obtain x where "refund_order oid x db" "order_account oid x db" by (auto simp: refund_inv_def)
  then have "refund_order oid x (db\<lparr>pd_users := us, pd_clock := t\<rparr>)" "order_account oid x (db\<lparr>pd_users := us, pd_clock := t\<rparr>)"
    using spent(1) by (simp_all add: refund_order_def has_audit_def order_account_def held_account_def refund_net_def pending_entry_def)
  then show ?case by (auto simp: refund_inv_def)
qed

text \<open>C6: whatever sequence of refund requests, refunds, settlements and spending a completed balance order sees, and
  whatever the gateway answers, the money stays accounted for: nothing is withheld for an order that can be
  refunded, a pending order withholds what its audit entry says, and a refunded order at most what was refunded.\<close>

theorem refund_money_accounted:
  assumes "refund_inv oid db0" "refund_run svc oid db0 db"
  shows "\<exists>x. pd_orders db oid = Some x \<and>
    (refundable x \<longrightarrow> refund_net oid db = 0) \<and>
    (po_status x = OrderStatusRefundPending \<longrightarrow> (\<exists>a d. pending_entry oid db = Some a \<and> au_detail a = PendingDetail d \<and>
       refund_net oid db = - rd_balance_deducted d)) \<and>
    (po_status x \<in> {OrderStatusRefunded, OrderStatusPartiallyRefunded} \<longrightarrow>
       - po_refund_amount x \<le> refund_net oid db \<and> refund_net oid db \<le> 0)"
proof -
  have "refund_inv oid db" using assms(2,1) by (induction rule: refund_run.induct) (simp_all add: refund_step_inv)
  then show ?thesis by (auto simp: refund_inv_def refund_order_def order_account_def held_account_def)
qed

section \<open>Where the code loses track\<close>

lemma refunding_step:
  assumes "refund_step svc oid db db'" "status_of oid db = Some OrderStatusRefunding"
  shows "status_of oid db' = Some OrderStatusRefunding \<and> refund_net oid db' = refund_net oid db"
proof -
  obtain x where x: "pd_orders db oid = Some x" "po_status x = OrderStatusRefunding" using assms(2) by (auto simp: status_of_def)
  have g: "get_order oid (alone db) = (DbOk (Some x), alone db)" using x(1) by (simp add: get_order_def)
  show ?thesis
    using assms(1)
  proof cases
    case (requested uid reason)
    then show ?thesis using g x(2) assms(2) by (auto simp: request_refund_def validate_refund_request_def order_status_defs)
  next
    case (executed amt reason force deduct p w gw)
    then show ?thesis using g x(2) by (simp add: prepare_refund_def refundable_def order_status_defs)
  next
    case (settled gw)
    then show ?thesis using g x(2) assms(2) by (auto simp: query_and_finalize_refund_def order_status_defs)
  next
    case (spent us t)
    then show ?thesis using assms(2) by (simp add: status_of_def refund_net_def)
  qed
qed

text \<open>an order that was pending before - and failed, and is refunded again - is lost when the gateway answers
  pending a second time: its audit entry is refused, the order stays in REFUNDING with the balance
  deducted, and no request, refund or settlement ever changes that.\<close>

theorem second_pending_stuck:
  assumes "refund_inv oid db" "pd_orders db oid = Some x" "has_audit oid ''REFUND_PENDING'' db"
    and "prepare_refund svc oid amt reason force deduct (alone db) = (Inr (Inr p), w)" "answers_pending svc gw x"
    and "execute_refund svc gw p w = (res, w')" "refund_run svc oid (pw_db w') db'"
  shows "res = Inl RefundDb \<and> status_of oid db' = Some OrderStatusRefunding \<and>
    refund_net oid db' = - min (rp_balance p) (max (balance_of (po_user_id x) db) 0)"
proof -
  have x: "refund_order oid x (pw_db (alone db))" "order_account oid x (pw_db (alone db))"
    using assms(1,2) by (auto simp: refund_inv_def refund_order_def)
  have p: "w = alone db" "refundable x" "plan_fits oid x p" "rp_order p = x"
    using prepare_calm [OF alone_simps(1) x(1) assms(4)] by simp_all
  have e: "res = Inl RefundDb \<and> status_of oid (pw_db w') = Some OrderStatusRefunding \<and>
      refund_net oid (pw_db w') = - min (rp_balance p) (max (balance_of (po_user_id x) db) 0)"
    using execute_taken [OF alone_simps(1) x p(2,3) assms(6) [unfolded p(1)]] assms(3,5) p(4) by (auto simp: ended_def)
  from assms(7) e show ?thesis
    by (induction rule: refund_run.induct) (auto dest: refunding_step)
qed

text \<open>a refund that the gateway refuses gives the balance back, but as money the user has paid in: the total that
  counts as recharged grows by the amount each time.\<close>

theorem failed_refund_counts_as_recharge:
  assumes "refund_inv oid db" "pd_orders db oid = Some x"
    and "prepare_refund svc oid amt reason force deduct (alone db) = (Inr (Inr p), w)"
    and "execute_refund svc gw p w = (Inr r, w')" "status_of oid (pw_db w') = Some (restored_status p)"
  shows "balance_of (po_user_id x) (pw_db w') = balance_of (po_user_id x) db \<and>
    recharged_of (po_user_id x) (pw_db w') = recharged_of (po_user_id x) db + min (rp_balance p) (max (balance_of (po_user_id x) db) 0)"
proof -
  have x: "refund_order oid x (pw_db (alone db))" "order_account oid x (pw_db (alone db))"
    using assms(1,2) by (auto simp: refund_inv_def refund_order_def)
  have p: "w = alone db" "refundable x" "plan_fits oid x p"
    using prepare_calm [OF alone_simps(1) x(1) assms(3)] by simp_all
  show ?thesis
    using execute_taken [OF alone_simps(1) x p(2,3) assms(4) [unfolded p(1)]] assms(5)
    by (auto simp: ended_def restored_status_def order_status_defs split: if_splits)
qed

section \<open>Concrete runs\<close>

definition paid_db :: pay_db where
  "paid_db = demo_db\<lparr>pd_orders := [1 \<mapsto> demo_order\<lparr>po_status := OrderStatusCompleted, po_trade_no := ''X1''\<rparr>],
     pd_users := [7 \<mapsto> \<lparr>us_balance = 8, us_total_recharged = 10\<rparr>]\<rparr>"

definition demo_refunds :: refund_service where
  "demo_refunds = \<lparr>rs_instance = (\<lambda>x. DbOk (Some (True, True))), rs_creates = (\<lambda>x. True), rs_metadata_ok = (\<lambda>x. True),
     rs_can_query = (\<lambda>x. True)\<rparr>"

definition says :: "string \<Rightarrow> gateway_answer" where
  "says st = \<lparr>ga_response = Some \<lparr>rr_refund_id = ''R'', rr_status = st\<rparr>, ga_error = False\<rparr>"

lemma paid_db_inv: "refund_inv 1 paid_db"
  unfolding refund_inv_def
  by (intro exI [of _ "demo_order\<lparr>po_status := OrderStatusCompleted, po_trade_no := ''X1''\<rparr>"] conjI account_refundable)
    (simp_all add: paid_db_def demo_db_def demo_order_def refund_order_def refund_net_def refundable_def has_audit_def)

text \<open>A forced refund of the order of 10 by a user who has 8 left, and how it goes on.\<close>

definition demo_prepared :: "pay_db \<Rightarrow> (refund_error + (refund_result + refund_plan)) \<times> pay_world" where
  "demo_prepared db = prepare_refund demo_refunds 1 (Fin 0) [] True True (alone db)"

definition demo_execute :: "string \<Rightarrow> pay_db \<Rightarrow> (refund_error + refund_result) \<times> pay_world" where
  "demo_execute st db = (case demo_prepared db of
     (Inr (Inr p), w) \<Rightarrow> execute_refund demo_refunds (says st) p w | (_, w) \<Rightarrow> (Inl RefundDb, w))"

definition is_plan :: "refund_error + (refund_result + refund_plan) \<Rightarrow> bool" where
  "is_plan r = (case r of Inr (Inr p) \<Rightarrow> True | _ \<Rightarrow> False)"

lemma demo_plan:
  assumes "is_plan (fst (demo_prepared db))"
  obtains p w where "prepare_refund demo_refunds 1 (Fin 0) [] True True (alone db) = (Inr (Inr p), w)"
    "fst (demo_prepared db) = Inr (Inr p)" "demo_execute st db = execute_refund demo_refunds (says st) p w"
proof -
  obtain r w where r: "demo_prepared db = (r, w)" by (cases "demo_prepared db")
  then obtain p where "r = Inr (Inr p)" using assms by (auto simp: is_plan_def split: sum.splits)
  with r show ?thesis by (intro that [of p w]) (simp_all add: demo_execute_def demo_prepared_def)
qed

lemma paid_plan: "is_plan (fst (demo_prepared paid_db))"
  by code_simp

lemmas paid_runs = demo_plan [OF paid_plan]

definition db_pending :: pay_db where "db_pending = pw_db (snd (demo_execute ''pending'' paid_db))"

definition db_failed :: pay_db where
  "db_failed = pw_db (snd (query_and_finalize_refund demo_refunds (says ''failed'') 1 (alone db_pending)))"

lemma demo_run: "refund_run demo_refunds 1 paid_db db_failed"
proof -
  obtain p w where p: "prepare_refund demo_refunds 1 (Fin 0) [] True True (alone paid_db) = (Inr (Inr p), w)"
    "demo_execute ''pending'' paid_db = execute_refund demo_refunds (says ''pending'') p w" by (rule paid_runs)
  have "refund_step demo_refunds 1 paid_db db_pending" unfolding db_pending_def p(2) by (rule executed [OF p(1)])
  from more [OF more [OF start this] settled [of demo_refunds 1 db_pending "says ''failed''"]] show ?thesis
    by (simp add: db_failed_def)
qed

lemma refund_money_accounted_witness: "refund_net 1 db_failed = 0"
proof -
  have "status_of 1 db_failed = Some OrderStatusRefundFailed" by code_simp
  with refund_money_accounted [OF paid_db_inv demo_run] show ?thesis by (auto simp: status_of_def refundable_def)
qed

lemma failed_db_inv: "refund_inv 1 db_failed"
  using demo_run paid_db_inv by (induction rule: refund_run.induct) (simp_all add: refund_step_inv)

text \<open>The completed order of that database.\<close>

definition paid_order :: pay_order where
  "paid_order = demo_order\<lparr>po_status := OrderStatusCompleted, po_trade_no := ''X1''\<rparr>"

lemma paid_order_here: "pd_orders paid_db 1 = Some paid_order" "po_user_id paid_order = 7"
  "refund_order 1 paid_order (pw_db (alone paid_db))" "order_account 1 paid_order (pw_db (alone paid_db))"
proof -
  show o': "pd_orders paid_db 1 = Some paid_order" by (simp add: paid_db_def paid_order_def)
  show "po_user_id paid_order = 7" by (simp add: paid_order_def demo_order_def)
  obtain x where "refund_order 1 x paid_db" "order_account 1 x paid_db" using paid_db_inv by (auto simp: refund_inv_def)
  moreover from this(1) o' have "x = paid_order" by (simp add: refund_order_def)
  ultimately show "refund_order 1 paid_order (pw_db (alone paid_db))" "order_account 1 paid_order (pw_db (alone paid_db))"
    by simp_all
qed


lemma prepared_plan_bounded_witness:
  "\<exists>p. fst (demo_prepared paid_db) = Inr (Inr p) \<and> rp_balance p \<le> max 0 (balance_of 7 paid_db)"
proof -
  obtain p w where p: "prepare_refund demo_refunds 1 (Fin 0) [] True True (alone paid_db) = (Inr (Inr p), w)"
    "fst (demo_prepared paid_db) = Inr (Inr p)" by (rule paid_runs)
  have "rp_balance p \<le> max 0 (balance_of (po_user_id paid_order) (pw_db (alone paid_db)))"
    using prepared_plan_bounded [OF alone_simps(1) paid_order_here(3) p(1)] by blast
  with p(2) show ?thesis unfolding paid_order_here(2) alone_simps(2) by blast
qed

lemma second_pending_stuck_witness:
  "status_of 1 (pw_db (snd (demo_execute ''pending'' db_failed))) = Some OrderStatusRefunding \<and>
   refund_net 1 (pw_db (snd (demo_execute ''pending'' db_failed))) = - 8"
proof -
  have "is_plan (fst (demo_prepared db_failed))" by code_simp
  then obtain p w where p: "prepare_refund demo_refunds 1 (Fin 0) [] True True (alone db_failed) = (Inr (Inr p), w)"
    "fst (demo_prepared db_failed) = Inr (Inr p)"
    "demo_execute ''pending'' db_failed = execute_refund demo_refunds (says ''pending'') p w" by (rule demo_plan)
  have "list_all (\<lambda>x. po_trade_no x = ''X1'' \<and> po_user_id x = 7) (case pd_orders db_failed 1 of None \<Rightarrow> [] | Some x \<Rightarrow> [x])"
    by code_simp
  moreover obtain x where x: "pd_orders db_failed 1 = Some x" using failed_db_inv by (auto simp: refund_inv_def refund_order_def)
  ultimately have xs: "po_trade_no x = ''X1''" "po_user_id x = 7" by simp_all
  have "trim_space ''pending'' = ProviderStatusPending" by code_simp
  then have ans: "answers_pending demo_refunds (says ''pending'') x"
    using xs by (simp add: answers_pending_def demo_refunds_def refund_provider_def says_def)
  have has: "has_audit 1 ''REFUND_PENDING'' db_failed" by code_simp
  have b: "balance_of 7 db_failed = 8" by code_simp
  have "case fst (demo_prepared db_failed) of Inr (Inr p) \<Rightarrow> rp_balance p = 8 | _ \<Rightarrow> False" by code_simp
  then have "rp_balance p = 8" by (simp only: p(2) sum.case)
  with second_pending_stuck [OF failed_db_inv x has p(1) ans prod.collapse [symmetric] start] show ?thesis
    unfolding p(3) xs b by simp
qed

lemma failed_refund_counts_as_recharge_witness:
  "balance_of 7 (pw_db (snd (demo_execute ''failed'' paid_db))) = 8 \<and>
   recharged_of 7 (pw_db (snd (demo_execute ''failed'' paid_db))) = 18"
proof -
  obtain p w where p: "prepare_refund demo_refunds 1 (Fin 0) [] True True (alone paid_db) = (Inr (Inr p), w)"
    "fst (demo_prepared paid_db) = Inr (Inr p)"
    "demo_execute ''failed'' paid_db = execute_refund demo_refunds (says ''failed'') p w" by (rule paid_runs)
  have "case fst (demo_execute ''failed'' paid_db) of Inr r \<Rightarrow> True | Inl e \<Rightarrow> False" by code_simp
  then obtain r w' where r: "execute_refund demo_refunds (says ''failed'') p w = (Inr r, w')"
    unfolding p(3) by (cases "execute_refund demo_refunds (says ''failed'') p w") (auto split: sum.splits)
  have "case fst (demo_prepared paid_db) of Inr (Inr p) \<Rightarrow> rp_balance p = 8 \<and> restored_status p = OrderStatusCompleted | _ \<Rightarrow> False"
    by code_simp
  then have b: "rp_balance p = 8" "restored_status p = OrderStatusCompleted" by (simp_all only: p(2) sum.case)
  have "status_of 1 (pw_db (snd (demo_execute ''failed'' paid_db))) = Some OrderStatusCompleted" by code_simp
  then have "status_of 1 (pw_db w') = Some (restored_status p)" unfolding p(3) r b by simp
  note out = failed_refund_counts_as_recharge [OF paid_db_inv paid_order_here(1) p(1) r this]
  have "balance_of 7 paid_db = 8" "recharged_of 7 paid_db = 10" by code_simp+
  with out show ?thesis unfolding p(3) r paid_order_here(2) b by simp
qed

end
