(* ===== verification/Keyword_Matcher.thy ===== *)
theory Keyword_Matcher
  imports Prelude
begin

text \<open>
  The keyword matcher of content moderation, \<open>service/content_moderation_keyword_matcher.go\<close>: a trie
  of the keywords with failure links, laid out in arrays. Indices that the code marks as absent by a
  negative number are options here. Go's \<open>strings.ToLower\<close> maps by the Unicode tables; it is the
  parameter \<open>lower\<close>. Loops that follow links carry fuel: an edge list is never longer than the
  number of edges, a chain of failure links and the queue never longer than the number of nodes.
\<close>

section \<open>The arrays\<close>

record kw_node =
  kn_failure :: nat
  kn_best :: "nat option"
  kn_edge_start :: nat
  kn_edge_count :: nat

record kw_edge =
  ke_target :: nat
  ke_label :: char

record kw_build_edge =
  be_target :: nat
  be_next :: "nat option"
  be_label :: char

record kw_matcher =
  km_nodes :: "kw_node list"
  km_edges :: "kw_edge list"
  km_root :: "nat list"
  km_keywords :: "string list"

definition new_node :: kw_node where
  "new_node = \<lparr>kn_failure = 0, kn_best = None, kn_edge_start = 0, kn_edge_count = 0\<rparr>"

definition min_keyword_index :: "nat option \<Rightarrow> nat option \<Rightarrow> nat option" where
  "min_keyword_index left right =
     (case left of
        None \<Rightarrow> right
      | Some l \<Rightarrow> (case right of None \<Rightarrow> left | Some r \<Rightarrow> if l < r then left else right))"

section \<open>Building the trie\<close>

definition build_first_edge :: "kw_node \<Rightarrow> nat option" where
  "build_first_edge node = (if kn_edge_start node = 0 then None else Some (kn_edge_start node - 1))"

text \<open>The edges of a node: the list that starts at an edge and follows \<open>nextSibling\<close>.\<close>

fun edge_chain :: "nat \<Rightarrow> kw_build_edge list \<Rightarrow> nat option \<Rightarrow> kw_build_edge list" where
  "edge_chain n edges None = []"
| "edge_chain 0 edges (Some i) = []"
| "edge_chain (Suc n) edges (Some i) = edges ! i # edge_chain n edges (be_next (edges ! i))"

definition node_edges :: "kw_node list \<Rightarrow> kw_build_edge list \<Rightarrow> nat \<Rightarrow> kw_build_edge list" where
  "node_edges nodes edges state = edge_chain (length edges) edges (build_first_edge (nodes ! state))"

definition build_transition :: "kw_node list \<Rightarrow> kw_build_edge list \<Rightarrow> nat \<Rightarrow> char \<Rightarrow> nat option" where
  "build_transition nodes edges state label =
     (if length nodes \<le> state then None
      else map_option be_target (find (\<lambda>e. be_label e = label) (node_edges nodes edges state)))"

type_synonym kw_trie = "kw_node list \<times> kw_build_edge list"

fun insert_label :: "kw_trie \<times> nat \<Rightarrow> char \<Rightarrow> kw_trie \<times> nat" where
  "insert_label ((nodes, edges), state) label =
     (case build_transition nodes edges state label of
        Some next \<Rightarrow> ((nodes, edges), next)
      | None \<Rightarrow>
          let next = length nodes;
              edges' = edges @ [\<lparr>be_target = next, be_next = build_first_edge (nodes ! state), be_label = label\<rparr>];
              nodes' = nodes @ [new_node]
          in ((nodes'[state := (nodes' ! state)\<lparr>kn_edge_start := length edges'\<rparr>], edges'), next))"

fun insert_keyword :: "(string \<Rightarrow> string) \<Rightarrow> kw_trie \<Rightarrow> nat \<times> string \<Rightarrow> kw_trie" where
  "insert_keyword lower trie (k, keyword) =
     (if keyword = [] then trie
      else
        let ((nodes, edges), state) = foldl insert_label (trie, 0) (lower keyword)
        in (case kn_best (nodes ! state) of
              None \<Rightarrow> (nodes[state := (nodes ! state)\<lparr>kn_best := Some k\<rparr>], edges)
            | Some current \<Rightarrow>
                if k < current then (nodes[state := (nodes ! state)\<lparr>kn_best := Some k\<rparr>], edges) else (nodes, edges)))"

definition build_trie :: "(string \<Rightarrow> string) \<Rightarrow> string list \<Rightarrow> kw_trie" where
  "build_trie lower keywords = foldl (insert_keyword lower) ([new_node], []) (enumerate 0 keywords)"

section \<open>Failure links, breadth first\<close>

fun find_fallback :: "nat \<Rightarrow> kw_node list \<Rightarrow> kw_build_edge list \<Rightarrow> nat \<Rightarrow> char \<Rightarrow> nat option" where
  "find_fallback fuel nodes edges failure label =
     (case build_transition nodes edges failure label of
        Some t \<Rightarrow> Some t
      | None \<Rightarrow>
          if failure = 0 then None
          else (case fuel of
                  0 \<Rightarrow> None
                | Suc n \<Rightarrow> find_fallback n nodes edges (kn_failure (nodes ! failure)) label))"

declare find_fallback.simps [simp del]

definition link_edge :: "kw_build_edge list \<Rightarrow> nat \<Rightarrow> kw_node list \<Rightarrow> kw_build_edge \<Rightarrow> kw_node list" where
  "link_edge edges state nodes e =
     (let t = be_target e;
          nodes1 = (case find_fallback (length nodes) nodes edges (kn_failure (nodes ! state)) (be_label e) of
              None \<Rightarrow> nodes
            | Some fallback \<Rightarrow> nodes[t := (nodes ! t)\<lparr>kn_failure := fallback\<rparr>]);
          best = min_keyword_index (kn_best (nodes1 ! t)) (kn_best (nodes1 ! kn_failure (nodes1 ! t)))
      in nodes1[t := (nodes1 ! t)\<lparr>kn_best := best\<rparr>])"

fun link_queue :: "nat \<Rightarrow> kw_build_edge list \<Rightarrow> nat list \<Rightarrow> kw_node list \<Rightarrow> kw_node list" where
  "link_queue 0 edges queue nodes = nodes"
| "link_queue (Suc n) edges [] nodes = nodes"
| "link_queue (Suc n) edges (state # queue) nodes =
     (let es = node_edges nodes edges state
      in link_queue n edges (queue @ map be_target es) (foldl (link_edge edges state) nodes es))"

definition root_transitions :: "kw_build_edge list \<Rightarrow> nat list" where
  "root_transitions es = foldl (\<lambda>table e. table[of_char (be_label e) := be_target e]) (replicate 256 0) es"

section \<open>The final layout\<close>

definition label_less :: "char \<Rightarrow> char \<Rightarrow> bool" where
  "label_less a b \<longleftrightarrow> (of_char a :: nat) < of_char b"

text \<open>The inner loop of the insertion sort: the new edge moves left past the greater labels.\<close>

fun move_left :: "kw_edge \<Rightarrow> kw_edge list \<Rightarrow> kw_edge list" where
  "move_left current [] = [current]"
| "move_left current (e # sorted_before) =
     (if label_less (ke_label current) (ke_label e) then e # move_left current sorted_before else current # e # sorted_before)"

text \<open>The sorted prefix is kept in reverse, its last element first.\<close>

definition sort_edges :: "kw_edge list \<Rightarrow> kw_edge list" where
  "sort_edges es = rev (foldl (\<lambda>sorted_before e. move_left e sorted_before) [] es)"

definition outgoing_edges :: "kw_node list \<Rightarrow> kw_build_edge list \<Rightarrow> nat \<Rightarrow> kw_edge list" where
  "outgoing_edges nodes edges state =
     sort_edges (map (\<lambda>e. \<lparr>ke_target = be_target e, ke_label = be_label e\<rparr>) (node_edges nodes edges state))"

fun layout_node :: "kw_build_edge list \<Rightarrow> kw_node list \<times> kw_edge list \<Rightarrow> nat \<Rightarrow> kw_node list \<times> kw_edge list" where
  "layout_node build_edges (nodes, edges) i =
     (let out = outgoing_edges nodes build_edges i
      in (nodes[i := (nodes ! i)\<lparr>kn_edge_start := length edges, kn_edge_count := length out\<rparr>], edges @ out))"

definition new_matcher :: "(string \<Rightarrow> string) \<Rightarrow> string list \<Rightarrow> kw_matcher option" where
  "new_matcher lower keywords =
     (if keywords = [] then None
      else
        let (nodes, edges) = build_trie lower keywords
        in if length nodes = 1 then None
           else
             let first = node_edges nodes edges 0;
                 linked = link_queue (length nodes) edges (map be_target first) nodes;
                 (final_nodes, final_edges) = foldl (layout_node edges) (linked, []) [0..<length linked]
             in Some \<lparr>km_nodes = final_nodes, km_edges = final_edges, km_root = root_transitions first, km_keywords = keywords\<rparr>)"

section \<open>Matching\<close>

function edge_search :: "kw_edge list \<Rightarrow> char \<Rightarrow> nat \<Rightarrow> nat \<Rightarrow> nat" where
  "edge_search edges label left right =
     (if left < right then
        let middle = left + (right - left) div 2
        in if label_less (ke_label (edges ! middle)) label then edge_search edges label (middle + 1) right
           else edge_search edges label left middle
      else left)"
  by pat_completeness auto
termination by (relation "measure (\<lambda>(edges, label, left, right). right - left)") auto

declare edge_search.simps [simp del]

definition matcher_next :: "kw_matcher \<Rightarrow> nat \<Rightarrow> char \<Rightarrow> nat" where
  "matcher_next m state label =
     (if state = 0 then km_root m ! of_char label
      else if length (km_nodes m) \<le> state then 0
      else
        let node = km_nodes m ! state;
            end' = kn_edge_start node + kn_edge_count node;
            left = edge_search (km_edges m) label (kn_edge_start node) end'
        in if left < end' \<and> ke_label (km_edges m ! left) = label then ke_target (km_edges m ! left) else 0)"

fun matcher_step :: "nat \<Rightarrow> kw_matcher \<Rightarrow> nat \<Rightarrow> char \<Rightarrow> nat" where
  "matcher_step fuel m state label =
     (let next = matcher_next m state label
      in if next \<noteq> 0 then next
         else if state = 0 then state
         else (case fuel of 0 \<Rightarrow> state | Suc n \<Rightarrow> matcher_step n m (kn_failure (km_nodes m ! state)) label))"

declare matcher_step.simps [simp del]

fun match_loop :: "kw_matcher \<Rightarrow> string \<Rightarrow> nat \<Rightarrow> nat option \<Rightarrow> nat option" where
  "match_loop m [] state best = best"
| "match_loop m (label # rest) state best =
     (let state' = matcher_step (length (km_nodes m)) m state label;
          best' = min_keyword_index best (kn_best (km_nodes m ! state'))
      in if best' = Some 0 then best' else match_loop m rest state' best')"

definition matcher_match :: "(string \<Rightarrow> string) \<Rightarrow> kw_matcher option \<Rightarrow> string \<Rightarrow> string option" where
  "matcher_match lower mo text =
     (case mo of
        None \<Rightarrow> None
      | Some m \<Rightarrow>
          if text = [] \<or> km_nodes m = [] \<or> km_keywords m = [] then None
          else (case match_loop m (lower text) 0 None of
                  None \<Rightarrow> None
                | Some k \<Rightarrow> if length (km_keywords m) \<le> k then None else Some (km_keywords m ! k)))"

end
