(* ===== verification/Keyword_Correct.thy ===== *)
theory Keyword_Correct
  imports Keyword_Matcher "HOL-Library.Sublist"
begin

text \<open>
  The matcher finds what a plain search finds: the first keyword of the list that occurs in the
  text. A node stands for the string that leads to it; the trie, the failure links and the final
  layout are each characterised by these strings.
\<close>

section \<open>Longest suffixes\<close>

fun lsuf :: "('a list \<Rightarrow> bool) \<Rightarrow> 'a list \<Rightarrow> 'a list" where
  "lsuf P [] = []"
| "lsuf P (x # xs) = (if P (x # xs) then x # xs else lsuf P xs)"

lemma lsuf_P: "P [] \<Longrightarrow> P (lsuf P w)"
  by (induction w) auto

lemma lsuf_id: "P w \<Longrightarrow> lsuf P w = w"
  by (cases w) auto

lemma length_lsuf: "length (lsuf P w) \<le> length w"
  by (induction w) auto

lemma lsuf_suffix: "P K \<Longrightarrow> suffix K w \<longleftrightarrow> suffix K (lsuf P w)"
proof (induction w)
  case (Cons x xs)
  then show ?case by (auto simp: suffix_Cons)
qed simp

lemma lsuf_snoc:
  assumes "\<And>w. P (w @ [c]) \<Longrightarrow> P w"
  shows "lsuf P (w @ [c]) = lsuf P (lsuf P w @ [c])"
proof (induction w)
  case (Cons x xs)
  show ?case
  proof (cases "P (x # xs)")
    case False
    then have "\<not> P ((x # xs) @ [c])" using assms by blast
    with False show ?thesis using Cons by simp
  qed simp
qed simp

section \<open>Least keywords\<close>

definition least :: "nat set \<Rightarrow> nat option" where
  "least S = (if S = {} then None else Some (Min S))"

lemma min_least: "finite A \<Longrightarrow> finite B \<Longrightarrow> min_keyword_index (least A) (least B) = least (A \<union> B)"
  by (cases "A = {}"; cases "B = {}")
    (simp_all add: min_keyword_index_def least_def Min_Un min_def del: Min_gr_iff Min_less_iff Min_ge_iff Min_le_iff)

lemma least_empty [simp]: "least {} = None"
  by (simp add: least_def)

lemma least_single [simp]: "least {k} = Some k"
  by (simp add: least_def)

section \<open>The trie\<close>

definition links_down :: "kw_build_edge list \<Rightarrow> bool" where
  "links_down edges \<longleftrightarrow> (\<forall>i < length edges. case be_next (edges ! i) of None \<Rightarrow> True | Some j \<Rightarrow> j < i)"

text \<open>The fuel of an edge list is enough, and new edges do not change old lists.\<close>

lemma edge_chain_grow:
  assumes "links_down edges"
  shows "i < length edges \<Longrightarrow> i < n \<Longrightarrow> i < m \<Longrightarrow> edge_chain n (edges @ es) (Some i) = edge_chain m edges (Some i)"
proof (induction i arbitrary: n m rule: less_induct)
  case (less i)
  obtain n' m' where nm: "n = Suc n'" "m = Suc m'" using less.prems by (cases n; cases m) auto
  have next_down: "j < i" if "be_next (edges ! i) = Some j" for j
    using assms less.prems(1) that by (auto simp: links_down_def split: option.splits)
  show ?case
  proof (cases "be_next (edges ! i)")
    case None
    then show ?thesis using nm less.prems by (simp add: nth_append)
  next
    case (Some j)
    with next_down less.prems nm have "edge_chain n' (edges @ es) (Some j) = edge_chain m' edges (Some j)"
      by (intro less.IH) auto
    with Some show ?thesis using nm less.prems by (simp add: nth_append)
  qed
qed

definition children :: "string list \<Rightarrow> nat \<Rightarrow> (char \<times> nat) set" where
  "children paths s = {(c, t). t < length paths \<and> paths ! t = paths ! s @ [c]}"

definition trie_ok :: "string list \<Rightarrow> kw_node list \<Rightarrow> kw_build_edge list \<Rightarrow> bool" where
  "trie_ok paths nodes edges \<longleftrightarrow> length paths = length nodes \<and> paths \<noteq> [] \<and> paths ! 0 = [] \<and> distinct paths \<and>
     links_down edges \<and> (\<forall>s < length nodes. kn_edge_start (nodes ! s) \<le> length edges) \<and>
     (\<forall>s < length nodes. (\<lambda>e. (be_label e, be_target e)) ` set (node_edges nodes edges s) = children paths s \<and>
        distinct (map be_label (node_edges nodes edges s))) \<and>
     (\<forall>w c. w @ [c] \<in> set paths \<longrightarrow> w \<in> set paths)"

definition trie_index :: "string list \<Rightarrow> string \<Rightarrow> nat option" where
  "trie_index paths w = (if w \<in> set paths then Some (THE t. t < length paths \<and> paths ! t = w) else None)"

lemma trie_index_Some: "distinct paths \<Longrightarrow> trie_index paths w = Some t \<longleftrightarrow> t < length paths \<and> paths ! t = w"
proof -
  assume d: "distinct paths"
  have u: "(THE t. t < length paths \<and> paths ! t = w) = i" if "i < length paths" "paths ! i = w" for i
    using that d by (intro the_equality) (auto simp: nth_eq_iff_index_eq)
  then show ?thesis by (auto simp: trie_index_def in_set_conv_nth)
qed

lemma trie_index_None: "trie_index paths w = None \<longleftrightarrow> w \<notin> set paths"
  by (simp add: trie_index_def)

lemma find_label:
  assumes "distinct (map be_label es)" "(\<lambda>e. (be_label e, be_target e)) ` set es = R"
  shows "map_option be_target (find (\<lambda>e. be_label e = c) es) = Some t \<longleftrightarrow> (c, t) \<in> R"
    "find (\<lambda>e. be_label e = c) es = None \<longleftrightarrow> (\<forall>t. (c, t) \<notin> R)"
  using assms by (induction es arbitrary: R) force+

lemma build_transition_ok:
  assumes "trie_ok paths nodes edges" "s < length nodes"
  shows "build_transition nodes edges s c = trie_index paths (paths ! s @ [c])"
proof -
  have d: "distinct paths" "length paths = length nodes" using assms by (simp_all add: trie_ok_def)
  have e: "distinct (map be_label (node_edges nodes edges s))"
    "(\<lambda>e. (be_label e, be_target e)) ` set (node_edges nodes edges s) = children paths s"
    using assms by (simp_all add: trie_ok_def)
  have "build_transition nodes edges s c = Some t \<longleftrightarrow> trie_index paths (paths ! s @ [c]) = Some t" for t
    using find_label(1) [OF e, of c t] assms(2) d by (simp add: build_transition_def trie_index_Some children_def)
  then show ?thesis by (metis option.exhaust)
qed

lemma node_edges_grow:
  assumes "links_down edges" "kn_edge_start (nodes ! s) \<le> length edges" "kn_edge_start (nodes' ! s) = kn_edge_start (nodes ! s)"
  shows "node_edges nodes' (edges @ es) s = node_edges nodes edges s"
  using assms edge_chain_grow [OF assms(1), of "kn_edge_start (nodes ! s) - 1" "length (edges @ es)" "length edges" es]
  by (cases "kn_edge_start (nodes ! s)") (auto simp: node_edges_def build_first_edge_def)

text \<open>Inserting a label either follows an edge or adds one node and the edge to it.\<close>

lemma insert_label_new:
  assumes ok: "trie_ok paths nodes edges" and s: "s < length nodes" and fresh: "paths ! s @ [c] \<notin> set paths"
    and e: "e = \<lparr>be_target = length nodes, be_next = build_first_edge (nodes ! s), be_label = c\<rparr>"
    and nodes': "nodes' = (nodes @ [new_node])[s := (nodes ! s)\<lparr>kn_edge_start := Suc (length edges)\<rparr>]"
  shows "trie_ok (paths @ [paths ! s @ [c]]) nodes' (edges @ [e])"
proof -
  let ?paths = "paths @ [paths ! s @ [c]]"
  have len: "length paths = length nodes" "length nodes' = Suc (length nodes)" and down: "links_down edges"
    and start: "\<And>i. i < length nodes \<Longrightarrow> kn_edge_start (nodes ! i) \<le> length edges"
    using ok by (simp_all add: trie_ok_def nodes')
  have down': "links_down (edges @ [e])"
    using down start [OF s] by (auto simp: links_down_def nth_append e build_first_edge_def less_Suc_eq split: option.splits)
  have nth': "nodes' ! i = (if i = s then (nodes ! s)\<lparr>kn_edge_start := Suc (length edges)\<rparr>
      else if i = length nodes then new_node else nodes ! i)" if "i \<le> length nodes" for i
    using that s by (auto simp: nodes' nth_append nth_list_update)
  have old: "node_edges nodes' (edges @ [e]) i = node_edges nodes edges i" if "i < length nodes" "i \<noteq> s" for i
    using that nth' [of i] start by (intro node_edges_grow [OF down]) simp_all
  have leaf: "node_edges nodes' (edges @ [e]) (length nodes) = []"
    using nth' [of "length nodes"] s by (simp add: node_edges_def build_first_edge_def new_node_def)
  have new: "node_edges nodes' (edges @ [e]) s = e # node_edges nodes edges s"
  proof -
    have "node_edges nodes' (edges @ [e]) s = e # edge_chain (length edges) (edges @ [e]) (build_first_edge (nodes ! s))"
      using nth' [of s] s by (simp add: node_edges_def build_first_edge_def nth_append) (simp add: e build_first_edge_def)
    also have "edge_chain (length edges) (edges @ [e]) (build_first_edge (nodes ! s)) = node_edges nodes edges s"
      using start [OF s] edge_chain_grow [OF down, of "kn_edge_start (nodes ! s) - 1" "length edges" "length edges" "[e]"]
      by (cases "kn_edge_start (nodes ! s)") (auto simp: node_edges_def build_first_edge_def)
    finally show ?thesis .
  qed
  have kids: "(\<lambda>e. (be_label e, be_target e)) ` set (node_edges nodes edges i) = children paths i"
    "distinct (map be_label (node_edges nodes edges i))" if "i < length nodes" for i
    using ok that by (simp_all add: trie_ok_def)
  have grow: "children ?paths i = (if i = s then insert (c, length nodes) (children paths s) else children paths i)" if "i < length nodes" for i
  proof -
    have "distinct paths" using ok by (simp add: trie_ok_def)
    then have inj: "paths ! s = paths ! i \<longleftrightarrow> i = s" using that s len by (auto simp: nth_eq_iff_index_eq)
    have "(d, t) \<in> children ?paths i \<longleftrightarrow> (d, t) \<in> children paths i \<or> t = length nodes \<and> d = c \<and> i = s" for d t
      using that len inj by (auto simp: children_def nth_append less_Suc_eq)
    then show ?thesis by auto
  qed
  have prefix_in: "w \<in> set paths" if "w @ [d] \<in> set paths" for w d
    using ok that unfolding trie_ok_def by blast
  have closed: "\<forall>w d. w @ [d] \<in> set ?paths \<longrightarrow> w \<in> set ?paths" using prefix_in s len by auto
  have none: "children ?paths (length nodes) = {}"
  proof -
    have "paths ! t \<noteq> (paths ! s @ [c]) @ [d]" if "t < length paths" for t d
      using prefix_in [of "paths ! s @ [c]" d] that fresh by (metis nth_mem)
    then show ?thesis using len by (auto simp: children_def nth_append less_Suc_eq)
  qed
  have fresh_label: "c \<notin> be_label ` set (node_edges nodes edges s)"
  proof
    assume "c \<in> be_label ` set (node_edges nodes edges s)"
    then obtain t where "(c, t) \<in> children paths s" unfolding kids(1) [OF s, symmetric] by blast
    then have "t < length paths" "paths ! t = paths ! s @ [c]" by (simp_all add: children_def)
    with fresh show False using nth_mem by metis
  qed
  have all: "\<forall>i < length nodes'. (\<lambda>e. (be_label e, be_target e)) ` set (node_edges nodes' (edges @ [e]) i) = children ?paths i \<and>
      distinct (map be_label (node_edges nodes' (edges @ [e]) i))"
  proof (intro allI impI)
    fix i assume "i < length nodes'"
    then show "(\<lambda>e. (be_label e, be_target e)) ` set (node_edges nodes' (edges @ [e]) i) = children ?paths i \<and>
      distinct (map be_label (node_edges nodes' (edges @ [e]) i))"
      using len kids [of i] grow [of i] old [of i] new leaf none fresh_label
      by (cases "i = s"; cases "i = length nodes") (auto simp: e)
  qed
  have starts: "\<forall>i < length nodes'. kn_edge_start (nodes' ! i) \<le> length (edges @ [e])"
  proof (intro allI impI)
    fix i assume "i < length nodes'"
    then show "kn_edge_start (nodes' ! i) \<le> length (edges @ [e])"
      using len nth' [of i] start [of i] by (cases "i = length nodes") (auto simp: new_node_def)
  qed
  have base: "paths \<noteq> []" "paths ! 0 = []" "distinct paths" using ok by (simp_all add: trie_ok_def)
  have "length ?paths = length nodes'" "?paths \<noteq> []" "?paths ! 0 = []" "distinct ?paths"
    using base fresh len s by (auto simp: nth_append)
  with down' starts all closed show ?thesis unfolding trie_ok_def by (intro conjI)
qed

definition fresh_part :: "nat \<Rightarrow> kw_node list \<Rightarrow> kw_node list \<Rightarrow> bool" where
  "fresh_part n nodes nodes' \<longleftrightarrow> map kn_best nodes' = map kn_best nodes @ replicate n None \<and>
     map kn_failure nodes' = map kn_failure nodes @ replicate n 0"

lemma insert_label_ok:
  assumes ok: "trie_ok paths nodes edges" and s: "s < length nodes"
    and run: "insert_label ((nodes, edges), s) c = ((nodes', edges'), t)"
  shows "\<exists>ps. trie_ok (paths @ ps) nodes' edges' \<and> t < length nodes' \<and> (paths @ ps) ! t = paths ! s @ [c] \<and>
    fresh_part (length ps) nodes nodes'"
proof (cases "trie_index paths (paths ! s @ [c])")
  case (Some u)
  then have "u < length paths" "paths ! u = paths ! s @ [c]"
    using ok by (auto simp: trie_ok_def trie_index_Some)
  with Some run build_transition_ok [OF ok s, of c] ok show ?thesis
    by (intro exI [of _ "[]"]) (simp add: fresh_part_def trie_ok_def)
next
  case None
  let ?e = "\<lparr>be_target = length nodes, be_next = build_first_edge (nodes ! s), be_label = c\<rparr>"
  have r: "nodes' = (nodes @ [new_node])[s := (nodes ! s)\<lparr>kn_edge_start := Suc (length edges)\<rparr>]"
    "edges' = edges @ [?e]" "t = length nodes"
    using None run build_transition_ok [OF ok s, of c] s by (auto simp: Let_def nth_append)
  have fresh: "paths ! s @ [c] \<notin> set paths" using None by (simp add: trie_index_None)
  have "fresh_part 1 nodes nodes'"
    using s by (simp add: fresh_part_def r map_update list_update_append new_node_def)
      (metis list_update_id nth_map length_map)
  moreover have "length paths = length nodes" using ok by (simp add: trie_ok_def)
  then have "(paths @ [paths ! s @ [c]]) ! t = paths ! s @ [c]" by (simp add: r(3) nth_append)
  moreover have "t < length nodes'" by (simp add: r)
  moreover have "trie_ok (paths @ [paths ! s @ [c]]) nodes' edges'"
    unfolding r(2) by (rule insert_label_new [OF ok s fresh refl r(1)])
  ultimately show ?thesis by (intro exI [of _ "[paths ! s @ [c]]"]) simp
qed

lemma insert_word_ok:
  assumes "trie_ok paths nodes edges" "s < length nodes" "foldl insert_label ((nodes, edges), s) w = ((nodes', edges'), t)"
  shows "\<exists>ps. trie_ok (paths @ ps) nodes' edges' \<and> t < length nodes' \<and> (paths @ ps) ! t = paths ! s @ w \<and>
    fresh_part (length ps) nodes nodes'"
  using assms
proof (induction w arbitrary: paths nodes edges s)
  case Nil
  then show ?case by (intro exI [of _ "[]"]) (simp add: fresh_part_def trie_ok_def)
next
  case (Cons c w)
  obtain n1 e1 u where step: "insert_label ((nodes, edges), s) c = ((n1, e1), u)"
    by (metis prod.exhaust)
  obtain ps where ps: "trie_ok (paths @ ps) n1 e1" "u < length n1" "(paths @ ps) ! u = paths ! s @ [c]"
    "fresh_part (length ps) nodes n1"
    using insert_label_ok [OF Cons.prems(1,2) step] by blast
  have "foldl insert_label ((n1, e1), u) w = ((nodes', edges'), t)" using Cons.prems(3) step by simp
  from Cons.IH [OF ps(1,2) this] obtain qs where "trie_ok ((paths @ ps) @ qs) nodes' edges'" "t < length nodes'"
    "((paths @ ps) @ qs) ! t = (paths @ ps) ! u @ w" "fresh_part (length qs) n1 nodes'" by blast
  with ps show ?case by (intro exI [of _ "ps @ qs"]) (simp add: fresh_part_def replicate_add)
qed

text \<open>The keywords put in so far, with their positions in the list.\<close>

definition keys_at :: "(string \<Rightarrow> string) \<Rightarrow> (nat \<times> string) set \<Rightarrow> string \<Rightarrow> nat set" where
  "keys_at lower ks w = {k. \<exists>kw. (k, kw) \<in> ks \<and> kw \<noteq> [] \<and> lower kw = w}"

definition trie_holds ::
  "(string \<Rightarrow> string) \<Rightarrow> (nat \<times> string) set \<Rightarrow> string list \<Rightarrow> kw_node list \<Rightarrow> kw_build_edge list \<Rightarrow> bool" where
  "trie_holds lower ks paths nodes edges \<longleftrightarrow> trie_ok paths nodes edges \<and> finite ks \<and>
     (\<forall>t < length nodes. kn_best (nodes ! t) = least (keys_at lower ks (paths ! t)) \<and> kn_failure (nodes ! t) = 0) \<and>
     (\<forall>(k, kw) \<in> ks. kw \<noteq> [] \<longrightarrow> lower kw \<in> set paths)"

lemma finite_keys_at: "finite ks \<Longrightarrow> finite (keys_at lower ks w)"
  by (rule finite_subset [of _ "fst ` ks"]) (force simp: keys_at_def)+

lemma trie_ok_best:
  assumes "trie_ok paths nodes edges" "s < length nodes"
  shows "trie_ok paths (nodes[s := (nodes ! s)\<lparr>kn_best := b\<rparr>]) edges"
proof -
  let ?nodes = "nodes[s := (nodes ! s)\<lparr>kn_best := b\<rparr>]"
  have start: "kn_edge_start (?nodes ! i) = kn_edge_start (nodes ! i)" for i
    using assms(2) by (cases "i = s") simp_all
  then have "node_edges ?nodes edges i = node_edges nodes edges i" for i
    by (simp add: node_edges_def build_first_edge_def)
  with assms(1) start show ?thesis by (simp add: trie_ok_def)
qed

lemma fresh_part_nth:
  assumes "fresh_part n nodes nodes'"
  shows "length nodes' = length nodes + n"
    "i < length nodes \<Longrightarrow> kn_best (nodes' ! i) = kn_best (nodes ! i) \<and> kn_failure (nodes' ! i) = kn_failure (nodes ! i)"
    "length nodes \<le> i \<Longrightarrow> i < length nodes' \<Longrightarrow> kn_best (nodes' ! i) = None \<and> kn_failure (nodes' ! i) = 0"
proof -
  have m: "map kn_best nodes' = map kn_best nodes @ replicate n None" "map kn_failure nodes' = map kn_failure nodes @ replicate n 0"
    using assms by (simp_all add: fresh_part_def)
  show len: "length nodes' = length nodes + n" using m(1) by (metis length_append length_map length_replicate)
  have nth: "kn_best (nodes' ! i) = (map kn_best nodes @ replicate n None) ! i"
    "kn_failure (nodes' ! i) = (map kn_failure nodes @ replicate n 0) ! i" if "i < length nodes'" for i
    using that m by (metis nth_map)+
  show "i < length nodes \<Longrightarrow> kn_best (nodes' ! i) = kn_best (nodes ! i) \<and> kn_failure (nodes' ! i) = kn_failure (nodes ! i)"
    using nth [of i] len by (simp add: nth_append)
  show "length nodes \<le> i \<Longrightarrow> i < length nodes' \<Longrightarrow> kn_best (nodes' ! i) = None \<and> kn_failure (nodes' ! i) = 0"
    using nth [of i] len by (simp add: nth_append)
qed

lemma trie_holds_grow:
  assumes h: "trie_holds lower ks paths nodes edges" and ok: "trie_ok (paths @ ps) nodes' edges'"
    and fresh: "fresh_part (length ps) nodes nodes'"
  shows "trie_holds lower ks (paths @ ps) nodes' edges'"
proof -
  have len: "length paths = length nodes" "length nodes' = length nodes + length ps" "distinct (paths @ ps)"
    using h ok fresh_part_nth(1) [OF fresh] by (simp_all add: trie_holds_def trie_ok_def)
  have "kn_best (nodes' ! t) = least (keys_at lower ks ((paths @ ps) ! t)) \<and> kn_failure (nodes' ! t) = 0" if "t < length nodes'" for t
  proof (cases "t < length nodes")
    case True
    then show ?thesis using fresh_part_nth(2) [OF fresh True] h len by (simp add: trie_holds_def nth_append)
  next
    case False
    then have "(paths @ ps) ! t \<in> set ps" using that len by (simp add: nth_append)
    then have "(paths @ ps) ! t \<notin> set paths" using len(3) by auto
    then have "keys_at lower ks ((paths @ ps) ! t) = {}" using h by (auto simp: trie_holds_def keys_at_def)
    with False that fresh_part_nth(3) [OF fresh, of t] show ?thesis by simp
  qed
  with h ok show ?thesis by (auto simp: trie_holds_def)
qed

lemma least_insert: "finite S \<Longrightarrow> least (insert k S) = (case least S of None \<Rightarrow> Some k | Some c \<Rightarrow> Some (if k < c then k else c))"
  by (cases "S = {}") (simp_all add: least_def min_def del: Min_gr_iff Min_less_iff Min_ge_iff Min_le_iff)

lemma insert_keyword_ok:
  assumes h: "trie_holds lower ks paths nodes edges" and run: "insert_keyword lower (nodes, edges) (k, kw) = (nodes', edges')"
  shows "\<exists>ps. trie_holds lower (insert (k, kw) ks) (paths @ ps) nodes' edges'"
proof (cases "kw = []")
  case True
  then have "keys_at lower (insert (k, kw) ks) = keys_at lower ks" by (auto simp: keys_at_def fun_eq_iff)
  with True h run show ?thesis by (intro exI [of _ "[]"]) (auto simp: trie_holds_def)
next
  case False
  obtain n1 e1 t where w: "foldl insert_label ((nodes, edges), 0) (lower kw) = ((n1, e1), t)" by (metis prod.exhaust)
  have ok: "trie_ok paths nodes edges" "0 < length nodes" "paths ! 0 = []" using h by (auto simp: trie_holds_def trie_ok_def)
  obtain ps where ps: "trie_ok (paths @ ps) n1 e1" "t < length n1" "(paths @ ps) ! t = paths ! 0 @ lower kw"
    "fresh_part (length ps) nodes n1"
    using insert_word_ok [OF ok(1,2) w] by blast
  have h1: "trie_holds lower ks (paths @ ps) n1 e1" by (rule trie_holds_grow [OF h ps(1,4)])
  define b where "b = least (insert k (keys_at lower ks (lower kw)))"
  have best: "kn_best (n1 ! t) = least (keys_at lower ks (lower kw))"
    using h1 ps(2,3) ok(3) by (simp add: trie_holds_def)
  have fin: "finite (keys_at lower ks v)" for v using h finite_keys_at by (auto simp: trie_holds_def)
  have r: "nodes' = n1[t := (n1 ! t)\<lparr>kn_best := b\<rparr>]" "edges' = e1"
  proof -
    have same: "n1[t := (n1 ! t)\<lparr>kn_best := kn_best (n1 ! t)\<rparr>] = n1" by simp
    have "insert_keyword lower (nodes, edges) (k, kw) = (n1[t := (n1 ! t)\<lparr>kn_best := b\<rparr>], e1)"
      using False w best same least_insert [OF fin, of k "lower kw"] by (auto simp: b_def split: option.split)
    with run show "nodes' = n1[t := (n1 ! t)\<lparr>kn_best := b\<rparr>]" "edges' = e1" by simp_all
  qed
  have ks: "keys_at lower (insert (k, kw) ks) v = (if v = lower kw then insert k (keys_at lower ks v) else keys_at lower ks v)" for v
    using False by (auto simp: keys_at_def)
  have eq: "(paths @ ps) ! i = lower kw \<longleftrightarrow> i = t" if "i < length n1" for i
    using ps(1-3) ok(3) that by (metis append_Nil nth_eq_iff_index_eq trie_ok_def)
  have "kn_best (nodes' ! i) = least (keys_at lower (insert (k, kw) ks) ((paths @ ps) ! i)) \<and> kn_failure (nodes' ! i) = 0"
    if "i < length n1" for i
    using that h1 ps(2,3) ok(3) eq [OF that] by (cases "i = t") (simp_all add: r ks b_def trie_holds_def)
  moreover have "lower kw \<in> set (paths @ ps)" using ps ok(3) by (metis append_Nil nth_mem trie_ok_def)
  moreover have "trie_ok (paths @ ps) nodes' edges'" unfolding r by (rule trie_ok_best [OF ps(1,2)])
  ultimately have "trie_holds lower (insert (k, kw) ks) (paths @ ps) nodes' edges'"
    using h1 by (auto simp: trie_holds_def r)
  then show ?thesis by blast
qed

lemma insert_keywords_ok:
  assumes "trie_holds lower ks paths nodes edges" "foldl (insert_keyword lower) (nodes, edges) kws = (nodes', edges')"
  shows "\<exists>ps. trie_holds lower (ks \<union> set kws) (paths @ ps) nodes' edges'"
  using assms
proof (induction kws arbitrary: ks paths nodes edges)
  case Nil
  then show ?case by (intro exI [of _ "[]"]) simp
next
  case (Cons p kws)
  obtain k kw where p: "p = (k, kw)" by (cases p)
  obtain n1 e1 where step: "insert_keyword lower (nodes, edges) (k, kw) = (n1, e1)" by (metis prod.exhaust)
  obtain ps where ps: "trie_holds lower (insert (k, kw) ks) (paths @ ps) n1 e1"
    using insert_keyword_ok [OF Cons.prems(1) step] by blast
  have "foldl (insert_keyword lower) (n1, e1) kws = (nodes', edges')" using Cons.prems(2) step p by simp
  from Cons.IH [OF ps this] show ?case by (auto simp: p)
qed

lemma build_trie_ok:
  assumes "build_trie lower keywords = (nodes, edges)"
  shows "\<exists>paths. trie_holds lower (set (enumerate 0 keywords)) paths nodes edges"
proof -
  have "children [[]] 0 = {}" by (auto simp: children_def)
  then have "trie_ok [[]] [new_node] []"
    by (simp add: trie_ok_def links_down_def new_node_def node_edges_def build_first_edge_def)
  then have "trie_holds lower {} [[]] [new_node] []"
    by (simp add: trie_holds_def new_node_def keys_at_def)
  from insert_keywords_ok [OF this assms [unfolded build_trie_def]] show ?thesis by auto
qed

section \<open>Failure links\<close>

abbreviation on_path :: "string list \<Rightarrow> string \<Rightarrow> bool" where
  "on_path paths \<equiv> \<lambda>w. w \<in> set paths"

text \<open>The keywords that end a string.\<close>

definition keys_in :: "(string \<Rightarrow> string) \<Rightarrow> (nat \<times> string) set \<Rightarrow> string \<Rightarrow> nat set" where
  "keys_in lower ks w = {k. \<exists>kw. (k, kw) \<in> ks \<and> kw \<noteq> [] \<and> suffix (lower kw) w}"

lemma keys_in_split:
  assumes "\<forall>(k, kw) \<in> ks. kw \<noteq> [] \<longrightarrow> lower kw \<in> set paths" "w \<noteq> []"
  shows "keys_in lower ks w = keys_at lower ks w \<union> keys_in lower ks (lsuf (on_path paths) (tl w))"
proof -
  obtain x xs where w: "w = x # xs" using assms(2) by (cases w) auto
  have "suffix (lower kw) xs \<longleftrightarrow> suffix (lower kw) (lsuf (on_path paths) xs)" if "(k, kw) \<in> ks" "kw \<noteq> []" for k kw
    using assms(1) that by (intro lsuf_suffix) auto
  then show ?thesis by (auto simp: keys_in_def keys_at_def w suffix_Cons)
qed

definition finished ::
  "(string \<Rightarrow> string) \<Rightarrow> (nat \<times> string) set \<Rightarrow> string list \<Rightarrow> kw_node list \<Rightarrow> nat \<Rightarrow> bool" where
  "finished lower ks paths nodes t \<longleftrightarrow> kn_failure (nodes ! t) < length nodes \<and>
     paths ! kn_failure (nodes ! t) = lsuf (on_path paths) (tl (paths ! t)) \<and>
     kn_best (nodes ! t) = least (keys_in lower ks (paths ! t))"

definition raw ::
  "(string \<Rightarrow> string) \<Rightarrow> (nat \<times> string) set \<Rightarrow> string list \<Rightarrow> kw_node list \<Rightarrow> nat \<Rightarrow> bool" where
  "raw lower ks paths nodes t \<longleftrightarrow> kn_failure (nodes ! t) = 0 \<and> kn_best (nodes ! t) = least (keys_at lower ks (paths ! t))"

text \<open>What linking needs: the trie, and every node up to a depth finished.\<close>

definition linked_to ::
  "(string \<Rightarrow> string) \<Rightarrow> (nat \<times> string) set \<Rightarrow> string list \<Rightarrow> kw_build_edge list \<Rightarrow> nat \<Rightarrow> kw_node list \<Rightarrow> bool" where
  "linked_to lower ks paths edges d nodes \<longleftrightarrow> trie_ok paths nodes edges \<and> finite ks \<and>
     (\<forall>(k, kw) \<in> ks. kw \<noteq> [] \<longrightarrow> lower kw \<in> set paths) \<and>
     (\<forall>u < length nodes. length (paths ! u) \<le> d \<longrightarrow> finished lower ks paths nodes u)"

lemma trie_closed: "trie_ok paths nodes edges \<Longrightarrow> w @ [c] \<in> set paths \<Longrightarrow> w \<in> set paths"
  unfolding trie_ok_def by blast

lemma find_fallback_ok:
  assumes l: "linked_to lower ks paths edges d nodes"
  shows "f < length nodes \<Longrightarrow> length (paths ! f) \<le> d \<Longrightarrow> length (paths ! f) \<le> fuel \<Longrightarrow>
    find_fallback fuel nodes edges f c =
      (if lsuf (on_path paths) (paths ! f @ [c]) = [] then None else trie_index paths (lsuf (on_path paths) (paths ! f @ [c])))"
proof (induction fuel arbitrary: f)
  case (0 f)
  have ok: "trie_ok paths nodes edges" using l by (simp add: linked_to_def)
  have "paths ! f = []" using 0 by simp
  with 0 ok have "f = 0" by (metis nth_eq_iff_index_eq trie_ok_def length_greater_0_conv)
  with 0 build_transition_ok [OF ok 0(1), of c] \<open>paths ! f = []\<close> show ?case
    by (subst find_fallback.simps) (cases "trie_index paths [c]"; auto simp: trie_index_def split: if_splits)
next
  case (Suc n f)
  have ok: "trie_ok paths nodes edges" using l by (simp add: linked_to_def)
  note tr = build_transition_ok [OF ok Suc.prems(1), of c]
  show ?case
  proof (cases "paths ! f @ [c] \<in> set paths")
    case True
    then show ?thesis
      using tr by (subst find_fallback.simps) (auto simp: lsuf_id trie_index_None split: option.split)
  next
    case False
    then have none: "trie_index paths (paths ! f @ [c]) = None" by (simp add: trie_index_None)
    show ?thesis
    proof (cases "f = 0")
      case True
      then have "paths ! f = []" using ok by (simp add: trie_ok_def)
      with True False tr none show ?thesis by (subst find_fallback.simps) simp
    next
      case f: False
      have "paths ! f \<noteq> paths ! 0" using ok f Suc.prems(1) by (metis nth_eq_iff_index_eq trie_ok_def length_greater_0_conv)
      then obtain x xs where p: "paths ! f = x # xs" using ok by (cases "paths ! f") (auto simp: trie_ok_def)
      let ?g = "kn_failure (nodes ! f)"
      have fin: "finished lower ks paths nodes f" using l Suc.prems by (simp add: linked_to_def)
      then have g: "?g < length nodes" "paths ! ?g = lsuf (on_path paths) xs" by (simp_all add: finished_def p)
      have "length (paths ! ?g) \<le> length xs" using g(2) length_lsuf by metis
      then have "length (paths ! ?g) \<le> d" "length (paths ! ?g) \<le> n" using Suc.prems p by auto
      from Suc.IH [OF g(1) this] have ih: "find_fallback n nodes edges ?g c =
          (if lsuf (on_path paths) (lsuf (on_path paths) xs @ [c]) = [] then None
           else trie_index paths (lsuf (on_path paths) (lsuf (on_path paths) xs @ [c])))" by (simp add: g(2))
      have "lsuf (on_path paths) (xs @ [c]) = lsuf (on_path paths) (lsuf (on_path paths) xs @ [c])"
        by (rule lsuf_snoc) (use trie_closed [OF ok] in blast)
      moreover have "lsuf (on_path paths) (paths ! f @ [c]) = lsuf (on_path paths) (xs @ [c])" using False p by simp
      ultimately show ?thesis
        using ih tr f none by (subst find_fallback.simps) simp
    qed
  qed
qed

lemma trie_ok_fields:
  assumes "trie_ok paths nodes edges" "length nodes' = length nodes"
    "\<And>i. i < length nodes \<Longrightarrow> kn_edge_start (nodes' ! i) = kn_edge_start (nodes ! i)"
  shows "trie_ok paths nodes' edges" "i < length nodes \<Longrightarrow> node_edges nodes' edges i = node_edges nodes edges i"
proof -
  have same: "node_edges nodes' edges i = node_edges nodes edges i" if "i < length nodes" for i
    using assms(3) [OF that] by (simp add: node_edges_def build_first_edge_def)
  then show "i < length nodes \<Longrightarrow> node_edges nodes' edges i = node_edges nodes edges i" .
  show "trie_ok paths nodes' edges" using assms same by (simp add: trie_ok_def)
qed

lemma root_on_path: "trie_ok paths nodes edges \<Longrightarrow> [] \<in> set paths"
proof -
  assume "trie_ok paths nodes edges"
  then have "0 < length paths" "paths ! 0 = []" by (auto simp: trie_ok_def)
  then show ?thesis using nth_mem by metis
qed

lemma prefixes_on_path: "trie_ok paths nodes edges \<Longrightarrow> w @ v \<in> set paths \<Longrightarrow> w \<in> set paths"
proof (induction v rule: rev_induct)
  case (snoc c v)
  then show ?case using trie_closed [of paths nodes edges "w @ v" c] by simp
qed simp

lemma depth_less:
  assumes "trie_ok paths nodes edges" "t < length nodes"
  shows "length (paths ! t) < length nodes"
proof -
  let ?w = "paths ! t"
  have len: "length paths = length nodes" "distinct paths" using assms(1) by (simp_all add: trie_ok_def)
  have "?w \<in> set paths" using assms(2) len by simp
  then have "take i ?w \<in> set paths" for i
    using prefixes_on_path [OF assms(1), of "take i ?w" "drop i ?w"] by simp
  then have "(\<lambda>i. take i ?w) ` {..length ?w} \<subseteq> set paths" by auto
  then have "card ((\<lambda>i. take i ?w) ` {..length ?w}) \<le> card (set paths)" by (intro card_mono) auto
  moreover have "inj_on (\<lambda>i. take i ?w) {..length ?w}"
    by (rule inj_onI) (metis atMost_iff length_take min.absorb2)
  ultimately show ?thesis using len by (simp add: card_image distinct_card)
qed

lemma child_of:
  assumes "trie_ok paths nodes edges" "s < length nodes" "e \<in> set (node_edges nodes edges s)"
  shows "be_target e < length nodes" "paths ! be_target e = paths ! s @ [be_label e]"
proof -
  have "(be_label e, be_target e) \<in> children paths s" using assms by (auto simp: trie_ok_def)
  then show "be_target e < length nodes" "paths ! be_target e = paths ! s @ [be_label e]"
    using assms(1) by (auto simp: children_def trie_ok_def)
qed

lemma link_edge_ok:
  assumes l: "linked_to lower ks paths edges d nodes" and s: "s < length nodes" "paths ! s \<noteq> []" "length (paths ! s) \<le> d"
    and t: "t = be_target e" "t < length nodes" "paths ! t = paths ! s @ [be_label e]" "d < length (paths ! t)"
    and raw: "raw lower ks paths nodes t"
    and n': "nodes' = link_edge edges s nodes e"
  shows "length nodes' = length nodes" "kn_edge_start (nodes' ! i) = kn_edge_start (nodes ! i)"
    "i \<noteq> t \<Longrightarrow> nodes' ! i = nodes ! i" "finished lower ks paths nodes' t"
proof -
  have ok: "trie_ok paths nodes edges" and fin: "finite ks"
    and keys: "\<forall>(k, kw) \<in> ks. kw \<noteq> [] \<longrightarrow> lower kw \<in> set paths"
    using l by (simp_all add: linked_to_def)
  let ?P = "on_path paths" and ?c = "be_label e" and ?f = "kn_failure (nodes ! s)"
  have f: "?f < length nodes" "paths ! ?f = lsuf ?P (tl (paths ! s))"
    using l s by (simp_all add: linked_to_def finished_def)
  have "length (paths ! ?f) \<le> length (tl (paths ! s))" unfolding f(2) by (rule length_lsuf)
  then have fd: "length (paths ! ?f) \<le> d" using s(3) by simp
  have fl: "length (paths ! ?f) \<le> length nodes" using depth_less [OF ok f(1)] by simp
  define w where "w = lsuf ?P (tl (paths ! t))"
  have "lsuf ?P (tl (paths ! s) @ [?c]) = lsuf ?P (lsuf ?P (tl (paths ! s)) @ [?c])"
    by (rule lsuf_snoc) (use trie_closed [OF ok] in blast)
  then have w: "w = lsuf ?P (paths ! ?f @ [?c])" using s(2) t(3) f(2) by (simp add: w_def)
  have fb: "find_fallback (length nodes) nodes edges ?f ?c = (if w = [] then None else trie_index paths w)"
    using find_fallback_ok [OF l f(1) fd fl, of ?c] w by simp
  have wP: "w \<in> set paths" unfolding w_def by (rule lsuf_P) (rule root_on_path [OF ok])
  have wd: "length w \<le> d" unfolding w_def using length_lsuf [of ?P "tl (paths ! t)"] t(3) s(3) by simp
  have p0: "paths ! 0 = []" "0 < length nodes" using ok by (auto simp: trie_ok_def)
  obtain g where g: "g < length nodes" "paths ! g = w" "g \<noteq> t"
    and n1: "(case find_fallback (length nodes) nodes edges ?f ?c of None \<Rightarrow> nodes
      | Some fallback \<Rightarrow> nodes[t := (nodes ! t)\<lparr>kn_failure := fallback\<rparr>]) = nodes[t := (nodes ! t)\<lparr>kn_failure := g\<rparr>]"
  proof (cases "w = []")
    case True
    have "(nodes ! t)\<lparr>kn_failure := 0\<rparr> = nodes ! t" using raw by (cases "nodes ! t") (simp add: raw_def)
    then have "nodes[t := (nodes ! t)\<lparr>kn_failure := 0\<rparr>] = nodes" by (metis list_update_id)
    then show ?thesis using that [of 0] True p0 fb t(4) by (cases t) auto
  next
    case False
    then obtain g where "trie_index paths w = Some g" using wP by (cases "trie_index paths w") (auto simp: trie_index_None)
    moreover from this have "g < length nodes" "paths ! g = w" using ok by (auto simp: trie_index_Some trie_ok_def)
    moreover from this have "g \<noteq> t" using wd t(4) by auto
    ultimately show ?thesis using that [of g] False fb by simp
  qed
  have gf: "finished lower ks paths nodes g" using l g wd by (simp add: linked_to_def)
  have r: "nodes' = nodes[t := (nodes ! t)\<lparr>kn_failure := g, kn_best := min_keyword_index (kn_best (nodes ! t)) (kn_best (nodes ! g))\<rparr>]"
    unfolding n' link_edge_def Let_def t(1) [symmetric] n1 using t(2) g(3) by simp
  show "length nodes' = length nodes" by (simp add: r)
  show "i \<noteq> t \<Longrightarrow> nodes' ! i = nodes ! i" by (simp add: r)
  show "kn_edge_start (nodes' ! i) = kn_edge_start (nodes ! i)" using t(2) by (cases "i = t") (simp_all add: r)
  have "keys_in lower ks (paths ! t) = keys_at lower ks (paths ! t) \<union> keys_in lower ks w"
    unfolding w_def using keys_in_split [OF keys] t(3) by simp
  moreover have "finite (keys_in lower ks v)" for v
    by (rule finite_subset [of _ "fst ` ks"]) (use fin in \<open>force simp: keys_in_def\<close>)+
  ultimately have "min_keyword_index (kn_best (nodes ! t)) (kn_best (nodes ! g)) = least (keys_in lower ks (paths ! t))"
    using raw gf g(2) min_least finite_keys_at [OF fin] by (simp add: raw_def finished_def)
  then show "finished lower ks paths nodes' t" using t(2) g by (simp add: finished_def r w_def)
qed

lemma finished_same:
  "length nodes' = length nodes \<Longrightarrow> nodes' ! u = nodes ! u \<Longrightarrow> finished lower ks paths nodes' u = finished lower ks paths nodes u"
  by (simp add: finished_def)

lemma link_edges_ok:
  assumes "linked_to lower ks paths edges d nodes" "s < length nodes" "paths ! s \<noteq> []" "length (paths ! s) = d"
    and "\<forall>e \<in> set es. be_target e < length nodes \<and> paths ! be_target e = paths ! s @ [be_label e] \<and> raw lower ks paths nodes (be_target e)"
    and "distinct (map be_target es)"
  shows "length (foldl (link_edge edges s) nodes es) = length nodes \<and>
    (\<forall>i. kn_edge_start (foldl (link_edge edges s) nodes es ! i) = kn_edge_start (nodes ! i)) \<and>
    (\<forall>i. i \<notin> be_target ` set es \<longrightarrow> foldl (link_edge edges s) nodes es ! i = nodes ! i) \<and>
    (\<forall>e \<in> set es. finished lower ks paths (foldl (link_edge edges s) nodes es) (be_target e))"
  using assms
proof (induction es arbitrary: nodes)
  case (Cons e es)
  let ?n1 = "link_edge edges s nodes e" and ?t = "be_target e"
  have t: "?t < length nodes" "paths ! ?t = paths ! s @ [be_label e]" "d < length (paths ! ?t)" "raw lower ks paths nodes ?t"
    using Cons.prems by auto
  note l = link_edge_ok [OF Cons.prems(1-3) eq_refl [OF Cons.prems(4)] refl t refl]
  have l1: "linked_to lower ks paths edges d ?n1"
    unfolding linked_to_def
  proof (intro conjI allI impI)
    have "trie_ok paths nodes edges" using Cons.prems(1) by (simp add: linked_to_def)
    then show "trie_ok paths ?n1 edges" by (rule trie_ok_fields(1)) (rule l(1), rule l(2))
  next
    fix u assume u: "u < length ?n1" "length (paths ! u) \<le> d"
    then have "u \<noteq> ?t" using t(3) by auto
    with l(3) u l(1) Cons.prems(1) show "finished lower ks paths ?n1 u"
      using finished_same [of ?n1 nodes u] by (simp add: linked_to_def)
  qed (use Cons.prems(1) in \<open>simp_all add: linked_to_def\<close>)
  have "\<forall>e' \<in> set es. be_target e' < length ?n1 \<and> paths ! be_target e' = paths ! s @ [be_label e'] \<and> raw lower ks paths ?n1 (be_target e')"
  proof
    fix e' assume "e' \<in> set es"
    then have "be_target e' \<in> be_target ` set es" by simp
    then have "be_target e' \<noteq> ?t" using Cons.prems(6) by auto
    moreover have "raw lower ks paths nodes (be_target e')" using Cons.prems(5) \<open>e' \<in> set es\<close> by simp
    ultimately show "be_target e' < length ?n1 \<and> paths ! be_target e' = paths ! s @ [be_label e'] \<and> raw lower ks paths ?n1 (be_target e')"
      using Cons.prems(5) \<open>e' \<in> set es\<close> l(1,3) by (simp add: raw_def)
  qed
  from Cons.IH [OF l1 _ Cons.prems(3,4) this] Cons.prems(2,6) l(1)
  have ih: "length (foldl (link_edge edges s) ?n1 es) = length nodes"
    "\<forall>i. kn_edge_start (foldl (link_edge edges s) ?n1 es ! i) = kn_edge_start (?n1 ! i)"
    "\<forall>i. i \<notin> be_target ` set es \<longrightarrow> foldl (link_edge edges s) ?n1 es ! i = ?n1 ! i"
    "\<forall>e \<in> set es. finished lower ks paths (foldl (link_edge edges s) ?n1 es) (be_target e)" by simp_all
  have "?t \<notin> be_target ` set es" using Cons.prems(6) by auto
  then have "finished lower ks paths (foldl (link_edge edges s) ?n1 es) ?t"
    using ih(1,3) l(1,4) finished_same [of "foldl (link_edge edges s) ?n1 es" ?n1 ?t] by simp
  with ih l(2,3) show ?case by simp
qed simp

section \<open>Breadth first\<close>

text \<open>
  The nodes taken from the queue and the queue together are the nodes reached: the children of the
  root and of the nodes taken, in the order of their depth. Exactly they are finished.
\<close>

definition bfs_inv ::
  "(string \<Rightarrow> string) \<Rightarrow> (nat \<times> string) set \<Rightarrow> string list \<Rightarrow> kw_build_edge list \<Rightarrow> nat list \<Rightarrow> nat list \<Rightarrow> kw_node list \<Rightarrow> bool" where
  "bfs_inv lower ks paths edges taken queue nodes \<longleftrightarrow> trie_ok paths nodes edges \<and> finite ks \<and>
     (\<forall>(k, kw) \<in> ks. kw \<noteq> [] \<longrightarrow> lower kw \<in> set paths) \<and>
     distinct (taken @ queue) \<and> 0 \<notin> set (taken @ queue) \<and>
     (\<forall>t. t \<in> set (taken @ queue) \<longleftrightarrow> (\<exists>p c. (p = 0 \<or> p \<in> set taken) \<and> (c, t) \<in> children paths p)) \<and>
     sorted (map (\<lambda>t. length (paths ! t)) (taken @ queue)) \<and>
     (\<forall>q \<in> set queue. length (paths ! q) \<le> Suc (length (paths ! hd queue))) \<and>
     (\<forall>t < length nodes. if t = 0 \<or> t \<in> set (taken @ queue) then finished lower ks paths nodes t else raw lower ks paths nodes t)"

text \<open>Every node that is not deeper than the head of the queue has been reached.\<close>

lemma bfs_complete:
  assumes inv: "bfs_inv lower ks paths edges taken queue nodes"
  shows "u < length nodes \<Longrightarrow> u \<noteq> 0 \<Longrightarrow> (queue \<noteq> [] \<Longrightarrow> length (paths ! u) \<le> length (paths ! hd queue)) \<Longrightarrow> u \<in> set (taken @ queue)"
proof (induction "length (paths ! u)" arbitrary: u rule: less_induct)
  case less
  have ok: "trie_ok paths nodes edges" using inv by (simp add: bfs_inv_def)
  have len: "length paths = length nodes" "distinct paths" "paths ! 0 = []" "0 < length nodes" using ok by (auto simp: trie_ok_def)
  have "paths ! u \<noteq> []" using less.prems len by (metis nth_eq_iff_index_eq)
  then obtain w c where w: "paths ! u = w @ [c]" by (metis rev_exhaust)
  have "w \<in> set paths" using trie_closed [OF ok, of w c] w less.prems(1) len by (metis nth_mem)
  then obtain p where p: "p < length nodes" "paths ! p = w" using len by (metis in_set_conv_nth)
  have "p = 0 \<or> p \<in> set taken"
  proof (cases "p = 0")
    case False
    have "length (paths ! p) < length (paths ! u)" using w p by simp
    with less.hyps [OF this p(1) False] less.prems(3) have in': "p \<in> set (taken @ queue)" by fastforce
    have "p \<notin> set queue"
    proof
      assume q: "p \<in> set queue"
      then have "queue \<noteq> []" by auto
      then have "length (paths ! hd queue) \<le> length (paths ! p)"
        using inv q by (cases queue) (auto simp: bfs_inv_def sorted_append)
      with less.prems(3) \<open>queue \<noteq> []\<close> \<open>length (paths ! p) < length (paths ! u)\<close> show False by simp
    qed
    with in' show ?thesis by simp
  qed simp
  moreover have "(c, u) \<in> children paths p" using less.prems(1) len w p by (simp add: children_def)
  ultimately show ?case using inv unfolding bfs_inv_def by blast
qed

lemma targets_distinct:
  assumes ok: "trie_ok paths nodes edges" and s: "s < length nodes"
  shows "distinct (map be_target (node_edges nodes edges s))"
proof -
  let ?es = "node_edges nodes edges s"
  have labels: "distinct (map be_label ?es)" using ok s by (simp add: trie_ok_def)
  have "inj_on be_target (set ?es)"
  proof (rule inj_onI)
    fix x y assume xy: "x \<in> set ?es" "y \<in> set ?es" "be_target x = be_target y"
    then have "be_label x = be_label y"
      using child_of(2) [OF ok s xy(1)] child_of(2) [OF ok s xy(2)] by simp
    with labels xy show "x = y" by (simp add: distinct_map inj_on_def)
  qed
  with labels show ?thesis by (simp add: distinct_map)
qed

lemma map_const_on: "(\<And>x. x \<in> set xs \<Longrightarrow> f x = c) \<Longrightarrow> map f xs = replicate (length xs) c"
  by (induction xs) auto

text \<open>The nodes below the root start the queue: their failure link is the root.\<close>

lemma bfs_start:
  assumes h: "trie_holds lower ks paths nodes edges" and low: "keys_at lower ks [] = {}"
  shows "bfs_inv lower ks paths edges [] (map be_target (node_edges nodes edges 0)) nodes"
proof -
  have ok: "trie_ok paths nodes edges" using h by (simp add: trie_holds_def)
  have len: "length paths = length nodes" "distinct paths" "paths ! 0 = []" "0 < length nodes" using ok by (auto simp: trie_ok_def)
  let ?es = "node_edges nodes edges 0"
  let ?q = "map be_target ?es"
  have kids: "(\<lambda>e. (be_label e, be_target e)) ` set ?es = children paths 0" "distinct (map be_label ?es)"
    using ok len(4) by (simp_all add: trie_ok_def)
  have one: "paths ! be_target e = [be_label e]" "be_target e < length nodes" if "e \<in> set ?es" for e
    using child_of [OF ok len(4) that] len(3) by simp_all
  have dist: "distinct ?q" by (rule targets_distinct [OF ok len(4)])
  have mem: "t \<in> set ?q \<longleftrightarrow> (\<exists>p c. (p = 0 \<or> p \<in> set []) \<and> (c, t) \<in> children paths p)" for t
  proof -
    have "t \<in> set ?q \<longleftrightarrow> (\<exists>c. (c, t) \<in> (\<lambda>e. (be_label e, be_target e)) ` set ?es)" by auto
    then show ?thesis unfolding kids(1) by simp
  qed
  have root: "0 \<notin> set ?q"
  proof
    assume "0 \<in> set ?q"
    then obtain e where "e \<in> set ?es" "be_target e = 0" by auto
    with one(1) [of e] len(3) show False by simp
  qed
  have depth: "length (paths ! t) = 1" if "t \<in> set ?q" for t using that one(1) by auto
  have srt: "sorted (map (\<lambda>t. length (paths ! t)) ?q)"
  proof -
    have "map (\<lambda>t. length (paths ! t)) ?q = replicate (length ?q) 1" by (rule map_const_on) (use depth in auto)
    then show ?thesis by simp
  qed
  have fin: "finished lower ks paths nodes t" if t: "t < length nodes" "t = 0 \<or> t \<in> set ?q" for t
  proof -
    have b: "kn_best (nodes ! t) = least (keys_at lower ks (paths ! t))" "kn_failure (nodes ! t) = 0"
      using h t by (simp_all add: trie_holds_def)
    have e: "keys_in lower ks [] = {}" using low by (auto simp: keys_in_def keys_at_def)
    have s: "paths ! t = [] \<or> (\<exists>c. paths ! t = [c])" using t(2) len(3) one(1) by auto
    then have "keys_in lower ks (paths ! t) = keys_at lower ks (paths ! t)"
      using low e by (elim disjE exE) (fastforce simp: keys_in_def keys_at_def suffix_Cons)+
    with s b len show ?thesis by (auto simp: finished_def)
  qed
  have "raw lower ks paths nodes t" if "t < length nodes" for t using h that by (simp add: trie_holds_def raw_def)
  with fin have each: "\<forall>t < length nodes. if t = 0 \<or> t \<in> set ([] @ ?q) then finished lower ks paths nodes t else raw lower ks paths nodes t"
    by simp
  have near: "\<forall>q \<in> set ?q. length (paths ! q) \<le> Suc (length (paths ! hd ?q))"
    using depth by simp
  show ?thesis
    unfolding bfs_inv_def using ok h dist root srt each near mem by (simp add: trie_holds_def)
qed

text \<open>Taking one node from the queue links its children and appends them.\<close>

lemma bfs_step:
  assumes inv: "bfs_inv lower ks paths edges taken (s # queue) nodes"
    and nodes': "nodes' = foldl (link_edge edges s) nodes (node_edges nodes edges s)"
  shows "bfs_inv lower ks paths edges (taken @ [s]) (queue @ map be_target (node_edges nodes edges s)) nodes'"
    "length nodes' = length nodes"
proof -
  have ok: "trie_ok paths nodes edges" and fin: "finite ks"
    and keys: "\<forall>(k, kw) \<in> ks. kw \<noteq> [] \<longrightarrow> lower kw \<in> set paths"
    and dist: "distinct (taken @ s # queue)" and root: "0 \<notin> set (taken @ s # queue)"
    and mem: "\<And>t. t \<in> set (taken @ s # queue) \<longleftrightarrow> (\<exists>p c. (p = 0 \<or> p \<in> set taken) \<and> (c, t) \<in> children paths p)"
    and srt: "sorted (map (\<lambda>t. length (paths ! t)) (taken @ s # queue))"
    and near: "\<And>q. q \<in> set queue \<Longrightarrow> length (paths ! q) \<le> Suc (length (paths ! s))"
    and each: "\<And>t. t < length nodes \<Longrightarrow>
      if t = 0 \<or> t \<in> set (taken @ s # queue) then finished lower ks paths nodes t else raw lower ks paths nodes t"
    using inv unfolding bfs_inv_def by simp_all
  have len: "length paths = length nodes" "distinct paths" "paths ! 0 = []" "0 < length nodes" using ok by (auto simp: trie_ok_def)
  have in_range: "t < length nodes" if "t \<in> set (taken @ s # queue)" for t
    using mem [of t] that len(1) by (auto simp: children_def)
  have s: "s < length nodes" "s \<noteq> 0" using in_range root by auto
  have ps: "paths ! s \<noteq> []" using s len by (metis nth_eq_iff_index_eq)
  let ?es = "node_edges nodes edges s"
  let ?new = "map be_target ?es"
  have kids: "(\<lambda>e. (be_label e, be_target e)) ` set ?es = children paths s" "distinct (map be_label ?es)"
    using ok s(1) by (simp_all add: trie_ok_def)
  note one = child_of [OF ok s(1)]
  have unreached: "t \<notin> set (taken @ s # queue)" "t \<noteq> 0" if t: "t \<in> set ?new" for t
  proof -
    obtain e where e: "e \<in> set ?es" "be_target e = t" using t by auto
    note p = one [OF e(1), unfolded e(2)]
    show "t \<noteq> 0" using p(2) len(3) by (cases "t = 0") auto
    show "t \<notin> set (taken @ s # queue)"
    proof
      assume "t \<in> set (taken @ s # queue)"
      then obtain q c where q: "q = 0 \<or> q \<in> set taken" "(c, t) \<in> children paths q" using mem by blast
      have "q < length nodes" using q(1) in_range len(4) by auto
      moreover have "paths ! q = paths ! s" using q(2) p(2) by (simp add: children_def)
      ultimately have "q = s" using s(1) len by (metis nth_eq_iff_index_eq)
      with q(1) s(2) dist show False by auto
    qed
  qed
  have new_dist: "distinct ?new" by (rule targets_distinct [OF ok s(1)])
  have l: "linked_to lower ks paths edges (length (paths ! s)) nodes"
    unfolding linked_to_def
  proof (intro conjI allI impI)
    fix u assume u: "u < length nodes" "length (paths ! u) \<le> length (paths ! s)"
    have "u = 0 \<or> u \<in> set (taken @ s # queue)"
      using bfs_complete [OF inv u(1)] u(2) by auto
    with each [OF u(1)] show "finished lower ks paths nodes u" by simp
  qed (use ok fin keys in auto)
  have raws: "\<forall>e \<in> set ?es. be_target e < length nodes \<and> paths ! be_target e = paths ! s @ [be_label e] \<and> raw lower ks paths nodes (be_target e)"
  proof
    fix e assume e: "e \<in> set ?es"
    then have "be_target e \<in> set ?new" by simp
    from unreached [OF this] each [OF one(1) [OF e]] one [OF e]
    show "be_target e < length nodes \<and> paths ! be_target e = paths ! s @ [be_label e] \<and> raw lower ks paths nodes (be_target e)" by auto
  qed
  from link_edges_ok [OF l s(1) ps refl raws new_dist, folded nodes']
  have r: "length nodes' = length nodes" "\<And>i. kn_edge_start (nodes' ! i) = kn_edge_start (nodes ! i)"
    "\<And>i. i \<notin> set ?new \<Longrightarrow> nodes' ! i = nodes ! i"
    "\<And>t. t \<in> set ?new \<Longrightarrow> finished lower ks paths nodes' t" by auto
  show "length nodes' = length nodes" by (rule r(1))
  have ok': "trie_ok paths nodes' edges" by (rule trie_ok_fields(1) [OF ok r(1,2)])
  have mem': "t \<in> set ((taken @ [s]) @ queue @ ?new) \<longleftrightarrow> (\<exists>p c. (p = 0 \<or> p \<in> set (taken @ [s])) \<and> (c, t) \<in> children paths p)" for t
  proof -
    have "t \<in> set ?new \<longleftrightarrow> (\<exists>c. (c, t) \<in> (\<lambda>e. (be_label e, be_target e)) ` set ?es)" by auto
    then have "t \<in> set ?new \<longleftrightarrow> (\<exists>c. (c, t) \<in> children paths s)" unfolding kids(1) .
    with mem [of t] show ?thesis by auto
  qed
  have new_depth: "length (paths ! t) = Suc (length (paths ! s))" if "t \<in> set ?new" for t using that one(2) by auto
  have srt': "sorted (map (\<lambda>t. length (paths ! t)) ((taken @ [s]) @ queue @ ?new))"
  proof -
    have new: "map (\<lambda>t. length (paths ! t)) ?new = replicate (length ?new) (Suc (length (paths ! s)))"
      by (rule map_const_on) (use new_depth in auto)
    have before: "length (paths ! q) \<le> Suc (length (paths ! s))" if "q \<in> set (taken @ s # queue)" for q
      using that near [of q] srt by (auto simp: sorted_append)
    have "sorted (map (\<lambda>t. length (paths ! t)) (taken @ s # queue) @ map (\<lambda>t. length (paths ! t)) ?new)"
      unfolding sorted_append using srt new before new_depth by auto
    then show ?thesis by simp
  qed
  have near': "\<forall>q \<in> set (queue @ ?new). length (paths ! q) \<le> Suc (length (paths ! hd (queue @ ?new)))"
  proof
    fix q assume q: "q \<in> set (queue @ ?new)"
    then have "hd (queue @ ?new) \<in> set (queue @ ?new)" by (intro hd_in_set) auto
    moreover have "length (paths ! s) \<le> length (paths ! u)" if "u \<in> set (queue @ ?new)" for u
      using that srt new_depth by (auto simp: sorted_append)
    ultimately have "length (paths ! s) \<le> length (paths ! hd (queue @ ?new))" by blast
    with q near new_depth show "length (paths ! q) \<le> Suc (length (paths ! hd (queue @ ?new)))" by fastforce
  qed
  have each': "\<forall>t < length nodes'. if t = 0 \<or> t \<in> set ((taken @ [s]) @ queue @ ?new)
      then finished lower ks paths nodes' t else raw lower ks paths nodes' t"
  proof (intro allI impI)
    fix t assume t: "t < length nodes'"
    show "if t = 0 \<or> t \<in> set ((taken @ [s]) @ queue @ ?new) then finished lower ks paths nodes' t else raw lower ks paths nodes' t"
    proof (cases "t \<in> set ?new")
      case True
      with r(4) show ?thesis by simp
    next
      case False
      note same = r(3) [OF False]
      have "raw lower ks paths nodes' t = raw lower ks paths nodes t" by (simp add: raw_def same)
      with finished_same [OF r(1) same] each [of t] t r(1) False show ?thesis by simp
    qed
  qed
  have "distinct ((taken @ [s]) @ queue @ ?new)" using dist new_dist unreached(1) by auto
  moreover have "0 \<notin> set ((taken @ [s]) @ queue @ ?new)" using root unreached(2) by auto
  ultimately show "bfs_inv lower ks paths edges (taken @ [s]) (queue @ ?new) nodes'"
    unfolding bfs_inv_def using ok' fin keys mem' srt' near' each' by (intro conjI) blast+
qed

lemma bfs_finished:
  "bfs_inv lower ks paths edges taken queue nodes \<Longrightarrow> t < length nodes \<Longrightarrow> t = 0 \<or> t \<in> set (taken @ queue) \<Longrightarrow>
    finished lower ks paths nodes t"
  unfolding bfs_inv_def by presburger

text \<open>The queue runs empty before the fuel does, since a node is taken once.\<close>

lemma link_queue_ok:
  assumes "bfs_inv lower ks paths edges taken queue nodes" "length nodes \<le> fuel + length taken + 1"
  shows "trie_ok paths (link_queue fuel edges queue nodes) edges \<and>
    length (link_queue fuel edges queue nodes) = length nodes \<and>
    (\<forall>t < length nodes. finished lower ks paths (link_queue fuel edges queue nodes) t)"
  using assms
proof (induction fuel edges queue nodes arbitrary: taken rule: link_queue.induct)
  case (1 edges queue nodes)
  have rng: "t < length nodes - 1 + 1" if "t \<in> set (taken @ queue)" for t
    using 1(1) that unfolding bfs_inv_def by (auto simp: children_def trie_ok_def)
  have ok: "trie_ok paths nodes edges" using 1(1) by (simp add: bfs_inv_def)
  then have pos: "0 < length nodes" by (auto simp: trie_ok_def)
  have d: "distinct (taken @ queue)" "0 \<notin> set (taken @ queue)" using 1(1) by (simp_all add: bfs_inv_def)
  have sub: "set (taken @ queue) \<subseteq> {1..<length nodes}"
  proof
    fix t assume t: "t \<in> set (taken @ queue)"
    with d(2) have "t \<noteq> 0" by metis
    with rng [OF t] pos show "t \<in> {1..<length nodes}" by simp
  qed
  have "length (taken @ queue) \<le> length nodes - 1"
    using card_mono [OF _ sub] d(1) by (simp add: distinct_card del: set_append)
  then have "length taken + length queue \<le> length nodes - 1" by simp
  moreover have "length nodes - 1 \<le> length taken" using 1(2) by simp
  ultimately have "length queue = 0" and t: "length taken = length nodes - 1" by linarith+
  then have q: "queue = []" by simp
  have "set taken = {1..<length nodes}"
    by (rule card_subset_eq) (use sub d(1) q t distinct_card [of taken] in auto)
  then have all: "t = 0 \<or> t \<in> set (taken @ queue)" if "t < length nodes" for t using that by auto
  have "finished lower ks paths nodes t" if "t < length nodes" for t
    by (rule bfs_finished [OF 1(1) that all [OF that]])
  with ok show ?case by simp
next
  case (2 n edges nodes)
  have ok: "trie_ok paths nodes edges" using 2(1) by (simp add: bfs_inv_def)
  have "finished lower ks paths nodes t" if "t < length nodes" for t
    by (rule bfs_finished [OF 2(1) that]) (use bfs_complete [OF 2(1) that] in blast)
  with ok show ?case by simp
next
  case (3 n edges s queue nodes)
  note st = bfs_step [OF 3(2) refl]
  from 3(1) [OF refl st(1)] st(2) 3(3) show ?case by (simp add: Let_def)
qed

end
