(* ===== verification/Keyword_Search.thy ===== *)
theory Keyword_Search
  imports Keyword_Correct
begin

text \<open>
  The finished matcher: the sorted edge arrays and the root table answer like the trie, a step of the
  search follows the longest suffix of the text that is a path, and the result of a match is the
  first keyword of the list that occurs in the text.
\<close>

section \<open>Sorted edges\<close>

abbreviation label_desc :: "kw_edge \<Rightarrow> kw_edge \<Rightarrow> bool" where
  "label_desc a b \<equiv> label_less (ke_label b) (ke_label a)"

lemma set_move_left: "set (move_left e xs) = insert e (set xs)"
  by (induction xs) auto

lemma label_less_linear: "a \<noteq> b \<Longrightarrow> \<not> label_less a b \<Longrightarrow> label_less b a"
  unfolding label_less_def using inj_on_eq_iff [OF inj_on_subset [OF inj_of_char], of UNIV a b] by (metis linorder_neqE_nat of_char_eq_iff)

lemma move_left_desc:
  "sorted_wrt label_desc xs \<Longrightarrow> ke_label e \<notin> ke_label ` set xs \<Longrightarrow> sorted_wrt label_desc (move_left e xs)"
proof (induction xs)
  case (Cons x xs)
  have "label_less (ke_label x) (ke_label e)" if "\<not> label_less (ke_label e) (ke_label x)"
    using that Cons.prems(2) label_less_linear by auto
  then show ?case
    using Cons by (auto simp: set_move_left label_less_def intro: less_trans)
qed simp

lemma desc_distinct: "sorted_wrt label_desc xs \<Longrightarrow> distinct (map ke_label xs)"
  by (induction xs) (auto simp: label_less_def)

lemma sort_edges_fold:
  assumes "sorted_wrt label_desc acc" "distinct (map ke_label (acc @ es))"
  shows "set (foldl (\<lambda>sorted_before e. move_left e sorted_before) acc es) = set acc \<union> set es \<and>
    sorted_wrt label_desc (foldl (\<lambda>sorted_before e. move_left e sorted_before) acc es)"
  using assms
proof (induction es arbitrary: acc)
  case (Cons e es)
  have "ke_label e \<notin> ke_label ` set acc" using Cons.prems(2) by auto
  with Cons.prems(1) have s: "sorted_wrt label_desc (move_left e acc)" by (rule move_left_desc)
  note lab = desc_distinct [OF s]
  with Cons.prems(2) have "distinct (map ke_label (move_left e acc @ es))" by (auto simp: set_move_left)
  from Cons.IH [OF s this] show ?case by (auto simp: set_move_left)
qed simp

lemma sort_edges_ok:
  assumes "distinct (map ke_label es)"
  shows "set (sort_edges es) = set es" "sorted_wrt (\<lambda>a b. label_less (ke_label a) (ke_label b)) (sort_edges es)"
  using sort_edges_fold [of "[]" es] assms by (simp_all add: sort_edges_def sorted_wrt_rev)

section \<open>Binary search\<close>

lemma edge_search_ok:
  assumes "left \<le> right"
    and "\<And>i j. left \<le> i \<Longrightarrow> i < j \<Longrightarrow> j < right \<Longrightarrow> label_less (ke_label (edges ! i)) (ke_label (edges ! j))"
  shows "left \<le> edge_search edges c left right \<and> edge_search edges c left right \<le> right \<and>
    (\<forall>i. left \<le> i \<and> i < edge_search edges c left right \<longrightarrow> label_less (ke_label (edges ! i)) c) \<and>
    (\<forall>i. edge_search edges c left right \<le> i \<and> i < right \<longrightarrow> \<not> label_less (ke_label (edges ! i)) c)"
  using assms
proof (induction edges c left right rule: edge_search.induct)
  case (1 edges c left right)
  show ?case
  proof (cases "left < right")
    case False
    then have "edge_search edges c left right = left" by (subst edge_search.simps) simp
    with False 1(3) show ?thesis by auto
  next
    case True
    define m where "m = left + (right - left) div 2"
    have m: "left \<le> m" "m < right" using True by (auto simp: m_def)
    note srt = 1(4)
    show ?thesis
    proof (cases "label_less (ke_label (edges ! m)) c")
      case less: True
      have r: "edge_search edges c left right = edge_search edges c (m + 1) right"
        using True less by (subst edge_search.simps) (simp add: m_def Let_def)
      have "m + 1 \<le> right" using m by simp
      from 1(1) [OF True m_def less this] srt m
      have ih: "m + 1 \<le> edge_search edges c (m + 1) right" "edge_search edges c (m + 1) right \<le> right"
        "\<And>i. m + 1 \<le> i \<Longrightarrow> i < edge_search edges c (m + 1) right \<Longrightarrow> label_less (ke_label (edges ! i)) c"
        "\<And>i. edge_search edges c (m + 1) right \<le> i \<Longrightarrow> i < right \<Longrightarrow> \<not> label_less (ke_label (edges ! i)) c" by auto
      have "label_less (ke_label (edges ! i)) c" if "left \<le> i" "i < m" for i
        using srt [OF that m(2)] less by (auto simp: label_less_def)
      with less ih show ?thesis unfolding r by (metis Suc_eq_plus1 dual_order.trans le_add1 linorder_neqE_nat m(1) not_less_eq_eq order_le_less)
    next
      case less: False
      have r: "edge_search edges c left right = edge_search edges c left m"
        using True less by (subst edge_search.simps) (simp add: m_def Let_def)
      from 1(2) [OF True m_def less m(1)] srt m
      have ih: "left \<le> edge_search edges c left m" "edge_search edges c left m \<le> m"
        "\<And>i. left \<le> i \<Longrightarrow> i < edge_search edges c left m \<Longrightarrow> label_less (ke_label (edges ! i)) c"
        "\<And>i. edge_search edges c left m \<le> i \<Longrightarrow> i < m \<Longrightarrow> \<not> label_less (ke_label (edges ! i)) c" by auto
      have up: "\<not> label_less (ke_label (edges ! i)) c" if "m < i" "i < right" for i
        using srt [OF m(1) that] less by (auto simp: label_less_def)
      have "\<not> label_less (ke_label (edges ! i)) c" if "edge_search edges c left m \<le> i" "i < right" for i
        using ih(4) [OF that(1)] less up [of i] that(2) by (cases i m rule: linorder_cases) auto
      with ih m show ?thesis unfolding r by auto
    qed
  qed
qed

section \<open>The layout\<close>

abbreviation start_of :: "kw_build_edge list \<Rightarrow> kw_node list \<Rightarrow> nat \<Rightarrow> nat" where
  "start_of edges nodes i \<equiv> length (concat (map (outgoing_edges nodes edges) [0..<i]))"

lemma layout_fold:
  assumes "k \<le> length nodes" "foldl (layout_node edges) (nodes, []) [0..<k] = (nodes', out)"
  shows "out = concat (map (outgoing_edges nodes edges) [0..<k]) \<and> length nodes' = length nodes \<and>
    (\<forall>i < length nodes. nodes' ! i = (if i < k then (nodes ! i)\<lparr>kn_edge_start := start_of edges nodes i,
       kn_edge_count := length (outgoing_edges nodes edges i)\<rparr> else nodes ! i))"
  using assms
proof (induction k arbitrary: nodes' out)
  case (Suc k)
  obtain n1 o1 where step: "foldl (layout_node edges) (nodes, []) [0..<k] = (n1, o1)" by (metis prod.exhaust)
  have ih: "o1 = concat (map (outgoing_edges nodes edges) [0..<k])" "length n1 = length nodes"
    "\<And>i. i < length nodes \<Longrightarrow> n1 ! i = (if i < k then (nodes ! i)\<lparr>kn_edge_start := start_of edges nodes i,
       kn_edge_count := length (outgoing_edges nodes edges i)\<rparr> else nodes ! i)"
    using Suc.IH [OF _ step] Suc.prems(1) by auto
  have k: "n1 ! k = nodes ! k" using ih(3) [of k] Suc.prems(1) by simp
  then have same: "outgoing_edges n1 edges k = outgoing_edges nodes edges k"
    by (simp add: outgoing_edges_def node_edges_def)
  have "layout_node edges (n1, o1) k = (nodes', out)" using Suc.prems(2) step by simp
  then have r: "out = o1 @ outgoing_edges nodes edges k"
    "nodes' = n1[k := (nodes ! k)\<lparr>kn_edge_start := length o1, kn_edge_count := length (outgoing_edges nodes edges k)\<rparr>]"
    by (auto simp: Let_def same k)
  show ?case using ih Suc.prems(1) by (auto simp: r less_Suc_eq nth_list_update)
qed simp

lemma slice_nth:
  assumes "i < n" "j < length (f i)"
  shows "concat (map f [0..<n]) ! (length (concat (map f [0..<i])) + j) = f i ! j"
    "length (concat (map f [0..<i])) + length (f i) \<le> length (concat (map f [0..<n]))"
proof -
  have "[0..<n] = [0..<i] @ i # [Suc i..<n]"
    using assms(1) upt_add_eq_append [of 0 i "n - i"] upt_conv_Cons [of i n] by simp
  then have r: "concat (map f [0..<n]) = concat (map f [0..<i]) @ f i @ concat (map f [Suc i..<n])" by simp
  show "concat (map f [0..<n]) ! (length (concat (map f [0..<i])) + j) = f i ! j"
    unfolding r using assms(2) by (simp add: nth_append)
  show "length (concat (map f [0..<i])) + length (f i) \<le> length (concat (map f [0..<n]))"
    unfolding r by simp
qed

text \<open>The edges of a node in the final layout are a sorted slice with the children of the node.\<close>

lemma outgoing_edges_ok:
  assumes ok: "trie_ok paths nodes edges" and s: "s < length nodes"
  shows "(\<lambda>e. (ke_label e, ke_target e)) ` set (outgoing_edges nodes edges s) = children paths s"
    "sorted_wrt (\<lambda>a b. label_less (ke_label a) (ke_label b)) (outgoing_edges nodes edges s)"
proof -
  let ?es = "map (\<lambda>e. \<lparr>ke_target = be_target e, ke_label = be_label e\<rparr>) (node_edges nodes edges s)"
  have kids: "(\<lambda>e. (be_label e, be_target e)) ` set (node_edges nodes edges s) = children paths s"
    "distinct (map be_label (node_edges nodes edges s))"
    using ok s by (simp_all add: trie_ok_def)
  have "map ke_label ?es = map be_label (node_edges nodes edges s)" by (simp add: comp_def)
  with kids(2) have d: "distinct (map ke_label ?es)" by (simp only:)
  show "sorted_wrt (\<lambda>a b. label_less (ke_label a) (ke_label b)) (outgoing_edges nodes edges s)"
    unfolding outgoing_edges_def by (rule sort_edges_ok(2) [OF d])
  have "(\<lambda>e. (ke_label e, ke_target e)) ` set ?es = (\<lambda>e. (be_label e, be_target e)) ` set (node_edges nodes edges s)"
    by (simp add: image_image)
  then show "(\<lambda>e. (ke_label e, ke_target e)) ` set (outgoing_edges nodes edges s) = children paths s"
    unfolding outgoing_edges_def sort_edges_ok(1) [OF d] kids(1) .
qed

lemma slice_search:
  assumes srt: "sorted_wrt (\<lambda>a b. label_less (ke_label a) (ke_label b)) es"
    and slice: "\<And>j. j < length es \<Longrightarrow> edges ! (start + j) = es ! j"
    and left: "left = edge_search edges c start (start + length es)"
  shows "(\<lambda>e. (ke_label e, ke_target e)) ` set es = R \<Longrightarrow>
    (if left < start + length es \<and> ke_label (edges ! left) = c then (c, ke_target (edges ! left)) \<in> R else \<forall>t. (c, t) \<notin> R)"
proof -
  assume R: "(\<lambda>e. (ke_label e, ke_target e)) ` set es = R"
  have at: "edges ! i = es ! (i - start)" if "start \<le> i" "i < start + length es" for i
    using slice [of "i - start"] that by simp
  have ord: "label_less (ke_label (edges ! i)) (ke_label (edges ! j))"
    if "start \<le> i" "i < j" "j < start + length es" for i j
    using that at [of i] at [of j] srt by (auto simp: sorted_wrt_iff_nth_less)
  have found: "start \<le> left" "left \<le> start + length es"
    "\<And>i. start \<le> i \<Longrightarrow> i < left \<Longrightarrow> label_less (ke_label (edges ! i)) c"
    "\<And>i. left \<le> i \<Longrightarrow> i < start + length es \<Longrightarrow> \<not> label_less (ke_label (edges ! i)) c"
    using edge_search_ok [of start "start + length es" edges c, folded left, OF le_add1] ord by blast+
  have none: "left < start + length es \<and> ke_label (edges ! left) = c" if t: "(c, t) \<in> R" for t
  proof -
    obtain j where j: "j < length es" "ke_label (es ! j) = c" using t unfolding R [symmetric] by (auto simp: in_set_conv_nth)
    have i: "edges ! (start + j) = es ! j" using slice j by simp
    have "left \<le> start + j"
    proof (rule ccontr)
      assume "\<not> left \<le> start + j"
      then have "label_less c c" using found(3) [of "start + j"] i j by simp
      then show False by (simp add: label_less_def)
    qed
    moreover have "left = start + j" if lt: "left < start + j"
    proof -
      have "label_less (ke_label (edges ! left)) c" using ord [OF found(1) lt] i j by simp
      moreover have "\<not> label_less (ke_label (edges ! left)) c" using found(4) [of left] lt j by simp
      ultimately show ?thesis by simp
    qed
    ultimately have "left = start + j" by linarith
    with i j show ?thesis by simp
  qed
  have some: "(c, ke_target (edges ! left)) \<in> R" if "left < start + length es" "ke_label (edges ! left) = c"
  proof -
    have "edges ! left \<in> set es" using at [OF found(1) that(1)] found(1) that(1) by simp
    with that R show ?thesis by force
  qed
  from none some show ?thesis by auto
qed

lemma root_transitions_ok:
  assumes "distinct (map be_label es)"
  shows "length (root_transitions es) = 256 \<and>
    root_transitions es ! of_char c = (case find (\<lambda>e. be_label e = c) es of None \<Rightarrow> 0 | Some e \<Rightarrow> be_target e)"
proof -
  have ne: "(of_char a :: nat) \<noteq> of_char b" if "a \<noteq> b" for a b :: char using that by simp
  have bound: "of_char a < (256 :: nat)" for a :: char by (rule nat_of_char_less_256)
  have fold: "length (foldl (\<lambda>table e. table[of_char (be_label e) := be_target e]) tab es) = length tab \<and>
      foldl (\<lambda>table e. table[of_char (be_label e) := be_target e]) tab es ! of_char c =
      (case find (\<lambda>e. be_label e = c) es of None \<Rightarrow> tab ! of_char c | Some e \<Rightarrow> be_target e)"
    if "length tab = 256" "distinct (map be_label es)" for tab :: "nat list" and es
    using that
  proof (induction es arbitrary: tab)
    case (Cons e es)
    have "find (\<lambda>x. be_label x = c) es = None" if "be_label e = c"
      unfolding find_None_iff that [symmetric] using Cons.prems(2) by (metis distinct.simps(2) imageI list.map(2) list.set_map)
    then show ?case using Cons bound [of c] ne [of "be_label e" c] by (auto split: option.splits)
  qed simp
  show ?thesis using fold [OF _ assms, of "replicate 256 0"] bound [of c] by (simp add: root_transitions_def split: option.split)
qed

section \<open>A finished matcher\<close>

text \<open>What a match relies on: transitions of the trie, failure links to the longest suffix that is a
  path, and at each node the least keyword that ends there.\<close>

definition matcher_ok :: "(string \<Rightarrow> string) \<Rightarrow> (nat \<times> string) set \<Rightarrow> string list \<Rightarrow> kw_matcher \<Rightarrow> bool" where
  "matcher_ok lower ks paths m \<longleftrightarrow> length (km_nodes m) = length paths \<and> paths \<noteq> [] \<and> paths ! 0 = [] \<and> distinct paths \<and> finite ks \<and>
     (\<forall>w c. w @ [c] \<in> set paths \<longrightarrow> w \<in> set paths) \<and>
     (\<forall>(k, kw) \<in> ks. kw \<noteq> [] \<longrightarrow> lower kw \<in> set paths) \<and>
     (\<forall>s < length paths. length (paths ! s) < length paths) \<and>
     (\<forall>s < length paths. \<forall>c. matcher_next m s c = (case trie_index paths (paths ! s @ [c]) of None \<Rightarrow> 0 | Some t \<Rightarrow> t)) \<and>
     (\<forall>s < length paths. finished lower ks paths (km_nodes m) s)"

lemma new_matcher_next:
  assumes ok: "trie_ok paths nodes edges" and s: "s < length nodes"
    and lay: "foldl (layout_node edges) (nodes, []) [0..<length nodes] = (final_nodes, final_edges)"
    and m: "km_nodes m = final_nodes" "km_edges m = final_edges" "km_root m = root_transitions (node_edges nodes edges 0)"
  shows "matcher_next m s c = (case trie_index paths (paths ! s @ [c]) of None \<Rightarrow> 0 | Some t \<Rightarrow> t)"
proof (cases "s = 0")
  case True
  have lab: "distinct (map be_label (node_edges nodes edges 0))" using ok s True by (simp add: trie_ok_def)
  from build_transition_ok [OF ok s, of c] True s
  have "map_option be_target (find (\<lambda>e. be_label e = c) (node_edges nodes edges 0)) = trie_index paths (paths ! s @ [c])"
    by (simp add: build_transition_def)
  then show ?thesis
    using root_transitions_ok [OF lab, of c] True m(3) by (auto simp: matcher_next_def split: option.splits)
next
  case False
  let ?out = "outgoing_edges nodes edges s"
  have l: "final_edges = concat (map (outgoing_edges nodes edges) [0..<length nodes])" "length final_nodes = length nodes"
    "final_nodes ! s = (nodes ! s)\<lparr>kn_edge_start := start_of edges nodes s, kn_edge_count := length ?out\<rparr>"
    using layout_fold [OF le_refl lay] s by simp_all
  have slice: "final_edges ! (start_of edges nodes s + j) = ?out ! j" if "j < length ?out" for j
    unfolding l(1) by (rule slice_nth(1) [where f = "outgoing_edges nodes edges", OF s that])
  define left where "left = edge_search final_edges c (start_of edges nodes s) (start_of edges nodes s + length ?out)"
  have hit: "(c, t) \<in> children paths s \<longleftrightarrow> trie_index paths (paths ! s @ [c]) = Some t" for t
    using ok by (auto simp: children_def trie_index_Some trie_ok_def)
  have r: "matcher_next m s c = (if left < start_of edges nodes s + length ?out \<and> ke_label (final_edges ! left) = c
      then ke_target (final_edges ! left) else 0)"
    using False s l(2,3) m by (simp add: matcher_next_def left_def Let_def)
  from slice_search [OF outgoing_edges_ok(2) [OF ok s] slice left_def outgoing_edges_ok(1) [OF ok s]]
  show ?thesis unfolding r hit by (auto split: option.splits if_splits)
qed

text \<open>Linking does not touch the edges.\<close>

lemma update_same: "f y = f (xs ! k) \<Longrightarrow> map f (xs[k := y]) = map f xs"
  by (cases "k < length xs") (simp_all add: map_update list_update_same_conv list_update_beyond)

lemma link_edge_starts: "map kn_edge_start (link_edge edges s nodes e) = map kn_edge_start nodes"
  by (simp add: link_edge_def Let_def update_same split: option.split)

lemma link_edges_starts: "map kn_edge_start (foldl (link_edge edges s) nodes es) = map kn_edge_start nodes"
  by (induction es arbitrary: nodes) (simp_all add: link_edge_starts)

lemma link_queue_starts: "map kn_edge_start (link_queue n edges queue nodes) = map kn_edge_start nodes"
  by (induction n edges queue nodes rule: link_queue.induct) (simp_all add: Let_def link_edges_starts)

lemma new_matcher_ok:
  assumes run: "new_matcher lower keywords = Some m" and low: "\<And>w. lower w = [] \<longleftrightarrow> w = []"
  shows "\<exists>paths. matcher_ok lower (set (enumerate 0 keywords)) paths m \<and> km_keywords m = keywords"
proof -
  obtain nodes edges where tr: "build_trie lower keywords = (nodes, edges)" by (metis prod.exhaust)
  let ?ks = "set (enumerate 0 keywords)" and ?first = "node_edges nodes edges 0"
  define linked where "linked = link_queue (length nodes) edges (map be_target ?first) nodes"
  obtain fn fe where lay: "foldl (layout_node edges) (linked, []) [0..<length linked] = (fn, fe)" by (metis prod.exhaust)
  have m: "km_nodes m = fn" "km_edges m = fe" "km_root m = root_transitions ?first" "km_keywords m = keywords"
    using run tr lay by (auto simp: new_matcher_def Let_def linked_def split: if_splits)
  obtain paths where h: "trie_holds lower ?ks paths nodes edges" using build_trie_ok [OF tr] by blast
  have e: "keys_at lower ?ks [] = {}" using low by (auto simp: keys_at_def)
  note start = bfs_start [OF h e]
  have "length nodes \<le> length nodes + length [] + 1" by simp
  from link_queue_ok [OF start this, folded linked_def]
  have ok: "trie_ok paths linked edges" and len: "length linked = length nodes"
    and fin: "\<And>t. t < length nodes \<Longrightarrow> finished lower ?ks paths linked t" by auto
  have ok0: "trie_ok paths nodes edges" and keys: "\<forall>(k, kw) \<in> ?ks. kw \<noteq> [] \<longrightarrow> lower kw \<in> set paths"
    using h by (simp_all add: trie_holds_def)
  have lp: "length paths = length linked" "paths \<noteq> []" "paths ! 0 = []" "distinct paths" "0 < length linked"
    using ok by (auto simp: trie_ok_def)
  have fields: "length fn = length linked" "\<And>i. i < length linked \<Longrightarrow> kn_failure (fn ! i) = kn_failure (linked ! i) \<and> kn_best (fn ! i) = kn_best (linked ! i)"
    using layout_fold [OF le_refl lay] by simp_all
  have root: "node_edges linked edges 0 = ?first"
  proof -
    have "map kn_edge_start linked = map kn_edge_start nodes" unfolding linked_def by (rule link_queue_starts)
    then have "kn_edge_start (linked ! 0) = kn_edge_start (nodes ! 0)" using lp(5) len by (metis nth_map)
    then show ?thesis by (simp add: node_edges_def build_first_edge_def)
  qed
  have next': "\<forall>s < length paths. \<forall>c. matcher_next m s c = (case trie_index paths (paths ! s @ [c]) of None \<Rightarrow> 0 | Some t \<Rightarrow> t)"
    using new_matcher_next [OF ok _ lay m(1,2) m(3) [folded root]] lp(1) by simp
  have done': "\<forall>s < length paths. finished lower ?ks paths (km_nodes m) s"
    using fin fields lp(1) len m(1) by (simp add: finished_def)
  have closed: "\<forall>w c. w @ [c] \<in> set paths \<longrightarrow> w \<in> set paths" using trie_closed [OF ok] by blast
  have depth: "\<forall>s < length paths. length (paths ! s) < length paths" using depth_less [OF ok] lp(1) by simp
  have "matcher_ok lower ?ks paths m"
    unfolding matcher_ok_def using lp fields(1) m(1) closed keys depth next' done' by (intro conjI) simp_all
  with m(4) show ?thesis by blast
qed

section \<open>Matching\<close>

lemma matcher_step_ok:
  assumes ok: "matcher_ok lower ks paths m"
  shows "s < length paths \<Longrightarrow> length (paths ! s) \<le> fuel \<Longrightarrow> matcher_step fuel m s c < length paths \<and>
    paths ! matcher_step fuel m s c = lsuf (on_path paths) (paths ! s @ [c])"
proof (induction fuel arbitrary: s rule: less_induct)
  case (less fuel)
  have base: "distinct paths" "paths ! 0 = []" "0 < length paths" and closed: "\<And>w c. w @ [c] \<in> set paths \<Longrightarrow> w \<in> set paths"
    using ok unfolding matcher_ok_def by auto
  have nx: "matcher_next m s c = (case trie_index paths (paths ! s @ [c]) of None \<Rightarrow> 0 | Some t \<Rightarrow> t)"
    and fin: "finished lower ks paths (km_nodes m) s" and len: "length (km_nodes m) = length paths"
    using ok less.prems(1) unfolding matcher_ok_def by blast+
  show ?case
  proof (cases "trie_index paths (paths ! s @ [c])")
    case (Some t)
    then have t: "t < length paths" "paths ! t = paths ! s @ [c]" using base(1) by (simp_all add: trie_index_Some)
    then have "t \<noteq> 0" using base(2) by (cases "t = 0") auto
    moreover have "paths ! s @ [c] \<in> set paths" using t by (metis nth_mem)
    ultimately show ?thesis using nx Some t by (subst (1 2) matcher_step.simps) (simp add: lsuf_id)
  next
    case None
    then have off: "paths ! s @ [c] \<notin> set paths" by (simp add: trie_index_None)
    show ?thesis
    proof (cases "s = 0")
      case True
      then show ?thesis using nx None off base by (subst (1 2) matcher_step.simps) simp
    next
      case False
      have "paths ! s \<noteq> []" using False less.prems(1) base by (metis nth_eq_iff_index_eq)
      then obtain x xs where p: "paths ! s = x # xs" by (cases "paths ! s") auto
      with less.prems(2) obtain n where n: "fuel = Suc n" by (cases fuel) auto
      let ?f = "kn_failure (km_nodes m ! s)"
      have f: "?f < length paths" "paths ! ?f = lsuf (on_path paths) xs"
        using fin len p by (simp_all add: finished_def)
      have "length (paths ! ?f) \<le> n" using f(2) length_lsuf [of "on_path paths" xs] less.prems(2) p n by simp
      from less.IH [OF _ f(1) this] n
      have ih: "matcher_step n m ?f c < length paths" "paths ! matcher_step n m ?f c = lsuf (on_path paths) (lsuf (on_path paths) xs @ [c])"
        by (simp_all add: f(2))
      have "lsuf (on_path paths) (xs @ [c]) = lsuf (on_path paths) (lsuf (on_path paths) xs @ [c])"
        by (rule lsuf_snoc) (use closed in blast)
      moreover have "matcher_step fuel m s c = matcher_step n m ?f c"
        using nx None False n by (subst matcher_step.simps) (simp add: Let_def)
      ultimately show ?thesis using ih off p by simp
    qed
  qed
qed

text \<open>The keywords that occur in a string.\<close>

definition occurring :: "(string \<Rightarrow> string) \<Rightarrow> (nat \<times> string) set \<Rightarrow> string \<Rightarrow> nat set" where
  "occurring lower ks x = {k. \<exists>kw. (k, kw) \<in> ks \<and> kw \<noteq> [] \<and> sublist (lower kw) x}"

lemma finite_occurring: "finite ks \<Longrightarrow> finite (occurring lower ks x)"
  by (rule finite_subset [of _ "fst ` ks"]) (force simp: occurring_def)+

lemma occurring_snoc: "occurring lower ks (x @ [c]) = occurring lower ks x \<union> keys_in lower ks (x @ [c])"
proof -
  have "sublist w (x @ [c]) \<longleftrightarrow> sublist w x \<or> suffix w (x @ [c])" for w :: string
    unfolding sublist_altdef prefix_snoc by blast
  then show ?thesis by (auto simp: occurring_def keys_in_def)
qed

lemma occurring_append: "occurring lower ks x \<subseteq> occurring lower ks (x @ y)"
  by (auto simp: occurring_def sublist_append)

lemma match_loop_ok:
  assumes ok: "matcher_ok lower ks paths m"
  shows "s < length paths \<Longrightarrow> paths ! s = lsuf (on_path paths) x \<Longrightarrow> best = least (occurring lower ks x) \<Longrightarrow>
    match_loop m rest s best = least (occurring lower ks (x @ rest))"
proof (induction rest arbitrary: s x best)
  case (Cons c rest)
  have base: "finite ks" "length (km_nodes m) = length paths" "\<forall>(k, kw) \<in> ks. kw \<noteq> [] \<longrightarrow> lower kw \<in> set paths"
    "paths ! 0 = []" "0 < length paths" and closed: "\<And>w c. w @ [c] \<in> set paths \<Longrightarrow> w \<in> set paths"
    and depth: "length (paths ! s) < length paths"
    using ok Cons.prems(1) unfolding matcher_ok_def by auto
  define s' where "s' = matcher_step (length (km_nodes m)) m s c"
  have "length (paths ! s) \<le> length (km_nodes m)" using depth base(2) by simp
  from matcher_step_ok [OF ok Cons.prems(1) this, of c]
  have s': "s' < length paths" "paths ! s' = lsuf (on_path paths) (lsuf (on_path paths) x @ [c])"
    by (simp_all add: s'_def Cons.prems(2))
  moreover have "lsuf (on_path paths) (x @ [c]) = lsuf (on_path paths) (lsuf (on_path paths) x @ [c])"
    by (rule lsuf_snoc) (use closed in blast)
  ultimately have p: "paths ! s' = lsuf (on_path paths) (x @ [c])" by simp
  have "kn_best (km_nodes m ! s') = least (keys_in lower ks (paths ! s'))"
    using ok s'(1) unfolding matcher_ok_def finished_def by blast
  also have "keys_in lower ks (paths ! s') = keys_in lower ks (x @ [c])"
  proof -
    have "suffix (lower kw) (x @ [c]) \<longleftrightarrow> suffix (lower kw) (lsuf (on_path paths) (x @ [c]))" if "(k, kw) \<in> ks" "kw \<noteq> []" for k kw
      using base(3) that by (intro lsuf_suffix) auto
    then show ?thesis unfolding p keys_in_def by blast
  qed
  finally have best': "min_keyword_index best (kn_best (km_nodes m ! s')) = least (occurring lower ks (x @ [c]))"
    unfolding Cons.prems(3)
    using min_least [OF finite_occurring [OF base(1)], of "keys_in lower ks (x @ [c])" lower x]
      finite_occurring [OF base(1), of lower "x @ [c]"] by (simp add: occurring_snoc)
  show ?case
  proof (cases "least (occurring lower ks (x @ [c])) = Some 0")
    case True
    have "0 \<in> occurring lower ks (x @ [c])"
      using True Min_in [OF finite_occurring [OF base(1), of lower "x @ [c]"]] by (auto simp: least_def split: if_splits)
    then have "0 \<in> occurring lower ks (x @ c # rest)" using occurring_append [of lower ks "x @ [c]" rest] by auto
    then have "least (occurring lower ks (x @ c # rest)) = Some 0"
      using Min_le [OF finite_occurring [OF base(1)], of 0 lower "x @ c # rest"] by (auto simp: least_def)
    with True best' show ?thesis by (simp add: s'_def Let_def)
  next
    case False
    from Cons.IH [OF s'(1) p best' [symmetric, THEN sym]] False best' show ?thesis by (simp add: s'_def Let_def)
  qed
qed simp

section \<open>The whole matcher\<close>

text \<open>What the matcher is for, without trie or links: the first keyword of the list that occurs.\<close>

definition first_keyword :: "(string \<Rightarrow> string) \<Rightarrow> string list \<Rightarrow> string \<Rightarrow> string option" where
  "first_keyword lower keywords text = find (\<lambda>kw. kw \<noteq> [] \<and> sublist (lower kw) (lower text)) keywords"

lemma least_find:
  "(case least {k. k < length xs \<and> P (xs ! k)} of None \<Rightarrow> None | Some k \<Rightarrow> if length xs \<le> k then None else Some (xs ! k)) = find P xs"
proof (cases "find P xs")
  case None
  then have "{k. k < length xs \<and> P (xs ! k)} = {}" by (auto simp: find_None_iff)
  then have "least {k. k < length xs \<and> P (xs ! k)} = None" by (simp only: least_empty)
  with None show ?thesis by simp
next
  case (Some x)
  then obtain i where i: "i < length xs" "P (xs ! i)" "x = xs ! i" "\<And>j. j < i \<Longrightarrow> \<not> P (xs ! j)"
    unfolding find_Some_iff by blast
  have "Min {k. k < length xs \<and> P (xs ! k)} = i"
    by (rule Min_eqI) (use i in \<open>auto intro: leI\<close>)
  then have "least {k. k < length xs \<and> P (xs ! k)} = Some i" using i(1,2) unfolding least_def by auto
  with Some i show ?thesis by simp
qed

lemma enumerate_occurring:
  "occurring lower (set (enumerate 0 kws)) x = {k. k < length kws \<and> kws ! k \<noteq> [] \<and> sublist (lower (kws ! k)) x}"
  by (auto simp: occurring_def in_set_enumerate_eq)

lemma no_matcher:
  assumes "new_matcher lower keywords = None" "\<And>w. lower w = [] \<longleftrightarrow> w = []" "kw \<in> set keywords"
  shows "kw = []"
proof -
  obtain nodes edges where tr: "build_trie lower keywords = (nodes, edges)" by (metis prod.exhaust)
  obtain paths where h: "trie_holds lower (set (enumerate 0 keywords)) paths nodes edges" using build_trie_ok [OF tr] by blast
  have "length nodes = 1" using assms(1,3) tr by (auto simp: new_matcher_def Let_def split: if_splits prod.splits)
  then have "length paths = 1" "paths ! 0 = []" using h by (simp_all add: trie_holds_def trie_ok_def)
  then have p: "paths = [[]]" by (cases paths) auto
  obtain i where "i < length keywords" "keywords ! i = kw" using assms(3) by (auto simp: in_set_conv_nth)
  then have "(i, kw) \<in> set (enumerate 0 keywords)" by (simp add: in_set_enumerate_eq)
  then have "kw \<noteq> [] \<Longrightarrow> lower kw \<in> set paths" using h by (auto simp: trie_holds_def)
  with p assms(2) show ?thesis by auto
qed

text \<open>C39: for any keyword list and any text the matcher (trie, failure links, sorted edge arrays with
  binary search, root table and early exit) returns the first keyword of the list whose lower-case form
  occurs in the lower-case text, and nothing when none occurs. Lower-casing is only assumed to keep
  strings empty or non-empty.\<close>

theorem matcher_finds_first:
  assumes "\<And>w. lower w = [] \<longleftrightarrow> w = []"
  shows "matcher_match lower (new_matcher lower keywords) text = first_keyword lower keywords text"
proof (cases "new_matcher lower keywords")
  case None
  have "find (\<lambda>kw. kw \<noteq> [] \<and> sublist (lower kw) (lower text)) keywords = None"
    using no_matcher [OF None assms] by (auto simp: find_None_iff)
  then show ?thesis unfolding None by (simp add: matcher_match_def first_keyword_def)
next
  case (Some m)
  obtain paths where ok: "matcher_ok lower (set (enumerate 0 keywords)) paths m" and k: "km_keywords m = keywords"
    using new_matcher_ok [OF Some assms] by blast
  have base: "km_nodes m \<noteq> []" "paths ! 0 = []" "0 < length paths" using ok by (auto simp: matcher_ok_def)
  have kws: "keywords \<noteq> []" using Some by (auto simp: new_matcher_def)
  show ?thesis
  proof (cases "text = []")
    case True
    have l: "lower text = []" using assms True by simp
    have none: "first_keyword lower keywords text = None"
      unfolding first_keyword_def l find_None_iff using assms by auto
    show ?thesis unfolding none Some matcher_match_def using True by simp
  next
    case False
    have e: "occurring lower (set (enumerate 0 keywords)) [] = {}" using assms by (auto simp: occurring_def)
    have "match_loop m (lower text) 0 None = least (occurring lower (set (enumerate 0 keywords)) ([] @ lower text))"
      by (rule match_loop_ok [OF ok base(3)]) (use base(2) e in simp_all)
    then have r: "match_loop m (lower text) 0 None =
        least {k. k < length keywords \<and> (keywords ! k \<noteq> [] \<and> sublist (lower (keywords ! k)) (lower text))}"
      by (simp add: enumerate_occurring)
    have "matcher_match lower (Some m) text = (case match_loop m (lower text) 0 None of None \<Rightarrow> None
        | Some k \<Rightarrow> if length keywords \<le> k then None else Some (keywords ! k))"
      using False base(1) kws unfolding matcher_match_def by (cases "match_loop m (lower text) 0 None") (simp_all add: k)
    then show ?thesis unfolding Some r first_keyword_def
      by (rule trans) (rule least_find [of "keywords" "\<lambda>kw. kw \<noteq> [] \<and> sublist (lower kw) (lower text)"])
  qed
qed

theorem matcher_finds_first_witness:
  "matcher_match (\<lambda>w. w) (new_matcher (\<lambda>w. w) [''hers'', [], ''his'', ''she'']) ''ushers'' = Some ''hers''"
  using matcher_finds_first [of "\<lambda>w. w" "[''hers'', [], ''his'', ''she'']" "''ushers''"]
  by (simp add: first_keyword_def sublist_code prefix_def)

end
