(* ===== verification/Auth_Limiter.thy ===== *)
theory Auth_Limiter
  imports Prelude "HOL-Library.AList" "HOL-Library.Word"
begin

unbundle bit_operations_syntax

text \<open>
  The limiter of invalid API keys, \<open>service/invalid_auth_abuse_limiter.go\<close>: a table of clients in
  16 shards, bounded by a capacity, with one overflow counter for the clients that find no room. The
  code locks each shard and the overflow counter and keeps the number of entries as an atomic; each
  part between two locks is an operation of its own here, so that the calls of several requests can
  be interleaved. The statistics counters are 64-bit words, the table of a shard an association list.
\<close>

section \<open>The limiter\<close>

record abuse_entry =
  ae_failures :: int
  ae_window_start :: gotime
  ae_blocked_until :: gotime

record abuse_limiter =
  al_threshold :: int
  al_window :: duration
  al_block :: duration
  al_capacity :: int
  al_shards :: "(string \<times> abuse_entry) list list"
  al_overflow :: abuse_entry
  al_tracked :: int
  al_recorded :: "64 word"
  al_blocked :: "64 word"
  al_rejected :: "64 word"
  al_expired :: "64 word"
  al_overflowed :: "64 word"
  al_global_blocked :: "64 word"
  al_cleanup_next :: int
  al_cleanup_cursor :: "32 word"

record invalid_abuse_config =
  ia_enabled :: bool
  ia_threshold :: int
  ia_window_seconds :: int
  ia_block_seconds :: int
  ia_capacity :: int

definition invalidAuthAbuseShardCount :: nat where "invalidAuthAbuseShardCount = 16"

definition new_entry :: "gotime \<Rightarrow> abuse_entry" where
  "new_entry now = \<lparr>ae_failures = 0, ae_window_start = now, ae_blocked_until = 0\<rparr>"

definition new_abuse_limiter :: "invalid_abuse_config option \<Rightarrow> abuse_limiter option" where
  "new_abuse_limiter cfg =
     (case cfg of
        None \<Rightarrow> None
      | Some c \<Rightarrow>
          if \<not> ia_enabled c then None
          else if ia_threshold c \<le> 0 \<or> ia_window_seconds c \<le> 0 \<or> ia_block_seconds c \<le> 0 \<or> ia_capacity c \<le> 0 then None
          else Some \<lparr>al_threshold = ia_threshold c, al_window = ia_window_seconds c * Second,
            al_block = ia_block_seconds c * Second, al_capacity = ia_capacity c,
            al_shards = replicate invalidAuthAbuseShardCount [], al_overflow = new_entry 0, al_tracked = 0,
            al_recorded = 0, al_blocked = 0, al_rejected = 0, al_expired = 0, al_overflowed = 0,
            al_global_blocked = 0, al_cleanup_next = 0, al_cleanup_cursor = 0\<rparr>)"

text \<open>FNV-1a over the bytes of the client key.\<close>

definition shard_index :: "string \<Rightarrow> nat" where
  "shard_index key =
     unat (foldl (\<lambda>hash c. (hash XOR of_char c) * 16777619) (2166136261 :: 32 word) key mod 16)"

definition entry_expired :: "abuse_limiter \<Rightarrow> abuse_entry \<Rightarrow> gotime \<Rightarrow> bool" where
  "entry_expired l e now \<longleftrightarrow>
     \<not> after (ae_blocked_until e) now \<and> \<not> after (ae_window_start e) now \<and> \<not> before now (ae_window_start e + al_window l)"

text \<open>\<open>UnixNano\<close> counts from 1970.\<close>

definition unix_nano :: "gotime \<Rightarrow> int" where
  "unix_nano t = t - 62135596800 * Second"

section \<open>Operations\<close>

definition maybe_cleanup_at_capacity :: "gotime \<Rightarrow> abuse_limiter \<Rightarrow> abuse_limiter" where
  "maybe_cleanup_at_capacity now l =
     (if al_tracked l < al_capacity l then l
      else if unix_nano now < al_cleanup_next l then l
      else
        let index = unat (al_cleanup_cursor l mod 16);
            shard = al_shards l ! index;
            kept = filter (\<lambda>(key, e). \<not> entry_expired l e now) shard;
            removed = length shard - length kept
        in l\<lparr>al_cleanup_next := unix_nano (now + 100 * Millisecond), al_cleanup_cursor := al_cleanup_cursor l + 1,
             al_shards := (al_shards l)[index := kept], al_tracked := al_tracked l - int removed,
             al_expired := al_expired l + of_nat removed\<rparr>)"

definition shard_entry :: "abuse_limiter \<Rightarrow> string \<Rightarrow> abuse_entry option" where
  "shard_entry l key = map_of (al_shards l ! shard_index key) key"

definition set_entry :: "string \<Rightarrow> abuse_entry \<Rightarrow> abuse_limiter \<Rightarrow> abuse_limiter" where
  "set_entry key e l = l\<lparr>al_shards := (al_shards l)[shard_index key := AList.update key e (al_shards l ! shard_index key)]\<rparr>"

text \<open>The lookup that both calls begin with: an expired entry is removed.\<close>

definition live_entry :: "string \<Rightarrow> gotime \<Rightarrow> abuse_limiter \<Rightarrow> abuse_entry option \<times> abuse_limiter" where
  "live_entry key now l =
     (case shard_entry l key of
        None \<Rightarrow> (None, l)
      | Some e \<Rightarrow>
          if entry_expired l e now
          then (None, l\<lparr>al_shards := (al_shards l)[shard_index key := AList.delete key (al_shards l ! shard_index key)],
                        al_tracked := al_tracked l - 1, al_expired := al_expired l + 1\<rparr>)
          else (Some e, l))"

definition check_overflow :: "gotime \<Rightarrow> abuse_limiter \<Rightarrow> duration option" where
  "check_overflow now l =
     (if after (ae_blocked_until (al_overflow l)) now then Some (ae_blocked_until (al_overflow l) - now) else None)"

definition limiter_check :: "string \<Rightarrow> gotime \<Rightarrow> abuse_limiter \<Rightarrow> duration option \<times> abuse_limiter" where
  "limiter_check key now l =
     (if key = [] then (None, l)
      else
        let l1 = maybe_cleanup_at_capacity now l;
            (entry, l2) = live_entry key now l1
        in case entry of
             Some e \<Rightarrow>
               if after (ae_blocked_until e) now
               then (Some (ae_blocked_until e - now), l2\<lparr>al_rejected := al_rejected l2 + 1\<rparr>) else (None, l2)
           | None \<Rightarrow>
               if al_capacity l2 \<le> al_tracked l2
               then (case check_overflow now l2 of
                       Some retry \<Rightarrow> (Some retry, l2\<lparr>al_rejected := al_rejected l2 + 1, al_global_blocked := al_global_blocked l2 + 1\<rparr>)
                     | None \<Rightarrow> (None, l2))
               else (None, l2))"

text \<open>One more failure in an entry that is not blocked: the entry, and whether it gets blocked.\<close>

definition count_failure :: "abuse_limiter \<Rightarrow> gotime \<Rightarrow> abuse_entry \<Rightarrow> abuse_entry \<times> bool" where
  "count_failure l now e =
     (let failures = ae_failures e + 1
      in if al_threshold l \<le> failures
         then (e\<lparr>ae_failures := 0, ae_blocked_until := now + al_block l, ae_window_start := now + al_block l\<rparr>, True)
         else (e\<lparr>ae_failures := failures\<rparr>, False))"

definition reserve_entry :: "abuse_limiter \<Rightarrow> bool \<times> abuse_limiter" where
  "reserve_entry l = (if al_capacity l \<le> al_tracked l then (False, l) else (True, l\<lparr>al_tracked := al_tracked l + 1\<rparr>))"

definition record_overflow :: "gotime \<Rightarrow> abuse_limiter \<Rightarrow> abuse_limiter" where
  "record_overflow now l =
     (let l1 = l\<lparr>al_overflowed := al_overflowed l + 1\<rparr>; o' = al_overflow l1
      in if after (ae_blocked_until o') now then l1
         else
           let o1 = (if is_zero (ae_window_start o') \<or> \<not> before now (ae_window_start o' + al_window l)
                     then o'\<lparr>ae_window_start := now, ae_failures := 0\<rparr> else o');
               (o2, trip) = count_failure l now o1
           in l1\<lparr>al_overflow := o2, al_blocked := al_blocked l1 + (if trip then 1 else 0)\<rparr>)"

text \<open>The part of \<open>record\<close> after the entry is known.\<close>

definition record_entry :: "string \<Rightarrow> gotime \<Rightarrow> abuse_entry \<Rightarrow> abuse_limiter \<Rightarrow> abuse_limiter" where
  "record_entry key now e l =
     (if after (ae_blocked_until e) now then l
      else
        let e1 = (if after (ae_window_start e) now \<or> \<not> before now (ae_window_start e + al_window l)
                  then e\<lparr>ae_window_start := now, ae_failures := 0\<rparr> else e);
            (e2, trip) = count_failure l now e1
        in (set_entry key e2 l)\<lparr>al_blocked := al_blocked l + (if trip then 1 else 0)\<rparr>)"

text \<open>The shard's part of \<open>record\<close>, and whether the failure still has to go to the overflow counter.\<close>

definition record_in_shard :: "string \<Rightarrow> gotime \<Rightarrow> abuse_limiter \<Rightarrow> bool \<times> abuse_limiter" where
  "record_in_shard key now l =
     (let (entry, l1) = live_entry key now l
      in case entry of
           Some e \<Rightarrow> (False, record_entry key now e l1)
         | None \<Rightarrow>
             let (reserved, l2) = reserve_entry l1
             in if \<not> reserved then (True, l2)
                else (False, record_entry key now (new_entry now) (set_entry key (new_entry now) l2)))"

definition limiter_record :: "string \<Rightarrow> gotime \<Rightarrow> abuse_limiter \<Rightarrow> abuse_limiter" where
  "limiter_record key now l =
     (if key = [] then l
      else
        let l1 = maybe_cleanup_at_capacity now (l\<lparr>al_recorded := al_recorded l + 1\<rparr>);
            (overflowing, l2) = record_in_shard key now l1
        in if overflowing then record_overflow now l2 else l2)"

text \<open>The service calls; without a limiter nobody is ever blocked.\<close>

definition check_invalid_auth_abuse :: "string \<Rightarrow> gotime \<Rightarrow> abuse_limiter option \<Rightarrow> duration option \<times> abuse_limiter option" where
  "check_invalid_auth_abuse key now lo =
     (case lo of None \<Rightarrow> (None, None) | Some l \<Rightarrow> map_prod (\<lambda>r. r) Some (limiter_check key now l))"

definition record_invalid_auth_failure :: "string \<Rightarrow> gotime \<Rightarrow> abuse_limiter option \<Rightarrow> abuse_limiter option" where
  "record_invalid_auth_failure key now lo = map_option (limiter_record key now) lo"

record abuse_health =
  ah_enabled :: bool
  ah_tracked :: int
  ah_capacity :: int
  ah_recorded :: "64 word"
  ah_blocks :: "64 word"
  ah_rejected :: "64 word"
  ah_expired :: "64 word"
  ah_overflowed :: "64 word"
  ah_global_blocked :: "64 word"

definition invalid_auth_abuse_health :: "abuse_limiter option \<Rightarrow> abuse_health" where
  "invalid_auth_abuse_health lo =
     (case lo of
        None \<Rightarrow> \<lparr>ah_enabled = False, ah_tracked = 0, ah_capacity = 0, ah_recorded = 0, ah_blocks = 0, ah_rejected = 0,
          ah_expired = 0, ah_overflowed = 0, ah_global_blocked = 0\<rparr>
      | Some l \<Rightarrow> \<lparr>ah_enabled = True, ah_tracked = al_tracked l, ah_capacity = al_capacity l, ah_recorded = al_recorded l,
          ah_blocks = al_blocked l, ah_rejected = al_rejected l, ah_expired = al_expired l,
          ah_overflowed = al_overflowed l, ah_global_blocked = al_global_blocked l\<rparr>)"

section \<open>Interleaved requests\<close>

text \<open>The steps that concurrent requests take, each under one lock or on the atomics alone; the time
  a request read before may be any.\<close>

inductive limiter_step :: "abuse_limiter \<Rightarrow> abuse_limiter \<Rightarrow> bool" where
  count: "limiter_step l (l\<lparr>al_recorded := al_recorded l + 1\<rparr>)"
| cleanup: "limiter_step l (maybe_cleanup_at_capacity now l)"
| look: "limiter_step l (snd (live_entry key now l))"
| reject: "limiter_step l (l\<lparr>al_rejected := al_rejected l + 1\<rparr>)"
| global: "limiter_step l (l\<lparr>al_global_blocked := al_global_blocked l + 1\<rparr>)"
| shard: "limiter_step l (snd (record_in_shard key now l))"
| overflow: "limiter_step l (record_overflow now l)"

definition limiter_reachable :: "invalid_abuse_config \<Rightarrow> abuse_limiter \<Rightarrow> bool" where
  "limiter_reachable cfg l \<longleftrightarrow> (\<exists>l0. new_abuse_limiter (Some cfg) = Some l0 \<and> limiter_step\<^sup>*\<^sup>* l0 l)"

end
