(* ===== verification/Auth_Limiter_Table.thy ===== *)
theory Auth_Limiter_Table
  imports Auth_Limiter
begin

text \<open>
  The invariant of the limiter's table under any interleaving of requests, and what each operation
  does to the entry of a client.
\<close>

section \<open>The invariant\<close>

definition total :: "(string \<times> abuse_entry) list list \<Rightarrow> int" where
  "total shards = sum_list (map (int \<circ> length) shards)"

definition shard_ok :: "(string \<Rightarrow> abuse_entry \<Rightarrow> bool) \<Rightarrow> nat \<Rightarrow> (string \<times> abuse_entry) list \<Rightarrow> bool" where
  "shard_ok P i s \<longleftrightarrow> distinct (map fst s) \<and> (\<forall>k e. map_of s k = Some e \<longrightarrow> shard_index k = i \<and> P k e)"

definition limiter_inv :: "(string \<Rightarrow> abuse_entry \<Rightarrow> bool) \<Rightarrow> abuse_limiter \<Rightarrow> bool" where
  "limiter_inv P l \<longleftrightarrow> 0 < al_threshold l \<and> 0 < al_window l \<and> 0 < al_block l \<and> length (al_shards l) = 16 \<and>
     (\<forall>i < 16. shard_ok P i (al_shards l ! i)) \<and> al_tracked l = total (al_shards l) \<and> al_tracked l \<le> al_capacity l"

lemma shard_index_less: "shard_index key < 16"
proof -
  have "unat (w mod 16) < 16" for w :: "32 word" by (simp add: unat_mod)
  then show ?thesis by (simp add: shard_index_def)
qed

lemma total_update: "i < length xs \<Longrightarrow> total (xs[i := s]) = total xs + int (length s) - int (length (xs ! i))"
proof (induction xs arbitrary: i)
  case (Cons x xs)
  then show ?case by (cases i) (simp_all add: total_def)
qed simp

lemma shard_ok_empty [simp]: "shard_ok P i []"
  by (simp add: shard_ok_def)

lemma shard_okI: "distinct (map fst s) \<Longrightarrow> (\<And>k e. map_of s k = Some e \<Longrightarrow> shard_index k = i \<and> P k e) \<Longrightarrow> shard_ok P i s"
  unfolding shard_ok_def by blast

lemma shard_okD:
  assumes "shard_ok P i s"
  shows "distinct (map fst s)" "map_of s k = Some e \<Longrightarrow> shard_index k = i \<and> P k e"
  using assms unfolding shard_ok_def by blast+

lemma shard_ok_delete: "shard_ok P i s \<Longrightarrow> shard_ok P i (AList.delete key s)"
proof (rule shard_okI)
  assume ok: "shard_ok P i s"
  show "distinct (map fst (AList.delete key s))" by (rule distinct_delete) (rule shard_okD(1) [OF ok])
  fix k e assume "map_of (AList.delete key s) k = Some e"
  then have "map_of s k = Some e" by (simp add: delete_conv' split: if_splits)
  then show "shard_index k = i \<and> P k e" by (rule shard_okD(2) [OF ok])
qed

lemma shard_ok_update:
  assumes ok: "shard_ok P (shard_index key) s" and e: "P key e"
  shows "shard_ok P (shard_index key) (AList.update key e s)"
proof (rule shard_okI)
  show "distinct (map fst (AList.update key e s))" by (rule distinct_update) (rule shard_okD(1) [OF ok])
  fix k e' assume m: "map_of (AList.update key e s) k = Some e'"
  show "shard_index k = shard_index key \<and> P k e'"
  proof (cases "k = key")
    case True
    with m e show ?thesis by (simp add: update_conv')
  next
    case False
    with m have "map_of s k = Some e'" by (simp add: update_conv')
    then show ?thesis by (rule shard_okD(2) [OF ok])
  qed
qed

text \<open>Replacing one shard keeps the invariant when the count follows.\<close>

lemma limiter_inv_put:
  assumes "limiter_inv P l" "i < 16" "shard_ok P i s"
    and "al_shards l' = (al_shards l)[i := s]" "al_tracked l' = al_tracked l + int (length s) - int (length (al_shards l ! i))"
    and "al_tracked l' \<le> al_capacity l"
    and "al_threshold l' = al_threshold l" "al_window l' = al_window l" "al_block l' = al_block l" "al_capacity l' = al_capacity l"
  shows "limiter_inv P l'"
proof -
  have inv: "length (al_shards l) = 16" "\<And>j. j < 16 \<Longrightarrow> shard_ok P j (al_shards l ! j)" "al_tracked l = total (al_shards l)"
    using assms(1) by (simp_all add: limiter_inv_def)
  have "shard_ok P j (al_shards l' ! j)" if "j < 16" for j
    using inv(1) inv(2) [OF that] assms(2,3,4) that by (cases "j = i") simp_all
  moreover have "al_tracked l' = total (al_shards l')"
    unfolding assms(4,5) inv(3) using inv(1) assms(2) by (simp add: total_update)
  moreover have "length (al_shards l') = 16" by (simp add: assms(4) inv(1))
  moreover have "0 < al_threshold l \<and> 0 < al_window l \<and> 0 < al_block l" using assms(1) by (simp add: limiter_inv_def)
  ultimately show ?thesis unfolding limiter_inv_def assms(7-10) using assms(6) by blast
qed

lemma limiter_inv_count: "limiter_inv P l \<Longrightarrow> al_tracked l \<le> al_capacity l \<and> length (al_shards l) = 16"
  by (simp add: limiter_inv_def)

lemma limiter_inv_same:
  assumes "limiter_inv P l" "al_shards l' = al_shards l" "al_tracked l' = al_tracked l"
    "al_threshold l' = al_threshold l" "al_window l' = al_window l" "al_block l' = al_block l" "al_capacity l' = al_capacity l"
  shows "limiter_inv P l'"
  using assms by (simp add: limiter_inv_def)

lemma limiter_inv_entry: "limiter_inv P l \<Longrightarrow> shard_entry l key = Some e \<Longrightarrow> P key e"
proof -
  assume inv: "limiter_inv P l" and e: "shard_entry l key = Some e"
  have "shard_ok P (shard_index key) (al_shards l ! shard_index key)"
    using inv shard_index_less [of key] unfolding limiter_inv_def by blast
  from shard_okD(2) [OF this e [unfolded shard_entry_def]] show ?thesis by simp
qed

lemma map_of_filter_value:
  "distinct (map fst xs) \<Longrightarrow>
    map_of (filter (\<lambda>(k, e). Q e) xs) key = (case map_of xs key of None \<Rightarrow> None | Some e \<Rightarrow> if Q e then Some e else None)"
proof (induction xs)
  case (Cons x xs)
  have "key \<notin> fst ` set (filter (\<lambda>(k, e). Q e) xs)" if "key = fst x" using Cons.prems that by auto
  then have "map_of (filter (\<lambda>(k, e). Q e) xs) key = None" if "key = fst x" using that by (simp add: map_of_eq_None_iff)
  with Cons show ?case by (cases x) auto
qed simp

lemma length_delete:
  assumes "distinct (map fst s)" "map_of s key = Some e"
  shows "int (length (AList.delete key s)) = int (length s) - 1"
proof -
  have k: "key \<in> set (map fst s)" using assms(2) by (metis domI dom_map_of_conv_image_fst list.set_map)
  have "length (AList.delete key s) = length (removeAll key (map fst s))" using delete_keys [of key s] by (metis length_map)
  also have "\<dots> = length s - 1" using assms(1) k by (simp add: distinct_remove1_removeAll [symmetric] length_remove1 del: set_map)
  finally show ?thesis using k by (cases s) auto
qed

lemma length_update: "length (AList.update key e s) = (if map_of s key = None then Suc (length s) else length s)"
proof -
  have "length (AList.update key e s) = length (map fst (AList.update key e s))" by simp
  also have "\<dots> = (if key \<in> set (map fst s) then length s else Suc (length s))" by (simp add: update_keys)
  finally show ?thesis by (simp add: map_of_eq_None_iff)
qed

section \<open>The operations on the table\<close>

lemma cleanup_inv: "limiter_inv P l \<Longrightarrow> limiter_inv P (maybe_cleanup_at_capacity now l)"
proof (cases "al_tracked l < al_capacity l \<or> unix_nano now < al_cleanup_next l")
  case True
  then show "limiter_inv P l \<Longrightarrow> ?thesis" by (elim disjE) (simp_all add: maybe_cleanup_at_capacity_def)
next
  case False
  assume inv: "limiter_inv P l"
  define i where "i = unat (al_cleanup_cursor l mod 16)"
  define kept where "kept = filter (\<lambda>(key, e). \<not> entry_expired l e now) (al_shards l ! i)"
  have i: "i < 16" by (simp add: i_def unat_mod)
  then have ok: "shard_ok P i (al_shards l ! i)" using inv unfolding limiter_inv_def by blast
  note d = shard_okD(1) [OF ok]
  have dk: "distinct (map fst kept)" using d by (simp add: kept_def distinct_map_filter)
  have "shard_ok P i kept"
    by (rule shard_okI [OF dk]) (use map_of_filter_value [OF d] shard_okD(2) [OF ok] in \<open>auto simp: kept_def split: option.splits if_splits\<close>)
  moreover have "length kept \<le> length (al_shards l ! i)" by (simp add: kept_def)
  ultimately show ?thesis
    using False limiter_inv_count [OF inv]
    by (intro limiter_inv_put [OF inv i])
      (simp_all add: maybe_cleanup_at_capacity_def Let_def i_def [symmetric] kept_def [symmetric])
qed

lemma live_entry_inv:
  assumes inv: "limiter_inv P l" and run: "live_entry key now l = (entry, l1)"
  shows "limiter_inv P l1" "entry = Some e \<Longrightarrow> P key e"
proof -
  have i: "shard_index key < 16" by (rule shard_index_less)
  then have ok: "shard_ok P (shard_index key) (al_shards l ! shard_index key)" using inv unfolding limiter_inv_def by blast
  show "entry = Some e \<Longrightarrow> P key e"
    using run limiter_inv_entry [OF inv] by (auto simp: live_entry_def split: option.splits if_splits)
  show "limiter_inv P l1"
  proof (cases "l1 = l")
    case False
    then obtain e where e: "shard_entry l key = Some e"
      and l1: "l1 = l\<lparr>al_shards := (al_shards l)[shard_index key := AList.delete key (al_shards l ! shard_index key)],
        al_tracked := al_tracked l - 1, al_expired := al_expired l + 1\<rparr>"
      using run by (auto simp: live_entry_def split: option.splits if_splits)
    note d = shard_okD(1) [OF ok]
    have "shard_ok P (shard_index key) (AList.delete key (al_shards l ! shard_index key))"
      by (rule shard_ok_delete [OF ok])
    then show ?thesis
      using limiter_inv_count [OF inv] length_delete [OF d e [unfolded shard_entry_def]]
      by - (rule limiter_inv_put [OF inv i, where s = "AList.delete key (al_shards l ! shard_index key)"], auto simp: l1)
  qed (use inv in simp)
qed

lemma set_entry_inv:
  assumes inv: "limiter_inv P l" and old: "shard_entry l key = Some e0" and e: "P key e"
  shows "limiter_inv P (set_entry key e l)"
proof -
  have i: "shard_index key < 16" by (rule shard_index_less)
  then have ok: "shard_ok P (shard_index key) (al_shards l ! shard_index key)" using inv unfolding limiter_inv_def by blast
  have "shard_ok P (shard_index key) (AList.update key e (al_shards l ! shard_index key))"
    by (rule shard_ok_update [where P = P, OF ok e])
  then show ?thesis
    using limiter_inv_count [OF inv] old [unfolded shard_entry_def]
    by - (rule limiter_inv_put [OF inv i, where s = "AList.update key e (al_shards l ! shard_index key)"],
      simp_all add: set_entry_def length_update)
qed

lemma add_entry_inv:
  assumes inv: "limiter_inv P l" and old: "shard_entry l key = None" and e: "P key e" and room: "al_tracked l < al_capacity l"
  shows "limiter_inv P (set_entry key e (l\<lparr>al_tracked := al_tracked l + 1\<rparr>))"
proof -
  have i: "shard_index key < 16" by (rule shard_index_less)
  then have ok: "shard_ok P (shard_index key) (al_shards l ! shard_index key)" using inv unfolding limiter_inv_def by blast
  have "shard_ok P (shard_index key) (AList.update key e (al_shards l ! shard_index key))"
    by (rule shard_ok_update [where P = P, OF ok e])
  then show ?thesis
    using room old [unfolded shard_entry_def]
    by - (rule limiter_inv_put [OF inv i, where s = "AList.update key e (al_shards l ! shard_index key)"],
      simp_all add: set_entry_def length_update)
qed

text \<open>A property of entries that a failure at a given time keeps.\<close>

definition failed_entry :: "abuse_limiter \<Rightarrow> gotime \<Rightarrow> abuse_entry \<Rightarrow> abuse_entry" where
  "failed_entry l now e =
     (if after (ae_blocked_until e) now then e
      else fst (count_failure l now
        (if after (ae_window_start e) now \<or> \<not> before now (ae_window_start e + al_window l)
         then e\<lparr>ae_window_start := now, ae_failures := 0\<rparr> else e)))"

lemma failed_entry_cong:
  "al_threshold l' = al_threshold l \<Longrightarrow> al_window l' = al_window l \<Longrightarrow> al_block l' = al_block l \<Longrightarrow>
    failed_entry l' now = failed_entry l now"
  by (rule ext) (simp add: failed_entry_def count_failure_def Let_def)

lemma record_entry_inv:
  assumes inv: "limiter_inv P l" and old: "shard_entry l key = Some e" and e: "P key (failed_entry l now e)"
  shows "limiter_inv P (record_entry key now e l)"
proof (cases "after (ae_blocked_until e) now")
  case False
  then have "limiter_inv P (set_entry key (failed_entry l now e) l)" by (intro set_entry_inv [OF inv old e])
  then show ?thesis
    by (rule limiter_inv_same) (use False in \<open>simp_all add: record_entry_def failed_entry_def set_entry_def split: prod.split\<close>)
qed (simp add: record_entry_def inv)

lemma shard_entry_set: "length (al_shards l) = 16 \<Longrightarrow> shard_entry (set_entry key e l) key' = (if key' = key then Some e else shard_entry l key')"
  using shard_index_less [of key] by (simp add: shard_entry_def set_entry_def update_conv' nth_list_update)

lemma live_entry_none:
  assumes "length (al_shards l) = 16" "live_entry key now l = (None, l1)"
  shows "shard_entry l1 key = None"
  using assms shard_index_less [of key]
  by (auto simp: live_entry_def shard_entry_def delete_conv' split: option.splits if_splits)

lemma live_entry_some: "live_entry key now l = (Some e, l1) \<Longrightarrow> l1 = l \<and> shard_entry l key = Some e \<and> \<not> entry_expired l e now"
  by (auto simp: live_entry_def split: option.splits if_splits)

lemma live_entry_fields:
  "live_entry key now l = (entry, l1) \<Longrightarrow> al_threshold l1 = al_threshold l \<and> al_window l1 = al_window l \<and> al_block l1 = al_block l \<and>
    al_capacity l1 = al_capacity l \<and> al_overflow l1 = al_overflow l"
  by (auto simp: live_entry_def split: option.splits if_splits)

lemma record_in_shard_inv:
  assumes inv: "limiter_inv P l" and new0: "P key (new_entry now)" and keep: "\<And>e. P key e \<Longrightarrow> P key (failed_entry l now e)"
  shows "limiter_inv P (snd (record_in_shard key now l))"
proof -
  obtain entry l1 where live: "live_entry key now l = (entry, l1)" by (metis prod.exhaust)
  note l1 = live_entry_inv [OF inv live]
  have same: "failed_entry l1 now = failed_entry l now"
    using live_entry_fields [OF live] by (intro failed_entry_cong) simp_all
  show ?thesis
  proof (cases entry)
    case (Some e)
    with live live_entry_some have "l1 = l" "shard_entry l key = Some e" by blast+
    with Some live record_entry_inv [OF inv, of key e now] keep l1(2) show ?thesis by (simp add: record_in_shard_def)
  next
    case None
    have len: "length (al_shards l) = 16" "length (al_shards l1) = 16" using inv l1(1) by (simp_all add: limiter_inv_def)
    note none = live_entry_none [OF len(1) live [unfolded None]]
    show ?thesis
    proof (cases "al_capacity l1 \<le> al_tracked l1")
      case True
      with live None l1(1) show ?thesis by (simp add: record_in_shard_def reserve_entry_def)
    next
      case False
      let ?l2 = "set_entry key (new_entry now) (l1\<lparr>al_tracked := al_tracked l1 + 1\<rparr>)"
      have inv2: "limiter_inv P ?l2" using False by (intro add_entry_inv [OF l1(1) none new0]) simp
      have "shard_entry ?l2 key = Some (new_entry now)" using len(2) by (simp add: shard_entry_set)
      moreover have "failed_entry ?l2 now = failed_entry l now"
        using live_entry_fields [OF live] by (intro failed_entry_cong) (simp_all add: set_entry_def)
      ultimately have "limiter_inv P (record_entry key now (new_entry now) ?l2)"
        using keep [OF new0] by (intro record_entry_inv [OF inv2]) simp_all
      with live None False show ?thesis by (simp add: record_in_shard_def reserve_entry_def)
    qed
  qed
qed

text \<open>The number of entries is the number of clients that have one.\<close>

definition clients :: "abuse_limiter \<Rightarrow> string set" where
  "clients l = {key. shard_entry l key \<noteq> None}"

lemma card_clients:
  assumes inv: "limiter_inv P l"
  shows "al_tracked l = int (card (clients l))" "finite (clients l)"
proof -
  let ?keys = "\<lambda>i. fst ` set (al_shards l ! i)"
  have ok: "shard_ok P i (al_shards l ! i)" if "i < 16" for i using inv that unfolding limiter_inv_def by blast
  have idx: "shard_index k = i" if "i < 16" "k \<in> ?keys i" for i k
  proof -
    obtain e where "map_of (al_shards l ! i) k = Some e" using \<open>k \<in> ?keys i\<close> by (metis domD dom_map_of_conv_image_fst)
    from shard_okD(2) [OF ok [OF that(1)] this] show ?thesis by simp
  qed
  have eq: "clients l = (\<Union>i\<in>{..<16}. ?keys i)"
  proof (rule set_eqI)
    fix k
    have "k \<in> clients l \<longleftrightarrow> k \<in> ?keys (shard_index k)"
      by (simp add: clients_def shard_entry_def map_of_eq_None_iff)
    also have "\<dots> \<longleftrightarrow> (\<exists>i < 16. k \<in> ?keys i)" using idx shard_index_less by metis
    finally show "k \<in> clients l \<longleftrightarrow> k \<in> (\<Union>i\<in>{..<16}. ?keys i)" by auto
  qed
  have "card (clients l) = (\<Sum>i<16. card (?keys i))"
    unfolding eq
  proof (rule card_UN_disjoint)
    show "\<forall>i\<in>{..<16}. \<forall>j\<in>{..<16}. i \<noteq> j \<longrightarrow> ?keys i \<inter> ?keys j = {}"
      using idx by (metis disjoint_iff lessThan_iff)
  qed auto
  also have "\<dots> = (\<Sum>i<16. length (al_shards l ! i))"
  proof (rule sum.cong [OF refl])
    fix i :: nat assume "i \<in> {..<16}"
    then have "distinct (map fst (al_shards l ! i))" using shard_okD(1) [OF ok] by blast
    then show "card (?keys i) = length (al_shards l ! i)" by (metis distinct_card length_map list.set_map)
  qed
  finally have "int (card (clients l)) = (\<Sum>i<16. int (length (al_shards l ! i)))" by simp
  moreover have "total (al_shards l) = (\<Sum>i<16. int (length (al_shards l ! i)))"
    using inv by (simp add: total_def sum_list_sum_nth limiter_inv_def atLeast0LessThan)
  ultimately show "al_tracked l = int (card (clients l))" using inv by (simp add: limiter_inv_def)
  show "finite (clients l)" unfolding eq by simp
qed

text \<open>What a lookup sees after each operation.\<close>

lemma cleanup_fields:
  "al_threshold (maybe_cleanup_at_capacity now l) = al_threshold l" "al_window (maybe_cleanup_at_capacity now l) = al_window l"
  "al_block (maybe_cleanup_at_capacity now l) = al_block l" "al_capacity (maybe_cleanup_at_capacity now l) = al_capacity l"
  "al_overflow (maybe_cleanup_at_capacity now l) = al_overflow l"
  by (simp_all add: maybe_cleanup_at_capacity_def Let_def)

lemma cleanup_entry:
  assumes inv: "limiter_inv P l"
  shows "shard_entry (maybe_cleanup_at_capacity now l) key = shard_entry l key \<or>
    shard_entry (maybe_cleanup_at_capacity now l) key = None \<and> (\<exists>e. shard_entry l key = Some e \<and> entry_expired l e now)"
proof -
  define i where "i = unat (al_cleanup_cursor l mod 16)"
  have i: "i < 16" by (simp add: i_def unat_mod)
  then have d: "distinct (map fst (al_shards l ! i))" using inv shard_okD(1) unfolding limiter_inv_def by blast
  have len: "length (al_shards l) = 16" using inv by (simp add: limiter_inv_count)
  show ?thesis
  proof (cases "shard_index key = i")
    case True
    then show ?thesis using len i map_of_filter_value [OF d, of "\<lambda>e. \<not> entry_expired l e now" key]
      by (auto simp: maybe_cleanup_at_capacity_def Let_def i_def [symmetric] shard_entry_def split: option.splits)
  qed (auto simp: maybe_cleanup_at_capacity_def Let_def i_def [symmetric] shard_entry_def)
qed

lemma live_entry_eq:
  assumes len: "length (al_shards l) = 16" and run: "live_entry key now l = (entry, l1)"
  shows "entry = (case shard_entry l key of None \<Rightarrow> None | Some e \<Rightarrow> if entry_expired l e now then None else Some e)"
    "shard_entry l1 key' = (if key' = key then entry else shard_entry l key')"
proof -
  show e: "entry = (case shard_entry l key of None \<Rightarrow> None | Some e \<Rightarrow> if entry_expired l e now then None else Some e)"
    using run by (auto simp: live_entry_def split: option.splits if_splits)
  show "shard_entry l1 key' = (if key' = key then entry else shard_entry l key')"
    using run len shard_index_less [of key]
    by (cases "shard_index key' = shard_index key")
      (auto simp: live_entry_def shard_entry_def delete_conv' split: option.splits if_splits)
qed

lemma record_entry_eq:
  assumes "length (al_shards l) = 16" "shard_entry l key = Some e"
  shows "shard_entry (record_entry key now e l) key' = (if key' = key then Some (failed_entry l now e) else shard_entry l key')"
proof -
  have "shard_entry (l\<lparr>al_blocked := b\<rparr>) k = shard_entry l k" for l b k by (simp add: shard_entry_def)
  then show ?thesis
    using assms by (simp add: record_entry_def failed_entry_def shard_entry_set split: prod.split)
qed

end
