(* ===== verification/Auth_Limiter_Spec.thy ===== *)
theory Auth_Limiter_Spec
  imports Auth_Limiter_Table
begin

text \<open>
  What the limiter promises: while its table has room it answers every request as if each client had
  a counter of its own. The counters are an automaton with three states; the table, its shards, the
  lazy removal of expired entries and the cleanup do not show. Beside the refinement: the bounds that
  hold under any interleaving, and who is blocked and who is not.
\<close>

section \<open>Bounds under any interleaving\<close>

definition counted :: "int \<Rightarrow> abuse_entry \<Rightarrow> bool" where
  "counted thr e \<longleftrightarrow> 0 \<le> ae_failures e \<and> ae_failures e < thr"

lemma counted_failed: "counted (al_threshold l) e \<Longrightarrow> counted (al_threshold l) (failed_entry l now e)"
  by (auto simp: counted_def failed_entry_def count_failure_def Let_def)

lemma counted_new: "0 < thr \<Longrightarrow> counted thr (new_entry now)"
  by (simp add: counted_def new_entry_def)

lemma record_in_shard_fields:
  "al_threshold (snd (record_in_shard key now l)) = al_threshold l \<and> al_capacity (snd (record_in_shard key now l)) = al_capacity l \<and>
   al_window (snd (record_in_shard key now l)) = al_window l \<and> al_block (snd (record_in_shard key now l)) = al_block l \<and>
   al_overflow (snd (record_in_shard key now l)) = al_overflow l"
  using live_entry_fields [of key now l]
  by (cases "live_entry key now l") (auto simp: record_in_shard_def reserve_entry_def record_entry_def set_entry_def split: option.splits prod.splits)

lemma record_overflow_fields:
  "al_threshold (record_overflow now l) = al_threshold l" "al_capacity (record_overflow now l) = al_capacity l"
  "al_window (record_overflow now l) = al_window l" "al_block (record_overflow now l) = al_block l"
  "al_shards (record_overflow now l) = al_shards l" "al_tracked (record_overflow now l) = al_tracked l"
  by (simp_all add: record_overflow_def Let_def split: prod.split)

lemma record_overflow_counted: "counted (al_threshold l) (al_overflow l) \<Longrightarrow> counted (al_threshold l) (al_overflow (record_overflow now l))"
  by (auto simp: record_overflow_def counted_def count_failure_def Let_def)

definition bounded :: "abuse_limiter \<Rightarrow> bool" where
  "bounded l \<longleftrightarrow> limiter_inv (\<lambda>_. counted (al_threshold l)) l \<and> counted (al_threshold l) (al_overflow l)"

lemma bounded_step: "limiter_step l l' \<Longrightarrow> bounded l \<Longrightarrow> bounded l' \<and> al_threshold l' = al_threshold l \<and> al_capacity l' = al_capacity l"
proof (induction rule: limiter_step.induct)
  case (cleanup l now)
  then show ?case using cleanup_inv [of _ l now] by (simp add: bounded_def cleanup_fields)
next
  case (look l key now)
  obtain entry l1 where live: "live_entry key now l = (entry, l1)" by (metis prod.exhaust)
  with look live_entry_inv(1) [OF _ live] live_entry_fields [OF live] show ?case by (simp add: bounded_def)
next
  case (shard l key now)
  have "0 < al_threshold l" using shard by (simp add: bounded_def limiter_inv_def)
  then have "limiter_inv (\<lambda>_. counted (al_threshold l)) (snd (record_in_shard key now l))"
    using shard by (intro record_in_shard_inv counted_new counted_failed) (simp_all add: bounded_def)
  with shard record_in_shard_fields [of key now l] show ?case by (simp add: bounded_def)
next
  case (overflow l now)
  have "limiter_inv (\<lambda>_. counted (al_threshold l)) (record_overflow now l)"
    using overflow limiter_inv_same [OF _ record_overflow_fields(5,6,1,3,4,2)] by (simp add: bounded_def)
  with overflow record_overflow_counted show ?case by (simp add: bounded_def record_overflow_fields)
qed (auto simp: bounded_def intro: limiter_inv_same)

lemma new_limiter_inv:
  assumes "new_abuse_limiter (Some cfg) = Some l"
  shows "limiter_inv P l" "counted (al_threshold l) (al_overflow l)" "al_threshold l = ia_threshold cfg"
    "al_capacity l = ia_capacity cfg" "al_window l = ia_window_seconds cfg * Second" "al_block l = ia_block_seconds cfg * Second"
    "al_overflow l = new_entry 0" "shard_entry l key = None"
proof -
  have total: "total (replicate n []) = 0" for n by (induction n) (simp_all add: total_def)
  have nth: "replicate 16 [] ! shard_index key = ([] :: (string \<times> abuse_entry) list)" using shard_index_less [of key] by simp
  show "limiter_inv P l" "counted (al_threshold l) (al_overflow l)" "al_threshold l = ia_threshold cfg"
    "al_capacity l = ia_capacity cfg" "al_window l = ia_window_seconds cfg * Second" "al_block l = ia_block_seconds cfg * Second"
    "al_overflow l = new_entry 0" "shard_entry l key = None"
    using assms nth
    by (auto simp: new_abuse_limiter_def limiter_inv_def invalidAuthAbuseShardCount_def total counted_def new_entry_def
        shard_entry_def split: if_splits)
qed

text \<open>however the requests interleave, the tracked count of the limiter is the number of clients
  in its table, it never exceeds the configured capacity, and every counter, the overflow counter
  included, stays below the threshold.\<close>

theorem limiter_bounded:
  assumes "limiter_reachable cfg l"
  shows "al_tracked l = int (card (clients l)) \<and> al_tracked l \<le> ia_capacity cfg \<and>
    (\<forall>key e. shard_entry l key = Some e \<longrightarrow> 0 \<le> ae_failures e \<and> ae_failures e < ia_threshold cfg) \<and>
    0 \<le> ae_failures (al_overflow l) \<and> ae_failures (al_overflow l) < ia_threshold cfg"
proof -
  obtain l0 where l0: "new_abuse_limiter (Some cfg) = Some l0" and path: "limiter_step\<^sup>*\<^sup>* l0 l"
    using assms by (auto simp: limiter_reachable_def)
  have "bounded l \<and> al_threshold l = ia_threshold cfg \<and> al_capacity l = ia_capacity cfg"
    using path
  proof (induction rule: rtranclp_induct)
    case base
    then show ?case using new_limiter_inv [OF l0] by (simp add: bounded_def)
  next
    case (step l1 l2)
    then show ?case using bounded_step by metis
  qed
  then have b: "limiter_inv (\<lambda>_. counted (ia_threshold cfg)) l" "counted (ia_threshold cfg) (al_overflow l)" "al_capacity l = ia_capacity cfg"
    by (auto simp: bounded_def)
  show ?thesis
    using card_clients(1) [OF b(1)] limiter_inv_count [OF b(1)] limiter_inv_entry [OF b(1)] b(2,3) by (auto simp: counted_def)
qed

definition demo_config :: invalid_abuse_config where
  "demo_config = \<lparr>ia_enabled = True, ia_threshold = 2, ia_window_seconds = 10, ia_block_seconds = 60, ia_capacity = 1\<rparr>"

definition demo_limiter :: abuse_limiter where
  "demo_limiter = the (new_abuse_limiter (Some demo_config))"

lemma demo_limiter_new: "new_abuse_limiter (Some demo_config) = Some demo_limiter"
  by (simp add: demo_limiter_def new_abuse_limiter_def demo_config_def)

theorem limiter_bounded_witness:
  "al_tracked (snd (record_in_shard ''a'' 5 demo_limiter)) \<le> ia_capacity demo_config"
proof -
  have "limiter_reachable demo_config (snd (record_in_shard ''a'' 5 demo_limiter))"
    unfolding limiter_reachable_def using demo_limiter_new limiter_step.shard by blast
  from limiter_bounded [OF this] show ?thesis by blast
qed

section \<open>The abstract limiter: a counter per client\<close>

datatype client_state = Clean | Counting int gotime | Blocked gotime

text \<open>Time passes: a block ends and opens a new window, a window ends.\<close>

definition client_now :: "duration \<Rightarrow> gotime \<Rightarrow> client_state \<Rightarrow> client_state" where
  "client_now window now s =
     (case s of
        Clean \<Rightarrow> Clean
      | Counting n since \<Rightarrow> if since + window \<le> now then Clean else Counting n since
      | Blocked till \<Rightarrow> if after till now then Blocked till else if till + window \<le> now then Clean else Counting 0 till)"

definition client_fail :: "int \<Rightarrow> duration \<Rightarrow> gotime \<Rightarrow> client_state \<Rightarrow> client_state" where
  "client_fail threshold block now s =
     (case s of
        Blocked till \<Rightarrow> Blocked till
      | Clean \<Rightarrow> if threshold \<le> 1 then Blocked (now + block) else Counting 1 now
      | Counting n since \<Rightarrow> if threshold \<le> n + 1 then Blocked (now + block) else Counting (n + 1) since)"

definition client_check :: "gotime \<Rightarrow> client_state \<Rightarrow> duration option" where
  "client_check now s = (case s of Blocked till \<Rightarrow> Some (till - now) | _ \<Rightarrow> None)"

datatype request = Check string | Fail string

fun counters_run :: "int \<Rightarrow> duration \<Rightarrow> duration \<Rightarrow> (gotime \<times> request) list \<Rightarrow> (string \<Rightarrow> client_state) \<Rightarrow> duration option list" where
  "counters_run thr window block [] f = []"
| "counters_run thr window block ((now, Check key) # reqs) f =
     (if key = [] then None else client_check now (client_now window now (f key))) # counters_run thr window block reqs f"
| "counters_run thr window block ((now, Fail key) # reqs) f =
     None # counters_run thr window block reqs
       (if key = [] then f else f(key := client_fail thr block now (client_now window now (f key))))"

fun limiter_run :: "(gotime \<times> request) list \<Rightarrow> abuse_limiter \<Rightarrow> duration option list" where
  "limiter_run [] l = []"
| "limiter_run ((now, Check key) # reqs) l = (let (r, l1) = limiter_check key now l in r # limiter_run reqs l1)"
| "limiter_run ((now, Fail key) # reqs) l = None # limiter_run reqs (limiter_record key now l)"

text \<open>The counter that an entry stands for.\<close>

definition entry_view :: "duration \<Rightarrow> gotime \<Rightarrow> abuse_entry \<Rightarrow> client_state" where
  "entry_view window now e =
     (if after (ae_blocked_until e) now then Blocked (ae_blocked_until e)
      else if ae_window_start e + window \<le> now then Clean
      else Counting (ae_failures e) (ae_window_start e))"

definition client_view :: "abuse_limiter \<Rightarrow> gotime \<Rightarrow> string \<Rightarrow> client_state" where
  "client_view l now key = (case shard_entry l key of None \<Rightarrow> Clean | Some e \<Rightarrow> entry_view (al_window l) now e)"

text \<open>Entries at a time: a running block starts no window before its end, and no window starts later
  than now.\<close>

definition timely :: "gotime \<Rightarrow> string \<Rightarrow> abuse_entry \<Rightarrow> bool" where
  "timely T key e \<longleftrightarrow> (after (ae_blocked_until e) T \<longrightarrow> ae_window_start e = ae_blocked_until e \<and> ae_failures e = 0) \<and>
     (\<not> after (ae_blocked_until e) T \<longrightarrow> ae_window_start e \<le> T)"

lemma timely_mono: "timely T key e \<Longrightarrow> T \<le> T' \<Longrightarrow> timely T' key e"
  by (auto simp: timely_def)

lemma limiter_inv_mono: "limiter_inv P l \<Longrightarrow> (\<And>key e. P key e \<Longrightarrow> Q key e) \<Longrightarrow> limiter_inv Q l"
  unfolding limiter_inv_def shard_ok_def by blast

lemma timely_new: "0 \<le> now \<Longrightarrow> timely now key (new_entry now)"
  by (simp add: timely_def new_entry_def)

lemma timely_failed: "0 < al_block l \<Longrightarrow> timely now key e \<Longrightarrow> timely now key (failed_entry l now e)"
  by (auto simp: timely_def failed_entry_def count_failure_def Let_def)

lemma view_later:
  assumes "0 < w" "timely T key e" "T \<le> T'"
  shows "entry_view w T' e = client_now w T' (entry_view w T e)"
  using assms by (auto simp: timely_def entry_view_def client_now_def)

lemma client_now_twice: "0 < w \<Longrightarrow> T \<le> T' \<Longrightarrow> client_now w T' (client_now w T s) = client_now w T' s"
  by (cases s) (auto simp: client_now_def)

lemma view_failed:
  assumes "0 < al_window l" "0 < al_block l" "timely now key e" "\<not> entry_expired l e now"
  shows "entry_view (al_window l) now (failed_entry l now e) = client_fail (al_threshold l) (al_block l) now (entry_view (al_window l) now e)"
  using assms
  by (auto simp: timely_def entry_view_def failed_entry_def count_failure_def client_fail_def entry_expired_def Let_def)

lemma view_first:
  assumes "0 \<le> now" "0 < al_window l" "0 < al_block l"
  shows "entry_view (al_window l) now (failed_entry l now (new_entry now)) = client_fail (al_threshold l) (al_block l) now Clean"
  using assms by (auto simp: entry_view_def failed_entry_def new_entry_def count_failure_def client_fail_def Let_def)

lemma expired_view: "0 < al_window l \<Longrightarrow> entry_expired l e now \<longleftrightarrow> entry_view (al_window l) now e = Clean"
  by (auto simp: entry_expired_def entry_view_def)

text \<open>The lookups leave every client's counter as it was.\<close>

lemma cleanup_view:
  assumes "limiter_inv P l"
  shows "client_view (maybe_cleanup_at_capacity now l) now key = client_view l now key"
proof -
  have w: "0 < al_window l" using assms by (simp add: limiter_inv_def)
  show ?thesis using cleanup_entry [OF assms, of now key] expired_view [OF w]
    by (auto simp: client_view_def cleanup_fields split: option.splits)
qed

lemma live_view:
  assumes inv: "limiter_inv P l" and run: "live_entry key now l = (entry, l1)"
  shows "client_view l1 now key' = client_view l now key'"
    "client_view l now key = (case entry of None \<Rightarrow> Clean | Some e \<Rightarrow> entry_view (al_window l) now e)"
    "entry = Some e \<Longrightarrow> \<not> entry_expired l e now"
proof -
  have w: "0 < al_window l" "length (al_shards l) = 16" using inv by (simp_all add: limiter_inv_def)
  note eq = live_entry_eq [OF w(2) run]
  have win: "al_window l1 = al_window l" using live_entry_fields [OF run] by simp
  show v: "client_view l now key = (case entry of None \<Rightarrow> Clean | Some e \<Rightarrow> entry_view (al_window l) now e)"
    using eq(1) expired_view [OF w(1)] by (auto simp: client_view_def split: option.splits if_splits)
  show "client_view l1 now key' = client_view l now key'"
    using eq(2) [of key'] v win by (auto simp: client_view_def split: option.splits)
  show "entry = Some e \<Longrightarrow> \<not> entry_expired l e now"
    using eq(1) by (auto split: option.splits if_splits)
qed

lemma record_in_shard_eq:
  assumes len: "length (al_shards l) = 16" "length (al_shards l1) = 16" and run: "live_entry key now l = (entry, l1)"
    and room: "entry = None \<Longrightarrow> al_tracked l1 < al_capacity l1"
  shows "fst (record_in_shard key now l) = False"
    "shard_entry (snd (record_in_shard key now l)) key' =
      (if key' = key then Some (failed_entry l now (case entry of None \<Rightarrow> new_entry now | Some e \<Rightarrow> e)) else shard_entry l1 key')"
proof -
  show "fst (record_in_shard key now l) = False"
    using run room by (cases entry) (auto simp: record_in_shard_def reserve_entry_def)
  show "shard_entry (snd (record_in_shard key now l)) key' =
      (if key' = key then Some (failed_entry l now (case entry of None \<Rightarrow> new_entry now | Some e \<Rightarrow> e)) else shard_entry l1 key')"
  proof (cases entry)
    case (Some e)
    then have "l1 = l" "shard_entry l key = Some e" using live_entry_some run by blast+
    with Some run record_entry_eq [OF len(1), of key e now key'] show ?thesis by (simp add: record_in_shard_def)
  next
    case None
    let ?l0 = "l1\<lparr>al_tracked := al_tracked l1 + 1\<rparr>"
    let ?l2 = "set_entry key (new_entry now) ?l0"
    have l2: "length (al_shards ?l2) = 16" using len(2) by (simp add: set_entry_def)
    have e2: "shard_entry ?l2 k = (if k = key then Some (new_entry now) else shard_entry l1 k)" for k
      using shard_entry_set [of ?l0 key "new_entry now" k] len(2) by (simp add: shard_entry_def)
    have "failed_entry ?l2 now = failed_entry l now"
      using live_entry_fields [OF run] by (intro failed_entry_cong) (simp_all add: set_entry_def)
    with None run room record_entry_eq [OF l2, of key "new_entry now" now key'] e2 show ?thesis
      by (simp add: record_in_shard_def reserve_entry_def)
  qed
qed

text \<open>The simulation: the clients seen so far are among those that may fail, and every client's
  counter is the one of the abstract limiter, as of now.\<close>

definition simulates :: "string set \<Rightarrow> gotime \<Rightarrow> (string \<Rightarrow> client_state) \<Rightarrow> abuse_limiter \<Rightarrow> bool" where
  "simulates K T f l \<longleftrightarrow> limiter_inv (timely T) l \<and> ae_blocked_until (al_overflow l) = 0 \<and> clients l \<subseteq> K \<and>
     int (card K) \<le> al_capacity l \<and> finite K \<and> (\<forall>key. client_view l T key = client_now (al_window l) T (f key))"

lemma simulates_later:
  assumes sim: "simulates K T f l" and T: "T \<le> T'"
  shows "simulates K T' f l"
proof -
  have w: "0 < al_window l" and inv: "limiter_inv (timely T) l" using sim by (simp_all add: simulates_def limiter_inv_def)
  have "client_view l T' key = client_now (al_window l) T' (client_view l T key)" for key
    using view_later [OF w _ T] limiter_inv_entry [OF inv]
    by (auto simp: client_view_def client_now_def [of _ _ Clean] split: option.split)
  then have "client_view l T' key = client_now (al_window l) T' (f key)" for key
    using sim client_now_twice [OF w T] by (simp add: simulates_def)
  moreover have "limiter_inv (timely T') l" using limiter_inv_mono [OF inv] timely_mono T by blast
  ultimately show ?thesis using sim by (simp add: simulates_def)
qed

lemma simulates_cleanup:
  assumes sim: "simulates K T f l"
  shows "simulates K T f (maybe_cleanup_at_capacity T l)"
proof -
  have inv: "limiter_inv (timely T) l" using sim by (simp add: simulates_def)
  have "clients (maybe_cleanup_at_capacity T l) \<subseteq> clients l"
    unfolding clients_def using cleanup_entry [OF inv] by (metis (mono_tags, lifting) mem_Collect_eq subsetI)
  then show ?thesis
    using sim cleanup_inv [OF inv, of T] cleanup_view [OF inv, of T] by (auto simp: simulates_def cleanup_fields)
qed

lemma simulates_same:
  assumes "simulates K T f l" "al_shards l' = al_shards l" "al_tracked l' = al_tracked l" "al_overflow l' = al_overflow l"
    "al_threshold l' = al_threshold l" "al_window l' = al_window l" "al_block l' = al_block l" "al_capacity l' = al_capacity l"
  shows "simulates K T f l'"
proof -
  have "shard_entry l' = shard_entry l" by (rule ext) (simp add: shard_entry_def assms(2))
  then have "client_view l' T = client_view l T" "clients l' = clients l"
    unfolding client_view_def clients_def assms(6) by simp_all
  then show ?thesis using assms(1,4,6,8) limiter_inv_same [OF _ assms(2,3,5-8)] by (simp add: simulates_def)
qed

lemma simulates_live:
  assumes sim: "simulates K T f l" and run: "live_entry key T l = (entry, l1)"
  shows "simulates K T f l1" "clients l1 \<subseteq> clients l" "entry = None \<Longrightarrow> key \<notin> clients l1"
    "client_now (al_window l) T (f key) = (case entry of None \<Rightarrow> Clean | Some e \<Rightarrow> entry_view (al_window l) T e)"
    "al_window l1 = al_window l"
proof -
  have inv: "limiter_inv (timely T) l" and len: "length (al_shards l) = 16" using sim by (simp_all add: simulates_def limiter_inv_def)
  note eq = live_entry_eq [OF len run] and fields = live_entry_fields [OF run]
  show sub: "clients l1 \<subseteq> clients l" using eq by (auto simp: clients_def split: option.splits if_splits)
  show "simulates K T f l1"
    using sim live_entry_inv(1) [OF inv run] live_view(1) [OF inv run] fields sub by (auto simp: simulates_def)
  show "entry = None \<Longrightarrow> key \<notin> clients l1" using eq(2) [of key] by (simp add: clients_def)
  show "client_now (al_window l) T (f key) = (case entry of None \<Rightarrow> Clean | Some e \<Rightarrow> entry_view (al_window l) T e)"
    using sim live_view(2) [OF inv run] by (simp add: simulates_def)
  show "al_window l1 = al_window l" using fields by simp
qed

lemma check_simulates:
  assumes sim: "simulates K T f l" and T: "0 \<le> T" and key: "key \<noteq> []"
  shows "fst (limiter_check key T l) = client_check T (client_now (al_window l) T (f key))"
    "simulates K T f (snd (limiter_check key T l))" "al_window (snd (limiter_check key T l)) = al_window l"
proof -
  let ?l1 = "maybe_cleanup_at_capacity T l"
  obtain entry l2 where live: "live_entry key T ?l1 = (entry, l2)" by (metis prod.exhaust)
  note s = simulates_live [OF simulates_cleanup [OF sim] live]
  have none: "check_overflow T l2 = None" using s(1) T by (simp add: simulates_def check_overflow_def)
  show "fst (limiter_check key T l) = client_check T (client_now (al_window l) T (f key))"
    using key live none s(4) by (auto simp: limiter_check_def cleanup_fields client_check_def entry_view_def split: option.splits)
  show "simulates K T f (snd (limiter_check key T l))" "al_window (snd (limiter_check key T l)) = al_window l"
    using key live none s(1,5) by (auto simp: limiter_check_def cleanup_fields intro: simulates_same split: option.splits)
qed

lemma client_view_cong:
  "shard_entry l' k = shard_entry l k \<Longrightarrow> al_window l' = al_window l \<Longrightarrow> client_view l' now k = client_view l now k"
  unfolding client_view_def by (simp only:)

lemma check_params:
  "al_threshold (snd (limiter_check key now l)) = al_threshold l \<and> al_block (snd (limiter_check key now l)) = al_block l"
proof -
  obtain entry l1 where live: "live_entry key now (maybe_cleanup_at_capacity now l) = (entry, l1)" by (metis prod.exhaust)
  then show ?thesis
    using live_entry_fields [OF live] by (auto simp: limiter_check_def cleanup_fields split: option.split)
qed

lemma record_simulates:
  assumes sim: "simulates K T f l" and T: "0 \<le> T" and key: "key \<noteq> []" "key \<in> K"
    and params: "al_threshold l = thr" "al_window l = w" "al_block l = b"
  shows "simulates K T (f(key := client_fail thr b T (client_now w T (f key)))) (limiter_record key T l)"
    "al_threshold (limiter_record key T l) = thr \<and> al_window (limiter_record key T l) = w \<and> al_block (limiter_record key T l) = b"
proof -
  let ?l1 = "maybe_cleanup_at_capacity T (l\<lparr>al_recorded := al_recorded l + 1\<rparr>)"
  have sim1: "simulates K T f ?l1" by (intro simulates_cleanup simulates_same [OF sim]) simp_all
  have p1: "al_threshold ?l1 = thr" "al_window ?l1 = w" "al_block ?l1 = b" using params by (simp_all add: cleanup_fields)
  obtain entry l2 where live: "live_entry key T ?l1 = (entry, l2)" by (metis prod.exhaust)
  note s = simulates_live [OF sim1 live]
  have inv: "limiter_inv (timely T) ?l1" "limiter_inv (timely T) l2" using sim1 s(1) by (simp_all add: simulates_def)
  then have len: "length (al_shards ?l1) = 16" "length (al_shards l2) = 16" and pos: "0 < w" "0 < b"
    using p1 by (simp_all add: limiter_inv_def)
  have room: "al_tracked l2 < al_capacity l2" if "entry = None"
  proof -
    have "clients l2 \<subset> K" using s(1) s(3) [OF that] key(2) by (auto simp: simulates_def)
    then have "card (clients l2) < card K" using s(1) psubset_card_mono by (auto simp: simulates_def)
    then show ?thesis using card_clients(1) [OF inv(2)] s(1) by (simp add: simulates_def)
  qed
  define l3 where "l3 = snd (record_in_shard key T ?l1)"
  note rec = record_in_shard_eq [OF len live room, folded l3_def]
  have run: "limiter_record key T l = l3"
    using key(1) rec(1) by (cases "record_in_shard key T ?l1") (simp add: limiter_record_def l3_def)
  have f3: "al_threshold l3 = thr \<and> al_capacity l3 = al_capacity ?l1 \<and> al_window l3 = w \<and> al_block l3 = b \<and> al_overflow l3 = al_overflow ?l1"
    using record_in_shard_fields [of key T ?l1] p1 by (simp add: l3_def)
  then show "al_threshold (limiter_record key T l) = thr \<and> al_window (limiter_record key T l) = w \<and> al_block (limiter_record key T l) = b"
    by (simp add: run)
  let ?e = "case entry of None \<Rightarrow> new_entry T | Some e \<Rightarrow> e"
  have new: "entry_view w T (failed_entry ?l1 T ?e) = client_fail thr b T (client_now w T (f key))"
  proof (cases entry)
    case None
    then show ?thesis using view_first [OF T, of ?l1] pos p1 s(4) by simp
  next
    case (Some e)
    then show ?thesis
      using view_failed [of ?l1 T key e] live_entry_inv(2) [OF inv(1) live] live_view(3) [OF inv(1) live] pos p1 s(4) by simp
  qed
  have inv3: "limiter_inv (timely T) l3"
    unfolding l3_def using pos(2) p1(3) timely_failed [of ?l1 T] by (intro record_in_shard_inv [OF inv(1)] timely_new [OF T]) simp_all
  have fixed: "client_now w T (client_fail thr b T (client_now w T s)) = client_fail thr b T (client_now w T s)" for s
    using pos by (cases s) (auto simp: client_now_def client_fail_def)
  have view: "client_view l3 T k = client_now w T ((f(key := client_fail thr b T (client_now w T (f key)))) k)" for k
  proof (cases "k = key")
    case True
    then show ?thesis using rec(2) [of k] new f3 fixed by (simp add: client_view_def)
  next
    case False
    then have "client_view l3 T k = client_view l2 T k" using rec(2) [of k] f3 s(5) p1 by (intro client_view_cong) simp_all
    with False s(1,5) p1 show ?thesis by (simp add: simulates_def)
  qed
  have "clients l3 \<subseteq> insert key (clients l2)" using rec(2) by (auto simp: clients_def split: if_splits)
  with s(1) key(2) have "clients l3 \<subseteq> K" by (auto simp: simulates_def)
  with inv3 view f3 sim1 show "simulates K T (f(key := client_fail thr b T (client_now w T (f key)))) (limiter_record key T l)"
    unfolding run by (simp add: simulates_def)
qed

definition failing :: "(gotime \<times> request) list \<Rightarrow> string set" where
  "failing reqs = {key. \<exists>now. (now, Fail key) \<in> set reqs}"

lemma run_simulates:
  assumes "simulates K T f l" "sorted (T # map fst reqs)" "0 \<le> T" "failing reqs \<subseteq> K"
    "al_threshold l = thr" "al_window l = w" "al_block l = b"
  shows "limiter_run reqs l = counters_run thr w b reqs f"
  using assms
proof (induction reqs arbitrary: T f l)
  case (Cons r reqs)
  obtain now q where r: "r = (now, q)" by (cases r)
  have T: "T \<le> now" "0 \<le> now" "sorted (now # map fst reqs)" and sub: "failing reqs \<subseteq> K"
    using Cons.prems(2,3,4) r by (auto simp: failing_def)
  note sim = simulates_later [OF Cons.prems(1) T(1)]
  show ?case
  proof (cases q)
    case (Check key)
    show ?thesis
    proof (cases "key = []")
      case True
      then show ?thesis using Cons.IH [OF sim T(3,2) sub Cons.prems(5-7)] r Check by (simp add: limiter_check_def)
    next
      case False
      obtain ans l1 where run: "limiter_check key now l = (ans, l1)" by (metis prod.exhaust)
      note c = check_simulates [OF sim T(2) False, unfolded run fst_conv snd_conv]
      have "al_threshold l1 = thr" "al_block l1 = b" using check_params [of key now l] run Cons.prems(5,7) by simp_all
      with Cons.IH [OF c(2) T(3,2) sub] c(1,3) Cons.prems(6) r Check False run show ?thesis by simp
    qed
  next
    case (Fail key)
    show ?thesis
    proof (cases "key = []")
      case True
      then show ?thesis using Cons.IH [OF sim T(3,2) sub Cons.prems(5-7)] r Fail by (simp add: limiter_record_def)
    next
      case False
      have "key \<in> K" using Cons.prems(4) r Fail by (auto simp: failing_def)
      note c = record_simulates [OF sim T(2) False this Cons.prems(5-7)]
      from Cons.IH [OF c(1) T(3,2) sub] c(2) r Fail False show ?thesis by (simp add: fun_upd_def)
    qed
  qed
qed simp

lemma new_limiter_run:
  assumes "new_abuse_limiter (Some cfg) = Some l" "sorted (0 # map fst reqs)"
    "finite (failing reqs)" "int (card (failing reqs)) \<le> ia_capacity cfg"
  shows "limiter_run reqs l =
    counters_run (ia_threshold cfg) (ia_window_seconds cfg * Second) (ia_block_seconds cfg * Second) reqs (\<lambda>_. Clean)"
proof (rule run_simulates [OF _ assms(2) _ order_refl])
  note new = new_limiter_inv [OF assms(1)]
  show "simulates (failing reqs) 0 (\<lambda>_. Clean) l"
    using new assms(3,4) by (auto simp: simulates_def clients_def client_view_def client_now_def new_entry_def)
qed (use new_limiter_inv [OF assms(1)] in simp_all)

text \<open>C37: as long as the clients that fail are no more than the capacity, the limiter refines the table
  of independent counters: on every sequence of requests at non-decreasing times it gives the same
  answers, whatever the shards, the cleanups and the removals of expired entries do.\<close>

theorem limiter_refines_counters:
  assumes "new_abuse_limiter (Some cfg) = Some l" "sorted (0 # map fst reqs)"
    "finite (failing reqs)" "int (card (failing reqs)) \<le> ia_capacity cfg"
  shows "limiter_run reqs l =
    counters_run (ia_threshold cfg) (ia_window_seconds cfg * Second) (ia_block_seconds cfg * Second) reqs (\<lambda>_. Clean)"
  by (rule new_limiter_run [OF assms])

definition demo_requests :: "(gotime \<times> request) list" where
  "demo_requests = [(Second, Fail ''a''), (2 * Second, Check ''a''), (3 * Second, Fail ''a''), (4 * Second, Check ''a''), (4 * Second, Check ''b'')]"

lemma demo_failing: "failing demo_requests = {''a''}"
  by (auto simp: failing_def demo_requests_def)

theorem limiter_refines_counters_witness:
  "limiter_run demo_requests demo_limiter = [None, None, None, Some (59 * Second), None]"
proof -
  have "limiter_run demo_requests demo_limiter =
      counters_run 2 (10 * Second) (60 * Second) demo_requests (\<lambda>_. Clean)"
    using limiter_refines_counters [OF demo_limiter_new, of demo_requests, unfolded demo_failing]
    by (simp add: demo_requests_def demo_config_def)
  then show ?thesis by (simp add: demo_requests_def client_fail_def client_now_def client_check_def)
qed

text \<open>A client that has failed less often than the threshold is not blocked.\<close>

definition failures_of :: "string \<Rightarrow> (gotime \<times> request) list \<Rightarrow> nat" where
  "failures_of key reqs = length (filter (\<lambda>r. snd r = Fail key) reqs)"

definition at_most :: "int \<Rightarrow> client_state \<Rightarrow> bool" where
  "at_most n s \<longleftrightarrow> (case s of Clean \<Rightarrow> 0 \<le> n | Counting m _ \<Rightarrow> 0 \<le> m \<and> m \<le> n | Blocked _ \<Rightarrow> False)"

lemma at_most_now: "at_most n s \<Longrightarrow> at_most n (client_now w t s)"
  by (auto simp: at_most_def client_now_def split: client_state.splits)

lemma at_most_fail: "at_most n s \<Longrightarrow> n + 1 < thr \<Longrightarrow> at_most (n + 1) (client_fail thr b t s)"
  by (auto simp: at_most_def client_fail_def split: client_state.splits)

lemma counters_innocent:
  "at_most n (f key) \<Longrightarrow> n + int (failures_of key reqs) < thr \<Longrightarrow> (i < length reqs \<and> snd (reqs ! i) = Check key \<Longrightarrow>
    counters_run thr w b reqs f ! i = None)"
proof (induction reqs arbitrary: f n i)
  case (Cons r reqs)
  obtain now q where r: "r = (now, q)" by (cases r)
  show ?case
  proof (cases q)
    case (Check k)
    have "client_check now (client_now w now (f key)) = None"
      using at_most_now [OF Cons.prems(1), of w now] by (auto simp: at_most_def client_check_def split: client_state.splits)
    with Cons.IH [of n f] Cons.prems r Check show ?thesis by (cases i) (auto simp: failures_of_def)
  next
    case (Fail k)
    show ?thesis
    proof (cases "k = key \<and> k \<noteq> []")
      case True
      let ?f = "f(key := client_fail thr b now (client_now w now (f key)))"
      have more: "n + 1 + int (failures_of key reqs) < thr" using Cons.prems(2) r Fail True by (simp add: failures_of_def)
      then have "at_most (n + 1) (?f key)" using at_most_fail [OF at_most_now [OF Cons.prems(1)]] by simp
      with Cons.IH [of "n + 1" ?f] more Cons.prems(3) r Fail True show ?thesis by (cases i) (auto simp: fun_upd_def)
    next
      case False
      let ?f = "if k = [] then f else f(k := client_fail thr b now (client_now w now (f k)))"
      have "n + int (failures_of key reqs) < thr" using Cons.prems(2) r Fail by (simp add: failures_of_def split: if_splits)
      moreover have "at_most n (?f key)" using Cons.prems(1) False by auto
      ultimately show ?thesis using Cons.IH [of n ?f] Cons.prems(3) r Fail by (cases i) (auto split: if_splits)
    qed
  qed
qed simp

text \<open>a client whose invalid keys are fewer than the threshold is never told to wait, whatever the
  other clients do and however long the history is.\<close>

theorem innocent_never_blocked:
  assumes "new_abuse_limiter (Some cfg) = Some l" "sorted (0 # map fst reqs)"
    "finite (failing reqs)" "int (card (failing reqs)) \<le> ia_capacity cfg"
    and "int (failures_of key reqs) < ia_threshold cfg" "i < length reqs" "snd (reqs ! i) = Check key"
  shows "limiter_run reqs l ! i = None"
proof -
  have "at_most 0 Clean" by (simp add: at_most_def)
  then have "counters_run (ia_threshold cfg) w b reqs (\<lambda>_. Clean) ! i = None" for w b
    using counters_innocent [of 0 "\<lambda>_. Clean" key reqs "ia_threshold cfg" i w b] assms(5-7) by simp
  then show ?thesis unfolding new_limiter_run [OF assms(1-4)] .
qed

theorem innocent_never_blocked_witness: "limiter_run demo_requests demo_limiter ! 4 = None"
  by (rule innocent_never_blocked [OF demo_limiter_new, where key = "''b''"])
    (simp_all add: demo_failing, simp_all add: demo_requests_def failures_of_def demo_config_def)

text \<open>The counter of a client depends on its own failures alone.\<close>

fun counters_after :: "int \<Rightarrow> duration \<Rightarrow> duration \<Rightarrow> (gotime \<times> request) list \<Rightarrow> (string \<Rightarrow> client_state) \<Rightarrow> string \<Rightarrow> client_state" where
  "counters_after thr window block [] f = f"
| "counters_after thr window block ((now, Check key) # reqs) f = counters_after thr window block reqs f"
| "counters_after thr window block ((now, Fail key) # reqs) f = counters_after thr window block reqs
       (if key = [] then f else f(key := client_fail thr block now (client_now window now (f key))))"

lemma counters_run_append:
  "counters_run thr w b (xs @ ys) f = counters_run thr w b xs f @ counters_run thr w b ys (counters_after thr w b xs f)"
  by (induction thr w b xs f rule: counters_run.induct) simp_all

lemma length_counters_run: "length (counters_run thr w b xs f) = length xs"
  by (induction thr w b xs f rule: counters_run.induct) simp_all

lemma counters_after_snoc:
  "counters_after thr w b (xs @ [(now, q)]) f =
    (case q of Check key \<Rightarrow> counters_after thr w b xs f
     | Fail key \<Rightarrow> if key = [] then counters_after thr w b xs f
         else (counters_after thr w b xs f)(key := client_fail thr b now (client_now w now (counters_after thr w b xs f key))))"
  by (induction thr w b xs f rule: counters_after.induct) (simp_all split: request.split)

definition failure_times :: "string \<Rightarrow> (gotime \<times> request) list \<Rightarrow> gotime list" where
  "failure_times key reqs = map fst (filter (\<lambda>r. snd r = Fail key) reqs)"

lemma counter_of_window:
  assumes "key \<noteq> []" "0 < thr" "int (length (failure_times key reqs)) \<le> thr"
    "\<forall>t \<in> set (failure_times key reqs). t < hd (failure_times key reqs) + w"
  shows "counters_after thr w b reqs (\<lambda>_. Clean) key =
    (let ts = failure_times key reqs in if ts = [] then Clean
     else if int (length ts) < thr then Counting (int (length ts)) (hd ts) else Blocked (last ts + b))"
  using assms
proof (induction reqs rule: rev_induct)
  case (snoc r reqs)
  obtain now q where r: "r = (now, q)" by (cases r)
  let ?ts = "failure_times key reqs"
  show ?case
  proof (cases "q = Fail key")
    case False
    then have "failure_times key (reqs @ [r]) = ?ts" by (simp add: failure_times_def r)
    with snoc False show ?thesis by (auto simp: r counters_after_snoc split: request.split)
  next
    case True
    then have ts: "failure_times key (reqs @ [r]) = ?ts @ [now]" by (simp add: failure_times_def r)
    have short: "int (length ?ts) < thr" using snoc.prems(3) by (simp add: ts)
    have "hd (?ts @ [now]) = hd ?ts" if "?ts \<noteq> []" using that by simp
    then have all: "\<forall>t \<in> set ?ts. t < hd ?ts + w" "?ts \<noteq> [] \<Longrightarrow> now < hd ?ts + w"
      using snoc.prems(4) unfolding ts by (cases "?ts", auto)+
    have before: "counters_after thr w b reqs (\<lambda>_. Clean) key = (if ?ts = [] then Clean else Counting (int (length ?ts)) (hd ?ts))"
      using snoc.IH [OF snoc.prems(1,2) _ all(1)] short by (simp add: Let_def)
    show ?thesis
      using snoc.prems(1,2) short all(2) before
      by (cases "?ts = []") (auto simp: counters_after_snoc r True ts [unfolded r True] client_now_def client_fail_def Let_def)
  qed
qed (simp add: failure_times_def)

text \<open>as many failures as the threshold inside one window block the client: a check before the block
  ends is answered with exactly the time that is left.\<close>

theorem threshold_blocks:
  assumes "new_abuse_limiter (Some cfg) = Some l" "sorted (0 # map fst (reqs @ [(now, Check key)]))"
    "finite (failing reqs)" "int (card (failing reqs)) \<le> ia_capacity cfg" "key \<noteq> []"
    and "int (length (failure_times key reqs)) = ia_threshold cfg"
    and "\<forall>t \<in> set (failure_times key reqs). t < hd (failure_times key reqs) + ia_window_seconds cfg * Second"
    and "now < last (failure_times key reqs) + ia_block_seconds cfg * Second"
  shows "limiter_run (reqs @ [(now, Check key)]) l ! length reqs =
    Some (last (failure_times key reqs) + ia_block_seconds cfg * Second - now)"
proof -
  let ?w = "ia_window_seconds cfg * Second" and ?b = "ia_block_seconds cfg * Second" and ?thr = "ia_threshold cfg"
  have thr: "0 < ?thr" using assms(1) by (auto simp: new_abuse_limiter_def split: if_splits)
  have "failing (reqs @ [(now, Check key)]) = failing reqs" by (auto simp: failing_def)
  then have run: "limiter_run (reqs @ [(now, Check key)]) l = counters_run ?thr ?w ?b (reqs @ [(now, Check key)]) (\<lambda>_. Clean)"
    using assms(3,4) by (intro new_limiter_run [OF assms(1,2)]) simp_all
  have ts: "failure_times key reqs \<noteq> []" using assms(6) thr by auto
  have "counters_after ?thr ?w ?b reqs (\<lambda>_. Clean) key = Blocked (last (failure_times key reqs) + ?b)"
    using counter_of_window [OF assms(5) thr _ assms(7)] assms(6) ts by (simp add: Let_def)
  then show ?thesis
    unfolding run counters_run_append using assms(5,8)
    by (simp add: nth_append length_counters_run client_now_def client_check_def)
qed

theorem threshold_blocks_witness:
  "limiter_run ([(Second, Fail ''a''), (3 * Second, Fail ''a'')] @ [(4 * Second, Check ''a'')]) demo_limiter ! 2 = Some (59 * Second)"
proof -
  have f: "failing [(Second, Fail ''a''), (3 * Second, Fail ''a'')] = {''a''}" by (auto simp: failing_def)
  from threshold_blocks [OF demo_limiter_new, of "[(Second, Fail ''a''), (3 * Second, Fail ''a'')]" "4 * Second" "''a''", unfolded f]
  show ?thesis by (simp add: failure_times_def demo_config_def)
qed

end
