(* ===== verification/Payment_Lifecycle.thy ===== *)
theory Payment_Lifecycle
  imports Payment_Fulfillment
begin

text \<open>
  Cancelling, expiring and verifying orders, \<open>service/payment_order_lifecycle.go\<close>, on the payment
  store and the fulfilment. What a payment gateway answers is given per call: the provider of an
  order is a record with its answers to the first and the second query. How the provider of an
  order is found, the local calendar and the order in which the database lists orders are
  parameters. The gateway payments that a run asks to cancel are returned beside its result.
\<close>

datatype life_error = LifeNotFound | Forbidden | LifeInvalidStatus | LifeDbFailure | CancelRateLimited | InvalidOutTradeNo

record query_response =
  qr_trade_no :: string
  qr_status :: string
  qr_amount :: f64

record pay_provider =
  pv_key :: string
  pv_query :: "nat \<Rightarrow> string \<Rightarrow> query_response option"
  pv_cancelable :: bool

record life_service =
  ls_pay :: pay_service
  ls_provider :: "pay_order \<Rightarrow> pay_provider option"
  ls_snapshot_key :: "pay_order \<Rightarrow> string"
  ls_order_key :: "pay_order \<Rightarrow> string"

definition checkPaidResultAlreadyPaid :: string where "checkPaidResultAlreadyPaid = ''already_paid''"
definition checkPaidResultCancelled :: string where "checkPaidResultCancelled = ''cancelled''"
definition pendingPaymentReconcileLimit :: nat where "pendingPaymentReconcileLimit = 20"
definition ProviderStatusPaid :: string where "ProviderStatusPaid = ''paid''"
definition TypeAlipay :: string where "TypeAlipay = ''alipay''"
definition TypeWxpay :: string where "TypeWxpay = ''wxpay''"
definition TypeEasyPay :: string where "TypeEasyPay = ''easypay''"
definition TypeStripe :: string where "TypeStripe = ''stripe''"

section \<open>The limit on cancellations\<close>

record cancel_config =
  cc_enabled :: bool
  cc_max :: int
  cc_window :: int
  cc_unit :: string
  cc_mode :: string

text \<open>The local calendar: the start of the day some days before, and the same time some days before.\<close>

record calendar =
  cal_day_start :: "gotime \<Rightarrow> int \<Rightarrow> gotime"
  cal_days_before :: "gotime \<Rightarrow> int \<Rightarrow> gotime"

definition cancel_rate_limit_window_start :: "calendar \<Rightarrow> cancel_config \<Rightarrow> gotime \<Rightarrow> gotime" where
  "cancel_rate_limit_window_start cal cfg now =
     (let w = (if cc_window cfg \<le> 0 then 1 else cc_window cfg);
          unit = (if cc_unit cfg = [] then ''day'' else cc_unit cfg)
      in if cc_mode cfg = ''fixed'' then
           (if unit = ''minute'' then now - now mod Minute - (w - 1) * Minute
            else if unit = ''day'' then cal_day_start cal now (w - 1)
            else now - now mod Hour - (w - 1) * Hour)
         else
           (if unit = ''minute'' then now - w * Minute
            else if unit = ''day'' then cal_days_before cal now w
            else now - w * Hour))"

definition user_operator :: "int \<Rightarrow> string" where
  "user_operator uid = ''user:'' @ show_int uid"

definition count_cancels :: "string \<Rightarrow> gotime \<Rightarrow> pay_db \<Rightarrow> int" where
  "count_cancels op since db = int (length (filter
     (\<lambda>a. au_action a = ''ORDER_CANCELLED'' \<and> au_operator a = op \<and> since \<le> au_created_at a) (pd_audit db)))"

definition check_cancel_rate_limit :: "calendar \<Rightarrow> cancel_config \<Rightarrow> int \<Rightarrow> pay_world \<Rightarrow> life_error option \<times> pay_world" where
  "check_cancel_rate_limit cal cfg uid w =
     (if \<not> cc_enabled cfg \<or> cc_max cfg \<le> 0 then (None, w)
      else
        let since = cancel_rate_limit_window_start cal cfg (now_of w)
        in case call (\<lambda>db. (count_cancels (user_operator uid) since db, db)) w of
             (DbErr, w1) \<Rightarrow> (None, w1)
           | (DbOk n, w1) \<Rightarrow> (if cc_max cfg \<le> n then Some CancelRateLimited else None, w1))"

section \<open>Asking the gateway\<close>

definition get_base_payment_type :: "string \<Rightarrow> string" where
  "get_base_payment_type t =
     (if t = TypeEasyPay then TypeEasyPay
      else if t = ''airwallex'' then ''airwallex''
      else if t = TypeStripe \<or> t = ''card'' \<or> t = ''link'' then TypeStripe
      else if has_prefix t TypeAlipay then TypeAlipay
      else if has_prefix t TypeWxpay then TypeWxpay
      else t)"

definition payment_order_query_reference :: "life_service \<Rightarrow> pay_order \<Rightarrow> pay_provider \<Rightarrow> string" where
  "payment_order_query_reference ls o' prov =
     (let k1 = trim_space (pv_key prov);
          k2 = (if k1 = [] then trim_space (ls_snapshot_key ls o') else k1);
          k3 = (if k2 = [] then trim_space (ls_order_key ls o') else k2);
          k4 = (if k3 = [] then trim_space (po_payment_type o') else k3)
      in if get_base_payment_type k4 \<in> {TypeAlipay, TypeEasyPay, TypeWxpay} then trim_space (po_out_trade_no o')
         else if trim_space (po_trade_no o') \<noteq> [] then trim_space (po_trade_no o')
         else trim_space (po_out_trade_no o'))"

definition should_persist_upstream_trade_no :: "string \<Rightarrow> string \<Rightarrow> string \<Rightarrow> bool" where
  "should_persist_upstream_trade_no query_ref upstream current =
     (let u = trim_space upstream
      in u \<noteq> [] \<and> \<not> equal_fold u (trim_space current) \<and> \<not> equal_fold u (trim_space query_ref))"

definition requery_paid_order_once :: "pay_provider \<Rightarrow> string \<Rightarrow> query_response option" where
  "requery_paid_order_once prov query_ref =
     (if trim_space query_ref = [] then None
      else case pv_query prov 1 query_ref of
        None \<Rightarrow> None
      | Some resp \<Rightarrow>
          if qr_status resp \<noteq> ProviderStatusPaid \<or> \<not> is_valid_provider_amount (qr_amount resp) then None else Some resp)"

definition persist_trade_no :: "int \<Rightarrow> string \<Rightarrow> pay_db \<Rightarrow> int \<times> pay_db" where
  "persist_trade_no oid trade_no = update_order oid (\<lambda>_. True) (\<lambda>x. x\<lparr>po_trade_no := trade_no\<rparr>)"

text \<open>The payment the gateway reports: its trade number is kept, and it is handled like a notification.\<close>

definition handle_reported_payment :: "life_service \<Rightarrow> pay_order \<Rightarrow> pay_provider \<Rightarrow> string \<Rightarrow> query_response \<Rightarrow> pay_world \<Rightarrow> pay_world" where
  "handle_reported_payment ls o' prov query_ref resp w =
     (let upstream = trim_space (qr_trade_no resp);
          (trade_no, w1) =
            (if should_persist_upstream_trade_no query_ref upstream (po_trade_no o')
             then (upstream, snd (call (persist_trade_no (po_id o') upstream) w))
             else (po_trade_no o', w))
      in snd (handle_payment_notification (ls_pay ls)
           \<lparr>pn_trade_no = trade_no, pn_order_id = po_out_trade_no o', pn_amount = qr_amount resp, pn_status = ''success''\<rparr>
           (pv_key prov) w1))"

definition check_paid_with_options ::
  "life_service \<Rightarrow> bool \<Rightarrow> pay_order \<Rightarrow> pay_world \<Rightarrow> (string \<times> string list) \<times> pay_world" where
  "check_paid_with_options ls cancel_if_unpaid o' w =
     (case ls_provider ls o' of
        None \<Rightarrow> (([], []), w)
      | Some prov \<Rightarrow>
          let query_ref = payment_order_query_reference ls o' prov
          in if query_ref = [] then (([], []), w)
             else case pv_query prov 0 query_ref of
               None \<Rightarrow> (([], []), w)
             | Some resp \<Rightarrow>
                 if qr_status resp = ProviderStatusPaid then
                   (let (good, w1) =
                      (if is_valid_provider_amount (qr_amount resp) then (Some resp, w)
                       else (requery_paid_order_once prov query_ref, write_audit_log (po_id o') ''PAYMENT_INVALID_AMOUNT'' (pv_key prov) w))
                    in case good of
                         None \<Rightarrow> (([], []), w1)
                       | Some r \<Rightarrow> ((checkPaidResultAlreadyPaid, []), handle_reported_payment ls o' prov query_ref r w1))
                 else (([], if cancel_if_unpaid \<and> pv_cancelable prov then [query_ref] else []), w))"

definition check_paid :: "life_service \<Rightarrow> pay_order \<Rightarrow> pay_world \<Rightarrow> (string \<times> string list) \<times> pay_world" where
  "check_paid ls = check_paid_with_options ls True"

definition reconcile_paid :: "life_service \<Rightarrow> pay_order \<Rightarrow> pay_world \<Rightarrow> string \<times> pay_world" where
  "reconcile_paid ls o' w = (let ((res, _), w1) = check_paid_with_options ls False o' w in (res, w1))"

section \<open>Cancelling and expiring\<close>

definition close_stmt :: "int \<Rightarrow> string \<Rightarrow> pay_db \<Rightarrow> int \<times> pay_db" where
  "close_stmt oid final = update_order oid (\<lambda>x. po_status x = OrderStatusPending) (\<lambda>x. x\<lparr>po_status := final\<rparr>)"

definition cancel_core ::
  "life_service \<Rightarrow> pay_order \<Rightarrow> string \<Rightarrow> string \<Rightarrow> pay_world \<Rightarrow> ((life_error + string) \<times> string list) \<times> pay_world" where
  "cancel_core ls o' final op w =
     (let ((paid, cancels), w1) =
        (if po_trade_no o' \<noteq> [] \<or> po_payment_type o' \<noteq> [] then check_paid ls o' w else (([], []), w))
      in if paid = checkPaidResultAlreadyPaid then ((Inr checkPaidResultAlreadyPaid, cancels), w1)
         else case call (close_stmt (po_id o') final) w1 of
           (DbErr, w2) \<Rightarrow> ((Inl LifeDbFailure, cancels), w2)
         | (DbOk c, w2) \<Rightarrow>
             ((Inr checkPaidResultCancelled, cancels),
              if c > 0 then write_audit_log (po_id o') (if final = OrderStatusExpired then ''ORDER_EXPIRED'' else ''ORDER_CANCELLED'') op w2
              else w2))"

definition cancel_order :: "life_service \<Rightarrow> int \<Rightarrow> int \<Rightarrow> pay_world \<Rightarrow> ((life_error + string) \<times> string list) \<times> pay_world" where
  "cancel_order ls oid uid w =
     (case get_order oid w of
        (DbOk (Some o'), w1) \<Rightarrow>
          if po_user_id o' \<noteq> uid then ((Inl Forbidden, []), w1)
          else if po_status o' \<noteq> OrderStatusPending then ((Inl LifeInvalidStatus, []), w1)
          else cancel_core ls o' OrderStatusCancelled (user_operator uid) w1
      | (_, w1) \<Rightarrow> ((Inl LifeNotFound, []), w1))"

definition admin_cancel_order :: "life_service \<Rightarrow> int \<Rightarrow> pay_world \<Rightarrow> ((life_error + string) \<times> string list) \<times> pay_world" where
  "admin_cancel_order ls oid w =
     (case get_order oid w of
        (DbOk (Some o'), w1) \<Rightarrow>
          if po_status o' \<noteq> OrderStatusPending then ((Inl LifeInvalidStatus, []), w1)
          else cancel_core ls o' OrderStatusCancelled ''admin'' w1
      | (_, w1) \<Rightarrow> ((Inl LifeNotFound, []), w1))"

text \<open>The orders a query selects, among the ids of the table in the order the database lists them.\<close>

definition select_orders :: "int list \<Rightarrow> (pay_order \<Rightarrow> bool) \<Rightarrow> pay_db \<Rightarrow> pay_order list" where
  "select_orders ids p db = filter p (List.map_filter (pd_orders db) ids)"

definition timed_out :: "gotime \<Rightarrow> pay_order \<Rightarrow> bool" where
  "timed_out now x = (po_status x = OrderStatusPending \<and> po_expires_at x \<le> now)"

fun expire_each :: "life_service \<Rightarrow> pay_order list \<Rightarrow> int \<Rightarrow> pay_world \<Rightarrow> int \<times> pay_world" where
  "expire_each ls [] n w = (n, w)"
| "expire_each ls (o' # rest) n w =
     (let ((res, _), w1) = cancel_core ls o' OrderStatusExpired ''system'' w
      in expire_each ls rest
           (case res of Inl _ \<Rightarrow> n | Inr outcome \<Rightarrow> if outcome = checkPaidResultAlreadyPaid then n else n + 1) w1)"

definition expire_timed_out_orders :: "life_service \<Rightarrow> int list \<Rightarrow> pay_world \<Rightarrow> (life_error + int) \<times> pay_world" where
  "expire_timed_out_orders ls ids w =
     (let now = now_of w
      in case call (\<lambda>db. (select_orders ids (timed_out now) db, db)) w of
           (DbErr, w1) \<Rightarrow> (Inl LifeDbFailure, w1)
         | (DbOk orders, w1) \<Rightarrow> (let (n, w2) = expire_each ls orders 0 w1 in (Inr n, w2)))"

section \<open>Verifying and reconciling\<close>

definition of_type :: "string \<Rightarrow> string \<Rightarrow> bool" where
  "of_type t s = (s = t \<or> has_prefix s (t @ ''_''))"

definition reconcilable :: "life_service \<Rightarrow> gotime \<Rightarrow> pay_order \<Rightarrow> bool" where
  "reconcilable ls now x =
     (po_status x = OrderStatusPending \<and> after (po_expires_at x) now \<and>
      (of_type TypeWxpay (po_payment_type x) \<or> of_type TypeWxpay (ls_order_key ls x) \<or>
       of_type TypeAlipay (po_payment_type x) \<or> of_type TypeAlipay (ls_order_key ls x)))"

fun reconcile_each :: "life_service \<Rightarrow> pay_order list \<Rightarrow> int \<Rightarrow> pay_world \<Rightarrow> int \<times> pay_world" where
  "reconcile_each ls [] n w = (n, w)"
| "reconcile_each ls (o' # rest) n w =
     (let (res, w1) = reconcile_paid ls o' w
      in reconcile_each ls rest (if res = checkPaidResultAlreadyPaid then n + 1 else n) w1)"

definition reconcile_pending_payment_orders :: "life_service \<Rightarrow> int list \<Rightarrow> pay_world \<Rightarrow> (life_error + int) \<times> pay_world" where
  "reconcile_pending_payment_orders ls ids w =
     (let now = now_of w
      in case call (\<lambda>db. (take pendingPaymentReconcileLimit (select_orders ids (reconcilable ls now) db), db)) w of
           (DbErr, w1) \<Rightarrow> (Inl LifeDbFailure, w1)
         | (DbOk orders, w1) \<Rightarrow> (let (n, w2) = reconcile_each ls orders 0 w1 in (Inr n, w2)))"

definition trade_no_char :: "char \<Rightarrow> bool" where
  "trade_no_char c =
     (let n = (of_char c :: nat)
      in 97 \<le> n \<and> n \<le> 122 \<or> 65 \<le> n \<and> n \<le> 90 \<or> 48 \<le> n \<and> n \<le> 57 \<or> c = CHR ''_'' \<or> c = CHR ''-'')"

definition normalize_order_lookup_out_trade_no :: "string \<Rightarrow> string option" where
  "normalize_order_lookup_out_trade_no raw =
     (let s = trim_space raw
      in if s = [] then None else if 64 < length s then None
         else if list_all trade_no_char s then Some s else None)"

definition find_order :: "string \<Rightarrow> pay_world \<Rightarrow> pay_order option answer \<times> pay_world" where
  "find_order out_trade_no = call (\<lambda>db. (case pd_by_out_trade_no db out_trade_no of None \<Rightarrow> None | Some i \<Rightarrow> pd_orders db i, db))"

definition verify_order_by_out_trade_no :: "life_service \<Rightarrow> string \<Rightarrow> int \<Rightarrow> pay_world \<Rightarrow> (life_error + pay_order) \<times> pay_world" where
  "verify_order_by_out_trade_no ls raw uid w =
     (case normalize_order_lookup_out_trade_no raw of
        None \<Rightarrow> (Inl InvalidOutTradeNo, w)
      | Some out_trade_no \<Rightarrow>
          (case find_order out_trade_no w of
             (DbOk (Some o'), w1) \<Rightarrow>
               if po_user_id o' \<noteq> uid then (Inl Forbidden, w1)
               else if po_status o' = OrderStatusPending \<or> po_status o' = OrderStatusExpired then
                 (let (res, w2) = reconcile_paid ls o' w1
                  in if res = checkPaidResultAlreadyPaid
                     then (case get_order (po_id o') w2 of
                             (DbOk (Some cur), w3) \<Rightarrow> (Inr cur, w3)
                           | (_, w3) \<Rightarrow> (Inl LifeDbFailure, w3))
                     else (Inr o', w2))
               else (Inr o', w1)
           | (_, w1) \<Rightarrow> (Inl LifeNotFound, w1)))"

definition verify_order_public :: "string \<Rightarrow> pay_world \<Rightarrow> (life_error + pay_order) \<times> pay_world" where
  "verify_order_public raw w =
     (case normalize_order_lookup_out_trade_no raw of
        None \<Rightarrow> (Inl InvalidOutTradeNo, w)
      | Some out_trade_no \<Rightarrow>
          (case find_order out_trade_no w of
             (DbOk (Some o'), w1) \<Rightarrow> (Inr o', w1)
           | (_, w1) \<Rightarrow> (Inl LifeNotFound, w1)))"

end
