(* ===== verification/Lifecycle_Safety.thy ===== *)
theory Lifecycle_Safety
  imports Payment_Lifecycle Fulfillment_Credit
begin

text \<open>
  Fulfilment and order closing together: whatever notifications, retries, cancellations, expiry
  runs and verifications interleave, an order that was paid is never cancelled or expired; and a
  payment the gateway reports when an order is about to be closed completes the order instead.
\<close>

section \<open>Everything the service does to orders\<close>

text \<open>The statements beside those of a fulfilment, and what follows for every entry point.\<close>

locale lifecycle = fulfilment G "\<lambda>_. True" for G +
  assumes assign_safe: "safe G (assign_tx groups oid uid gid days)"
    and reject_safe: "safe G (update_order oid (\<lambda>x. po_status x = OrderStatusPaid \<or> po_status x = OrderStatusRecharging)
      (\<lambda>x. x\<lparr>po_status := OrderStatusFailed, po_failed_at := Some now, po_failed_reason := Some reason\<rparr>))"
    and paid_safe: "safe G (update_order oid (payable grace)
      (\<lambda>x. x\<lparr>po_status := OrderStatusPaid, po_pay_amount := paid, po_trade_no := trade_no,
        po_paid_at := Some now, po_failed_at := None, po_failed_reason := None\<rparr>))"
    and close_safe: "safe G (close_stmt oid final)"
    and persist_safe: "safe G (persist_trade_no oid trade_no)"
begin

lemma progress_sub: "progress G w (snd (do_sub svc o' gid days lease w))"
proof -
  obtain grp w1 where g: "call (\<lambda>db. (svc_groups svc gid, db)) w = (grp, w1)"
    by (cases "call (\<lambda>db. (svc_groups svc gid, db)) w")
  have p: "progress G w w1" using progress_call_read [of w "\<lambda>db. svc_groups svc gid"] g by simp
  show ?thesis
  proof (cases "\<exists>x. grp = DbOk (Some (True, x))")
    case True
    then have r: "do_sub svc o' gid days lease w = (case call (assign_tx (svc_groups svc) (po_id o') (po_user_id o') gid days) w1 of
        (DbOk True, w2) \<Rightarrow>
          (case apply_affiliate_rebate svc o' w2 of
             (Inl e, w3) \<Rightarrow> (Inl e, w3)
           | (Inr _, w3) \<Rightarrow> mark_completed o' lease ''SUBSCRIPTION_SUCCESS'' w3)
      | (_, w2) \<Rightarrow> (Inl DbFailure, w2))"
      using g by (auto simp: do_sub_def)
    have "progress G w1 (snd (do_sub svc o' gid days lease w))"
      unfolding r by (intro progress_rules assign_safe [THEN progress_callI] progress_rebate progress_complete) simp_all
    with p show ?thesis by (rule progress_trans)
  next
    case False
    then have "do_sub svc o' gid days lease w = (Inl GroupInactive, w1)"
      using g by (auto simp: do_sub_def split: answer.split option.split prod.split bool.split)
    with p show ?thesis by simp
  qed
qed

lemma progress_execute_order:
  "progress G w (snd (execute_balance_fulfillment svc oid w))" "progress G w (snd (execute_subscription_fulfillment svc oid w))"
proof -
  show "progress G w (snd (execute_balance_fulfillment svc oid w))"
    unfolding execute_balance_fulfillment_def by (intro progress_rules progress_with_lease progress_balance) simp_all
  show "progress G w (snd (execute_subscription_fulfillment svc oid w))"
    unfolding execute_subscription_fulfillment_def
    by (intro progress_rules) (simp_all add: progress_with_lease progress_sub split: option.split)
qed

lemma closing_reject: "progress G w (reject_unsupported_order_type o' w)"
  unfolding reject_unsupported_order_type_def Let_def
  by (intro progress_rules reject_safe [THEN progress_callI]) simp_all

lemma closing_execute: "progress G w (snd (execute_fulfillment svc oid w))"
  unfolding execute_fulfillment_def by (intro progress_rules progress_execute_order closing_reject) simp_all

lemma closing_already: "progress G w (snd (already_processed svc o' w))"
  unfolding already_processed_def by (intro progress_rules closing_execute) simp_all

lemma closing_to_paid: "progress G w (snd (to_paid svc o' trade_no paid pk w))"
  unfolding to_paid_def Let_def
  by (intro progress_rules paid_safe [THEN progress_callI] closing_already progress_trans [OF _ closing_execute]
      progress_trans [OF _ progress_write_audit]) simp_all

lemma closing_confirm: "progress G w (snd (confirm_payment svc oid trade_no paid pk w))"
  unfolding confirm_payment_def Let_def by (intro progress_rules closing_to_paid) simp_all

lemma closing_notification: "progress G w (snd (handle_payment_notification svc n pk w))"
  unfolding handle_payment_notification_def by (intro progress_rules closing_confirm) simp_all

lemma closing_retry: "progress G w (snd (retry_fulfillment svc oid w))"
  unfolding retry_fulfillment_def by (intro progress_rules progress_trans [OF progress_write_audit closing_execute]) simp_all

lemma progress_reported: "progress G w (handle_reported_payment ls o' prov query_ref resp w)"
  unfolding handle_reported_payment_def Let_def
  by (auto split: prod.split if_splits intro!: closing_notification progress_trans [OF progress_callI [OF persist_safe] closing_notification])

lemma progress_check_paid: "progress G w (snd (check_paid_with_options ls c o' w))"
  unfolding check_paid_with_options_def Let_def
  by (auto split: option.split prod.split if_splits intro!: progress_reported progress_write_audit
      intro: progress_trans [OF progress_write_audit progress_reported])

lemma progress_reconcile: "progress G w (snd (reconcile_paid ls o' w))"
  using progress_check_paid [of w ls False o']
  by (cases "check_paid_with_options ls False o' w"; cases "fst (check_paid_with_options ls False o' w)") (simp add: reconcile_paid_def)

lemma progress_cancel_core: "progress G w (snd (cancel_core ls o' final op w))"
proof -
  obtain paid cancels w1 where c: "(if po_trade_no o' \<noteq> [] \<or> po_payment_type o' \<noteq> [] then check_paid ls o' w else (([], []), w)) = ((paid, cancels), w1)"
    by (metis prod.exhaust)
  have p: "progress G w w1"
    using c progress_check_paid [of w ls True o'] by (auto simp: check_paid_def split: if_splits)
  have "progress G w1 (snd (cancel_core ls o' final op w))"
    unfolding cancel_core_def c Let_def prod.case
    by (intro progress_rules close_safe [THEN progress_callI]) simp_all
  with p show ?thesis by (rule progress_trans)
qed

lemma progress_cancel: "progress G w (snd (cancel_order ls oid uid w))" "progress G w (snd (admin_cancel_order ls oid w))"
  unfolding cancel_order_def admin_cancel_order_def by (intro progress_rules progress_cancel_core; simp)+

lemma progress_expire_each: "progress G w (snd (expire_each ls os n w))"
proof (induction os arbitrary: n w)
  case (Cons o' os)
  obtain res cs w1 where c: "cancel_core ls o' OrderStatusExpired ''system'' w = ((res, cs), w1)" by (metis prod.exhaust)
  with progress_cancel_core [of w ls o' OrderStatusExpired "''system''"] have "progress G w w1" by simp
  from progress_trans [OF this Cons.IH] show ?case by (simp add: c)
qed simp

lemma progress_expire: "progress G w (snd (expire_timed_out_orders ls ids w))"
  unfolding expire_timed_out_orders_def Let_def by (intro progress_rules progress_expire_each) simp_all

lemma progress_reconcile_each: "progress G w (snd (reconcile_each ls os n w))"
proof (induction os arbitrary: n w)
  case (Cons o' os)
  obtain res w1 where c: "reconcile_paid ls o' w = (res, w1)" by (metis prod.exhaust)
  with progress_reconcile [of w ls o'] have "progress G w w1" by simp
  from progress_trans [OF this Cons.IH] show ?case by (simp add: c)
qed simp

lemma progress_reconcile_pending: "progress G w (snd (reconcile_pending_payment_orders ls ids w))"
  unfolding reconcile_pending_payment_orders_def Let_def by (intro progress_rules progress_reconcile_each) simp_all

lemma progress_verify: "progress G w (snd (verify_order_by_out_trade_no ls raw uid w))"
proof (cases "normalize_order_lookup_out_trade_no raw")
  case (Some t)
  have "progress G w (snd (find_order t w))" unfolding find_order_def by (rule progress_call_read)
  then show ?thesis
    unfolding verify_order_by_out_trade_no_def Some option.case Let_def
    by (intro progress_rules progress_reconcile) simp_all
qed (simp add: verify_order_by_out_trade_no_def)

end

section \<open>Paid orders are never closed\<close>

definition was_paid :: "pay_order \<Rightarrow> bool" where
  "was_paid x \<longleftrightarrow> po_status x \<notin> {OrderStatusPending, OrderStatusCancelled, OrderStatusExpired}"

definition paid_stays :: "pay_db \<Rightarrow> pay_db \<Rightarrow> bool" where
  "paid_stays db db' \<longleftrightarrow> (\<forall>oid x. pd_orders db oid = Some x \<and> was_paid x \<longrightarrow> (\<exists>y. pd_orders db' oid = Some y \<and> was_paid y))"

lemma paid_stays_same: "pd_orders db' = pd_orders db \<Longrightarrow> paid_stays db db'"
  by (simp add: paid_stays_def)

lemma paid_stays_update:
  assumes "\<And>x. p (x::pay_order) \<Longrightarrow> was_paid x \<Longrightarrow> was_paid (f (x\<lparr>po_updated_at := t\<rparr>))" "t = pd_clock db"
  shows "paid_stays db (snd (update_order oid p f db))"
  using assms by (auto simp: paid_stays_def update_order_def split: option.split)

lemma safe_paid_update:
  "(\<And>x t. p x \<Longrightarrow> was_paid x \<Longrightarrow> was_paid (f (x\<lparr>po_updated_at := t\<rparr>))) \<Longrightarrow> safe paid_stays (update_order oid p f)"
  unfolding safe_def by (intro allI paid_stays_update [OF _ refl]) simp

interpretation closing: lifecycle paid_stays
proof (unfold_locales, goal_cases)
  case 1
  show ?case by (simp add: paid_stays_same)
next
  case (2 a b c)
  then show ?case by (fastforce simp: paid_stays_def)
next
  case (3 oid action op detail db db')
  then show ?case by (intro paid_stays_same) (auto simp: insert_audit_def split: if_splits)
next
  case (6 o')
  have "pd_orders (snd (redeem_tx uid code db)) = pd_orders db" for uid code db
    using redeem_tx_cases [OF prod.collapse [symmetric], of uid code db] by (auto simp: move_balance_def)
  then show ?case by (simp add: safe_def paid_stays_same)
next
  case (7 o')
  show ?case by (auto simp: safe_def create_code_def intro: paid_stays_same)
next
  case (8 o' accrue base)
  show ?case
    by (auto simp: safe_def rebate_tx_def insert_audit_def intro!: paid_stays_same split: option.splits)
next
  case (10 groups oid uid gid days)
  have "pd_orders (snd (assign_tx groups oid uid gid days db)) = pd_orders db" for db
    by (auto simp: assign_tx_def Let_def assign_or_extend_subscription_def update_sub_def insert_audit_def
        split: option.splits prod.splits if_splits)
  then show ?case by (simp add: safe_def paid_stays_same)
qed (unfold take_lease_def fail_stmt_def complete_stmt_def close_stmt_def persist_trade_no_def,
    (rule safe_paid_update; simp add: was_paid_def order_status_defs)+)

text \<open>The entry points of the payment service.\<close>

inductive service_op :: "life_service \<Rightarrow> pay_world \<Rightarrow> pay_world \<Rightarrow> bool" for ls where
  notified: "service_op ls w (snd (handle_payment_notification (ls_pay ls) n pk w))"
| retried: "service_op ls w (snd (retry_fulfillment (ls_pay ls) oid w))"
| attempted: "service_op ls w (snd (execute_fulfillment (ls_pay ls) oid w))"
| cancelled: "service_op ls w (snd (cancel_order ls oid uid w))"
| admin_cancelled: "service_op ls w (snd (admin_cancel_order ls oid w))"
| expired: "service_op ls w (snd (expire_timed_out_orders ls ids w))"
| reconciled: "service_op ls w (snd (reconcile_pending_payment_orders ls ids w))"
| verified: "service_op ls w (snd (verify_order_by_out_trade_no ls raw uid w))"

lemma service_op_closing: "service_op ls w w' \<Longrightarrow> progress paid_stays w w'"
  by (induction rule: service_op.induct)
    (simp_all add: closing.closing_notification closing.closing_retry closing.closing_execute closing.progress_cancel
      closing.progress_expire closing.progress_reconcile_pending closing.progress_verify)

text \<open>C7: whatever entry point runs, whatever other operations of this kind do between its statements and
  whatever statements fail, an order that was paid is never set back to pending, cancelled or expired.\<close>

theorem paid_order_never_closed:
  assumes "safe_env paid_stays w" "service_op ls w w'" "pd_orders (pw_db w) oid = Some x"
    and "po_status x \<notin> {OrderStatusPending, OrderStatusCancelled, OrderStatusExpired}"
  shows "(\<exists>y. pd_orders (pw_db w') oid = Some y \<and> po_status y \<notin> {OrderStatusPending, OrderStatusCancelled, OrderStatusExpired}) \<and>
    paid_stays (pw_db w) (pw_db w')"
proof -
  have k: "paid_stays (pw_db w) (pw_db w')"
    using service_op_closing [OF assms(2)] assms(1) by (simp add: progress_def)
  then show ?thesis using assms(3,4) unfolding paid_stays_def was_paid_def by blast
qed

section \<open>A reported payment completes the order\<close>

lemma fulfilled_once:
  assumes "being_fulfilled o0 db" "orders_settled db" "pd_orders db (po_id o0) = Some y" "po_status y = OrderStatusCompleted"
  shows "\<exists>m. code_moves (po_recharge_code o0) db = [m] \<and> mv_user m = po_user_id o0 \<and> mv_delta m = po_amount o0"
proof -
  have same: "same_order o0 y" using assms(1,3) by (simp add: being_fulfilled_def)
  then have "settled y db" using assms(2-4) by (auto simp: orders_settled_def same_order_def)
  then obtain r where r: "pd_codes db (po_recharge_code o0) = Some r" "rc_status r = StatusUsed"
    using same by (auto simp: settled_def pays_for_def same_order_def)
  then have "paid_code o0 r" "code_inv db (po_recharge_code o0)" "0 < po_amount o0"
    using assms(1) same by (auto simp: being_fulfilled_def pay_inv_def same_order_def)
  with r show ?thesis by (auto simp: code_inv_def paid_code_def split: list.splits)
qed

lemma audit_calm_fields:
  assumes "calm w"
  shows "calm (write_audit_log oid action op w)" "pd_orders (pw_db (write_audit_log oid action op w)) = pd_orders (pw_db w)"
    "now_of (write_audit_log oid action op w) = now_of w"
    "pd_users (pw_db (write_audit_log oid action op w)) = pd_users (pw_db w)"
    "pd_by_out_trade_no (pw_db (write_audit_log oid action op w)) = pd_by_out_trade_no (pw_db w)"
    "being_fulfilled o0 (pw_db w) \<Longrightarrow> being_fulfilled o0 (pw_db (write_audit_log oid action op w))"
    "orders_settled (pw_db w) \<Longrightarrow> orders_settled (pw_db (write_audit_log oid action op w))"
proof -
  have "pw_env w = []" using assms by (simp add: calm_def)
  then have env: "safe_env G w" for G by (simp add: safe_env_def)
  show "calm (write_audit_log oid action op w)" "pd_orders (pw_db (write_audit_log oid action op w)) = pd_orders (pw_db w)"
    "now_of (write_audit_log oid action op w) = now_of w"
    "pd_users (pw_db (write_audit_log oid action op w)) = pd_users (pw_db w)"
    "pd_by_out_trade_no (pw_db (write_audit_log oid action op w)) = pd_by_out_trade_no (pw_db w)"
    using assms by (auto simp: write_audit_log_def insert_audit_def now_of_def)
  show "being_fulfilled o0 (pw_db w) \<Longrightarrow> being_fulfilled o0 (pw_db (write_audit_log oid action op w))"
    using attempts.progress_write_audit [of o0 w oid action op] env by (simp add: progress_def)
  show "orders_settled (pw_db w) \<Longrightarrow> orders_settled (pw_db (write_audit_log oid action op w))"
    using keeping.progress_write_audit [of w oid action op] env by (simp add: progress_def kept_def)
qed

text \<open>A balance order that waits for its payment.\<close>

definition awaiting :: "pay_order \<Rightarrow> pay_db \<Rightarrow> bool" where
  "awaiting x db \<longleftrightarrow> pay_inv db \<and> orders_settled db \<and> pd_orders db (po_id x) = Some x \<and> same_order x x \<and>
     po_status x = OrderStatusPending \<and> pd_users db (po_user_id x) \<noteq> None \<and>
     pd_codes db (po_recharge_code x) = None \<and> pd_by_out_trade_no db (po_out_trade_no x) = Some (po_id x)"

lemma execute_order_calm:
  assumes w: "calm w" and ful: "being_fulfilled o0 (pw_db w)" "orders_settled (pw_db w)"
    and svc: "svc_lock_granted svc (po_recharge_code o0)" "affiliate_answers svc"
    and x: "pd_orders (pw_db w) (po_id o0) = Some x" "po_status x = OrderStatusPaid"
  shows "\<exists>w' y. execute_fulfillment svc (po_id o0) w = (Inr (), w') \<and> pd_orders (pw_db w') (po_id o0) = Some y \<and>
    po_status y = OrderStatusCompleted \<and> being_fulfilled o0 (pw_db w') \<and> orders_settled (pw_db w')"
proof -
  have ty: "po_order_type x = OrderTypeBalance" using ful(1) x(1) by (simp add: being_fulfilled_def same_order_def)
  have "po_status x \<noteq> OrderStatusRecharging" using x(2) by (simp add: order_status_defs)
  with x(1) obtain w' y where r: "execute_balance_fulfillment svc (po_id o0) w = (Inr (), w')"
    "pd_orders (pw_db w') (po_id o0) = Some y" "po_status y = OrderStatusCompleted"
    using execute_calm [OF w ful(1) svc] by auto
  have env: "pw_env w = []" using w by (simp add: calm_def)
  have "being_fulfilled o0 (pw_db w')" "orders_settled (pw_db w')"
    using execute_keeps_being_fulfilled [OF ful(1) env, of svc] execute_keeps_settled [OF ful(2) env, of svc "po_id o0"] r(1) by simp_all
  moreover have "execute_fulfillment svc (po_id o0) w = execute_balance_fulfillment svc (po_id o0) w"
    using w x(1) ty by (simp add: execute_fulfillment_def get_order_def order_type_defs)
  ultimately show ?thesis using r by auto
qed

lemma to_paid_calm:
  assumes w: "calm w" and a: "awaiting x (pw_db w)"
    and svc: "svc_lock_granted svc (po_recharge_code x)" "affiliate_answers svc"
  shows "\<exists>w' y. to_paid svc x trade_no paid pk w = (Inr (), w') \<and> pd_orders (pw_db w') (po_id x) = Some y \<and>
    po_status y = OrderStatusCompleted \<and> being_fulfilled x (pw_db w') \<and> orders_settled (pw_db w')"
proof -
  have p: "pd_orders (pw_db w) (po_id x) = Some x" "po_status x = OrderStatusPending" using a by (simp_all add: awaiting_def)
  let ?f = "\<lambda>x. x\<lparr>po_status := OrderStatusPaid, po_pay_amount := paid, po_trade_no := trade_no,
    po_paid_at := Some (now_of w), po_failed_at := None, po_failed_reason := None\<rparr>"
  let ?p = "payable (now_of w - paymentGraceMinutes * Minute)"
  define db1 where "db1 = snd (update_order (po_id x) ?p ?f (pw_db w))"
  define w1 where "w1 = w\<lparr>pw_db := db1\<rparr>"
  have y: "pd_orders db1 (po_id x) = Some (?f (x\<lparr>po_updated_at := pd_clock (pw_db w)\<rparr>))"
    and c: "fst (update_order (po_id x) ?p ?f (pw_db w)) = 1"
    and rest: "pd_users db1 = pd_users (pw_db w)" "pd_codes db1 = pd_codes (pw_db w)"
    using p by (simp_all add: db1_def update_order_def payable_def)
  have k: "kept (pw_db w) db1" "grows (pw_db w) db1"
    unfolding db1_def by (auto intro!: kept_update grows_update_order simp: same_terms_def order_status_defs)
  have ful1: "being_fulfilled x db1" "orders_settled db1"
    using a k y rest by (auto simp: awaiting_def being_fulfilled_def kept_def grows_def same_order_def)
  have c1: "calm w1" using w by (simp add: w1_def)
  define w3 where "w3 = write_audit_log (po_id x) ''ORDER_PAID'' pk w1"
  note wa = audit_calm_fields [OF c1, where oid = "po_id x" and action = "''ORDER_PAID''" and op = pk, folded w3_def]
  have run: "to_paid svc x trade_no paid pk w = execute_fulfillment svc (po_id x) w3"
    using w c p(2) by (simp add: to_paid_def Let_def w3_def w1_def db1_def order_status_defs)
  have "being_fulfilled x (pw_db w3)" "orders_settled (pw_db w3)" using wa(6,7) ful1 by (simp_all add: w1_def)
  from execute_order_calm [OF wa(1) this svc] show ?thesis using wa(2) y unfolding run by (simp add: w1_def)
qed

lemma notification_calm:
  assumes w: "calm w" and a: "awaiting x (pw_db w)"
    and svc: "svc_lock_granted svc (po_recharge_code x)" "affiliate_answers svc"
    and n: "pn_status n = ''success''" "pn_order_id n = po_out_trade_no x" "payment_matches svc x (pn_amount n) pk"
  shows "\<exists>w' y. handle_payment_notification svc n pk w = (Inr (), w') \<and> pd_orders (pw_db w') (po_id x) = Some y \<and>
    po_status y = OrderStatusCompleted \<and> being_fulfilled x (pw_db w') \<and> orders_settled (pw_db w')"
proof -
  obtain v where v: "pn_amount n = Fin v" "0 < v" "\<bar>v - po_pay_amount x\<bar> \<le> payment_amount_tolerance_for_currency (po_currency x)"
    using n(3) by (auto simp: payment_matches_def)
  have "handle_payment_notification svc n pk w = to_paid svc x (pn_trade_no n) v pk w"
    using w a n v
    by (auto simp: handle_payment_notification_def confirm_payment_def awaiting_def get_order_def payment_matches_def is_valid_provider_amount_def Let_def)
  with to_paid_calm [OF w a svc] show ?thesis by simp
qed

text \<open>The order as it is stored, whatever its trade number and stamp.\<close>

abbreviation restamped :: "pay_order \<Rightarrow> gotime \<Rightarrow> string \<Rightarrow> pay_order" where
  "restamped x t u \<equiv> x\<lparr>po_updated_at := t, po_trade_no := u\<rparr>"

lemma restamped_same: "being_fulfilled (restamped x t u) db = being_fulfilled x db" "restamped x (po_updated_at x) (po_trade_no x) = x"
proof -
  have "paid_code (restamped x t u) = paid_code x" "same_order (restamped x t u) = same_order x"
    by (simp_all add: paid_code_def same_order_def fun_eq_iff)
  then show "being_fulfilled (restamped x t u) db = being_fulfilled x db" unfolding being_fulfilled_def by (simp split: option.split)
  show "restamped x (po_updated_at x) (po_trade_no x) = x" by simp
qed

lemma awaiting_persist:
  assumes "awaiting x db"
  shows "awaiting (restamped x (pd_clock db) u) (snd (persist_trade_no (po_id x) u db))"
proof -
  let ?db = "snd (persist_trade_no (po_id x) u db)"
  have k: "kept db ?db" "grows db ?db"
    using assms unfolding persist_trade_no_def
    by (auto intro!: kept_update grows_update_order simp: same_terms_def awaiting_def order_status_defs)
  have "pd_orders db (po_id x) = Some x" using assms by (simp add: awaiting_def)
  then have "?db = db\<lparr>pd_orders := (pd_orders db)(po_id x \<mapsto> restamped x (pd_clock db) u)\<rparr>"
    by (simp add: persist_trade_no_def update_order_def)
  with assms k show ?thesis by (simp add: awaiting_def kept_def grows_def same_order_def)
qed

lemma reported_calm:
  assumes w: "calm w" and a: "awaiting x (pw_db w)"
    and svc: "svc_lock_granted (ls_pay ls) (po_recharge_code x)" "affiliate_answers (ls_pay ls)"
    and match: "\<And>t u. payment_matches (ls_pay ls) (restamped x t u) (qr_amount resp) (pv_key prov)"
  shows "\<exists>y. pd_orders (pw_db (handle_reported_payment ls x prov query_ref resp w)) (po_id x) = Some y \<and>
    po_status y = OrderStatusCompleted \<and> being_fulfilled x (pw_db (handle_reported_payment ls x prov query_ref resp w)) \<and>
    orders_settled (pw_db (handle_reported_payment ls x prov query_ref resp w))"
proof (cases "should_persist_upstream_trade_no query_ref (trim_space (qr_trade_no resp)) (po_trade_no x)")
  case True
  let ?u = "trim_space (qr_trade_no resp)"
  let ?y = "restamped x (pd_clock (pw_db w)) ?u"
  let ?w = "w\<lparr>pw_db := snd (persist_trade_no (po_id x) ?u (pw_db w))\<rparr>"
  let ?n = "\<lparr>pn_trade_no = ?u, pn_order_id = po_out_trade_no x, pn_amount = qr_amount resp, pn_status = ''success''\<rparr>"
  have r: "handle_reported_payment ls x prov query_ref resp w = snd (handle_payment_notification (ls_pay ls) ?n (pv_key prov) ?w)"
    using True w by (simp add: handle_reported_payment_def Let_def)
  obtain w' y where "handle_payment_notification (ls_pay ls) ?n (pv_key prov) ?w = (Inr (), w')" "pd_orders (pw_db w') (po_id x) = Some y"
    "po_status y = OrderStatusCompleted" "being_fulfilled ?y (pw_db w')" "orders_settled (pw_db w')"
    using notification_calm [of ?w ?y "ls_pay ls" ?n "pv_key prov"] awaiting_persist [OF a] w svc match
    by auto
  then show ?thesis unfolding r by (simp add: restamped_same)
next
  case False
  have "payment_matches (ls_pay ls) x (qr_amount resp) (pv_key prov)"
    using match [where t = "po_updated_at x" and u = "po_trade_no x"] by simp
  with False notification_calm [OF w a svc] show ?thesis
    by (simp add: handle_reported_payment_def Let_def)
      (metis (no_types, lifting) payment_notification.select_convs snd_conv)
qed

text \<open>C15: when a pending balance order is about to be cancelled or expired and the gateway reports it paid
  with a matching amount, the order is not closed: it ends completed, and its user has been credited
  exactly once with exactly its amount.\<close>

theorem closing_completes_paid_order:
  assumes w: "calm w" and a: "awaiting x (pw_db w)" and ty: "po_payment_type x \<noteq> []"
    and svc: "svc_lock_granted (ls_pay ls) (po_recharge_code x)" "affiliate_answers (ls_pay ls)"
    and prov: "ls_provider ls x = Some prov" "payment_order_query_reference ls x prov = query_ref" "query_ref \<noteq> []"
    and resp: "pv_query prov 0 query_ref = Some resp" "qr_status resp = ProviderStatusPaid"
    and match: "\<And>t u. payment_matches (ls_pay ls) (restamped x t u) (qr_amount resp) (pv_key prov)"
    and run: "cancel_core ls x final op w = (res, w')"
  shows "res = (Inr checkPaidResultAlreadyPaid, []) \<and>
    (\<exists>y. pd_orders (pw_db w') (po_id x) = Some y \<and> po_status y = OrderStatusCompleted) \<and>
    (\<exists>m. code_moves (po_recharge_code x) (pw_db w') = [m] \<and> mv_user m = po_user_id x \<and> mv_delta m = po_amount x)"
proof -
  have "is_valid_provider_amount (qr_amount resp)"
    using match [where t = 0 and u = "[]"] by (auto simp: payment_matches_def is_valid_provider_amount_def)
  then have "check_paid ls x w = ((checkPaidResultAlreadyPaid, []), handle_reported_payment ls x prov query_ref resp w)"
    using prov resp by (simp add: check_paid_def check_paid_with_options_def Let_def)
  then have r: "res = (Inr checkPaidResultAlreadyPaid, [])" "w' = handle_reported_payment ls x prov query_ref resp w"
    using run ty by (simp_all add: cancel_core_def)
  obtain y where y: "pd_orders (pw_db w') (po_id x) = Some y" "po_status y = OrderStatusCompleted"
    "being_fulfilled x (pw_db w')" "orders_settled (pw_db w')"
    using reported_calm [OF w a svc match, of query_ref] unfolding r(2) by blast
  with r(1) fulfilled_once [OF y(3,4,1,2)] show ?thesis by blast
qed

text \<open>when the gateway cannot be asked, an order is expired all the same; if it had been paid and the
  notification arrives more than five minutes later, the notification is acknowledged, the order stays
  expired and its user is not credited.\<close>

theorem late_payment_dropped:
  assumes w: "calm w" and a: "awaiting x (pw_db w)"
    and prov: "ls_provider ls x = Some prov" "\<And>n query_ref. pv_query prov n query_ref = None"
    and run: "cancel_core ls x OrderStatusExpired op w = (res, w1)"
    and late: "pd_clock (pw_db w) + paymentGraceMinutes * Minute < t"
    and n: "pn_order_id n = po_out_trade_no x"
    and answered: "handle_payment_notification (ls_pay ls) n pk (w1\<lparr>pw_db := (pw_db w1)\<lparr>pd_clock := t\<rparr>\<rparr>) = (answer, w2)"
    and match: "payment_matches (ls_pay ls) (x\<lparr>po_updated_at := pd_clock (pw_db w), po_status := OrderStatusExpired\<rparr>) (pn_amount n) pk"
  shows "answer = Inr () \<and> pd_users (pw_db w2) = pd_users (pw_db w) \<and>
    (\<exists>y. pd_orders (pw_db w2) (po_id x) = Some y \<and> po_status y = OrderStatusExpired)"
proof -
  let ?y = "x\<lparr>po_updated_at := pd_clock (pw_db w), po_status := OrderStatusExpired\<rparr>"
  have p: "pd_orders (pw_db w) (po_id x) = Some x" "po_status x = OrderStatusPending"
    "pd_by_out_trade_no (pw_db w) (po_out_trade_no x) = Some (po_id x)" using a by (simp_all add: awaiting_def)
  have "(if po_trade_no x \<noteq> [] \<or> po_payment_type x \<noteq> [] then check_paid ls x w else (([], []), w)) = (([], []), w)"
    using prov by (simp add: check_paid_def check_paid_with_options_def Let_def)
  then have w1: "w1 = write_audit_log (po_id x) ''ORDER_EXPIRED'' op (w\<lparr>pw_db := snd (close_stmt (po_id x) OrderStatusExpired (pw_db w))\<rparr>)"
    using run w p(1,2)
    by (simp add: cancel_core_def close_stmt_def update_order_def checkPaidResultAlreadyPaid_def)
  have "calm (w\<lparr>pw_db := snd (close_stmt (po_id x) OrderStatusExpired (pw_db w))\<rparr>)" using w by simp
  note wa = audit_calm_fields [OF this, where oid = "po_id x" and action = "''ORDER_EXPIRED''" and op = op, folded w1]
  have r: "calm w1" "pd_orders (pw_db w1) = (pd_orders (pw_db w))(po_id x \<mapsto> ?y)" "pd_users (pw_db w1) = pd_users (pw_db w)"
    "pd_by_out_trade_no (pw_db w1) = pd_by_out_trade_no (pw_db w)"
    using wa(1,2,4,5) p(1,2) by (simp_all add: close_stmt_def update_order_def)
  let ?w = "w1\<lparr>pw_db := (pw_db w1)\<lparr>pd_clock := t\<rparr>\<rparr>"
  obtain v where v: "pn_amount n = Fin v" "0 < v" "\<bar>v - po_pay_amount ?y\<bar> \<le> payment_amount_tolerance_for_currency (po_currency ?y)"
    using match by (auto simp: payment_matches_def)
  have "po_status ?y \<noteq> OrderStatusPending" "po_status ?y \<noteq> OrderStatusCancelled" by (simp_all add: order_status_defs)
  then have not: "\<not> payable (now_of ?w - paymentGraceMinutes * Minute) ?y" using late by (simp add: payable_def now_of_def)
  show ?thesis
  proof (cases "pn_status n = ''success''")
    case False
    with answered show ?thesis using r by (auto simp: handle_payment_notification_def)
  next
    case True
    then have "handle_payment_notification (ls_pay ls) n pk ?w = to_paid (ls_pay ls) ?y (pn_trade_no n) v pk ?w"
      using r(1,2,4) n v p(3) match
      by (auto simp: handle_payment_notification_def confirm_payment_def get_order_def payment_matches_def is_valid_provider_amount_def Let_def)
    also have "\<dots> = already_processed (ls_pay ls) ?y ?w"
      using r(1,2) not by (simp add: to_paid_def update_order_def Let_def)
    also have "\<dots> = (Inr (), write_audit_log (po_id x) ''PAYMENT_AFTER_EXPIRY'' ''system'' ?w)"
      using r(1,2) by (simp add: already_processed_def get_order_def order_status_defs)
    finally have "answer = Inr ()" "w2 = write_audit_log (po_id x) ''PAYMENT_AFTER_EXPIRY'' ''system'' ?w"
      using answered by simp_all
    then show ?thesis using r audit_calm_fields(2,4) [of ?w] by simp
  qed
qed

section \<open>Concrete runs\<close>

definition demo_pending :: pay_order where
  "demo_pending = demo_order\<lparr>po_status := OrderStatusPending, po_paid_at := None\<rparr>"

definition demo_pending_world :: pay_world where
  "demo_pending_world = \<lparr>pw_db = demo_db\<lparr>pd_orders := [1 \<mapsto> demo_pending]\<rparr>, pw_env = [], pw_faults = []\<rparr>"

definition demo_provider :: pay_provider where
  "demo_provider = \<lparr>pv_key = ''alipay'', pv_query = (\<lambda>n ref. Some \<lparr>qr_trade_no = ''G1'', qr_status = ''paid'', qr_amount = Fin 10\<rparr>),
     pv_cancelable = True\<rparr>"

definition demo_life :: life_service where
  "demo_life = \<lparr>ls_pay = demo_svc, ls_provider = (\<lambda>x. Some demo_provider), ls_snapshot_key = (\<lambda>x. []), ls_order_key = (\<lambda>x. ''alipay'')\<rparr>"

definition mute_life :: life_service where
  "mute_life = demo_life\<lparr>ls_provider := (\<lambda>x. Some (demo_provider\<lparr>pv_query := (\<lambda>n ref. None)\<rparr>))\<rparr>"

lemma demo_trims: "trim_space ''T1'' = ''T1''" "trim_space ''P1'' = ''P1''" "trim_space ''alipay'' = ''alipay''" "trim_space ''G1'' = ''G1''"
  by code_simp+

lemma demo_awaiting: "awaiting demo_pending (pw_db demo_pending_world)"
proof -
  have "pay_inv (demo_db\<lparr>pd_orders := [1 \<mapsto> demo_pending]\<rparr>)"
    by (simp add: pay_inv_def demo_db_def code_inv_def code_moves_def rebates_of_def)
  then show ?thesis
    using demo_trims
    by (auto simp: awaiting_def demo_pending_world_def demo_db_def demo_pending_def demo_order_def same_order_def orders_settled_def
        order_status_defs split: if_splits)
qed

lemma demo_matches:
  assumes "po_pay_amount x = 10" "po_currency x = ''CNY''"
  shows "payment_matches demo_svc x (Fin 10) ''alipay''"
proof -
  have "0 \<le> payment_amount_tolerance_for_currency ''CNY''" by code_simp
  then show ?thesis using assms demo_trims by (simp add: payment_matches_def demo_svc_def)
qed

theorem paid_order_never_closed_witness:
  "\<exists>y. pd_orders (pw_db (snd (cancel_order demo_life 1 7 demo_world))) 1 = Some y \<and>
    po_status y \<notin> {OrderStatusPending, OrderStatusCancelled, OrderStatusExpired}"
proof -
  have "safe paid_stays (redeem_tx 8 ''Q'')"
    using closing.redeem_safe [where o' = "demo_order\<lparr>po_user_id := 8, po_recharge_code := ''Q''\<rparr>"] by simp
  then have "safe_env paid_stays demo_world" by (simp add: safe_env_def demo_world_def safe_def)
  moreover have "pd_orders (pw_db demo_world) 1 = Some demo_order"
    "po_status demo_order \<notin> {OrderStatusPending, OrderStatusCancelled, OrderStatusExpired}"
    by (simp_all add: demo_world_def demo_db_def demo_order_def order_status_defs)
  ultimately show ?thesis using paid_order_never_closed [OF _ service_op.cancelled] by blast
qed

theorem closing_completes_paid_order_witness:
  "\<exists>m. code_moves ''P1'' (pw_db (snd (cancel_core demo_life demo_pending OrderStatusExpired ''system'' demo_pending_world))) = [m] \<and>
    mv_user m = 7 \<and> mv_delta m = 10"
proof -
  obtain res w' where r: "cancel_core demo_life demo_pending OrderStatusExpired ''system'' demo_pending_world = (res, w')" by (metis prod.exhaust)
  have q: "payment_order_query_reference demo_life demo_pending demo_provider = ''T1''" by code_simp
  have aff: "affiliate_answers (ls_pay demo_life)" by (simp add: affiliate_answers_def demo_life_def demo_svc_def)
  have p: "calm demo_pending_world" "po_payment_type demo_pending \<noteq> []" "ls_provider demo_life demo_pending = Some demo_provider"
    "svc_lock_granted (ls_pay demo_life) (po_recharge_code demo_pending)"
    "po_recharge_code demo_pending = ''P1''" "po_user_id demo_pending = 7" "po_amount demo_pending = 10"
    by (simp_all add: calm_def demo_pending_world_def demo_pending_def demo_order_def demo_life_def demo_svc_def)
  have "payment_matches (ls_pay demo_life) (restamped demo_pending t u) (Fin 10) (pv_key demo_provider)" for t u
    using demo_matches [of "restamped demo_pending t u"] by (simp add: demo_life_def demo_provider_def demo_pending_def demo_order_def)
  with closing_completes_paid_order [OF p(1) demo_awaiting p(2,4) aff p(3) q _ _ _ _ r]
  show ?thesis using p(5-7) r by (simp add: demo_provider_def ProviderStatusPaid_def)
qed

theorem late_payment_dropped_witness:
  "pd_users (pw_db (snd (handle_payment_notification demo_svc
      \<lparr>pn_trade_no = ''G1'', pn_order_id = ''T1'', pn_amount = Fin 10, pn_status = ''success''\<rparr> ''alipay''
      (let w1 = snd (cancel_core mute_life demo_pending OrderStatusExpired ''system'' demo_pending_world)
       in w1\<lparr>pw_db := (pw_db w1)\<lparr>pd_clock := 10 * Minute\<rparr>\<rparr>)))) 7 = Some \<lparr>us_balance = 3, us_total_recharged = 0\<rparr>"
proof -
  let ?n = "\<lparr>pn_trade_no = ''G1'', pn_order_id = ''T1'', pn_amount = Fin 10, pn_status = ''success''\<rparr>"
  obtain res w1 where r: "cancel_core mute_life demo_pending OrderStatusExpired ''system'' demo_pending_world = (res, w1)" by (metis prod.exhaust)
  obtain a w2 where h: "handle_payment_notification (ls_pay mute_life) ?n ''alipay'' (w1\<lparr>pw_db := (pw_db w1)\<lparr>pd_clock := 10 * Minute\<rparr>\<rparr>) = (a, w2)"
    by (metis prod.exhaust)
  have svc: "ls_pay mute_life = demo_svc" by (simp add: mute_life_def demo_life_def)
  have p: "calm demo_pending_world" "ls_provider mute_life demo_pending = Some (demo_provider\<lparr>pv_query := (\<lambda>n ref. None)\<rparr>)"
    "pd_clock (pw_db demo_pending_world) + paymentGraceMinutes * Minute < 10 * Minute"
    "pn_order_id ?n = po_out_trade_no demo_pending"
    by (simp_all add: calm_def demo_pending_world_def mute_life_def demo_db_def paymentGraceMinutes_def demo_pending_def demo_order_def)
  have "payment_matches (ls_pay mute_life) (demo_pending\<lparr>po_updated_at := pd_clock (pw_db demo_pending_world), po_status := OrderStatusExpired\<rparr>)
      (pn_amount ?n) ''alipay''"
    using demo_matches unfolding svc by (simp add: demo_pending_def demo_order_def)
  from late_payment_dropped [OF p(1) demo_awaiting p(2) _ r p(3,4) h this]
  have "pd_users (pw_db w2) = pd_users (pw_db demo_pending_world)" by simp
  with r h show ?thesis by (simp add: svc Let_def) (simp add: demo_pending_world_def demo_db_def)
qed

end
