(* ===== verification/Redis_Store.thy ===== *)
theory Redis_Store
  imports Workers "HOL-Library.AList"
begin

text \<open>
  The part of Redis that the concurrency limits and the reservations of balances use: sorted sets,
  counters and hashes of amounts with a time to live, and the server's clock. The clock counts milliseconds, \<open>TIME\<close> gives whole seconds. A sorted set
  is the association of its members to their scores; Redis has no empty sets, so one that loses its
  last member loses its time to live too, and a set whose time has come reads as empty. A script or
  a \<open>MULTI\<close> block is one function of the store. Keys are values of \<open>redis_key\<close>; the theory of the
  cache shows that the code's key strings are as distinct.
\<close>

datatype redis_key =
    AccountSlots int
  | UserSlots int
  | KeySlots int
  | LiveAccountSlots int
  | LiveUserSlots int
  | LiveKeySlots int
  | IngressLeases int
  | UserWait int
  | AccountWait int
  | AccountIndex
  | UserIndex
  | InflightSet int
  | InflightAmounts int
  | ScopeSet string
  | ScopeAmounts string

record zset =
  zs_members :: "(string \<times> int) list"
  zs_expire :: "int option"

record counter =
  ct_value :: int
  ct_expire :: "int option"

record hash =
  hs_fields :: "(string \<times> rat) list"
  hs_expire :: "int option"

record redis =
  rd_now :: int
  rd_sets :: "(redis_key \<times> zset) list"
  rd_counters :: "(redis_key \<times> counter) list"
  rd_hashes :: "(redis_key \<times> hash) list"
  rd_swept :: bool

definition empty_zset :: zset where "empty_zset = \<lparr>zs_members = [], zs_expire = None\<rparr>"

definition empty_hash :: hash where "empty_hash = \<lparr>hs_fields = [], hs_expire = None\<rparr>"

definition empty_redis :: "int \<Rightarrow> redis" where
  "empty_redis now = \<lparr>rd_now = now, rd_sets = [], rd_counters = [], rd_hashes = [], rd_swept = True\<rparr>"

definition rd_zsets :: "redis \<Rightarrow> redis_key \<Rightarrow> zset" where
  "rd_zsets r k = (case map_of (rd_sets r) k of None \<Rightarrow> empty_zset | Some z \<Rightarrow> z)"

definition rd_hash :: "redis \<Rightarrow> redis_key \<Rightarrow> hash" where
  "rd_hash r k = (case map_of (rd_hashes r) k of None \<Rightarrow> empty_hash | Some h \<Rightarrow> h)"

definition rd_counts :: "redis \<Rightarrow> redis_key \<Rightarrow> counter option" where
  "rd_counts r k = map_of (rd_counters r) k"

definition redis_time :: "redis \<Rightarrow> int" where "redis_time r = rd_now r div 1000"

section \<open>Commands\<close>

definition key_gone :: "redis \<Rightarrow> int option \<Rightarrow> bool" where
  "key_gone r e = (case e of None \<Rightarrow> False | Some t \<Rightarrow> t \<le> rd_now r)"

definition zset_at :: "redis_key \<Rightarrow> redis \<Rightarrow> zset" where
  "zset_at k r = (if key_gone r (zs_expire (rd_zsets r k)) then empty_zset else rd_zsets r k)"

definition put_zset :: "redis_key \<Rightarrow> zset \<Rightarrow> redis \<Rightarrow> redis" where
  "put_zset k z r = r\<lparr>rd_sets := (if zs_members z = [] then AList.delete k (rd_sets r) else AList.update k z (rd_sets r))\<rparr>"

definition zscore :: "redis_key \<Rightarrow> string \<Rightarrow> redis \<Rightarrow> int option" where
  "zscore k m r = map_of (zs_members (zset_at k r)) m"

definition zcard :: "redis_key \<Rightarrow> redis \<Rightarrow> int" where
  "zcard k r = int (length (zs_members (zset_at k r)))"

definition zadd :: "redis_key \<Rightarrow> int \<Rightarrow> string \<Rightarrow> redis \<Rightarrow> redis" where
  "zadd k s m r = (let z = zset_at k r in put_zset k (z\<lparr>zs_members := AList.update m s (zs_members z)\<rparr>) r)"

definition zrem :: "redis_key \<Rightarrow> string \<Rightarrow> redis \<Rightarrow> redis" where
  "zrem k m r = (let z = zset_at k r in put_zset k (z\<lparr>zs_members := AList.delete m (zs_members z)\<rparr>) r)"

text \<open>\<open>ZREMRANGEBYSCORE key -inf bound\<close>\<close>

definition zrem_upto :: "redis_key \<Rightarrow> int \<Rightarrow> redis \<Rightarrow> redis" where
  "zrem_upto k bound r = (let z = zset_at k r in put_zset k (z\<lparr>zs_members := filter (\<lambda>(m, s). bound < s) (zs_members z)\<rparr>) r)"

text \<open>\<open>EXPIRE\<close>, on a sorted set and on a counter.\<close>

definition zexpire :: "redis_key \<Rightarrow> int \<Rightarrow> redis \<Rightarrow> redis" where
  "zexpire k ttl r = (let z = zset_at k r in put_zset k (z\<lparr>zs_expire := Some (rd_now r + ttl * 1000)\<rparr>) r)"

definition zdel :: "redis_key \<Rightarrow> redis \<Rightarrow> redis" where
  "zdel k r = put_zset k empty_zset r"

definition count_at :: "redis_key \<Rightarrow> redis \<Rightarrow> int option" where
  "count_at k r = (case rd_counts r k of None \<Rightarrow> None | Some c \<Rightarrow> if key_gone r (ct_expire c) then None else Some (ct_value c))"

text \<open>\<open>PEXPIRE\<close> and \<open>PTTL\<close>, on a sorted set and on a hash.\<close>

definition zpexpire :: "redis_key \<Rightarrow> int \<Rightarrow> redis \<Rightarrow> redis" where
  "zpexpire k ms r = (let z = zset_at k r in put_zset k (z\<lparr>zs_expire := Some (rd_now r + ms)\<rparr>) r)"

definition pttl_of :: "redis \<Rightarrow> 'a list \<Rightarrow> int option \<Rightarrow> int" where
  "pttl_of r items e = (if items = [] then - 2 else case e of None \<Rightarrow> - 1 | Some t \<Rightarrow> t - rd_now r)"

definition zpttl :: "redis_key \<Rightarrow> redis \<Rightarrow> int" where
  "zpttl k r = (let z = zset_at k r in pttl_of r (zs_members z) (zs_expire z))"

definition hash_at :: "redis_key \<Rightarrow> redis \<Rightarrow> hash" where
  "hash_at k r = (if key_gone r (hs_expire (rd_hash r k)) then empty_hash else rd_hash r k)"

definition put_hash :: "redis_key \<Rightarrow> hash \<Rightarrow> redis \<Rightarrow> redis" where
  "put_hash k h r = r\<lparr>rd_hashes := (if hs_fields h = [] then AList.delete k (rd_hashes r) else AList.update k h (rd_hashes r))\<rparr>"

definition hset :: "redis_key \<Rightarrow> string \<Rightarrow> rat \<Rightarrow> redis \<Rightarrow> redis" where
  "hset k f v r = (let h = hash_at k r in put_hash k (h\<lparr>hs_fields := AList.update f v (hs_fields h)\<rparr>) r)"

definition hdel :: "redis_key \<Rightarrow> string \<Rightarrow> redis \<Rightarrow> redis" where
  "hdel k f r = (let h = hash_at k r in put_hash k (h\<lparr>hs_fields := AList.delete f (hs_fields h)\<rparr>) r)"

definition hvals :: "redis_key \<Rightarrow> redis \<Rightarrow> rat list" where
  "hvals k r = map snd (hs_fields (hash_at k r))"

definition hpexpire :: "redis_key \<Rightarrow> int \<Rightarrow> redis \<Rightarrow> redis" where
  "hpexpire k ms r = (let h = hash_at k r in put_hash k (h\<lparr>hs_expire := Some (rd_now r + ms)\<rparr>) r)"

definition hpttl :: "redis_key \<Rightarrow> redis \<Rightarrow> int" where
  "hpttl k r = (let h = hash_at k r in pttl_of r (hs_fields h) (hs_expire h))"

text \<open>\<open>ZRANGEBYSCORE key -inf bound\<close>\<close>

definition zrange_upto :: "redis_key \<Rightarrow> int \<Rightarrow> redis \<Rightarrow> string list" where
  "zrange_upto k bound r = map fst (sort_key snd (filter (\<lambda>(m, s). s \<le> bound) (zs_members (zset_at k r))))"

text \<open>\<open>INCRBY\<close> keeps the time to live of a counter that exists and gives a new one none.\<close>

definition put_counter :: "redis_key \<Rightarrow> counter \<Rightarrow> redis \<Rightarrow> redis" where
  "put_counter k x r = r\<lparr>rd_counters := AList.update k x (rd_counters r)\<rparr>"

definition incr_by :: "redis_key \<Rightarrow> int \<Rightarrow> redis \<Rightarrow> redis" where
  "incr_by k n r = put_counter k
     (case count_at k r of
        None \<Rightarrow> \<lparr>ct_value = n, ct_expire = None\<rparr>
      | Some v \<Rightarrow> \<lparr>ct_value = v + n, ct_expire = ct_expire (the (rd_counts r k))\<rparr>) r"

definition cexpire :: "redis_key \<Rightarrow> int \<Rightarrow> redis \<Rightarrow> redis" where
  "cexpire k ttl r = (case count_at k r of None \<Rightarrow> r | Some v \<Rightarrow>
     put_counter k \<lparr>ct_value = v, ct_expire = Some (rd_now r + ttl * 1000)\<rparr> r)"

definition cdel :: "redis_key \<Rightarrow> redis \<Rightarrow> redis" where
  "cdel k r = r\<lparr>rd_counters := AList.delete k (rd_counters r)\<rparr>"

text \<open>The clock moves forward only.\<close>

definition tick :: "int \<Rightarrow> redis \<Rightarrow> redis" where
  "tick ms r = r\<lparr>rd_now := rd_now r + max 0 ms\<rparr>"

section \<open>What a sorted set holds\<close>

text \<open>
  A set is seen as a map of its members to their scores. A well-formed one lists a member once.
\<close>

definition scores :: "redis_key \<Rightarrow> redis \<Rightarrow> string \<rightharpoonup> int" where
  "scores k r = map_of (zs_members (zset_at k r))"

definition zset_ok :: "zset \<Rightarrow> bool" where
  "zset_ok z \<longleftrightarrow> distinct (map fst (zs_members z)) \<and> (zs_members z = [] \<longrightarrow> zs_expire z = None)"

definition redis_ok :: "redis \<Rightarrow> bool" where
  "redis_ok r \<longleftrightarrow> (\<forall>k. zset_ok (rd_zsets r k))"

named_theorems redis_simps \<open>what a command does to what a set holds\<close>

lemma zset_ok_empty [simp]: "zset_ok empty_zset"
  by (simp add: zset_ok_def empty_zset_def)

lemma empty_zset_sel [simp]: "zs_members empty_zset = []" "zs_expire empty_zset = None"
  by (simp_all add: empty_zset_def)

lemma redis_ok_empty [simp]: "redis_ok (empty_redis now)"
  by (simp add: redis_ok_def empty_redis_def rd_zsets_def)

lemma rd_zsets_put: "rd_zsets (put_zset k z r) k' = (if k' = k then if zs_members z = [] then empty_zset else z else rd_zsets r k')"
  by (simp add: rd_zsets_def put_zset_def update_conv' delete_conv')

lemma rd_zsets_other [simp]:
  "rd_zsets (r\<lparr>rd_counters := f\<rparr>) = rd_zsets r" "rd_zsets (r\<lparr>rd_swept := b\<rparr>) = rd_zsets r" "rd_zsets (r\<lparr>rd_now := t\<rparr>) = rd_zsets r"
  by (simp_all add: rd_zsets_def fun_eq_iff)

lemma put_zset_now [simp]: "rd_now (put_zset k z r) = rd_now r"
  by (simp add: put_zset_def)

lemma zset_at_ok: "redis_ok r \<Longrightarrow> zset_ok (zset_at k r)"
  by (simp add: redis_ok_def zset_at_def)

lemma key_gone_None [simp]: "\<not> key_gone r None"
  by (simp add: key_gone_def)

lemma put_zset_ok: "redis_ok r \<Longrightarrow> distinct (map fst (zs_members z)) \<Longrightarrow> redis_ok (put_zset k z r)"
  by (simp add: redis_ok_def rd_zsets_put) (simp add: zset_ok_def)

lemma put_zset_time [redis_simps]: "rd_now (put_zset k z r) = rd_now r" "rd_counts (put_zset k z r) = rd_counts r"
  by (simp_all add: put_zset_def rd_counts_def fun_eq_iff)

lemma zset_at_put:
  "zset_at k' (put_zset k z r) =
     (if k' = k then (if key_gone r (zs_expire z) \<or> zs_members z = [] then empty_zset else z) else zset_at k' r)"
  by (auto simp: zset_at_def rd_zsets_put put_zset_time key_gone_def split: option.splits)

lemma zset_at_live: "\<not> key_gone r (zs_expire (zset_at k r))"
  by (simp add: zset_at_def)

lemmas command_defs = zadd_def zrem_def zrem_upto_def zexpire_def zdel_def

lemma map_of_filter_scores: "distinct (map fst xs) \<Longrightarrow>
  map_of (filter (\<lambda>(m, s). bound < s) xs) m = (case map_of xs m of None \<Rightarrow> None | Some s \<Rightarrow> if bound < s then Some s else None)"
  by (induction xs) (auto simp: image_iff split: option.splits)

lemma scores_zadd [redis_simps]: "scores k' (zadd k s m r) = (if k' = k then (scores k r)(m \<mapsto> s) else scores k' r)"
proof -
  have "AList.update m s xs \<noteq> []" for xs by (cases xs) auto
  then show ?thesis by (simp add: scores_def zadd_def Let_def zset_at_put zset_at_live update_conv')
qed

lemma scores_zrem [redis_simps]: "scores k' (zrem k m r) = (if k' = k then (scores k r)(m := None) else scores k' r)"
  using delete_conv' [of m "zs_members (zset_at k r)"]
  by (auto simp: scores_def zrem_def Let_def zset_at_put zset_at_live)

lemma scores_zrem_upto [redis_simps]:
  "redis_ok r \<Longrightarrow> scores k' (zrem_upto k bound r) =
     (if k' = k then (\<lambda>m. case scores k r m of None \<Rightarrow> None | Some s \<Rightarrow> if bound < s then Some s else None) else scores k' r)"
proof -
  assume "redis_ok r"
  then have d: "distinct (map fst (zs_members (zset_at k r)))" using zset_at_ok [of r k] by (simp add: zset_ok_def)
  show ?thesis
    using map_of_filter_scores [OF d, of bound]
    by (auto simp: scores_def zrem_upto_def Let_def zset_at_put zset_at_live fun_eq_iff split: if_splits)
qed

lemma scores_zexpire [redis_simps]: "0 < ttl \<Longrightarrow> scores k' (zexpire k ttl r) = scores k' r"
  by (auto simp: scores_def zexpire_def Let_def zset_at_put key_gone_def)

lemma scores_zdel [redis_simps]: "scores k' (zdel k r) = (if k' = k then Map.empty else scores k' r)"
  by (simp add: scores_def zdel_def zset_at_put)

lemma command_time [redis_simps]:
  "rd_now (zadd k s m r) = rd_now r" "rd_now (zrem k m r) = rd_now r" "rd_now (zrem_upto k bound r) = rd_now r"
  "rd_now (zexpire k ttl r) = rd_now r" "rd_now (zdel k r) = rd_now r"
  by (simp_all add: command_defs Let_def redis_simps)

lemma redis_time_command [redis_simps]:
  "redis_time (zadd k s m r) = redis_time r" "redis_time (zrem k m r) = redis_time r"
  "redis_time (zrem_upto k bound r) = redis_time r" "redis_time (zexpire k ttl r) = redis_time r" "redis_time (zdel k r) = redis_time r"
  by (simp_all add: redis_time_def redis_simps)

lemma command_ok [redis_simps]:
  assumes "redis_ok r"
  shows "redis_ok (zadd k s m r)" "redis_ok (zrem k m r)" "redis_ok (zrem_upto k bound r)" "redis_ok (zexpire k ttl r)" "redis_ok (zdel k r)"
proof -
  from zset_at_ok [OF assms] have d: "distinct (map fst (zs_members (zset_at k r)))" by (simp add: zset_ok_def)
  then show "redis_ok (zadd k s m r)" "redis_ok (zrem k m r)" "redis_ok (zrem_upto k bound r)" "redis_ok (zexpire k ttl r)"
      "redis_ok (zdel k r)"
    using assms by (simp_all add: command_defs Let_def put_zset_ok distinct_update distinct_delete distinct_map_filter)
qed

text \<open>The size of a set is the number of its members.\<close>

lemma zcard_scores: "redis_ok r \<Longrightarrow> zcard k r = int (card (dom (scores k r)))"
  using zset_at_ok [of r k] by (simp add: zcard_def scores_def zset_ok_def dom_map_of_conv_image_fst distinct_card flip: set_map)

lemma finite_scores [simp]: "finite (dom (scores k r))"
  by (simp add: scores_def finite_dom_map_of)

lemma zscore_scores: "zscore k m r = scores k r m"
  by (simp add: zscore_def scores_def)

lemma scores_same_set: "zset_at k r = zset_at k' r' \<Longrightarrow> scores k r = scores k' r'"
  by (simp add: scores_def)

lemma scores_zpexpire [redis_simps]: "0 < ms \<Longrightarrow> scores k' (zpexpire k ms r) = scores k' r"
  by (auto simp: scores_def zpexpire_def Let_def zset_at_put key_gone_def)

lemma zpexpire_other [redis_simps]:
  "rd_now (zpexpire k ms r) = rd_now r" "redis_ok r \<Longrightarrow> redis_ok (zpexpire k ms r)"
  using zset_at_ok [of r k] by (simp_all add: zpexpire_def Let_def redis_simps put_zset_ok zset_ok_def)

lemma zrange_upto_set: "redis_ok r \<Longrightarrow> set (zrange_upto k b r) = {m. \<exists>s. scores k r m = Some s \<and> s \<le> b}"
  using zset_at_ok [of r k] by (auto simp: zrange_upto_def scores_def zset_ok_def map_of_eq_Some_iff image_iff)

section \<open>What a hash holds\<close>

definition amounts :: "redis_key \<Rightarrow> redis \<Rightarrow> string \<rightharpoonup> rat" where
  "amounts k r = map_of (hs_fields (hash_at k r))"

definition hash_ok :: "hash \<Rightarrow> bool" where
  "hash_ok h \<longleftrightarrow> distinct (map fst (hs_fields h)) \<and> (hs_fields h = [] \<longrightarrow> hs_expire h = None)"

definition hashes_ok :: "redis \<Rightarrow> bool" where
  "hashes_ok r \<longleftrightarrow> (\<forall>k. hash_ok (rd_hash r k))"

lemma empty_hash_sel [simp]: "hs_fields empty_hash = []" "hs_expire empty_hash = None" "hash_ok empty_hash"
  by (simp_all add: empty_hash_def hash_ok_def)

lemma hashes_ok_empty [simp]: "hashes_ok (empty_redis now)"
  by (simp add: hashes_ok_def empty_redis_def rd_hash_def)

lemma rd_hash_put: "rd_hash (put_hash k h r) k' = (if k' = k then if hs_fields h = [] then empty_hash else h else rd_hash r k')"
  by (simp add: rd_hash_def put_hash_def update_conv' delete_conv')

lemma rd_hash_put_zset [simp]: "rd_hash (put_zset k z r) = rd_hash r"
  by (simp add: rd_hash_def put_zset_def fun_eq_iff)

lemma put_hash_sel [simp]: "rd_now (put_hash k h r) = rd_now r" "rd_zsets (put_hash k h r) = rd_zsets r"
  by (simp_all add: put_hash_def rd_zsets_def fun_eq_iff)

lemma hash_at_put:
  "hash_at k' (put_hash k h r) =
     (if k' = k then (if key_gone r (hs_expire h) \<or> hs_fields h = [] then empty_hash else h) else hash_at k' r)"
  by (auto simp: hash_at_def rd_hash_put key_gone_def split: option.splits)

lemma hash_at_live: "\<not> key_gone r (hs_expire (hash_at k r))"
  by (simp add: hash_at_def)

lemma hash_at_ok: "hashes_ok r \<Longrightarrow> hash_ok (hash_at k r)"
  by (simp add: hashes_ok_def hash_at_def)

lemma key_gone_put [simp]: "key_gone (put_zset k z r) = key_gone r" "key_gone (put_hash k h r) = key_gone r"
  by (simp_all add: key_gone_def fun_eq_iff cong: option.case_cong)

text \<open>A command on sorted sets leaves the hashes alone, and the other way round.\<close>

lemma put_zset_hashes [redis_simps]:
  "hash_at k' (put_zset k z r) = hash_at k' r" "amounts k' (put_zset k z r) = amounts k' r" "hashes_ok (put_zset k z r) = hashes_ok r"
  by (simp_all add: hash_at_def amounts_def hashes_ok_def)

lemma put_hash_zsets [redis_simps]:
  "zset_at k' (put_hash k h r) = zset_at k' r" "scores k' (put_hash k h r) = scores k' r" "redis_ok (put_hash k h r) = redis_ok r"
  by (simp_all add: zset_at_def scores_def redis_ok_def)

lemmas hash_defs = hset_def hdel_def hpexpire_def
lemmas all_zset_defs = command_defs zpexpire_def

lemma zset_commands_hashes [redis_simps]:
  "amounts k' (zadd k s m r) = amounts k' r" "amounts k' (zrem k m r) = amounts k' r" "amounts k' (zrem_upto k b r) = amounts k' r"
  "amounts k' (zpexpire k t r) = amounts k' r" "hashes_ok (zadd k s m r) = hashes_ok r" "hashes_ok (zrem k m r) = hashes_ok r"
  "hashes_ok (zrem_upto k b r) = hashes_ok r" "hashes_ok (zpexpire k t r) = hashes_ok r"
  by (simp_all add: all_zset_defs Let_def redis_simps)

lemma hash_commands_zsets [redis_simps]:
  "scores k' (hset k f v r) = scores k' r" "scores k' (hdel k f r) = scores k' r" "scores k' (hpexpire k t r) = scores k' r"
  "redis_ok (hset k f v r) = redis_ok r" "redis_ok (hdel k f r) = redis_ok r" "redis_ok (hpexpire k t r) = redis_ok r"
  "rd_now (hset k f v r) = rd_now r" "rd_now (hdel k f r) = rd_now r" "rd_now (hpexpire k t r) = rd_now r"
  by (simp_all add: hash_defs Let_def redis_simps)

lemma put_hash_ok: "hashes_ok r \<Longrightarrow> distinct (map fst (hs_fields h)) \<Longrightarrow> hashes_ok (put_hash k h r)"
  by (simp add: hashes_ok_def rd_hash_put) (simp add: hash_ok_def)

lemma hash_commands_ok [redis_simps]:
  assumes "hashes_ok r"
  shows "hashes_ok (hset k f v r)" "hashes_ok (hdel k f r)" "hashes_ok (hpexpire k t r)"
  using hash_at_ok [OF assms, of k] assms
  by (simp_all add: hash_defs Let_def put_hash_ok distinct_update distinct_delete hash_ok_def)

lemma amounts_hset [redis_simps]: "amounts k' (hset k f v r) = (if k' = k then (amounts k r)(f \<mapsto> v) else amounts k' r)"
proof -
  have "AList.update f v xs \<noteq> []" for xs by (cases xs) auto
  then show ?thesis by (simp add: amounts_def hset_def Let_def hash_at_put hash_at_live update_conv')
qed

lemma amounts_hdel [redis_simps]: "amounts k' (hdel k f r) = (if k' = k then (amounts k r)(f := None) else amounts k' r)"
  using delete_conv' [of f "hs_fields (hash_at k r)"]
  by (auto simp: amounts_def hdel_def Let_def hash_at_put hash_at_live)

lemma amounts_hpexpire [redis_simps]: "0 < t \<Longrightarrow> amounts k' (hpexpire k t r) = amounts k' r"
  by (auto simp: amounts_def hpexpire_def Let_def hash_at_put key_gone_def)

lemma finite_amounts [simp]: "finite (dom (amounts k r))"
  by (simp add: amounts_def finite_dom_map_of)

lemma sum_map_of: "distinct (map fst xs) \<Longrightarrow> sum_list (map snd xs) = (\<Sum>m \<in> dom (map_of xs). the (map_of xs m))"
proof (induction xs)
  case (Cons x xs)
  obtain k v where x: "x = (k, v)" by fastforce
  have k: "k \<notin> dom (map_of xs)" using Cons.prems by (auto simp: x dom_map_of_conv_image_fst)
  moreover have "(\<Sum>m \<in> dom (map_of xs). the (((map_of xs)(k \<mapsto> v)) m)) = (\<Sum>m \<in> dom (map_of xs). the (map_of xs m))"
    using k by (intro sum.cong) auto
  moreover have "dom (map_of (x # xs)) = insert k (dom (map_of xs))" "map_of (x # xs) = (map_of xs)(k \<mapsto> v)" by (simp_all add: x)
  ultimately show ?case using Cons by (simp add: x finite_dom_map_of del: map_of.simps fun_upd_apply) (simp add: x)
qed simp

lemma sum_hvals: "hashes_ok r \<Longrightarrow> sum_list (hvals k r) = (\<Sum>m \<in> dom (amounts k r). the (amounts k r m))"
  using hash_at_ok [of r k] by (simp add: hvals_def amounts_def hash_ok_def sum_map_of)

end
