(* ===== verification/Concurrency_Cache.thy ===== *)
theory Concurrency_Cache
  imports Redis_Store
begin

text \<open>
  The concurrency limits in Redis: \<open>repository/concurrency_cache.go\<close>. A request that uses an
  account or a user holds a slot, a member of a sorted set scored with the time it was taken; a
  live call holds a lease in three more sets. A slot that is not given back is worth nothing after
  its time to live. Each Lua script is one function of the store, each command of a pipeline one call.
  An index of the accounts and users with slots or waiting requests steers the background cleaning.
\<close>

section \<open>Keys\<close>

text \<open>The string the code builds for a key; the last four belong to the reservations of balances.\<close>

definition key_text :: "redis_key \<Rightarrow> string" where
  "key_text k = (case k of
      AccountSlots i \<Rightarrow> ''concurrency:account:'' @ show_int i
    | UserSlots i \<Rightarrow> ''concurrency:user:'' @ show_int i
    | KeySlots i \<Rightarrow> ''concurrency:api_key:'' @ show_int i
    | LiveAccountSlots i \<Rightarrow> ''concurrency:live:account:'' @ show_int i
    | LiveUserSlots i \<Rightarrow> ''concurrency:live:user:'' @ show_int i
    | LiveKeySlots i \<Rightarrow> ''concurrency:live:api_key:'' @ show_int i
    | IngressLeases i \<Rightarrow> ''concurrency:openai_ws_ingress:api_key:'' @ show_int i
    | UserWait i \<Rightarrow> ''concurrency:wait:'' @ show_int i
    | AccountWait i \<Rightarrow> ''wait:account:'' @ show_int i
    | AccountIndex \<Rightarrow> ''concurrency:account:active_index''
    | UserIndex \<Rightarrow> ''concurrency:user:active_index''
    | InflightSet i \<Rightarrow> ''billing:inflight:{'' @ show_int i @ ''}''
    | InflightAmounts i \<Rightarrow> ''billing:inflight_amt:{'' @ show_int i @ ''}''
    | ScopeSet s \<Rightarrow> ''billing:inflight_scope:{'' @ s @ ''}''
    | ScopeAmounts s \<Rightarrow> ''billing:inflight_scope_amt:{'' @ s @ ''}'')"

definition openAIWSIngressLeaseTTLSeconds :: int where "openAIWSIngressLeaseTTLSeconds = 60"
definition liveLeaseTTLSeconds :: int where "liveLeaseTTLSeconds = 60"
definition defaultSlotTTLMinutes :: int where "defaultSlotTTLMinutes = 15"
definition activeIndexCleanupBatchSize :: nat where "activeIndexCleanupBatchSize = 1000"

record conc_cache =
  cc_slot_ttl :: int
  cc_wait_ttl :: int

definition new_concurrency_cache :: "int \<Rightarrow> int \<Rightarrow> conc_cache" where
  "new_concurrency_cache slot_minutes wait_seconds =
     (let m = (if slot_minutes \<le> 0 then defaultSlotTTLMinutes else slot_minutes);
          s = (if wait_seconds \<le> 0 then m * 60 else wait_seconds)
      in \<lparr>cc_slot_ttl = m * 60, cc_wait_ttl = s\<rparr>)"

section \<open>Scripts\<close>

text \<open>A slot is granted to a request that has one, and while there is room beside the live leases.\<close>

definition acquire_script :: "redis_key \<Rightarrow> redis_key \<Rightarrow> int \<Rightarrow> int \<Rightarrow> string \<Rightarrow> redis \<Rightarrow> (bool \<times> int) \<times> redis" where
  "acquire_script k live limit ttl rid r =
     (let now = redis_time r;
          r1 = zrem_upto live (now - 60) (zrem_upto k (now - ttl) r);
          granted = zexpire k ttl (zadd k now rid r1)
      in if zscore k rid r1 \<noteq> None then ((True, now), granted)
         else if zcard k r1 + zcard live r1 < limit then ((True, now), granted)
         else ((False, now), r1))"

definition get_count_script :: "redis_key \<Rightarrow> redis_key \<Rightarrow> int \<Rightarrow> redis \<Rightarrow> int \<times> redis" where
  "get_count_script k live ttl r =
     (let now = redis_time r;
          r1 = zrem_upto live (now - 60) (zrem_upto k (now - ttl) r)
      in (zcard k r1 + zcard live r1, r1))"

text \<open>The sets of regular slots are counted as they are.\<close>

definition acquire_live_lease_script ::
  "redis_key \<Rightarrow> redis_key \<Rightarrow> redis_key \<Rightarrow> redis_key \<Rightarrow> redis_key \<Rightarrow> int \<Rightarrow> int \<Rightarrow> int \<Rightarrow> string \<Rightarrow> bool \<Rightarrow> redis \<Rightarrow> bool \<times> redis" where
  "acquire_live_lease_script account_regular account_live user_regular user_live api_live account_max user_max ttl lease replacing r =
     (let now = redis_time r;
          r1 = zrem_upto api_live (now - ttl) (zrem_upto user_live (now - ttl) (zrem_upto account_live (now - ttl) r));
          account_count = zcard account_regular r1 + zcard account_live r1;
          user_count = zcard user_regular r1 + zcard user_live r1;
          allowance = (if replacing then 1 else 0)
      in if zscore account_live lease r1 \<noteq> None then (True, r1)
         else if account_max > 0 \<and> account_count \<ge> account_max + allowance then (False, r1)
         else if user_max > 0 \<and> user_count \<ge> user_max + allowance then (False, r1)
         else (True, zexpire api_live ttl (zexpire user_live ttl (zexpire account_live ttl
                (zadd api_live now lease (zadd user_live now lease (zadd account_live now lease r1)))))))"

fun lease_in_all :: "redis_key list \<Rightarrow> int \<Rightarrow> string \<Rightarrow> redis \<Rightarrow> bool \<times> redis" where
  "lease_in_all [] bound lease r = (True, r)"
| "lease_in_all (k # ks) bound lease r =
     (let r1 = zrem_upto k bound r in if zscore k lease r1 = None then (False, r1) else lease_in_all ks bound lease r1)"

definition refresh_live_lease_script :: "redis_key list \<Rightarrow> int \<Rightarrow> string \<Rightarrow> redis \<Rightarrow> bool \<times> redis" where
  "refresh_live_lease_script ks ttl lease r =
     (let now = redis_time r in
      case lease_in_all ks (now - ttl) lease r of
        (False, r1) \<Rightarrow> (False, r1)
      | (True, r1) \<Rightarrow> (True, fold (\<lambda>k s. zexpire k ttl (zadd k now lease s)) ks r1))"

definition track_slot_script :: "redis_key \<Rightarrow> int \<Rightarrow> string \<Rightarrow> redis \<Rightarrow> unit \<times> redis" where
  "track_slot_script k ttl rid r =
     (let now = redis_time r in ((), zexpire k ttl (zadd k now rid (zrem_upto k (now - ttl) r))))"

definition acquire_ingress_lease_script :: "redis_key \<Rightarrow> int \<Rightarrow> int \<Rightarrow> string \<Rightarrow> redis \<Rightarrow> bool \<times> redis" where
  "acquire_ingress_lease_script k max_connections ttl lease r =
     (let now = redis_time r;
          r1 = zrem_upto k (now - ttl) r;
          granted = zexpire k ttl (zadd k now lease r1)
      in if zscore k lease r1 \<noteq> None then (True, granted)
         else if zcard k r1 < max_connections then (True, granted)
         else (False, r1))"

definition refresh_ingress_lease_script :: "redis_key \<Rightarrow> int \<Rightarrow> string \<Rightarrow> redis \<Rightarrow> bool \<times> redis" where
  "refresh_ingress_lease_script k ttl lease r =
     (let now = redis_time r;
          r1 = zrem_upto k (now - ttl) r
      in if zscore k lease r1 = None then (False, r1)
         else (True, zexpire k ttl (zadd k now lease r1)))"

definition increment_wait_script :: "redis_key \<Rightarrow> int \<Rightarrow> int \<Rightarrow> redis \<Rightarrow> (bool \<times> int) \<times> redis" where
  "increment_wait_script k max_wait ttl r =
     (let current = (case count_at k r of None \<Rightarrow> 0 | Some v \<Rightarrow> v);
          now = redis_time r
      in if current \<ge> max_wait then ((False, now), r)
         else ((True, now), cexpire k ttl (incr_by k 1 r)))"

definition decrement_wait_script :: "redis_key \<Rightarrow> redis \<Rightarrow> unit \<times> redis" where
  "decrement_wait_script k r =
     ((), case count_at k r of None \<Rightarrow> r | Some v \<Rightarrow> if v > 0 then incr_by k (- 1) r else r)"

definition cleanup_expired_slots_script :: "redis_key \<Rightarrow> int \<Rightarrow> redis \<Rightarrow> unit \<times> redis" where
  "cleanup_expired_slots_script k ttl r =
     (let r1 = zrem_upto k (redis_time r - ttl) r
      in ((), if zcard k r1 = 0 then zdel k r1 else zexpire k ttl r1))"

text \<open>Every member that is not of the process with the given prefix is removed.\<close>

definition startup_cleanup_slot_script :: "redis_key \<Rightarrow> string \<Rightarrow> int \<Rightarrow> redis \<Rightarrow> (int \<times> int) \<times> redis" where
  "startup_cleanup_slot_script k prefix ttl r =
     (let strangers = filter (\<lambda>m. \<not> has_prefix m prefix) (map fst (zs_members (zset_at k r)));
          r1 = fold (zrem k) strangers r;
          remaining = zcard k r1
      in ((int (length strangers), remaining), if remaining = 0 then zdel k r1 else zexpire k ttl r1))"

section \<open>The index of active accounts and users\<close>

type_synonym redis_world = "redis world"

text \<open>The set of live leases, which the code passes beside the slots, is kept with them.\<close>

record slot_index =
  si_index :: redis_key
  si_slot :: "int \<Rightarrow> redis_key"
  si_live :: "int \<Rightarrow> redis_key"
  si_wait :: "int \<Rightarrow> redis_key"

definition account_slot_index :: slot_index where
  "account_slot_index = \<lparr>si_index = AccountIndex, si_slot = AccountSlots, si_live = LiveAccountSlots, si_wait = AccountWait\<rparr>"

definition user_slot_index :: slot_index where
  "user_slot_index = \<lparr>si_index = UserIndex, si_slot = UserSlots, si_live = LiveUserSlots, si_wait = UserWait\<rparr>"

lemmas slot_index_defs = account_slot_index_def user_slot_index_def

definition do_cmd :: "(redis \<Rightarrow> redis) \<Rightarrow> redis \<Rightarrow> unit \<times> redis" where
  "do_cmd f r = ((), f r)"

definition look :: "(redis \<Rightarrow> 'a) \<Rightarrow> redis \<Rightarrow> 'a \<times> redis" where
  "look f r = (f r, r)"

text \<open>A failure to keep the index is logged only.\<close>

definition touch_active_index_at :: "redis_key \<Rightarrow> int \<Rightarrow> int \<Rightarrow> redis_world \<Rightarrow> redis_world" where
  "touch_active_index_at index i expire_at w =
     (if i \<le> 0 \<or> expire_at \<le> 0 then w else snd (call (do_cmd (zadd index expire_at (show_int i))) w))"

definition remove_active_index_members :: "redis_key \<Rightarrow> string list \<Rightarrow> redis_world \<Rightarrow> redis_world" where
  "remove_active_index_members index members w =
     (if members = [] then w else snd (call (do_cmd (fold (zrem index) members)) w))"

definition active_index_ttl :: "conc_cache \<Rightarrow> int \<Rightarrow> int \<Rightarrow> int" where
  "active_index_ttl c slots waiting =
     (let ttl = (if slots > 0 then cc_slot_ttl c else 0)
      in if waiting > 0 \<and> cc_wait_ttl c > ttl then cc_wait_ttl c else ttl)"

text \<open>The slots that are left after cleaning, and the requests that wait.\<close>

definition read_active_load :: "conc_cache \<Rightarrow> slot_index \<Rightarrow> int \<Rightarrow> int \<Rightarrow> redis_world \<Rightarrow> (int \<times> int) answer \<times> redis_world" where
  "read_active_load c spec i now w =
     call_then (call (do_cmd (zrem_upto (si_slot spec i) (now - cc_slot_ttl c))) w) (\<lambda>_ w1.
     call_then (call (look (zcard (si_slot spec i))) w1) (\<lambda>slots w2.
     call_then (call (look (count_at (si_wait spec i))) w2) (\<lambda>waiting w3.
       (DbOk (slots, case waiting of None \<Rightarrow> 0 | Some v \<Rightarrow> if v > 0 then v else 0), w3))))"

definition refresh_active_index :: "conc_cache \<Rightarrow> slot_index \<Rightarrow> int \<Rightarrow> redis_world \<Rightarrow> redis_world" where
  "refresh_active_index c spec i w =
     (if i \<le> 0 then w
      else case call (look redis_time) w of
        (DbErr, w1) \<Rightarrow> w1
      | (DbOk now, w1) \<Rightarrow>
          (case read_active_load c spec i now w1 of
             (DbErr, w2) \<Rightarrow> w2
           | (DbOk (slots, waiting), w2) \<Rightarrow>
               if slots = 0 \<and> waiting \<le> 0 then snd (call (do_cmd (zrem (si_index spec) (show_int i))) w2)
               else if active_index_ttl c slots waiting \<le> 0 then w2
               else touch_active_index_at (si_index spec) i (now + active_index_ttl c slots waiting) w2))"

section \<open>Slots\<close>

definition acquire_slot :: "conc_cache \<Rightarrow> slot_index \<Rightarrow> int \<Rightarrow> int \<Rightarrow> string \<Rightarrow> redis_world \<Rightarrow> bool answer \<times> redis_world" where
  "acquire_slot c spec i limit rid w =
     call_then (call (acquire_script (si_slot spec i) (si_live spec i) limit (cc_slot_ttl c) rid) w) (\<lambda>(granted, now) w1.
       (DbOk granted, if granted then touch_active_index_at (si_index spec) i (now + cc_slot_ttl c) w1 else w1))"

definition release_slot :: "conc_cache \<Rightarrow> slot_index \<Rightarrow> int \<Rightarrow> string \<Rightarrow> redis_world \<Rightarrow> unit answer \<times> redis_world" where
  "release_slot c spec i rid w =
     call_then (call (do_cmd (zrem (si_slot spec i) rid)) w) (\<lambda>_ w1. (DbOk (), refresh_active_index c spec i w1))"

definition get_concurrency :: "conc_cache \<Rightarrow> slot_index \<Rightarrow> int \<Rightarrow> redis_world \<Rightarrow> int answer \<times> redis_world" where
  "get_concurrency c spec i w = call (get_count_script (si_slot spec i) (si_live spec i) (cc_slot_ttl c)) w"

text \<open>Counts of many accounts or keys at once, cleaned with the time read first.\<close>

definition count_key :: "redis_key \<Rightarrow> redis_key \<Rightarrow> int \<Rightarrow> int \<Rightarrow> redis_world \<Rightarrow> int answer \<times> redis_world" where
  "count_key k live ttl now w =
     call_then (call (do_cmd (zrem_upto k (now - ttl))) w) (\<lambda>_ w1.
     call_then (call (do_cmd (zrem_upto live (now - liveLeaseTTLSeconds))) w1) (\<lambda>_ w2.
     call_then (call (look (zcard k)) w2) (\<lambda>n w3.
     call_then (call (look (zcard live)) w3) (\<lambda>m w4. (DbOk (n + m), w4)))))"

fun each :: "('x \<Rightarrow> 'd world \<Rightarrow> 'a answer \<times> 'd world) \<Rightarrow> 'x list \<Rightarrow> 'd world \<Rightarrow> ('x \<times> 'a) list answer \<times> 'd world" where
  "each f [] w = (DbOk [], w)"
| "each f (x # xs) w = call_then (f x w) (\<lambda>a w1. call_then (each f xs w1) (\<lambda>as w2. (DbOk ((x, a) # as), w2)))"

definition get_concurrency_batch ::
  "conc_cache \<Rightarrow> (int \<Rightarrow> redis_key) \<Rightarrow> (int \<Rightarrow> redis_key) \<Rightarrow> int list \<Rightarrow> redis_world \<Rightarrow> (int \<times> int) list answer \<times> redis_world" where
  "get_concurrency_batch c slot live ids w =
     (if ids = [] then (DbOk [], w)
      else call_then (call (look redis_time) w) (\<lambda>now w1. each (\<lambda>i. count_key (slot i) (live i) (cc_slot_ttl c) now) ids w1))"

record load_info =
  li_current :: int
  li_waiting :: int
  li_rate :: int

definition load_of :: "conc_cache \<Rightarrow> slot_index \<Rightarrow> int \<Rightarrow> int \<times> int \<Rightarrow> redis_world \<Rightarrow> load_info answer \<times> redis_world" where
  "load_of c spec now p w =
     (case p of (i, limit) \<Rightarrow>
        call_then (count_key (si_slot spec i) (si_live spec i) (cc_slot_ttl c) now w) (\<lambda>n w1.
        call_then (call (look (count_at (si_wait spec i))) w1) (\<lambda>v w2.
          let waiting = (case v of None \<Rightarrow> 0 | Some x \<Rightarrow> x)
          in (DbOk \<lparr>li_current = n, li_waiting = waiting,
                    li_rate = (if limit > 0 then go_div ((n + waiting) * 100) limit else 0)\<rparr>, w2))))"

definition get_loads_batch ::
  "conc_cache \<Rightarrow> slot_index \<Rightarrow> (int \<times> int) list \<Rightarrow> redis_world \<Rightarrow> ((int \<times> int) \<times> load_info) list answer \<times> redis_world" where
  "get_loads_batch c spec accounts w =
     (if accounts = [] then (DbOk [], w)
      else call_then (call (look redis_time) w) (\<lambda>now w1. each (load_of c spec now) accounts w1))"

definition track_api_key_slot :: "conc_cache \<Rightarrow> int \<Rightarrow> string \<Rightarrow> redis_world \<Rightarrow> unit answer \<times> redis_world" where
  "track_api_key_slot c kid rid w = call (track_slot_script (KeySlots kid) (cc_slot_ttl c) rid) w"

definition release_api_key_slot :: "int \<Rightarrow> string \<Rightarrow> redis_world \<Rightarrow> unit answer \<times> redis_world" where
  "release_api_key_slot kid rid w = call (do_cmd (zrem (KeySlots kid) rid)) w"

section \<open>Leases\<close>

definition acquire_ingress_lease :: "int \<Rightarrow> int \<Rightarrow> string \<Rightarrow> redis_world \<Rightarrow> bool answer \<times> redis_world" where
  "acquire_ingress_lease kid max_connections lease w =
     (if kid \<le> 0 \<or> max_connections \<le> 0 \<or> lease = [] then (DbOk False, w)
      else call (acquire_ingress_lease_script (IngressLeases kid) max_connections openAIWSIngressLeaseTTLSeconds lease) w)"

definition refresh_ingress_lease :: "int \<Rightarrow> string \<Rightarrow> redis_world \<Rightarrow> bool answer \<times> redis_world" where
  "refresh_ingress_lease kid lease w =
     (if kid \<le> 0 \<or> lease = [] then (DbOk False, w)
      else call (refresh_ingress_lease_script (IngressLeases kid) openAIWSIngressLeaseTTLSeconds lease) w)"

definition release_ingress_lease :: "int \<Rightarrow> string \<Rightarrow> redis_world \<Rightarrow> unit answer \<times> redis_world" where
  "release_ingress_lease kid lease w =
     (if kid \<le> 0 \<or> lease = [] then (DbOk (), w) else call (do_cmd (zrem (IngressLeases kid) lease)) w)"

definition acquire_live_lease ::
  "int \<Rightarrow> int \<Rightarrow> int \<Rightarrow> int \<Rightarrow> int \<Rightarrow> string \<Rightarrow> bool \<Rightarrow> redis_world \<Rightarrow> bool answer \<times> redis_world" where
  "acquire_live_lease aid account_max uid user_max kid lease replacing w =
     (if aid \<le> 0 \<or> uid \<le> 0 \<or> kid \<le> 0 \<or> lease = [] then (DbOk False, w)
      else call (acquire_live_lease_script (AccountSlots aid) (LiveAccountSlots aid) (UserSlots uid) (LiveUserSlots uid)
             (LiveKeySlots kid) account_max user_max liveLeaseTTLSeconds lease replacing) w)"

definition live_keys :: "int \<Rightarrow> int \<Rightarrow> int \<Rightarrow> redis_key list" where
  "live_keys aid uid kid = [LiveAccountSlots aid, LiveUserSlots uid, LiveKeySlots kid]"

definition refresh_live_lease :: "int \<Rightarrow> int \<Rightarrow> int \<Rightarrow> string \<Rightarrow> redis_world \<Rightarrow> bool answer \<times> redis_world" where
  "refresh_live_lease aid uid kid lease w =
     (if lease = [] then (DbOk False, w)
      else call (refresh_live_lease_script (live_keys aid uid kid) liveLeaseTTLSeconds lease) w)"

definition release_live_lease :: "int \<Rightarrow> int \<Rightarrow> int \<Rightarrow> string \<Rightarrow> redis_world \<Rightarrow> unit answer \<times> redis_world" where
  "release_live_lease aid uid kid lease w =
     (if lease = [] then (DbOk (), w) else call (do_cmd (fold (\<lambda>k. zrem k lease) (live_keys aid uid kid))) w)"

section \<open>Waiting requests\<close>

definition increment_wait_count :: "conc_cache \<Rightarrow> slot_index \<Rightarrow> int \<Rightarrow> int \<Rightarrow> redis_world \<Rightarrow> bool answer \<times> redis_world" where
  "increment_wait_count c spec i max_wait w =
     call_then (call (increment_wait_script (si_wait spec i) max_wait (cc_wait_ttl c)) w) (\<lambda>(granted, now) w1.
       (DbOk granted, if granted then touch_active_index_at (si_index spec) i (now + cc_wait_ttl c) w1 else w1))"

definition decrement_wait_count :: "conc_cache \<Rightarrow> slot_index \<Rightarrow> int \<Rightarrow> redis_world \<Rightarrow> unit answer \<times> redis_world" where
  "decrement_wait_count c spec i w =
     call_then (call (decrement_wait_script (si_wait spec i)) w) (\<lambda>_ w1. (DbOk (), refresh_active_index c spec i w1))"

definition get_account_waiting_count :: "int \<Rightarrow> redis_world \<Rightarrow> int answer \<times> redis_world" where
  "get_account_waiting_count aid w =
     call_then (call (look (count_at (AccountWait aid))) w) (\<lambda>v w1. (DbOk (case v of None \<Rightarrow> 0 | Some x \<Rightarrow> x), w1))"

section \<open>Cleaning\<close>

definition cleanup_expired_account_slots :: "conc_cache \<Rightarrow> int \<Rightarrow> redis_world \<Rightarrow> unit answer \<times> redis_world" where
  "cleanup_expired_account_slots c aid w =
     call_then (call (cleanup_expired_slots_script (AccountSlots aid) (cc_slot_ttl c)) w) (\<lambda>_ w1.
       (DbOk (), refresh_active_index c account_slot_index aid w1))"

text \<open>The members of an index whose time has come, lowest scores first.\<close>

definition expired_members :: "redis_key \<Rightarrow> int \<Rightarrow> redis \<Rightarrow> string list" where
  "expired_members index now r =
     take activeIndexCleanupBatchSize (map fst (sort_key snd (filter (\<lambda>(m, s). s \<le> now) (zs_members (zset_at index r)))))"

definition reconcile_expired_index_candidates :: "conc_cache \<Rightarrow> slot_index \<Rightarrow> redis_world \<Rightarrow> unit answer \<times> redis_world" where
  "reconcile_expired_index_candidates c spec w =
     call_then (call (look redis_time) w) (\<lambda>now w1.
     call_then (call (look (expired_members (si_index spec) now)) w1) (\<lambda>members w2.
       let bad = filter (\<lambda>m. parse_positive_int64 m = None) members;
           candidates = List.map_filter (\<lambda>m. map_option (Pair m) (parse_positive_int64 m)) members
       in call_then (each (\<lambda>(m, i). read_active_load c spec i now) candidates w2) (\<lambda>loads w3.
            let idle = map (\<lambda>((m, i), l). m) (filter (\<lambda>((m, i), (slots, waiting)). slots = 0 \<and> waiting \<le> 0) loads);
                busy = filter (\<lambda>((m, i), (slots, waiting)). \<not> (slots = 0 \<and> waiting \<le> 0)) loads;
                w4 = (if busy = [] then w3
                      else snd (call (do_cmd (fold (\<lambda>((m, i), (slots, waiting)). zadd (si_index spec)
                             (now + active_index_ttl c slots waiting) m) busy)) w3))
            in (DbOk (), remove_active_index_members (si_index spec) (bad @ idle) w4))))"

definition cleanup_expired_account_slot_keys :: "conc_cache \<Rightarrow> redis_world \<Rightarrow> unit answer \<times> redis_world" where
  "cleanup_expired_account_slot_keys c w =
     call_then (reconcile_expired_index_candidates c account_slot_index w) (\<lambda>_ w1.
       reconcile_expired_index_candidates c user_slot_index w1)"

text \<open>The scan of all wait counters counts as one statement for the accounts and one for the users.\<close>

definition delete_waits :: "(redis_key \<Rightarrow> bool) \<Rightarrow> redis \<Rightarrow> redis" where
  "delete_waits P r = r\<lparr>rd_counters := filter (\<lambda>(k, x). \<not> P k) (rd_counters r)\<rparr>"

definition sweep_legacy_wait_keys_once :: "redis_world \<Rightarrow> unit answer \<times> redis_world" where
  "sweep_legacy_wait_keys_once w =
     call_then (call (look rd_swept) w) (\<lambda>swept w1.
       if swept then (DbOk (), w1)
       else call_then (call (do_cmd (delete_waits (\<lambda>k. case k of AccountWait _ \<Rightarrow> True | _ \<Rightarrow> False))) w1) (\<lambda>_ w2.
            call_then (call (do_cmd (delete_waits (\<lambda>k. case k of UserWait _ \<Rightarrow> True | _ \<Rightarrow> False))) w2) (\<lambda>_ w3.
              call (do_cmd (rd_swept_update (\<lambda>_. True))) w3)))"

definition cleanup_stale_member ::
  "conc_cache \<Rightarrow> slot_index \<Rightarrow> string \<Rightarrow> string \<Rightarrow> redis_world \<Rightarrow> bool answer \<times> redis_world" where
  "cleanup_stale_member c spec prefix m w =
     (case parse_positive_int64 m of
        None \<Rightarrow> (DbOk False, w)
      | Some i \<Rightarrow>
          call_then (call (startup_cleanup_slot_script (si_slot spec i) prefix (cc_slot_ttl c)) w) (\<lambda>(removed, remaining) w1.
          call_then (call (do_cmd (cdel (si_wait spec i))) w1) (\<lambda>_ w2. (DbOk (remaining > 0), w2))))"

definition cleanup_stale_process_slots_for_index ::
  "conc_cache \<Rightarrow> slot_index \<Rightarrow> string list \<Rightarrow> string \<Rightarrow> int \<Rightarrow> redis_world \<Rightarrow> unit answer \<times> redis_world" where
  "cleanup_stale_process_slots_for_index c spec members prefix now w =
     call_then (each (cleanup_stale_member c spec prefix) members w) (\<lambda>kept w1.
       let busy = map fst (filter snd kept);
           w2 = (if busy = [] then w1
                 else snd (call (do_cmd (fold (\<lambda>m. zadd (si_index spec) (now + cc_slot_ttl c) m) busy)) w1))
       in (DbOk (), remove_active_index_members (si_index spec) (map fst (filter (Not \<circ> snd) kept)) w2))"

definition all_index_members :: "redis_key \<Rightarrow> redis \<Rightarrow> string list" where
  "all_index_members index r = map fst (sort_key snd (zs_members (zset_at index r)))"

definition cleanup_stale_process_slots :: "conc_cache \<Rightarrow> string \<Rightarrow> redis_world \<Rightarrow> unit answer \<times> redis_world" where
  "cleanup_stale_process_slots c prefix w =
     (if prefix = [] then (DbOk (), w)
      else call_then (sweep_legacy_wait_keys_once w) (\<lambda>_ w1.
           call_then (call (look redis_time) w1) (\<lambda>now w2.
           call_then (call (look (all_index_members AccountIndex)) w2) (\<lambda>accounts w3.
           call_then (cleanup_stale_process_slots_for_index c account_slot_index accounts prefix now w3) (\<lambda>_ w4.
           call_then (call (look (all_index_members UserIndex)) w4) (\<lambda>users w5.
             cleanup_stale_process_slots_for_index c user_slot_index users prefix now w5))))))"

end
