(* ===== verification/Concurrency_Service.thy ===== *)
theory Concurrency_Service
  imports Concurrency_Cache "HOL-Library.Word"
begin

text \<open>
  The service over the concurrency limits, \<open>service/concurrency_service.go\<close>, and the waiting for a
  slot in \<open>handler/gateway_helper.go\<close>. A process marks its requests with a prefix of its own and a
  counter. The function that gives a slot back is a value of \<open>release\<close>. The loop of a waiting
  request is a partial function: how long its attempts take, the jitter of its pauses and the end of
  the client's request are its parameters. The pings it sends in between and the short-lived local
  cache of loads are left out.
\<close>

section \<open>Request ids\<close>

record conc_process =
  cp_prefix :: string
  cp_counter :: "64 word"

text \<open>\<open>strconv.FormatUint(n, 36)\<close>\<close>

fun base36 :: "nat \<Rightarrow> string" where
  "base36 n =
     (let digit = (\<lambda>d. char_of (if d < 10 then 48 + d else 87 + d))
      in if n < 36 then [digit n] else base36 (n div 36) @ [digit (n mod 36)])"

declare base36.simps [simp del]

definition generate_request_id :: "conc_process \<Rightarrow> string \<times> conc_process" where
  "generate_request_id p =
     (let seq = cp_counter p + 1 in (cp_prefix p @ ''-'' @ base36 (unat seq), p\<lparr>cp_counter := seq\<rparr>))"

section \<open>Slots\<close>

datatype slot_kind = AccountKind | UserKind

definition index_of :: "slot_kind \<Rightarrow> slot_index" where
  "index_of k = (case k of AccountKind \<Rightarrow> account_slot_index | UserKind \<Rightarrow> user_slot_index)"

datatype release =
    NoRelease
  | ReleaseSlot slot_kind int string
  | ReleaseBoth release int string

fun run_release :: "conc_cache \<Rightarrow> release \<Rightarrow> redis_world \<Rightarrow> redis_world" where
  "run_release c NoRelease w = w"
| "run_release c (ReleaseSlot k i rid) w = snd (release_slot c (index_of k) i rid w)"
| "run_release c (ReleaseBoth r kid rid) w = snd (release_api_key_slot kid rid (run_release c r w))"

text \<open>None: no slot was free. A limit that is not positive is no limit.\<close>

definition acquire_slot_service ::
  "conc_cache \<Rightarrow> slot_kind \<Rightarrow> int \<Rightarrow> int \<Rightarrow> conc_process \<Rightarrow> redis_world \<Rightarrow> release option answer \<times> conc_process \<times> redis_world" where
  "acquire_slot_service c k i limit p w =
     (if limit \<le> 0 then (DbOk (Some NoRelease), p, w)
      else let (rid, p1) = generate_request_id p in
        case acquire_slot c (index_of k) i limit rid w of
          (DbErr, w1) \<Rightarrow> (DbErr, p1, w1)
        | (DbOk granted, w1) \<Rightarrow> (DbOk (if granted then Some (ReleaseSlot k i rid) else None), p1, w1))"

definition track_api_key_slot_service :: "conc_cache \<Rightarrow> int \<Rightarrow> release \<Rightarrow> conc_process \<Rightarrow> redis_world \<Rightarrow> release \<times> conc_process \<times> redis_world" where
  "track_api_key_slot_service c kid r p w =
     (if kid \<le> 0 then (r, p, w)
      else let (rid, p1) = generate_request_id p in
        case track_api_key_slot c kid rid w of
          (DbErr, w1) \<Rightarrow> (r, p1, w1)
        | (DbOk _, w1) \<Rightarrow> (ReleaseBoth r kid rid, p1, w1))"

text \<open>When the store fails the request may wait, and nothing tells that it was not counted.\<close>

definition increment_wait_service :: "conc_cache \<Rightarrow> slot_kind \<Rightarrow> int \<Rightarrow> int \<Rightarrow> redis_world \<Rightarrow> bool \<times> redis_world" where
  "increment_wait_service c k i max_wait w =
     (case increment_wait_count c (index_of k) i max_wait w of (DbErr, w1) \<Rightarrow> (True, w1) | (DbOk b, w1) \<Rightarrow> (b, w1))"

definition decrement_wait_service :: "conc_cache \<Rightarrow> slot_kind \<Rightarrow> int \<Rightarrow> redis_world \<Rightarrow> redis_world" where
  "decrement_wait_service c k i w = snd (decrement_wait_count c (index_of k) i w)"

definition defaultExtraWaitSlots :: int where "defaultExtraWaitSlots = 20"

definition calculate_max_wait :: "int \<Rightarrow> int" where
  "calculate_max_wait n = (if n \<le> 0 then 1 else n) + defaultExtraWaitSlots"

section \<open>Leases of client connections\<close>

definition openAIWSIngressLeaseTTL :: duration where "openAIWSIngressLeaseTTL = 60 * Second"
definition openAIWSIngressLeaseRefreshInterval :: duration where "openAIWSIngressLeaseRefreshInterval = 20 * Second"
definition openAIWSIngressLeaseOperationTO :: duration where "openAIWSIngressLeaseOperationTO = 2 * Second"

datatype lease_answer = LeaseUnlimited | LeaseHeld string | LeaseRefused | LeaseError

definition acquire_ingress_lease_service ::
  "int \<Rightarrow> int \<Rightarrow> conc_process \<Rightarrow> redis_world \<Rightarrow> lease_answer \<times> conc_process \<times> redis_world" where
  "acquire_ingress_lease_service kid max_connections p w =
     (if max_connections \<le> 0 then (LeaseUnlimited, p, w)
      else if kid \<le> 0 then (LeaseError, p, w)
      else let (lease, p1) = generate_request_id p in
        case acquire_ingress_lease kid max_connections lease w of
          (DbErr, w1) \<Rightarrow> (LeaseError, p1, w1)
        | (DbOk True, w1) \<Rightarrow> (LeaseHeld lease, p1, w1)
        | (DbOk False, w1) \<Rightarrow> (LeaseRefused, p1, w1))"

text \<open>The time the lease was last confirmed, and whether it is lost; \<open>now\<close> is when the refresh returned.\<close>

definition lease_refresh :: "bool answer \<Rightarrow> gotime \<Rightarrow> gotime \<Rightarrow> gotime \<times> bool" where
  "lease_refresh answer_of now last_confirmed =
     (case answer_of of
        DbOk True \<Rightarrow> (now, False)
      | DbOk False \<Rightarrow> (last_confirmed, True)
      | DbErr \<Rightarrow> (last_confirmed, now - last_confirmed \<ge> openAIWSIngressLeaseTTL))"

text \<open>
  The refreshing loop of a lease: each round is the answer of a refresh and the time it came. The
  result is the time at which the connection is given up, if it is.
\<close>

fun lease_loop :: "(bool answer \<times> gotime) list \<Rightarrow> gotime \<Rightarrow> gotime option" where
  "lease_loop [] confirmed = None"
| "lease_loop ((a, now) # rounds) confirmed =
     (case lease_refresh a now confirmed of (c, lost) \<Rightarrow> if lost then Some now else lease_loop rounds c)"

section \<open>Waiting for a slot\<close>

definition maxConcurrencyWait :: duration where "maxConcurrencyWait = 30 * Second"
definition initialBackoff :: duration where "initialBackoff = 100 * Millisecond"
definition maxBackoff :: duration where "maxBackoff = 2 * Second"

text \<open>\<open>x\<close> is the random number of the jitter, from 0 up to 1.\<close>

definition next_backoff :: "rat \<Rightarrow> duration \<Rightarrow> duration" where
  "next_backoff x current =
     (let grown = go_trunc (of_int current * (3/2));
          next' = (if grown > maxBackoff then maxBackoff else grown);
          jittered = go_trunc (of_int next' * (8/10 + x * (4/10)))
      in if jittered < initialBackoff then initialBackoff
         else if jittered > maxBackoff then maxBackoff else jittered)"

datatype wait_error = StoreError | ClientGone | WaitTimeout | WaitQueueFull

type_synonym 'r waited = "(wait_error + 'r) \<times> conc_process \<times> redis_world"

text \<open>
  \<open>t\<close> is the time since the wait began, \<open>gone\<close> when the client goes away, \<open>lat n\<close> how long the
  \<open>n\<close>-th attempt takes, \<open>rnd n\<close> the random number of the pause after it. The pause ends by the
  timer, the client or the time limit, whichever comes first; the timer loses a tie.
\<close>

partial_function (option) wait_loop ::
  "conc_cache \<Rightarrow> slot_kind \<Rightarrow> int \<Rightarrow> int \<Rightarrow> duration \<Rightarrow> duration option \<Rightarrow> (nat \<Rightarrow> duration) \<Rightarrow> (nat \<Rightarrow> rat) \<Rightarrow>
   nat \<Rightarrow> duration \<Rightarrow> duration \<Rightarrow> conc_process \<Rightarrow> redis_world \<Rightarrow> release waited option" where
  "wait_loop c k i limit timeout gone lat rnd n t backoff p w =
     (if (case gone of None \<Rightarrow> False | Some g \<Rightarrow> g \<le> t + backoff \<and> g \<le> timeout) then Some (Inl ClientGone, p, w)
      else if timeout \<le> t + backoff then Some (Inl WaitTimeout, p, w)
      else case acquire_slot_service c k i limit p w of
          (DbErr, p1, w1) \<Rightarrow> Some (Inl StoreError, p1, w1)
        | (DbOk (Some r), p1, w1) \<Rightarrow> Some (Inr r, p1, w1)
        | (DbOk None, p1, w1) \<Rightarrow>
            wait_loop c k i limit timeout gone lat rnd (Suc n) (t + backoff + lat n) (next_backoff (rnd n) backoff) p1 w1)"

definition wait_for_slot ::
  "conc_cache \<Rightarrow> slot_kind \<Rightarrow> int \<Rightarrow> int \<Rightarrow> duration \<Rightarrow> duration option \<Rightarrow> (nat \<Rightarrow> duration) \<Rightarrow> (nat \<Rightarrow> rat) \<Rightarrow> bool \<Rightarrow>
   conc_process \<Rightarrow> redis_world \<Rightarrow> release waited option" where
  "wait_for_slot c k i limit timeout gone lat rnd try_immediate p w =
     (if \<not> try_immediate then wait_loop c k i limit timeout gone lat rnd 0 0 initialBackoff p w
      else case acquire_slot_service c k i limit p w of
          (DbErr, p1, w1) \<Rightarrow> Some (Inl StoreError, p1, w1)
        | (DbOk (Some r), p1, w1) \<Rightarrow> Some (Inr r, p1, w1)
        | (DbOk None, p1, w1) \<Rightarrow> wait_loop c k i limit timeout gone lat rnd 0 0 initialBackoff p1 w1)"

definition with_api_key_slot :: "conc_cache \<Rightarrow> int option \<Rightarrow> release waited \<Rightarrow> release waited" where
  "with_api_key_slot c kid res =
     (case res of
        (Inr r, p, w) \<Rightarrow>
          (case kid of
             None \<Rightarrow> (Inr r, p, w)
           | Some key \<Rightarrow> (case track_api_key_slot_service c key r p w of (r', p1, w1) \<Rightarrow> (Inr r', p1, w1)))
      | _ \<Rightarrow> res)"

text \<open>
  A user's request takes a slot at once or waits for one, counted in the queue of the user while it
  waits. \<open>kid\<close> is the key of the request.
\<close>

definition acquire_user_slot_with_wait ::
  "conc_cache \<Rightarrow> int \<Rightarrow> int \<Rightarrow> duration \<Rightarrow> duration option \<Rightarrow> (nat \<Rightarrow> duration) \<Rightarrow> (nat \<Rightarrow> rat) \<Rightarrow> int option \<Rightarrow>
   conc_process \<Rightarrow> redis_world \<Rightarrow> release waited option" where
  "acquire_user_slot_with_wait c uid limit timeout gone lat rnd kid p w =
     (case acquire_slot_service c UserKind uid limit p w of
        (DbErr, p1, w1) \<Rightarrow> Some (Inl StoreError, p1, w1)
      | (DbOk (Some r), p1, w1) \<Rightarrow> Some (with_api_key_slot c kid (Inr r, p1, w1))
      | (DbOk None, p1, w1) \<Rightarrow>
          let limit_q = max 1 (calculate_max_wait limit - limit) in
          (case increment_wait_service c UserKind uid limit_q w1 of
             (False, w2) \<Rightarrow> Some (Inl WaitQueueFull, p1, w2)
           | (True, w2) \<Rightarrow>
               map_option
                 (\<lambda>res. case with_api_key_slot c kid res of (x, p3, w3) \<Rightarrow> (x, p3, decrement_wait_service c UserKind uid w3))
                 (wait_for_slot c UserKind uid limit timeout gone lat rnd False p1 w2)))"

definition acquire_account_slot_with_wait ::
  "conc_cache \<Rightarrow> int \<Rightarrow> int \<Rightarrow> duration option \<Rightarrow> (nat \<Rightarrow> duration) \<Rightarrow> (nat \<Rightarrow> rat) \<Rightarrow>
   conc_process \<Rightarrow> redis_world \<Rightarrow> release waited option" where
  "acquire_account_slot_with_wait c aid limit gone lat rnd p w =
     (case acquire_slot_service c AccountKind aid limit p w of
        (DbErr, p1, w1) \<Rightarrow> Some (Inl StoreError, p1, w1)
      | (DbOk (Some r), p1, w1) \<Rightarrow> Some (Inr r, p1, w1)
      | (DbOk None, p1, w1) \<Rightarrow> wait_for_slot c AccountKind aid limit maxConcurrencyWait gone lat rnd False p1 w1)"

end
