(* ===== verification/Concurrency_Leases.thy ===== *)
theory Concurrency_Leases
  imports Concurrency_Cache
begin

text \<open>
  What the sorted sets of the concurrency limits mean: a table of leases, each good for the time to
  live of its set. Expired members that are still listed, cleaning, and the time to live of whole
  sets do not show in it. Every script is described by what it does to the table.
\<close>

section \<open>The table of leases\<close>

definition ttl_of :: "conc_cache \<Rightarrow> redis_key \<Rightarrow> int" where
  "ttl_of c k = (case k of
      AccountSlots _ \<Rightarrow> cc_slot_ttl c | UserSlots _ \<Rightarrow> cc_slot_ttl c | KeySlots _ \<Rightarrow> cc_slot_ttl c
    | LiveAccountSlots _ \<Rightarrow> 60 | LiveUserSlots _ \<Rightarrow> 60 | LiveKeySlots _ \<Rightarrow> 60 | IngressLeases _ \<Rightarrow> 60 | _ \<Rightarrow> 0)"

definition is_lease_key :: "redis_key \<Rightarrow> bool" where
  "is_lease_key k = (case k of
      AccountSlots _ \<Rightarrow> True | UserSlots _ \<Rightarrow> True | KeySlots _ \<Rightarrow> True | LiveAccountSlots _ \<Rightarrow> True
    | LiveUserSlots _ \<Rightarrow> True | LiveKeySlots _ \<Rightarrow> True | IngressLeases _ \<Rightarrow> True | _ \<Rightarrow> False)"

definition leases :: "conc_cache \<Rightarrow> redis_key \<Rightarrow> redis \<Rightarrow> string \<rightharpoonup> int" where
  "leases c k r m = (case scores k r m of None \<Rightarrow> None | Some s \<Rightarrow> if redis_time r < s + ttl_of c k then Some s else None)"

definition lease_count :: "conc_cache \<Rightarrow> redis_key \<Rightarrow> redis \<Rightarrow> int" where
  "lease_count c k r = int (card (dom (leases c k r)))"

text \<open>Scores lie in the past, and a set outlives its members.\<close>

definition past :: "redis_key \<Rightarrow> redis \<Rightarrow> bool" where
  "past k r \<longleftrightarrow> (\<forall>(m, s) \<in> set (zs_members (rd_zsets r k)). s \<le> redis_time r)"

definition outlives_z :: "int \<Rightarrow> zset \<Rightarrow> bool" where
  "outlives_z ttl z \<longleftrightarrow> (case zs_expire z of None \<Rightarrow> True | Some e \<Rightarrow> \<forall>(m, s) \<in> set (zs_members z). (s + ttl) * 1000 \<le> e)"

definition outlives :: "conc_cache \<Rightarrow> redis_key \<Rightarrow> redis \<Rightarrow> bool" where
  "outlives c k r \<longleftrightarrow> outlives_z (ttl_of c k) (rd_zsets r k)"

text \<open>Between adding a member to a set and extending the time of the set, the set is one of \<open>K\<close>.\<close>

definition store_ok_but :: "redis_key set \<Rightarrow> conc_cache \<Rightarrow> redis \<Rightarrow> bool" where
  "store_ok_but K c r \<longleftrightarrow>
     redis_ok r \<and> (\<forall>k. is_lease_key k \<longrightarrow> past k r) \<and> (\<forall>k. is_lease_key k \<and> k \<notin> K \<longrightarrow> outlives c k r)"

definition store_ok :: "conc_cache \<Rightarrow> redis \<Rightarrow> bool" where
  "store_ok c r \<longleftrightarrow> store_ok_but {} c r"

definition cache_ok :: "conc_cache \<Rightarrow> bool" where
  "cache_ok c \<longleftrightarrow> 0 < cc_slot_ttl c \<and> 0 < cc_wait_ttl c"

lemma new_cache_ok: "cache_ok (new_concurrency_cache slot_minutes wait_seconds)"
  by (simp add: cache_ok_def new_concurrency_cache_def Let_def defaultSlotTTLMinutes_def)

lemma ttl_pos: "cache_ok c \<Longrightarrow> is_lease_key k \<Longrightarrow> 0 < ttl_of c k"
  by (auto simp: cache_ok_def ttl_of_def is_lease_key_def split: redis_key.splits)

lemma lease_key_simps [simp]:
  "is_lease_key (AccountSlots i)" "is_lease_key (UserSlots i)" "is_lease_key (KeySlots i)" "is_lease_key (LiveAccountSlots i)"
  "is_lease_key (LiveUserSlots i)" "is_lease_key (LiveKeySlots i)" "is_lease_key (IngressLeases i)"
  "\<not> is_lease_key AccountIndex" "\<not> is_lease_key UserIndex"
  by (simp_all add: is_lease_key_def)

lemma ttl_of_simps [simp]:
  "ttl_of c (AccountSlots i) = cc_slot_ttl c" "ttl_of c (UserSlots i) = cc_slot_ttl c" "ttl_of c (KeySlots i) = cc_slot_ttl c"
  "ttl_of c (LiveAccountSlots i) = 60" "ttl_of c (LiveUserSlots i) = 60" "ttl_of c (LiveKeySlots i) = 60" "ttl_of c (IngressLeases i) = 60"
  by (simp_all add: ttl_of_def)

lemma store_ok_empty [simp]: "store_ok c (empty_redis now)"
  by (simp add: store_ok_def store_ok_but_def past_def outlives_def outlives_z_def) (simp add: empty_redis_def rd_zsets_def)

lemma finite_leases [simp]: "finite (dom (leases c k r))"
  by (rule finite_subset [OF _ finite_scores [of k r]]) (auto simp: leases_def split: option.splits)

section \<open>Commands on the table\<close>

named_theorems lease_simps \<open>what a command does to the table of leases\<close>

lemma leases_cong: "scores k r' = scores k r \<Longrightarrow> redis_time r' = redis_time r \<Longrightarrow> leases c k r' = leases c k r"
  by (rule ext) (simp add: leases_def split: option.split)

lemma leases_zadd [lease_simps]:
  "cache_ok c \<Longrightarrow> is_lease_key k \<Longrightarrow>
   leases c k' (zadd k (redis_time r) m r) = (if k' = k then (leases c k r)(m \<mapsto> redis_time r) else leases c k' r)"
  using ttl_pos [of c k] by (auto simp: leases_def redis_simps fun_eq_iff split: option.split)

lemma leases_zrem [lease_simps]:
  "leases c k' (zrem k m r) = (if k' = k then (leases c k r)(m := None) else leases c k' r)"
  by (auto simp: leases_def redis_simps fun_eq_iff split: option.split)

lemma leases_zrem_upto [lease_simps]:
  "redis_ok r \<Longrightarrow> bound \<le> redis_time r - ttl_of c k \<Longrightarrow> leases c k' (zrem_upto k bound r) = leases c k' r"
  by (auto simp: leases_def redis_simps fun_eq_iff split: option.splits)

lemma leases_zexpire [lease_simps]: "0 < ttl \<Longrightarrow> leases c k' (zexpire k ttl r) = leases c k' r"
  by (rule leases_cong) (simp_all add: redis_simps)

lemma leases_zdel [lease_simps]: "leases c k' (zdel k r) = (if k' = k then Map.empty else leases c k' r)"
  by (auto simp: leases_def redis_simps fun_eq_iff split: option.split)

text \<open>What is left after cleaning is the table.\<close>

lemma scores_cleaned:
  "redis_ok r \<Longrightarrow> scores k (zrem_upto k (redis_time r - ttl_of c k) r) = leases c k r"
  by (auto simp: redis_simps leases_def fun_eq_iff split: option.splits)

lemma zcard_cleaned:
  "redis_ok r \<Longrightarrow> zcard k (zrem_upto k (redis_time r - ttl_of c k) r) = lease_count c k r"
  by (simp add: zcard_scores redis_simps(14) scores_cleaned lease_count_def command_ok)

lemma scores_other: "redis_ok r \<Longrightarrow> k' \<noteq> k \<Longrightarrow> scores k' (zrem_upto k bound r) = scores k' r"
  by (simp add: redis_simps)

section \<open>The invariant\<close>

lemma zset_at_members: "set (zs_members (zset_at k r)) \<subseteq> set (zs_members (rd_zsets r k))"
  by (simp add: zset_at_def)

lemma zset_at_expire: "zset_at k r = empty_zset \<or> zset_at k r = rd_zsets r k"
  by (simp add: zset_at_def)

lemma update_members: "set (AList.update m s xs) \<subseteq> insert (m, s) (set xs)"
  by (induction xs) auto

lemma delete_members: "set (AList.delete m xs) \<subseteq> set xs"
  by (induction xs) auto

lemma past_put:
  "past k' r \<Longrightarrow> \<forall>(m, s) \<in> set (zs_members z). s \<le> redis_time r \<Longrightarrow> past k' (put_zset k z r)"
  by (auto simp: past_def rd_zsets_put redis_time_def)

lemma past_command:
  assumes "past k r" "past k' r"
  shows "s \<le> redis_time r \<Longrightarrow> past k' (zadd k s m r)" "past k' (zrem k m r)" "past k' (zrem_upto k bound r)"
    "past k' (zexpire k ttl r)" "past k' (zdel k r)"
proof -
  have at: "\<forall>(m, s) \<in> set (zs_members (zset_at k r)). s \<le> redis_time r"
    using assms(1) zset_at_members [of k r] by (auto simp: past_def)
  show "past k' (zadd k s m r)" if "s \<le> redis_time r"
    unfolding zadd_def Let_def using at that update_members [of m s "zs_members (zset_at k r)"]
    by (intro past_put assms(2)) auto
  show "past k' (zrem k m r)"
    unfolding zrem_def Let_def using at delete_members [of m "zs_members (zset_at k r)"] by (intro past_put assms(2)) auto
  show "past k' (zrem_upto k bound r)" unfolding zrem_upto_def Let_def using at by (intro past_put assms(2)) auto
  show "past k' (zexpire k ttl r)" unfolding zexpire_def Let_def using at by (intro past_put assms(2)) auto
  show "past k' (zdel k r)" unfolding zdel_def by (intro past_put assms(2)) simp
qed

lemma outlives_z_empty [simp]: "outlives_z ttl empty_zset"
  by (simp add: outlives_z_def)

lemma outlives_put:
  "(k' \<noteq> k \<Longrightarrow> outlives c k' r) \<Longrightarrow> (k' = k \<Longrightarrow> outlives_z (ttl_of c k) z) \<Longrightarrow> outlives c k' (put_zset k z r)"
  by (cases "k' = k") (simp_all add: outlives_def rd_zsets_put outlives_z_empty)

lemma outlives_at: "outlives c k r \<Longrightarrow> outlives_z (ttl_of c k) (zset_at k r)"
  using zset_at_expire [of k r] by (auto simp: outlives_def)

lemma outlives_z_subset:
  "outlives_z ttl z \<Longrightarrow> set (zs_members z') \<subseteq> set (zs_members z) \<Longrightarrow> zs_expire z' = zs_expire z \<Longrightarrow> outlives_z ttl z'"
  by (auto simp: outlives_z_def split: option.splits)

lemma outlives_command:
  assumes "outlives c k' r"
  shows "outlives c k' (zrem k m r)" "outlives c k' (zrem_upto k bound r)" "outlives c k' (zdel k r)"
    "k' \<noteq> k \<Longrightarrow> outlives c k' (zadd k s m r)" "k' \<noteq> k \<Longrightarrow> outlives c k' (zexpire k ttl r)"
proof -
  show "outlives c k' (zrem k m r)"
    unfolding zrem_def Let_def using assms delete_members [of m "zs_members (zset_at k r)"]
    by (intro outlives_put) (auto intro!: outlives_z_subset [OF outlives_at])
  show "outlives c k' (zrem_upto k bound r)"
    unfolding zrem_upto_def Let_def using assms by (intro outlives_put) (auto intro!: outlives_z_subset [OF outlives_at])
  show "outlives c k' (zdel k r)" unfolding zdel_def using assms by (intro outlives_put) simp_all
  show "k' \<noteq> k \<Longrightarrow> outlives c k' (zadd k s m r)" "k' \<noteq> k \<Longrightarrow> outlives c k' (zexpire k ttl r)"
    unfolding zadd_def zexpire_def Let_def using assms by (auto intro: outlives_put)
qed

lemma outlives_zexpire:
  assumes "past k r"
  shows "outlives c k (zexpire k (ttl_of c k) r)"
proof -
  have "(s + ttl_of c k) * 1000 \<le> rd_now r + ttl_of c k * 1000" if "(m, s) \<in> set (zs_members (zset_at k r))" for m s
  proof -
    have "s \<le> rd_now r div 1000" using assms that zset_at_members [of k r] by (auto simp: past_def redis_time_def)
    then show ?thesis by presburger
  qed
  then show ?thesis unfolding zexpire_def Let_def by (intro outlives_put) (auto simp: outlives_z_def)
qed

lemma store_ok_but_zadd:
  "store_ok_but K c r \<Longrightarrow> is_lease_key k \<Longrightarrow> s \<le> redis_time r \<Longrightarrow> store_ok_but (insert k K) c (zadd k s m r)"
  by (auto simp: store_ok_but_def command_ok intro: past_command outlives_command)

lemma store_ok_but_zexpire:
  "store_ok_but K c r \<Longrightarrow> is_lease_key k \<Longrightarrow> store_ok_but (K - {k}) c (zexpire k (ttl_of c k) r)"
  unfolding store_ok_but_def
proof (intro conjI allI impI; (elim conjE)?)
  fix k' assume "\<forall>k. is_lease_key k \<and> k \<notin> K \<longrightarrow> outlives c k r" "\<forall>k. is_lease_key k \<longrightarrow> past k r" "is_lease_key k" "is_lease_key k'" "k' \<notin> K - {k}"
  then show "outlives c k' (zexpire k (ttl_of c k) r)"
    by (cases "k' = k") (auto intro: outlives_zexpire outlives_command)
qed (auto simp: command_ok intro: past_command)

lemma store_ok_redis: "store_ok c r \<Longrightarrow> redis_ok r"
  by (simp add: store_ok_def store_ok_but_def)

lemma past_index: "is_lease_key k' \<Longrightarrow> \<not> is_lease_key k \<Longrightarrow> past k' (put_zset k z r) = past k' r"
  by (auto simp: past_def rd_zsets_put redis_time_def)

lemma outlives_index: "is_lease_key k' \<Longrightarrow> \<not> is_lease_key k \<Longrightarrow> outlives c k' (put_zset k z r) = outlives c k' r"
  by (auto simp: outlives_def rd_zsets_put)

named_theorems store_rules \<open>what keeps the invariant of the store\<close>

lemma store_ok_zrem [store_rules]: "store_ok c r \<Longrightarrow> store_ok c (zrem k m r)"
  and store_ok_zrem_upto [store_rules]: "store_ok c r \<Longrightarrow> store_ok c (zrem_upto k bound r)"
  and store_ok_zdel [store_rules]: "store_ok c r \<Longrightarrow> store_ok c (zdel k r)"
  unfolding store_ok_def store_ok_but_def
  by (cases "is_lease_key k"; auto simp: command_ok intro: past_command outlives_command;
      simp add: command_defs Let_def past_index outlives_index)+

lemma store_ok_grant [store_rules]:
  "store_ok c r \<Longrightarrow> is_lease_key k \<Longrightarrow> store_ok c (zexpire k (ttl_of c k) (zadd k (redis_time r) m r))"
  using store_ok_but_zexpire [OF store_ok_but_zadd [of "{}" c r k "redis_time r" m], of k] by (simp add: store_ok_def)

lemma store_ok_zexpire [store_rules]: "store_ok c r \<Longrightarrow> is_lease_key k \<Longrightarrow> store_ok c (zexpire k (ttl_of c k) r)"
  using store_ok_but_zexpire [of "{}" c r k] by (simp add: store_ok_def)

lemma store_ok_index [store_rules]: "store_ok c r \<Longrightarrow> \<not> is_lease_key k \<Longrightarrow> store_ok c (zadd k s m r)"
  unfolding store_ok_def store_ok_but_def
  by (auto simp: command_ok) (simp_all add: zadd_def Let_def past_index outlives_index)

lemma store_ok_counts [store_rules]:
  "store_ok c r \<Longrightarrow> store_ok c (r\<lparr>rd_counters := f\<rparr>)" "store_ok c r \<Longrightarrow> store_ok c (r\<lparr>rd_swept := b\<rparr>)"
  by (simp_all add: store_ok_def store_ok_but_def redis_ok_def past_def outlives_def redis_time_def)

lemma store_ok_tick [store_rules]: "store_ok c r \<Longrightarrow> store_ok c (tick ms r)"
proof -
  have "rd_now r div 1000 \<le> (rd_now r + max 0 ms) div 1000" by (rule zdiv_mono1) auto
  then show "store_ok c r \<Longrightarrow> store_ok c (tick ms r)"
    by (fastforce simp: store_ok_def store_ok_but_def redis_ok_def past_def outlives_def redis_time_def tick_def)
qed

section \<open>The passing of time\<close>

lemma tick_time: "redis_time r \<le> redis_time (tick ms r)"
  unfolding redis_time_def tick_def by (simp add: zdiv_mono1)

text \<open>A set whose time has come holds no lease any more.\<close>

lemma leases_tick [lease_simps]:
  assumes "store_ok c r" "is_lease_key k"
  shows "leases c k (tick ms r) m =
    (case leases c k r m of None \<Rightarrow> None | Some s \<Rightarrow> if redis_time (tick ms r) < s + ttl_of c k then Some s else None)"
proof -
  let ?z = "rd_zsets r k"
  have same: "rd_zsets (tick ms r) k = ?z" by (simp add: tick_def)
  have late: "rd_now r \<le> rd_now (tick ms r)" by (simp add: tick_def)
  have dead: "s + ttl_of c k \<le> redis_time r'" if "key_gone r' (zs_expire ?z)" "map_of (zs_members ?z) m = Some s" for s r'
  proof -
    from that(1) obtain e where e: "zs_expire ?z = Some e" "e \<le> rd_now r'" by (auto simp: key_gone_def split: option.splits)
    from that(2) have "(m, s) \<in> set (zs_members ?z)" by (rule map_of_SomeD)
    moreover from assms have "outlives c k r" by (simp add: store_ok_def store_ok_but_def)
    ultimately have "(s + ttl_of c k) * 1000 \<le> e" by (auto simp only: outlives_def outlives_z_def e(1) option.case)
    with e(2) have late: "(s + ttl_of c k) * 1000 \<le> rd_now r'" by linarith
    from zdiv_mono1 [OF late, of 1000] show ?thesis by (simp add: redis_time_def)
  qed
  show ?thesis
  proof (cases "map_of (zs_members ?z) m")
    case None
    then show ?thesis by (simp add: leases_def scores_def zset_at_def same)
  next
    case (Some s)
    with dead [of "tick ms r" s] dead [of r s] tick_time [of r ms] show ?thesis
      by (auto simp: leases_def scores_def zset_at_def same)
  qed
qed

lemma leases_other [lease_simps]:
  "leases c k (r\<lparr>rd_counters := f\<rparr>) = leases c k r" "leases c k (r\<lparr>rd_swept := b\<rparr>) = leases c k r"
  by (rule leases_cong; simp add: scores_def zset_at_def key_gone_def redis_time_def cong: option.case_cong)+

section \<open>Scripts on the table\<close>

text \<open>A set that was cleaned shows its leases.\<close>

lemma cleaned:
  fixes k k' :: redis_key
  assumes "store_ok c r"
  defines "r1 \<equiv> zrem_upto k (redis_time r - ttl_of c k) r"
  shows "store_ok c r1" "redis_time r1 = redis_time r" "leases c k' r1 = leases c k' r" "scores k r1 = leases c k r"
    "zcard k r1 = lease_count c k r" "k' \<noteq> k \<Longrightarrow> scores k' r1 = scores k' r" "k' \<noteq> k \<Longrightarrow> zcard k' r1 = zcard k' r"
    "lease_count c k' r1 = lease_count c k' r"
proof -
  note ok = store_ok_redis [OF assms(1)]
  show "store_ok c r1" "redis_time r1 = redis_time r" using assms(1) by (simp_all add: r1_def redis_simps store_rules)
  show l: "leases c k' r1 = leases c k' r" using ok by (simp add: r1_def lease_simps)
  show "scores k r1 = leases c k r" "zcard k r1 = lease_count c k r" using ok by (simp_all add: r1_def scores_cleaned zcard_cleaned)
  show "scores k' r1 = scores k' r" "zcard k' r1 = zcard k' r" if "k' \<noteq> k"
    using ok that by (simp_all add: r1_def scores_other zcard_scores command_ok)
  show "lease_count c k' r1 = lease_count c k' r" by (simp add: lease_count_def l)
qed

text \<open>A lease that is granted is stored with the present time.\<close>

lemma granted:
  fixes m :: string
  assumes "cache_ok c" "store_ok c r" "is_lease_key k"
  defines "r1 \<equiv> zexpire k (ttl_of c k) (zadd k (redis_time r) m r)"
  shows "store_ok c r1" "redis_time r1 = redis_time r"
    "leases c k' r1 = (if k' = k then (leases c k r)(m \<mapsto> redis_time r) else leases c k' r)"
  using assms(1-3) ttl_pos [OF assms(1,3)] by (auto simp: r1_def redis_simps lease_simps store_rules)

definition acquire_room :: "conc_cache \<Rightarrow> redis_key \<Rightarrow> redis_key \<Rightarrow> int \<Rightarrow> string \<Rightarrow> redis \<Rightarrow> bool" where
  "acquire_room c k live limit rid r \<longleftrightarrow> leases c k r rid \<noteq> None \<or> lease_count c k r + lease_count c live r < limit"

lemma acquire_script_leases:
  assumes c: "cache_ok c" and r: "store_ok c r" and k: "is_lease_key k" "k \<noteq> live" "ttl_of c live = 60"
    and run: "acquire_script k live limit (ttl_of c k) rid r = ((g, now), r')"
  shows "store_ok c r'" "redis_time r' = redis_time r" "now = redis_time r" "g = acquire_room c k live limit rid r"
    "leases c k' r' = (if g \<and> k' = k then (leases c k r)(rid \<mapsto> redis_time r) else leases c k' r)"
proof -
  define r1 where "r1 = zrem_upto k (redis_time r - ttl_of c k) r"
  define r2 where "r2 = zrem_upto live (redis_time r - 60) r1"
  note one = cleaned [OF r, where k = k, folded r1_def]
  note two = cleaned [OF one(1), where k = live, folded one(2)]
  have r2: "store_ok c r2" "redis_time r2 = redis_time r" "leases c k' r2 = leases c k' r" "scores k r2 = leases c k r"
    "zcard k r2 = lease_count c k r" "zcard live r2 = lease_count c live r" for k'
    using one two k by (simp_all add: r2_def)
  note three = granted [OF c r2(1) k(1), where m = rid, unfolded r2(2)]
  show "store_ok c r'" "redis_time r' = redis_time r" "now = redis_time r" "g = acquire_room c k live limit rid r"
    "leases c k' r' = (if g \<and> k' = k then (leases c k r)(rid \<mapsto> redis_time r) else leases c k' r)"
    using run r2 three
    by (auto simp: acquire_script_def Let_def acquire_room_def zscore_scores simp flip: r1_def r2_def split: if_splits)
qed

lemma ingress_script_leases:
  assumes c: "cache_ok c" and r: "store_ok c r" and k: "is_lease_key k"
    and run: "acquire_ingress_lease_script k limit (ttl_of c k) lease r = (g, r')"
  shows "store_ok c r'" "redis_time r' = redis_time r" "g \<longleftrightarrow> leases c k r lease \<noteq> None \<or> lease_count c k r < limit"
    "leases c k' r' = (if g \<and> k' = k then (leases c k r)(lease \<mapsto> redis_time r) else leases c k' r)"
proof -
  define r1 where "r1 = zrem_upto k (redis_time r - ttl_of c k) r"
  note one = cleaned [OF r, where k = k, folded r1_def]
  note two = granted [OF c one(1) k, where m = lease, unfolded one(2)]
  show "store_ok c r'" "redis_time r' = redis_time r" "g \<longleftrightarrow> leases c k r lease \<noteq> None \<or> lease_count c k r < limit"
    "leases c k' r' = (if g \<and> k' = k then (leases c k r)(lease \<mapsto> redis_time r) else leases c k' r)"
    using run one two
    by (auto simp: acquire_ingress_lease_script_def Let_def zscore_scores simp flip: r1_def split: if_splits)
qed

lemma refresh_ingress_leases:
  assumes c: "cache_ok c" and r: "store_ok c r" and k: "is_lease_key k"
    and run: "refresh_ingress_lease_script k (ttl_of c k) lease r = (g, r')"
  shows "store_ok c r'" "redis_time r' = redis_time r" "g \<longleftrightarrow> leases c k r lease \<noteq> None"
    "leases c k' r' = (if g \<and> k' = k then (leases c k r)(lease \<mapsto> redis_time r) else leases c k' r)"
proof -
  define r1 where "r1 = zrem_upto k (redis_time r - ttl_of c k) r"
  note one = cleaned [OF r, where k = k, folded r1_def]
  note two = granted [OF c one(1) k, where m = lease, unfolded one(2)]
  show "store_ok c r'" "redis_time r' = redis_time r" "g \<longleftrightarrow> leases c k r lease \<noteq> None"
    "leases c k' r' = (if g \<and> k' = k then (leases c k r)(lease \<mapsto> redis_time r) else leases c k' r)"
    using run one two
    by (auto simp: refresh_ingress_lease_script_def Let_def zscore_scores simp flip: r1_def split: if_splits)
qed

lemma track_script_leases:
  assumes "cache_ok c" "store_ok c r" "is_lease_key k"
  shows "store_ok c (snd (track_slot_script k (ttl_of c k) rid r))"
    "redis_time (snd (track_slot_script k (ttl_of c k) rid r)) = redis_time r"
    "leases c k' (snd (track_slot_script k (ttl_of c k) rid r)) =
       (if k' = k then (leases c k r)(rid \<mapsto> redis_time r) else leases c k' r)"
  using granted [OF assms(1) cleaned(1) [OF assms(2), where k = k] assms(3), where m = rid] cleaned [OF assms(2), where k = k]
  by (auto simp: track_slot_script_def Let_def)

lemma count_script_leases:
  assumes r: "store_ok c r" and k: "k \<noteq> live" "ttl_of c live = 60"
  shows "store_ok c (snd (get_count_script k live (ttl_of c k) r))"
    "redis_time (snd (get_count_script k live (ttl_of c k) r)) = redis_time r"
    "fst (get_count_script k live (ttl_of c k) r) = lease_count c k r + lease_count c live r"
    "leases c k' (snd (get_count_script k live (ttl_of c k) r)) = leases c k' r"
proof -
  define r1 where "r1 = zrem_upto k (redis_time r - ttl_of c k) r"
  note one = cleaned [OF r, where k = k, folded r1_def]
  note two = cleaned [OF one(1), where k = live, folded one(2)]
  show "store_ok c (snd (get_count_script k live (ttl_of c k) r))"
    "redis_time (snd (get_count_script k live (ttl_of c k) r)) = redis_time r"
    "fst (get_count_script k live (ttl_of c k) r) = lease_count c k r + lease_count c live r"
    "leases c k' (snd (get_count_script k live (ttl_of c k) r)) = leases c k' r"
    using one two k by (auto simp: get_count_script_def Let_def simp flip: r1_def)
qed

lemma cleanup_script_leases:
  assumes "cache_ok c" "store_ok c r" "is_lease_key k"
  shows "store_ok c (snd (cleanup_expired_slots_script k (ttl_of c k) r))"
    "redis_time (snd (cleanup_expired_slots_script k (ttl_of c k) r)) = redis_time r"
    "leases c k' (snd (cleanup_expired_slots_script k (ttl_of c k) r)) = leases c k' r"
proof -
  define r1 where "r1 = zrem_upto k (redis_time r - ttl_of c k) r"
  note one = cleaned [OF assms(2), where k = k, folded r1_def]
  have "zcard k r1 = 0 \<Longrightarrow> leases c k r = Map.empty" by (simp add: one(5) lease_count_def)
  then show "store_ok c (snd (cleanup_expired_slots_script k (ttl_of c k) r))"
    "redis_time (snd (cleanup_expired_slots_script k (ttl_of c k) r)) = redis_time r"
    "leases c k' (snd (cleanup_expired_slots_script k (ttl_of c k) r)) = leases c k' r"
    using one assms ttl_pos [OF assms(1,3)]
    by (auto simp: cleanup_expired_slots_script_def Let_def lease_simps redis_simps store_rules simp flip: r1_def)
qed

end
