(* ===== verification/Concurrency_Live.thy ===== *)
theory Concurrency_Live
  imports Concurrency_Leases
begin

text \<open>
  The scripts over several sets on the table of leases: taking and refreshing a live lease, which is
  kept for the account, the user and the key at once, and what only takes leases away.
\<close>

section \<open>Live leases\<close>

lemma lease_count_le_zcard: "redis_ok r \<Longrightarrow> lease_count c k r \<le> zcard k r"
proof -
  assume "redis_ok r"
  moreover have "dom (leases c k r) \<subseteq> dom (scores k r)" by (auto simp: leases_def split: option.splits)
  ultimately show ?thesis by (simp add: lease_count_def zcard_scores card_mono)
qed

lemma grant_many:
  assumes c: "cache_ok c"
  shows "store_ok c r \<Longrightarrow> \<forall>k \<in> set ks. is_lease_key k \<and> ttl_of c k = ttl \<Longrightarrow> now = redis_time r \<Longrightarrow>
    r' = fold (\<lambda>k s. zexpire k ttl (zadd k now lease s)) ks r \<Longrightarrow>
    store_ok c r' \<and> redis_time r' = now \<and>
    (\<forall>k. leases c k r' = (if k \<in> set ks then (leases c k r)(lease \<mapsto> now) else leases c k r))"
proof (induction ks arbitrary: r)
  case (Cons k ks)
  have k: "is_lease_key k" "ttl_of c k = ttl" using Cons.prems(2) by simp_all
  note one = granted [OF c Cons.prems(1) k(1), where m = lease]
  from Cons.IH [OF one(1), unfolded one(2)] Cons.prems k one(3)
  show ?case by (auto simp: fun_upd_idem)
qed simp

text \<open>The three sets of a live lease get the member first and their time to live then.\<close>

lemma grant_three:
  fixes m :: string
  assumes c: "cache_ok c" and r: "store_ok c r" and k: "is_lease_key a" "is_lease_key u" "is_lease_key l"
    and ttl: "ttl_of c a = ttl" "ttl_of c u = ttl" "ttl_of c l = ttl" and now: "now = redis_time r"
  defines "r1 \<equiv> zexpire l ttl (zexpire u ttl (zexpire a ttl (zadd l now m (zadd u now m (zadd a now m r)))))"
  shows "store_ok c r1" "redis_time r1 = redis_time r"
    "leases c k' r1 = (if k' \<in> {a, u, l} then (leases c k' r)(m \<mapsto> now) else leases c k' r)"
proof -
  have "store_ok_but {} c r" using r by (simp add: store_ok_def)
  then have "store_ok_but {l, u, a} c (zadd l now m (zadd u now m (zadd a now m r)))"
    using k now by (intro store_ok_but_zadd) (auto simp: redis_simps)
  then have "store_ok_but ({l, u, a} - {a} - {u} - {l}) c r1"
    unfolding r1_def using k ttl by (metis store_ok_but_zexpire)
  moreover have "{l, u, a} - {a} - {u} - {l} = {}" by auto
  ultimately show "store_ok c r1" by (simp add: store_ok_def)
  show "redis_time r1 = redis_time r" by (simp add: r1_def redis_simps)
  have ttl_pos: "0 < ttl" using ttl_pos [OF c k(1)] ttl(1) by simp
  have upd: "leases c q (zadd k now m s) = (if q = k then (leases c k s)(m \<mapsto> now) else leases c q s)"
    if "redis_time s = now" "is_lease_key k" for q k s
    using leases_zadd [OF c that(2), of q s m] that(1) by simp
  show "leases c k' r1 = (if k' \<in> {a, u, l} then (leases c k' r)(m \<mapsto> now) else leases c k' r)"
    using k ttl_pos by (simp add: r1_def leases_zexpire upd redis_simps now [symmetric] fun_upd_idem)
qed

lemma live_script_leases:
  assumes c: "cache_ok c" and r: "store_ok c r"
    and run: "acquire_live_lease_script (AccountSlots a) (LiveAccountSlots a) (UserSlots u) (LiveUserSlots u) (LiveKeySlots kid)
      amax umax 60 lease rep r = (g, r')"
  shows "store_ok c r'" "redis_time r' = redis_time r"
    "leases c k r' = (if g \<and> leases c (LiveAccountSlots a) r lease = None \<and> k \<in> {LiveAccountSlots a, LiveUserSlots u, LiveKeySlots kid}
       then (leases c k r)(lease \<mapsto> redis_time r) else leases c k r)"
    "g \<Longrightarrow> leases c (LiveAccountSlots a) r lease = None \<Longrightarrow> 0 < amax \<Longrightarrow>
       lease_count c (AccountSlots a) r + lease_count c (LiveAccountSlots a) r < amax + (if rep then 1 else 0)"
    "g \<Longrightarrow> leases c (LiveAccountSlots a) r lease = None \<Longrightarrow> 0 < umax \<Longrightarrow>
       lease_count c (UserSlots u) r + lease_count c (LiveUserSlots u) r < umax + (if rep then 1 else 0)"
    "\<not> g \<Longrightarrow> leases c (LiveAccountSlots a) r lease = None"
proof -
  define r1 where "r1 = zrem_upto (LiveAccountSlots a) (redis_time r - 60) r"
  define r2 where "r2 = zrem_upto (LiveUserSlots u) (redis_time r - 60) r1"
  define r3 where "r3 = zrem_upto (LiveKeySlots kid) (redis_time r - 60) r2"
  note one = cleaned [OF r, where k = "LiveAccountSlots a", simplified, folded r1_def]
  note two = cleaned [OF one(1), where k = "LiveUserSlots u", unfolded one(2), simplified, folded r2_def]
  note three = cleaned [OF two(1), where k = "LiveKeySlots kid", unfolded two(2), simplified, folded r3_def]
  have r3: "store_ok c r3" "redis_time r3 = redis_time r" "leases c k r3 = leases c k r"
    "scores (LiveAccountSlots a) r3 = leases c (LiveAccountSlots a) r"
    "zcard (LiveAccountSlots a) r3 = lease_count c (LiveAccountSlots a) r" "zcard (LiveUserSlots u) r3 = lease_count c (LiveUserSlots u) r"
    "lease_count c k r3 = lease_count c k r" for k
    using one two three by simp_all
  have regular: "lease_count c (AccountSlots a) r \<le> zcard (AccountSlots a) r3" "lease_count c (UserSlots u) r \<le> zcard (UserSlots u) r3"
    using lease_count_le_zcard [OF store_ok_redis [OF r3(1)], of c] r3(7) by metis+
  note new = grant_three [OF c r3(1), of "LiveAccountSlots a" "LiveUserSlots u" "LiveKeySlots kid" 60, OF _ _ _ _ _ _ r3(2) [symmetric], simplified]
  note run' = run [unfolded acquire_live_lease_script_def Let_def, folded r1_def, folded r2_def, folded r3_def]
  show "store_ok c r'" "redis_time r' = redis_time r" using run' r3(1,2) new(1,2) by (auto split: if_splits)
  show "leases c k r' = (if g \<and> leases c (LiveAccountSlots a) r lease = None \<and> k \<in> {LiveAccountSlots a, LiveUserSlots u, LiveKeySlots kid}
       then (leases c k r)(lease \<mapsto> redis_time r) else leases c k r)"
    using run' r3(3,4) new(3) by (auto simp: zscore_scores split: if_splits)
  show "\<not> g \<Longrightarrow> leases c (LiveAccountSlots a) r lease = None" using run' r3(4) by (auto simp: zscore_scores split: if_splits)
  show "lease_count c (AccountSlots a) r + lease_count c (LiveAccountSlots a) r < amax + (if rep then 1 else 0)"
    if "g" "leases c (LiveAccountSlots a) r lease = None" "0 < amax"
    using run' that r3(4,5) regular by (auto simp: zscore_scores split: if_splits)
  show "lease_count c (UserSlots u) r + lease_count c (LiveUserSlots u) r < umax + (if rep then 1 else 0)"
    if "g" "leases c (LiveAccountSlots a) r lease = None" "0 < umax"
    using run' that r3(4,6) regular by (auto simp: zscore_scores split: if_splits)
qed

lemma lease_in_all_leases:
  assumes "lease_in_all ks (redis_time r - 60) lease r = (g, r')" "store_ok c r" "\<forall>k \<in> set ks. ttl_of c k = 60"
  shows "store_ok c r' \<and> redis_time r' = redis_time r \<and> (\<forall>k. leases c k r' = leases c k r) \<and>
    (g \<longleftrightarrow> (\<forall>k \<in> set ks. leases c k r lease \<noteq> None))"
  using assms
proof (induction ks arbitrary: r)
  case (Cons k ks)
  note one = cleaned [OF Cons.prems(2), where k = k]
  have k: "ttl_of c k = 60" using Cons.prems(3) by simp
  note IH = Cons.IH [of "zrem_upto k (redis_time r - 60) r"]
  show ?case
    using IH Cons.prems one k by (auto simp: Let_def zscore_scores split: if_splits)
qed simp

lemma refresh_live_leases:
  assumes c: "cache_ok c" and r: "store_ok c r"
    and run: "refresh_live_lease_script (live_keys a u kid) 60 lease r = (g, r')"
  shows "store_ok c r'" "redis_time r' = redis_time r" "g \<longleftrightarrow> (\<forall>k \<in> set (live_keys a u kid). leases c k r lease \<noteq> None)"
    "leases c k r' = (if g \<and> k \<in> set (live_keys a u kid) then (leases c k r)(lease \<mapsto> redis_time r) else leases c k r)"
proof -
  have ks: "\<forall>k \<in> set (live_keys a u kid). is_lease_key k \<and> ttl_of c k = 60" by (simp add: live_keys_def)
  obtain g1 r1 where one: "lease_in_all (live_keys a u kid) (redis_time r - 60) lease r = (g1, r1)" by fastforce
  note l1 = lease_in_all_leases [OF one r] and many = grant_many [OF c _ ks _ refl, where now = "redis_time r" and r = r1 and lease = lease]
  show "store_ok c r'" "redis_time r' = redis_time r" "g \<longleftrightarrow> (\<forall>k \<in> set (live_keys a u kid). leases c k r lease \<noteq> None)"
    "leases c k r' = (if g \<and> k \<in> set (live_keys a u kid) then (leases c k r)(lease \<mapsto> redis_time r) else leases c k r)"
    using run one l1 many ks by (auto simp: refresh_live_lease_script_def Let_def split: bool.splits)
qed

section \<open>Removing\<close>

text \<open>What only takes leases away.\<close>

definition shrinks :: "conc_cache \<Rightarrow> redis \<Rightarrow> redis \<Rightarrow> bool" where
  "shrinks c r r' \<longleftrightarrow> (store_ok c r \<longrightarrow> store_ok c r' \<and> redis_time r' = redis_time r \<and> (\<forall>k. is_lease_key k \<longrightarrow> leases c k r' \<subseteq>\<^sub>m leases c k r))"

lemma shrinks_refl [simp]: "shrinks c r r"
  by (simp add: shrinks_def)

lemma shrinks_trans: "shrinks c r s \<Longrightarrow> shrinks c s t \<Longrightarrow> shrinks c r t"
  by (auto simp: shrinks_def intro: map_le_trans)

lemma shrinks_zrem: "shrinks c r (zrem k m r)"
  by (auto simp: shrinks_def store_rules lease_simps redis_simps map_le_def)

lemma shrinks_fold_zrem: "shrinks c r (fold (zrem k) ms r)"
  by (induction ms arbitrary: r) (auto intro: shrinks_trans shrinks_zrem)

lemma shrinks_startup:
  assumes "cache_ok c" "is_lease_key k"
  shows "shrinks c r (snd (startup_cleanup_slot_script k prefix (ttl_of c k) r))"
proof -
  have "shrinks c s (zexpire k (ttl_of c k) s)" "shrinks c s (zdel k s)" for s
    using assms ttl_pos [OF assms] by (auto simp: shrinks_def store_rules lease_simps redis_simps map_le_def)
  then show ?thesis
    by (auto simp: startup_cleanup_slot_script_def Let_def intro: shrinks_trans [OF shrinks_fold_zrem])
qed

end
