(* ===== verification/Concurrency_Spec.thy ===== *)
theory Concurrency_Spec
  imports Concurrency_Service Concurrency_Live
begin

text \<open>
  What the concurrency limits promise: a table of leases in which nothing has to be cleaned. A lease
  is there from the moment it is granted until it is given back or its time to live is over; a slot
  is granted to a request that has one and while there is room. The scripts, run in any order, give
  the answers of this table. Only the refusal of a live lease is left open: its script counts
  regular slots that are over as long as no other script has cleaned them away.
\<close>

section \<open>Statements\<close>

datatype lease_event =
    Pass int
  | Acquire slot_kind int int string
  | GiveBack slot_kind int string
  | CountSlots slot_kind int
  | CleanSlots int
  | Track int string
  | Untrack int string
  | TakeIngress int int string
  | KeepIngress int string
  | DropIngress int string
  | TakeLive int int int int int string bool
  | KeepLive int int int string
  | DropLive int int int string

datatype event_answer = Nothing | Granted bool | Counted int

definition exec :: "conc_cache \<Rightarrow> lease_event \<Rightarrow> redis \<Rightarrow> event_answer \<times> redis" where
  "exec c ev r =
     (let yes = apfst Granted; slot = (\<lambda>k. si_slot (index_of k)); live = (\<lambda>k. si_live (index_of k)); ttl = cc_slot_ttl c in
      case ev of
        Pass ms \<Rightarrow> (Nothing, tick ms r)
      | Acquire k i limit rid \<Rightarrow> apfst (Granted \<circ> fst) (acquire_script (slot k i) (live k i) limit ttl rid r)
      | GiveBack k i rid \<Rightarrow> (Nothing, zrem (slot k i) rid r)
      | CountSlots k i \<Rightarrow> apfst Counted (get_count_script (slot k i) (live k i) ttl r)
      | CleanSlots i \<Rightarrow> (Nothing, snd (cleanup_expired_slots_script (AccountSlots i) ttl r))
      | Track i rid \<Rightarrow> (Nothing, snd (track_slot_script (KeySlots i) ttl rid r))
      | Untrack i rid \<Rightarrow> (Nothing, zrem (KeySlots i) rid r)
      | TakeIngress i limit lease \<Rightarrow> yes (acquire_ingress_lease_script (IngressLeases i) limit openAIWSIngressLeaseTTLSeconds lease r)
      | KeepIngress i lease \<Rightarrow> yes (refresh_ingress_lease_script (IngressLeases i) openAIWSIngressLeaseTTLSeconds lease r)
      | DropIngress i lease \<Rightarrow> (Nothing, zrem (IngressLeases i) lease r)
      | TakeLive a amax u umax i lease replacing \<Rightarrow>
          yes (acquire_live_lease_script (AccountSlots a) (LiveAccountSlots a) (UserSlots u) (LiveUserSlots u) (LiveKeySlots i)
            amax umax liveLeaseTTLSeconds lease replacing r)
      | KeepLive a u i lease \<Rightarrow> yes (refresh_live_lease_script (live_keys a u i) liveLeaseTTLSeconds lease r)
      | DropLive a u i lease \<Rightarrow> (Nothing, fold (\<lambda>k. zrem k lease) (live_keys a u i) r))"

fun exec_all :: "conc_cache \<Rightarrow> lease_event list \<Rightarrow> redis \<Rightarrow> event_answer list \<times> redis" where
  "exec_all c [] r = ([], r)"
| "exec_all c (ev # evs) r = (case exec c ev r of (a, r1) \<Rightarrow> apfst ((#) a) (exec_all c evs r1))"

section \<open>The table\<close>

record lease_spec =
  ls_now :: int
  ls_table :: "redis_key \<Rightarrow> string \<rightharpoonup> int"

definition spec_time :: "lease_spec \<Rightarrow> int" where "spec_time s = ls_now s div 1000"

definition held :: "redis_key \<Rightarrow> lease_spec \<Rightarrow> int" where
  "held k s = int (card (dom (ls_table s k)))"

definition grant_in :: "redis_key set \<Rightarrow> string \<Rightarrow> lease_spec \<Rightarrow> lease_spec" where
  "grant_in K m s = s\<lparr>ls_table := (\<lambda>k. if k \<in> K then (ls_table s k)(m \<mapsto> spec_time s) else ls_table s k)\<rparr>"

definition drop_in :: "redis_key set \<Rightarrow> string \<Rightarrow> lease_spec \<Rightarrow> lease_spec" where
  "drop_in K m s = s\<lparr>ls_table := (\<lambda>k. if k \<in> K then (ls_table s k)(m := None) else ls_table s k)\<rparr>"

definition decide :: "bool \<Rightarrow> redis_key set \<Rightarrow> string \<Rightarrow> lease_spec \<Rightarrow> event_answer \<times> lease_spec" where
  "decide g K m s = (Granted g, if g then grant_in K m s else s)"

text \<open>Time passes, and leases end.\<close>

definition pass :: "conc_cache \<Rightarrow> int \<Rightarrow> lease_spec \<Rightarrow> lease_spec" where
  "pass c ms s =
     (let s1 = s\<lparr>ls_now := ls_now s + max 0 ms\<rparr>
      in s1\<lparr>ls_table := (\<lambda>k m. case ls_table s k m of None \<Rightarrow> None | Some t \<Rightarrow> if spec_time s1 < t + ttl_of c k then Some t else None)\<rparr>)"

definition spec_exec :: "conc_cache \<Rightarrow> lease_event \<Rightarrow> lease_spec \<Rightarrow> event_answer \<times> lease_spec" where
  "spec_exec c ev s =
     (let slot = (\<lambda>k. si_slot (index_of k)); live = (\<lambda>k. si_live (index_of k)) in
      case ev of
        Pass ms \<Rightarrow> (Nothing, pass c ms s)
      | Acquire k i limit rid \<Rightarrow>
          decide (ls_table s (slot k i) rid \<noteq> None \<or> held (slot k i) s + held (live k i) s < limit) {slot k i} rid s
      | GiveBack k i rid \<Rightarrow> (Nothing, drop_in {slot k i} rid s)
      | CountSlots k i \<Rightarrow> (Counted (held (slot k i) s + held (live k i) s), s)
      | CleanSlots i \<Rightarrow> (Nothing, s)
      | Track i rid \<Rightarrow> (Nothing, grant_in {KeySlots i} rid s)
      | Untrack i rid \<Rightarrow> (Nothing, drop_in {KeySlots i} rid s)
      | TakeIngress i limit lease \<Rightarrow>
          decide (ls_table s (IngressLeases i) lease \<noteq> None \<or> held (IngressLeases i) s < limit) {IngressLeases i} lease s
      | KeepIngress i lease \<Rightarrow> decide (ls_table s (IngressLeases i) lease \<noteq> None) {IngressLeases i} lease s
      | DropIngress i lease \<Rightarrow> (Nothing, drop_in {IngressLeases i} lease s)
      | TakeLive a amax u umax i lease replacing \<Rightarrow> (Granted True, s)
      | KeepLive a u i lease \<Rightarrow> decide (\<forall>k \<in> set (live_keys a u i). ls_table s k lease \<noteq> None) (set (live_keys a u i)) lease s
      | DropLive a u i lease \<Rightarrow> (Nothing, drop_in (set (live_keys a u i)) lease s))"

definition room :: "int \<Rightarrow> bool \<Rightarrow> redis_key \<Rightarrow> redis_key \<Rightarrow> lease_spec \<Rightarrow> bool" where
  "room limit replacing k live s \<longleftrightarrow> limit \<le> 0 \<or> held k s + held live s < limit + (if replacing then 1 else 0)"

text \<open>A new live lease needs room at the account and at the user; it may be refused for stale slots.\<close>

inductive lease_step :: "conc_cache \<Rightarrow> lease_spec \<Rightarrow> lease_event \<Rightarrow> event_answer \<Rightarrow> lease_spec \<Rightarrow> bool" for c where
  exact: "spec_exec c ev s = (a, s') \<Longrightarrow> (\<forall>a amax u umax i lease rep. ev \<noteq> TakeLive a amax u umax i lease rep) \<Longrightarrow>
    lease_step c s ev a s'"
| live_again: "ls_table s (LiveAccountSlots a) lease \<noteq> None \<Longrightarrow>
    lease_step c s (TakeLive a amax u umax i lease rep) (Granted True) s"
| live_new: "ls_table s (LiveAccountSlots a) lease = None \<Longrightarrow> room amax rep (AccountSlots a) (LiveAccountSlots a) s \<Longrightarrow>
    room umax rep (UserSlots u) (LiveUserSlots u) s \<Longrightarrow>
    lease_step c s (TakeLive a amax u umax i lease rep) (Granted True) (grant_in (set (live_keys a u i)) lease s)"
| live_refused: "ls_table s (LiveAccountSlots a) lease = None \<Longrightarrow>
    lease_step c s (TakeLive a amax u umax i lease rep) (Granted False) s"

inductive lease_run :: "conc_cache \<Rightarrow> lease_spec \<Rightarrow> lease_event list \<Rightarrow> event_answer list \<Rightarrow> lease_spec \<Rightarrow> bool" for c where
  stop: "lease_run c s [] [] s"
| go: "lease_step c s ev a s1 \<Longrightarrow> lease_run c s1 evs as s2 \<Longrightarrow> lease_run c s (ev # evs) (a # as) s2"

section \<open>The store implements the table\<close>

definition view :: "conc_cache \<Rightarrow> redis \<Rightarrow> lease_spec" where
  "view c r = \<lparr>ls_now = rd_now r, ls_table = (\<lambda>k. if is_lease_key k then leases c k r else Map.empty)\<rparr>"

lemma view_sel [simp]:
  "spec_time (view c r) = redis_time r" "is_lease_key k \<Longrightarrow> ls_table (view c r) k = leases c k r"
  "is_lease_key k \<Longrightarrow> held k (view c r) = lease_count c k r"
  by (simp_all add: view_def spec_time_def redis_time_def held_def lease_count_def)

lemma index_of_simps [simp]:
  "is_lease_key (si_slot (index_of k) i)" "is_lease_key (si_live (index_of k) i)" "ttl_of c (si_slot (index_of k) i) = cc_slot_ttl c"
  "ttl_of c (si_live (index_of k) i) = 60" "si_slot (index_of k) i \<noteq> si_live (index_of k) i"
  by (cases k; simp add: index_of_def slot_index_defs)+

text \<open>\<open>rd_now\<close> never moves but by the passing of time.\<close>

lemma view_eqI:
  "ls_now s = rd_now r' \<Longrightarrow> (\<And>k. is_lease_key k \<Longrightarrow> leases c k r' = ls_table s k) \<Longrightarrow>
   (\<And>k. \<not> is_lease_key k \<Longrightarrow> ls_table s k = Map.empty) \<Longrightarrow> view c r' = s"
  by (cases s) (auto simp: view_def fun_eq_iff)

lemma view_empty: "view c (empty_redis now) = \<lparr>ls_now = now, ls_table = (\<lambda>_. Map.empty)\<rparr>"
  by (auto simp: view_def empty_redis_def leases_def scores_def zset_at_def rd_zsets_def fun_eq_iff)

text \<open>No script moves the clock.\<close>

lemma now_fold: "rd_now (fold (\<lambda>k. zrem k m) ks r) = rd_now r" "rd_now (fold (\<lambda>k s. zexpire k ttl (zadd k t m s)) ks r) = rd_now r"
  by (induction ks arbitrary: r) (simp_all add: redis_simps)

lemma now_lease_in_all: "rd_now (snd (lease_in_all ks b m r)) = rd_now r"
  by (induction ks arbitrary: r) (auto simp: Let_def redis_simps)

lemma now_refresh_live: "rd_now (snd (refresh_live_lease_script ks ttl m r)) = rd_now r"
  using now_lease_in_all [of ks "redis_time r - ttl" m r]
  by (auto simp: refresh_live_lease_script_def Let_def now_fold split: prod.splits bool.splits)

lemma now_scripts:
  "rd_now (snd (acquire_script k l n ttl m r)) = rd_now r" "rd_now (snd (get_count_script k l ttl r)) = rd_now r"
  "rd_now (snd (cleanup_expired_slots_script k ttl r)) = rd_now r" "rd_now (snd (track_slot_script k ttl m r)) = rd_now r"
  "rd_now (snd (acquire_ingress_lease_script k n ttl m r)) = rd_now r" "rd_now (snd (refresh_ingress_lease_script k ttl m r)) = rd_now r"
  "rd_now (snd (acquire_live_lease_script a b d e f amax umax ttl m rep r)) = rd_now r"
  by (simp_all add: acquire_script_def get_count_script_def cleanup_expired_slots_script_def track_slot_script_def
      acquire_ingress_lease_script_def refresh_ingress_lease_script_def acquire_live_lease_script_def Let_def redis_simps)

lemma now_exec: "exec c ev r = (a, r') \<Longrightarrow> rd_now r' = (case ev of Pass ms \<Rightarrow> rd_now r + max 0 ms | _ \<Rightarrow> rd_now r)"
  by (cases ev) (auto simp: exec_def Let_def apfst_def map_prod_def tick_def redis_simps now_fold(1) split: prod.splits,
      (metis now_scripts now_refresh_live snd_conv)+)

lemma spec_now: "spec_exec c ev s = (a, s') \<Longrightarrow> ls_now s' = (case ev of Pass ms \<Rightarrow> ls_now s + max 0 ms | _ \<Rightarrow> ls_now s)"
  by (cases ev) (auto simp: spec_exec_def Let_def pass_def decide_def grant_in_def drop_in_def)

lemma leases_fold_zrem:
  "store_ok c r \<Longrightarrow> store_ok c (fold (\<lambda>k. zrem k m) ks r) \<and> redis_time (fold (\<lambda>k. zrem k m) ks r) = redis_time r \<and>
   leases c k' (fold (\<lambda>k. zrem k m) ks r) = (if k' \<in> set ks then (leases c k' r)(m := None) else leases c k' r)"
  by (induction ks arbitrary: r) (auto simp: store_rules redis_simps lease_simps)

text \<open>One statement, other than taking a live lease, answers and acts as the table.\<close>

lemma exec_exact:
  assumes c: "cache_ok c" and r: "store_ok c r" and run: "exec c ev r = (a, r')" "spec_exec c ev (view c r) = (b, s)"
    and ev: "\<forall>a amax u umax i lease rep. ev \<noteq> TakeLive a amax u umax i lease rep"
  shows "store_ok c r' \<and> a = b \<and> (\<forall>k. is_lease_key k \<longrightarrow> leases c k r' = ls_table s k)"
proof (cases ev)
  case (Acquire k i n m)
  obtain g now r1 where one: "acquire_script (si_slot (index_of k) i) (si_live (index_of k) i) n (cc_slot_ttl c) m r = ((g, now), r1)"
    by (metis prod.exhaust)
  note l = acquire_script_leases [OF c r index_of_simps(1,5,4), unfolded index_of_simps(3), OF one]
  show ?thesis
    using run one l unfolding Acquire
    by (auto simp: exec_def spec_exec_def Let_def decide_def grant_in_def acquire_room_def)
next
  case (CountSlots k i)
  note l = count_script_leases [OF r, of "si_slot (index_of k) i" "si_live (index_of k) i", unfolded index_of_simps(3)]
  show ?thesis using run l unfolding CountSlots by (auto simp: exec_def spec_exec_def Let_def apfst_def map_prod_def split: prod.splits)
next
  case (CleanSlots i)
  show ?thesis
    using run cleanup_script_leases [OF c r, of "AccountSlots i"] unfolding CleanSlots by (auto simp: exec_def spec_exec_def Let_def)
next
  case (Track i m)
  show ?thesis
    using run track_script_leases [OF c r, of "KeySlots i"] unfolding Track by (auto simp: exec_def spec_exec_def Let_def grant_in_def)
next
  case (TakeIngress i n m)
  obtain g r1 where one: "acquire_ingress_lease_script (IngressLeases i) n 60 m r = (g, r1)" by fastforce
  show ?thesis
    using run one ingress_script_leases [OF c r, of "IngressLeases i" n m g r1] unfolding TakeIngress
    by (auto simp: exec_def spec_exec_def Let_def decide_def grant_in_def openAIWSIngressLeaseTTLSeconds_def)
next
  case (KeepIngress i m)
  obtain g r1 where one: "refresh_ingress_lease_script (IngressLeases i) 60 m r = (g, r1)" by fastforce
  show ?thesis
    using run one refresh_ingress_leases [OF c r, of "IngressLeases i" m g r1] unfolding KeepIngress
    by (auto simp: exec_def spec_exec_def Let_def decide_def grant_in_def openAIWSIngressLeaseTTLSeconds_def)
next
  case (KeepLive x u i m)
  obtain g r1 where one: "refresh_live_lease_script (live_keys x u i) 60 m r = (g, r1)" by fastforce
  have keys: "k \<in> set (live_keys x u i) \<Longrightarrow> is_lease_key k" for k by (auto simp: live_keys_def)
  note l = refresh_live_leases [OF c r one]
  have "(\<forall>k \<in> set (live_keys x u i). ls_table (view c r) k m \<noteq> None) = g" using l(3) keys by simp
  then show ?thesis
    using run one l(1,2,4) keys unfolding KeepLive
    by (auto simp only: exec_def spec_exec_def Let_def decide_def liveLeaseTTLSeconds_def lease_event.case apfst_conv prod.inject)
      (auto simp: grant_in_def)
next
  case (Pass ms)
  have "redis_time (tick ms r) = (rd_now r + max 0 ms) div 1000" by (simp add: redis_time_def tick_def)
  with run leases_tick [OF r] show ?thesis unfolding Pass
    by (auto simp: exec_def spec_exec_def pass_def Let_def spec_time_def view_def fun_eq_iff store_rules r split: option.split)
next
  case (DropLive x u i m)
  have keys: "k \<in> set (live_keys x u i) \<Longrightarrow> is_lease_key k" for k by (auto simp: live_keys_def)
  show ?thesis
    using run leases_fold_zrem [OF r, of m "live_keys x u i"] keys unfolding DropLive
    by (auto simp: exec_def spec_exec_def Let_def drop_in_def)
qed (use run ev r in \<open>auto simp: exec_def spec_exec_def Let_def drop_in_def lease_simps store_rules\<close>)

lemma spec_other:
  "spec_exec c ev s = (b, s') \<Longrightarrow> \<not> is_lease_key k \<Longrightarrow> ls_table s k = Map.empty \<Longrightarrow> ls_table s' k = Map.empty"
  by (cases ev) (auto simp: spec_exec_def Let_def pass_def decide_def grant_in_def drop_in_def live_keys_def fun_eq_iff split: if_splits)

lemma exec_refines:
  assumes "cache_ok c" "store_ok c r" "exec c ev r = (a, r')"
  shows "store_ok c r' \<and> lease_step c (view c r) ev a (view c r')"
proof (cases "\<exists>x amax u umax i lease rep. ev = TakeLive x amax u umax i lease rep")
  case False
  obtain b s where s: "spec_exec c ev (view c r) = (b, s)" by fastforce
  note e = exec_exact [OF assms s]
  have other: "\<not> is_lease_key k \<Longrightarrow> ls_table s k = Map.empty" for k
    by (rule spec_other [OF s]) (simp_all add: view_def)
  have "view c r' = s"
    using e False now_exec [OF assms(3)] spec_now [OF s]
    by (intro view_eqI) (auto simp: other view_def split: lease_event.splits)
  with e s False show ?thesis by (auto intro: lease_step.exact)
next
  case True
  then obtain x amax u umax i lease rep where ev: "ev = TakeLive x amax u umax i lease rep" by blast
  obtain g where run: "acquire_live_lease_script (AccountSlots x) (LiveAccountSlots x) (UserSlots u) (LiveUserSlots u) (LiveKeySlots i)
      amax umax 60 lease rep r = (g, r')" and a: "a = Granted g"
    using assms(3) by (auto simp: ev exec_def Let_def liveLeaseTTLSeconds_def apfst_def map_prod_def split: prod.splits)
  note l = live_script_leases [OF assms(1,2) run]
  have now: "rd_now r' = rd_now r" using now_exec [OF assms(3)] by (simp add: ev)
  show ?thesis
  proof (cases "g \<and> leases c (LiveAccountSlots x) r lease = None")
    case True
    have "view c r' = grant_in (set (live_keys x u i)) lease (view c r)"
      using now l(3) True by (intro view_eqI) (auto simp: grant_in_def view_def live_keys_def spec_time_def redis_time_def)
    moreover have "room amax rep (AccountSlots x) (LiveAccountSlots x) (view c r)" "room umax rep (UserSlots u) (LiveUserSlots u) (view c r)"
      using l(4,5) True by (force simp: room_def)+
    ultimately show ?thesis using l(1) True by (auto simp: ev a intro: lease_step.live_new)
  next
    case False
    have "view c r' = view c r" using now l(3) False by (intro view_eqI) (auto simp: view_def)
    with l(1,6) False show ?thesis
      by (cases g) (simp_all add: ev a lease_step.live_again lease_step.live_refused)
  qed
qed

text \<open>C20: The concurrency limits implement a table of leases. Started on an empty store, the scripts that take,
  keep, count and give back slots and leases, in any order and with any time between them, give answers
  that the table gives: a slot is granted exactly when its request holds one or the unexpired slots and live
  leases are below the limit, a refresh succeeds exactly while the lease is alive, and a count is the number
  of unexpired holders. Neither cleaning nor the time to live of the sets in Redis can be observed.\<close>

theorem slots_refine_leases:
  assumes "cache_ok c" "exec_all c evs (empty_redis now) = (answers, r)"
  shows "lease_run c \<lparr>ls_now = now, ls_table = (\<lambda>_. Map.empty)\<rparr> evs answers (view c r)"
proof -
  have "store_ok c r0 \<Longrightarrow> exec_all c evs r0 = (answers, r) \<Longrightarrow> lease_run c (view c r0) evs answers (view c r)" for r0
  proof (induction evs arbitrary: r0 answers)
    case (Cons ev evs)
    obtain a r1 where one: "exec c ev r0 = (a, r1)" by fastforce
    with Cons.prems obtain as where "exec_all c evs r1 = (as, r)" "answers = a # as"
      by (auto simp: apfst_def map_prod_def split: prod.splits)
    with Cons.IH exec_refines [OF assms(1) Cons.prems(1) one] show ?case by (auto intro: lease_run.go)
  qed (auto intro: lease_run.stop)
  from this [OF _ assms(2)] show ?thesis by (simp add: view_empty)
qed

section \<open>A run\<close>

definition demo_cache :: conc_cache where "demo_cache = \<lparr>cc_slot_ttl = 900, cc_wait_ttl = 900\<rparr>"

lemma demo_cache_ok: "cache_ok demo_cache"
  by (simp add: cache_ok_def demo_cache_def)

definition demo_store :: "int \<Rightarrow> (redis_key \<times> zset) list \<Rightarrow> redis" where
  "demo_store now sets = \<lparr>rd_now = now, rd_sets = sets, rd_counters = [], rd_hashes = [], rd_swept = True\<rparr>"

definition demo_set :: "(string \<times> int) list \<Rightarrow> int \<Rightarrow> zset" where
  "demo_set members t = \<lparr>zs_members = members, zs_expire = Some (t * 1000)\<rparr>"

text \<open>A slot and a live lease fill an account; when the lease has ended there is room again.\<close>

definition demo_events :: "lease_event list" where
  "demo_events = [Acquire AccountKind 1 2 ''a'', TakeLive 1 2 7 2 5 ''x'' False, Acquire AccountKind 1 2 ''b'', Pass 60000,
     Acquire AccountKind 1 2 ''b'']"

definition demo_live :: "(redis_key \<times> zset) list" where
  "demo_live = [(AccountSlots 1, demo_set [(''a'', 0)] 900), (LiveAccountSlots 1, demo_set [(''x'', 0)] 60),
     (LiveUserSlots 7, demo_set [(''x'', 0)] 60), (LiveKeySlots 5, demo_set [(''x'', 0)] 60)]"

lemma demo_steps:
  "exec demo_cache (Acquire AccountKind 1 2 ''a'') (empty_redis 0) = (Granted True, demo_store 0 [(AccountSlots 1, demo_set [(''a'', 0)] 900)])"
  "exec demo_cache (TakeLive 1 2 7 2 5 ''x'' False) (demo_store 0 [(AccountSlots 1, demo_set [(''a'', 0)] 900)]) =
     (Granted True, demo_store 0 demo_live)"
  "exec demo_cache (Acquire AccountKind 1 2 ''b'') (demo_store 0 demo_live) = (Granted False, demo_store 0 demo_live)"
  "exec demo_cache (Pass 60000) (demo_store 0 demo_live) = (Nothing, demo_store 60000 demo_live)"
  "exec demo_cache (Acquire AccountKind 1 2 ''b'') (demo_store 60000 demo_live) = (Granted True, demo_store 60000
     [(AccountSlots 1, demo_set [(''a'', 0), (''b'', 60)] 960), (LiveUserSlots 7, demo_set [(''x'', 0)] 60),
      (LiveKeySlots 5, demo_set [(''x'', 0)] 60)])"
  by code_simp+

theorem slots_refine_leases_witness:
  "\<exists>s. lease_run demo_cache \<lparr>ls_now = 0, ls_table = (\<lambda>_. Map.empty)\<rparr> demo_events
     [Granted True, Granted True, Granted False, Nothing, Granted True] s"
proof -
  have "exec_all demo_cache demo_events (empty_redis 0) = ([Granted True, Granted True, Granted False, Nothing, Granted True],
    snd (exec demo_cache (Acquire AccountKind 1 2 ''b'') (demo_store 60000 demo_live)))"
    by (simp add: demo_events_def demo_steps)
  from slots_refine_leases [OF demo_cache_ok this] show ?thesis by blast
qed

end
