(* ===== verification/Concurrency_Safety.thy ===== *)
theory Concurrency_Safety
  imports Concurrency_Bound
begin

text \<open>
  The operations on the concurrency limits under interference: they keep the load of an account
  within its limit and the store well formed.
\<close>

section \<open>Steps\<close>

text \<open>What any client of the store may do while requests for account \<open>a\<close> ask for at most \<open>m\<close> slots.\<close>

inductive conc_step :: "conc_cache \<Rightarrow> int \<Rightarrow> int \<Rightarrow> redis \<Rightarrow> redis \<Rightarrow> bool" for c m a where
  event: "asks_within m a ev \<Longrightarrow> conc_step c m a r (snd (exec c ev r))"
| fewer: "shrinks c r r' \<Longrightarrow> conc_step c m a r r'"

abbreviation conc_steps :: "conc_cache \<Rightarrow> int \<Rightarrow> int \<Rightarrow> redis \<Rightarrow> redis \<Rightarrow> bool" where
  "conc_steps c m a \<equiv> (conc_step c m a)\<^sup>*\<^sup>*"

lemma step_load:
  assumes "cache_ok c" "0 \<le> m" "store_ok c r" "account_load c a r \<le> m + 1" "conc_step c m a r r'"
  shows "store_ok c r' \<and> account_load c a r' \<le> m + 1"
  using assms(5)
proof cases
  case (event ev)
  obtain ans where "exec c ev r = (ans, r')" using event(1) by (metis prod.collapse)
  with load_exec [OF assms(1,3) event(2) assms(2,4)] show ?thesis by blast
next
  case fewer
  then have "store_ok c r'" "leases c (AccountSlots a) r' \<subseteq>\<^sub>m leases c (AccountSlots a) r"
    "leases c (LiveAccountSlots a) r' \<subseteq>\<^sub>m leases c (LiveAccountSlots a) r"
    using assms(3) by (simp_all add: shrinks_def)
  with fewer_holders [of c a r' r] assms(4) show ?thesis by (auto dest!: map_le_implies_dom_le)
qed

lemma steps_load:
  assumes "conc_steps c m a r r'" "cache_ok c" "0 \<le> m" "store_ok c r" "account_load c a r \<le> m + 1"
  shows "store_ok c r' \<and> account_load c a r' \<le> m + 1"
  using assms by (induction rule: rtranclp_induct) (auto dest: step_load)

interpretation conc: workers "conc_steps c m a" for c m a
  by unfold_locales (auto intro: rtranclp_trans)

section \<open>Statements\<close>

lemma shrinks_same:
  "store_ok c r \<longrightarrow> store_ok c r' \<and> redis_time r' = redis_time r \<and> (\<forall>k. is_lease_key k \<longrightarrow> leases c k r' = leases c k r) \<Longrightarrow> shrinks c r r'"
  by (simp add: shrinks_def)

lemma shrinks_index: "\<not> is_lease_key k \<Longrightarrow> shrinks c r (zadd k s m r)"
proof (rule shrinks_same)
  assume k: "\<not> is_lease_key k"
  have "leases c k' (zadd k s m r) = leases c k' r" if "is_lease_key k'" for k'
    using k that by (intro leases_cong) (auto simp: redis_simps)
  then show "store_ok c r \<longrightarrow> store_ok c (zadd k s m r) \<and> redis_time (zadd k s m r) = redis_time r \<and>
    (\<forall>k'. is_lease_key k' \<longrightarrow> leases c k' (zadd k s m r) = leases c k' r)"
    using k by (simp add: store_rules redis_simps)
qed

lemma shrinks_zrem_upto: "shrinks c r (zrem_upto k b r)"
  by (auto simp: shrinks_def store_rules redis_simps store_ok_redis map_le_def leases_def split: option.splits if_splits)

lemma shrinks_counters: "shrinks c r (r\<lparr>rd_counters := f\<rparr>)" "shrinks c r (r\<lparr>rd_swept := b\<rparr>)"
  by (rule shrinks_same; simp add: store_rules lease_simps redis_time_def)+

lemma shrinks_cleanup:
  "cache_ok c \<Longrightarrow> is_lease_key k \<Longrightarrow> shrinks c r (snd (cleanup_expired_slots_script k (ttl_of c k) r))"
  by (rule shrinks_same) (simp add: cleanup_script_leases)

lemma shrinks_fold: "(\<And>x r. shrinks c r (f x r)) \<Longrightarrow> shrinks c r (fold f xs r)"
  by (induction xs arbitrary: r) (auto intro: shrinks_trans)

lemma shrinks_waits:
  "shrinks c r (snd (increment_wait_script k n ttl r))" "shrinks c r (snd (decrement_wait_script k r))"
  "shrinks c r (delete_waits P r)" "shrinks c r (cdel k r)"
  by (auto simp: increment_wait_script_def decrement_wait_script_def Let_def delete_waits_def cdel_def incr_by_def cexpire_def put_counter_def
      intro: shrinks_trans shrinks_counters split: option.splits)

text \<open>Hence every call of the cache stays within the steps.\<close>

lemma safe_shrinks: "(\<And>r. shrinks c r (snd (f r))) \<Longrightarrow> safe (conc_steps c m a) f"
  by (auto simp: safe_def intro: conc_step.fewer)

lemma safe_cmd: "(\<And>r. shrinks c r (f r)) \<Longrightarrow> safe (conc_steps c m a) (do_cmd f)"
  by (rule safe_shrinks) (simp add: do_cmd_def)

lemma safe_look: "safe (conc_steps c m a) (look f)"
  by (rule safe_shrinks) (simp add: look_def)

lemma safe_event: "asks_within m a ev \<Longrightarrow> (\<And>r. snd (f r) = snd (exec c ev r)) \<Longrightarrow> safe (conc_steps c m a) f"
  by (auto simp: safe_def intro: conc_step.event)

lemma safe_acquire:
  "(k = AccountKind \<Longrightarrow> i = a \<Longrightarrow> n \<le> m) \<Longrightarrow>
   safe (conc_steps c m a) (acquire_script (si_slot (index_of k) i) (si_live (index_of k) i) n (cc_slot_ttl c) rid)"
  by (rule safe_event [of _ _ "Acquire k i n rid"])
    (auto simp: asks_within_def exec_def Let_def apfst_def map_prod_def split: prod.splits slot_kind.splits)

lemma safe_events:
  "safe (conc_steps c m a) (get_count_script (si_slot (index_of k) i) (si_live (index_of k) i) (cc_slot_ttl c))"
  "safe (conc_steps c m a) (track_slot_script (KeySlots i) (cc_slot_ttl c) rid)"
  "safe (conc_steps c m a) (acquire_ingress_lease_script (IngressLeases i) n openAIWSIngressLeaseTTLSeconds rid)"
  "safe (conc_steps c m a) (refresh_ingress_lease_script (IngressLeases i) openAIWSIngressLeaseTTLSeconds rid)"
  "safe (conc_steps c m a) (refresh_live_lease_script (live_keys b u i) liveLeaseTTLSeconds rid)"
  by (rule safe_event [of _ _ "CountSlots k i"] safe_event [of _ _ "Track i rid"] safe_event [of _ _ "TakeIngress i n rid"]
      safe_event [of _ _ "KeepIngress i rid"] safe_event [of _ _ "KeepLive b u i rid"];
      auto simp: asks_within_def exec_def Let_def apfst_def map_prod_def split: prod.splits)+

lemma safe_live:
  "(b = a \<Longrightarrow> 0 < n \<and> n \<le> m) \<Longrightarrow>
   safe (conc_steps c m a) (acquire_live_lease_script (AccountSlots b) (LiveAccountSlots b) (UserSlots u) (LiveUserSlots u) (LiveKeySlots i)
     n umax liveLeaseTTLSeconds lease rep)"
  by (rule safe_event [of _ _ "TakeLive b n u umax i lease rep"])
    (auto simp: asks_within_def exec_def Let_def apfst_def map_prod_def split: prod.splits)

lemma safe_scripts:
  "cache_ok c \<Longrightarrow> safe (conc_steps c m a) (cleanup_expired_slots_script (AccountSlots i) (cc_slot_ttl c))"
  "cache_ok c \<Longrightarrow> safe (conc_steps c m a) (startup_cleanup_slot_script (si_slot (index_of k) i) prefix (cc_slot_ttl c))"
  "safe (conc_steps c m a) (increment_wait_script q n ttl)" "safe (conc_steps c m a) (decrement_wait_script q)"
  using shrinks_cleanup [of c "AccountSlots i"] shrinks_startup [of c "si_slot (index_of k) i" _ prefix]
  by (auto intro!: safe_shrinks shrinks_waits)

lemma index_not_lease [simp]: "\<not> is_lease_key (si_index (index_of k))"
  by (cases k) (simp_all add: index_of_def slot_index_defs)

lemma safe_cmds:
  "safe (conc_steps c m a) (do_cmd (zrem k x))" "safe (conc_steps c m a) (do_cmd (zrem_upto k b))"
  "safe (conc_steps c m a) (do_cmd (zadd (si_index (index_of q)) s x))" "safe (conc_steps c m a) (do_cmd (fold (zrem k) xs))"
  "safe (conc_steps c m a) (do_cmd (fold (\<lambda>k. zrem k x) ks))" "safe (conc_steps c m a) (do_cmd (cdel k))"
  "safe (conc_steps c m a) (do_cmd (delete_waits P))" "safe (conc_steps c m a) (do_cmd (rd_swept_update (\<lambda>_. True)))"
  by (rule safe_cmd; auto intro!: shrinks_zrem shrinks_zrem_upto shrinks_index shrinks_fold shrinks_waits shrinks_counters)+

lemma safe_fold_index:
  "safe (conc_steps c m a) (do_cmd (fold (\<lambda>x. zadd (si_index (index_of q)) (s x) (t x)) xs))"
  by (rule safe_cmd) (auto intro!: shrinks_fold shrinks_index)

section \<open>Operations\<close>

lemma progress_pattern [progress_rules]:
  "(\<And>x y. p = (x, y) \<Longrightarrow> progress G w (snd (f x y v))) \<Longrightarrow> progress G w (snd ((case p of (x, y) \<Rightarrow> f x y) v))"
  by (cases p) simp

lemma progress_numbers:
  fixes p :: "int \<times> int"
  shows "(\<And>x y. p = (x, y) \<Longrightarrow> progress G w (f x y)) \<Longrightarrow> progress G w (case p of (x, y) \<Rightarrow> f x y)"
  by (cases p) simp

lemmas call_rules = safe_events [THEN conc.progress_callI] safe_scripts [THEN conc.progress_callI] safe_cmds [THEN conc.progress_callI]
  safe_fold_index [THEN conc.progress_callI] safe_look [THEN conc.progress_callI]

abbreviation conc_goes :: "conc_cache \<Rightarrow> int \<Rightarrow> int \<Rightarrow> redis_world \<Rightarrow> redis_world \<Rightarrow> bool" where
  "conc_goes c m a \<equiv> progress (conc_steps c m a)"

lemma progress_touch: "conc_goes c m a w (touch_active_index_at (si_index (index_of k)) i t w)"
  unfolding touch_active_index_at_def by (intro progress_rules call_rules; simp add: conc.progress_refl)

lemma progress_remove: "conc_goes c m a w (remove_active_index_members x ms w)"
  unfolding remove_active_index_members_def by (intro progress_rules call_rules; simp add: conc.progress_refl)

lemma progress_load: "conc_goes c m a w (snd (read_active_load c spec i now w))"
  unfolding read_active_load_def by (intro progress_rules call_rules; simp add: conc.progress_refl)

lemma progress_refresh: "conc_goes c m a w (refresh_active_index c (index_of k) i w)"
  unfolding refresh_active_index_def
  by (intro progress_rules progress_numbers call_rules progress_load progress_touch; simp add: conc.progress_refl)


lemma progress_each:
  "(\<And>x w. x \<in> set xs \<Longrightarrow> conc_goes c m a w (snd (f x w))) \<Longrightarrow> conc_goes c m a w (snd (each f xs w))"
  by (induction xs arbitrary: w) (auto intro!: conc.progress_call_then intro: conc.progress_refl)

lemma progress_acquire:
  "(k = AccountKind \<Longrightarrow> i = a \<Longrightarrow> n \<le> m) \<Longrightarrow> conc_goes c m a w (snd (acquire_slot c (index_of k) i n rid w))"
  unfolding acquire_slot_def
  by (intro progress_rules safe_acquire [THEN conc.progress_callI] progress_touch; simp add: conc.progress_refl)

lemma progress_release: "conc_goes c m a w (snd (release_slot c (index_of k) i rid w))"
  unfolding release_slot_def by (intro progress_rules call_rules progress_refresh)

lemma progress_key_slots:
  "conc_goes c m a w (snd (track_api_key_slot c i rid w))" "conc_goes c m a w (snd (release_api_key_slot i rid w))"
  unfolding track_api_key_slot_def release_api_key_slot_def by (intro call_rules)+

lemma progress_waits:
  "conc_goes c m a w (snd (increment_wait_count c (index_of k) i n w))" "conc_goes c m a w (snd (decrement_wait_count c (index_of k) i w))"
  unfolding increment_wait_count_def decrement_wait_count_def
  by (intro progress_rules call_rules progress_refresh progress_touch; simp add: conc.progress_refl)+

lemma progress_counts:
  "conc_goes c m a w (snd (get_concurrency c (index_of k) i w))" "conc_goes c m a w (snd (get_concurrency_batch c slot live ids w))"
  "conc_goes c m a w (snd (get_loads_batch c (index_of k) accounts w))" "conc_goes c m a w (snd (get_account_waiting_count i w))"
proof -
  have key: "conc_goes c m a w (snd (count_key x y ttl now w))" for x y ttl now w
    unfolding count_key_def by (intro progress_rules call_rules; simp add: conc.progress_refl)
  show "conc_goes c m a w (snd (get_concurrency c (index_of k) i w))"
    unfolding get_concurrency_def by (intro call_rules)
  show "conc_goes c m a w (snd (get_concurrency_batch c slot live ids w))"
    unfolding get_concurrency_batch_def by (intro progress_rules call_rules progress_each key; simp add: conc.progress_refl)
  show "conc_goes c m a w (snd (get_loads_batch c (index_of k) accounts w))"
    unfolding get_loads_batch_def load_of_def Let_def
    by (intro progress_rules call_rules progress_each) (auto intro!: progress_rules call_rules key)
  show "conc_goes c m a w (snd (get_account_waiting_count i w))"
    unfolding get_account_waiting_count_def by (intro progress_rules call_rules; simp add: conc.progress_refl)
qed

lemma progress_leases:
  "conc_goes c m a w (snd (acquire_ingress_lease i n rid w))" "conc_goes c m a w (snd (refresh_ingress_lease i rid w))"
  "conc_goes c m a w (snd (release_ingress_lease i rid w))" "conc_goes c m a w (snd (refresh_live_lease b u i rid w))"
  "conc_goes c m a w (snd (release_live_lease b u i rid w))"
  unfolding acquire_ingress_lease_def refresh_ingress_lease_def release_ingress_lease_def refresh_live_lease_def release_live_lease_def
  by (intro progress_rules call_rules; simp add: conc.progress_refl)+

lemma progress_take_live:
  "(b = a \<Longrightarrow> 0 < n \<and> n \<le> m) \<Longrightarrow> conc_goes c m a w (snd (acquire_live_lease b n u umax i lease rep w))"
  unfolding acquire_live_lease_def
  by (intro progress_rules safe_live [THEN conc.progress_callI]; simp add: conc.progress_refl)

lemma progress_then_remove: "conc_goes c m a w w1 \<Longrightarrow> conc_goes c m a w (remove_active_index_members x ms w1)"
  by (rule conc.progress_trans [OF _ progress_remove])

lemma progress_reindex:
  "conc_goes c m a w (snd (call (do_cmd (fold (\<lambda>((s, i), x, y). zadd (si_index (index_of k)) (f x y) s) xs)) w))"
  "conc_goes c m a w (snd (call (do_cmd (fold (zadd (si_index (index_of k)) t) ms)) w))"
  by (rule conc.progress_callI, rule safe_cmd, rule shrinks_fold, auto intro: shrinks_index)+

lemma progress_index_reconcile: "conc_goes c m a w (snd (reconcile_expired_index_candidates c (index_of k) w))"
  unfolding reconcile_expired_index_candidates_def Let_def
  by (intro progress_rules call_rules progress_then_remove progress_each progress_load progress_reindex conc.progress_refl)

lemma progress_cleaning:
  assumes "cache_ok c"
  shows "conc_goes c m a w (snd (cleanup_expired_account_slots c i w))" "conc_goes c m a w (snd (cleanup_expired_account_slot_keys c w))"
    "conc_goes c m a w (snd (sweep_legacy_wait_keys_once w))"
  using progress_refresh [where k = AccountKind] progress_index_reconcile [where k = AccountKind] progress_index_reconcile [where k = UserKind]
  unfolding cleanup_expired_account_slots_def cleanup_expired_account_slot_keys_def sweep_legacy_wait_keys_once_def
  by (auto simp: index_of_def assms intro!: progress_rules call_rules)

lemma progress_startup:
  assumes "cache_ok c"
  shows "conc_goes c m a w (snd (cleanup_stale_process_slots c prefix w))"
proof -
  have mem: "conc_goes c m a w (snd (cleanup_stale_member c (index_of k) prefix x w))" for k x w
    unfolding cleanup_stale_member_def by (intro progress_rules call_rules assms; simp add: conc.progress_refl)
  have index: "conc_goes c m a w (snd (cleanup_stale_process_slots_for_index c (index_of k) ms prefix now w))" for k ms now w
    unfolding cleanup_stale_process_slots_for_index_def Let_def
    by (intro progress_rules progress_each mem progress_then_remove progress_reindex conc.progress_refl)
  from index [where k = AccountKind] index [where k = UserKind] show ?thesis
    unfolding cleanup_stale_process_slots_def
    by (auto simp: index_of_def assms intro!: progress_rules call_rules progress_cleaning)
qed

section \<open>The service\<close>

lemma progress_run_release: "conc_goes c m a w (run_release c r w)"
  by (induction r arbitrary: w) (auto intro: conc.progress_refl progress_release conc.progress_trans progress_key_slots)

lemma progress_acquire_service:
  assumes "k = AccountKind \<Longrightarrow> i = a \<Longrightarrow> n \<le> m" "acquire_slot_service c k i n p w = (x, p', w')"
  shows "conc_goes c m a w w'"
proof -
  have "conc_goes c m a w (snd (acquire_slot c (index_of k) i n rid w))" for rid using assms(1) by (rule progress_acquire)
  then have "acquire_slot c (index_of k) i n rid w = (ans, w2) \<Longrightarrow> conc_goes c m a w w2" for rid ans w2 by (metis snd_conv)
  then show ?thesis
    using assms(2) by (auto simp: acquire_slot_service_def Let_def conc.progress_refl split: if_splits prod.splits answer.splits)
qed

lemma progress_track_service: "track_api_key_slot_service c i r p w = (x, p', w') \<Longrightarrow> conc_goes c m a w w'"
  using progress_key_slots(1) [of c m a w i "fst (generate_request_id p)"]
  by (auto simp: track_api_key_slot_service_def Let_def conc.progress_refl split: if_splits prod.splits answer.splits)

lemma progress_wait_service:
  "conc_goes c m a w (snd (increment_wait_service c k i n w))" "conc_goes c m a w (decrement_wait_service c k i w)"
  using progress_waits(1) [of c m a w k i n] progress_waits(2) [of c m a w k i]
  by (auto simp: increment_wait_service_def decrement_wait_service_def split: prod.splits answer.splits)

lemma progress_ingress_service: "acquire_ingress_lease_service i n p w = (x, p', w') \<Longrightarrow> conc_goes c m a w w'"
  using progress_leases(1) [of c m a w i n "fst (generate_request_id p)"]
  by (auto simp: acquire_ingress_lease_service_def Let_def conc.progress_refl split: if_splits prod.splits answer.splits bool.splits)

lemma progress_wait_loop:
  assumes "k = AccountKind \<Longrightarrow> i = a \<Longrightarrow> limit \<le> m"
    and "wait_loop c k i limit timeout gone lat rnd n t backoff p w = Some res"
  shows "conc_goes c m a w (snd (snd res))"
proof -
  have "(k = AccountKind \<and> i = a \<longrightarrow> limit \<le> m) \<longrightarrow> conc_goes c m a w (snd (snd res))"
  proof (rule wait_loop.raw_induct [where P = "\<lambda>c k i limit _ _ _ _ _ _ _ _ w res.
      (k = AccountKind \<and> i = a \<longrightarrow> limit \<le> m) \<longrightarrow> conc_goes c m a w (snd (snd res))", OF _ assms(2)], intro impI)
    fix loop c k i limit timeout gone lat rnd n t backoff p w res
    assume IH: "\<And>c k i limit timeout gone lat rnd n t backoff p w res. loop c k i limit timeout gone lat rnd n t backoff p w = Some res \<Longrightarrow>
        (k = AccountKind \<and> i = a \<longrightarrow> limit \<le> m) \<longrightarrow> conc_goes c m a w (snd (snd res))"
      and body: "(if case gone of None \<Rightarrow> False | Some g \<Rightarrow> g \<le> t + backoff \<and> g \<le> timeout then Some (Inl ClientGone, p, w)
         else if timeout \<le> t + backoff then Some (Inl WaitTimeout, p, w)
         else case acquire_slot_service c k i limit p w of
             (DbErr, p1, w1) \<Rightarrow> Some (Inl StoreError, p1, w1)
           | (DbOk None, p1, w1) \<Rightarrow> loop c k i limit timeout gone lat rnd (Suc n) (t + backoff + lat n) (next_backoff (rnd n) backoff) p1 w1
           | (DbOk (Some r), p1, w1) \<Rightarrow> Some (Inr r, p1, w1)) = Some res"
      and lim: "k = AccountKind \<and> i = a \<longrightarrow> limit \<le> m"
    obtain x p1 w1 where one: "acquire_slot_service c k i limit p w = (x, p1, w1)" by (metis prod.exhaust)
    with lim have "conc_goes c m a w w1" using progress_acquire_service by blast
    with body one lim show "conc_goes c m a w (snd (snd res))"
      by (auto simp: conc.progress_refl split: if_splits answer.splits option.splits intro: conc.progress_trans dest!: IH)
  qed
  with assms(1) show ?thesis by blast
qed

lemma progress_wait_run:
  "(k = AccountKind \<Longrightarrow> i = a \<Longrightarrow> limit \<le> m) \<Longrightarrow>
   wait_loop c k i limit timeout gone lat rnd n t backoff p w = Some (x, p', w') \<Longrightarrow> conc_goes c m a w w'"
  using progress_wait_loop [of k i a limit m c timeout gone lat rnd n t backoff p w "(x, p', w')"] by simp

lemma progress_wait:
  assumes "k = AccountKind \<Longrightarrow> i = a \<Longrightarrow> limit \<le> m"
    and "wait_for_slot c k i limit timeout gone lat rnd now p w = Some (x, p', w')"
  shows "conc_goes c m a w w'"
proof -
  obtain y p1 w1 where one: "acquire_slot_service c k i limit p w = (y, p1, w1)" by (metis prod.exhaust)
  then have "conc_goes c m a w w1" using assms(1) by (rule progress_acquire_service [rotated])
  moreover have "conc_goes c m a v w'" if "wait_loop c k i limit timeout gone lat rnd 0 0 initialBackoff q v = Some (x, p', w')" for q v
    using assms(1) that by (rule progress_wait_run)
  ultimately show ?thesis
    using assms(2) one by (auto simp: wait_for_slot_def split: if_splits answer.splits option.splits intro: conc.progress_trans)
qed

lemma progress_with_key: "with_api_key_slot c kid (x, p, w) = (x', p', w') \<Longrightarrow> conc_goes c m a w w'"
  by (auto simp: with_api_key_slot_def conc.progress_refl progress_track_service split: sum.splits option.splits prod.splits)

lemma progress_account_wait:
  assumes "i = a \<Longrightarrow> limit \<le> m"
    and "acquire_account_slot_with_wait c i limit gone lat rnd p w = Some (x, p', w')"
  shows "conc_goes c m a w w'"
proof -
  obtain y p1 w1 where one: "acquire_slot_service c AccountKind i limit p w = (y, p1, w1)" by (metis prod.exhaust)
  then have "conc_goes c m a w w1" using assms(1) by (rule progress_acquire_service [rotated])
  moreover have "conc_goes c m a v w'" if "wait_for_slot c AccountKind i limit maxConcurrencyWait gone lat rnd False q v = Some (x, p', w')" for q v
    using assms(1) that by (rule progress_wait)
  ultimately show ?thesis
    using assms(2) one by (auto simp: acquire_account_slot_with_wait_def split: answer.splits option.splits intro: conc.progress_trans)
qed

lemma progress_user_wait:
  assumes "acquire_user_slot_with_wait c i limit timeout gone lat rnd kid p w = Some (x, p', w')"
  shows "conc_goes c m a w w'"
proof -
  obtain y p1 w1 where one: "acquire_slot_service c UserKind i limit p w = (y, p1, w1)" by (metis prod.exhaust)
  then have p1: "conc_goes c m a w w1" by (rule progress_acquire_service [rotated]) simp
  obtain q w2 where inc: "increment_wait_service c UserKind i (max 1 (calculate_max_wait limit - limit)) w1 = (q, w2)" by fastforce
  then have p2: "conc_goes c m a w w2" using progress_wait_service(1) conc.progress_trans [OF p1] by (metis snd_conv)
  show ?thesis
  proof (cases "y = DbOk None \<and> q")
    case False
    with assms one inc p1 p2 show ?thesis
      by (auto simp: acquire_user_slot_with_wait_def Let_def split: answer.splits option.splits bool.splits
          dest: progress_with_key intro: conc.progress_trans)
  next
    case True
    with assms one inc obtain res where wait: "wait_for_slot c UserKind i limit timeout gone lat rnd False p1 w2 = Some res"
      and res: "(case with_api_key_slot c kid res of (x, p3, w3) \<Rightarrow> (x, p3, decrement_wait_service c UserKind i w3)) = (x, p', w')"
      by (auto simp: acquire_user_slot_with_wait_def Let_def)
    obtain y3 p3 w3 where r: "res = (y3, p3, w3)" by (metis prod.exhaust)
    obtain x4 p4 w4 where key: "with_api_key_slot c kid (y3, p3, w3) = (x4, p4, w4)" by (metis prod.exhaust)
    note wait = wait [unfolded r]
    have w': "w' = decrement_wait_service c UserKind i w4" using res by (simp add: r key)
    have "conc_goes c m a w2 w3" using wait by (rule progress_wait [rotated]) simp
    with progress_with_key [OF key] progress_wait_service(2) p2 show ?thesis unfolding w'
      by (meson conc.progress_trans)
  qed
qed

section \<open>The limit holds\<close>

text \<open>What a process does with the limits, from the world before to the world after.\<close>

inductive conc_op :: "conc_cache \<Rightarrow> int \<Rightarrow> int \<Rightarrow> redis_world \<Rightarrow> redis_world \<Rightarrow> bool" for c m a where
  acquire: "(k = AccountKind \<Longrightarrow> i = a \<Longrightarrow> n \<le> m) \<Longrightarrow> acquire_slot_service c k i n p w = (x, p', w') \<Longrightarrow> conc_op c m a w w'"
| wait_account: "(i = a \<Longrightarrow> n \<le> m) \<Longrightarrow> acquire_account_slot_with_wait c i n gone lat rnd p w = Some (x, p', w') \<Longrightarrow> conc_op c m a w w'"
| wait_user: "acquire_user_slot_with_wait c i n timeout gone lat rnd kid p w = Some (x, p', w') \<Longrightarrow> conc_op c m a w w'"
| track: "track_api_key_slot_service c i r p w = (x, p', w') \<Longrightarrow> conc_op c m a w w'"
| release: "conc_op c m a w (run_release c r w)"
| count: "conc_op c m a w (snd (get_concurrency c (index_of k) i w))"
| counts: "conc_op c m a w (snd (get_concurrency_batch c slot live ids w))"
| loads: "conc_op c m a w (snd (get_loads_batch c (index_of k) accounts w))"
| queue: "conc_op c m a w (snd (increment_wait_service c k i n w))"
| dequeue: "conc_op c m a w (decrement_wait_service c k i w)"
| connect: "acquire_ingress_lease_service i n p w = (x, p', w') \<Longrightarrow> conc_op c m a w w'"
| keep_connection: "conc_op c m a w (snd (refresh_ingress_lease i lease w))"
| disconnect: "conc_op c m a w (snd (release_ingress_lease i lease w))"
| take_live: "(b = a \<Longrightarrow> 0 < n \<and> n \<le> m) \<Longrightarrow> conc_op c m a w (snd (acquire_live_lease b n u umax i lease rep w))"
| keep_live: "conc_op c m a w (snd (refresh_live_lease b u i lease w))"
| drop_live: "conc_op c m a w (snd (release_live_lease b u i lease w))"
| clean_account: "conc_op c m a w (snd (cleanup_expired_account_slots c i w))"
| clean_all: "conc_op c m a w (snd (cleanup_expired_account_slot_keys c w))"
| startup: "conc_op c m a w (snd (cleanup_stale_process_slots c prefix w))"

lemma progress_op: "cache_ok c \<Longrightarrow> conc_op c m a w w' \<Longrightarrow> conc_goes c m a w w'"
  by (erule conc_op.cases)
    (auto intro: progress_acquire_service progress_account_wait progress_user_wait progress_track_service progress_run_release
      progress_counts progress_wait_service progress_ingress_service progress_leases progress_take_live progress_cleaning progress_startup)

lemma progress_ops: "(conc_op c m a)\<^sup>*\<^sup>* w w' \<Longrightarrow> cache_ok c \<Longrightarrow> conc_goes c m a w w'"
  by (induction rule: rtranclp_induct) (auto intro: conc.progress_refl conc.progress_trans progress_op)

lemma ops_load:
  assumes "cache_ok c" "0 \<le> m" "pw_db w = empty_redis now" "safe_env (conc_steps c m a) w" "(conc_op c m a)\<^sup>*\<^sup>* w w'"
  shows "store_ok c (pw_db w')" "account_load c a (pw_db w') \<le> m + 1"
proof -
  have "conc_steps c m a (empty_redis now) (pw_db w')"
    using progress_ops [OF assms(5,1)] assms(3,4) by (simp add: progress_def)
  moreover have "account_load c a (empty_redis now) \<le> m + 1"
    using assms(2) by (simp add: account_load_def lease_count_def leases_def [abs_def] scores_def zset_at_def rd_zsets_def empty_redis_def)
  ultimately show "store_ok c (pw_db w')" "account_load c a (pw_db w') \<le> m + 1" using steps_load [OF _ assms(1,2)] by simp_all
qed


text \<open>C35: Under the same operations, interference and failures the store stays well formed: a sorted set lists a member once,
  no slot or lease was taken in the future, and no set of leases reaches its time to live before its members do.\<close>

theorem store_well_formed:
  assumes "cache_ok c" "0 \<le> m" "pw_db w = empty_redis now" "safe_env (conc_steps c m a) w" "(conc_op c m a)\<^sup>*\<^sup>* w w'"
  shows "redis_ok (pw_db w') \<and> (\<forall>k. is_lease_key k \<longrightarrow> past k (pw_db w') \<and> outlives c k (pw_db w'))"
  using ops_load(1) [OF assms] by (simp add: store_ok_def store_ok_but_def)

section \<open>A run\<close>

definition calm_process :: conc_process where "calm_process = \<lparr>cp_prefix = ''p'', cp_counter = 0\<rparr>"

definition busy_world :: redis_world where
  "busy_world = \<lparr>pw_db = empty_redis 0, pw_env = [[tick 5000], [\<lambda>r. snd (exec demo_cache (Acquire AccountKind 1 1 ''q-1'') r)]],
     pw_faults = [AckLost]\<rparr>"

definition busy_end :: redis_world where
  "busy_end = snd (snd (acquire_slot_service demo_cache AccountKind 1 1 calm_process busy_world))"

lemma busy_run: "safe_env (conc_steps demo_cache 1 1) busy_world" "(conc_op demo_cache 1 1)\<^sup>*\<^sup>* busy_world busy_end"
proof -
  have "conc_step demo_cache 1 1 r (tick 5000 r)" for r
    using conc_step.event [of 1 1 "Pass 5000" demo_cache r] by (simp add: exec_def asks_within_def)
  moreover have "conc_step demo_cache 1 1 r (snd (exec demo_cache (Acquire AccountKind 1 1 ''q-1'') r))" for r
    by (intro conc_step.event) (simp add: asks_within_def)
  ultimately show "safe_env (conc_steps demo_cache 1 1) busy_world" by (auto simp: safe_env_def busy_world_def)
  obtain x p' w' where "acquire_slot_service demo_cache AccountKind 1 1 calm_process busy_world = (x, p', w')" by (metis prod.exhaust)
  then show "(conc_op demo_cache 1 1)\<^sup>*\<^sup>* busy_world busy_end"
    unfolding busy_end_def by (intro r_into_rtranclp conc_op.acquire) simp_all
qed


theorem store_well_formed_witness: "redis_ok (pw_db busy_end) \<and> past (AccountSlots 1) (pw_db busy_end)"
  using store_well_formed [OF demo_cache_ok _ _ busy_run, of 0] by (simp add: busy_world_def)

end
