(* ===== verification/Concurrency_Waiting.thy ===== *)
theory Concurrency_Waiting
  imports Concurrency_Safety
begin

text \<open>
  Time in the concurrency limits: a waiting request is answered before its time limit with a bounded
  number of attempts, and a connection whose lease cannot be confirmed is given up in time.
\<close>

section \<open>Waiting ends\<close>

lemma initialBackoff_pos: "0 < initialBackoff"
  by (simp add: initialBackoff_def)

lemma initialBackoff_le: "initialBackoff \<le> maxBackoff"
  by (simp add: initialBackoff_def maxBackoff_def)

lemma next_backoff_bounds: "initialBackoff \<le> next_backoff x b" "next_backoff x b \<le> maxBackoff"
  using initialBackoff_le by (simp_all add: next_backoff_def Let_def)

text \<open>Each attempt uses up one request id.\<close>

lemma acquire_service_counter:
  "0 < limit \<Longrightarrow> acquire_slot_service c k i limit p w = (x, p', w') \<Longrightarrow> cp_counter p' = cp_counter p + 1"
  by (auto simp: acquire_slot_service_def generate_request_id_def Let_def split: prod.splits answer.splits)

lemma wait_loop_ends:
  assumes "0 < limit" "\<And>n. 0 \<le> lat n" "initialBackoff \<le> backoff"
  shows "\<exists>x p' w' j. wait_loop c k i limit timeout gone lat rnd n t backoff p w = Some (x, p', w') \<and>
    cp_counter p' = cp_counter p + of_nat j \<and> (j = 0 \<or> t + int j * initialBackoff < timeout)"
  using assms(3)
proof (induction "nat (timeout - t)" arbitrary: n t backoff p w rule: less_induct)
  case less
  let ?gone = "case gone of None \<Rightarrow> False | Some g \<Rightarrow> g \<le> t + backoff \<and> g \<le> timeout"
  show ?case
  proof (cases "?gone \<or> timeout \<le> t + backoff")
    case True
    then show ?thesis by (subst wait_loop.simps) (auto intro!: exI [of _ 0])
  next
    case False
    obtain y p1 w1 where one: "acquire_slot_service c k i limit p w = (y, p1, w1)" by (metis prod.exhaust)
    note p1 = acquire_service_counter [OF assms(1) one]
    show ?thesis
    proof (cases "y = DbOk None")
      case no: False
      then show ?thesis
        using False one p1 less.prems by (subst wait_loop.simps) (auto intro!: exI [of _ 1] split: answer.splits option.splits)
    next
      case True
      let ?t = "t + backoff + lat n"
      have "nat (timeout - ?t) < nat (timeout - t)" using False less.prems initialBackoff_pos assms(2) [of n] by linarith
      from less.hyps [OF this, of "next_backoff (rnd n) backoff" "Suc n" p1 w1] next_backoff_bounds(1)
      obtain x p' w' j where rest: "wait_loop c k i limit timeout gone lat rnd (Suc n) ?t (next_backoff (rnd n) backoff) p1 w1 = Some (x, p', w')"
        "cp_counter p' = cp_counter p1 + of_nat j" "j = 0 \<or> ?t + int j * initialBackoff < timeout" by blast
      have "t + int (Suc j) * initialBackoff < timeout"
        using rest(3) False less.prems assms(2) [of n] by (auto simp: algebra_simps)
      then show ?thesis
        using False one True rest p1 by (subst wait_loop.simps) (auto intro!: exI [of _ "Suc j"])
    qed
  qed
qed

text \<open>C30: A request that waits for a slot is always answered: however long its attempts take, whatever the store answers
  and whenever the client leaves, the waiting returns, and the number of its attempts times the shortest pause stays
  below the time limit (one more attempt when the first is made at once).\<close>

theorem waiting_ends:
  assumes "0 < limit" "\<And>n. 0 \<le> lat n"
  shows "\<exists>x p' w' attempts. wait_for_slot c k i limit timeout gone lat rnd immediately p w = Some (x, p', w') \<and>
    cp_counter p' = cp_counter p + of_nat attempts \<and>
    int attempts * initialBackoff \<le> max 0 timeout + (if immediately then initialBackoff else 0)"
proof -
  have loop: "\<exists>x p' w' j. wait_loop c k i limit timeout gone lat rnd 0 0 initialBackoff q v = Some (x, p', w') \<and>
      cp_counter p' = cp_counter q + of_nat j \<and> int j * initialBackoff \<le> max 0 timeout" for q v
    using wait_loop_ends [OF assms order_refl, where c = c and k = k and i = i and timeout = timeout and gone = gone and rnd = rnd and n = 0 and t = 0 and p = q and w = v] by fastforce
  show ?thesis
  proof (cases immediately)
    case False
    then show ?thesis using loop by (simp add: wait_for_slot_def)
  next
    case True
    obtain y p1 w1 where one: "acquire_slot_service c k i limit p w = (y, p1, w1)" by (metis prod.exhaust)
    note p1 = acquire_service_counter [OF assms(1) one]
    obtain x p' w' j where rest: "wait_loop c k i limit timeout gone lat rnd 0 0 initialBackoff p1 w1 = Some (x, p', w')"
      "cp_counter p' = cp_counter p1 + of_nat j" "int j * initialBackoff \<le> max 0 timeout" using loop by blast
    consider "y = DbErr" | r where "y = DbOk (Some r)" | "y = DbOk None" by (cases y) (auto simp: not_None_eq)
    then show ?thesis
    proof cases
      case 3
      with one rest p1 True show ?thesis
        by (auto simp: wait_for_slot_def algebra_simps intro!: exI [of _ "Suc j"])
    qed (use one p1 True in \<open>auto simp: wait_for_slot_def intro!: exI [of _ 1]\<close>)
  qed
qed

theorem waiting_ends_witness:
  "\<exists>x p' w' attempts. wait_for_slot demo_cache AccountKind 1 3 maxConcurrencyWait None (\<lambda>_. 0) (\<lambda>_. 1/2) True calm_process
      \<lparr>pw_db = empty_redis 0, pw_env = [], pw_faults = [Refused]\<rparr> = Some (x, p', w') \<and>
    cp_counter p' = cp_counter calm_process + of_nat attempts \<and> int attempts * initialBackoff \<le> max 0 maxConcurrencyWait + initialBackoff"
  using waiting_ends [of 3 "\<lambda>_. 0", where immediately = True] by simp

section \<open>Lost leases\<close>

text \<open>The rounds of a refreshing loop come at most \<open>d\<close> apart.\<close>

fun paced :: "duration \<Rightarrow> gotime \<Rightarrow> (bool answer \<times> gotime) list \<Rightarrow> bool" where
  "paced d t [] \<longleftrightarrow> True"
| "paced d t ((a, now) # rounds) \<longleftrightarrow> t \<le> now \<and> now \<le> t + d \<and> paced d now rounds"

text \<open>The last time the lease was confirmed in some rounds, after the confirmation at \<open>c\<close>.\<close>

fun confirmed_after :: "(bool answer \<times> gotime) list \<Rightarrow> gotime \<Rightarrow> gotime" where
  "confirmed_after [] c = c"
| "confirmed_after ((a, now) # rounds) c = confirmed_after rounds (if a = DbOk True then now else c)"

lemma lease_loop_errors:
  "s < l + openAIWSIngressLeaseTTL \<Longrightarrow> paced d s errs \<Longrightarrow> \<forall>(a, t) \<in> set errs. a = DbErr \<Longrightarrow>
   \<exists>(a, t) \<in> set errs. l + openAIWSIngressLeaseTTL \<le> t \<Longrightarrow>
   \<exists>t. lease_loop errs l = Some t \<and> l + openAIWSIngressLeaseTTL \<le> t \<and> t < l + openAIWSIngressLeaseTTL + d"
proof (induction errs arbitrary: s)
  case (Cons r errs)
  obtain now where r: "r = (DbErr, now)" using Cons.prems(3) by (cases r) auto
  show ?case
  proof (cases "l + openAIWSIngressLeaseTTL \<le> now")
    case True
    with Cons.prems(1,2) show ?thesis by (simp add: r lease_refresh_def)
  next
    case False
    with Cons.IH [of now] Cons.prems show ?thesis by (auto simp: r lease_refresh_def)
  qed
qed simp

text \<open>C31: The refreshing loop of a connection: when the refreshes fail from some point on, with rounds at most \<open>d\<close> apart, the
  connection is given up within \<open>d\<close> of the end of the last confirmed lease, and not before its end.\<close>

theorem lease_loss_noticed:
  assumes "paced d start (kept @ failing)" "start < confirmed + openAIWSIngressLeaseTTL" "lease_loop kept confirmed = None"
    "\<forall>(a, t) \<in> set failing. a = DbErr" "\<exists>(a, t) \<in> set failing. confirmed_after kept confirmed + openAIWSIngressLeaseTTL \<le> t"
  shows "\<exists>t. lease_loop (kept @ failing) confirmed = Some t \<and> confirmed_after kept confirmed + openAIWSIngressLeaseTTL \<le> t \<and>
    t < confirmed_after kept confirmed + openAIWSIngressLeaseTTL + d"
  using assms
proof (induction kept arbitrary: start confirmed)
  case Nil
  then show ?case using lease_loop_errors by simp
next
  case (Cons r kept)
  obtain a now where r: "r = (a, now)" by fastforce
  let ?c = "if a = DbOk True then now else confirmed"
  have step: "lease_refresh a now confirmed = (?c, False)" "now < ?c + openAIWSIngressLeaseTTL"
    using Cons.prems(3) by (auto simp: r lease_refresh_def openAIWSIngressLeaseTTL_def split: answer.splits bool.splits if_splits)
  then show ?case using Cons.IH [of now ?c] Cons.prems by (simp add: r)
qed

text \<open>One refresh every 20 seconds, each answered within 2 seconds, and the store is gone after the first.\<close>

theorem lease_loss_noticed_witness:
  "\<exists>t. lease_loop ([(DbOk True, 20 * Second)] @ [(DbErr, 42 * Second), (DbErr, 62 * Second), (DbErr, 82 * Second)]) 0 = Some t \<and>
     80 * Second \<le> t \<and> t < 102 * Second"
  using lease_loss_noticed [of "22 * Second" 0 "[(DbOk True, 20 * Second)]" "[(DbErr, 42 * Second), (DbErr, 62 * Second), (DbErr, 82 * Second)]" 0]
  by (simp add: lease_refresh_def openAIWSIngressLeaseTTL_def)

end
