(* ===== verification/Concurrency_Faults.thy ===== *)
theory Concurrency_Faults
  imports Concurrency_Safety
begin

text \<open>
  Where the concurrency limits give away room that is taken, or refuse room that is free, shown on
  concrete runs: a second process that starts, a slot that is over and not yet cleaned away, and a
  waiting request that was never counted.
\<close>

section \<open>A process starts\<close>

definition calm_world :: "redis \<Rightarrow> redis_world" where
  "calm_world r = \<lparr>pw_db = r, pw_env = [], pw_faults = []\<rparr>"

definition new_process :: "string \<Rightarrow> conc_process" where
  "new_process prefix = \<lparr>cp_prefix = prefix, cp_counter = 0\<rparr>"

text \<open>A process that starts gives away the slots of the others: the account allows one request, a process holds it, a
  second process starts on the same store, removes every slot whose id is not its own, and is granted a slot of the
  same account while the first request still runs.\<close>

theorem startup_frees_foreign_slots:
  "case acquire_slot_service demo_cache AccountKind 1 1 (new_process ''p'') (calm_world (empty_redis 0)) of (x, p, w1) \<Rightarrow>
   case cleanup_stale_process_slots demo_cache ''q'' w1 of (y, w2) \<Rightarrow>
   case acquire_slot_service demo_cache AccountKind 1 1 (new_process ''q'') w2 of (z, q, w3) \<Rightarrow>
     x = DbOk (Some (ReleaseSlot AccountKind 1 ''p-1'')) \<and> y = DbOk () \<and> z = DbOk (Some (ReleaseSlot AccountKind 1 ''q-1''))"
  by code_simp

section \<open>A slot is over\<close>

definition late_slots :: "int \<Rightarrow> redis" where
  "late_slots now = demo_store now [(AccountSlots 1, demo_set [(''a'', 0), (''b'', 500)] 1400)]"

lemma late_steps:
  "exec demo_cache (Acquire AccountKind 1 2 ''a'') (empty_redis 0) = (Granted True, demo_store 0 [(AccountSlots 1, demo_set [(''a'', 0)] 900)])"
  "exec demo_cache (Pass 500000) (demo_store 0 [(AccountSlots 1, demo_set [(''a'', 0)] 900)]) =
     (Nothing, demo_store 500000 [(AccountSlots 1, demo_set [(''a'', 0)] 900)])"
  "exec demo_cache (Acquire AccountKind 1 2 ''b'') (demo_store 500000 [(AccountSlots 1, demo_set [(''a'', 0)] 900)]) =
     (Granted True, late_slots 500000)"
  "exec demo_cache (Pass 400000) (late_slots 500000) = (Nothing, late_slots 900000)"
  "exec demo_cache (TakeLive 1 2 7 0 5 ''x'' False) (late_slots 900000) = (Granted False, late_slots 900000)"
  by code_simp+

definition late_events :: "lease_event list" where
  "late_events = [Acquire AccountKind 1 2 ''a'', Pass 500000, Acquire AccountKind 1 2 ''b'', Pass 400000, TakeLive 1 2 7 0 5 ''x'' False]"

text \<open>A slot that is over can keep a live call out: of two slots of an account one has passed its time to live, so one
  place is free, and the live call is refused because its script counts the slots without cleaning them.\<close>

theorem expired_slot_blocks_live:
  "fst (exec_all demo_cache late_events (empty_redis 0)) = [Granted True, Nothing, Granted True, Nothing, Granted False] \<and>
   account_load demo_cache 1 (snd (exec_all demo_cache late_events (empty_redis 0))) = 1"
proof -
  have run: "exec_all demo_cache late_events (empty_redis 0) =
      ([Granted True, Nothing, Granted True, Nothing, Granted False], late_slots 900000)"
    by (simp add: late_events_def late_steps)
  have "leases demo_cache (AccountSlots 1) (late_slots 900000) = [''b'' \<mapsto> 500]"
    "leases demo_cache (LiveAccountSlots 1) (late_slots 900000) = Map.empty"
    by (auto simp: fun_eq_iff leases_def scores_def zset_at_def rd_zsets_def late_slots_def demo_store_def demo_set_def key_gone_def
        redis_time_def demo_cache_def empty_zset_def)
  then show ?thesis by (simp add: run account_load_def lease_count_def)
qed

section \<open>A request that was not counted\<close>

lemma count_at_put [simp]: "count_at q (put_zset k z r) = count_at q r"
  by (simp add: count_at_def key_gone_def redis_simps cong: option.case_cong)

lemma count_at_other [simp]:
  "count_at q (zadd k s m r) = count_at q r" "count_at q (zrem k m r) = count_at q r" "count_at q (zrem_upto k b r) = count_at q r"
  by (simp_all add: command_defs Let_def)

lemma refresh_keeps_counts: "calm w \<Longrightarrow> count_at q (pw_db (refresh_active_index c s i w)) = count_at q (pw_db w)"
  by (simp add: refresh_active_index_def read_active_load_def touch_active_index_at_def do_cmd_def look_def)

lemma count_at_incr: "count_at k r = Some v \<Longrightarrow> count_at k (incr_by k n r) = Some (v + n)"
  by (auto simp: incr_by_def put_counter_def count_at_def rd_counts_def update_conv' key_gone_def split: option.splits if_splits)

text \<open>A waiting request whose counting was refused by the store waits all the same, and when it leaves it is
  subtracted: the place of a request that still waits becomes free.\<close>

theorem refused_count_frees_place:
  assumes "pw_env w = []" "pw_faults w = [Refused]" "count_at (si_wait (index_of k) i) (pw_db w) = Some v" "0 < v"
  shows "\<exists>w1. increment_wait_service c k i limit w = (True, w1) \<and>
    count_at (si_wait (index_of k) i) (pw_db (decrement_wait_service c k i w1)) = Some (v - 1)"
proof -
  let ?w1 = "w\<lparr>pw_faults := []\<rparr>"
  have calm: "calm ?w1" using assms(1) by (simp add: calm_def)
  have "increment_wait_service c k i limit w = (True, ?w1)"
    using assms(1,2) by (cases w) (simp add: increment_wait_service_def increment_wait_count_def call_def interfere_def)
  moreover have "count_at (si_wait (index_of k) i) (pw_db (decrement_wait_service c k i ?w1)) = Some (v - 1)"
    using calm assms(3,4)
    by (simp add: decrement_wait_service_def decrement_wait_count_def decrement_wait_script_def refresh_keeps_counts count_at_incr)
  ultimately show ?thesis by blast
qed

theorem refused_count_frees_place_witness:
  "\<exists>w1. increment_wait_service demo_cache UserKind 7 21
      \<lparr>pw_db = incr_by (UserWait 7) 1 (empty_redis 0), pw_env = [], pw_faults = [Refused]\<rparr> = (True, w1) \<and>
    count_at (UserWait 7) (pw_db (decrement_wait_service demo_cache UserKind 7 w1)) = Some 0"
proof -
  let ?w = "\<lparr>pw_db = incr_by (UserWait 7) 1 (empty_redis 0), pw_env = [], pw_faults = [Refused]\<rparr>"
  have "si_wait (index_of UserKind) 7 = UserWait 7" by (simp add: index_of_def slot_index_defs)
  moreover have "count_at (UserWait 7) (incr_by (UserWait 7) 1 (empty_redis 0)) = Some 1" by code_simp
  ultimately show ?thesis using refused_count_frees_place [of ?w UserKind 7 1 demo_cache 21] by simp
qed

end
