(* ===== verification/Billing_Admission.thy ===== *)
theory Billing_Admission
  imports Prelude
begin

text \<open>
  The check whether a request may be billed, \<open>CheckBillingEligibility\<close> in \<open>service/billing_cache_service.go\<close>:
  balance or subscription, quotas of the platform, windows of the API key, requests per minute, behind a
  circuit breaker. What the caches and the database answer is an argument. Amounts are exact rationals.
\<close>

section \<open>The circuit breaker\<close>

datatype breaker_state = BreakerClosed | BreakerOpen | BreakerHalfOpen

record breaker =
  cb_state :: breaker_state
  cb_failures :: int
  cb_opened_at :: gotime
  cb_threshold :: int
  cb_reset_timeout :: duration
  cb_half_open_requests :: int
  cb_half_open_remaining :: int

definition new_billing_circuit_breaker :: "bool \<Rightarrow> int \<Rightarrow> int \<Rightarrow> int \<Rightarrow> breaker option" where
  "new_billing_circuit_breaker enabled reset_seconds half_open threshold =
     (if \<not> enabled then None
      else Some \<lparr>cb_state = BreakerClosed, cb_failures = 0, cb_opened_at = 0,
        cb_threshold = (if threshold \<le> 0 then 5 else threshold),
        cb_reset_timeout = (if reset_seconds * Second \<le> 0 then 30 * Second else reset_seconds * Second),
        cb_half_open_requests = (if half_open \<le> 0 then 1 else half_open), cb_half_open_remaining = 0\<rparr>)"

definition half_open_allow :: "breaker \<Rightarrow> bool \<times> breaker" where
  "half_open_allow b =
     (if cb_half_open_remaining b \<le> 0 then (False, b) else (True, b\<lparr>cb_half_open_remaining := cb_half_open_remaining b - 1\<rparr>))"

definition breaker_allow :: "gotime \<Rightarrow> breaker \<Rightarrow> bool \<times> breaker" where
  "breaker_allow now b =
     (case cb_state b of
        BreakerClosed \<Rightarrow> (True, b)
      | BreakerOpen \<Rightarrow>
          if now - cb_opened_at b < cb_reset_timeout b then (False, b)
          else half_open_allow (b\<lparr>cb_state := BreakerHalfOpen, cb_half_open_remaining := cb_half_open_requests b\<rparr>)
      | BreakerHalfOpen \<Rightarrow> half_open_allow b)"

definition breaker_on_failure :: "gotime \<Rightarrow> breaker \<Rightarrow> breaker" where
  "breaker_on_failure now b =
     (case cb_state b of
        BreakerOpen \<Rightarrow> b
      | BreakerHalfOpen \<Rightarrow> b\<lparr>cb_state := BreakerOpen, cb_opened_at := now, cb_half_open_remaining := 0\<rparr>
      | BreakerClosed \<Rightarrow>
          let b1 = b\<lparr>cb_failures := cb_failures b + 1\<rparr>
          in if cb_failures b1 \<ge> cb_threshold b
             then b1\<lparr>cb_state := BreakerOpen, cb_opened_at := now, cb_half_open_remaining := 0\<rparr> else b1)"

definition breaker_on_success :: "breaker \<Rightarrow> breaker" where
  "breaker_on_success b = b\<lparr>cb_state := BreakerClosed, cb_failures := 0, cb_half_open_remaining := 0\<rparr>"

section \<open>Groups, subscriptions and keys\<close>

record group =
  gp_id :: int
  gp_type :: string
  gp_rate :: rat
  gp_image_independent :: bool
  gp_video_independent :: bool
  gp_daily :: "rat option"
  gp_weekly :: "rat option"
  gp_monthly :: "rat option"
  gp_rpm :: int

definition is_subscription_type :: "group \<Rightarrow> bool" where
  "is_subscription_type g \<longleftrightarrow> gp_type g = ''subscription''"

definition is_free_standard_group :: "group option \<Rightarrow> bool" where
  "is_free_standard_group og =
     (case og of None \<Rightarrow> False
      | Some g \<Rightarrow> gp_type g = ''standard'' \<and> gp_rate g = 0 \<and> \<not> gp_image_independent g \<and> \<not> gp_video_independent g)"

text \<open>\<open>HasDailyLimit\<close> and its like; \<open>limit_reached\<close> compares with a limit that is set.\<close>

definition has_limit :: "rat option \<Rightarrow> bool" where
  "has_limit l = (case l of None \<Rightarrow> False | Some x \<Rightarrow> 0 < x)"

definition limit_reached :: "(rat \<Rightarrow> bool) \<Rightarrow> rat option \<Rightarrow> bool" where
  "limit_reached p l = (has_limit l \<and> p (the l))"

record subscription_data =
  sd_status :: string
  sd_expires :: gotime
  sd_daily :: rat
  sd_weekly :: rat
  sd_monthly :: rat

record api_key =
  ak_id :: int
  ak_quota :: rat
  ak_limit5h :: rat
  ak_limit1d :: rat
  ak_limit7d :: rat

definition has_rate_limits :: "api_key \<Rightarrow> bool" where
  "has_rate_limits k \<longleftrightarrow> 0 < ak_limit5h k \<or> 0 < ak_limit1d k \<or> 0 < ak_limit7d k"

record rate_limit_data =
  rl_quota_used :: rat
  rl_usage5h :: rat
  rl_usage1d :: rat
  rl_usage7d :: rat
  rl_window5h :: "gotime option"
  rl_window1d :: "gotime option"
  rl_window7d :: "gotime option"

definition is_window_expired :: "gotime \<Rightarrow> gotime option \<Rightarrow> duration \<Rightarrow> bool" where
  "is_window_expired now start d = (case start of None \<Rightarrow> True | Some t \<Rightarrow> d \<le> now - t)"

definition RateLimitWindow5h :: duration where "RateLimitWindow5h = 5 * Hour"
definition RateLimitWindow1d :: duration where "RateLimitWindow1d = 24 * Hour"
definition RateLimitWindow7d :: duration where "RateLimitWindow7d = 7 * 24 * Hour"

definition effective_usage5h :: "gotime \<Rightarrow> rate_limit_data \<Rightarrow> rat" where
  "effective_usage5h now d = (if is_window_expired now (rl_window5h d) RateLimitWindow5h then 0 else rl_usage5h d)"

definition effective_usage1d :: "gotime \<Rightarrow> rate_limit_data \<Rightarrow> rat" where
  "effective_usage1d now d = (if is_window_expired now (rl_window1d d) RateLimitWindow1d then 0 else rl_usage1d d)"

definition effective_usage7d :: "gotime \<Rightarrow> rate_limit_data \<Rightarrow> rat" where
  "effective_usage7d now d = (if is_window_expired now (rl_window7d d) RateLimitWindow7d then 0 else rl_usage7d d)"

section \<open>The checks\<close>

datatype admission_error =
    BillingServiceUnavailable | InsufficientBalance | SubscriptionInvalid
  | DailyLimitExceeded | WeeklyLimitExceeded | MonthlyLimitExceeded
  | KeyQuotaExhausted | KeyLimit5hExceeded | KeyLimit1dExceeded | KeyLimit7dExceeded
  | PlatformDailyExhausted | PlatformWeeklyExhausted | PlatformMonthlyExhausted
  | GroupRPMExceeded | UserRPMExceeded

text \<open>The first check that fails decides.\<close>

fun first_error :: "(bool \<times> admission_error) list \<Rightarrow> admission_error option" where
  "first_error [] = None"
| "first_error ((failed, e) # checks) = (if failed then Some e else first_error checks)"

text \<open>The reset of expired windows in the database and the cache is left out; it does not change the verdict.\<close>

definition evaluate_rate_limits :: "gotime \<Rightarrow> api_key \<Rightarrow> rate_limit_data \<Rightarrow> rat \<Rightarrow> admission_error option" where
  "evaluate_rate_limits now k d pending =
     (let exceeds = (\<lambda>usage limit. 0 < limit \<and> (limit \<le> usage \<or> limit < usage + pending))
      in first_error
        [(exceeds (effective_usage5h now d) (ak_limit5h k), KeyLimit5hExceeded),
         (exceeds (effective_usage1d now d) (ak_limit1d k), KeyLimit1dExceeded),
         (exceeds (effective_usage7d now d) (ak_limit7d k), KeyLimit7dExceeded)])"

text \<open>A failure to read the usage of a key does not block it.\<close>

definition check_api_key_rate_limits_with_pending ::
  "gotime \<Rightarrow> api_key \<Rightarrow> rate_limit_data option \<Rightarrow> rate_limit_data answer \<Rightarrow> rat \<Rightarrow> admission_error option" where
  "check_api_key_rate_limits_with_pending now k cached db pending =
     (case cached of
        Some d \<Rightarrow> evaluate_rate_limits now k d pending
      | None \<Rightarrow> (case db of DbErr \<Rightarrow> None | DbOk d \<Rightarrow> evaluate_rate_limits now k d pending))"

definition check_simple_mode_api_key_rate_limits :: "gotime \<Rightarrow> api_key option \<Rightarrow> rate_limit_data answer \<Rightarrow> admission_error option" where
  "check_simple_mode_api_key_rate_limits now ok db =
     (case ok of None \<Rightarrow> None
      | Some k \<Rightarrow>
          if \<not> has_rate_limits k then None
          else (case db of
              DbErr \<Rightarrow> Some BillingServiceUnavailable
            | DbOk d \<Rightarrow> first_error
                [(0 < ak_limit5h k \<and> ak_limit5h k \<le> effective_usage5h now d, KeyLimit5hExceeded),
                 (0 < ak_limit1d k \<and> ak_limit1d k \<le> effective_usage1d now d, KeyLimit1dExceeded),
                 (0 < ak_limit7d k \<and> ak_limit7d k \<le> effective_usage7d now d, KeyLimit7dExceeded)]))"

definition balance_below_eligibility_threshold :: "rat \<Rightarrow> rat \<Rightarrow> bool" where
  "balance_below_eligibility_threshold reserve balance \<longleftrightarrow> balance \<le> 0 \<or> 0 < reserve \<and> balance < reserve"

definition check_balance_eligibility ::
  "gotime \<Rightarrow> rat \<Rightarrow> rat answer \<Rightarrow> breaker option \<Rightarrow> admission_error option \<times> breaker option" where
  "check_balance_eligibility now reserve balance ob =
     (case balance of
        DbErr \<Rightarrow> (Some BillingServiceUnavailable, map_option (breaker_on_failure now) ob)
      | DbOk v \<Rightarrow> (if balance_below_eligibility_threshold reserve v then Some InsufficientBalance else None,
                   map_option breaker_on_success ob))"

datatype 'a load = Loaded 'a | NotFound | LoadFailed

definition check_subscription_eligibility ::
  "gotime \<Rightarrow> group \<Rightarrow> subscription_data load \<Rightarrow> breaker option \<Rightarrow> admission_error option \<times> breaker option" where
  "check_subscription_eligibility now g sub ob =
     (case sub of
        NotFound \<Rightarrow> (Some SubscriptionInvalid, ob)
      | LoadFailed \<Rightarrow> (Some BillingServiceUnavailable, map_option (breaker_on_failure now) ob)
      | Loaded d \<Rightarrow> (first_error
          [(sd_status d \<noteq> ''active'', SubscriptionInvalid),
           (after now (sd_expires d), SubscriptionInvalid),
           (limit_reached (\<lambda>l. l \<le> sd_daily d) (gp_daily g), DailyLimitExceeded),
           (limit_reached (\<lambda>l. l \<le> sd_weekly d) (gp_weekly g), WeeklyLimitExceeded),
           (limit_reached (\<lambda>l. l \<le> sd_monthly d) (gp_monthly g), MonthlyLimitExceeded)],
          map_option breaker_on_success ob))"

text \<open>Each applicable limit counts the request; a count that fails does not block.\<close>

definition check_rpm :: "int option \<Rightarrow> group option \<Rightarrow> int \<Rightarrow> int answer \<Rightarrow> int answer \<Rightarrow> admission_error option" where
  "check_rpm override og user_limit group_count user_count =
     (let group_limit = (case og of None \<Rightarrow> 0 | Some g \<Rightarrow> (case override of Some n \<Rightarrow> n | None \<Rightarrow> gp_rpm g));
          over = (\<lambda>limit count. 0 < limit \<and> (case count of DbErr \<Rightarrow> False | DbOk n \<Rightarrow> limit < n))
      in first_error [(over group_limit group_count, GroupRPMExceeded), (over user_limit user_count, UserRPMExceeded)])"

section \<open>Quotas of a user on a platform\<close>

record platform_quota =
  pq_daily :: rat
  pq_weekly :: rat
  pq_monthly :: rat
  pq_daily_limit :: "rat option"
  pq_weekly_limit :: "rat option"
  pq_monthly_limit :: "rat option"
  pq_daily_start :: "gotime option"
  pq_weekly_start :: "gotime option"
  pq_monthly_start :: "gotime option"

definition quota_window_expired :: "gotime option \<Rightarrow> gotime \<Rightarrow> bool" where
  "quota_window_expired start current = (case start of None \<Rightarrow> True | Some t \<Rightarrow> before t current)"

definition monthly_quota_window_expired :: "gotime option \<Rightarrow> gotime \<Rightarrow> bool" where
  "monthly_quota_window_expired start now = (case start of None \<Rightarrow> True | Some t \<Rightarrow> 30 * 24 * Hour \<le> now - t)"

text \<open>The usage in the windows that \<open>now\<close> belongs to; \<open>day\<close> and \<open>week\<close> are their beginnings.\<close>

definition current_usage :: "gotime \<Rightarrow> gotime \<Rightarrow> gotime \<Rightarrow> platform_quota \<Rightarrow> platform_quota" where
  "current_usage now day week q = q\<lparr>
     pq_daily := (if quota_window_expired (pq_daily_start q) day then 0 else pq_daily q),
     pq_weekly := (if quota_window_expired (pq_weekly_start q) week then 0 else pq_weekly q),
     pq_monthly := (if monthly_quota_window_expired (pq_monthly_start q) now then 0 else pq_monthly q)\<rparr>"

definition refreshed_entry :: "gotime \<Rightarrow> gotime \<Rightarrow> gotime \<Rightarrow> platform_quota \<Rightarrow> platform_quota" where
  "refreshed_entry now day week q = (current_usage now day week q)\<lparr>
     pq_daily_start := (if quota_window_expired (pq_daily_start q) day then Some day else pq_daily_start q),
     pq_weekly_start := (if quota_window_expired (pq_weekly_start q) week then Some week else pq_weekly_start q),
     pq_monthly_start := (if monthly_quota_window_expired (pq_monthly_start q) now then Some now else pq_monthly_start q)\<rparr>"

definition quota_verdict :: "platform_quota \<Rightarrow> admission_error option" where
  "quota_verdict q =
     (let reached = (\<lambda>l usage. case l of None \<Rightarrow> False | Some x \<Rightarrow> x \<le> usage)
      in first_error
        [(reached (pq_daily_limit q) (pq_daily q), PlatformDailyExhausted),
         (reached (pq_weekly_limit q) (pq_weekly q), PlatformWeeklyExhausted),
         (reached (pq_monthly_limit q) (pq_monthly q), PlatformMonthlyExhausted)])"

text \<open>The cached entry is \<open>Hit\<close> when it has the current schema; the second result is what is written to the cache.\<close>

datatype cached_quota = Hit platform_quota | Miss | CacheFailed

definition no_quota :: "gotime \<Rightarrow> gotime \<Rightarrow> gotime \<Rightarrow> platform_quota" where
  "no_quota now day week = \<lparr>pq_daily = 0, pq_weekly = 0, pq_monthly = 0, pq_daily_limit = None, pq_weekly_limit = None,
     pq_monthly_limit = None, pq_daily_start = Some day, pq_weekly_start = Some week, pq_monthly_start = Some now\<rparr>"

definition check_user_platform_quota ::
  "gotime \<Rightarrow> gotime \<Rightarrow> gotime \<Rightarrow> cached_quota \<Rightarrow> platform_quota option answer \<Rightarrow> admission_error option \<times> platform_quota option" where
  "check_user_platform_quota now day week cached db =
     (case cached of
        Hit q \<Rightarrow>
          let expired = (quota_window_expired (pq_daily_start q) day \<or> quota_window_expired (pq_weekly_start q) week \<or>
                monthly_quota_window_expired (pq_monthly_start q) now);
              sentinel = (pq_daily_limit q = None \<and> pq_weekly_limit q = None \<and> pq_monthly_limit q = None)
          in (quota_verdict (current_usage now day week q),
              if expired \<and> \<not> sentinel then Some (refreshed_entry now day week q) else None)
      | _ \<Rightarrow>
          (case db of
             DbErr \<Rightarrow> (None, None)
           | DbOk None \<Rightarrow> (None, if cached = Miss then Some (no_quota now day week) else None)
           | DbOk (Some q) \<Rightarrow>
               (quota_verdict (current_usage now day week q), if cached = Miss then Some (current_usage now day week q) else None)))"

section \<open>All checks\<close>

record admission_config =
  ac_simple :: bool
  ac_simple_key_limits :: bool
  ac_minimum_reserve :: rat

text \<open>What the request brings and what the stores answer.\<close>

record admission_request =
  ar_key :: "api_key option"
  ar_group :: "group option"
  ar_subscribed :: bool
  ar_platform :: string
  ar_override :: "int option"
  ar_user_rpm :: int
  ar_balance :: "rat answer"
  ar_subscription :: "subscription_data load"
  ar_cached_quota :: cached_quota
  ar_quota :: "platform_quota option answer"
  ar_cached_rates :: "rate_limit_data option"
  ar_rates :: "rate_limit_data answer"
  ar_group_count :: "int answer"
  ar_user_count :: "int answer"

definition subscription_mode :: "admission_request \<Rightarrow> bool" where
  "subscription_mode q = (case ar_group q of None \<Rightarrow> False | Some g \<Rightarrow> is_subscription_type g \<and> ar_subscribed q)"

definition check_funds :: "admission_config \<Rightarrow> gotime \<Rightarrow> admission_request \<Rightarrow> breaker option \<Rightarrow> admission_error option \<times> breaker option" where
  "check_funds c now q ob =
     (if subscription_mode q then check_subscription_eligibility now (the (ar_group q)) (ar_subscription q) ob
      else if \<not> is_free_standard_group (ar_group q) then check_balance_eligibility now (ac_minimum_reserve c) (ar_balance q) ob
      else (None, ob))"

definition or_else :: "admission_error option \<Rightarrow> admission_error option \<Rightarrow> admission_error option" where
  "or_else a b = (case a of None \<Rightarrow> b | Some e \<Rightarrow> Some e)"

definition check_limits :: "gotime \<Rightarrow> gotime \<Rightarrow> gotime \<Rightarrow> admission_request \<Rightarrow> admission_error option" where
  "check_limits now day week q =
     or_else (if subscription_mode q \<or> ar_platform q = [] then None
              else fst (check_user_platform_quota now day week (ar_cached_quota q) (ar_quota q)))
     (or_else (case ar_key q of None \<Rightarrow> None
               | Some k \<Rightarrow> if has_rate_limits k then check_api_key_rate_limits_with_pending now k (ar_cached_rates q) (ar_rates q) 0 else None)
      (check_rpm (ar_override q) (ar_group q) (ar_user_rpm q) (ar_group_count q) (ar_user_count q)))"

definition check_billing_eligibility ::
  "admission_config \<Rightarrow> gotime \<Rightarrow> gotime \<Rightarrow> gotime \<Rightarrow> admission_request \<Rightarrow> breaker option \<Rightarrow> admission_error option \<times> breaker option" where
  "check_billing_eligibility c now day week q ob =
     (if ac_simple c then
        (if ac_simple_key_limits c then check_simple_mode_api_key_rate_limits now (ar_key q) (ar_rates q) else None, ob)
      else
        let (allowed, ob1) = (case ob of None \<Rightarrow> (True, None) | Some b \<Rightarrow> apsnd Some (breaker_allow now b))
        in if \<not> allowed then (Some BillingServiceUnavailable, ob1)
           else case check_funds c now q ob1 of
             (Some e, ob2) \<Rightarrow> (Some e, ob2)
           | (None, ob2) \<Rightarrow> (check_limits now day week q, ob2))"

end
