(* ===== verification/Admission_Breaker.thy ===== *)
theory Admission_Breaker
  imports Billing_Admission
begin

text \<open>
  What the check of billing eligibility guarantees: the cached quota of a platform decides like the database, the
  circuit breaker opens and recovers when the requests that probe it ask for funds, and does not
  recover when they do not.
\<close>

section \<open>The cached quota\<close>

lemma quota_window_mono: "quota_window_expired s a \<Longrightarrow> a \<le> b \<Longrightarrow> quota_window_expired s b"
  by (simp add: quota_window_expired_def split: option.splits)

lemma monthly_window_mono: "monthly_quota_window_expired s a \<Longrightarrow> a \<le> b \<Longrightarrow> monthly_quota_window_expired s b"
  by (simp add: monthly_quota_window_expired_def split: option.splits)

lemma current_usage_twice:
  assumes "now \<le> now'" "day \<le> day'" "week \<le> week'"
  shows "current_usage now' day' week' (current_usage now day week q) = current_usage now' day' week' q"
  using quota_window_mono [OF _ assms(2), of "pq_daily_start q"] quota_window_mono [OF _ assms(3), of "pq_weekly_start q"]
    monthly_window_mono [OF _ assms(1), of "pq_monthly_start q"]
  by (simp add: current_usage_def)

lemma refreshed_usage:
  assumes "now \<le> now'" "day \<le> day'" "week \<le> week'"
  shows "quota_verdict (current_usage now' day' week' (refreshed_entry now day week q)) = quota_verdict (current_usage now' day' week' q)"
proof -
  let ?e = "current_usage now' day' week' (refreshed_entry now day week q)" and ?q = "current_usage now' day' week' q"
  have "pq_daily ?e = pq_daily ?q" "pq_weekly ?e = pq_weekly ?q" "pq_monthly ?e = pq_monthly ?q"
    using quota_window_mono [OF _ assms(2), of "pq_daily_start q"] quota_window_mono [OF _ assms(3), of "pq_weekly_start q"]
      monthly_window_mono [OF _ assms(1), of "pq_monthly_start q"]
    by (simp_all add: current_usage_def refreshed_entry_def)
  moreover have "pq_daily_limit ?e = pq_daily_limit ?q" "pq_weekly_limit ?e = pq_weekly_limit ?q" "pq_monthly_limit ?e = pq_monthly_limit ?q"
    by (simp_all add: current_usage_def refreshed_entry_def)
  ultimately show ?thesis by (simp only: quota_verdict_def)
qed

text \<open>Whatever the check of a platform quota writes to the cache, from the database or from the entry it found, a later
  check that finds this entry decides as the database record would, whichever windows have ended in between.\<close>

theorem cached_quota_agrees:
  assumes "snd (check_user_platform_quota now day week cached (DbOk (Some q))) = Some entry"
    "cached = Miss \<or> cached = Hit q" "now \<le> now'" "day \<le> day'" "week \<le> week'"
  shows "fst (check_user_platform_quota now' day' week' (Hit entry) db) =
    fst (check_user_platform_quota now' day' week' CacheFailed (DbOk (Some q)))"
  using assms
  by (auto simp: check_user_platform_quota_def Let_def current_usage_twice refreshed_usage split: if_splits)

definition demo_quota :: platform_quota where
  "demo_quota = \<lparr>pq_daily = 5, pq_weekly = 20, pq_monthly = 60, pq_daily_limit = Some 5, pq_weekly_limit = None, pq_monthly_limit = Some 100,
     pq_daily_start = Some 0, pq_weekly_start = Some 0, pq_monthly_start = Some 0\<rparr>"

theorem cached_quota_agrees_witness:
  "fst (check_user_platform_quota (30 * Hour) (24 * Hour) 0 (Hit demo_quota) DbErr) = None \<and>
   fst (check_user_platform_quota (3 * Hour) 0 0 (Hit demo_quota) DbErr) = Some PlatformDailyExhausted"
proof -
  have "snd (check_user_platform_quota Hour 0 0 Miss (DbOk (Some demo_quota))) = Some demo_quota" by code_simp
  note agrees = cached_quota_agrees [OF this]
  have "fst (check_user_platform_quota (30 * Hour) (24 * Hour) 0 CacheFailed (DbOk (Some demo_quota))) = None"
    "fst (check_user_platform_quota (3 * Hour) 0 0 CacheFailed (DbOk (Some demo_quota))) = Some PlatformDailyExhausted" by code_simp+
  then show ?thesis using agrees [of "30 * Hour" "24 * Hour" 0 DbErr] agrees [of "3 * Hour" 0 0 DbErr] by simp
qed

section \<open>The circuit breaker\<close>

type_synonym moment = "gotime \<times> gotime \<times> gotime"

fun admit_all :: "admission_config \<Rightarrow> (moment \<times> admission_request) list \<Rightarrow> breaker option \<Rightarrow> admission_error option list \<times> breaker option" where
  "admit_all c [] ob = ([], ob)"
| "admit_all c (((now, day, week), q) # qs) ob =
     (case check_billing_eligibility c now day week q ob of (e, ob1) \<Rightarrow> apfst ((#) e) (admit_all c qs ob1))"

lemma admit_all_append: "admit_all c (xs @ ys) ob =
  (case admit_all c xs ob of (es, ob1) \<Rightarrow> apfst ((@) es) (admit_all c ys ob1))"
  by (induction c xs ob rule: admit_all.induct) (auto simp: apfst_def map_prod_def split: prod.splits)

lemma admit_all_snd: "snd (admit_all c (((now, day, week), q) # qs) ob) = snd (admit_all c qs (snd (check_billing_eligibility c now day week q ob)))"
  by (simp split: prod.splits)

definition wedged :: "breaker \<Rightarrow> bool" where
  "wedged b \<longleftrightarrow> cb_state b = BreakerHalfOpen \<and> cb_half_open_remaining b \<le> 0"

lemma wedged_refuses: "\<not> ac_simple c \<Longrightarrow> wedged b \<Longrightarrow>
  admit_all c qs (Some b) = (replicate (length qs) (Some BillingServiceUnavailable), Some b)"
  by (induction qs) (auto simp: check_billing_eligibility_def breaker_allow_def half_open_allow_def wedged_def)

text \<open>A request that is checked without a look at balance or subscription, or whose subscription is not found.\<close>

definition tells_nothing :: "admission_request \<Rightarrow> bool" where
  "tells_nothing q = (if subscription_mode q then ar_subscription q = NotFound else is_free_standard_group (ar_group q))"

lemma probe_keeps: "\<not> ac_simple c \<Longrightarrow> tells_nothing q \<Longrightarrow> breaker_allow now b = (True, b1) \<Longrightarrow>
  snd (check_billing_eligibility c now day week q (Some b)) = Some b1"
  by (auto simp: check_billing_eligibility_def check_funds_def tells_nothing_def check_subscription_eligibility_def split: option.splits if_splits)

lemma half_open_probes:
  "\<not> ac_simple c \<Longrightarrow> cb_state b = BreakerHalfOpen \<Longrightarrow> \<forall>(m, q) \<in> set probes. tells_nothing q \<Longrightarrow>
   int (length probes) = cb_half_open_remaining b \<Longrightarrow> \<exists>b1. snd (admit_all c probes (Some b)) = Some b1 \<and> wedged b1"
proof (induction probes arbitrary: b)
  case (Cons p probes)
  obtain now day week q where p: "p = ((now, day, week), q)" by (metis prod.exhaust)
  let ?b = "b\<lparr>cb_half_open_remaining := cb_half_open_remaining b - 1\<rparr>"
  have "breaker_allow now b = (True, ?b)" using Cons.prems by (auto simp: breaker_allow_def half_open_allow_def)
  from probe_keeps [OF Cons.prems(1) _ this, of q day week] Cons.prems(3)
  have "snd (check_billing_eligibility c now day week q (Some b)) = Some ?b" by (simp add: p)
  moreover have "\<exists>b1. snd (admit_all c probes (Some ?b)) = Some b1 \<and> wedged b1" using Cons.prems by (intro Cons.IH) auto
  ultimately show ?case by (simp add: p admit_all_snd del: admit_all.simps)
qed (auto simp: wedged_def)

text \<open>After the time-out of the open circuit breaker, if the requests it lets through to probe are for free groups or find
  no subscription, the breaker never decides again: every later request is refused as if the billing service were
  down, at any time and whatever the stores answer.\<close>

theorem free_probes_wedge_breaker:
  assumes "\<not> ac_simple c" "cb_state b = BreakerOpen" "0 < cb_half_open_requests b"
    "\<forall>((now, day, week), q) \<in> set probes. cb_opened_at b + cb_reset_timeout b \<le> now \<and> tells_nothing q"
    "int (length probes) = cb_half_open_requests b"
  shows "fst (admit_all c (probes @ later) (Some b)) =
    fst (admit_all c probes (Some b)) @ replicate (length later) (Some BillingServiceUnavailable)"
proof -
  obtain now day week q rest where p: "probes = ((now, day, week), q) # rest"
    using assms(3,5) by (cases probes) auto
  let ?b = "b\<lparr>cb_state := BreakerHalfOpen, cb_half_open_remaining := cb_half_open_requests b - 1\<rparr>"
  have "breaker_allow now b = (True, ?b)" using assms(2-4) by (auto simp: p breaker_allow_def half_open_allow_def)
  from probe_keeps [OF assms(1) _ this, of q day week] assms(4)
  have one: "snd (check_billing_eligibility c now day week q (Some b)) = Some ?b" by (simp add: p)
  have "\<exists>b1. snd (admit_all c rest (Some ?b)) = Some b1 \<and> wedged b1"
    using assms(1,4,5) by (intro half_open_probes) (auto simp: p)
  with one obtain b1 where "snd (admit_all c probes (Some b)) = Some b1" "wedged b1"
    by (auto simp: p admit_all_snd simp del: admit_all.simps)
  then show ?thesis using wedged_refuses [OF assms(1)] by (auto simp: admit_all_append split: prod.splits)
qed

definition free_group :: group where
  "free_group = \<lparr>gp_id = 1, gp_type = ''standard'', gp_rate = 0, gp_image_independent = False, gp_video_independent = False,
     gp_daily = None, gp_weekly = None, gp_monthly = None, gp_rpm = 0\<rparr>"

definition demo_request :: "group option \<Rightarrow> rat answer \<Rightarrow> admission_request" where
  "demo_request g balance = \<lparr>ar_key = None, ar_group = g, ar_subscribed = False, ar_platform = [], ar_override = None, ar_user_rpm = 0,
     ar_balance = balance, ar_subscription = NotFound, ar_cached_quota = Miss, ar_quota = DbErr, ar_cached_rates = None, ar_rates = DbErr,
     ar_group_count = DbErr, ar_user_count = DbErr\<rparr>"

definition demo_config :: admission_config where
  "demo_config = \<lparr>ac_simple = False, ac_simple_key_limits = False, ac_minimum_reserve = 0\<rparr>"

definition open_breaker :: breaker where
  "open_breaker = breaker_on_failure 0 (the (new_billing_circuit_breaker True 30 1 1))"

text \<open>A day later a user with money is refused.\<close>

theorem free_probes_wedge_breaker_witness:
  "fst (admit_all demo_config [((30 * Second, 0, 0), demo_request (Some free_group) DbErr), ((24 * Hour, 0, 0), demo_request None (DbOk 100))]
     (Some open_breaker)) = [None, Some BillingServiceUnavailable]"
proof -
  let ?probe = "((30 * Second, 0, 0), demo_request (Some free_group) DbErr)"
  have "fst (admit_all demo_config [?probe] (Some open_breaker)) = [None]" by code_simp
  moreover have "cb_state open_breaker = BreakerOpen" "cb_half_open_requests open_breaker = 1"
    "cb_opened_at open_breaker + cb_reset_timeout open_breaker = 30 * Second" "\<not> ac_simple demo_config"
    "tells_nothing (demo_request (Some free_group) DbErr)" by code_simp+
  ultimately show ?thesis
    using free_probes_wedge_breaker [of demo_config open_breaker "[?probe]" "[((24 * Hour, 0, 0), demo_request None (DbOk 100))]"] by simp
qed

fun fail_times :: "gotime \<Rightarrow> nat \<Rightarrow> breaker \<Rightarrow> breaker" where
  "fail_times now 0 b = b"
| "fail_times now (Suc n) b = fail_times now n (breaker_on_failure now b)"

lemma fail_below: "cb_state b = BreakerClosed \<Longrightarrow> cb_failures b + int n < cb_threshold b \<Longrightarrow>
  fail_times now n b = b\<lparr>cb_failures := cb_failures b + int n\<rparr>"
  by (induction n arbitrary: b) (auto simp: breaker_on_failure_def Let_def)

text \<open>As many failures as the threshold open the breaker.\<close>

lemma fail_opens:
  assumes "cb_state b = BreakerClosed" "cb_failures b + int (Suc n) = cb_threshold b"
  shows "fail_times now (Suc n) b =
    b\<lparr>cb_state := BreakerOpen, cb_failures := cb_threshold b, cb_opened_at := now, cb_half_open_remaining := 0\<rparr>"
  using assms
proof (induction n arbitrary: b)
  case (Suc n)
  then have "breaker_on_failure now b = b\<lparr>cb_failures := cb_failures b + 1\<rparr>" by (simp add: breaker_on_failure_def Let_def)
  with Suc.IH [of "b\<lparr>cb_failures := cb_failures b + 1\<rparr>"] Suc.prems show ?case by simp
qed (simp add: breaker_on_failure_def Let_def)

text \<open>After as many failures as its threshold the breaker refuses every request until its time-out; the first request
  after it that reads a balance or a subscription closes it again, and the one that cannot opens it anew.\<close>

theorem breaker_opens_and_recovers:
  assumes "\<not> ac_simple c" "cb_state b = BreakerClosed" "cb_failures b + int (Suc n) = cb_threshold b" "0 < cb_half_open_requests b"
    "\<not> tells_nothing q" "b1 = fail_times t (Suc n) b"
  shows "(now < t + cb_reset_timeout b \<longrightarrow>
      check_billing_eligibility c now day week q (Some b1) = (Some BillingServiceUnavailable, Some b1)) \<and>
    (t + cb_reset_timeout b \<le> now \<longrightarrow>
      cb_state (the (snd (check_billing_eligibility c now day week q (Some b1)))) =
        (if (if subscription_mode q then ar_subscription q = LoadFailed else ar_balance q = DbErr) then BreakerOpen else BreakerClosed))"
proof -
  have b1: "b1 = b\<lparr>cb_state := BreakerOpen, cb_failures := cb_threshold b, cb_opened_at := t, cb_half_open_remaining := 0\<rparr>"
    unfolding assms(6) using assms(2,3) by (rule fail_opens)
  have "breaker_allow now b1 = (False, b1)" if "now < t + cb_reset_timeout b" using that by (simp add: breaker_allow_def b1)
  moreover have "breaker_allow now b1 = (True, b1\<lparr>cb_state := BreakerHalfOpen, cb_half_open_remaining := cb_half_open_requests b - 1\<rparr>)"
    if "t + cb_reset_timeout b \<le> now" using assms(4) that by (simp add: b1 breaker_allow_def half_open_allow_def)
  ultimately show ?thesis
    using assms(1,5)
    by (cases "subscription_mode q")
      (auto simp: check_billing_eligibility_def check_funds_def tells_nothing_def check_subscription_eligibility_def
        check_balance_eligibility_def breaker_on_failure_def breaker_on_success_def split: load.splits answer.splits option.splits)
qed

theorem breaker_opens_and_recovers_witness:
  "check_billing_eligibility demo_config (29 * Second) 0 0 (demo_request None (DbOk 7)) (Some open_breaker) =
     (Some BillingServiceUnavailable, Some open_breaker) \<and>
   cb_state (the (snd (check_billing_eligibility demo_config (30 * Second) 0 0 (demo_request None (DbOk 7)) (Some open_breaker)))) = BreakerClosed"
proof -
  let ?b = "the (new_billing_circuit_breaker True 30 1 1)"
  have "\<not> ac_simple demo_config" "cb_state ?b = BreakerClosed" "cb_failures ?b + int (Suc 0) = cb_threshold ?b"
    "0 < cb_half_open_requests ?b" "\<not> tells_nothing (demo_request None (DbOk 7))" by code_simp+
  note facts = breaker_opens_and_recovers [OF this refl, where t = 0]
  have "fail_times 0 (Suc 0) ?b = open_breaker" "cb_reset_timeout ?b = 30 * Second" "\<not> subscription_mode (demo_request None (DbOk 7))"
    "ar_balance (demo_request None (DbOk 7)) \<noteq> DbErr" by code_simp+
  then show ?thesis using facts [of "29 * Second" 0 0] facts [of "30 * Second" 0 0] by simp
qed

end
