(* ===== verification/Inflight_Cache.thy ===== *)
theory Inflight_Cache
  imports Redis_Store
begin

text \<open>
  The reservations of balances in Redis, \<open>repository/billing_inflight_cache.go\<close>. A request whose cost
  is only known at its end reserves an estimate beforehand: a sorted set scored with the time the
  reservation ends, in milliseconds of the process's clock, and a hash of the amounts. Each script is one
  function of the store. Amounts are exact rationals; the code's are \<open>float64\<close>.
\<close>

section \<open>Scripts\<close>

definition clean_inflight :: "redis_key \<Rightarrow> redis_key \<Rightarrow> int \<Rightarrow> redis \<Rightarrow> redis" where
  "clean_inflight zkey hkey now r =
     (let expired = zrange_upto zkey now r
      in if expired = [] then r else fold (hdel hkey) expired (zrem_upto zkey now r))"

definition put_reservation :: "redis_key \<Rightarrow> redis_key \<Rightarrow> int \<Rightarrow> string \<Rightarrow> rat \<Rightarrow> int \<Rightarrow> redis \<Rightarrow> redis" where
  "put_reservation zkey hkey expire_at m amount ttl r =
     hpexpire hkey ttl (zpexpire zkey ttl (hset hkey m amount (zadd zkey expire_at m r)))"

text \<open>The first reservation of a user passes whatever its amount; the answer has the sum of the others.\<close>

definition reserve_inflight_balance_script ::
  "redis_key \<Rightarrow> redis_key \<Rightarrow> int \<Rightarrow> int \<Rightarrow> string \<Rightarrow> rat \<Rightarrow> rat \<Rightarrow> int \<Rightarrow> redis \<Rightarrow> (bool \<times> rat) \<times> redis" where
  "reserve_inflight_balance_script zkey hkey now expire_at m amount balance ttl r =
     (let r1 = clean_inflight zkey hkey now r;
          total = sum_list (hvals hkey r1)
      in if zcard zkey r1 > 0 \<and> balance - total < amount then ((False, total), r1)
         else ((True, total), put_reservation zkey hkey expire_at m amount ttl r1))"

definition reserve_inflight_scope_script ::
  "redis_key \<Rightarrow> redis_key \<Rightarrow> int \<Rightarrow> int \<Rightarrow> string \<Rightarrow> rat \<Rightarrow> int \<Rightarrow> redis \<Rightarrow> rat \<times> redis" where
  "reserve_inflight_scope_script zkey hkey now expire_at m amount ttl r =
     (let r1 = clean_inflight zkey hkey now r
      in (sum_list (hvals hkey r1), put_reservation zkey hkey expire_at m amount ttl r1))"

definition renew_inflight_balance_script ::
  "redis_key \<Rightarrow> redis_key \<Rightarrow> string \<Rightarrow> int \<Rightarrow> int \<Rightarrow> int \<Rightarrow> redis \<Rightarrow> bool \<times> redis" where
  "renew_inflight_balance_script zkey hkey m expire_at ttl now r =
     (case zscore zkey m r of
        None \<Rightarrow> (False, r)
      | Some score \<Rightarrow>
          if score \<le> now then (False, hdel hkey m (zrem zkey m r))
          else let r1 = zadd zkey expire_at m r;
                   r2 = (if zpttl zkey r1 < ttl then zpexpire zkey ttl r1 else r1)
               in (True, if hpttl hkey r2 < ttl then hpexpire hkey ttl r2 else r2))"

definition release_inflight_balance_script :: "redis_key \<Rightarrow> redis_key \<Rightarrow> string \<Rightarrow> redis \<Rightarrow> unit \<times> redis" where
  "release_inflight_balance_script zkey hkey m r = ((), hdel hkey m (zrem zkey m r))"

section \<open>The cache\<close>

definition ttl_ms :: "duration \<Rightarrow> int" where
  "ttl_ms ttl = (let ms = go_div ttl Millisecond in if ms \<le> 0 then 1 else ms)"

text \<open>\<open>now\<close> is the clock of the process in milliseconds.\<close>

definition reserve_inflight_balance ::
  "int \<Rightarrow> string \<Rightarrow> rat \<Rightarrow> rat \<Rightarrow> duration \<Rightarrow> int \<Rightarrow> redis \<Rightarrow> (bool \<times> rat) \<times> redis" where
  "reserve_inflight_balance uid rid amount balance ttl now =
     reserve_inflight_balance_script (InflightSet uid) (InflightAmounts uid) now (now + ttl_ms ttl) rid amount balance (ttl_ms ttl)"

definition release_inflight_balance :: "int \<Rightarrow> string \<Rightarrow> redis \<Rightarrow> unit \<times> redis" where
  "release_inflight_balance uid rid = release_inflight_balance_script (InflightSet uid) (InflightAmounts uid) rid"

definition renew_inflight_balance :: "int \<Rightarrow> string \<Rightarrow> duration \<Rightarrow> int \<Rightarrow> redis \<Rightarrow> bool \<times> redis" where
  "renew_inflight_balance uid rid ttl now =
     renew_inflight_balance_script (InflightSet uid) (InflightAmounts uid) rid (now + ttl_ms ttl) (ttl_ms ttl) now"

definition reserve_inflight_scope :: "string \<Rightarrow> string \<Rightarrow> rat \<Rightarrow> duration \<Rightarrow> int \<Rightarrow> redis \<Rightarrow> rat \<times> redis" where
  "reserve_inflight_scope scope rid amount ttl now =
     reserve_inflight_scope_script (ScopeSet scope) (ScopeAmounts scope) now (now + ttl_ms ttl) rid amount (ttl_ms ttl)"

definition release_inflight_scope :: "string \<Rightarrow> string \<Rightarrow> redis \<Rightarrow> unit \<times> redis" where
  "release_inflight_scope scope rid = release_inflight_balance_script (ScopeSet scope) (ScopeAmounts scope) rid"

section \<open>The table of reservations\<close>

text \<open>
  A reservation is good until its time. The set and the hash agree, and both outlive every reservation
  when all are made for the same time \<open>ttl\<close> with the server's clock.
\<close>

definition reservations :: "redis_key \<Rightarrow> redis_key \<Rightarrow> redis \<Rightarrow> string \<rightharpoonup> int \<times> rat" where
  "reservations zkey hkey r m =
     (case scores zkey r m of None \<Rightarrow> None | Some e \<Rightarrow> if rd_now r < e then map_option (Pair e) (amounts hkey r m) else None)"

definition reserved :: "redis_key \<Rightarrow> redis_key \<Rightarrow> redis \<Rightarrow> rat" where
  "reserved zkey hkey r = (\<Sum>m \<in> dom (reservations zkey hkey r). snd (the (reservations zkey hkey r m)))"

definition zexp :: "redis_key \<Rightarrow> redis \<Rightarrow> int option" where "zexp k r = zs_expire (zset_at k r)"
definition hexp :: "redis_key \<Rightarrow> redis \<Rightarrow> int option" where "hexp k r = hs_expire (hash_at k r)"

definition inflight_ok :: "int \<Rightarrow> redis_key \<Rightarrow> redis_key \<Rightarrow> redis \<Rightarrow> bool" where
  "inflight_ok ttl zkey hkey r \<longleftrightarrow>
     redis_ok r \<and> hashes_ok r \<and> dom (scores zkey r) = dom (amounts hkey r) \<and>
     zexp zkey r = hexp hkey r \<and>
     (\<forall>e \<in> ran (scores zkey r). e \<le> rd_now r + ttl \<and> (\<exists>t. zexp zkey r = Some t \<and> e \<le> t))"

end
