(* ===== verification/Inflight_Service.thy ===== *)
theory Inflight_Service
  imports Inflight_Cache Billing_Admission
begin

text \<open>
  Reservations of the service, \<open>service/billing_inflight_reservation.go\<close>, and the admission of charges
  whose amount is known beforehand, \<open>ReserveFixedCharge\<close> in \<open>service/billing_cache_service.go\<close>. The
  balances and usages are what the service's reads return; the clocks of the processes agree with the
  store's. The estimate of a request's cost is an argument.
\<close>

section \<open>Reservations\<close>

record inflight_config =
  ic_enabled :: bool
  ic_simple :: bool
  ic_ttl_seconds :: int
  ic_max_reservation :: rat

definition defaultInflightReservationTTL :: duration where "defaultInflightReservationTTL = 15 * Minute"

definition inflight_ttl :: "inflight_config \<Rightarrow> duration" where
  "inflight_ttl c = (if ic_ttl_seconds c > 0 then ic_ttl_seconds c * Second else defaultInflightReservationTTL)"

definition inflight_reservation_enabled :: "inflight_config \<Rightarrow> bool" where
  "inflight_reservation_enabled c \<longleftrightarrow> ic_enabled c \<and> \<not> ic_simple c"

text \<open>
  A handle counts references: one of the handler, one of each billing task. \<open>ir_tasks\<close> says of each task
  whether its reference is still out, \<open>ir_done\<close> whether the handler has returned, \<open>ir_balance\<close>
  whether the balance is reserved too.
\<close>

record inflight_reservation =
  ir_balance :: bool
  ir_user :: int
  ir_request :: string
  ir_amount :: rat
  ir_ttl :: duration
  ir_scopes :: "string list"
  ir_refs :: int
  ir_tasks :: "bool list"
  ir_done :: bool
  ir_released :: bool

definition new_reservation :: "bool \<Rightarrow> int \<Rightarrow> string \<Rightarrow> rat \<Rightarrow> duration \<Rightarrow> inflight_reservation" where
  "new_reservation bal uid rid amount ttl =
     \<lparr>ir_balance = bal, ir_user = uid, ir_request = rid, ir_amount = amount, ir_ttl = ttl, ir_scopes = [],
      ir_refs = 1, ir_tasks = [], ir_done = False, ir_released = False\<rparr>"

section \<open>References\<close>

text \<open>The number of the task that now holds a reference, if the reservation is still held.\<close>

definition acquire_ref :: "inflight_reservation \<Rightarrow> nat option \<times> inflight_reservation" where
  "acquire_ref r =
     (if ir_refs r \<le> 0 then (None, r)
      else (Some (length (ir_tasks r)), r\<lparr>ir_refs := ir_refs r + 1, ir_tasks := ir_tasks r @ [True]\<rparr>))"

definition release_ref :: "inflight_reservation \<Rightarrow> inflight_reservation" where
  "release_ref r = (if ir_released r then r else r\<lparr>ir_released := True, ir_refs := 0\<rparr>)"

definition dec_ref :: "inflight_reservation \<Rightarrow> inflight_reservation" where
  "dec_ref r = (let r1 = r\<lparr>ir_refs := ir_refs r - 1\<rparr> in if ir_refs r1 \<le> 0 then release_ref r1 else r1)"

definition task_done :: "nat \<Rightarrow> inflight_reservation \<Rightarrow> inflight_reservation" where
  "task_done i r = (if i < length (ir_tasks r) \<and> ir_tasks r ! i then dec_ref (r\<lparr>ir_tasks := (ir_tasks r)[i := False]\<rparr>) else r)"

definition handler_done :: "inflight_reservation \<Rightarrow> inflight_reservation" where
  "handler_done r = (if ir_done r then r else dec_ref (r\<lparr>ir_done := True\<rparr>))"

section \<open>The stores\<close>

record funds =
  fu_redis :: redis
  fu_balance :: "int \<Rightarrow> rat"
  fu_subs :: "int \<times> int \<Rightarrow> subscription_data option"
  fu_keys :: "int \<Rightarrow> rate_limit_data"

type_synonym funds_world = "funds world"

text \<open>A script gets the time of the store.\<close>

definition on_redis :: "(int \<Rightarrow> redis \<Rightarrow> 'a \<times> redis) \<Rightarrow> funds \<Rightarrow> 'a \<times> funds" where
  "on_redis f db = (case f (rd_now (fu_redis db)) (fu_redis db) of (x, r) \<Rightarrow> (x, db\<lparr>fu_redis := r\<rparr>))"

definition read_funds :: "(funds \<Rightarrow> 'a) \<Rightarrow> funds \<Rightarrow> 'a \<times> funds" where
  "read_funds f db = (f db, db)"

text \<open>What a reservation that ends does in the store; a failure leaves the entry to its time to live.\<close>

definition release_reservation :: "inflight_reservation \<Rightarrow> funds_world \<Rightarrow> funds_world" where
  "release_reservation r w =
     (let w1 = (if ir_balance r then snd (call (on_redis (\<lambda>_. release_inflight_balance (ir_user r) (ir_request r))) w) else w)
      in fold (\<lambda>scope v. snd (call (on_redis (\<lambda>_. release_inflight_scope scope (ir_request r))) v)) (ir_scopes r) w1)"

definition renew_reservation :: "inflight_reservation \<Rightarrow> funds_world \<Rightarrow> bool answer \<times> funds_world" where
  "renew_reservation r w = call (on_redis (renew_inflight_balance (ir_user r) (ir_request r) (ir_ttl r))) w"

section \<open>Reserving\<close>

definition subscription_bill :: "group option \<Rightarrow> int option \<Rightarrow> bool" where
  "subscription_bill og sub = (case og of None \<Rightarrow> False | Some g \<Rightarrow> is_subscription_type g \<and> sub \<noteq> None)"

definition cap_estimate :: "inflight_config \<Rightarrow> bool \<Rightarrow> f64 \<Rightarrow> f64" where
  "cap_estimate c capped estimate =
     (if capped \<and> 0 < ic_max_reservation c \<and> f_lt (Fin (ic_max_reservation c)) estimate then Fin (ic_max_reservation c) else estimate)"

text \<open>The amount to reserve: none for what is not a positive number.\<close>

definition positive :: "f64 \<Rightarrow> rat option" where
  "positive x = (case x of Fin a \<Rightarrow> if 0 < a then Some a else None | _ \<Rightarrow> None)"

text \<open>
  Without an error and without a reservation the request passes unreserved: reservations are off, the
  request is paid by subscription, nothing is to be reserved, or a store failed. \<open>rid\<close> is the new request id.
\<close>

definition reserve_inflight ::
  "inflight_config \<Rightarrow> int option \<Rightarrow> group option \<Rightarrow> int option \<Rightarrow> f64 \<Rightarrow> bool \<Rightarrow> string \<Rightarrow> funds_world \<Rightarrow>
   (admission_error + inflight_reservation option) \<times> funds_world" where
  "reserve_inflight c user og sub estimate capped rid w =
     (case (user, positive (cap_estimate c capped estimate)) of
        (Some uid, Some amount) \<Rightarrow>
          if \<not> inflight_reservation_enabled c \<or> subscription_bill og sub then (Inr None, w)
          else (case call (read_funds (\<lambda>db. fu_balance db uid)) w of
              (DbErr, w1) \<Rightarrow> (Inr None, w1)
            | (DbOk balance, w1) \<Rightarrow>
                (case call (on_redis (reserve_inflight_balance uid rid amount balance (inflight_ttl c))) w1 of
                   (DbErr, w2) \<Rightarrow> (Inr None, w2)
                 | (DbOk (allowed, others), w2) \<Rightarrow>
                     (if allowed then Inr (Some (new_reservation True uid rid amount (inflight_ttl c))) else Inl InsufficientBalance, w2)))
      | _ \<Rightarrow> (Inr None, w))"

definition inflight_subscription_scope :: "int \<Rightarrow> string" where
  "inflight_subscription_scope i = ''sub:'' @ show_int i"

definition inflight_api_key_scope :: "int \<Rightarrow> string" where
  "inflight_api_key_scope i = ''apikey:'' @ show_int i"

text \<open>The handle and the sum of what others have reserved in the scope; nothing when the store fails.\<close>

definition reserve_scope ::
  "inflight_config \<Rightarrow> inflight_reservation option \<Rightarrow> int \<Rightarrow> string \<Rightarrow> rat \<Rightarrow> string \<Rightarrow> funds_world \<Rightarrow>
   (inflight_reservation option \<times> rat) \<times> funds_world" where
  "reserve_scope c res uid scope amount rid w =
     (if \<not> inflight_reservation_enabled c then ((res, 0), w)
      else let r = (case res of Some r \<Rightarrow> r | None \<Rightarrow> new_reservation False uid rid amount (inflight_ttl c)) in
        case call (on_redis (reserve_inflight_scope scope (ir_request r) amount (ir_ttl r))) w of
          (DbErr, w1) \<Rightarrow> ((Some r, 0), w1)
        | (DbOk pending, w1) \<Rightarrow> ((Some (r\<lparr>ir_scopes := ir_scopes r @ [scope]\<rparr>), pending), w1))"

section \<open>Charges that are known beforehand\<close>

definition check_fixed_charge_subscription :: "group \<Rightarrow> rat \<Rightarrow> subscription_data option \<Rightarrow> admission_error option" where
  "check_fixed_charge_subscription g pending sub =
     (case sub of
        None \<Rightarrow> Some BillingServiceUnavailable
      | Some d \<Rightarrow> first_error
          [(limit_reached (\<lambda>l. l < sd_daily d + pending) (gp_daily g), DailyLimitExceeded),
           (limit_reached (\<lambda>l. l < sd_weekly d + pending) (gp_weekly g), WeeklyLimitExceeded),
           (limit_reached (\<lambda>l. l < sd_monthly d + pending) (gp_monthly g), MonthlyLimitExceeded)])"

definition check_fixed_charge_api_key :: "gotime \<Rightarrow> api_key \<Rightarrow> rate_limit_data \<Rightarrow> rat \<Rightarrow> admission_error option" where
  "check_fixed_charge_api_key clock k d pending =
     (let exceeds = (\<lambda>usage limit. 0 < limit \<and> limit < usage + pending)
      in first_error
        [(exceeds (rl_quota_used d) (ak_quota k), KeyQuotaExhausted),
         (exceeds (effective_usage5h clock d) (ak_limit5h k), KeyLimit5hExceeded),
         (exceeds (effective_usage1d clock d) (ak_limit1d k), KeyLimit1dExceeded),
         (exceeds (effective_usage7d clock d) (ak_limit7d k), KeyLimit7dExceeded)])"

definition has_key_limits :: "api_key \<Rightarrow> bool" where
  "has_key_limits k \<longleftrightarrow> 0 < ak_quota k \<or> has_rate_limits k"

text \<open>The reads of the usages come after the reservations.\<close>

definition check_fixed_charge ::
  "gotime \<Rightarrow> int \<Rightarrow> group option \<Rightarrow> bool \<Rightarrow> api_key option \<Rightarrow> rat \<Rightarrow> rat \<Rightarrow> rat \<Rightarrow> funds_world \<Rightarrow> admission_error option \<times> funds_world" where
  "check_fixed_charge clock uid og by_subscription ok amount sub_pending key_pending w =
     (let (e, w1) = (case og of
            Some g \<Rightarrow> if by_subscription
              then (case call (read_funds (\<lambda>db. fu_subs db (uid, gp_id g))) w of
                      (DbErr, v) \<Rightarrow> (Some BillingServiceUnavailable, v)
                    | (DbOk d, v) \<Rightarrow> (check_fixed_charge_subscription g (amount + sub_pending) d, v))
              else (None, w)
          | None \<Rightarrow> (None, w))
      in case (e, ok) of
           (None, Some k) \<Rightarrow>
             if \<not> has_key_limits k then (None, w1)
             else (case call (read_funds (\<lambda>db. fu_keys db (ak_id k))) w1 of
                 (DbErr, w2) \<Rightarrow> (Some BillingServiceUnavailable, w2)
               | (DbOk d, w2) \<Rightarrow> (check_fixed_charge_api_key clock k d (amount + key_pending), w2))
         | _ \<Rightarrow> (e, w1))"

definition check_fixed_balance :: "bool \<Rightarrow> int \<Rightarrow> rat \<Rightarrow> funds_world \<Rightarrow> admission_error option \<times> funds_world" where
  "check_fixed_balance by_subscription uid amount w =
     (if by_subscription then (None, w)
      else (case call (read_funds (\<lambda>db. fu_balance db uid)) w of
          (DbErr, w1) \<Rightarrow> (Some BillingServiceUnavailable, w1)
        | (DbOk balance, w1) \<Rightarrow> (if balance < amount then Some InsufficientBalance else None, w1)))"

definition reserve_fixed_charge ::
  "inflight_config \<Rightarrow> gotime \<Rightarrow> int option \<Rightarrow> api_key option \<Rightarrow> group option \<Rightarrow> int option \<Rightarrow> f64 \<Rightarrow> string \<Rightarrow> funds_world \<Rightarrow>
   (admission_error + inflight_reservation option) \<times> funds_world" where
  "reserve_fixed_charge c clock user ok og sub amount rid w =
     (case (user, positive amount) of
        (Some uid, Some a) \<Rightarrow>
          if ic_simple c then (Inr None, w)
          else let by_sub = subscription_bill og sub;
                   sub_limited = (case og of None \<Rightarrow> False | Some g \<Rightarrow> has_limit (gp_daily g) \<or> has_limit (gp_weekly g) \<or> has_limit (gp_monthly g))
               in (case check_fixed_balance by_sub uid a w of
              (Some e, w1) \<Rightarrow> (Inl e, w1)
            | (None, w1) \<Rightarrow>
                (case reserve_inflight c user og sub (Fin a) False rid w1 of
                   (Inl e, w2) \<Rightarrow> (Inl e, w2)
                 | (Inr res, w2) \<Rightarrow>
                     let ((res1, sub_pending), w3) = (if by_sub \<and> sub_limited
                            then reserve_scope c res uid (inflight_subscription_scope (the sub)) a rid w2 else ((res, 0), w2));
                         ((res2, key_pending), w4) = (case ok of
                              Some k \<Rightarrow> if has_key_limits k
                                then reserve_scope c res1 uid (inflight_api_key_scope (ak_id k)) a rid w3 else ((res1, 0), w3)
                            | None \<Rightarrow> ((res1, 0), w3))
                     in (case check_fixed_charge clock uid og by_sub ok a sub_pending key_pending w4 of
                           (None, w5) \<Rightarrow> (Inr res2, w5)
                         | (Some e, w5) \<Rightarrow> (Inl e, case res2 of None \<Rightarrow> w5 | Some r \<Rightarrow> release_reservation r w5))))
      | _ \<Rightarrow> (Inr None, w))"

end
