(* ===== verification/Inflight_Table.thy ===== *)
theory Inflight_Table
  imports Inflight_Cache
begin

text \<open>
  Each script of the reservations of balances on the table of reservations: cleaning does not show, a
  reservation is added, renewed or removed, and the sum that is compared with the balance is the sum of the table.
\<close>

section \<open>Times to live\<close>

lemma scores_None: "scores k r = Map.empty \<longleftrightarrow> zs_members (zset_at k r) = []"
  by (simp add: scores_def)

lemma amounts_None: "amounts k r = Map.empty \<longleftrightarrow> hs_fields (hash_at k r) = []"
  by (simp add: amounts_def)

lemma exp_empty:
  "redis_ok r \<Longrightarrow> scores k r = Map.empty \<Longrightarrow> zexp k r = None" "hashes_ok r \<Longrightarrow> amounts k r = Map.empty \<Longrightarrow> hexp k r = None"
  using zset_at_ok [of r k] hash_at_ok [of r k] by (simp_all add: zexp_def hexp_def scores_None amounts_None zset_ok_def hash_ok_def)

lemma delete_empty: "AList.delete m xs = [] \<longleftrightarrow> dom (map_of xs) \<subseteq> {m}"
  by (auto simp: AList.delete_eq filter_empty_conv dom_map_of_conv_image_fst)

lemma update_nonempty [simp]: "AList.update k v xs \<noteq> []"
  by (cases xs) auto

lemma zexp_cmds [redis_simps]:
  "zexp k' (zadd k s m r) = zexp k' r" "zexp k' (zrem k m r) = (if k' = k \<and> dom (scores k r) \<subseteq> {m} then None else zexp k' r)"
  "0 < t \<Longrightarrow> zexp k' (zpexpire k t r) = (if k' = k then if scores k r = Map.empty then None else Some (rd_now r + t) else zexp k' r)"
  "zexp k' (hset q f v r) = zexp k' r" "zexp k' (hdel q f r) = zexp k' r" "zexp k' (hpexpire q t r) = zexp k' r"
  using zset_at_live [of r k]
  by (auto simp: zexp_def zadd_def zrem_def zpexpire_def hash_defs Let_def zset_at_put delete_empty redis_simps scores_None key_gone_def
      simp flip: scores_def)

lemma hexp_cmds [redis_simps]:
  "hexp k' (hset k m v r) = hexp k' r" "hexp k' (hdel k m r) = (if k' = k \<and> dom (amounts k r) \<subseteq> {m} then None else hexp k' r)"
  "0 < t \<Longrightarrow> hexp k' (hpexpire k t r) = (if k' = k then if amounts k r = Map.empty then None else Some (rd_now r + t) else hexp k' r)"
  "hexp k' (zadd q s m r) = hexp k' r" "hexp k' (zrem q m r) = hexp k' r" "hexp k' (zrem_upto q b r) = hexp k' r"
  "hexp k' (zpexpire q t r) = hexp k' r"
  using hash_at_live [of r k]
  by (auto simp: hexp_def hash_defs all_zset_defs Let_def hash_at_put delete_empty redis_simps amounts_None key_gone_def
      simp flip: amounts_def)

lemma zexp_zrem_upto [redis_simps]:
  "redis_ok r \<Longrightarrow> zexp k' (zrem_upto k b r) = (if k' = k \<and> (\<forall>e \<in> ran (scores k r). e \<le> b) then None else zexp k' r)"
proof -
  assume ok: "redis_ok r"
  have "(filter (\<lambda>(m, s). b < s) (zs_members (zset_at k r)) = []) \<longleftrightarrow> (\<forall>e \<in> ran (scores k r). e \<le> b)"
    using zset_at_ok [OF ok, of k] by (fastforce simp: filter_empty_conv ran_def scores_def zset_ok_def map_of_eq_Some_iff)
  then show ?thesis
    using zset_at_live [of r k] by (auto simp: zexp_def zrem_upto_def Let_def zset_at_put)
qed

lemma fold_hdel:
  "hashes_ok r \<Longrightarrow> hashes_ok (fold (hdel k) ms r) \<and> rd_now (fold (hdel k) ms r) = rd_now r \<and> redis_ok (fold (hdel k) ms r) = redis_ok r \<and>
   scores q (fold (hdel k) ms r) = scores q r \<and> zexp q (fold (hdel k) ms r) = zexp q r \<and>
   amounts q (fold (hdel k) ms r) = (if q = k then amounts k r |` (- set ms) else amounts q r) \<and>
   hexp q (fold (hdel k) ms r) = (if q = k \<and> dom (amounts k r) \<subseteq> set ms then None else hexp q r)"
proof (induction ms arbitrary: r)
  case Nil
  then show ?case using exp_empty(2) [of r k] by auto
next
  case (Cons m ms)
  let ?a = "amounts k (hdel k m r)"
  have a: "?a = (amounts k r)(m := None)" by (simp add: redis_simps)
  have dom: "(dom ?a \<subseteq> set ms) = (dom (amounts k r) \<subseteq> set (m # ms))" and restr: "?a |` (- set ms) = amounts k r |` (- set (m # ms))"
    unfolding a by (auto simp: restrict_map_def fun_eq_iff)
  have none: "dom (amounts k r) \<subseteq> {m} \<Longrightarrow> dom (amounts k r) \<subseteq> set (m # ms)" by auto
  have exp: "hexp k (hdel k m r) = (if dom (amounts k r) \<subseteq> {m} then None else hexp k r)" by (simp add: redis_simps)
  show ?case
  proof (cases "q = k")
    case True
    with Cons.IH [of "hdel k m r", unfolded dom restr] Cons.prems exp none show ?thesis by (simp add: redis_simps del: amounts_hdel)
  next
    case False
    with Cons.IH [of "hdel k m r"] Cons.prems show ?thesis by (simp add: redis_simps)
  qed
qed

section \<open>The invariant\<close>

lemma inflight_okI:
  assumes "redis_ok r" "hashes_ok r" "dom (scores z r) = dom (amounts h r)" "zexp z r = hexp h r"
    "\<And>m e. scores z r m = Some e \<Longrightarrow> e \<le> rd_now r + ttl \<and> (\<exists>t. zexp z r = Some t \<and> e \<le> t)"
  shows "inflight_ok ttl z h r"
  using assms by (auto simp: inflight_ok_def ran_def)

lemma inflight_okD:
  assumes "inflight_ok ttl z h r"
  shows "redis_ok r" "hashes_ok r" "dom (scores z r) = dom (amounts h r)" "zexp z r = hexp h r"
    "\<And>m e. scores z r m = Some e \<Longrightarrow> e \<le> rd_now r + ttl \<and> (\<exists>t. zexp z r = Some t \<and> e \<le> t)"
    "\<And>m. (scores z r m = None) = (amounts h r m = None)"
proof -
  show "redis_ok r" "hashes_ok r" and d: "dom (scores z r) = dom (amounts h r)" and "zexp z r = hexp h r"
    using assms by (simp_all add: inflight_ok_def)
  have "\<forall>e \<in> ran (scores z r). e \<le> rd_now r + ttl \<and> (\<exists>t. zexp z r = Some t \<and> e \<le> t)"
    using assms unfolding inflight_ok_def by blast
  then show "\<And>m e. scores z r m = Some e \<Longrightarrow> e \<le> rd_now r + ttl \<and> (\<exists>t. zexp z r = Some t \<and> e \<le> t)" by (blast intro: ranI)
  show "\<And>m. (scores z r m = None) = (amounts h r m = None)" using d by (metis domIff)
qed

lemma inflight_ok_empty [simp]: "inflight_ok ttl z h (empty_redis now)"
  by (rule inflight_okI) (simp_all add: zexp_def hexp_def empty_redis_def scores_def amounts_def zset_at_def hash_at_def rd_zsets_def rd_hash_def
      redis_ok_empty [unfolded empty_redis_def] hashes_ok_empty [unfolded empty_redis_def])

lemma reservations_empty [simp]: "reservations z h (empty_redis now) = Map.empty"
  by (rule ext) (simp add: reservations_def empty_redis_def scores_def zset_at_def rd_zsets_def)

lemma finite_reservations [simp]: "finite (dom (reservations z h r))"
  by (rule finite_subset [OF _ finite_scores [of z r]]) (auto simp: reservations_def split: option.splits)

lemma reservations_None: "inflight_ok ttl z h r \<Longrightarrow>
  reservations z h r m = None \<longleftrightarrow> (case scores z r m of None \<Rightarrow> True | Some e \<Rightarrow> e \<le> rd_now r)"
  using inflight_okD(6) [of ttl z h r m] by (auto simp: reservations_def split: option.splits)

section \<open>The scripts\<close>

lemma clean_inflight:
  assumes ok: "inflight_ok ttl z h r" and now: "now = rd_now r"
  defines "r1 \<equiv> clean_inflight z h now r"
  shows "inflight_ok ttl z h r1" "rd_now r1 = rd_now r" "reservations z h r1 = reservations z h r"
    "dom (scores z r1) = dom (reservations z h r)" "sum_list (hvals h r1) = reserved z h r"
    "zcard z r1 = int (card (dom (reservations z h r)))"
proof -
  note D = inflight_okD [OF ok]
  let ?X = "set (zrange_upto z now r)"
  have X: "?X = {m. \<exists>e. scores z r m = Some e \<and> \<not> now < e}" using D(1) by (simp add: zrange_upto_set not_less)
  have fold: "hashes_ok (zrem_upto z now r)" "redis_ok (zrem_upto z now r)" using D(1,2) by (simp_all add: redis_simps)
  note f = fold_hdel [OF fold(1), where k = h and ms = "zrange_upto z now r"]
  note fz = f [of z] and fh = f [of h]
  have all: "(\<forall>e \<in> ran (scores z r). e \<le> now) \<longleftrightarrow> dom (scores z r) \<subseteq> ?X" unfolding X by (fastforce simp: ran_def)
  have none: "?X = {} \<Longrightarrow> dom (scores z r) \<subseteq> {} \<Longrightarrow> zexp z r = None" using exp_empty(1) [OF D(1), of z] by auto
  have basic: "hashes_ok r1" "redis_ok r1" "rd_now r1 = rd_now r" "amounts h r1 = amounts h r |` (- ?X)"
    "scores z r1 = (\<lambda>m. if m \<in> ?X then None else scores z r m)"
    "zexp z r1 = (if dom (scores z r) \<subseteq> ?X then None else zexp z r)" "hexp h r1 = (if dom (scores z r) \<subseteq> ?X then None else zexp z r)"
  proof -
    have "scores z (zrem_upto z now r) = (\<lambda>m. if m \<in> ?X then None else scores z r m)"
      using D(1) unfolding X by (auto simp: redis_simps fun_eq_iff split: option.splits)
    moreover have "zexp z (zrem_upto z now r) = (if dom (scores z r) \<subseteq> ?X then None else zexp z r)"
      using D(1) all by (simp add: redis_simps)
    moreover have "amounts h r |` UNIV = amounts h r" by (simp add: restrict_map_def)
    ultimately show "hashes_ok r1" "redis_ok r1" "rd_now r1 = rd_now r" "amounts h r1 = amounts h r |` (- ?X)"
      "scores z r1 = (\<lambda>m. if m \<in> ?X then None else scores z r m)"
      "zexp z r1 = (if dom (scores z r) \<subseteq> ?X then None else zexp z r)" "hexp h r1 = (if dom (scores z r) \<subseteq> ?X then None else zexp z r)"
      using fz fh fold none D(1-4) by (simp_all add: r1_def clean_inflight_def Let_def redis_simps)
  qed
  have S: "scores z r1 = (\<lambda>m. case scores z r m of None \<Rightarrow> None | Some e \<Rightarrow> if now < e then Some e else None)"
    unfolding basic(5) X by (auto simp: fun_eq_iff split: option.splits)
  note A = basic(4)
  have Z: "zexp z r1 = zexp z r" if "scores z r1 m = Some e" for m e
    using that unfolding basic(5,6) by (auto split: if_splits)
  show now': "rd_now r1 = rd_now r" by (rule basic(3))
  show ok1: "inflight_ok ttl z h r1"
  proof (rule inflight_okI)
    show "redis_ok r1" "hashes_ok r1" by (rule basic(2), rule basic(1))
    show "dom (scores z r1) = dom (amounts h r1)"
    proof -
      have "dom (scores z r1) = dom (scores z r) - ?X" unfolding basic(5) by (auto simp: dom_def)
      then show ?thesis by (simp add: A D(3) Diff_eq)
    qed
    show "zexp z r1 = hexp h r1" by (simp add: basic(6,7))
    show "e \<le> rd_now r1 + ttl \<and> (\<exists>t. zexp z r1 = Some t \<and> e \<le> t)" if "scores z r1 m = Some e" for m e
      using D(5) [of m e] Z [OF that] that now' unfolding S by (auto split: option.splits if_splits)
  qed
  show res: "reservations z h r1 = reservations z h r"
    using X now now' by (auto simp: reservations_def fun_eq_iff S A restrict_map_def split: option.splits)
  show dom: "dom (scores z r1) = dom (reservations z h r)"
  proof (rule set_eqI)
    fix m
    show "m \<in> dom (scores z r1) \<longleftrightarrow> m \<in> dom (reservations z h r)"
      using reservations_None [OF ok, of m] now unfolding S by (cases "scores z r m") (simp_all add: domIff not_less)
  qed
  show "zcard z r1 = int (card (dom (reservations z h r)))"
    using zcard_scores [OF inflight_okD(1) [OF ok1]] dom by simp
  have "snd (the (reservations z h r m)) = the (amounts h r1 m)" if "m \<in> dom (amounts h r1)" for m
    using that inflight_okD(6) [OF ok1, of m] inflight_okD(3) [OF ok1] unfolding res [symmetric]
    by (auto simp: reservations_def S now' now split: option.splits if_splits)
  then show "sum_list (hvals h r1) = reserved z h r"
    unfolding reserved_def sum_hvals [OF inflight_okD(2) [OF ok1]] dom [symmetric] inflight_okD(3) [OF ok1] by (intro sum.cong) auto
qed

lemma put_reservation:
  fixes m :: string and amount :: rat
  assumes ok: "inflight_ok ttl z h r" and ttl: "0 < ttl"
  defines "r1 \<equiv> put_reservation z h (rd_now r + ttl) m amount ttl r"
  shows "inflight_ok ttl z h r1" "rd_now r1 = rd_now r"
    "reservations z h r1 = (reservations z h r)(m \<mapsto> (rd_now r + ttl, amount))"
proof -
  note D = inflight_okD [OF ok]
  have b: "redis_ok r1" "hashes_ok r1" "scores z r1 = (scores z r)(m \<mapsto> rd_now r + ttl)" "amounts h r1 = (amounts h r)(m \<mapsto> amount)"
    "zexp z r1 = Some (rd_now r + ttl)" "hexp h r1 = Some (rd_now r + ttl)" "rd_now r1 = rd_now r"
    using D(1,2) ttl by (simp_all add: r1_def put_reservation_def redis_simps)
  show "inflight_ok ttl z h r1"
    using b D(3,5) by (intro inflight_okI) (auto split: if_splits)
  show "rd_now r1 = rd_now r" by (rule b)
  show "reservations z h r1 = (reservations z h r)(m \<mapsto> (rd_now r + ttl, amount))"
    using ttl by (auto simp: reservations_def fun_eq_iff b(3,4,7) split: option.split)
qed

lemma drop_reservation:
  fixes m :: string
  assumes ok: "inflight_ok ttl z h r"
  defines "r1 \<equiv> hdel h m (zrem z m r)"
  shows "inflight_ok ttl z h r1" "rd_now r1 = rd_now r" "reservations z h r1 = (reservations z h r)(m := None)"
proof -
  note D = inflight_okD [OF ok]
  have b: "redis_ok r1" "hashes_ok r1" "scores z r1 = (scores z r)(m := None)" "amounts h r1 = (amounts h r)(m := None)"
    "zexp z r1 = (if dom (scores z r) \<subseteq> {m} then None else zexp z r)" "hexp h r1 = (if dom (scores z r) \<subseteq> {m} then None else zexp z r)"
    "rd_now r1 = rd_now r"
    using D(1-4) by (simp_all add: r1_def redis_simps)
  show "inflight_ok ttl z h r1"
  proof (rule inflight_okI)
    show "dom (scores z r1) = dom (amounts h r1)" by (simp add: b(3,4) D(3))
    show "e \<le> rd_now r1 + ttl \<and> (\<exists>t. zexp z r1 = Some t \<and> e \<le> t)" if "scores z r1 k = Some e" for k e
      using D(5) [of k e] that b(3,5,7) by (auto split: if_splits)
  qed (simp_all add: b)
  show "rd_now r1 = rd_now r" by (rule b)
  show "reservations z h r1 = (reservations z h r)(m := None)"
    by (auto simp: reservations_def fun_eq_iff b(3,4,7) split: option.split)
qed

text \<open>Time passes, and the set and the hash end together.\<close>

lemma zset_at_tick: "zset_at k (tick ms r) = (if key_gone (tick ms r) (zexp k r) then empty_zset else zset_at k r)"
  by (auto simp: zset_at_def zexp_def tick_def key_gone_def rd_zsets_def split: option.splits)

lemma hash_at_tick: "hash_at k (tick ms r) = (if key_gone (tick ms r) (hexp k r) then empty_hash else hash_at k r)"
  by (auto simp: hash_at_def hexp_def tick_def key_gone_def rd_hash_def split: option.splits)

lemma tick_reservations:
  assumes ok: "inflight_ok ttl z h r"
  shows "inflight_ok ttl z h (tick ms r)"
    "reservations z h (tick ms r) = (\<lambda>m. case reservations z h r m of None \<Rightarrow> None | Some (e, v) \<Rightarrow> if rd_now r + max 0 ms < e then Some (e, v) else None)"
proof -
  note D = inflight_okD [OF ok]
  let ?r = "tick ms r"
  have now: "rd_now ?r = rd_now r + max 0 ms" by (simp add: tick_def)
  have b: "redis_ok ?r" "hashes_ok ?r"
    using D(1,2) by (simp_all add: redis_ok_def hashes_ok_def tick_def rd_hash_def)
  have end': "rd_now ?r < e" if "scores z r m = Some e" "rd_now ?r < e" for m e using that by simp
  consider (gone') t where "zexp z r = Some t" "t \<le> rd_now ?r" "zset_at z ?r = empty_zset" "hash_at h ?r = empty_hash"
    | (alive) "zset_at z ?r = zset_at z r" "hash_at h ?r = hash_at h r"
    using zset_at_tick [of z ms r] hash_at_tick [of h ms r] D(4) by (fastforce simp: key_gone_def split: option.splits if_splits)
  then have "inflight_ok ttl z h ?r \<and>
    reservations z h ?r = (\<lambda>m. case reservations z h r m of None \<Rightarrow> None | Some (e, v) \<Rightarrow> if rd_now r + max 0 ms < e then Some (e, v) else None)"
  proof cases
    case gone'
    then have e: "scores z ?r = Map.empty" "amounts h ?r = Map.empty" "zexp z ?r = None" "hexp h ?r = None"
      by (simp_all add: scores_def amounts_def zexp_def hexp_def)
    have "rd_now ?r < e \<Longrightarrow> False" if "scores z r m = Some e" for m e using D(5) [OF that] gone' by auto
    then have "(case reservations z h r m of None \<Rightarrow> None | Some (e, v) \<Rightarrow> if rd_now ?r < e then Some (e, v) else None) = None" for m
      by (auto simp: reservations_def split: option.splits)
    moreover have "reservations z h ?r m = None" for m by (simp add: reservations_def e(1))
    ultimately have "reservations z h ?r = (\<lambda>m. case reservations z h r m of None \<Rightarrow> None | Some (e, v) \<Rightarrow> if rd_now ?r < e then Some (e, v) else None)"
      by (simp add: fun_eq_iff)
    moreover have "inflight_ok ttl z h ?r" using b e by (intro inflight_okI) simp_all
    ultimately show ?thesis unfolding now by blast
  next
    case alive
    then have e: "scores z ?r = scores z r" "amounts h ?r = amounts h r" "zexp z ?r = zexp z r" "hexp h ?r = hexp h r"
      by (simp_all add: scores_def amounts_def zexp_def hexp_def)
    show ?thesis
    proof
      show "inflight_ok ttl z h ?r"
        using b e D(3-5) by (intro inflight_okI) (fastforce simp: now)+
      show "reservations z h ?r = (\<lambda>m. case reservations z h r m of None \<Rightarrow> None | Some (e, v) \<Rightarrow> if rd_now r + max 0 ms < e then Some (e, v) else None)"
        using D(6) by (auto simp: reservations_def e now fun_eq_iff split: option.splits)
    qed
  qed
  then show "inflight_ok ttl z h ?r"
    "reservations z h ?r = (\<lambda>m. case reservations z h r m of None \<Rightarrow> None | Some (e, v) \<Rightarrow> if rd_now r + max 0 ms < e then Some (e, v) else None)"
    by simp_all
qed

section \<open>The cache on the table\<close>

lemma ttl_ms_pos [simp]: "0 < ttl_ms ttl"
  by (simp add: ttl_ms_def Let_def)

lemma card_dom_zero: "(0 < card (dom (reservations z h r))) = (reservations z h r \<noteq> Map.empty)"
  using finite_reservations [of z h r] by (metis card_gt_0_iff dom_eq_empty_conv)

abbreviation of_user :: "int \<Rightarrow> redis \<Rightarrow> string \<rightharpoonup> int \<times> rat" where
  "of_user uid \<equiv> reservations (InflightSet uid) (InflightAmounts uid)"

abbreviation of_scope :: "string \<Rightarrow> redis \<Rightarrow> string \<rightharpoonup> int \<times> rat" where
  "of_scope scope \<equiv> reservations (ScopeSet scope) (ScopeAmounts scope)"

abbreviation user_ok :: "duration \<Rightarrow> int \<Rightarrow> redis \<Rightarrow> bool" where
  "user_ok ttl uid \<equiv> inflight_ok (ttl_ms ttl) (InflightSet uid) (InflightAmounts uid)"

abbreviation scope_ok :: "duration \<Rightarrow> string \<Rightarrow> redis \<Rightarrow> bool" where
  "scope_ok ttl scope \<equiv> inflight_ok (ttl_ms ttl) (ScopeSet scope) (ScopeAmounts scope)"

lemma reserve_balance_table:
  assumes ok: "user_ok ttl uid r"
    and run: "reserve_inflight_balance uid rid amount balance ttl (rd_now r) r = ((g, others), r')"
  shows "user_ok ttl uid r'" "rd_now r' = rd_now r"
    "others = reserved (InflightSet uid) (InflightAmounts uid) r"
    "g \<longleftrightarrow> of_user uid r = Map.empty \<or> amount \<le> balance - others"
    "of_user uid r' = (if g
       then (of_user uid r)(rid \<mapsto> (rd_now r + ttl_ms ttl, amount))
       else of_user uid r)"
proof -
  note c = clean_inflight [OF ok refl]
  note p = put_reservation [OF c(1) ttl_ms_pos, unfolded c(2,3), of rid amount]
  have "g \<longleftrightarrow> \<not> (of_user uid r \<noteq> Map.empty \<and> balance - others < amount)"
    and t: "others = reserved (InflightSet uid) (InflightAmounts uid) r"
    and r': "r' = (if g then put_reservation (InflightSet uid) (InflightAmounts uid) (rd_now r + ttl_ms ttl) rid amount (ttl_ms ttl)
      (clean_inflight (InflightSet uid) (InflightAmounts uid) (rd_now r) r) else clean_inflight (InflightSet uid) (InflightAmounts uid) (rd_now r) r)"
    using run c(5,6) card_dom_zero [of "InflightSet uid" "InflightAmounts uid" r]
    by (auto simp: reserve_inflight_balance_def reserve_inflight_balance_script_def Let_def split: if_splits)
  then show "g \<longleftrightarrow> of_user uid r = Map.empty \<or> amount \<le> balance - others" by auto
  show "others = reserved (InflightSet uid) (InflightAmounts uid) r" by (rule t)
  show "user_ok ttl uid r'" "rd_now r' = rd_now r"
    "of_user uid r' = (if g
       then (of_user uid r)(rid \<mapsto> (rd_now r + ttl_ms ttl, amount))
       else of_user uid r)"
    using c(1-3) p by (simp_all add: r')
qed

lemma reserve_scope_table:
  assumes ok: "scope_ok ttl scope r"
    and run: "reserve_inflight_scope scope rid amount ttl (rd_now r) r = (others, r')"
  shows "scope_ok ttl scope r'" "rd_now r' = rd_now r"
    "others = reserved (ScopeSet scope) (ScopeAmounts scope) r"
    "of_scope scope r' =
       (of_scope scope r)(rid \<mapsto> (rd_now r + ttl_ms ttl, amount))"
proof -
  note c = clean_inflight [OF ok refl]
  note p = put_reservation [OF c(1) ttl_ms_pos, unfolded c(2,3), of rid amount]
  show "scope_ok ttl scope r'" "rd_now r' = rd_now r"
    "others = reserved (ScopeSet scope) (ScopeAmounts scope) r"
    "of_scope scope r' =
       (of_scope scope r)(rid \<mapsto> (rd_now r + ttl_ms ttl, amount))"
    using run c(5) p by (auto simp: reserve_inflight_scope_def reserve_inflight_scope_script_def Let_def)
qed

lemma release_table:
  assumes "inflight_ok ttl z h r" "release_inflight_balance_script z h rid r = (u, r')"
  shows "inflight_ok ttl z h r'" "rd_now r' = rd_now r" "reservations z h r' = (reservations z h r)(rid := None)"
  using drop_reservation [OF assms(1), of rid] assms(2) by (simp_all add: release_inflight_balance_script_def)

lemma renew_table:
  assumes ok: "user_ok ttl uid r"
    and run: "renew_inflight_balance uid rid ttl (rd_now r) r = (g, r')"
  shows "user_ok ttl uid r'" "rd_now r' = rd_now r"
    "g \<longleftrightarrow> of_user uid r rid \<noteq> None"
    "of_user uid r' = (if g
       then (of_user uid r)
         (rid \<mapsto> (rd_now r + ttl_ms ttl, snd (the (of_user uid r rid))))
       else of_user uid r)"
proof -
  define z h T where "z = InflightSet uid" and "h = InflightAmounts uid" and "T = ttl_ms ttl"
  note ok = ok [folded z_def h_def T_def]
  note D = inflight_okD [OF ok]
  have T: "0 < T" by (simp add: T_def)
  have run: "renew_inflight_balance_script z h rid (rd_now r + T) T (rd_now r) r = (g, r')"
    using run by (simp add: renew_inflight_balance_def z_def h_def T_def)
  have "inflight_ok T z h r' \<and> rd_now r' = rd_now r \<and> (g \<longleftrightarrow> reservations z h r rid \<noteq> None) \<and>
    reservations z h r' = (if g then (reservations z h r)(rid \<mapsto> (rd_now r + T, snd (the (reservations z h r rid)))) else reservations z h r)"
  proof (cases "reservations z h r rid")
    case None
    show ?thesis
    proof (cases "scores z r rid")
      case True: None
      then show ?thesis using run None ok by (simp add: renew_inflight_balance_script_def zscore_scores)
    next
      case (Some e)
      with None reservations_None [OF ok, of rid] have "e \<le> rd_now r" by simp
      then have "g = False" "r' = hdel h rid (zrem z rid r)" using run Some by (simp_all add: renew_inflight_balance_script_def zscore_scores)
      with drop_reservation [OF ok, of rid] None show ?thesis by (simp add: fun_upd_idem)
    qed
  next
    case (Some p)
    then obtain e v where e: "scores z r rid = Some e" "rd_now r < e" "amounts h r rid = Some v" "p = (e, v)"
      by (auto simp: reservations_def split: option.splits if_splits)
    obtain t where t: "zexp z r = Some t" "e \<le> t" "hexp h r = Some t" using D(4) D(5) [OF e(1)] by auto
    define r1 where "r1 = zadd z (rd_now r + T) rid r"
    define r2 where "r2 = (if zpttl z r1 < T then zpexpire z T r1 else r1)"
    have g: "g" "r' = (if hpttl h r2 < T then hpexpire h T r2 else r2)"
      using run [unfolded renew_inflight_balance_script_def zscore_scores Let_def, folded r1_def, folded r2_def] e by simp_all
    have s1: "scores z r1 = (scores z r)(rid \<mapsto> rd_now r + T)" "zexp z r1 = Some t" "rd_now r1 = rd_now r" "amounts h r1 = amounts h r"
      "hexp h r1 = Some t" "redis_ok r1" "hashes_ok r1"
      using D(1,2) t by (simp_all add: r1_def redis_simps)
    have "zs_members (zset_at z r1) \<noteq> []" using s1(1) by (metis scores_None fun_upd_same option.distinct(1))
    then have "zpttl z r1 = t - rd_now r" using s1(2,3) by (simp add: zpttl_def pttl_of_def zexp_def)
    then have s2: "scores z r2 = (scores z r)(rid \<mapsto> rd_now r + T)" "zexp z r2 = Some (max t (rd_now r + T))" "rd_now r2 = rd_now r"
      "amounts h r2 = amounts h r" "hexp h r2 = Some t" "redis_ok r2" "hashes_ok r2"
      using s1 T by (auto simp: r2_def redis_simps max_def)
    have "hs_fields (hash_at h r2) \<noteq> []" using s2(4) e(3) by (metis amounts_None option.distinct(1))
    then have "hpttl h r2 = t - rd_now r" using s2(3,5) by (simp add: hpttl_def pttl_of_def hexp_def)
    then have s3: "scores z r' = (scores z r)(rid \<mapsto> rd_now r + T)" "zexp z r' = Some (max t (rd_now r + T))" "rd_now r' = rd_now r"
      "amounts h r' = amounts h r" "hexp h r' = Some (max t (rd_now r + T))" "redis_ok r'" "hashes_ok r'"
      using s2 T e(3) by (auto simp: g(2) redis_simps max_def)
    have "inflight_ok T z h r'"
    proof (rule inflight_okI)
      show "dom (scores z r') = dom (amounts h r')" using D(3) e(3) by (auto simp: s3)
      show "k \<le> rd_now r' + T \<and> (\<exists>u. zexp z r' = Some u \<and> k \<le> u)" if "scores z r' m = Some k" for m k
        using D(5) [of m k] that t(1) by (auto simp: s3 split: if_splits)
    qed (simp_all add: s3)
    moreover have "reservations z h r' = (reservations z h r)(rid \<mapsto> (rd_now r + T, v))"
      using T e(3) by (auto simp: reservations_def fun_eq_iff s3 split: option.split)
    ultimately show ?thesis using g(1) s3(3) by (simp add: Some e(4))
  qed
  then show "user_ok ttl uid r'" "rd_now r' = rd_now r"
    "g \<longleftrightarrow> of_user uid r rid \<noteq> None"
    "of_user uid r' = (if g
       then (of_user uid r)
         (rid \<mapsto> (rd_now r + ttl_ms ttl, snd (the (of_user uid r rid))))
       else of_user uid r)"
    by (simp_all add: z_def h_def T_def)
qed

end
