(* ===== verification/Inflight_Safety.thy ===== *)
theory Inflight_Safety
  imports Inflight_Service Inflight_Table
begin

text \<open>
  What the reservations are for. A handle is held until its handler and every billing task is done; the
  charges that are known beforehand stay within the quota of their key; the balance is overdrawn by at most
  one request as long as the balance that admits a request is the one at that moment, and by more when it
  was read before.
\<close>

section \<open>Who holds a reservation\<close>

datatype handle_step = Acquired | TaskDone nat | HandlerReturns

definition handle_step :: "handle_step \<Rightarrow> inflight_reservation \<Rightarrow> inflight_reservation" where
  "handle_step s r = (case s of Acquired \<Rightarrow> snd (acquire_ref r) | TaskDone i \<Rightarrow> task_done i r | HandlerReturns \<Rightarrow> handler_done r)"

definition holders :: "inflight_reservation \<Rightarrow> nat" where
  "holders r = (if ir_done r then 0 else 1) + length (filter id (ir_tasks r))"

definition handle_ok :: "inflight_reservation \<Rightarrow> bool" where
  "handle_ok r \<longleftrightarrow> ir_refs r = int (holders r) \<and> (ir_released r \<longleftrightarrow> holders r = 0)"

lemma filter_update: "i < length xs \<Longrightarrow> xs ! i \<Longrightarrow> Suc (length (filter id (xs[i := False]))) = length (filter id xs)"
  by (induction xs arbitrary: i) (auto simp: nth_Cons split: nat.splits)

lemma task_given_back:
  "i < length (ir_tasks r) \<Longrightarrow> ir_tasks r ! i \<Longrightarrow> holders r = Suc (holders (r\<lparr>ir_tasks := (ir_tasks r)[i := False]\<rparr>))"
  using filter_update [of i "ir_tasks r"] by (simp add: holders_def)

lemma dec_ref_ok:
  assumes "ir_refs r = int (holders r) + 1" "\<not> ir_released r"
  shows "handle_ok (dec_ref r)"
proof -
  have h: "holders (r\<lparr>ir_refs := x\<rparr>) = holders r" "holders (r\<lparr>ir_released := y, ir_refs := x\<rparr>) = holders r" for x y
    by (simp_all add: holders_def)
  show ?thesis using assms by (simp add: handle_ok_def dec_ref_def release_ref_def Let_def h)
qed

lemma handle_step_ok: "handle_ok r \<Longrightarrow> handle_ok (handle_step s r)"
proof (cases s)
  case Acquired
  assume "handle_ok r"
  then show ?thesis by (auto simp: Acquired handle_step_def acquire_ref_def handle_ok_def holders_def)
next
  case (TaskDone i)
  assume ok: "handle_ok r"
  show ?thesis
  proof (cases "i < length (ir_tasks r) \<and> ir_tasks r ! i")
    case True
    have "handle_ok (dec_ref (r\<lparr>ir_tasks := (ir_tasks r)[i := False]\<rparr>))"
      by (rule dec_ref_ok) (use task_given_back [of i r] ok True in \<open>simp_all add: handle_ok_def\<close>)
    with True show ?thesis by (simp add: TaskDone handle_step_def task_done_def)
  qed (use ok in \<open>auto simp: TaskDone handle_step_def task_done_def\<close>)
next
  case HandlerReturns
  assume ok: "handle_ok r"
  show ?thesis
  proof (cases "ir_done r")
    case False
    have "handle_ok (dec_ref (r\<lparr>ir_done := True\<rparr>))"
      by (rule dec_ref_ok) (use ok False in \<open>simp_all add: handle_ok_def holders_def\<close>)
    with False show ?thesis by (simp add: HandlerReturns handle_step_def handler_done_def)
  qed (use ok in \<open>simp add: HandlerReturns handle_step_def handler_done_def\<close>)
qed

lemma handle_steps_ok: "handle_ok r \<Longrightarrow> handle_ok (fold handle_step ss r)"
  by (induction ss arbitrary: r) (simp_all add: handle_step_ok)

text \<open>Whatever billing tasks are started and end, once or twice, and whenever the handler returns, the
  reservation is released exactly when the handler has returned and every task has given its reference back.\<close>

theorem released_at_the_last:
  "let r = fold handle_step ss (new_reservation bal uid rid amount ttl)
   in ir_released r = (ir_done r \<and> True \<notin> set (ir_tasks r)) \<and> ir_refs r = (if ir_done r then 0 else 1) + int (length (filter id (ir_tasks r)))"
proof -
  have "handle_ok (new_reservation bal uid rid amount ttl)" by (simp add: new_reservation_def handle_ok_def holders_def)
  from handle_steps_ok [OF this, of ss] show ?thesis
    by (auto simp: Let_def handle_ok_def holders_def filter_empty_conv)
qed

section \<open>Tables that others work on\<close>

lemma reservations_other:
  "z \<noteq> z' \<Longrightarrow> h \<noteq> h' \<Longrightarrow> inflight_ok ttl z h r \<Longrightarrow>
   inflight_ok ttl z h (hdel h' m (zrem z' m r)) \<and> reservations z h (hdel h' m (zrem z' m r)) = reservations z h r"
  by (auto simp: inflight_ok_def reservations_def fun_eq_iff redis_simps split: option.split)

definition calmly :: "funds \<Rightarrow> funds_world" where
  "calmly db = \<lparr>pw_db = db, pw_env = [], pw_faults = []\<rparr>"

lemma calmly_simps [simp]:
  "calm (calmly db)" "pw_db (calmly db) = db" "(calmly db)\<lparr>pw_db := db'\<rparr> = calmly db'"
  by (simp_all add: calmly_def calm_def)

lemma call_calmly: "call f (calmly db) = (DbOk (fst (f db)), calmly (snd (f db)))"
  by simp

lemma on_redis_simps:
  "fst (on_redis f db) = fst (f (rd_now (fu_redis db)) (fu_redis db))"
  "snd (on_redis f db) = db\<lparr>fu_redis := snd (f (rd_now (fu_redis db)) (fu_redis db))\<rparr>"
  by (simp_all add: on_redis_def split: prod.split)

text \<open>What a reservation that ends changes of a scope and of a balance.\<close>

definition scope_gone :: "string \<Rightarrow> string list \<Rightarrow> string \<Rightarrow> (string \<rightharpoonup> int \<times> rat) \<Rightarrow> (string \<rightharpoonup> int \<times> rat)" where
  "scope_gone scope scopes rid t = (if scope \<in> set scopes then t(rid := None) else t)"

lemma release_scopes:
  fixes w :: funds_world and scopes :: "string list" and rid :: string
  assumes "calm w" "scope_ok ttl scope (fu_redis (pw_db w))"
  defines "w' \<equiv> fold (\<lambda>s v. snd (call (on_redis (\<lambda>_. release_inflight_scope s rid)) v)) scopes w"
  shows "scope_ok ttl scope (fu_redis (pw_db w')) \<and> of_scope scope (fu_redis (pw_db w')) =
    scope_gone scope scopes rid (of_scope scope (fu_redis (pw_db w))) \<and> fu_keys (pw_db w') = fu_keys (pw_db w) \<and> calm w'"
  unfolding w'_def using assms(1,2)
proof (induction scopes arbitrary: w)
  case (Cons s scopes)
  let ?r = "fu_redis (pw_db w)"
  let ?r1 = "hdel (ScopeAmounts s) rid (zrem (ScopeSet s) rid ?r)"
  let ?w1 = "w\<lparr>pw_db := (pw_db w)\<lparr>fu_redis := ?r1\<rparr>\<rparr>"
  have w1: "snd (call (on_redis (\<lambda>_. release_inflight_scope s rid)) w) = ?w1"
    using Cons.prems(1) by (simp add: on_redis_simps release_inflight_scope_def release_inflight_balance_script_def)
  have "scope_ok ttl scope ?r1 \<and> of_scope scope ?r1 = scope_gone scope [s] rid (of_scope scope ?r)"
  proof (cases "scope = s")
    case True
    with drop_reservation [OF Cons.prems(2), of rid] show ?thesis by (simp add: scope_gone_def)
  next
    case False
    with reservations_other [OF _ _ Cons.prems(2), of "ScopeSet s" "ScopeAmounts s" rid] show ?thesis by (simp add: scope_gone_def)
  qed
  with Cons.IH [of ?w1] Cons.prems(1) show ?case unfolding fold_Cons comp_apply w1 by (auto simp: scope_gone_def)
qed (simp add: scope_gone_def)

lemma release_reservation_scope:
  fixes r :: inflight_reservation
  assumes "scope_ok ttl scope (fu_redis db)"
  defines "w' \<equiv> release_reservation r (calmly db)"
  shows "scope_ok ttl scope (fu_redis (pw_db w'))" "fu_keys (pw_db w') = fu_keys db"
    "of_scope scope (fu_redis (pw_db w')) = scope_gone scope (ir_scopes r) (ir_request r) (of_scope scope (fu_redis db))"
proof -
  let ?r1 = "hdel (InflightAmounts (ir_user r)) (ir_request r) (zrem (InflightSet (ir_user r)) (ir_request r) (fu_redis db))"
  let ?w1 = "if ir_balance r then calmly (db\<lparr>fu_redis := ?r1\<rparr>) else calmly db"
  have w': "w' = fold (\<lambda>s v. snd (call (on_redis (\<lambda>_. release_inflight_scope s (ir_request r))) v)) (ir_scopes r) ?w1"
    by (simp add: w'_def release_reservation_def on_redis_simps release_inflight_balance_def release_inflight_balance_script_def)
  have 1: "scope_ok ttl scope ?r1" "of_scope scope ?r1 = of_scope scope (fu_redis db)"
    using reservations_other [OF _ _ assms(1), of "InflightSet (ir_user r)" "InflightAmounts (ir_user r)" "ir_request r"] by simp_all
  have "calm ?w1" "scope_ok ttl scope (fu_redis (pw_db ?w1))" using 1 assms(1) by simp_all
  from release_scopes [OF this, of "ir_request r" "ir_scopes r", folded w'] 1
  show "scope_ok ttl scope (fu_redis (pw_db w'))" "fu_keys (pw_db w') = fu_keys db"
    "of_scope scope (fu_redis (pw_db w')) = scope_gone scope (ir_scopes r) (ir_request r) (of_scope scope (fu_redis db))"
    by (simp_all split: if_splits)
qed

section \<open>Charges that are known beforehand\<close>

datatype phase = Waiting rat | Accepted | Landed

type_synonym fixed_requests = "(inflight_reservation \<times> phase) list"

definition charge_key :: "int \<Rightarrow> rat \<Rightarrow> funds \<Rightarrow> funds" where
  "charge_key i x db = db\<lparr>fu_keys := (fu_keys db)(i := (fu_keys db i)\<lparr>rl_quota_used := rl_quota_used (fu_keys db i) + x\<rparr>)\<rparr>"

text \<open>
  The requests of a key in the order in which they reserved, each with the sum it was told or with the fact
  that it was accepted or charged. A request reserves, is accepted, is charged at most what it reserved,
  and releases, also when it was refused or failed; other requests go on between any two of these.
\<close>

inductive fixed_step :: "inflight_config \<Rightarrow> api_key \<Rightarrow> funds \<times> fixed_requests \<Rightarrow> funds \<times> fixed_requests \<Rightarrow> bool" for c k where
  reserves:
    "reserve_scope c res uid (inflight_api_key_scope (ak_id k)) a rid (calmly db) = ((Some r, pending), w) \<Longrightarrow> 0 < a \<Longrightarrow>
     (case res of None \<Rightarrow> True | Some r0 \<Rightarrow> ir_amount r0 = a \<and> ir_ttl r0 = inflight_ttl c) \<Longrightarrow>
     ir_request r \<notin> (ir_request \<circ> fst) ` set reqs \<Longrightarrow> fixed_step c k (db, reqs) (pw_db w, reqs @ [(r, Waiting pending)])"
| accepted:
    "check_fixed_charge clock uid None False (Some k) (ir_amount r) 0 pending (calmly db) = (None, w) \<Longrightarrow>
     fixed_step c k (db, xs @ (r, Waiting pending) # ys) (pw_db w, xs @ (r, Accepted) # ys)"
| charged:
    "0 \<le> x \<Longrightarrow> x \<le> ir_amount r \<Longrightarrow>
     fixed_step c k (db, xs @ (r, Accepted) # ys) (charge_key (ak_id k) x db, xs @ (r, Landed) # ys)"
| releases:
    "fixed_step c k (db, xs @ (r, p) # ys) (pw_db (release_reservation r (calmly db)), xs @ ys)"
| waits:
    "\<forall>(r, p) \<in> set reqs. of_scope (inflight_api_key_scope (ak_id k)) (tick ms (fu_redis db)) (ir_request r) \<noteq> None \<Longrightarrow>
     fixed_step c k (db, reqs) (db\<lparr>fu_redis := tick ms (fu_redis db)\<rparr>, reqs)"

text \<open>What is promised to the requests of a list, and what may still be charged before the last promise is used.\<close>

fun open_amount :: "inflight_reservation \<times> phase \<Rightarrow> rat" where
  "open_amount (r, Landed) = 0"
| "open_amount (r, p) = ir_amount r"

fun accepted_in :: "fixed_requests \<Rightarrow> bool" where
  "accepted_in [] = False"
| "accepted_in ((r, p) # xs) = (p = Accepted \<or> accepted_in xs)"

fun committed :: "fixed_requests \<Rightarrow> rat" where
  "committed [] = 0"
| "committed ((r, p) # xs) = (if p = Accepted \<or> (p \<noteq> Landed \<and> accepted_in xs) then ir_amount r else 0) + committed xs"

fun told :: "rat \<Rightarrow> fixed_requests \<Rightarrow> bool" where
  "told b [] = True"
| "told b ((r, p) # xs) = (0 < ir_amount r \<and> (\<forall>s. p = Waiting s \<longrightarrow> b \<le> s) \<and> told (b + open_amount (r, p)) xs)"

lemma accepted_in_append [simp]: "accepted_in (xs @ ys) = (accepted_in xs \<or> accepted_in ys)"
  by (induction xs rule: accepted_in.induct) auto

lemma told_append [simp]: "told b (xs @ ys) = (told b xs \<and> told (b + sum_list (map open_amount xs)) ys)"
  by (induction xs arbitrary: b rule: accepted_in.induct) (auto simp: algebra_simps)

lemma told_mono: "told b xs \<Longrightarrow> b' \<le> b \<Longrightarrow> told b' xs"
proof (induction b xs arbitrary: b' rule: told.induct)
  case (2 b r p xs)
  then show ?case using 2(1) [of "b' + open_amount (r, p)"] by force
qed simp

lemma committed_none: "\<not> accepted_in xs \<Longrightarrow> committed xs = 0"
  by (induction xs rule: accepted_in.induct) auto

lemma committed_nonneg: "told b xs \<Longrightarrow> 0 \<le> committed xs"
  by (induction b xs rule: told.induct) auto

lemma committed_waiting: "told b xs \<Longrightarrow> committed (xs @ [(r, Waiting p)]) = committed xs"
  by (induction b xs rule: told.induct) auto

lemma committed_accept:
  assumes "told b (xs @ (r, Waiting p) # ys)"
  shows "committed (xs @ (r, Accepted) # ys) \<le> max (committed (xs @ (r, Waiting p) # ys)) (p - b + ir_amount r)"
proof (cases "accepted_in ys")
  case True
  have "committed (xs @ (r, Accepted) # ys) = committed (xs @ (r, Waiting p) # ys)"
    using True by (induction xs rule: accepted_in.induct) auto
  then show ?thesis by simp
next
  case False
  have "told b xs \<Longrightarrow> committed (xs @ (r, Accepted) # ys) \<le> sum_list (map open_amount xs) + ir_amount r" for b
  proof (induction b xs rule: told.induct)
    case (2 b r' p' xs)
    then show ?case by (cases p') auto
  qed (simp add: committed_none [OF False])
  with assms show ?thesis by (fastforce simp: algebra_simps)
qed

lemma committed_drop: "told b (xs @ (s, q) # ys) \<Longrightarrow> committed (xs @ ys) \<le> committed (xs @ (s, q) # ys)"
  by (induction b xs rule: told.induct) auto

lemma committed_charge:
  "told b (xs @ (r, Accepted) # ys) \<Longrightarrow> committed (xs @ (r, Landed) # ys) + ir_amount r \<le> committed (xs @ (r, Accepted) # ys)"
  by (induction b xs rule: told.induct) auto

section \<open>The quota holds\<close>

abbreviation key_scope :: "api_key \<Rightarrow> string" where
  "key_scope k \<equiv> inflight_api_key_scope (ak_id k)"

text \<open>The table of a key lists the requests, each with its amount.\<close>

definition lists :: "(string \<rightharpoonup> int \<times> rat) \<Rightarrow> inflight_reservation list \<Rightarrow> bool" where
  "lists t rs \<longleftrightarrow> distinct (map ir_request rs) \<and> dom t = ir_request ` set rs \<and>
     (\<forall>r \<in> set rs. map_option snd (t (ir_request r)) = Some (ir_amount r))"

lemma lists_reserved: "lists (reservations z h r) rs \<Longrightarrow> reserved z h r = sum_list (map ir_amount rs)"
proof -
  assume l: "lists (reservations z h r) rs"
  let ?f = "\<lambda>m. snd (the (reservations z h r m))"
  have "reserved z h r = sum ?f (set (map ir_request rs))" using l by (simp add: reserved_def lists_def)
  also have "\<dots> = sum_list (map ?f (map ir_request rs))" using l by (intro sum.distinct_set_conv_list) (simp add: lists_def)
  also have "map ?f (map ir_request rs) = map ir_amount rs" using l by (fastforce simp: lists_def)
  finally show ?thesis .
qed

lemma lists_put:
  "lists t rs \<Longrightarrow> ir_request r \<notin> ir_request ` set rs \<Longrightarrow> lists (t(ir_request r \<mapsto> (e, ir_amount r))) (rs @ [r])"
proof -
  assume l: "lists t rs" and n: "ir_request r \<notin> ir_request ` set rs"
  then have "ir_request q \<noteq> ir_request r" if "q \<in> set rs" for q using that by (metis imageI)
  with l n show ?thesis by (simp add: lists_def)
qed

lemma lists_drop: "lists t (xs @ r # ys) \<Longrightarrow> lists (t(ir_request r := None)) (xs @ ys)"
proof -
  assume l: "lists t (xs @ r # ys)"
  then have n: "ir_request r \<notin> ir_request ` (set xs \<union> set ys)" by (auto simp: lists_def)
  then have "ir_request q \<noteq> ir_request r" if "q \<in> set xs \<union> set ys" for q using that by (metis imageI)
  moreover have "dom (t(ir_request r := None)) = ir_request ` (set xs \<union> set ys)"
    using l n by (simp add: lists_def insert_Diff_if)
  ultimately show ?thesis using l by (simp add: lists_def)
qed

lemma lists_tick:
  assumes "inflight_ok ttl z h r" "lists (reservations z h r) rs" "\<forall>q \<in> set rs. reservations z h (tick ms r) (ir_request q) \<noteq> None"
  shows "lists (reservations z h (tick ms r)) rs"
proof -
  have "reservations z h (tick ms r) m = reservations z h r m" for m
  proof (cases "reservations z h r m")
    case (Some p)
    with assms(2) obtain q where "q \<in> set rs" "m = ir_request q" by (auto simp: lists_def)
    with assms(3) Some show ?thesis by (auto simp: tick_reservations(2) [OF assms(1)] split: option.splits prod.splits if_splits)
  qed (simp add: tick_reservations(2) [OF assms(1)])
  then have "reservations z h (tick ms r) = reservations z h r" by (rule ext)
  with assms(2) show ?thesis by simp
qed

lemma open_le_reserved: "told b xs \<Longrightarrow> sum_list (map open_amount xs) \<le> sum_list (map (ir_amount \<circ> fst) xs)"
proof (induction b xs rule: told.induct)
  case (2 b r p xs)
  then show ?case by (cases p) auto
qed simp

lemma reserve_scope_run:
  assumes "inflight_reservation_enabled c" "scope_ok (inflight_ttl c) scope (fu_redis db)"
    "reserve_scope c res uid scope a rid (calmly db) = ((Some r, pending), w)"
    "case res of None \<Rightarrow> True | Some r0 \<Rightarrow> ir_amount r0 = a \<and> ir_ttl r0 = inflight_ttl c"
  shows "scope_ok (inflight_ttl c) scope (fu_redis (pw_db w))" "fu_keys (pw_db w) = fu_keys db" "scope \<in> set (ir_scopes r)" "ir_amount r = a"
    "pending = reserved (ScopeSet scope) (ScopeAmounts scope) (fu_redis db)"
    "\<exists>e. of_scope scope (fu_redis (pw_db w)) = (of_scope scope (fu_redis db))(ir_request r \<mapsto> (e, a))"
proof -
  define r0 where "r0 = (case res of Some r \<Rightarrow> r | None \<Rightarrow> new_reservation False uid rid a (inflight_ttl c))"
  have r0: "ir_ttl r0 = inflight_ttl c" "ir_amount r0 = a"
    using assms(4) by (auto simp: r0_def new_reservation_def split: option.splits)
  obtain p d where run: "reserve_inflight_scope scope (ir_request r0) a (inflight_ttl c) (rd_now (fu_redis db)) (fu_redis db) = (p, d)"
    by fastforce
  have eq: "r = r0\<lparr>ir_scopes := ir_scopes r0 @ [scope]\<rparr>" "pending = p" "w = calmly (db\<lparr>fu_redis := d\<rparr>)"
    using assms(1,3) run r0 by (simp_all add: reserve_scope_def r0_def [symmetric] Let_def on_redis_simps)
  note t = reserve_scope_table [OF assms(2) run]
  show "scope_ok (inflight_ttl c) scope (fu_redis (pw_db w))" "fu_keys (pw_db w) = fu_keys db" "scope \<in> set (ir_scopes r)" "ir_amount r = a"
    "pending = reserved (ScopeSet scope) (ScopeAmounts scope) (fu_redis db)"
    "\<exists>e. of_scope scope (fu_redis (pw_db w)) = (of_scope scope (fu_redis db))(ir_request r \<mapsto> (e, a))"
    using t r0 by (auto simp: eq)
qed

lemma accepted_within:
  assumes "0 < ak_quota k" "check_fixed_charge clock uid None False (Some k) a 0 p (calmly db) = (None, w)"
  shows "rl_quota_used (fu_keys db (ak_id k)) + (a + p) \<le> ak_quota k" "pw_db w = db"
  using assms by (auto simp: check_fixed_charge_def has_key_limits_def read_funds_def check_fixed_charge_api_key_def Let_def
      split: if_splits)

definition fixed_ok :: "inflight_config \<Rightarrow> api_key \<Rightarrow> funds \<times> fixed_requests \<Rightarrow> bool" where
  "fixed_ok c k s \<longleftrightarrow> (case s of (db, reqs) \<Rightarrow>
     scope_ok (inflight_ttl c) (key_scope k) (fu_redis db) \<and> lists (of_scope (key_scope k) (fu_redis db)) (map fst reqs) \<and>
     (\<forall>(r, p) \<in> set reqs. key_scope k \<in> set (ir_scopes r)) \<and> told 0 reqs \<and>
     rl_quota_used (fu_keys db (ak_id k)) + committed reqs \<le> ak_quota k)"

lemma fixed_step_ok:
  assumes "fixed_step c k s s'" "inflight_reservation_enabled c" "0 < ak_quota k" "fixed_ok c k s"
  shows "fixed_ok c k s'"
  using assms
proof (induction rule: fixed_step.induct)
  case (reserves res uid a rid db r pending w reqs)
  then have ok: "scope_ok (inflight_ttl c) (key_scope k) (fu_redis db)" "lists (of_scope (key_scope k) (fu_redis db)) (map fst reqs)" "told 0 reqs"
    by (simp_all add: fixed_ok_def)
  note R = reserve_scope_run [OF reserves.prems(1) ok(1) reserves.hyps(1,3)]
  obtain e where e: "of_scope (key_scope k) (fu_redis (pw_db w)) = (of_scope (key_scope k) (fu_redis db))(ir_request r \<mapsto> (e, ir_amount r))"
    using R(4,6) by auto
  have "sum_list (map open_amount reqs) \<le> pending"
    using open_le_reserved [OF ok(3)] lists_reserved [OF ok(2)] by (simp add: R(5))
  moreover have "lists (of_scope (key_scope k) (fu_redis (pw_db w))) (map fst reqs @ [r])"
    unfolding e using lists_put [OF ok(2), of r e] reserves.hyps(4) by (simp add: image_comp)
  ultimately show ?case using reserves.prems(3) reserves.hyps(2) R committed_waiting [OF ok(3)] by (simp add: fixed_ok_def)
next
  case (accepted clock uid r pending db w xs ys)
  note A = accepted_within [OF accepted.prems(2) accepted.hyps]
  have "told 0 (xs @ (r, Waiting pending) # ys)" using accepted.prems(3) by (simp add: fixed_ok_def)
  from committed_accept [OF this] A accepted.prems(3) show ?case by (auto simp: fixed_ok_def max_def split: if_splits)
next
  case (charged x r db xs ys)
  have "told 0 (xs @ (r, Accepted) # ys)" using charged.prems(3) by (simp add: fixed_ok_def)
  from committed_charge [OF this] charged.prems(3) charged.hyps show ?case
    by (auto simp: fixed_ok_def charge_key_def elim!: told_mono)
next
  case (releases db xs r p ys)
  have ok: "scope_ok (inflight_ttl c) (key_scope k) (fu_redis db)" "lists (of_scope (key_scope k) (fu_redis db)) (map fst xs @ r # map fst ys)"
    "key_scope k \<in> set (ir_scopes r)" "told 0 (xs @ (r, p) # ys)" using releases.prems(3) by (simp_all add: fixed_ok_def)
  note R = release_reservation_scope [OF ok(1), of r]
  have "told 0 (xs @ ys)" using ok(4) by (cases p) (auto elim!: told_mono)
  with committed_drop [OF ok(4)] lists_drop [OF ok(2)] R ok(3) releases.prems(3) show ?case
    by (simp add: fixed_ok_def scope_gone_def)
next
  case (waits reqs ms db)
  then have ok: "scope_ok (inflight_ttl c) (key_scope k) (fu_redis db)" "lists (of_scope (key_scope k) (fu_redis db)) (map fst reqs)"
    by (simp_all add: fixed_ok_def)
  have "lists (of_scope (key_scope k) (tick ms (fu_redis db))) (map fst reqs)"
    using waits.hyps by (intro lists_tick [OF ok]) auto
  with waits.prems(3) tick_reservations(1) [OF ok(1)] show ?case by (simp add: fixed_ok_def)
qed

lemma fixed_steps_ok: "(fixed_step c k)\<^sup>*\<^sup>* s s' \<Longrightarrow> inflight_reservation_enabled c \<Longrightarrow> 0 < ak_quota k \<Longrightarrow> fixed_ok c k s \<Longrightarrow> fixed_ok c k s'"
  by (induction rule: rtranclp_induct) (auto intro: fixed_step_ok)

text \<open>C23: Charges that are known beforehand: each request reserves its amount on its key, is told what others have
  reserved, and only then reads the key's usage. Whatever requests do so side by side, the key's usage never
  exceeds its quota, as long as the stores answer and no reservation lapses before its request ends.\<close>

theorem fixed_charges_within_quota:
  assumes "inflight_reservation_enabled c" "0 < ak_quota k" "rl_quota_used (fu_keys db (ak_id k)) \<le> ak_quota k"
    "scope_ok (inflight_ttl c) (key_scope k) (fu_redis db)" "of_scope (key_scope k) (fu_redis db) = Map.empty"
    "(fixed_step c k)\<^sup>*\<^sup>* (db, []) (db', reqs)"
  shows "rl_quota_used (fu_keys db' (ak_id k)) \<le> ak_quota k"
proof -
  have "fixed_ok c k (db, [])" using assms by (simp add: fixed_ok_def lists_def)
  with fixed_steps_ok [OF assms(6,1,2)] have ok: "fixed_ok c k (db', reqs)" by simp
  then have "told 0 reqs" by (simp add: fixed_ok_def)
  with ok committed_nonneg [of 0 reqs] show ?thesis by (simp add: fixed_ok_def)
qed

definition demo_config :: inflight_config where
  "demo_config = \<lparr>ic_enabled = True, ic_simple = False, ic_ttl_seconds = 60, ic_max_reservation = 10\<rparr>"

definition demo_key :: api_key where
  "demo_key = \<lparr>ak_id = 7, ak_quota = 10, ak_limit5h = 0, ak_limit1d = 0, ak_limit7d = 0\<rparr>"

definition demo_funds :: "rat \<Rightarrow> funds" where
  "demo_funds balance = \<lparr>fu_redis = empty_redis 0, fu_balance = (\<lambda>_. balance), fu_subs = (\<lambda>_. None),
     fu_keys = (\<lambda>_. \<lparr>rl_quota_used = 0, rl_usage5h = 0, rl_usage1d = 0, rl_usage7d = 0,
       rl_window5h = None, rl_window1d = None, rl_window7d = None\<rparr>)\<rparr>"

lemma fixed_step_reserves:
  assumes "inflight_reservation_enabled c" "0 < a" "rid \<notin> (ir_request \<circ> fst) ` set reqs" "scope_ok (inflight_ttl c) (key_scope k) (fu_redis db)"
  shows "\<exists>r db'. fixed_step c k (db, reqs) (db', reqs @ [(r, Waiting (reserved (ScopeSet (key_scope k)) (ScopeAmounts (key_scope k)) (fu_redis db)))]) \<and>
    ir_request r = rid \<and> ir_amount r = a \<and> fu_keys db' = fu_keys db"
proof -
  obtain r p w where r: "reserve_scope c None uid (key_scope k) a rid (calmly db) = ((Some r, p), w)" "ir_request r = rid"
    using assms(1) by (fastforce simp: reserve_scope_def Let_def new_reservation_def)
  note R = reserve_scope_run [OF assms(1,4) r(1)]
  have "fixed_step c k (db, reqs) (pw_db w, reqs @ [(r, Waiting p)])"
    by (rule fixed_step.reserves [OF r(1) assms(2)]) (use assms(3) r(2) in simp_all)
  with R r(2) show ?thesis by auto
qed

theorem fixed_charges_within_quota_witness:
  "\<exists>db' reqs. (fixed_step demo_config demo_key)\<^sup>*\<^sup>* (demo_funds 0, []) (db', reqs) \<and> rl_quota_used (fu_keys db' 7) = 6 \<and>
     rl_quota_used (fu_keys db' 7) \<le> 10"
proof -
  have c: "inflight_reservation_enabled demo_config" "0 < ak_quota demo_key" "ak_quota demo_key = 10" "ak_id demo_key = 7"
    by (simp_all add: demo_config_def demo_key_def inflight_reservation_enabled_def)
  have 0: "scope_ok (inflight_ttl demo_config) (key_scope demo_key) (fu_redis (demo_funds 0))" "of_scope (key_scope demo_key) (fu_redis (demo_funds 0)) = Map.empty"
    by (simp_all add: demo_funds_def)
  have none: "reserved (ScopeSet (key_scope demo_key)) (ScopeAmounts (key_scope demo_key)) (fu_redis (demo_funds 0)) = 0"
    using 0(2) by (simp add: reserved_def)
  from fixed_step_reserves [OF c(1) _ _ 0(1), of 6 "''a''" "[]"] none obtain r db1 where
    1: "fixed_step demo_config demo_key (demo_funds 0, []) (db1, [(r, Waiting 0)])" "ir_amount r = 6" "fu_keys db1 = fu_keys (demo_funds 0)" by auto
  have "check_fixed_charge 0 uid None False (Some demo_key) (ir_amount r) 0 0 (calmly db1) = (None, calmly db1)" for uid
    by (simp add: check_fixed_charge_def has_key_limits_def read_funds_def check_fixed_charge_api_key_def demo_key_def demo_funds_def 1)
  from fixed_step.accepted [OF this, where c = demo_config and xs = "[]" and ys = "[]"]
  have 2: "fixed_step demo_config demo_key (db1, [(r, Waiting 0)]) (db1, [(r, Accepted)])" by simp
  from fixed_step.charged [where x = 6 and r = r and c = demo_config and k = demo_key and db = db1 and xs = "[]" and ys = "[]"]
  have 3: "fixed_step demo_config demo_key (db1, [(r, Accepted)]) (charge_key 7 6 db1, [(r, Landed)])" by (simp add: 1 c)
  have run: "(fixed_step demo_config demo_key)\<^sup>*\<^sup>* (demo_funds 0, []) (charge_key 7 6 db1, [(r, Landed)])"
    using 1(1) 2 3 by (meson converse_rtranclp_into_rtranclp rtranclp.rtrancl_refl)
  have "rl_quota_used (fu_keys (demo_funds 0) 7) \<le> ak_quota demo_key" by (simp add: demo_funds_def demo_key_def)
  from fixed_charges_within_quota [OF c(1,2) _ 0 run, unfolded c(3,4)] this
  have "rl_quota_used (fu_keys (charge_key 7 6 db1) 7) \<le> 10" by (simp add: c(3,4))
  moreover have "rl_quota_used (fu_keys (charge_key 7 6 db1) 7) = 6" by (simp add: charge_key_def 1 demo_funds_def)
  ultimately show ?thesis using run by blast
qed

end
