(* ===== verification/Inflight_Overdraft.thy ===== *)
theory Inflight_Overdraft
  imports Inflight_Safety
begin

text \<open>
  How far the balance can fall. With the balance of the moment a user is overdrawn by at most one request;
  the code reads the balance before it reserves, and then the bound does not hold.
\<close>

section \<open>Admission with the balance of the moment\<close>

type_synonym balance_requests = "(inflight_reservation \<times> bool) list"

definition charge_balance :: "int \<Rightarrow> rat \<Rightarrow> funds \<Rightarrow> funds" where
  "charge_balance uid x db = db\<lparr>fu_balance := (fu_balance db)(uid := fu_balance db uid - x)\<rparr>"

text \<open>
  The requests of a user that hold a reservation of at most \<open>E\<close>, each with whether it is still to be
  charged. A request passes the check of the balance and reserves, is charged at most what it reserved, and
  releases; while it runs its reservation is renewed.
\<close>

inductive balance_step ::
  "inflight_config \<Rightarrow> rat \<Rightarrow> rat \<Rightarrow> int \<Rightarrow> funds \<times> balance_requests \<Rightarrow> funds \<times> balance_requests \<Rightarrow> bool" for c threshold E uid where
  admitted:
    "\<not> balance_below_eligibility_threshold threshold (fu_balance db uid) \<Longrightarrow>
     reserve_inflight c (Some uid) og sub estimate capped rid (calmly db) = (Inr (Some r), w) \<Longrightarrow> ir_amount r \<le> E \<Longrightarrow>
     rid \<notin> (ir_request \<circ> fst) ` set reqs \<Longrightarrow> balance_step c threshold E uid (db, reqs) (pw_db w, reqs @ [(r, True)])"
| denied:
    "reserve_inflight c (Some uid) og sub estimate capped rid (calmly db) = (Inl e, w) \<Longrightarrow>
     balance_step c threshold E uid (db, reqs) (pw_db w, reqs)"
| charged:
    "0 \<le> x \<Longrightarrow> x \<le> ir_amount r \<Longrightarrow>
     balance_step c threshold E uid (db, xs @ (r, True) # ys) (charge_balance uid x db, xs @ (r, False) # ys)"
| renewed:
    "balance_step c threshold E uid (db, xs @ (r, b) # ys) (pw_db (snd (renew_reservation r (calmly db))), xs @ (r, b) # ys)"
| released:
    "balance_step c threshold E uid (db, xs @ (r, b) # ys) (pw_db (release_reservation r (calmly db)), xs @ ys)"
| topped_up:
    "x \<le> 0 \<Longrightarrow> balance_step c threshold E uid (db, reqs) (charge_balance uid x db, reqs)"
| waits:
    "\<forall>(r, b) \<in> set reqs. of_user uid (tick ms (fu_redis db)) (ir_request r) \<noteq> None \<Longrightarrow>
     balance_step c threshold E uid (db, reqs) (db\<lparr>fu_redis := tick ms (fu_redis db)\<rparr>, reqs)"

fun to_charge :: "balance_requests \<Rightarrow> rat" where
  "to_charge [] = 0"
| "to_charge ((r, b) # xs) = (if b then ir_amount r else 0) + to_charge xs"

lemma to_charge_append [simp]: "to_charge (xs @ ys) = to_charge xs + to_charge ys"
  by (induction xs rule: to_charge.induct) simp_all

lemma to_charge_bounds:
  "\<forall>(r, b) \<in> set xs. 0 < ir_amount r \<Longrightarrow> 0 \<le> to_charge xs \<and> to_charge xs \<le> sum_list (map (ir_amount \<circ> fst) xs)"
  by (induction xs rule: to_charge.induct) (auto split: if_splits)

lemma reserve_inflight_run:
  assumes "user_ok (inflight_ttl c) uid (fu_redis db)"
    "reserve_inflight c (Some uid) og sub estimate capped rid (calmly db) = (ans, w)"
  shows "user_ok (inflight_ttl c) uid (fu_redis (pw_db w))" "fu_balance (pw_db w) = fu_balance db"
    "ans = Inl e \<Longrightarrow> of_user uid (fu_redis (pw_db w)) = of_user uid (fu_redis db)"
    "ans = Inr (Some r) \<Longrightarrow> 0 < ir_amount r \<and> r = new_reservation True uid rid (ir_amount r) (inflight_ttl c) \<and>
       (of_user uid (fu_redis db) = Map.empty \<or> ir_amount r \<le> fu_balance db uid - reserved (InflightSet uid) (InflightAmounts uid) (fu_redis db)) \<and>
       (\<exists>e. of_user uid (fu_redis (pw_db w)) = (of_user uid (fu_redis db))(rid \<mapsto> (e, ir_amount r)))"
proof -
  let ?new = "new_reservation True uid rid"
  obtain a g others d where a: "positive (cap_estimate c capped estimate) = None \<or> positive (cap_estimate c capped estimate) = Some a"
    and run: "reserve_inflight_balance uid rid a (fu_balance db uid) (inflight_ttl c) (rd_now (fu_redis db)) (fu_redis db) = ((g, others), d)"
    by (metis option.exhaust prod.exhaust)
  note t = reserve_balance_table [OF assms(1) run]
  have pos: "0 < a" if "positive (cap_estimate c capped estimate) = Some a"
    using that by (auto simp: positive_def split: f64.splits if_splits)
  have "ans = Inr None \<and> w = calmly db \<or>
    0 < a \<and> ans = (if g then Inr (Some (?new a (inflight_ttl c))) else Inl InsufficientBalance) \<and> w = calmly (db\<lparr>fu_redis := d\<rparr>)"
    using assms(2) a run pos
    by (auto simp: reserve_inflight_def read_funds_def on_redis_simps split: if_splits option.splits)
  then show "user_ok (inflight_ttl c) uid (fu_redis (pw_db w))" "fu_balance (pw_db w) = fu_balance db"
    "ans = Inl e \<Longrightarrow> of_user uid (fu_redis (pw_db w)) = of_user uid (fu_redis db)"
    "ans = Inr (Some r) \<Longrightarrow> 0 < ir_amount r \<and> r = new_reservation True uid rid (ir_amount r) (inflight_ttl c) \<and>
       (of_user uid (fu_redis db) = Map.empty \<or> ir_amount r \<le> fu_balance db uid - reserved (InflightSet uid) (InflightAmounts uid) (fu_redis db)) \<and>
       (\<exists>e. of_user uid (fu_redis (pw_db w)) = (of_user uid (fu_redis db))(rid \<mapsto> (e, ir_amount r)))"
    using t assms(1) by (auto simp: new_reservation_def split: if_splits)
qed

definition holds_balance :: "inflight_config \<Rightarrow> int \<Rightarrow> inflight_reservation \<Rightarrow> bool" where
  "holds_balance c uid r \<longleftrightarrow> ir_balance r \<and> ir_user r = uid \<and> ir_scopes r = [] \<and> ir_ttl r = inflight_ttl c \<and> 0 < ir_amount r"

definition balance_ok :: "inflight_config \<Rightarrow> rat \<Rightarrow> int \<Rightarrow> funds \<times> balance_requests \<Rightarrow> bool" where
  "balance_ok c E uid s \<longleftrightarrow> (case s of (db, reqs) \<Rightarrow>
     user_ok (inflight_ttl c) uid (fu_redis db) \<and> lists (of_user uid (fu_redis db)) (map fst reqs) \<and>
     (\<forall>(r, b) \<in> set reqs. holds_balance c uid r) \<and> - E \<le> fu_balance db uid - to_charge reqs)"

lemma renew_reservation_run:
  assumes "user_ok (inflight_ttl c) uid (fu_redis db)" "holds_balance c uid r"
  defines "db' \<equiv> pw_db (snd (renew_reservation r (calmly db)))"
  shows "user_ok (inflight_ttl c) uid (fu_redis db')" "fu_balance db' = fu_balance db"
    "of_user uid (fu_redis db') = of_user uid (fu_redis db) \<or>
     (\<exists>e v. of_user uid (fu_redis db) (ir_request r) = Some v \<and> of_user uid (fu_redis db') = (of_user uid (fu_redis db))(ir_request r \<mapsto> (e, snd v)))"
proof -
  obtain g d where run: "renew_inflight_balance uid (ir_request r) (inflight_ttl c) (rd_now (fu_redis db)) (fu_redis db) = (g, d)"
    by fastforce
  have db': "db' = db\<lparr>fu_redis := d\<rparr>"
    using run assms(2) by (simp add: db'_def renew_reservation_def on_redis_simps holds_balance_def)
  show "user_ok (inflight_ttl c) uid (fu_redis db')" "fu_balance db' = fu_balance db"
    "of_user uid (fu_redis db') = of_user uid (fu_redis db) \<or>
     (\<exists>e v. of_user uid (fu_redis db) (ir_request r) = Some v \<and> of_user uid (fu_redis db') = (of_user uid (fu_redis db))(ir_request r \<mapsto> (e, snd v)))"
    using renew_table [OF assms(1) run] by (auto simp: db')
qed

lemma lists_renew: "lists t rs \<Longrightarrow> t m = Some v \<Longrightarrow> lists (t(m \<mapsto> (e, snd v))) rs"
proof -
  assume l: "lists t rs" and v: "t m = Some v"
  then have "snd v = ir_amount r" if "r \<in> set rs" "ir_request r = m" for r using that by (force simp: lists_def)
  with l v show ?thesis by (auto simp: lists_def)
qed

lemma release_reservation_user:
  assumes "user_ok (inflight_ttl c) uid (fu_redis db)" "holds_balance c uid r"
  defines "db' \<equiv> pw_db (release_reservation r (calmly db))"
  shows "user_ok (inflight_ttl c) uid (fu_redis db')" "fu_balance db' = fu_balance db"
    "of_user uid (fu_redis db') = (of_user uid (fu_redis db))(ir_request r := None)"
  using drop_reservation [OF assms(1), of "ir_request r"] assms(2)
  by (simp_all add: db'_def release_reservation_def on_redis_simps release_inflight_balance_def release_inflight_balance_script_def holds_balance_def)

lemma balance_step_ok:
  assumes "balance_step c threshold E uid s s'" "0 \<le> E" "balance_ok c E uid s"
  shows "balance_ok c E uid s'"
  using assms
proof (induction rule: balance_step.induct)
  case (admitted db og sub estimate capped rid r w reqs)
  then have ok: "user_ok (inflight_ttl c) uid (fu_redis db)" "lists (of_user uid (fu_redis db)) (map fst reqs)"
    and pos: "\<forall>(r, b) \<in> set reqs. 0 < ir_amount r" and b: "0 < fu_balance db uid"
    by (auto simp: balance_ok_def holds_balance_def balance_below_eligibility_threshold_def not_le)
  note R = reserve_inflight_run [OF ok(1) admitted.hyps(2)]
  obtain e where r: "0 < ir_amount r" "r = new_reservation True uid rid (ir_amount r) (inflight_ttl c)"
      "of_user uid (fu_redis (pw_db w)) = (of_user uid (fu_redis db))(rid \<mapsto> (e, ir_amount r))"
    and room: "of_user uid (fu_redis db) = Map.empty \<or> ir_amount r \<le> fu_balance db uid - reserved (InflightSet uid) (InflightAmounts uid) (fu_redis db)"
    using R(4) by blast
  have rid: "ir_request r = rid" "ir_scopes r = []" "ir_balance r" "ir_user r = uid" "ir_ttl r = inflight_ttl c"
    by (subst r(2), simp add: new_reservation_def)+
  have "- E \<le> fu_balance db uid - (to_charge reqs + ir_amount r)"
  proof (cases "of_user uid (fu_redis db) = Map.empty")
    case True
    with ok(2) have "reqs = []" by (simp add: lists_def)
    with b admitted.hyps(3) show ?thesis by simp
  next
    case False
    with room to_charge_bounds [OF pos] lists_reserved [OF ok(2)] \<open>0 \<le> E\<close> show ?thesis by simp
  qed
  moreover have "lists (of_user uid (fu_redis (pw_db w))) (map fst reqs @ [r])"
    using lists_put [OF ok(2), of r e] admitted.hyps(4) rid(1) by (simp add: r(3) image_comp)
  ultimately show ?case using admitted.prems(2) R(1,2) r(1) rid by (simp add: balance_ok_def holds_balance_def)
next
  case (denied og sub estimate capped rid db e w reqs)
  then have ok: "user_ok (inflight_ttl c) uid (fu_redis db)" by (simp add: balance_ok_def)
  from reserve_inflight_run [OF ok denied.hyps] denied.prems(2) show ?case by (simp add: balance_ok_def)
next
  case (charged x r db xs ys)
  then show ?case by (simp add: balance_ok_def charge_balance_def)
next
  case (renewed db xs r b ys)
  then have ok: "user_ok (inflight_ttl c) uid (fu_redis db)" "holds_balance c uid r" by (simp_all add: balance_ok_def)
  from renew_reservation_run [OF ok] renewed.prems(2) lists_renew show ?case by (fastforce simp: balance_ok_def)
next
  case (released db xs r b ys)
  then have ok: "user_ok (inflight_ttl c) uid (fu_redis db)" "holds_balance c uid r"
    "lists (of_user uid (fu_redis db)) (map fst xs @ r # map fst ys)" by (simp_all add: balance_ok_def)
  from release_reservation_user [OF ok(1,2)] lists_drop [OF ok(3)] released.prems(2) ok(2) show ?case
    by (auto simp: balance_ok_def holds_balance_def split: if_splits)
next
  case (topped_up x db reqs)
  then show ?case by (simp add: balance_ok_def charge_balance_def)
next
  case (waits reqs ms db)
  then have ok: "user_ok (inflight_ttl c) uid (fu_redis db)" "lists (of_user uid (fu_redis db)) (map fst reqs)"
    by (simp_all add: balance_ok_def)
  have "lists (of_user uid (tick ms (fu_redis db))) (map fst reqs)"
    using waits.hyps by (intro lists_tick [OF ok]) auto
  with waits.prems(2) tick_reservations(1) [OF ok(1)] show ?case by (simp add: balance_ok_def)
qed


lemma reserve_inflight_admits:
  assumes "inflight_reservation_enabled c" "user_ok (inflight_ttl c) uid (fu_redis db)" "of_user uid (fu_redis db) = Map.empty" "0 < a"
  shows "\<exists>w. reserve_inflight c (Some uid) None None (Fin a) False rid (calmly db) =
    (Inr (Some (new_reservation True uid rid a (inflight_ttl c))), w) \<and> fu_balance (pw_db w) = fu_balance db"
proof -
  obtain g others d where run: "reserve_inflight_balance uid rid a (fu_balance db uid) (inflight_ttl c) (rd_now (fu_redis db)) (fu_redis db) = ((g, others), d)"
    by (metis prod.exhaust)
  have g by (simp add: reserve_balance_table(4) [OF assms(2) run] assms(3))
  with run assms(1,4) show ?thesis
    by (simp add: reserve_inflight_def cap_estimate_def positive_def subscription_bill_def read_funds_def on_redis_simps)
qed


section \<open>A balance that was read before\<close>

definition reserves_ten :: "string \<Rightarrow> funds_world \<Rightarrow> (admission_error + inflight_reservation option) \<times> funds_world" where
  "reserves_ten = reserve_inflight demo_config (Some 1) None None (Fin 10) True"

text \<open>A request that ends: the charge of what it reserved, then the release.\<close>

definition ends :: "string \<Rightarrow> funds \<Rightarrow> funds" where
  "ends rid db = pw_db (release_reservation (new_reservation True 1 rid 10 (inflight_ttl demo_config)) (calmly (charge_balance 1 10 db)))"

definition two_running :: funds where
  "two_running = pw_db (snd (reserves_ten ''a2'' (calmly (pw_db (snd (reserves_ten ''a1'' (calmly (demo_funds 20))))))))"

definition first_late :: "funds \<Rightarrow> funds" where
  "first_late db = pw_db (snd (reserves_ten ''b1'' \<lparr>pw_db = db, pw_env = [[], [ends ''a1'', ends ''a2'']], pw_faults = []\<rparr>))"

definition second_late :: "(admission_error + inflight_reservation option) \<times> funds_world" where
  "second_late = reserves_ten ''b2'' \<lparr>pw_db = two_running, pw_env = [[], [first_late]], pw_faults = []\<rparr>"


end
