(* ===== verification/Model_Names.thy ===== *)
theory Model_Names
  imports Prelude
begin

text \<open>
  How billing recognises a model by its name (service/openai_model_alias.go, the table of
  service/openai_codex_transform.go, pkg/openai/constants.go, pkg/claude/effort_catalog.go and the
  name tests of service/billing_service.go): the canonical spelling of an OpenAI name, the base
  model of a Codex variant, the fixed Claude ids, the DeepSeek, Grok and Fable families, and the
  list of names usage billing tries. Names are byte strings, a character per byte; the change to
  lower case and the test for a digit cover ASCII.
\<close>

section \<open>String functions of the library\<close>

definition has_suffix :: "string \<Rightarrow> string \<Rightarrow> bool" where
  "has_suffix s p = has_prefix (rev s) (rev p)"

definition trim_prefix :: "string \<Rightarrow> string \<Rightarrow> string" where
  "trim_prefix s p = (if has_prefix s p then drop (length p) s else s)"

definition trim_suffix :: "string \<Rightarrow> string \<Rightarrow> string" where
  "trim_suffix s p = (if has_suffix s p then take (length s - length p) s else s)"

definition cut_prefix :: "string \<Rightarrow> string \<Rightarrow> string option" where
  "cut_prefix s p = (if has_prefix s p then Some (drop (length p) s) else None)"

text \<open>What follows the last slash, the whole string when there is none.\<close>

definition after_last_slash :: "string \<Rightarrow> string" where
  "after_last_slash s = rev (takeWhile (\<lambda>c. c \<noteq> CHR ''/'') (rev s))"

fun split_at :: "char \<Rightarrow> string \<Rightarrow> string list" where
  "split_at d [] = [[]]"
| "split_at d (c # s) =
     (if c = d then [] # split_at d s
      else case split_at d s of [] \<Rightarrow> [[c]] | p # ps \<Rightarrow> (c # p) # ps)"

fun join_with :: "string \<Rightarrow> string list \<Rightarrow> string" where
  "join_with d [] = []"
| "join_with d [p] = p"
| "join_with d (p # ps) = p @ d @ join_with d ps"

text \<open>\<open>strings.ReplaceAll\<close> for a non-empty pattern.\<close>

function replace_all :: "string \<Rightarrow> string \<Rightarrow> string \<Rightarrow> string" where
  "replace_all p q [] = []"
| "replace_all p q (c # s) =
     (if p \<noteq> [] \<and> has_prefix (c # s) p then q @ replace_all p q (drop (length p) (c # s))
      else c # replace_all p q s)"
  by pat_completeness auto
termination
  by (relation "measure (\<lambda>(p, q, s). length s)") (auto simp: neq_Nil_conv)

text \<open>\<open>strings.Fields\<close>: the words between runs of white space; \<open>w\<close> is the word read so far, reversed.\<close>

function fields_from :: "string \<Rightarrow> string \<Rightarrow> string list" where
  "fields_from w [] = (if w = [] then [] else [rev w])"
| "fields_from w (c # s) =
     (case strip_any space_seqs (c # s) of
        Some r \<Rightarrow> (if w = [] then fields_from [] r else rev w # fields_from [] r)
      | None \<Rightarrow> fields_from (c # w) s)"
  by pat_completeness auto
termination
  by (relation "measure (\<lambda>(w, s). length s)") (auto dest: strip_any_shorter)

definition string_fields :: "string \<Rightarrow> string list" where
  "string_fields s = fields_from [] s"

text \<open>The index of the first occurrence, as \<open>strings.Index\<close> gives it.\<close>

fun index_of :: "string \<Rightarrow> string \<Rightarrow> nat option" where
  "index_of [] p = (if p = [] then Some 0 else None)"
| "index_of (c # s) p = (if has_prefix (c # s) p then Some 0 else map_option Suc (index_of s p))"

definition ascii_digit :: "char \<Rightarrow> bool" where
  "ascii_digit c = (48 \<le> (of_char c :: nat) \<and> (of_char c :: nat) \<le> 57)"

section \<open>OpenAI and Codex names\<close>

text \<open>The loop \<open>for strings.Contains(s, "--")\<close> ends because every pass shortens the name.\<close>

lemma length_replace_all:
  "length q \<le> length p \<Longrightarrow> length (replace_all p q s) \<le> length s"
proof (induction p q s rule: replace_all.induct)
  case (2 p q c s)
  show ?case
  proof (cases "p \<noteq> [] \<and> has_prefix (c # s) p")
    case True
    then have "length (replace_all p q (drop (length p) (c # s))) \<le> length (drop (length p) (c # s))"
      using 2 by blast
    then show ?thesis using True 2(3) has_prefix_length [of "c # s" p] by auto
  next
    case False
    then have "length (replace_all p q s) \<le> length s" using 2 by blast
    then show ?thesis using False by auto
  qed
qed simp

lemma replace_all_shorter:
  "length q < length p \<Longrightarrow> contains s p \<Longrightarrow> length (replace_all p q s) < length s"
proof (induction p q s rule: replace_all.induct)
  case (1 p q)
  then show ?case by simp
next
  case (2 p q c s)
  show ?case
  proof (cases "has_prefix (c # s) p")
    case True
    then show ?thesis
      using 2(3) has_prefix_length [OF True] length_replace_all [of q p "drop (length p) (c # s)"]
      by fastforce
  next
    case False
    then show ?thesis using 2(2-4) by simp
  qed
qed

function collapse_dashes :: "string \<Rightarrow> string" where
  "collapse_dashes s = (if contains s ''--'' then collapse_dashes (replace_all ''--'' ''-'' s) else s)"
  by pat_completeness auto
termination
  by (relation "measure length") (auto simp: replace_all_shorter)

declare collapse_dashes.simps [simp del]

definition compact_spellings :: "(string \<times> string) list" where
  "compact_spellings =
    [(''gpt-5.4mini'', ''gpt-5.4-mini''), (''gpt-5.4nano'', ''gpt-5.4-nano''),
     (''gpt-5.3-codexspark'', ''gpt-5.3-codex-spark''), (''gpt-5.3codexspark'', ''gpt-5.3-codex-spark''),
     (''gpt-5.3codex'', ''gpt-5.3-codex'')]"

definition canonicalize_openai_alias :: "string \<Rightarrow> string" where
  "canonicalize_openai_alias m0 =
     (let m1 = trim_space m0;
          m2 = (if CHR ''/'' \<in> set m1 then trim_space (after_last_slash m1) else m1);
          m = to_lower m2
      in if m = [] then []
         else
           let n1 = replace_all ''_'' ''-'' m;
               n2 = join_with ''-'' (string_fields n1);
               n3 = collapse_dashes n2;
               n4 = (if has_prefix n3 ''gpt5'' then ''gpt-5'' @ trim_prefix n3 ''gpt5'' else n3)
           in if \<not> has_prefix n4 ''gpt-'' \<and> \<not> contains n4 ''codex'' then []
              else fold (\<lambda>(a, b) s. replace_all a b s) compact_spellings n4)"

definition is_gpt6_sol_or_luna :: "string \<Rightarrow> bool" where
  "is_gpt6_sol_or_luna m =
     (let c = canonicalize_openai_alias m
      in list_ex (\<lambda>base. c = base \<or>
           (case cut_prefix c (base @ ''-'') of None \<Rightarrow> False
            | Some x \<Rightarrow> x \<in> set [''none'', ''low'', ''medium'', ''high'', ''xhigh'', ''max'', ''openai-compact'']))
         [''gpt-6-sol'', ''gpt-6-luna''])"

definition is_gpt61_sol :: "string \<Rightarrow> bool" where
  "is_gpt61_sol m =
     (let c = canonicalize_openai_alias m
      in c = ''gpt-6.1-sol'' \<or>
         (case cut_prefix c ''gpt-6.1-sol-'' of None \<Rightarrow> False
          | Some x \<Rightarrow> x \<in> set [''none'', ''minimal'', ''low'', ''medium'', ''high'', ''xhigh'', ''max'', ''openai-compact'']))"

definition is_codex_date_suffix :: "string \<Rightarrow> bool" where
  "is_codex_date_suffix s =
     (let parts = split_at CHR ''-'' s
      in map length parts = [4, 2, 2] \<and> list_all (list_all ascii_digit) parts)"

definition is_known_codex_suffix :: "string \<Rightarrow> bool" where
  "is_known_codex_suffix s =
     (s \<in> set [''none'', ''minimal'', ''low'', ''medium'', ''high'', ''xhigh''] \<or> is_codex_date_suffix s)"

definition codex_model_map :: "(string \<times> string) list" where
  "codex_model_map =
    [(''gpt-6.1-sol'', ''gpt-6.1-sol''), (''gpt-6-sol'', ''gpt-6-sol''), (''gpt-6-luna'', ''gpt-6-luna''),
     (''gpt-6-astra'', ''gpt-6-astra''), (''gpt-5.6-sol'', ''gpt-5.6-sol''), (''gpt-5.6-terra'', ''gpt-5.6-terra''),
     (''gpt-5.6-luna'', ''gpt-5.6-luna''), (''gpt-5.5'', ''gpt-5.5''), (''gpt-5.5-pro'', ''gpt-5.5-pro''),
     (''codex-auto-review'', ''codex-auto-review''), (''gpt-5.4'', ''gpt-5.4''), (''gpt-5.4-mini'', ''gpt-5.4-mini''),
     (''gpt-5.4-none'', ''gpt-5.4''), (''gpt-5.4-low'', ''gpt-5.4''), (''gpt-5.4-medium'', ''gpt-5.4''),
     (''gpt-5.4-high'', ''gpt-5.4''), (''gpt-5.4-xhigh'', ''gpt-5.4''), (''gpt-5.4-chat-latest'', ''gpt-5.4''),
     (''gpt-5.3'', ''gpt-5.3-codex''), (''gpt-5.3-none'', ''gpt-5.3-codex''), (''gpt-5.3-low'', ''gpt-5.3-codex''),
     (''gpt-5.3-medium'', ''gpt-5.3-codex''), (''gpt-5.3-high'', ''gpt-5.3-codex''),
     (''gpt-5.3-xhigh'', ''gpt-5.3-codex''), (''gpt-5.3-codex'', ''gpt-5.3-codex''),
     (''gpt-5.3-codex-spark'', ''gpt-5.3-codex-spark''), (''gpt-5.3-codex-low'', ''gpt-5.3-codex''),
     (''gpt-5.3-codex-medium'', ''gpt-5.3-codex''), (''gpt-5.3-codex-high'', ''gpt-5.3-codex''),
     (''gpt-5.3-codex-xhigh'', ''gpt-5.3-codex''), (''gpt-5.2'', ''gpt-5.2''), (''gpt-5.2-none'', ''gpt-5.2''),
     (''gpt-5.2-low'', ''gpt-5.2''), (''gpt-5.2-medium'', ''gpt-5.2''), (''gpt-5.2-high'', ''gpt-5.2''),
     (''gpt-5.2-xhigh'', ''gpt-5.2''), (''gpt-5'', ''gpt-5.4''), (''gpt-5-mini'', ''gpt-5.4''),
     (''gpt-5-nano'', ''gpt-5.4''), (''gpt-5.1'', ''gpt-5.4''), (''gpt-5.1-codex'', ''gpt-5.3-codex''),
     (''gpt-5.1-codex-max'', ''gpt-5.3-codex''), (''gpt-5.1-codex-mini'', ''gpt-5.3-codex''),
     (''gpt-5.2-codex'', ''gpt-5.2''), (''codex-mini-latest'', ''gpt-5.3-codex''), (''gpt-5-codex'', ''gpt-5.3-codex'')]"

definition codex_model_lookup_key :: "string \<Rightarrow> string" where
  "codex_model_lookup_key m0 =
     (let m1 = trim_space m0
      in if m1 = [] then []
         else let m = (if CHR ''/'' \<in> set m1 then after_last_slash m1 else m1)
              in to_lower (join_with ''-'' (string_fields m)))"

definition get_normalized_codex_model :: "string \<Rightarrow> string" where
  "get_normalized_codex_model m =
     (let key = codex_model_lookup_key m
      in if key = [] then []
         else case map_of codex_model_map key of Some x \<Rightarrow> x | None \<Rightarrow> [])"

text \<open>The \<open>switch\<close> at the end of \<open>normalizeKnownOpenAICodexModel\<close>.\<close>

definition codex_family :: "string \<Rightarrow> string" where
  "codex_family n =
     (if n = ''gpt-6'' \<or> n = ''gpt-6-astra'' then ''gpt-6-astra''
      else if contains n ''gpt-5.6-sol'' then ''gpt-5.6-sol''
      else if contains n ''gpt-5.6-terra'' then ''gpt-5.6-terra''
      else if contains n ''gpt-5.6-luna'' then ''gpt-5.6-luna''
      else if n = ''gpt-5.6'' then ''gpt-5.6-sol''
      else if has_prefix n ''gpt-5.6-'' then
        (let suffix = trim_prefix n ''gpt-5.6-''
         in if suffix = ''max'' \<or> is_known_codex_suffix suffix then ''gpt-5.6-sol'' else [])
      else if contains n ''gpt-5.5-pro'' then ''gpt-5.5-pro''
      else if contains n ''gpt-5.5'' then ''gpt-5.5''
      else if contains n ''gpt-5.4-mini'' then ''gpt-5.4-mini''
      else if contains n ''gpt-5.4-nano'' then ''gpt-5.4-nano''
      else if contains n ''gpt-5.4'' then ''gpt-5.4''
      else if contains n ''gpt-5.2'' then ''gpt-5.2''
      else if contains n ''gpt-5.3-codex-spark'' then ''gpt-5.3-codex-spark''
      else if contains n ''gpt-5.3-codex'' then ''gpt-5.3-codex''
      else if contains n ''gpt-5.3'' then ''gpt-5.3-codex''
      else if contains n ''codex'' then ''gpt-5.3-codex''
      else if contains n ''gpt-5'' then ''gpt-5.4''
      else [])"

definition normalize_known_codex :: "string \<Rightarrow> string" where
  "normalize_known_codex m =
     (let n = canonicalize_openai_alias m
      in if n = [] then []
         else
           let mapped = get_normalized_codex_model n
           in if mapped \<noteq> [] then mapped
              else
                let compact = (if has_suffix n ''-openai-compact''
                               then get_normalized_codex_model (trim_suffix n ''-openai-compact'') else [])
                in if compact \<noteq> [] then compact
                   else if is_gpt61_sol n then ''gpt-6.1-sol''
                   else if is_gpt6_sol_or_luna n then
                     (if has_prefix n ''gpt-6-sol'' then ''gpt-6-sol'' else ''gpt-6-luna'')
                   else codex_family n)"

definition is_openai_gpt56 :: "string \<Rightarrow> bool" where
  "is_openai_gpt56 m =
     (let n = canonicalize_openai_alias m
      in n = ''gpt-5.6'' \<or>
         (case cut_prefix n ''gpt-5.6-'' of None \<Rightarrow> False
          | Some suffix \<Rightarrow> suffix = ''max'' \<or> is_known_codex_suffix suffix) \<or>
         list_ex (\<lambda>p. n = p \<or> has_prefix n (p @ ''-'')) [''gpt-5.6-sol'', ''gpt-5.6-terra'', ''gpt-5.6-luna''])"

definition is_openai_gpt6_astra :: "string \<Rightarrow> bool" where
  "is_openai_gpt6_astra m =
     (let n = canonicalize_openai_alias m
      in n = ''gpt-6'' \<or> n = ''gpt-6-astra'' \<or> has_prefix n ''gpt-6-astra-'')"

section \<open>The names usage billing tries\<close>

definition add_candidate :: "string list \<Rightarrow> string \<Rightarrow> string list" where
  "add_candidate cs c0 =
     (let c = trim_space c0
      in if c = [] \<or> to_lower c \<in> set (map to_lower cs) then cs else cs @ [c])"

definition append_candidates :: "string list \<Rightarrow> string \<Rightarrow> string list" where
  "append_candidates cs m =
     (let t = trim_space m
      in if t = [] then cs
         else
           let c1 = add_candidate cs t;
               canonical = canonicalize_openai_alias t;
               c2 = (if canonical \<noteq> [] then add_candidate c1 canonical else c1);
               base = normalize_known_codex t
           in if base \<noteq> [] then add_candidate c2 base else c2)"

definition usage_billing_candidates :: "string \<Rightarrow> string list \<Rightarrow> string list" where
  "usage_billing_candidates primary alternates = fold (\<lambda>m cs. append_candidates cs m) alternates (append_candidates [] primary)"

fun first_usage_billing_model :: "string list \<Rightarrow> string" where
  "first_usage_billing_model [] = []"
| "first_usage_billing_model (c # cs) = (if trim_space c \<noteq> [] then trim_space c else first_usage_billing_model cs)"

section \<open>Other families\<close>

definition model_id_reverse :: "(string \<times> string) list" where
  "model_id_reverse =
    [(''claude-sonnet-4-5-20250929'', ''claude-sonnet-4-5''), (''claude-opus-4-5-20251101'', ''claude-opus-4-5''),
     (''claude-haiku-4-5-20251001'', ''claude-haiku-4-5'')]"

definition drop_date_suffix :: "string \<Rightarrow> string" where
  "drop_date_suffix i =
     (if 9 \<le> length i
      then let suffix = drop (length i - 9) i
           in if hd suffix = CHR ''-'' \<and> list_all ascii_digit (tl suffix) then take (length i - 9) i else i
      else i)"

definition normalize_effort_model_id :: "string \<Rightarrow> string" where
  "normalize_effort_model_id m =
     (let i1 = trim_prefix (to_lower (trim_space m)) ''models/'';
          i2 = (if CHR ''/'' \<in> set i1
                then trim_prefix (trim_space (tl (dropWhile (\<lambda>c. c \<noteq> CHR ''/'') i1))) ''models/'' else i1);
          i3 = fold (\<lambda>p s. trim_prefix s p) [''us.'', ''eu.'', ''apac.'', ''jp.'', ''au.'', ''us-gov.'', ''global.''] i2;
          i4 = trim_suffix (trim_prefix i3 ''anthropic.'') ''-thinking'';
          i5 = (if i4 = ''claude-opus-5.5'' then ''claude-opus-5-5''
                else if i4 = ''claude-sonnet-5.5'' then ''claude-sonnet-5-5''
                else if i4 = ''claude-haiku-5.5'' then ''claude-haiku-5-5'' else i4);
          i6 = (case map_of model_id_reverse i5 of Some x \<Rightarrow> x | None \<Rightarrow> i5)
      in drop_date_suffix i6)"

definition is_opus55 :: "string \<Rightarrow> bool" where
  "is_opus55 m = (normalize_effort_model_id m = ''claude-opus-5-5'')"

definition is_sonnet55 :: "string \<Rightarrow> bool" where
  "is_sonnet55 m = (normalize_effort_model_id m = ''claude-sonnet-5-5'')"

definition is_haiku55 :: "string \<Rightarrow> bool" where
  "is_haiku55 m = (normalize_effort_model_id m = ''claude-haiku-5-5'')"

definition is_claude_fable51 :: "string \<Rightarrow> bool" where
  "is_claude_fable51 m0 =
     (let m = to_lower (trim_space m0)
      in list_ex (\<lambda>marker. case index_of m marker of
             None \<Rightarrow> False
           | Some i \<Rightarrow> let past = i + length marker in past = length m \<or> \<not> ascii_digit (m ! past))
         [''fable-5-1'', ''fable-5.1'', ''fable5.1'', ''fable51''])"

definition normalize_antigravity_claude :: "string \<Rightarrow> string" where
  "normalize_antigravity_claude m =
     (case find (\<lambda>base. m \<in> set (map (\<lambda>tier. base @ tier) [''-high'', ''-low'', ''-medium'']))
             [''claude-opus-5-5'', ''claude-sonnet-5-5''] of
        Some base \<Rightarrow> base
      | None \<Rightarrow> m)"

definition is_deepseek :: "string \<Rightarrow> bool" where
  "is_deepseek m = has_prefix (to_lower (trim_space m)) ''deepseek-''"

definition is_deepseek_pro :: "string \<Rightarrow> bool" where
  "is_deepseek_pro m = contains (to_lower (trim_space m)) ''deepseek-v4-pro''"

definition strip_grok_provider_prefix :: "string \<Rightarrow> string" where
  "strip_grok_provider_prefix m =
     (let t = trim_space m; lower = to_lower t
      in case find (has_prefix lower) [''xai/'', ''x-ai/'', ''grok/''] of
           Some p \<Rightarrow> trim_space (drop (length p) t)
         | None \<Rightarrow> t)"

definition is_grok_media_family :: "string \<Rightarrow> bool" where
  "is_grok_media_family native =
     list_ex (contains native)
       [''imagine'', ''image'', ''video'', ''audio'', ''speech'', ''tts'', ''transcribe'', ''realtime'']"

definition is_grok_unknown_text_family :: "string \<Rightarrow> bool" where
  "is_grok_unknown_text_family m =
     (let native = to_lower (trim_space (strip_grok_provider_prefix m))
      in if is_grok_media_family native then False
         else if native = ''grok'' \<or> native = ''grok-latest'' then True
         else if has_prefix native ''grok-build'' \<or> has_prefix native ''grok-composer'' \<or> has_prefix native ''composer-''
         then True
         else if 5 < length native \<and> has_prefix native ''grok-'' then ascii_digit (native ! 5)
         else False)"

definition normalize_channel_model_name :: "string \<Rightarrow> string" where
  "normalize_channel_model_name m0 =
     (let m = to_lower (trim_space m0)
      in if has_prefix m ''claude-'' then replace_all ''.'' ''-'' m else m)"

definition normalize_max_reasoning_effort :: "string \<Rightarrow> string" where
  "normalize_max_reasoning_effort raw =
     (let v = filter (\<lambda>c. c \<notin> set ''-_ '') (to_lower (trim_space raw))
      in if v \<in> set [''minimal'', ''low'', ''medium'', ''high'', ''max''] then v
         else if v = ''xhigh'' \<or> v = ''extrahigh'' then ''xhigh''
         else [])"

section \<open>Base models are fixed points\<close>

definition codex_bases :: "string list" where
  "codex_bases =
    [[], ''gpt-6.1-sol'', ''gpt-6-sol'', ''gpt-6-luna'', ''gpt-6-astra'', ''gpt-5.6-sol'', ''gpt-5.6-terra'',
     ''gpt-5.6-luna'', ''gpt-5.5'', ''gpt-5.5-pro'', ''codex-auto-review'', ''gpt-5.4'', ''gpt-5.4-mini'',
     ''gpt-5.4-nano'', ''gpt-5.3-codex'', ''gpt-5.3-codex-spark'', ''gpt-5.2'']"

lemma codex_bases_fixed: "list_all (\<lambda>b. normalize_known_codex b = b) codex_bases"
  by code_simp

lemma codex_map_bases: "list_all (\<lambda>p. snd p \<in> set codex_bases) codex_model_map"
  by code_simp

lemma get_normalized_codex_base: "get_normalized_codex_model m \<in> set codex_bases"
proof -
  have "x \<in> set codex_bases" if "map_of codex_model_map k = Some x" for k x
    using map_of_SomeD [OF that] codex_map_bases by (auto simp: list_all_iff)
  then show ?thesis
    by (auto simp: get_normalized_codex_model_def Let_def codex_bases_def split: option.split)
qed

lemma codex_family_base: "codex_family n \<in> set codex_bases"
  by (simp add: codex_family_def codex_bases_def Let_def)

lemma normalize_known_codex_base: "normalize_known_codex m \<in> set codex_bases"
  using get_normalized_codex_base codex_family_base
  by (auto simp: normalize_known_codex_def Let_def) (auto simp: codex_bases_def)

text \<open>The base model billing derives from an OpenAI or Codex name, in whatever spelling, is one of a
fixed list of models and is its own base model: a name that was normalised once is priced like the
name it came from.\<close>

theorem codex_base_is_fixed:
  "normalize_known_codex m \<in> set codex_bases \<and> normalize_known_codex (normalize_known_codex m) = normalize_known_codex m"
  using normalize_known_codex_base [of m] codex_bases_fixed by (simp add: list_all_iff)

end
