(* ===== verification/Price_Catalog.thy ===== *)
theory Price_Catalog
  imports Model_Names
begin

text \<open>
  The price card of a model (service/billing_service.go): \<open>ModelPricing\<close> with its service tiers, the
  hard-coded table \<open>initFallbackPricing\<close> and the matcher \<open>getFallbackPricing\<close>, the model-specific
  corrections (DeepSeek's official prices with the cut-over of V4-Pro, the cache-write premium and the
  fast ratio of the GPT models, Opus 5.5), and \<open>getModelPricingAt\<close>. The catalogue downloaded by
  \<open>PricingService\<close> is an argument: it answers a name with an entry or nothing. Prices and multipliers
  are finite and exact (\<^typ>\<open>rat\<close>); token counts do not reach the range of \<open>int\<close>. A map of
  reasoning-effort multipliers is an association list.
\<close>

section \<open>The price card and its service tiers\<close>

record model_pricing =
  mp_ultrafast :: rat
  mp_input :: rat
  mp_input_pri :: rat
  mp_image_input :: rat
  mp_image_read :: rat
  mp_output :: rat
  mp_output_pri :: rat
  mp_write :: rat
  mp_write_pri :: rat
  mp_write_explicit :: bool
  mp_read :: rat
  mp_read_pri :: rat
  mp_fast :: "rat option"
  mp_flex :: "rat option"
  mp_efforts :: "(string \<times> rat) list"
  mp_write_5m :: rat
  mp_write_1h :: rat
  mp_breakdown :: bool
  mp_long_threshold :: int
  mp_long_inclusive :: bool
  mp_long_input :: rat
  mp_long_output :: rat
  mp_image_output :: rat
  mp_image_output_explicit :: bool

text \<open>The zero value \<open>ModelPricing{}\<close>.\<close>

definition no_pricing :: model_pricing where
  "no_pricing =
     \<lparr>mp_ultrafast = 0, mp_input = 0, mp_input_pri = 0, mp_image_input = 0, mp_image_read = 0,
      mp_output = 0, mp_output_pri = 0, mp_write = 0, mp_write_pri = 0, mp_write_explicit = False,
      mp_read = 0, mp_read_pri = 0, mp_fast = None, mp_flex = None, mp_efforts = [],
      mp_write_5m = 0, mp_write_1h = 0, mp_breakdown = False, mp_long_threshold = 0,
      mp_long_inclusive = False, mp_long_input = 0, mp_long_output = 0, mp_image_output = 0,
      mp_image_output_explicit = False\<rparr>"

definition normalize_billing_tier :: "string \<Rightarrow> string" where
  "normalize_billing_tier t = to_lower (trim_space t)"

definition use_priority_pricing :: "string \<Rightarrow> model_pricing \<Rightarrow> bool" where
  "use_priority_pricing tier p =
     (let t = normalize_billing_tier tier
      in if t \<noteq> ''priority'' \<and> t \<noteq> ''fast'' then False
         else if mp_fast p \<noteq> None then False
         else 0 < mp_input_pri p \<or> 0 < mp_output_pri p \<or> 0 < mp_write_pri p \<or> 0 < mp_read_pri p)"

definition tier_multiplier :: "string \<Rightarrow> rat" where
  "tier_multiplier tier =
     (let t = normalize_billing_tier tier
      in if t = ''priority'' \<or> t = ''fast'' \<or> t = ''ultrafast'' then 2
         else if t = ''flex'' then 1 / 2
         else 1)"

definition configured_tier_multiplier :: "string \<Rightarrow> model_pricing \<Rightarrow> rat" where
  "configured_tier_multiplier tier p =
     (let t = normalize_billing_tier tier
      in if t = ''ultrafast'' \<and> 0 < mp_ultrafast p then mp_ultrafast p
         else if (t = ''priority'' \<or> t = ''fast'') \<and> mp_fast p \<noteq> None then the (mp_fast p)
         else if t = ''flex'' \<and> mp_flex p \<noteq> None then the (mp_flex p)
         else tier_multiplier tier)"

definition with_priority_multiplier :: "model_pricing \<Rightarrow> rat \<Rightarrow> model_pricing" where
  "with_priority_multiplier p k =
     p\<lparr>mp_input_pri := mp_input p * k, mp_output_pri := mp_output p * k,
       mp_write_pri := mp_write p * k, mp_read_pri := mp_read p * k\<rparr>"

definition effort_multiplier :: "string \<Rightarrow> (string \<times> rat) list \<Rightarrow> rat" where
  "effort_multiplier effort ms =
     (let e = to_lower (trim_space effort);
          k = (if e \<noteq> ''none'' then normalize_max_reasoning_effort e else e)
      in if k = [] then 1
         else case map_of ms k of None \<Rightarrow> 1 | Some x \<Rightarrow> if x \<le> 0 then 1 else x)"

section \<open>DeepSeek\<close>

text \<open>A price as the source writes it: \<open>em m k\<close> is \<open>m\<close>e-\<open>k\<close>.\<close>

definition em :: "rat \<Rightarrow> nat \<Rightarrow> rat" where
  "em m k = m / 10 ^ k"

definition deepseekFlashOffPeakInputPrice :: rat where "deepseekFlashOffPeakInputPrice = em 1.5 7"
definition deepseekFlashOffPeakOutputPrice :: rat where "deepseekFlashOffPeakOutputPrice = em 6.0 7"
definition deepseekFlashOffPeakCacheRead :: rat where "deepseekFlashOffPeakCacheRead = em 3 9"
definition deepseekProOffPeakInputPrice :: rat where "deepseekProOffPeakInputPrice = em 6.6 7"
definition deepseekProOffPeakOutputPrice :: rat where "deepseekProOffPeakOutputPrice = em 1.98 6"
definition deepseekProOffPeakCacheRead :: rat where "deepseekProOffPeakCacheRead = em 2.2 8"

text \<open>A moment counts nanoseconds from midnight of 1 January of year 1 (UTC), a Monday; Beijing is
eight hours ahead.\<close>

definition day_of :: "gotime \<Rightarrow> int" where "day_of t = t div (24 * Hour)"
definition hour_of :: "gotime \<Rightarrow> int" where "hour_of t = t div Hour mod 24"

definition deepseek_peak_multiplier :: "gotime \<Rightarrow> rat" where
  "deepseek_peak_multiplier now =
     (let weekday = day_of (now + 8 * Hour) mod 7; h = hour_of now
      in if weekday = 5 \<or> weekday = 6 then 1
         else if 1 \<le> h \<and> h < 4 \<or> 6 \<le> h \<and> h < 10 then 2
         else 1)"

text \<open>2026-09-14 04:00 UTC is day 739872.\<close>

definition deepseek_pro_cutover :: gotime where
  "deepseek_pro_cutover = 739872 * (24 * Hour) + 4 * Hour"

definition deepseek_pro_billed_as_flash :: "gotime \<Rightarrow> gotime \<Rightarrow> bool" where
  "deepseek_pro_billed_as_flash now at0 =
     (let pricing_at = (if is_zero at0 then now else at0) in \<not> before pricing_at deepseek_pro_cutover)"

section \<open>The hard-coded table\<close>

definition fallback_claude :: "(string \<times> model_pricing) list" where
  "fallback_claude =
    (let opus45 = no_pricing\<lparr>mp_input := em 5 6, mp_output := em 25 6, mp_write := em 6.25 6, mp_read := em 0.5 6\<rparr>;
         opus48 = with_priority_multiplier opus45 2
     in
    [(''claude-opus-4.5'', opus45),
     (''claude-sonnet-4'', no_pricing\<lparr>mp_input := em 3 6, mp_output := em 15 6, mp_write := em 3.75 6,
        mp_read := em 0.3 6\<rparr>),
     (''claude-3-5-sonnet'', no_pricing\<lparr>mp_input := em 3 6, mp_output := em 15 6, mp_write := em 3.75 6,
        mp_read := em 0.3 6\<rparr>),
     (''claude-3-5-haiku'', no_pricing\<lparr>mp_input := em 1 6, mp_output := em 5 6, mp_write := em 1.25 6,
        mp_read := em 0.1 6\<rparr>),
     (''claude-3-opus'', no_pricing\<lparr>mp_input := em 15 6, mp_output := em 75 6, mp_write := em 18.75 6,
        mp_read := em 1.5 6\<rparr>),
     (''claude-3-haiku'', no_pricing\<lparr>mp_input := em 0.25 6, mp_output := em 1.25 6, mp_write := em 0.3 6,
        mp_read := em 0.03 6\<rparr>),
     (''claude-opus-4.6'', opus45),
     (''claude-opus-4.7'', opus45),
     (''claude-opus-4.8'', opus48),
     (''claude-opus-5'', with_priority_multiplier opus48 2),
     (''claude-opus-5-5'', no_pricing\<lparr>mp_input := em 4 6, mp_output := em 20 6, mp_write := em 5 6,
        mp_read := em 0.2 6, mp_write_5m := em 5 6, mp_write_1h := em 8 6, mp_breakdown := True\<rparr>),
     (''claude-sonnet-5-5'', no_pricing\<lparr>mp_input := em 2 6, mp_output := em 10 6, mp_write := em 2.5 6,
        mp_read := em 0.2 6, mp_write_5m := em 2.5 6, mp_write_1h := em 4 6, mp_breakdown := True\<rparr>),
     (''claude-haiku-5-5'', no_pricing\<lparr>mp_input := em 0.1 6, mp_output := em 0.5 6,
        mp_write := em 0.125 6, mp_read := em 0.01 6, mp_write_5m := em 0.125 6, mp_write_1h := em 0.2 6,
        mp_breakdown := True, mp_long_threshold := 100000, mp_long_input := 5, mp_long_output := 5\<rparr>),
     (''claude-fable-5'', no_pricing\<lparr>mp_input := em 10 6, mp_output := em 50 6, mp_write := em 12.5 6,
        mp_write_5m := em 12.5 6, mp_write_1h := em 20 6, mp_read := em 1 6, mp_breakdown := True\<rparr>),
     (''claude-fable-5-1'', no_pricing\<lparr>mp_input := em 10 6, mp_output := em 50 6, mp_write := em 12.5 6,
        mp_write_5m := em 12.5 6, mp_write_1h := em 20 6, mp_read := em 0.25 6, mp_breakdown := True\<rparr>)])"

definition fallback_gemini :: "(string \<times> model_pricing) list" where
  "fallback_gemini =
    [(''gemini-3.1-pro'', no_pricing\<lparr>mp_input := em 2 6, mp_output := em 12 6, mp_write := em 2 6,
        mp_read := em 0.2 6\<rparr>),
     (''gemini-3.6-flash'', no_pricing\<lparr>mp_input := em 0.75 6, mp_output := em 3.75 6,
        mp_read := em 0.075 6\<rparr>),
     (''gemini-3.7-flash'', no_pricing\<lparr>mp_input := em 0.75 6, mp_output := em 3.75 6,
        mp_read := em 0.075 6\<rparr>),
     (''gemini-3.8-flash'', no_pricing\<lparr>mp_input := em 0.75 6, mp_output := em 3.75 6,
        mp_read := em 0.075 6\<rparr>),
     (''gemini-4-argon'', no_pricing\<lparr>mp_input := em 2 6, mp_output := em 10 6, mp_read := em 0.1 6\<rparr>),
     (''gemini-4-argon-cyber-permissive'', no_pricing\<lparr>mp_input := em 4 6, mp_output := em 20 6,
        mp_read := em 0.2 6\<rparr>)]"

definition fallback_openai :: "(string \<times> model_pricing) list" where
  "fallback_openai =
    [(''gpt-5.4'', no_pricing\<lparr>mp_input := em 2.5 6, mp_input_pri := em 5 6, mp_output := em 15 6,
        mp_output_pri := em 30 6, mp_write := em 2.5 6, mp_read := em 0.25 6, mp_read_pri := em 0.5 6\<rparr>),
     (''gpt-5.5'', with_priority_multiplier (no_pricing\<lparr>mp_input := em 5 6, mp_output := em 30 6,
        mp_write := em 5 6, mp_read := em 0.5 6\<rparr>) 2.5),
     (''gpt-5.5-pro'', no_pricing\<lparr>mp_input := em 30 6, mp_output := em 180 6, mp_write := em 30 6,
        mp_read := em 30 6\<rparr>),
     (''gpt-6-astra'', no_pricing\<lparr>mp_input := em 10 6, mp_input_pri := em 20 6, mp_output := em 50 6,
        mp_output_pri := em 100 6, mp_write := em 12.5 6, mp_write_pri := em 25 6, mp_read := em 1 6,
        mp_read_pri := em 2 6, mp_long_threshold := 272000, mp_long_input := 2, mp_long_output := 1.5\<rparr>),
     (''gpt-6.1-sol'', no_pricing\<lparr>mp_input := em 2 6, mp_input_pri := em 4 6, mp_output := em 10 6,
        mp_output_pri := em 20 6, mp_write := em 2.5 6, mp_write_pri := em 5 6, mp_read := em 0.1 6,
        mp_read_pri := em 0.2 6, mp_write_explicit := True, mp_long_threshold := 272000, mp_long_input := 2,
        mp_long_output := 1.5\<rparr>),
     (''gpt-6-sol'', no_pricing\<lparr>mp_input := em 2 6, mp_input_pri := em 4 6, mp_output := em 10 6,
        mp_output_pri := em 20 6, mp_write := em 2.5 6, mp_write_pri := em 5 6, mp_read := em 0.2 6,
        mp_read_pri := em 0.4 6, mp_write_explicit := True, mp_long_threshold := 272000, mp_long_input := 2,
        mp_long_output := 1.5\<rparr>),
     (''gpt-6-luna'', no_pricing\<lparr>mp_input := em 0.1 6, mp_input_pri := em 0.2 6, mp_output := em 0.5 6,
        mp_output_pri := em 1 6, mp_write := em 0.125 6, mp_write_pri := em 0.25 6, mp_read := em 0.01 6,
        mp_read_pri := em 0.02 6, mp_write_explicit := True, mp_long_threshold := 272000, mp_long_input := 2,
        mp_long_output := 1.5\<rparr>),
     (''gpt-5.6-sol'', no_pricing\<lparr>mp_input := em 5 6, mp_input_pri := em 10 6, mp_output := em 30 6,
        mp_output_pri := em 60 6, mp_write := em 6.25 6, mp_write_pri := em 12.5 6, mp_read := em 0.5 6,
        mp_read_pri := em 1 6\<rparr>),
     (''gpt-5.6-terra'', no_pricing\<lparr>mp_input := em 2 6, mp_input_pri := em 4 6, mp_output := em 12 6,
        mp_output_pri := em 24 6, mp_write := em 2.5 6, mp_write_pri := em 5 6, mp_read := em 0.2 6,
        mp_read_pri := em 0.4 6\<rparr>),
     (''gpt-5.6-luna'', no_pricing\<lparr>mp_input := em 0.2 6, mp_input_pri := em 0.4 6, mp_output := em 1.2 6,
        mp_output_pri := em 2.4 6, mp_write := em 0.25 6, mp_write_pri := em 0.5 6, mp_read := em 0.02 6,
        mp_read_pri := em 0.04 6\<rparr>),
     (''gpt-5.4-mini'', no_pricing\<lparr>mp_input := em 7.5 7, mp_output := em 4.5 6, mp_read := em 7.5 8\<rparr>),
     (''gpt-5.4-nano'', no_pricing\<lparr>mp_input := em 2 7, mp_output := em 1.25 6, mp_read := em 2 8\<rparr>),
     (''gpt-5.2'', no_pricing\<lparr>mp_input := em 1.75 6, mp_input_pri := em 3.5 6, mp_output := em 14 6,
        mp_output_pri := em 28 6, mp_write := em 1.75 6, mp_read := em 0.175 6, mp_read_pri := em 0.35 6\<rparr>),
     (''gpt-5.3-codex'', no_pricing\<lparr>mp_input := em 1.5 6, mp_input_pri := em 3 6, mp_output := em 12 6,
        mp_output_pri := em 24 6, mp_write := em 1.5 6, mp_read := em 0.15 6, mp_read_pri := em 0.3 6\<rparr>)]"

definition fallback_deepseek :: "(string \<times> model_pricing) list" where
  "fallback_deepseek =
    [(''deepseek-v4-pro'', no_pricing\<lparr>mp_input := deepseekProOffPeakInputPrice,
        mp_output := deepseekProOffPeakOutputPrice, mp_read := deepseekProOffPeakCacheRead\<rparr>),
     (''deepseek-v4-flash'', no_pricing\<lparr>mp_input := deepseekFlashOffPeakInputPrice,
        mp_output := deepseekFlashOffPeakOutputPrice, mp_read := deepseekFlashOffPeakCacheRead\<rparr>),
     (''deepseek-v4-flash-vision-exp'', no_pricing\<lparr>mp_input := deepseekFlashOffPeakInputPrice,
        mp_output := deepseekFlashOffPeakOutputPrice, mp_read := deepseekFlashOffPeakCacheRead\<rparr>)]"

definition fallback_jev :: "(string \<times> model_pricing) list" where
  "fallback_jev =
    [(''jev-latest'', no_pricing\<lparr>mp_input := 0.042 / 1000000\<rparr>)]"

definition fallback_glm :: "(string \<times> model_pricing) list" where
  "fallback_glm =
    [(''glm-5.3-flash'', no_pricing\<lparr>mp_input := em 0.15 6, mp_output := em 0.5 6,
        mp_read := em 0.03 6\<rparr>),
     (''glm-5.3'', no_pricing\<lparr>mp_input := em 1.4 6, mp_output := em 4.4 6, mp_read := em 0.26 6\<rparr>),
     (''glm-5.2'', no_pricing\<lparr>mp_input := em 1.4 6, mp_output := em 4.4 6, mp_read := em 0.26 6\<rparr>),
     (''glm-5.1'', no_pricing\<lparr>mp_input := em 1.4 6, mp_output := em 4.4 6, mp_read := em 0.26 6\<rparr>),
     (''glm-5'', no_pricing\<lparr>mp_input := em 1 6, mp_output := em 3.2 6, mp_read := em 0.2 6\<rparr>),
     (''glm-5-turbo'', no_pricing\<lparr>mp_input := em 1.2 6, mp_output := em 4 6, mp_read := em 0.24 6\<rparr>),
     (''glm-4.7'', no_pricing\<lparr>mp_input := em 0.6 6, mp_output := em 2.2 6, mp_read := em 0.11 6\<rparr>),
     (''glm-4.7-flashx'', no_pricing\<lparr>mp_input := em 0.07 6, mp_output := em 0.4 6,
        mp_read := em 0.01 6\<rparr>),
     (''glm-4.6'', no_pricing\<lparr>mp_input := em 0.6 6, mp_output := em 2.2 6, mp_read := em 0.11 6\<rparr>),
     (''glm-4.5'', no_pricing\<lparr>mp_input := em 0.6 6, mp_output := em 2.2 6, mp_read := em 0.11 6\<rparr>),
     (''glm-4.5-x'', no_pricing\<lparr>mp_input := em 2.2 6, mp_output := em 8.9 6, mp_read := em 0.45 6\<rparr>),
     (''glm-4.5-air'', no_pricing\<lparr>mp_input := em 0.2 6, mp_output := em 1.1 6, mp_read := em 0.03 6\<rparr>),
     (''glm-4.5-airx'', no_pricing\<lparr>mp_input := em 1.1 6, mp_output := em 4.5 6, mp_read := em 0.22 6\<rparr>),
     (''glm-4-32b-0414-128k'', no_pricing\<lparr>mp_input := em 0.1 6, mp_output := em 0.1 6\<rparr>),
     (''glm-4.5-flash'', no_pricing),
     (''glm-4.7-flash'', no_pricing)]"

definition fallback_kimi :: "(string \<times> model_pricing) list" where
  "fallback_kimi =
    [(''kimi-k3'', no_pricing\<lparr>mp_input := em 3 6, mp_output := em 15 6, mp_read := em 0.30 6\<rparr>),
     (''kimi-k2.6'', no_pricing\<lparr>mp_input := em 0.95 6, mp_output := em 4 6, mp_read := em 0.15 6\<rparr>),
     (''kimi-for-coding'', no_pricing\<lparr>mp_input := em 0.95 6, mp_output := em 4 6,
        mp_read := em 0.15 6\<rparr>),
     (''kimi-k2.5'', no_pricing\<lparr>mp_input := em 0.60 6, mp_output := em 3 6, mp_read := em 0.098 6\<rparr>),
     (''kimi-k2-thinking'', no_pricing\<lparr>mp_input := em 0.56 6, mp_output := em 2.24 6,
        mp_read := em 0.14 6\<rparr>),
     (''kimi-k2'', no_pricing\<lparr>mp_input := em 0.56 6, mp_output := em 2.24 6, mp_read := em 0.14 6\<rparr>)]"

definition fallback_minimax :: "(string \<times> model_pricing) list" where
  "fallback_minimax =
    [(''minimax-m3'', no_pricing\<lparr>mp_input := em 0.60 6, mp_output := em 2.40 6, mp_read := em 0.12 6\<rparr>),
     (''minimax-m2.7'', no_pricing\<lparr>mp_input := em 0.30 6, mp_output := em 1.20 6,
        mp_read := em 0.06 6\<rparr>),
     (''minimax-m2.7-highspeed'', no_pricing\<lparr>mp_input := em 0.60 6, mp_output := em 2.40 6,
        mp_read := em 0.06 6\<rparr>),
     (''minimax-m2.5'', no_pricing\<lparr>mp_input := em 0.30 6, mp_output := em 1.20 6,
        mp_read := em 0.03 6\<rparr>),
     (''minimax-m2.1'', no_pricing\<lparr>mp_input := em 0.30 6, mp_output := em 1.20 6,
        mp_read := em 0.03 6\<rparr>),
     (''minimax-m2'', no_pricing\<lparr>mp_input := em 0.30 6, mp_output := em 1.20 6, mp_read := em 0.03 6\<rparr>)]"

definition fallback_doubao :: "(string \<times> model_pricing) list" where
  "fallback_doubao =
    [(''doubao-embedding-vision'', no_pricing\<lparr>mp_input := em 0.098 6, mp_image_input := em 0.252 6\<rparr>)]"

definition fallback_grok :: "(string \<times> model_pricing) list" where
  "fallback_grok =
    [(''grok-4.5'', no_pricing\<lparr>mp_input := em 2 6, mp_output := em 6 6, mp_read := em 0.3 6,
        mp_long_threshold := 200000, mp_long_inclusive := True, mp_long_input := 2, mp_long_output := 2\<rparr>),
     (''grok-4.6'', no_pricing\<lparr>mp_input := em 2 6, mp_output := em 6 6, mp_read := em 0.5 6,
        mp_long_threshold := 200000, mp_long_inclusive := True, mp_long_input := 2, mp_long_output := 2\<rparr>),
     (''grok-4.7'', no_pricing\<lparr>mp_input := em 2 6, mp_output := em 6 6, mp_read := em 0.5 6,
        mp_long_threshold := 200000, mp_long_inclusive := True, mp_long_input := 2, mp_long_output := 2\<rparr>),
     (''grok-4.3'', no_pricing\<lparr>mp_input := em 1.25 6, mp_output := em 2.5 6, mp_read := em 0.2 6,
        mp_long_threshold := 200000, mp_long_inclusive := True, mp_long_input := 2, mp_long_output := 2\<rparr>),
     (''grok-4.20'', no_pricing\<lparr>mp_input := em 1.25 6, mp_output := em 2.5 6, mp_read := em 0.2 6,
        mp_long_threshold := 200000, mp_long_inclusive := True, mp_long_input := 2, mp_long_output := 2\<rparr>),
     (''grok-3-mini'', no_pricing\<lparr>mp_input := em 0.30 6, mp_output := em 0.50 6,
        mp_read := em 0.075 6\<rparr>),
     (''grok-3-mini-fast'', no_pricing\<lparr>mp_input := em 0.60 6, mp_output := em 4 6,
        mp_read := em 0.15 6\<rparr>),
     (''grok-build-0.1'', no_pricing\<lparr>mp_input := em 1 6, mp_output := em 2 6, mp_read := em 0.2 6,
        mp_long_threshold := 200000, mp_long_inclusive := True, mp_long_input := 2, mp_long_output := 2\<rparr>)]"

definition fallback_prices :: "(string \<times> model_pricing) list" where
  "fallback_prices =
     fallback_claude @ fallback_gemini @ fallback_openai @ fallback_deepseek @ fallback_jev @ fallback_glm @
     fallback_kimi @ fallback_minimax @ fallback_doubao @ fallback_grok"

section \<open>Matching a name to a row of the table\<close>

text \<open>Each part of \<open>getFallbackPricing\<close> names the row it returns.\<close>

definition match_claude :: "string \<Rightarrow> string option" where
  "match_claude m =
    (if is_claude_fable51 m then Some ''claude-fable-5-1'' else
     if contains m ''fable-5'' \<or> contains m ''fable5'' then Some ''claude-fable-5'' else
     if is_opus55 m then Some ''claude-opus-5-5'' else
     if is_sonnet55 m then Some ''claude-sonnet-5-5'' else
     if is_haiku55 m then Some ''claude-haiku-5-5'' else
     if contains m ''opus'' then
       (if contains m ''opus-5'' \<or> contains m ''opus5'' then Some ''claude-opus-5'' else
        if contains m ''4.8'' \<or> contains m ''4-8'' then Some ''claude-opus-4.8'' else
        if contains m ''4.7'' \<or> contains m ''4-7'' then Some ''claude-opus-4.7'' else
        if contains m ''4.6'' \<or> contains m ''4-6'' then Some ''claude-opus-4.6'' else
        if contains m ''4.5'' \<or> contains m ''4-5'' then Some ''claude-opus-4.5'' else
        Some ''claude-3-opus'')
     else
     if contains m ''sonnet'' then
       (if contains m ''4'' \<and> \<not> contains m ''3'' then Some ''claude-sonnet-4'' else
        Some ''claude-3-5-sonnet'')
     else
     if contains m ''haiku'' then
       (if contains m ''3-5'' \<or> contains m ''3.5'' then Some ''claude-3-5-haiku'' else
        Some ''claude-3-haiku'')
     else
     if contains m ''claude'' then Some ''claude-sonnet-4'' else
     None)"

definition match_gemini_deepseek :: "string \<Rightarrow> string option" where
  "match_gemini_deepseek m =
    (if contains m ''gemini-3.1-pro'' \<or> contains m ''gemini-3-1-pro'' then Some ''gemini-3.1-pro'' else
     if contains m ''gemini-3.6-flash'' \<or> contains m ''gemini-3-6-flash'' then Some ''gemini-3.6-flash'' else
     if contains m ''gemini-3.7-flash'' \<or> contains m ''gemini-3-7-flash'' then Some ''gemini-3.7-flash'' else
     if contains m ''gemini-3.8-flash'' \<or> contains m ''gemini-3-8-flash'' then Some ''gemini-3.8-flash'' else
     if contains m ''gemini-4-argon-cyber'' then Some ''gemini-4-argon-cyber-permissive'' else
     if contains m ''gemini-4-argon'' then Some ''gemini-4-argon'' else
     if contains m ''deepseek-v4-flash-vision-exp'' then Some ''deepseek-v4-flash-vision-exp'' else
     if contains m ''deepseek-v4-flash'' then Some ''deepseek-v4-flash'' else
     if contains m ''deepseek-v4-pro'' then Some ''deepseek-v4-pro'' else
     if has_prefix m ''deepseek-'' then Some ''deepseek-v4-flash'' else
     None)"

definition match_glm :: "string \<Rightarrow> string option" where
  "match_glm m =
    (if contains m ''glm-5.3-flash'' \<or> contains m ''glm-5.3flash'' then Some ''glm-5.3-flash'' else
     if contains m ''glm-5.3'' then Some ''glm-5.3'' else
     if contains m ''glm-5.2'' then Some ''glm-5.2'' else
     if contains m ''glm-5.1'' then Some ''glm-5.1'' else
     if contains m ''glm-5-turbo'' \<or> contains m ''glm-5turbo'' then Some ''glm-5-turbo'' else
     if contains m ''glm-5'' then Some ''glm-5'' else
     if contains m ''glm-4.7-flashx'' then Some ''glm-4.7-flashx'' else
     if contains m ''glm-4.7-flash'' then Some ''glm-4.7-flash'' else
     if contains m ''glm-4.7'' then Some ''glm-4.7'' else
     if contains m ''glm-4.6'' then Some ''glm-4.6'' else
     if contains m ''glm-4.5-flash'' then Some ''glm-4.5-flash'' else
     if contains m ''glm-4.5-x'' \<or> contains m ''glm-4.5x'' then Some ''glm-4.5-x'' else
     if contains m ''glm-4.5-airx'' \<or> contains m ''glm-4.5airx'' then Some ''glm-4.5-airx'' else
     if contains m ''glm-4.5-air'' \<or> contains m ''glm-4.5air'' then Some ''glm-4.5-air'' else
     if contains m ''glm-4.5'' then Some ''glm-4.5'' else
     if contains m ''glm-4-32b'' then Some ''glm-4-32b-0414-128k'' else
     None)"

definition match_kimi_minimax :: "string \<Rightarrow> string option" where
  "match_kimi_minimax m =
    (if contains m ''kimi-for-coding'' then Some ''kimi-for-coding'' else
     if m = ''kimi-k3'' \<or> has_suffix m ''/kimi-k3'' \<or> m = ''k3'' \<or> m = ''k3-256k'' \<or>
        has_suffix m ''/k3'' \<or> has_suffix m ''/k3-256k'' then Some ''kimi-k3'' else
     if contains m ''kimi-k2.6'' \<or> contains m ''kimi-k2-6'' then Some ''kimi-k2.6'' else
     if contains m ''kimi-k2.5'' \<or> contains m ''kimi-k2-5'' then Some ''kimi-k2.5'' else
     if contains m ''kimi-k2-thinking'' \<or> contains m ''kimi-k2-thinking-'' then Some ''kimi-k2-thinking'' else
     if contains m ''kimi-k2'' \<or> contains m ''kimi/k2'' then Some ''kimi-k2'' else
     if contains m ''minimax-m3'' then Some ''minimax-m3'' else
     if contains m ''minimax-m2.7-highspeed'' \<or>
        contains m ''minimax-m2-7-highspeed'' then Some ''minimax-m2.7-highspeed'' else
     if contains m ''minimax-m2.7'' \<or> contains m ''minimax-m2-7'' then Some ''minimax-m2.7'' else
     if contains m ''minimax-m2.5'' \<or> contains m ''minimax-m2-5'' then Some ''minimax-m2.5'' else
     if contains m ''minimax-m2.1'' \<or> contains m ''minimax-m2-1'' then Some ''minimax-m2.1'' else
     if contains m ''minimax-m2'' \<or> contains m ''minimax-m-2'' then Some ''minimax-m2'' else
     if contains m ''doubao-embedding-vision'' then Some ''doubao-embedding-vision'' else
     None)"

text \<open>The rows named by the base model of an OpenAI name; \<open>codex-auto-review\<close> has none.\<close>

definition priced_bases :: "string list" where
  "priced_bases =
     [''gpt-6.1-sol'', ''gpt-6-sol'', ''gpt-6-luna'', ''gpt-6-astra'', ''gpt-5.6-sol'', ''gpt-5.6-terra'',
      ''gpt-5.6-luna'', ''gpt-5.5-pro'', ''gpt-5.5'', ''gpt-5.4-mini'', ''gpt-5.4-nano'', ''gpt-5.4'', ''gpt-5.2'']"

definition match_openai :: "string \<Rightarrow> string option" where
  "match_openai m =
     (let n = normalize_known_codex m
      in if n \<in> set priced_bases then Some n
         else if n = ''gpt-5.3-codex'' \<or> n = ''gpt-5.3-codex-spark'' then Some ''gpt-5.3-codex''
         else None)"

definition match_grok :: "string \<Rightarrow> string option" where
  "match_grok m =
     (if m \<in> set [''grok'', ''grok-latest'', ''grok-4.6'', ''grok-4.6-latest''] then Some ''grok-4.6''
      else if m \<in> set [''grok-4.7'', ''grok-4.7-latest''] then Some ''grok-4.7''
      else if m \<in> set [''grok-4.5'', ''grok-4.5-latest''] then Some ''grok-4.5''
      else if m = ''grok-3-mini'' then Some ''grok-3-mini''
      else if m = ''grok-3-mini-fast'' then Some ''grok-3-mini-fast''
      else if m = ''grok-4.3'' then Some ''grok-4.3''
      else if m \<in> set [''grok-4.20-0309-reasoning'', ''grok-4.20-0309-non-reasoning'', ''grok-4.20-multi-agent-0309'',
                        ''grok-4.20-reasoning'', ''grok-4.20-non-reasoning''] then Some ''grok-4.20''
      else if m \<in> set [''grok-build'', ''grok-build-latest'', ''grok-build-0.1'', ''grok-composer'',
                        ''grok-composer-2.5-fast'', ''composer-2.5''] then Some ''grok-build-0.1''
      else if is_grok_unknown_text_family m then Some ''grok-4.6''
      else None)"

fun first_match :: "(string \<Rightarrow> string option) list \<Rightarrow> string \<Rightarrow> string option" where
  "first_match [] m = None"
| "first_match (f # fs) m = (case f m of Some k \<Rightarrow> Some k | None \<Rightarrow> first_match fs m)"

definition fallback_key :: "string \<Rightarrow> string option" where
  "fallback_key model =
     (let m = normalize_antigravity_claude (to_lower model)
      in if m = ''jev-latest'' then Some ''jev-latest''
         else first_match [match_claude, match_gemini_deepseek, match_glm, match_kimi_minimax, match_openai, match_grok] m)"

definition get_fallback_pricing :: "string \<Rightarrow> model_pricing option" where
  "get_fallback_pricing model = (case fallback_key model of None \<Rightarrow> None | Some k \<Rightarrow> map_of fallback_prices k)"

section \<open>Corrections of a price card\<close>

definition openai_fast_ratio :: "string \<Rightarrow> rat" where
  "openai_fast_ratio n =
     (if n \<in> set [''gpt-5.4'', ''gpt-5.6-sol'', ''gpt-5.6-terra'', ''gpt-5.6-luna'', ''gpt-6-astra'', ''gpt-6.1-sol'',
                  ''gpt-6-sol'', ''gpt-6-luna''] then 2
      else if n = ''gpt-5.5'' then 2.5
      else if is_openai_gpt6_astra n then 2
      else 0)"

definition enforce_fast_ratio :: "model_pricing \<Rightarrow> rat \<Rightarrow> model_pricing" where
  "enforce_fast_ratio p ratio =
     (if ratio \<le> 0 then p
      else
        let p1 = p\<lparr>mp_input_pri := mp_input p * ratio, mp_output_pri := mp_output p * ratio\<rparr>;
            p2 = (if 0 < mp_read p1 then p1\<lparr>mp_read_pri := mp_read p1 * ratio\<rparr> else p1)
        in if 0 < mp_write p2 then p2\<lparr>mp_write_pri := mp_write p2 * ratio\<rparr> else p2)"

definition uses_write_premium :: "string \<Rightarrow> bool" where
  "uses_write_premium n = (is_openai_gpt56 n \<or> is_gpt6_sol_or_luna n \<or> is_gpt61_sol n)"

definition add_write_premium :: "model_pricing \<Rightarrow> model_pricing" where
  "add_write_premium p =
     (let p1 = (if mp_write p \<le> 0 then p\<lparr>mp_write := mp_input p * 1.25\<rparr> else p)
      in if mp_write_pri p1 \<le> 0 then p1\<lparr>mp_write_pri := mp_input_pri p1 * 1.25\<rparr> else p1)"

definition deepseek_official :: "string \<Rightarrow> gotime \<Rightarrow> gotime \<Rightarrow> model_pricing \<Rightarrow> model_pricing" where
  "deepseek_official model now at0 p =
     (if is_deepseek_pro model \<and> \<not> deepseek_pro_billed_as_flash now at0
      then p\<lparr>mp_input := deepseekProOffPeakInputPrice, mp_output := deepseekProOffPeakOutputPrice,
             mp_read := deepseekProOffPeakCacheRead\<rparr>
      else p\<lparr>mp_input := deepseekFlashOffPeakInputPrice, mp_output := deepseekFlashOffPeakOutputPrice,
             mp_read := deepseekFlashOffPeakCacheRead\<rparr>)"

definition apply_model_policy :: "gotime \<Rightarrow> string \<Rightarrow> model_pricing \<Rightarrow> bool \<Rightarrow> gotime \<Rightarrow> model_pricing" where
  "apply_model_policy now model p force_deepseek at0 =
     (if force_deepseek \<and> is_deepseek model then deepseek_official model now at0 p
      else
        let n = normalize_known_codex model;
            premium = uses_write_premium n;
            needs_write = (premium \<and> \<not> mp_write_explicit p \<and>
                           (mp_write p \<le> 0 \<or> 0 < mp_input_pri p \<and> mp_write_pri p \<le> 0));
            ratio = openai_fast_ratio n;
            needs_opus = (is_opus55 model \<and> mp_fast p = None)
        in if \<not> needs_write \<and> ratio \<le> 0 \<and> \<not> needs_opus then p
           else
             let p1 = (if is_openai_gpt6_astra n then p\<lparr>mp_ultrafast := 6\<rparr> else p);
                 p2 = (if needs_opus then p1\<lparr>mp_fast := Some 2\<rparr> else p1);
                 p3 = (if premium \<and> \<not> mp_write_explicit p2 then add_write_premium p2 else p2)
             in if 0 < ratio then
                  let p4 = enforce_fast_ratio p3 ratio
                  in if (is_gpt6_sol_or_luna n \<or> is_gpt61_sol n) \<and> mp_write_explicit p4
                     then p4\<lparr>mp_write_pri := mp_write p4 * ratio\<rparr> else p4
                else p3)"

section \<open>The price of a model\<close>

record litellm_pricing =
  li_input :: rat
  li_input_pri :: rat
  li_output :: rat
  li_output_pri :: rat
  li_write_explicit :: bool
  li_write :: rat
  li_write_pri :: rat
  li_write_1h :: rat
  li_read :: rat
  li_read_pri :: rat
  li_long_threshold :: int
  li_long_input :: rat
  li_long_output :: rat
  li_provider :: string
  li_image_input :: rat
  li_image_read :: rat
  li_image_output :: rat
  li_per_image :: rat
  li_token_absent :: bool

type_synonym catalogue = "string \<Rightarrow> litellm_pricing option"

datatype price_error = PricingUnavailable

definition catalogue_card :: "string \<Rightarrow> litellm_pricing \<Rightarrow> model_pricing" where
  "catalogue_card m e =
     no_pricing\<lparr>mp_input := li_input e, mp_input_pri := li_input_pri e, mp_output := li_output e,
       mp_output_pri := li_output_pri e,
       mp_write_explicit := (is_gpt6_sol_or_luna m \<or> is_gpt61_sol m) \<and> li_write_explicit e,
       mp_write := li_write e, mp_write_pri := li_write_pri e, mp_read := li_read e, mp_read_pri := li_read_pri e,
       mp_write_5m := li_write e, mp_write_1h := li_write_1h e,
       mp_breakdown := 0 < li_write_1h e \<and> li_write e < li_write_1h e,
       mp_long_threshold := li_long_threshold e, mp_long_inclusive := equal_fold (li_provider e) ''xai'',
       mp_long_input := li_long_input e, mp_long_output := li_long_output e,
       mp_image_input := li_image_input e, mp_image_read := li_image_read e,
       mp_image_output := li_image_output e\<rparr>"

definition get_model_pricing_at :: "catalogue \<Rightarrow> gotime \<Rightarrow> string \<Rightarrow> gotime \<Rightarrow> price_error + model_pricing" where
  "get_model_pricing_at catalog now model at0 =
     (let m = to_lower model;
          listed = (case catalog m of None \<Rightarrow> None | Some e \<Rightarrow> if li_token_absent e then None else Some e)
      in case listed of
           Some e \<Rightarrow> Inr (apply_model_policy now m (catalogue_card m e) True at0)
         | None \<Rightarrow>
             (case get_fallback_pricing m of
                Some p \<Rightarrow> Inr (apply_model_policy now m p True at0)
              | None \<Rightarrow> Inl PricingUnavailable))"

definition get_model_pricing :: "catalogue \<Rightarrow> gotime \<Rightarrow> string \<Rightarrow> price_error + model_pricing" where
  "get_model_pricing catalog now model = get_model_pricing_at catalog now model now"

text \<open>\<open>GetIdentifiedModelPricing\<close>, the catalogue without guesses by substring, is an argument as well.\<close>

definition has_identified_token_pricing :: "catalogue \<Rightarrow> string \<Rightarrow> bool" where
  "has_identified_token_pricing identified model =
     (let m = to_lower (trim_space model)
      in if m = [] then False
         else if (case identified m of None \<Rightarrow> False | Some e \<Rightarrow> \<not> li_token_absent e) then True
         else map_of fallback_prices m \<noteq> None)"

definition is_model_supported :: "string \<Rightarrow> bool" where
  "is_model_supported model =
     (let m = to_lower model
      in contains m ''claude'' \<or> contains m ''opus'' \<or> contains m ''sonnet'' \<or> contains m ''haiku'')"

end
