(* ===== verification/Model_Pricing.thy ===== *)
theory Model_Pricing
  imports Price_Catalog Currency
begin

text \<open>
  Where the price of a request comes from (service/channel.go, custom_channel_time_pricing.go,
  model_pricing_resolver.go): the operator's price rows of a channel or a group with their context
  intervals, tiers and time multipliers, the overrides of the catalogue card, and the resolver
  (group, channel, catalogue, hard-coded table). The lookup of a channel row by group and model,
  the catalogue, the clock and the time zones are the fields of \<open>pricing_env\<close>; a time zone maps a
  moment to the weekday (0 is Sunday) and the second of the day. A billing mode is its string.
\<close>

section \<open>Operator price rows\<close>

record pricing_interval =
  pi_min :: int
  pi_max :: "int option"
  pi_label :: string
  pi_input :: "rat option"
  pi_output :: "rat option"
  pi_write :: "rat option"
  pi_write_1h :: "rat option"
  pi_read :: "rat option"
  pi_input_mult :: "rat option"
  pi_output_mult :: "rat option"
  pi_write_mult :: "rat option"
  pi_read_mult :: "rat option"
  pi_per_request :: "rat option"

record time_period =
  tp_start :: string
  tp_end :: string
  tp_multiplier :: rat

record time_pricing =
  ti_zone :: string
  ti_weekdays :: bool
  ti_periods :: "time_period list"

record channel_pricing =
  cp_models :: "string list"
  cp_mode :: string
  cp_input :: "rat option"
  cp_output :: "rat option"
  cp_write :: "rat option"
  cp_write_1h :: "rat option"
  cp_read :: "rat option"
  cp_fast :: "rat option"
  cp_flex :: "rat option"
  cp_efforts :: "(string \<times> rat) list"
  cp_image_input :: "rat option"
  cp_image_output :: "rat option"
  cp_per_request :: "rat option"
  cp_intervals :: "pricing_interval list"
  cp_time :: "time_pricing option"

record pricing_env =
  pe_catalog :: catalogue
  pe_now :: gotime
  pe_zone :: "string \<Rightarrow> (gotime \<Rightarrow> int \<times> int) option"
  pe_channel :: "int \<Rightarrow> string \<Rightarrow> channel_pricing option"

definition BillingModeToken :: string where "BillingModeToken = ''token''"
definition BillingModePerRequest :: string where "BillingModePerRequest = ''per_request''"
definition BillingModeImage :: string where "BillingModeImage = ''image''"
definition BillingModeVideo :: string where "BillingModeVideo = ''video''"

lemmas billing_modes [simp] =
  BillingModeToken_def BillingModePerRequest_def BillingModeImage_def BillingModeVideo_def

definition per_request_mode :: "string \<Rightarrow> bool" where
  "per_request_mode m = (m = BillingModePerRequest \<or> m = BillingModeImage \<or> m = BillingModeVideo)"

fun find_matching_interval :: "pricing_interval list \<Rightarrow> int \<Rightarrow> pricing_interval option" where
  "find_matching_interval [] n = None"
| "find_matching_interval (iv # ivs) n =
     (if pi_min iv < n \<and> (case pi_max iv of None \<Rightarrow> True | Some b \<Rightarrow> n \<le> b) then Some iv
      else find_matching_interval ivs n)"

section \<open>Time multipliers\<close>

definition two_digits :: "char \<Rightarrow> char \<Rightarrow> nat option" where
  "two_digits a b =
     (if ascii_digit a \<and> ascii_digit b then Some (10 * (of_char a - 48) + (of_char b - 48)) else None)"

definition clock_seconds :: "nat option \<Rightarrow> nat option \<Rightarrow> nat option \<Rightarrow> int option" where
  "clock_seconds h m s =
     (case (h, m, s) of
        (Some h, Some m, Some s) \<Rightarrow>
          if h < 24 \<and> m < 60 \<and> s < 60 then Some (int h * 60 * 60 + int m * 60 + int s) else None
      | _ \<Rightarrow> None)"

text \<open>\<open>time.Parse\<close> with the layout 15:04 or 15:04:05, accepted only when formatting gives the text back.\<close>

fun parse_clock :: "string \<Rightarrow> int option" where
  "parse_clock [a, b, c, d, e] =
     (if c = CHR '':'' then clock_seconds (two_digits a b) (two_digits d e) (Some 0) else None)"
| "parse_clock [a, b, c, d, e, f, g, h] =
     (if c = CHR '':'' \<and> f = CHR '':'' then clock_seconds (two_digits a b) (two_digits d e) (two_digits g h) else None)"
| "parse_clock _ = None"

definition parse_channel_time :: "string \<Rightarrow> bool \<Rightarrow> int option" where
  "parse_channel_time v is_end =
     (if is_end \<and> (v = ''00:00'' \<or> v = ''00:00:00'') then Some (24 * 60 * 60) else parse_clock v)"

definition load_location :: "pricing_env \<Rightarrow> string \<Rightarrow> (gotime \<Rightarrow> int \<times> int) option" where
  "load_location env name =
     (if trim_space name = [] then None else if name = ''Local'' then None else pe_zone env name)"

type_synonym parsed_period = "int \<times> int \<times> rat"

definition parse_period :: "time_period \<Rightarrow> parsed_period option" where
  "parse_period p =
     (let scaled = tp_multiplier p * 100
      in if tp_multiplier p \<le> 0 then None
         else if tp_multiplier p < 0.01 then None
         else if \<bar>scaled - of_int (round_half_away scaled)\<bar> > 1 / 10 ^ 9 then None
         else
           case (parse_channel_time (tp_start p) False, parse_channel_time (tp_end p) True) of
             (Some a, Some b) \<Rightarrow> if tp_start p = tp_end p \<or> b \<le> a then None else Some (a, b, tp_multiplier p)
           | _ \<Rightarrow> None)"

fun periods_overlap :: "parsed_period list \<Rightarrow> bool" where
  "periods_overlap (p # q # ps) = (fst q < fst (snd p) \<or> periods_overlap (q # ps))"
| "periods_overlap _ = False"

definition parse_channel_time_periods :: "time_period list \<Rightarrow> parsed_period list option" where
  "parse_channel_time_periods ps =
     (let parsed = map parse_period ps
      in if list_ex (\<lambda>x. x = None) parsed then None
         else let sorted = sort_key fst (map the parsed)
              in if periods_overlap sorted then None else Some sorted)"

definition validate_time_pricing :: "pricing_env \<Rightarrow> time_pricing \<Rightarrow> bool" where
  "validate_time_pricing env c =
     (ti_periods c = [] \<or> load_location env (ti_zone c) \<noteq> None \<and> parse_channel_time_periods (ti_periods c) \<noteq> None)"

fun period_multiplier :: "parsed_period list \<Rightarrow> int \<Rightarrow> rat" where
  "period_multiplier [] second = 1"
| "period_multiplier ((a, b, k) # ps) second = (if a \<le> second \<and> second < b then k else period_multiplier ps second)"

definition multiplier_at :: "pricing_env \<Rightarrow> time_pricing option \<Rightarrow> gotime \<Rightarrow> rat" where
  "multiplier_at env config at0 =
     (case config of
        None \<Rightarrow> 1
      | Some c \<Rightarrow>
          if ti_periods c = [] \<or> is_zero at0 then 1
          else if \<not> validate_time_pricing env c then 1
          else
            case (load_location env (ti_zone c), parse_channel_time_periods (ti_periods c)) of
              (Some zone, Some periods) \<Rightarrow>
                (let (weekday, second) = zone at0
                 in if ti_weekdays c \<and> (weekday = 6 \<or> weekday = 0) then 1 else period_multiplier periods second)
            | _ \<Rightarrow> 1)"

section \<open>Overriding a card\<close>

definition tier_override :: "rat \<Rightarrow> rat \<Rightarrow> rat \<Rightarrow> rat" where
  "tier_override base_standard base_tier standard =
     (if 0 < base_standard \<and> 0 < base_tier then standard * (base_tier / base_standard) else 0)"

definition override_write :: "channel_pricing \<Rightarrow> model_pricing \<Rightarrow> model_pricing" where
  "override_write c p =
     (case cp_write c of
        None \<Rightarrow> p
      | Some x \<Rightarrow>
          p\<lparr>mp_write := x, mp_write_pri := tier_override (mp_write p) (mp_write_pri p) x,
            mp_write_explicit := True, mp_write_5m := x,
            mp_write_1h := (if cp_write_1h c = None then x else mp_write_1h p)\<rparr>)"

definition override_input :: "channel_pricing \<Rightarrow> model_pricing \<Rightarrow> model_pricing" where
  "override_input c p =
     (case cp_input c of None \<Rightarrow> p
      | Some x \<Rightarrow> p\<lparr>mp_input := x, mp_input_pri := tier_override (mp_input p) (mp_input_pri p) x\<rparr>)"

definition override_output :: "channel_pricing \<Rightarrow> model_pricing \<Rightarrow> model_pricing" where
  "override_output c p =
     (case cp_output c of None \<Rightarrow> p
      | Some x \<Rightarrow> p\<lparr>mp_output := x, mp_output_pri := tier_override (mp_output p) (mp_output_pri p) x\<rparr>)"

definition override_write_1h :: "channel_pricing \<Rightarrow> model_pricing \<Rightarrow> model_pricing" where
  "override_write_1h c p =
     (case cp_write_1h c of None \<Rightarrow> p | Some x \<Rightarrow> p\<lparr>mp_write_1h := x, mp_breakdown := True\<rparr>)"

definition override_read :: "channel_pricing \<Rightarrow> model_pricing \<Rightarrow> model_pricing" where
  "override_read c p =
     (case cp_read c of None \<Rightarrow> p
      | Some x \<Rightarrow> p\<lparr>mp_read := x, mp_read_pri := tier_override (mp_read p) (mp_read_pri p) x\<rparr>)"

definition apply_channel_token_prices :: "model_pricing \<Rightarrow> channel_pricing \<Rightarrow> model_pricing" where
  "apply_channel_token_prices p c =
     override_read c (override_write_1h c (override_write c (override_output c (override_input c p))))"

definition apply_channel_image_prices :: "channel_pricing option \<Rightarrow> model_pricing \<Rightarrow> model_pricing" where
  "apply_channel_image_prices cp p =
     (case cp of
        None \<Rightarrow> p
      | Some c \<Rightarrow>
          let p1 = (case cp_image_output c of None \<Rightarrow> p | Some x \<Rightarrow>
                      p\<lparr>mp_image_output := x, mp_image_output_explicit := True\<rparr>)
          in case cp_image_input c of None \<Rightarrow> p1 | Some x \<Rightarrow> p1\<lparr>mp_image_input := x\<rparr>)"

definition get_model_pricing_with_channel ::
    "catalogue \<Rightarrow> gotime \<Rightarrow> string \<Rightarrow> channel_pricing option \<Rightarrow> price_error + model_pricing" where
  "get_model_pricing_with_channel catalog now model cp =
     (case get_model_pricing catalog now model of
        Inl e \<Rightarrow> Inl e
      | Inr p \<Rightarrow>
          (case cp of
             None \<Rightarrow> Inr p
           | Some c \<Rightarrow>
               Inr (apply_channel_image_prices (Some c)
                      ((apply_channel_token_prices p c)
                         \<lparr>mp_fast := cp_fast c, mp_flex := cp_flex c, mp_efforts := cp_efforts c\<rparr>))))"

definition interval_valid :: "pricing_interval \<Rightarrow> bool" where
  "interval_valid iv =
     (pi_input iv \<noteq> None \<or> pi_output iv \<noteq> None \<or> pi_write iv \<noteq> None \<or> pi_write_1h iv \<noteq> None \<or>
      pi_read iv \<noteq> None \<or> pi_per_request iv \<noteq> None \<or> pi_input_mult iv \<noteq> None \<or> pi_output_mult iv \<noteq> None \<or>
      pi_write_mult iv \<noteq> None \<or> pi_read_mult iv \<noteq> None)"

definition filter_valid_intervals :: "pricing_interval list \<Rightarrow> pricing_interval list" where
  "filter_valid_intervals ivs = filter interval_valid ivs"

definition interval_input :: "pricing_interval \<Rightarrow> model_pricing \<Rightarrow> model_pricing" where
  "interval_input iv p =
     (case pi_input iv of
        Some x \<Rightarrow> p\<lparr>mp_input_pri := tier_override (mp_input p) (mp_input_pri p) x, mp_input := x\<rparr>
      | None \<Rightarrow>
          (case pi_input_mult iv of
             None \<Rightarrow> p
           | Some k \<Rightarrow> p\<lparr>mp_input := mp_input p * k, mp_input_pri := mp_input_pri p * k\<rparr>))"

definition interval_output :: "pricing_interval \<Rightarrow> model_pricing \<Rightarrow> model_pricing" where
  "interval_output iv p =
     (case pi_output iv of
        Some x \<Rightarrow> p\<lparr>mp_output_pri := tier_override (mp_output p) (mp_output_pri p) x, mp_output := x\<rparr>
      | None \<Rightarrow>
          (case pi_output_mult iv of
             None \<Rightarrow> p
           | Some k \<Rightarrow> p\<lparr>mp_output := mp_output p * k, mp_output_pri := mp_output_pri p * k\<rparr>))"

definition interval_write :: "pricing_interval \<Rightarrow> model_pricing \<Rightarrow> model_pricing" where
  "interval_write iv p =
     (case pi_write iv of
        Some x \<Rightarrow>
          p\<lparr>mp_write_pri := tier_override (mp_write p) (mp_write_pri p) x, mp_write := x, mp_write_explicit := True,
            mp_write_5m := x, mp_write_1h := (if pi_write_1h iv = None then x else mp_write_1h p)\<rparr>
      | None \<Rightarrow>
          (case pi_write_mult iv of
             None \<Rightarrow> p
           | Some k \<Rightarrow>
               p\<lparr>mp_write := mp_write p * k, mp_write_pri := mp_write_pri p * k,
                 mp_write_5m := mp_write_5m p * k, mp_write_1h := mp_write_1h p * k\<rparr>))"

definition interval_write_1h :: "pricing_interval \<Rightarrow> model_pricing \<Rightarrow> model_pricing" where
  "interval_write_1h iv p =
     (case pi_write_1h iv of None \<Rightarrow> p | Some x \<Rightarrow> p\<lparr>mp_write_1h := x, mp_breakdown := True\<rparr>)"

definition interval_read :: "pricing_interval \<Rightarrow> model_pricing \<Rightarrow> model_pricing" where
  "interval_read iv p =
     (case pi_read iv of
        Some x \<Rightarrow> p\<lparr>mp_read_pri := tier_override (mp_read p) (mp_read_pri p) x, mp_read := x\<rparr>
      | None \<Rightarrow>
          (case pi_read_mult iv of
             None \<Rightarrow> p
           | Some k \<Rightarrow> p\<lparr>mp_read := mp_read p * k, mp_read_pri := mp_read_pri p * k\<rparr>))"

definition interval_card :: "pricing_interval \<Rightarrow> model_pricing option \<Rightarrow> channel_pricing option \<Rightarrow> model_pricing" where
  "interval_card iv base cp =
     apply_channel_image_prices cp
       (interval_read iv (interval_write_1h iv (interval_write iv (interval_output iv (interval_input iv
          (case base of None \<Rightarrow> no_pricing | Some p \<Rightarrow> p))))))"

section \<open>The resolver\<close>

record price_group =
  pg_id :: int
  pg_platform :: string
  pg_pricing :: "channel_pricing list"
  pg_long_enabled :: bool
  pg_rate :: rat
  pg_subscription :: bool
  pg_peak_enabled :: bool
  pg_peak_start :: string
  pg_peak_end :: string
  pg_peak_rate :: rat
  pg_image_independent :: bool
  pg_image_rate :: rat
  pg_video_independent :: bool
  pg_video_rate :: rat
  pg_image_1k :: "rat option"
  pg_image_2k :: "rat option"
  pg_image_4k :: "rat option"
  pg_video_480 :: "rat option"
  pg_video_720 :: "rat option"
  pg_video_1080 :: "rat option"
  pg_video_models :: "(string \<times> (string \<times> rat) list) list"
  pg_audio_realtime :: "rat option"
  pg_audio_tts :: "rat option"
  pg_audio_stt :: "rat option"
  pg_search_1k :: "rat option"

record resolved_pricing =
  rp_mode :: string
  rp_base :: "model_pricing option"
  rp_intervals :: "pricing_interval list"
  rp_tiers :: "pricing_interval list"
  rp_default :: rat
  rp_source :: string
  rp_breakdown :: bool
  rp_channel :: "channel_pricing option"
  rp_long :: bool

definition PricingSourceGroup :: string where "PricingSourceGroup = ''group''"
definition PricingSourceChannel :: string where "PricingSourceChannel = ''channel''"
definition PricingSourceLiteLLM :: string where "PricingSourceLiteLLM = ''litellm''"
definition PricingSourceFallback :: string where "PricingSourceFallback = ''fallback''"

lemmas pricing_sources [simp] =
  PricingSourceGroup_def PricingSourceChannel_def PricingSourceLiteLLM_def PricingSourceFallback_def

definition mode_or_token :: "string \<Rightarrow> string" where
  "mode_or_token m = (if m = [] then BillingModeToken else m)"

definition resolved_empty :: "string \<Rightarrow> string \<Rightarrow> resolved_pricing" where
  "resolved_empty mode source =
     \<lparr>rp_mode = mode, rp_base = None, rp_intervals = [], rp_tiers = [], rp_default = 0, rp_source = source,
      rp_breakdown = False, rp_channel = None, rp_long = False\<rparr>"

definition match_group_pricing :: "price_group option \<Rightarrow> string \<Rightarrow> channel_pricing option" where
  "match_group_pricing g model0 =
     (case g of
        None \<Rightarrow> None
      | Some g \<Rightarrow>
          let model = normalize_channel_model_name model0;
              rows = [(e, normalize_channel_model_name q). e \<leftarrow> pg_pricing g, q \<leftarrow> cp_models e]
          in case find (\<lambda>(e, q). q = model) rows of
               Some (e, q) \<Rightarrow> Some e
             | None \<Rightarrow>
                 map_option fst (find (\<lambda>(e, q). has_suffix q ''*'' \<and> has_prefix model (trim_suffix q ''*'')) rows))"

definition resolve_base :: "pricing_env \<Rightarrow> string \<Rightarrow> model_pricing option \<times> string" where
  "resolve_base env model =
     (case get_model_pricing (pe_catalog env) (pe_now env) model of
        Inl _ \<Rightarrow> (None, PricingSourceFallback)
      | Inr p \<Rightarrow> (Some p, PricingSourceLiteLLM))"

definition lookup_channel_pricing :: "pricing_env \<Rightarrow> int \<Rightarrow> string \<Rightarrow> channel_pricing option" where
  "lookup_channel_pricing env gid model =
     (case pe_channel env gid model of
        Some c \<Rightarrow> Some c
      | None \<Rightarrow>
          let n = normalize_known_codex model
          in if n = [] \<or> equal_fold n (trim_space model) then None else pe_channel env gid n)"

definition apply_request_tiers :: "channel_pricing \<Rightarrow> resolved_pricing \<Rightarrow> resolved_pricing" where
  "apply_request_tiers c r =
     (let r1 = r\<lparr>rp_tiers := filter_valid_intervals (cp_intervals c)\<rparr>
      in case cp_per_request c of None \<Rightarrow> r1 | Some x \<Rightarrow> r1\<lparr>rp_default := x\<rparr>)"

definition splits_writes :: "channel_pricing \<Rightarrow> bool" where
  "splits_writes c = (cp_write_1h c \<noteq> None \<or> list_ex (\<lambda>iv. pi_write_1h iv \<noteq> None) (cp_intervals c))"

definition token_override_card :: "channel_pricing \<Rightarrow> model_pricing option \<Rightarrow> model_pricing" where
  "token_override_card c base =
     (let p1 = apply_channel_token_prices (case base of None \<Rightarrow> no_pricing | Some p \<Rightarrow> p) c;
          p2 = (if splits_writes c then p1\<lparr>mp_breakdown := True\<rparr> else p1)
      in apply_channel_image_prices (Some c)
           (p2\<lparr>mp_fast := cp_fast c, mp_flex := cp_flex c, mp_efforts := cp_efforts c\<rparr>))"

definition apply_token_overrides :: "channel_pricing \<Rightarrow> resolved_pricing \<Rightarrow> resolved_pricing" where
  "apply_token_overrides c r =
     r\<lparr>rp_base := Some (token_override_card c (rp_base r)),
       rp_breakdown := rp_breakdown r \<or> splits_writes c,
       rp_intervals := filter_valid_intervals (cp_intervals c)\<rparr>"

definition supports_breakdown :: "model_pricing option \<Rightarrow> bool" where
  "supports_breakdown b = (case b of None \<Rightarrow> False | Some p \<Rightarrow> mp_breakdown p)"

definition resolve_configured :: "pricing_env \<Rightarrow> channel_pricing \<Rightarrow> string \<Rightarrow> string \<Rightarrow> resolved_pricing" where
  "resolve_configured env c model source =
     (let mode = mode_or_token (cp_mode c);
          r = (resolved_empty mode source)\<lparr>rp_channel := Some c\<rparr>
      in if per_request_mode mode then apply_request_tiers c r
         else let base = fst (resolve_base env model)
              in apply_token_overrides c (r\<lparr>rp_base := base, rp_breakdown := supports_breakdown base\<rparr>))"

text \<open>\<open>resolve env group_id group model\<close>. When the channel has no row, \<open>Resolve\<close> looks it up a second time with
the same arguments, which changes nothing and is left out.\<close>

definition resolve :: "pricing_env \<Rightarrow> int option \<Rightarrow> price_group option \<Rightarrow> string \<Rightarrow> resolved_pricing" where
  "resolve env gid g model =
     (let long = (case g of None \<Rightarrow> True | Some g \<Rightarrow> pg_long_enabled g)
      in case match_group_pricing g model of
           Some c0 \<Rightarrow>
             (let c = (if cp_mode c0 = [] \<or> cp_mode c0 = BillingModeToken then c0\<lparr>cp_intervals := []\<rparr> else c0)
              in (resolve_configured env c model PricingSourceGroup)\<lparr>rp_long := long\<rparr>)
         | None \<Rightarrow>
             (let ch = (case gid of None \<Rightarrow> None | Some i \<Rightarrow> lookup_channel_pricing env i model)
              in case ch of
                   Some c \<Rightarrow>
                     (if per_request_mode (mode_or_token (cp_mode c)) then
                        apply_request_tiers c
                          ((resolved_empty (mode_or_token (cp_mode c)) PricingSourceChannel)
                             \<lparr>rp_channel := Some c, rp_long := long\<rparr>)
                      else
                        let base = fst (resolve_base env model)
                        in apply_token_overrides c
                             ((resolved_empty BillingModeToken PricingSourceChannel)
                                \<lparr>rp_base := base, rp_breakdown := supports_breakdown base,
                                 rp_channel := Some c, rp_long := long\<rparr>))
                 | None \<Rightarrow>
                     (let (base, source) = resolve_base env model
                      in (resolved_empty BillingModeToken source)
                           \<lparr>rp_base := base, rp_breakdown := supports_breakdown base, rp_long := long\<rparr>)))"

definition get_interval_pricing :: "resolved_pricing \<Rightarrow> int \<Rightarrow> model_pricing option" where
  "get_interval_pricing r n =
     (if rp_intervals r = [] then rp_base r
      else case find_matching_interval (rp_intervals r) n of
             None \<Rightarrow> rp_base r
           | Some iv \<Rightarrow> Some ((interval_card iv (rp_base r) (rp_channel r))\<lparr>mp_breakdown := rp_breakdown r\<rparr>))"

fun request_tier_price :: "pricing_interval list \<Rightarrow> string \<Rightarrow> rat" where
  "request_tier_price [] label = 0"
| "request_tier_price (t # ts) label =
     (if pi_label t = label \<and> pi_per_request t \<noteq> None then the (pi_per_request t)
      else request_tier_price ts label)"

definition request_tier_price_by_context :: "resolved_pricing \<Rightarrow> int \<Rightarrow> rat" where
  "request_tier_price_by_context r n =
     (case find_matching_interval (rp_tiers r) n of
        None \<Rightarrow> 0
      | Some iv \<Rightarrow> (case pi_per_request iv of None \<Rightarrow> 0 | Some x \<Rightarrow> x))"

definition resolved_time_multiplier :: "pricing_env \<Rightarrow> resolved_pricing \<Rightarrow> gotime \<Rightarrow> rat" where
  "resolved_time_multiplier env r at0 =
     (if rp_source r \<noteq> PricingSourceChannel then 1
      else case rp_channel r of None \<Rightarrow> 1 | Some c \<Rightarrow> multiplier_at env (cp_time c) at0)"

end
