(* ===== verification/Token_Cost.thy ===== *)
theory Token_Cost
  imports Model_Pricing
begin

text \<open>
  The charge of a request by tokens or by the request (service/billing_service.go,
  billing_token_cost_request.go): the token breakdown with service tiers, long context, image and cache
  parts, the charge by the request, and the unified entry that dispatches on the billing mode. The
  baseline that \<open>computeTokenBreakdown\<close> computes by calling itself without long-context pricing is
  \<open>breakdown_at False\<close>.
\<close>

record usage_tokens =
  ut_input :: int
  ut_image_input :: int
  ut_image_read :: int
  ut_output :: int
  ut_write :: int
  ut_read :: int
  ut_write_5m :: int
  ut_write_1h :: int
  ut_image_output :: int

definition no_tokens :: usage_tokens where
  "no_tokens =
     \<lparr>ut_input = 0, ut_image_input = 0, ut_image_read = 0, ut_output = 0, ut_write = 0, ut_read = 0,
      ut_write_5m = 0, ut_write_1h = 0, ut_image_output = 0\<rparr>"

record cost_breakdown =
  co_input :: rat
  co_image_input :: rat
  co_output :: rat
  co_image_output :: rat
  co_write :: rat
  co_read :: rat
  co_total :: rat
  co_actual :: rat
  co_mode :: string
  co_long :: bool

definition no_cost :: cost_breakdown where
  "no_cost =
     \<lparr>co_input = 0, co_image_input = 0, co_output = 0, co_image_output = 0, co_write = 0, co_read = 0,
      co_total = 0, co_actual = 0, co_mode = [], co_long = False\<rparr>"

definition apply_cost_multiplier :: "rat \<Rightarrow> cost_breakdown \<Rightarrow> cost_breakdown" where
  "apply_cost_multiplier k c =
     (if k = 1 then c
      else c\<lparr>co_input := co_input c * k, co_image_input := co_image_input c * k, co_output := co_output c * k,
             co_image_output := co_image_output c * k, co_write := co_write c * k, co_read := co_read c * k,
             co_total := co_total c * k, co_actual := co_actual c * k\<rparr>)"

section \<open>Token charge\<close>

definition total_context :: "usage_tokens \<Rightarrow> int" where
  "total_context t = ut_input t + ut_write t + ut_read t"

definition long_or_one :: "rat \<Rightarrow> rat" where
  "long_or_one k = (if k \<le> 0 then 1 else k)"

definition long_context_applies :: "usage_tokens \<Rightarrow> model_pricing \<Rightarrow> bool" where
  "long_context_applies t p =
     (if mp_long_threshold p \<le> 0 then False
      else if mp_long_input p \<le> 1 \<and> mp_long_output p \<le> 1 then False
      else if mp_long_inclusive p then mp_long_threshold p \<le> total_context t
      else mp_long_threshold p < total_context t)"

definition normalize_cache_writes :: "usage_tokens \<Rightarrow> int \<times> int" where
  "normalize_cache_writes t =
     (let m5 = (if ut_write_5m t < 0 then 0 else ut_write_5m t);
          h1 = (if ut_write_1h t < 0 then 0 else ut_write_1h t);
          total = ut_write t
      in if total \<le> 0 \<or> m5 \<le> total \<and> h1 \<le> total - m5 then (m5, h1)
         else
           let n5 = round_half_away (of_int total * of_int m5 / (of_int m5 + of_int h1));
               m5' = (if total \<le> n5 then total else n5)
           in (m5', total - m5'))"

definition cache_write_cost :: "model_pricing \<Rightarrow> usage_tokens \<Rightarrow> rat \<Rightarrow> rat \<Rightarrow> rat" where
  "cache_write_cost p t price k =
     (if mp_breakdown p \<and> (0 < mp_write_5m p \<or> 0 < mp_write_1h p) then
        (let (m5, h1) = normalize_cache_writes t
         in if m5 = 0 \<and> h1 = 0 \<and> 0 < ut_write t then of_int (ut_write t) * mp_write_5m p * k
            else of_int m5 * mp_write_5m p * k + of_int h1 * mp_write_1h p * k)
      else of_int (ut_write t) * price * k)"

text \<open>The unit prices of a service tier: input, output, cache read, cache write, and the multiplier of the sum.\<close>

record unit_prices =
  up_input :: rat
  up_output :: rat
  up_read :: rat
  up_write :: rat
  up_tier :: rat

definition positive_or :: "rat \<Rightarrow> rat \<Rightarrow> rat" where
  "positive_or x y = (if 0 < x then x else y)"

definition tier_prices :: "string \<Rightarrow> model_pricing \<Rightarrow> unit_prices" where
  "tier_prices tier p =
     (if use_priority_pricing tier p
      then \<lparr>up_input = positive_or (mp_input_pri p) (mp_input p), up_output = positive_or (mp_output_pri p) (mp_output p),
            up_read = positive_or (mp_read_pri p) (mp_read p), up_write = positive_or (mp_write_pri p) (mp_write p),
            up_tier = 1\<rparr>
      else \<lparr>up_input = mp_input p, up_output = mp_output p, up_read = mp_read p, up_write = mp_write p,
            up_tier = configured_tier_multiplier tier p\<rparr>)"

definition long_prices :: "model_pricing \<Rightarrow> unit_prices \<Rightarrow> unit_prices" where
  "long_prices p u =
     u\<lparr>up_input := up_input u * long_or_one (mp_long_input p), up_output := up_output u * long_or_one (mp_long_output p),
       up_read := up_read u * long_or_one (mp_long_input p)\<rparr>"

text \<open>Text and image input are charged apart; without a price of their own, images cost what text costs.\<close>

definition input_costs :: "model_pricing \<Rightarrow> usage_tokens \<Rightarrow> rat \<Rightarrow> rat \<times> rat" where
  "input_costs p t price =
     (if 0 < ut_image_input t then
        (let text0 = ut_input t - ut_image_input t;
             text = (if text0 < 0 then 0 else text0);
             image = (if text0 < 0 then ut_input t else ut_image_input t);
             image_price = (if mp_image_input p = 0 then price else mp_image_input p)
         in (of_int text * price, of_int image * image_price))
      else (of_int (ut_input t) * price, 0))"

definition output_cost :: "usage_tokens \<Rightarrow> rat \<Rightarrow> rat" where
  "output_cost t price =
     (let text = ut_output t - ut_image_output t in of_int (if text < 0 then 0 else text) * price)"

definition image_output_cost :: "model_pricing \<Rightarrow> usage_tokens \<Rightarrow> rat \<Rightarrow> rat" where
  "image_output_cost p t price =
     (if 0 < ut_image_output t
      then of_int (ut_image_output t) *
             (if mp_image_output p = 0 \<and> \<not> mp_image_output_explicit p then price else mp_image_output p)
      else 0)"

definition read_cost :: "model_pricing \<Rightarrow> usage_tokens \<Rightarrow> rat \<Rightarrow> rat" where
  "read_cost p t price =
     (let image = min (max (ut_image_read t) 0) (max (ut_read t) 0)
      in if 0 < image \<and> 0 < mp_image_read p
         then of_int (ut_read t - image) * price + of_int image * mp_image_read p
         else of_int (ut_read t) * price)"

definition breakdown_at :: "bool \<Rightarrow> model_pricing \<Rightarrow> usage_tokens \<Rightarrow> rat \<Rightarrow> string \<Rightarrow> cost_breakdown" where
  "breakdown_at long p t rate0 tier =
     (let rate = (if rate0 < 0 then 0 else rate0);
          u0 = tier_prices tier p;
          u = (if long then long_prices p u0 else u0);
          k = up_tier u;
          input = fst (input_costs p t (up_input u)) * k;
          image_input = snd (input_costs p t (up_input u)) * k;
          output = output_cost t (up_output u) * k;
          image_output = image_output_cost p t (up_output u) * k;
          write = cache_write_cost p t (up_write u) (if long then long_or_one (mp_long_input p) else 1) * k;
          read = read_cost p t (up_read u) * k;
          total = input + image_input + output + image_output + write + read
      in \<lparr>co_input = input, co_image_input = image_input, co_output = output, co_image_output = image_output,
          co_write = write, co_read = read, co_total = total, co_actual = total * rate,
          co_mode = [], co_long = False\<rparr>)"

definition compute_token_breakdown :: "model_pricing \<Rightarrow> usage_tokens \<Rightarrow> rat \<Rightarrow> string \<Rightarrow> bool \<Rightarrow> cost_breakdown" where
  "compute_token_breakdown p t rate tier apply_long =
     (if apply_long \<and> long_context_applies t p then
        (let c = breakdown_at True p t rate tier
         in c\<lparr>co_long := co_actual (breakdown_at False p t rate tier) < co_actual c\<rparr>)
      else breakdown_at False p t rate tier)"

section \<open>The unified entry\<close>

record cost_input =
  ci_model :: string
  ci_gid :: "int option"
  ci_group :: "price_group option"
  ci_tokens :: usage_tokens
  ci_count :: int
  ci_units :: rat
  ci_size :: string
  ci_rate :: rat
  ci_at :: gotime
  ci_tier :: string
  ci_effort :: string
  ci_resolver :: bool
  ci_resolved :: "resolved_pricing option"
  ci_long :: "bool option"
  ci_no_model_long :: bool

definition deepseek_peak_card :: "rat \<Rightarrow> model_pricing \<Rightarrow> model_pricing" where
  "deepseek_peak_card k p = p\<lparr>mp_input := mp_input p * k, mp_output := mp_output p * k, mp_read := mp_read p * k\<rparr>"

definition context_tiers_enabled :: "resolved_pricing \<Rightarrow> cost_input \<Rightarrow> bool" where
  "context_tiers_enabled r i = (rp_long r \<or> ci_long i = Some True)"

text \<open>The card \<open>calculateTokenCost\<close> charges by at the moment \<open>at\<close>, given the card of the context.\<close>

definition charged_card :: "pricing_env \<Rightarrow> resolved_pricing \<Rightarrow> string \<Rightarrow> gotime \<Rightarrow> model_pricing \<Rightarrow> model_pricing" where
  "charged_card env r model at0 p0 =
     (let pricing_at = (if is_zero at0 then pe_now env else at0);
          p = apply_model_policy (pe_now env) model p0 (rp_source r = PricingSourceLiteLLM) pricing_at
      in if rp_source r = PricingSourceLiteLLM \<and> is_deepseek model \<and> 1 < deepseek_peak_multiplier pricing_at
         then deepseek_peak_card (deepseek_peak_multiplier pricing_at) p else p)"

definition calculate_token_cost :: "pricing_env \<Rightarrow> resolved_pricing \<Rightarrow> cost_input \<Rightarrow> price_error + cost_breakdown" where
  "calculate_token_cost env r i =
     (let tiers = context_tiers_enabled r i;
          context = (if tiers then total_context (ci_tokens i) else 1)
      in case get_interval_pricing r context of
           None \<Rightarrow> Inl PricingUnavailable
         | Some p0 \<Rightarrow>
             let p = charged_card env r (ci_model i) (ci_at i) p0;
                 apply_long = (rp_intervals r = [] \<and> tiers \<and> \<not> ci_no_model_long i);
                 c = compute_token_breakdown p (ci_tokens i) (ci_rate i) (ci_tier i) apply_long
             in Inr (apply_cost_multiplier (effort_multiplier (ci_effort i) (mp_efforts p))
                       (apply_cost_multiplier (resolved_time_multiplier env r (ci_at i)) c)))"

definition calculate_per_request_cost :: "resolved_pricing \<Rightarrow> cost_input \<Rightarrow> cost_breakdown" where
  "calculate_per_request_cost r i =
     (let units = (if ci_units i \<le> 0 then of_int (if ci_count i \<le> 0 then 1 else ci_count i) else ci_units i);
          by_label = (if ci_size i \<noteq> [] then request_tier_price (rp_tiers r) (ci_size i) else 0);
          by_context = (if by_label = 0 then request_tier_price_by_context r (total_context (ci_tokens i)) else by_label);
          price = (if by_context = 0 then rp_default r else by_context)
      in no_cost\<lparr>co_total := price * units, co_actual := price * units * ci_rate i\<rparr>)"

definition clamp_rate :: "cost_input \<Rightarrow> cost_input" where
  "clamp_rate i = (if ci_rate i < 0 then i\<lparr>ci_rate := 0\<rparr> else i)"

definition calculate_cost_unified :: "pricing_env \<Rightarrow> cost_input \<Rightarrow> price_error + cost_breakdown" where
  "calculate_cost_unified env i0 =
     (if \<not> ci_resolver i0 then
        (let apply_long = (case ci_long i0 of None \<Rightarrow> True | Some b \<Rightarrow> b)
         in case get_model_pricing (pe_catalog env) (pe_now env) (ci_model i0) of
              Inl e \<Rightarrow> Inl e
            | Inr p \<Rightarrow>
                Inr (apply_cost_multiplier (effort_multiplier (ci_effort i0) (mp_efforts p))
                       (compute_token_breakdown p (ci_tokens i0) (ci_rate i0) (ci_tier i0)
                          (apply_long \<and> \<not> ci_no_model_long i0))))
      else
        let r = (case ci_resolved i0 of Some r \<Rightarrow> r | None \<Rightarrow> resolve env (ci_gid i0) (ci_group i0) (ci_model i0));
            i = clamp_rate i0;
            result =
              (if per_request_mode (rp_mode r) then
                 Inr (case rp_channel r of
                        None \<Rightarrow> calculate_per_request_cost r i
                      | Some c \<Rightarrow> apply_cost_multiplier (effort_multiplier (ci_effort i) (cp_efforts c))
                                    (calculate_per_request_cost r i))
               else calculate_token_cost env r i)
        in map_sum id (\<lambda>c. c\<lparr>co_mode := mode_or_token (rp_mode r)\<rparr>) result)"

section \<open>Entries without a resolver\<close>

definition calculate_cost_with_policy ::
    "pricing_env \<Rightarrow> string \<Rightarrow> usage_tokens \<Rightarrow> rat \<Rightarrow> string \<Rightarrow> channel_pricing option \<Rightarrow> bool \<Rightarrow> price_error + cost_breakdown" where
  "calculate_cost_with_policy env model t rate tier cp long =
     (case get_model_pricing_with_channel (pe_catalog env) (pe_now env) model cp of
        Inl e \<Rightarrow> Inl e
      | Inr p \<Rightarrow> Inr (compute_token_breakdown p t rate tier long))"

definition calculate_cost :: "pricing_env \<Rightarrow> string \<Rightarrow> usage_tokens \<Rightarrow> rat \<Rightarrow> price_error + cost_breakdown" where
  "calculate_cost env model t rate = calculate_cost_with_policy env model t rate [] None True"

definition calculate_cost_with_service_tier ::
    "pricing_env \<Rightarrow> string \<Rightarrow> usage_tokens \<Rightarrow> rat \<Rightarrow> string \<Rightarrow> price_error + cost_breakdown" where
  "calculate_cost_with_service_tier env model t rate tier = calculate_cost_with_policy env model t rate tier None True"

text \<open>\<open>default_rate\<close> is \<open>cfg.Default.RateMultiplier\<close>.\<close>

definition calculate_cost_with_config :: "pricing_env \<Rightarrow> rat \<Rightarrow> string \<Rightarrow> usage_tokens \<Rightarrow> price_error + cost_breakdown" where
  "calculate_cost_with_config env default_rate model t =
     calculate_cost env model t (if default_rate \<le> 0 then 1 else default_rate)"

definition get_estimated_cost :: "pricing_env \<Rightarrow> rat \<Rightarrow> string \<Rightarrow> int \<Rightarrow> int \<Rightarrow> price_error + rat" where
  "get_estimated_cost env default_rate model input output =
     map_sum id co_actual
       (calculate_cost_with_config env default_rate model (no_tokens\<lparr>ut_input := input, ut_output := output\<rparr>))"

section \<open>The entry of the gateway\<close>

record token_request =
  tr_model :: string
  tr_group :: "price_group option"
  tr_tokens :: usage_tokens
  tr_rate :: rat
  tr_at :: gotime
  tr_tier :: string
  tr_effort :: string
  tr_resolver :: bool
  tr_resolved :: "resolved_pricing option"

definition token_cost_input :: "token_request \<Rightarrow> cost_input" where
  "token_cost_input q =
     \<lparr>ci_model = tr_model q, ci_gid = map_option pg_id (tr_group q), ci_group = tr_group q, ci_tokens = tr_tokens q,
      ci_count = 1, ci_units = 0, ci_size = [], ci_rate = tr_rate q, ci_at = tr_at q, ci_tier = tr_tier q,
      ci_effort = tr_effort q, ci_resolver = tr_resolver q, ci_resolved = tr_resolved q, ci_long = None,
      ci_no_model_long = False\<rparr>"

definition operator_priced :: "resolved_pricing option \<Rightarrow> bool" where
  "operator_priced r =
     (case r of None \<Rightarrow> False | Some r \<Rightarrow> rp_source r = PricingSourceGroup \<or> rp_source r = PricingSourceChannel)"

definition calculate_token_cost_for_request :: "pricing_env \<Rightarrow> token_request \<Rightarrow> price_error + cost_breakdown" where
  "calculate_token_cost_for_request env q =
     (if operator_priced (tr_resolved q) then calculate_cost_unified env (token_cost_input q)
      else if tr_resolver q \<and> tr_group q \<noteq> None then calculate_cost_unified env (token_cost_input q)
      else if tr_effort q \<noteq> [] then calculate_cost_unified env (token_cost_input q)
      else calculate_cost env (tr_model q) (tr_tokens q) (tr_rate q))"

end
