(* ===== verification/Media_Cost.thy ===== *)
theory Media_Cost
  imports Token_Cost
begin

text \<open>
  Charges that are not by tokens (service/billing_service.go, image_billing_size.go,
  video_billing_resolution.go, video_billing.go, gemini_cache_storage_pricing.go): the tier of an image
  size, images, videos by the second, audio, web search and search surcharges, and the price of storing
  an explicit cache. The price configuration of a group is read from \<open>price_group\<close>; \<open>catalog\<close> is the
  catalogue lookup \<open>PricingService.GetModelPricing\<close>.
\<close>

section \<open>The tier of an image\<close>

definition parse_image_dimensions :: "string \<Rightarrow> (int \<times> int) option" where
  "parse_image_dimensions s =
     (case split_at CHR ''x'' (to_lower (trim_space s)) of
        [w, h] \<Rightarrow>
          (case (parse_positive_int64 (trim_space w), parse_positive_int64 (trim_space h)) of
             (Some a, Some b) \<Rightarrow> Some (a, b)
           | _ \<Rightarrow> None)
      | _ \<Rightarrow> None)"

definition classify_image_tier :: "string \<Rightarrow> string option" where
  "classify_image_tier sz =
     (let t = trim_space sz; n = to_lower t
      in if n = [] \<or> n = ''auto'' then None
         else if n = ''1k'' then Some ''1K''
         else if n = ''2k'' then Some ''2K''
         else if n = ''4k'' then Some ''4K''
         else if n = ''2048x2048'' \<or> n = ''2048x1152'' then Some ''2K''
         else if n = ''3840x2160'' \<or> n = ''2160x3840'' then Some ''4K''
         else case parse_image_dimensions t of
                None \<Rightarrow> None
              | Some (w, h) \<Rightarrow>
                  let edge = (if w < h then h else w)
                  in if edge \<le> 1024 then Some ''1K'' else if edge \<le> 2048 then Some ''2K'' else Some ''4K'')"

definition image_tier_or_default :: "string \<Rightarrow> string" where
  "image_tier_or_default sz = (case classify_image_tier sz of Some t \<Rightarrow> t | None \<Rightarrow> ''2K'')"

definition image_tier_rank :: "string \<Rightarrow> nat" where
  "image_tier_rank tier =
     (let t = to_upper (trim_space tier)
      in if t = ''1K'' then 1 else if t = ''2K'' then 2 else if t = ''4K'' then 3 else 0)"

record image_resolution =
  ir_billing :: string
  ir_input :: string
  ir_output :: string
  ir_source :: string
  ir_breakdown :: "(string \<times> nat) list"

definition compact_trimmed :: "string list \<Rightarrow> string list" where
  "compact_trimmed vs = filter (\<lambda>s. s \<noteq> []) (map trim_space vs)"

definition first_display_size :: "string list \<Rightarrow> string" where
  "first_display_size vs = (case compact_trimmed vs of [] \<Rightarrow> [] | v # _ \<Rightarrow> v)"

text \<open>The loop over the output sizes: the highest tier seen and the recognised tiers.\<close>

fun scan_outputs :: "string list \<Rightarrow> string \<Rightarrow> string list \<Rightarrow> string \<times> string list" where
  "scan_outputs [] best seen = (best, seen)"
| "scan_outputs (o' # os) best seen =
     (case classify_image_tier o' of
        None \<Rightarrow> scan_outputs os best seen
      | Some t \<Rightarrow> scan_outputs os (if image_tier_rank best < image_tier_rank t then t else best) (t # seen))"

definition size_breakdown :: "string list \<Rightarrow> (string \<times> nat) list" where
  "size_breakdown seen =
     filter (\<lambda>(t, n). 0 < n) (map (\<lambda>t. (t, length (filter (\<lambda>s. s = t) seen))) [''1K'', ''2K'', ''4K''])"

definition resolve_image_size :: "string \<Rightarrow> string list \<Rightarrow> image_resolution" where
  "resolve_image_size input0 outputs0 =
     (let input = trim_space input0; outputs = compact_trimmed outputs0;
          shown = first_display_size outputs;
          (best, seen) = scan_outputs outputs [] []
      in if best \<noteq> [] then
           \<lparr>ir_billing = best, ir_input = input, ir_output = shown, ir_source = ''output'', ir_breakdown = size_breakdown seen\<rparr>
         else case classify_image_tier input of
                Some t \<Rightarrow> \<lparr>ir_billing = t, ir_input = input, ir_output = shown, ir_source = ''input'', ir_breakdown = []\<rparr>
              | None \<Rightarrow> \<lparr>ir_billing = ''2K'', ir_input = input, ir_output = shown, ir_source = ''default'', ir_breakdown = []\<rparr>)"

section \<open>Charges\<close>

definition flat_cost :: "rat \<Rightarrow> rat \<Rightarrow> string \<Rightarrow> cost_breakdown" where
  "flat_cost amount rate mode =
     no_cost\<lparr>co_total := amount, co_actual := amount * (if rate < 0 then 0 else rate), co_mode := mode\<rparr>"

definition calculate_web_search_cost :: "int \<Rightarrow> rat option \<Rightarrow> rat \<Rightarrow> cost_breakdown" where
  "calculate_web_search_cost calls group_price rate =
     (if calls \<le> 0 then no_cost
      else
        let unit = (case group_price of Some x \<Rightarrow> if 0 \<le> x then x else 0.01 | None \<Rightarrow> 0.01)
        in flat_cost (unit * of_int calls) rate BillingModePerRequest)"

definition calculate_search_cost :: "int \<Rightarrow> rat option \<Rightarrow> rat \<Rightarrow> cost_breakdown" where
  "calculate_search_cost calls group_price rate =
     (if calls \<le> 0 then no_cost
      else
        let per1k = (case group_price of None \<Rightarrow> 5 | Some x \<Rightarrow> x)
        in if per1k < 0 then no_cost
           else if per1k = 0 then no_cost
           else flat_cost (per1k / 1000 * of_int calls) rate BillingModePerRequest)"

text \<open>The default price and the price of the group for an audio mode; an unknown mode has none.\<close>

definition audio_unit_price :: "string \<Rightarrow> price_group option \<Rightarrow> rat option" where
  "audio_unit_price mode0 g =
     (let mode = to_lower mode0;
          pick = (\<lambda>own default. case g of None \<Rightarrow> default | Some g \<Rightarrow> (case own g of Some x \<Rightarrow> x | None \<Rightarrow> default))
      in if mode = ''realtime'' then Some (pick pg_audio_realtime 0.05)
         else if mode = ''tts'' then Some (pick pg_audio_tts 15)
         else if mode = ''stt'' then Some (pick pg_audio_stt 0.10)
         else None)"

definition calculate_audio_cost :: "string \<Rightarrow> rat \<Rightarrow> price_group option \<Rightarrow> rat \<Rightarrow> cost_breakdown" where
  "calculate_audio_cost mode units g rate =
     (if units \<le> 0 then no_cost
      else case audio_unit_price mode g of
             None \<Rightarrow> no_cost
           | Some price \<Rightarrow> if price \<le> 0 then no_cost else flat_cost (price * units) rate BillingModePerRequest)"

definition grok_image_tier_price :: "string \<Rightarrow> rat \<Rightarrow> rat \<Rightarrow> rat" where
  "grok_image_tier_price sz p1 p2 = (if image_tier_or_default sz = ''1K'' then p1 else p2)"

definition default_grok_image_price :: "string \<Rightarrow> string \<Rightarrow> rat option" where
  "default_grok_image_price model0 sz =
     (let model = to_lower (trim_space model0)
      in if model = ''grok-imagine-image-2.0'' then Some (grok_image_tier_price sz 0.06 0.08)
         else if model = ''grok-imagine-image-quality'' then Some (grok_image_tier_price sz 0.05 0.07)
         else if model \<in> set [''grok-imagine'', ''grok-imagine-image'', ''grok-imagine-edit'']
         then Some (grok_image_tier_price sz 0.02 0.02)
         else None)"

definition default_image_price :: "catalogue \<Rightarrow> string \<Rightarrow> string \<Rightarrow> rat" where
  "default_image_price catalog model sz =
     (case default_grok_image_price model sz of
        Some x \<Rightarrow> x
      | None \<Rightarrow>
          let listed = (case catalog model of None \<Rightarrow> 0 | Some e \<Rightarrow> if 0 < li_per_image e then li_per_image e else 0);
              base = (if listed \<le> 0 then 0.134 else listed)
          in if sz = ''2K'' then base * 1.5 else if sz = ''4K'' then base * 2 else base)"

definition image_unit_price :: "catalogue \<Rightarrow> string \<Rightarrow> string \<Rightarrow> price_group option \<Rightarrow> rat" where
  "image_unit_price catalog model sz g =
     (let own = (case g of
                   None \<Rightarrow> None
                 | Some g \<Rightarrow> (if sz = ''1K'' then pg_image_1k g else if sz = ''2K'' then pg_image_2k g
                             else if sz = ''4K'' then pg_image_4k g else None))
      in case own of Some x \<Rightarrow> x | None \<Rightarrow> default_image_price catalog model sz)"

definition calculate_image_cost_flat :: "catalogue \<Rightarrow> string \<Rightarrow> string \<Rightarrow> int \<Rightarrow> price_group option \<Rightarrow> rat \<Rightarrow> cost_breakdown" where
  "calculate_image_cost_flat catalog model sz0 count g rate =
     (if count \<le> 0 then no_cost
      else
        let sz = image_tier_or_default sz0
        in flat_cost (image_unit_price catalog model sz g * of_int count) rate BillingModeImage)"

section \<open>Videos\<close>

definition billing_duration :: "int \<Rightarrow> int" where
  "billing_duration d = (if d \<le> 0 then 8 else if d < 1 then 1 else if 15 < d then 15 else d)"

definition lookup_video_resolution :: "string \<Rightarrow> string option" where
  "lookup_video_resolution r0 =
     (let r = to_lower (trim_space r0)
      in if r \<in> set [''480'', ''480p'', ''sd''] then Some ''480p''
         else if r \<in> set [''720'', ''720p'', ''hd''] then Some ''720p''
         else if r \<in> set [''1080'', ''1080p'', ''full_hd'', ''full-hd'', ''fhd''] then Some ''1080p''
         else None)"

definition video_resolution_or_default :: "string \<Rightarrow> string" where
  "video_resolution_or_default r = (case lookup_video_resolution r of Some x \<Rightarrow> x | None \<Rightarrow> ''480p'')"

definition canonical_imagine_video :: "string \<Rightarrow> string" where
  "canonical_imagine_video model =
     (let m = to_lower (strip_grok_provider_prefix model)
      in if m = [] \<or> m = ''grok-imagine-video'' \<or> m = ''grok-imagine-video-preview'' then ''grok-imagine-video''
         else if has_prefix m ''grok-imagine-video-1.5'' \<or> m = ''grok-video-1.5'' then ''grok-imagine-video-1.5''
         else m)"

definition video_price_family :: "string \<Rightarrow> string" where
  "video_price_family model =
     (let c = canonical_imagine_video model
      in if model = [] then []
         else if c = ''grok-imagine-video-1.5'' \<or> c = ''grok-imagine-video'' \<or> has_prefix c ''grok-imagine-video-'' then c
         else
           let m0 = to_lower (trim_space model);
               m = (case find (has_prefix m0) [''xai/'', ''x-ai/'', ''grok/''] of Some p \<Rightarrow> trim_prefix m0 p | None \<Rightarrow> m0)
           in if m \<in> set [''grok-imagine-video-1.5'', ''grok-imagine-video-1.5-preview'', ''grok-video-1.5''] \<or>
                 contains m ''video-1.5''
              then ''grok-imagine-video-1.5''
              else if m \<in> set [''grok-imagine-video'', ''grok-imagine-video-preview'', ''grok-video'', ''grok-video-latest'']
              then ''grok-imagine-video''
              else [])"

definition lookup_video_model_price :: "(string \<times> (string \<times> rat) list) list \<Rightarrow> string \<Rightarrow> string \<Rightarrow> rat option" where
  "lookup_video_model_price prices model resolution =
     (let f = video_price_family model;
          family = (if f = [] then to_lower (trim_space model) else f)
      in if prices = [] \<or> family = [] then None
         else case map_of prices family of
                None \<Rightarrow> None
              | Some tiers \<Rightarrow> map_of tiers (video_resolution_or_default resolution))"

definition default_grok_video_price :: "string \<Rightarrow> string \<Rightarrow> rat option" where
  "default_grok_video_price model0 resolution =
     (let model = to_lower (trim_space model0); r = video_resolution_or_default resolution
      in if has_prefix model ''grok-imagine-video-1.5'' then
           Some (if r = ''480p'' then 0.08 else if r = ''720p'' then 0.14 else if r = ''1080p'' then 0.25 else 0.08)
         else if has_prefix model ''grok-imagine-video'' then
           Some (if r = ''480p'' then 0.05 else if r = ''720p'' \<or> r = ''1080p'' then 0.07 else 0.05)
         else None)"

definition video_unit_price :: "catalogue \<Rightarrow> string \<Rightarrow> string \<Rightarrow> price_group option \<Rightarrow> rat" where
  "video_unit_price catalog model resolution g =
     (let r = video_resolution_or_default resolution;
          own = (case g of
                   None \<Rightarrow> None
                 | Some g \<Rightarrow>
                     (case lookup_video_model_price (pg_video_models g) model resolution of
                        Some x \<Rightarrow> Some x
                      | None \<Rightarrow> if r = ''480p'' then pg_video_480 g else if r = ''720p'' then pg_video_720 g
                                else if r = ''1080p'' then pg_video_1080 g else None))
      in case own of
           Some x \<Rightarrow> x
         | None \<Rightarrow>
             (case default_grok_video_price model resolution of
                Some x \<Rightarrow> x
              | None \<Rightarrow> default_image_price catalog model ''2K''))"

definition calculate_video_cost ::
    "catalogue \<Rightarrow> string \<Rightarrow> string \<Rightarrow> int \<Rightarrow> int \<Rightarrow> price_group option \<Rightarrow> rat \<Rightarrow> cost_breakdown" where
  "calculate_video_cost catalog model resolution0 count seconds g rate =
     (if count \<le> 0 then no_cost
      else
        let resolution = video_resolution_or_default resolution0
        in flat_cost (video_unit_price catalog model resolution g * of_int (billing_duration seconds) * of_int count)
             rate BillingModeVideo)"

section \<open>Explicit cache storage\<close>

definition gemini_cache_storage_prices :: "(string \<times> rat) list" where
  "gemini_cache_storage_prices =
     [(''gemini-3.8-flash-cyber'', em 1 6), (''gemini-3.8-flash'', em 0.5 6), (''gemini-3.7-flash'', em 0.5 6),
      (''gemini-3.6-flash'', em 0.5 6), (''gemini-3.5-flash-lite'', em 1 6), (''gemini-3.5-flash'', em 1 6),
      (''gemini-3.1-flash-lite'', em 1 6), (''gemini-3.1-pro'', em 4.5 6), (''gemini-3-flash'', em 1 6),
      (''gemini-3-pro'', em 4.5 6), (''gemini-2.5-flash-lite'', em 1 6), (''gemini-2.5-flash'', em 1 6),
      (''gemini-2.5-pro'', em 4.5 6), (''gemini-2.0-flash-lite'', em 1 6), (''gemini-2.0-flash'', em 1 6)]"

definition builtin_cache_storage_price :: "string \<Rightarrow> rat" where
  "builtin_cache_storage_price model =
     (let name = after_last_slash (to_lower (trim_space model));
          parts = split_at CHR ''-'' name;
          lite = (''lite'' \<in> set parts)
      in if \<not> has_prefix name ''gemini-'' then 0
         else case find (\<lambda>(p, x). lite = has_suffix p ''-lite'' \<and> (name = p \<or> has_prefix name (p @ ''-'')))
                     gemini_cache_storage_prices of
                Some (p, x) \<Rightarrow> x
              | None \<Rightarrow> if ''pro'' \<in> set parts then em 4.5 6 else if ''flash'' \<in> set parts then em 1 6 else 0)"

text \<open>\<open>configured\<close> is the storage price of a deterministically identified catalogue entry, 0 when there is none.\<close>

definition cache_storage_price_per_hour :: "(string \<Rightarrow> rat) \<Rightarrow> string \<Rightarrow> rat" where
  "cache_storage_price_per_hour configured model =
     (if 0 < configured model then configured model else builtin_cache_storage_price model)"

end
