(* ===== verification/Usage_Cost.thy ===== *)
theory Usage_Cost
  imports Media_Cost Usage_Billing
begin

text \<open>
  From the answer of the upstream to the command that bills it (service/gateway_usage_billing.go,
  service_tier_billing.go, group.go, image_billing_multiplier.go): the billed service tier, the rates
  with the group's peak hours, the model the request is billed by, the charge of the request with its
  media, search and storage parts, billing by the model the upstream reports, and the usage command.
  Arguments stand for the resolver's environment, the rate of a user in a group
  (\<open>ResolveUserGroupRateMultiplier\<close>, cache and repository), the minute of the day in the system time
  zone, the storage price of a catalogue entry and the TTL override of the account.
\<close>

section \<open>The billed service tier\<close>

record tier_resolution =
  st_requested :: string
  st_observed :: string
  st_billing :: string
  st_downgraded :: bool

definition service_tier_rank :: "string \<Rightarrow> int \<times> bool" where
  "service_tier_rank tier =
     (let t = normalize_billing_tier tier
      in if t = ''flex'' then (0, True)
         else if t \<in> set [[], ''default'', ''standard'', ''auto'', ''scale''] then (1, True)
         else if t = ''priority'' \<or> t = ''fast'' then (2, True)
         else if t = ''ultrafast'' then (3, True)
         else (1, False))"

definition resolve_billing_tier :: "string \<Rightarrow> string \<Rightarrow> tier_resolution" where
  "resolve_billing_tier requested0 observed0 =
     (let requested = normalize_billing_tier requested0; observed = normalize_billing_tier observed0;
          same = \<lparr>st_requested = requested, st_observed = observed, st_billing = requested, st_downgraded = False\<rparr>
      in if observed = [] \<or> observed = requested then same
         else if \<not> snd (service_tier_rank observed) then same
         else if fst (service_tier_rank requested) \<le> fst (service_tier_rank observed) then same
         else same\<lparr>st_billing := observed, st_downgraded := True\<rparr>)"

text \<open>\<open>oauth_like\<close> is \<open>account != nil && account.IsOpenAIOAuthLike()\<close>.\<close>

definition resolve_openai_tier :: "bool \<Rightarrow> string \<Rightarrow> string \<Rightarrow> tier_resolution" where
  "resolve_openai_tier oauth_like requested observed =
     (if oauth_like \<and> normalize_billing_tier observed = ''default''
      then \<lparr>st_requested = normalize_billing_tier requested, st_observed = normalize_billing_tier observed,
            st_billing = normalize_billing_tier requested, st_downgraded = False\<rparr>
      else resolve_billing_tier requested observed)"

definition string_value :: "string option \<Rightarrow> string" where
  "string_value v = (case v of None \<Rightarrow> [] | Some s \<Rightarrow> s)"

section \<open>Results and keys\<close>

record forward_result =
  fr_model :: string
  fr_upstream :: string
  fr_input :: int
  fr_output :: int
  fr_write :: int
  fr_read :: int
  fr_write_5m :: int
  fr_write_1h :: int
  fr_image_output :: int
  fr_tier :: "string option"
  fr_effort :: "string option"
  fr_images :: int
  fr_image_size :: string
  fr_image_input_size :: string
  fr_image_output_size :: string
  fr_image_output_sizes :: "string list"
  fr_image_source :: string
  fr_image_breakdown :: "(string \<times> nat) list"
  fr_audio :: "(string \<times> rat) option"
  fr_searches :: int
  fr_storage_hours :: rat
  fr_response_tier :: string
  fr_response_model :: string
  fr_response_conflict :: bool

record price_key =
  pk_gid :: "int option"
  pk_group :: "price_group option"

record usage_env =
  ue_prices :: pricing_env
  ue_resolver :: bool
  ue_identified :: catalogue
  ue_storage :: "string \<Rightarrow> rat"
  ue_default_rate :: rat
  ue_user_rate :: "int \<Rightarrow> int \<Rightarrow> rat \<Rightarrow> rat"
  ue_minute :: "gotime \<Rightarrow> int"

definition apply_forward_tier :: "forward_result \<Rightarrow> tier_resolution \<times> forward_result" where
  "apply_forward_tier r =
     (let res = resolve_billing_tier (string_value (fr_tier r)) (fr_response_tier r)
      in (res, if st_downgraded res then r\<lparr>fr_tier := Some (st_billing res)\<rparr> else r))"

definition apply_forward_image :: "forward_result \<Rightarrow> forward_result" where
  "apply_forward_image r =
     (if fr_images r \<le> 0 then r
      else
        let i0 = trim_space (fr_image_input_size r);
            input = (if i0 = [] \<and> trim_space (fr_image_size r) \<noteq> ''2K'' then trim_space (fr_image_size r) else i0);
            outputs = (if fr_image_output_sizes r = [] \<and> trim_space (fr_image_output_size r) \<noteq> []
                       then [fr_image_output_size r] else fr_image_output_sizes r);
            res = resolve_image_size input outputs
        in r\<lparr>fr_image_size := ir_billing res, fr_image_input_size := ir_input res,
             fr_image_output_size := ir_output res, fr_image_source := ir_source res,
             fr_image_breakdown := ir_breakdown res\<rparr>)"

definition force_cache_billing :: "forward_result \<Rightarrow> forward_result" where
  "force_cache_billing r = (if 0 < fr_input r then r\<lparr>fr_read := fr_read r + fr_input r, fr_input := 0\<rparr> else r)"

definition apply_cache_ttl_override :: "forward_result \<Rightarrow> string \<Rightarrow> forward_result" where
  "apply_cache_ttl_override r0 target =
     (let r = (if fr_write_5m r0 = 0 \<and> fr_write_1h r0 = 0 \<and> 0 < fr_write r0 then r0\<lparr>fr_write_5m := fr_write r0\<rparr> else r0);
          n = fr_write_5m r + fr_write_1h r
      in if n = 0 then r
         else if target = ''1h'' then
           (if fr_write_1h r = n then r else r\<lparr>fr_write_1h := n, fr_write_5m := 0\<rparr>)
         else (if fr_write_5m r = n then r else r\<lparr>fr_write_5m := n, fr_write_1h := 0\<rparr>))"

section \<open>Rates\<close>

definition parse_minutes :: "string \<Rightarrow> int option" where
  "parse_minutes s =
     (case split_at CHR '':'' s of
        (h # rest) \<Rightarrow>
          let colon = length h; m = drop (Suc colon) s
          in if CHR '':'' \<notin> set s \<or> (colon \<noteq> 1 \<and> colon \<noteq> 2) \<or> length s - colon - 1 \<noteq> 2 then None
             else if \<not> list_all ascii_digit h \<or> \<not> list_all ascii_digit m then None
             else
               let hours = foldl (\<lambda>a c. a * 10 + (int (of_char c) - 48)) 0 h;
                   minutes = foldl (\<lambda>a c. a * 10 + (int (of_char c) - 48)) 0 m
               in if 23 < hours \<or> 59 < minutes then None else Some (hours * 60 + minutes)
      | [] \<Rightarrow> None)"

definition peak_multiplier_at :: "usage_env \<Rightarrow> price_group \<Rightarrow> gotime \<Rightarrow> rat" where
  "peak_multiplier_at env g now =
     (if \<not> pg_subscription g \<or> \<not> pg_peak_enabled g \<or> pg_peak_start g = [] \<or> pg_peak_end g = [] then 1
      else
        case (parse_minutes (pg_peak_start g), parse_minutes (pg_peak_end g)) of
          (Some a, Some b) \<Rightarrow>
            if b \<le> a then 1
            else let cur = ue_minute env now in if a \<le> cur \<and> cur < b then pg_peak_rate g else 1
        | _ \<Rightarrow> 1)"

definition independent_rate :: "bool \<Rightarrow> rat \<Rightarrow> rat \<Rightarrow> rat" where
  "independent_rate own_rate own effective = (if own_rate then (if own < 0 then 0 else own) else effective)"

definition image_rate :: "price_group option \<Rightarrow> rat \<Rightarrow> rat" where
  "image_rate g effective =
     (case g of None \<Rightarrow> effective | Some g \<Rightarrow> independent_rate (pg_image_independent g) (pg_image_rate g) effective)"

definition video_rate :: "price_group option \<Rightarrow> rat \<Rightarrow> rat" where
  "video_rate g effective =
     (case g of None \<Rightarrow> effective | Some g \<Rightarrow> independent_rate (pg_video_independent g) (pg_video_rate g) effective)"

definition peak_aware_multipliers :: "usage_env \<Rightarrow> price_group option \<Rightarrow> rat \<Rightarrow> gotime \<Rightarrow> rat \<times> rat" where
  "peak_aware_multipliers env g base now =
     (base * (case g of None \<Rightarrow> 1 | Some g \<Rightarrow> peak_multiplier_at env g now), image_rate g base)"

definition record_usage_multipliers :: "usage_env \<Rightarrow> price_key \<Rightarrow> int option \<Rightarrow> gotime \<Rightarrow> rat \<times> rat \<times> gotime" where
  "record_usage_multipliers env key user at0 =
     (let base = (case (pk_gid key, pk_group key) of
                    (Some gid, Some g) \<Rightarrow>
                      (case user of None \<Rightarrow> pg_rate g | Some u \<Rightarrow> ue_user_rate env u gid (pg_rate g))
                  | _ \<Rightarrow> ue_default_rate env);
          pricing_at = (if is_zero at0 then pe_now (ue_prices env) else at0);
          (text, image) = peak_aware_multipliers env (pk_group key) base pricing_at
      in (text, image, pricing_at))"

section \<open>The billing model\<close>

record channel_fields =
  cf_source :: string
  cf_mapped :: string
  cf_original :: string

definition resolve_channel_pricing :: "usage_env \<Rightarrow> string \<Rightarrow> price_key \<Rightarrow> resolved_pricing option" where
  "resolve_channel_pricing env model key =
     (case pk_group key of
        None \<Rightarrow> None
      | Some g \<Rightarrow>
          if \<not> ue_resolver env then None
          else let r = resolve (ue_prices env) (Some (pg_id g)) (Some g) model
               in if rp_source r = PricingSourceGroup \<or> rp_source r = PricingSourceChannel then Some r else None)"

definition has_resolvable_pricing :: "usage_env \<Rightarrow> string \<Rightarrow> price_key \<Rightarrow> bool" where
  "has_resolvable_pricing env model key =
     (if trim_space model = [] then False
      else if resolve_channel_pricing env model key \<noteq> None then True
      else \<not> isl (get_model_pricing (pe_catalog (ue_prices env)) (pe_now (ue_prices env)) model))"

definition composite_billable_model :: "usage_env \<Rightarrow> price_key \<Rightarrow> string \<Rightarrow> string \<Rightarrow> string" where
  "composite_billable_model env key billing concrete =
     (if concrete = [] \<or> billing = concrete then billing
      else if resolve_channel_pricing env billing key \<noteq> None then billing
      else concrete)"

definition billable_model_with_fallback :: "usage_env \<Rightarrow> price_key \<Rightarrow> string \<Rightarrow> string list \<Rightarrow> string" where
  "billable_model_with_fallback env key billing fallbacks =
     (if has_resolvable_pricing env billing key then billing
      else case find (\<lambda>f. f \<noteq> [] \<and> f \<noteq> billing \<and> has_resolvable_pricing env f key) (map trim_space fallbacks) of
             Some f \<Rightarrow> f
           | None \<Rightarrow> billing)"

definition record_usage_billing_model :: "usage_env \<Rightarrow> price_key \<Rightarrow> forward_result \<Rightarrow> channel_fields \<Rightarrow> string" where
  "record_usage_billing_model env key r cf =
     (let concrete = (if trim_space (fr_model r) \<noteq> [] then trim_space (fr_model r) else trim_space (fr_upstream r));
          b1 = (if cf_source cf = ''channel_mapped'' \<and> cf_mapped cf \<noteq> [] then cf_mapped cf else concrete);
          b2 = (if cf_source cf = ''requested'' \<and> cf_original cf \<noteq> [] then cf_original cf else b1);
          composite = (case pk_group key of None \<Rightarrow> False | Some g \<Rightarrow> pg_platform g = ''composite'');
          b3 = (if composite then composite_billable_model env key b2 concrete else b2)
      in billable_model_with_fallback env key b3 [fr_upstream r, fr_model r])"

section \<open>The charge\<close>

definition gateway_token_cost :: "usage_env \<Rightarrow> forward_result \<Rightarrow> price_key \<Rightarrow> string \<Rightarrow> rat \<Rightarrow> gotime \<Rightarrow> cost_breakdown" where
  "gateway_token_cost env r key model rate at0 =
     (let tokens = no_tokens\<lparr>ut_input := fr_input r, ut_output := fr_output r, ut_write := fr_write r, ut_read := fr_read r,
                             ut_write_5m := fr_write_5m r, ut_write_1h := fr_write_1h r, ut_image_output := fr_image_output r\<rparr>;
          resolved = (case pk_group key of
                        None \<Rightarrow> None
                      | Some g \<Rightarrow> if ue_resolver env then Some (resolve (ue_prices env) (Some (pg_id g)) (Some g) model) else None)
      in case calculate_token_cost_for_request (ue_prices env)
                \<lparr>tr_model = model, tr_group = pk_group key, tr_tokens = tokens, tr_rate = rate, tr_at = at0,
                 tr_tier = string_value (fr_tier r), tr_effort = string_value (fr_effort r),
                 tr_resolver = ue_resolver env, tr_resolved = resolved\<rparr> of
           Inl e \<Rightarrow> no_cost
         | Inr c \<Rightarrow> c)"

text \<open>The fields a media charge sets in the input of the unified entry.\<close>

definition media_cost_input ::
    "usage_env \<Rightarrow> forward_result \<Rightarrow> price_group \<Rightarrow> string \<Rightarrow> rat \<Rightarrow> resolved_pricing \<Rightarrow> cost_input" where
  "media_cost_input env r g model rate resolved =
     \<lparr>ci_model = model, ci_gid = Some (pg_id g), ci_group = Some g, ci_tokens = no_tokens, ci_count = 0, ci_units = 0,
      ci_size = [], ci_rate = rate, ci_at = 0, ci_tier = [], ci_effort = string_value (fr_effort r),
      ci_resolver = ue_resolver env, ci_resolved = Some resolved, ci_long = None, ci_no_model_long = False\<rparr>"

definition get_image_price :: "price_group \<Rightarrow> string \<Rightarrow> rat option" where
  "get_image_price g sz = (if sz = ''1K'' then pg_image_1k g else if sz = ''4K'' then pg_image_4k g else pg_image_2k g)"

definition gateway_image_cost :: "usage_env \<Rightarrow> forward_result \<Rightarrow> price_key \<Rightarrow> string \<Rightarrow> rat \<Rightarrow> cost_breakdown" where
  "gateway_image_cost env r key model rate =
     (let sz = image_tier_or_default (fr_image_size r);
          flat = calculate_image_cost_flat (pe_catalog (ue_prices env)) model sz (fr_images r) (pk_group key) rate
      in case (pk_group key, resolve_channel_pricing env model key) of
           (Some g, Some p) \<Rightarrow>
             (let i = (media_cost_input env r g model rate p)\<lparr>ci_count := fr_images r, ci_size := sz\<rparr>;
                  by_group = (if rp_source p = PricingSourceGroup then calculate_cost_unified (ue_prices env) i else Inl PricingUnavailable)
              in case by_group of
                   Inr c \<Rightarrow> c
                 | Inl e \<Rightarrow>
                     if get_image_price g sz \<noteq> None then flat
                     else if rp_source p = PricingSourceChannel then
                       (case calculate_cost_unified (ue_prices env)
                               (i\<lparr>ci_tokens := no_tokens\<lparr>ut_input := fr_input r, ut_output := fr_output r,
                                                          ut_image_output := fr_image_output r\<rparr>\<rparr>) of
                          Inr c \<Rightarrow> c
                        | Inl e \<Rightarrow> no_cost)
                     else flat)
         | _ \<Rightarrow> flat)"

definition cache_storage_cost :: "usage_env \<Rightarrow> forward_result \<Rightarrow> string \<Rightarrow> rat" where
  "cache_storage_cost env r model =
     (if fr_storage_hours r \<le> 0 then 0
      else
        let priced = filter (\<lambda>m. trim_space m \<noteq> [] \<and> 0 < cache_storage_price_per_hour (ue_storage env) m)
                       [model, fr_upstream r, fr_model r]
        in fr_storage_hours r * (case priced of [] \<Rightarrow> 0 | m # _ \<Rightarrow> cache_storage_price_per_hour (ue_storage env) m))"

definition storage_only :: "forward_result \<Rightarrow> bool" where
  "storage_only r =
     (0 < fr_storage_hours r \<and> fr_input r = 0 \<and> fr_output r = 0 \<and> fr_write r = 0 \<and> fr_read r = 0 \<and>
      fr_image_output r = 0 \<and> fr_images r = 0 \<and> fr_audio r = None \<and> fr_searches r = 0)"

definition gateway_audio_cost :: "usage_env \<Rightarrow> forward_result \<Rightarrow> price_key \<Rightarrow> string \<Rightarrow> rat \<Rightarrow> string \<Rightarrow> rat \<Rightarrow> cost_breakdown" where
  "gateway_audio_cost env r key model rate mode units =
     (let flat = calculate_audio_cost mode units (pk_group key) rate
      in case (pk_group key, resolve_channel_pricing env model key) of
           (Some g, Some p) \<Rightarrow>
             if rp_mode p \<noteq> BillingModePerRequest then flat
             else (case calculate_cost_unified (ue_prices env)
                           ((media_cost_input env r g model rate p)\<lparr>ci_units := units, ci_size := mode\<rparr>) of
                     Inr c \<Rightarrow> c
                   | Inl e \<Rightarrow> flat)
         | _ \<Rightarrow> flat)"

definition add_surcharge :: "rat \<Rightarrow> rat \<Rightarrow> cost_breakdown \<Rightarrow> cost_breakdown" where
  "add_surcharge amount actual c = c\<lparr>co_total := co_total c + amount, co_actual := co_actual c + actual\<rparr>"

definition calculate_record_usage_cost ::
    "usage_env \<Rightarrow> forward_result \<Rightarrow> price_key \<Rightarrow> string \<Rightarrow> rat \<Rightarrow> rat \<Rightarrow> gotime \<Rightarrow> cost_breakdown" where
  "calculate_record_usage_cost env r key model rate irate at0 =
     (if 0 < fr_images r then
        (case resolve_channel_pricing env model key of
           Some p \<Rightarrow> (if rp_mode p = BillingModeToken then gateway_token_cost env r key model rate at0
                      else gateway_image_cost env r key model irate)
         | None \<Rightarrow> gateway_image_cost env r key model irate)
      else
        case fr_audio r of
          Some (mode, units) \<Rightarrow> gateway_audio_cost env r key model rate mode units
        | None \<Rightarrow>
            let c0 = (if storage_only r then no_cost else gateway_token_cost env r key model rate at0);
                s = calculate_search_cost (fr_searches r)
                      (case pk_group key of None \<Rightarrow> None | Some g \<Rightarrow> pg_search_1k g) rate;
                c1 = (if 0 < fr_searches r \<and> (0 < co_total s \<or> 0 < co_actual s)
                      then add_surcharge (co_total s) (co_actual s) c0 else c0);
                storage = cache_storage_cost env r model
            in if 0 < storage then add_surcharge storage (storage * rate) c1 else c1)"

section \<open>Billing by the model the upstream reports\<close>

definition response_model_declaration :: "string \<Rightarrow> string \<Rightarrow> bool \<Rightarrow> bool \<Rightarrow> string" where
  "response_model_declaration source response conflict media =
     (if source \<noteq> ''response_model'' \<or> conflict \<or> media then [] else trim_space response)"

definition response_cost_epsilon :: rat where "response_cost_epsilon = em 1 12"

definition response_model_adoptable :: "cost_breakdown \<Rightarrow> cost_breakdown \<Rightarrow> bool \<Rightarrow> bool \<Rightarrow> bool" where
  "response_model_adoptable baseline response baseline_priced response_priced =
     (if co_total baseline + response_cost_epsilon < co_total response then False
      else if co_total response \<le> 0 \<and> 0 < co_total baseline then False
      else \<not> baseline_priced \<or> response_priced)"

definition identified_response_pricing :: "usage_env \<Rightarrow> string \<Rightarrow> price_key \<Rightarrow> bool \<times> bool" where
  "identified_response_pricing env model key =
     (if trim_space model = [] then (False, False)
      else if resolve_channel_pricing env model key \<noteq> None then (True, True)
      else (has_identified_token_pricing (ue_identified env) model, False))"

definition media_billed :: "forward_result \<Rightarrow> bool" where
  "media_billed r = (0 < fr_images r \<or> fr_audio r \<noteq> None \<or> 0 < fr_searches r \<or> 0 < fr_storage_hours r)"

definition response_model_cost ::
    "usage_env \<Rightarrow> forward_result \<Rightarrow> price_key \<Rightarrow> channel_fields \<Rightarrow> string \<Rightarrow> rat \<Rightarrow> rat \<Rightarrow> gotime \<Rightarrow> cost_breakdown \<Rightarrow> cost_breakdown" where
  "response_model_cost env r key cf model rate irate at0 cost =
     (let response = response_model_declaration (cf_source cf) (fr_response_model r) (fr_response_conflict r) (media_billed r)
      in if response = [] \<or> equal_fold response (trim_space model) then cost
         else
           let (identified, response_priced) = identified_response_pricing env response key
           in if \<not> identified then cost
              else
                let c = calculate_record_usage_cost env r key response rate irate at0
                in if response_model_adoptable cost c (resolve_channel_pricing env model key \<noteq> None) response_priced
                   then c else cost)"

text \<open>The pricing part of \<open>recordUsageCore\<close>: the adjusted result and its charge. \<open>ttl\<close> is the target of
\<open>resolveCacheTTLUsageOverrideTarget\<close>.\<close>

definition record_usage_cost ::
    "usage_env \<Rightarrow> forward_result \<Rightarrow> price_key \<Rightarrow> int option \<Rightarrow> channel_fields \<Rightarrow> bool \<Rightarrow> string option \<Rightarrow> gotime \<Rightarrow> forward_result \<times> cost_breakdown" where
  "record_usage_cost env r0 key user cf force_cache ttl at0 =
     (let r1 = snd (apply_forward_tier (apply_forward_image r0));
          r2 = (if force_cache then force_cache_billing r1 else r1);
          r = (case ttl of None \<Rightarrow> r2 | Some t \<Rightarrow> apply_cache_ttl_override r2 t);
          (rate, irate, pricing_at) = record_usage_multipliers env key user at0;
          model = record_usage_billing_model env key r cf;
          cost = calculate_record_usage_cost env r key model rate irate pricing_at
      in (r, response_model_cost env r key cf model rate irate pricing_at cost))"

definition quote_usage_cost :: "usage_env \<Rightarrow> forward_result \<Rightarrow> price_key \<Rightarrow> int option \<Rightarrow> channel_fields \<Rightarrow> gotime \<Rightarrow> rat" where
  "quote_usage_cost env r key user cf at0 =
     (let (rate, irate, pricing_at) = record_usage_multipliers env key user at0;
          model = record_usage_billing_model env key r cf
      in co_actual (calculate_record_usage_cost env r key model rate irate pricing_at))"

section \<open>The usage command\<close>

record usage_log =
  ul_model :: string
  ul_billing_type :: int
  ul_input :: int
  ul_output :: int
  ul_write :: int
  ul_read :: int
  ul_images :: int
  ul_tier :: "string option"
  ul_effort :: "string option"
  ul_subscription :: "int option"

text \<open>What \<open>postUsageBillingParams\<close> says about the key, the account and the subscription.\<close>

record post_billing =
  pb_cost :: cost_breakdown
  pb_user :: int
  pb_key :: int
  pb_account :: int
  pb_account_type :: string
  pb_rental :: "rental_snapshot option"
  pb_payload_hash :: string
  pb_subscription :: "int option"
  pb_is_subscription :: bool
  pb_account_rate :: rat
  pb_key_service :: bool
  pb_key_quota :: rat
  pb_key_rate_limits :: bool
  pb_account_key_or_bedrock :: bool
  pb_account_limited :: bool
  pb_simple_mode :: bool

definition no_command :: usage_command where
  "no_command =
     \<lparr>uc_rental = None, uc_request_id = [], uc_key = 0, uc_fingerprint = [], uc_payload_hash = [], uc_user = 0,
      uc_account = 0, uc_subscription = None, uc_account_type = [], uc_model = [], uc_tier = [], uc_effort = [],
      uc_billing_type = 0, uc_input = 0, uc_output = 0, uc_cache_creation = 0, uc_cache_read = 0, uc_images = 0,
      uc_media = [], uc_balance_cost = 0, uc_subscription_cost = 0, uc_key_quota_cost = 0, uc_rate_limit_cost = 0,
      uc_account_cost = 0\<rparr>"

definition command_header :: "string \<Rightarrow> usage_log option \<Rightarrow> post_billing \<Rightarrow> usage_command" where
  "command_header rid ul p =
     (let c = no_command\<lparr>uc_request_id := rid, uc_key := pb_key p, uc_user := pb_user p, uc_account := pb_account p,
                         uc_account_type := pb_account_type p, uc_payload_hash := trim_space (pb_payload_hash p),
                         uc_rental := pb_rental p\<rparr>
      in case ul of
           None \<Rightarrow> c
         | Some l \<Rightarrow>
             c\<lparr>uc_model := ul_model l, uc_billing_type := ul_billing_type l, uc_input := ul_input l, uc_output := ul_output l,
               uc_cache_creation := ul_write l, uc_cache_read := ul_read l, uc_images := ul_images l,
               uc_tier := string_value (ul_tier l), uc_effort := string_value (ul_effort l),
               uc_subscription := ul_subscription l\<rparr>)"

definition charge_command :: "post_billing \<Rightarrow> usage_command \<Rightarrow> usage_command" where
  "charge_command p c0 =
     (let actual = co_actual (pb_cost p);
          c1 = (if pb_is_subscription p \<and> pb_subscription p \<noteq> None \<and> 0 < co_total (pb_cost p)
                then c0\<lparr>uc_subscription := pb_subscription p, uc_subscription_cost := actual\<rparr>
                else if 0 < actual then c0\<lparr>uc_balance_cost := actual\<rparr> else c0);
          c2 = (if 0 < actual \<and> 0 < pb_key_quota p \<and> pb_key_service p then c1\<lparr>uc_key_quota_cost := actual\<rparr> else c1);
          c3 = (if 0 < actual \<and> pb_key_rate_limits p \<and> pb_key_service p then c2\<lparr>uc_rate_limit_cost := actual\<rparr> else c2)
      in if 0 < co_total (pb_cost p) \<and> pb_account_key_or_bedrock p \<and> pb_account_limited p
         then c3\<lparr>uc_account_cost := co_total (pb_cost p) * pb_account_rate p\<rparr> else c3)"

definition build_usage_billing_command ::
    "(fp_part list \<Rightarrow> string) \<Rightarrow> string \<Rightarrow> usage_log option \<Rightarrow> post_billing \<Rightarrow> usage_command" where
  "build_usage_billing_command sha rid ul p =
     (let c = command_header rid ul p
      in normalize_usage sha
           (if pb_simple_mode p then
              (if 0 < co_actual (pb_cost p) \<and> pb_key_rate_limits p
               then c\<lparr>uc_rate_limit_cost := co_actual (pb_cost p)\<rparr> else c)
            else charge_command p c))"

end
