(* ===== verification/Price_Cards.thy ===== *)
theory Price_Cards
  imports Price_Catalog
begin

text \<open>
  Facts about the price cards: every row of the hard-coded table is well formed (no negative price or
  multiplier), the matcher only names rows that exist, the corrections keep a card well formed, and
  every model the service declares supported has a price.
\<close>

named_theorems card_defs \<open>definitions of the operations on a price card\<close>

definition opt_nonneg :: "rat option \<Rightarrow> bool" where
  "opt_nonneg x = (case x of None \<Rightarrow> True | Some v \<Rightarrow> 0 \<le> v)"

definition wf_card :: "model_pricing \<Rightarrow> bool" where
  "wf_card p =
     (0 \<le> mp_ultrafast p \<and> 0 \<le> mp_input p \<and> 0 \<le> mp_input_pri p \<and> 0 \<le> mp_image_input p \<and> 0 \<le> mp_image_read p \<and>
      0 \<le> mp_output p \<and> 0 \<le> mp_output_pri p \<and> 0 \<le> mp_write p \<and> 0 \<le> mp_write_pri p \<and> 0 \<le> mp_read p \<and>
      0 \<le> mp_read_pri p \<and> opt_nonneg (mp_fast p) \<and> opt_nonneg (mp_flex p) \<and> 0 \<le> mp_write_5m p \<and>
      0 \<le> mp_write_1h p \<and> 0 \<le> mp_image_output p)"

lemma opt_nonneg_simps [simp]: "opt_nonneg None" "opt_nonneg (Some v) = (0 \<le> v)"
  by (simp_all add: opt_nonneg_def)

section \<open>The hard-coded table\<close>

lemma fallback_rows_wf: "list_all (\<lambda>r. wf_card (snd r)) fallback_prices"
  by code_simp

definition free_models :: "string list" where
  "free_models = [''glm-4.5-flash'', ''glm-4.7-flash'']"

lemma fallback_rows_positive:
  "list_all (\<lambda>r. fst r \<in> set free_models \<or> 0 < mp_input (snd r)) fallback_prices"
  by code_simp

text \<open>Every row the matcher names is there.\<close>

abbreviation rows :: "(string \<times> model_pricing) list \<Rightarrow> string set" where
  "rows ps \<equiv> fst ` set ps"

lemma match_claude_rows: "match_claude m = Some k \<Longrightarrow> k \<in> rows fallback_claude"
  unfolding match_claude_def fallback_claude_def Let_def by (simp split: if_splits)

lemma match_gemini_deepseek_rows:
  "match_gemini_deepseek m = Some k \<Longrightarrow> k \<in> rows fallback_gemini \<union> rows fallback_deepseek"
  unfolding match_gemini_deepseek_def fallback_gemini_def fallback_deepseek_def by (simp split: if_splits)

lemma match_glm_rows: "match_glm m = Some k \<Longrightarrow> k \<in> rows fallback_glm"
  unfolding match_glm_def fallback_glm_def by (simp split: if_splits)

lemma match_kimi_minimax_rows:
  "match_kimi_minimax m = Some k \<Longrightarrow> k \<in> rows fallback_kimi \<union> rows fallback_minimax \<union> rows fallback_doubao"
  unfolding match_kimi_minimax_def fallback_kimi_def fallback_minimax_def fallback_doubao_def
  by (simp split: if_splits)

lemma priced_bases_rows: "set (''gpt-5.3-codex'' # priced_bases) \<subseteq> rows fallback_openai"
  by (simp add: priced_bases_def fallback_openai_def)

lemma match_openai_rows: "match_openai m = Some k \<Longrightarrow> k \<in> rows fallback_openai"
  using priced_bases_rows by (auto simp: match_openai_def Let_def split: if_splits)

lemma match_grok_rows: "match_grok m = Some k \<Longrightarrow> k \<in> rows fallback_grok"
  unfolding match_grok_def fallback_grok_def by (simp split: if_splits)

lemma fallback_key_rows: "fallback_key m = Some k \<Longrightarrow> k \<in> rows fallback_prices"
proof -
  have jev: "''jev-latest'' \<in> rows fallback_jev" by (simp add: fallback_jev_def)
  assume "fallback_key m = Some k"
  then show ?thesis
    using jev
    by (auto simp: fallback_key_def fallback_prices_def image_Un Let_def split: if_splits option.splits
        dest: match_claude_rows match_gemini_deepseek_rows match_glm_rows match_kimi_minimax_rows
          match_openai_rows match_grok_rows)
qed

lemma fallback_complete:
  assumes "fallback_key m = Some k"
  shows "\<exists>p. get_fallback_pricing m = Some p \<and> wf_card p \<and> (k \<in> set free_models \<or> 0 < mp_input p)"
proof -
  obtain p where p: "map_of fallback_prices k = Some p"
    using fallback_key_rows [OF assms] by (cases "map_of fallback_prices k") (auto simp: map_of_eq_None_iff)
  then have "(k, p) \<in> set fallback_prices" by (rule map_of_SomeD)
  then have "wf_card p" "k \<in> set free_models \<or> 0 < mp_input p"
    using fallback_rows_wf fallback_rows_positive by (fastforce simp: list_all_iff)+
  with p assms show ?thesis by (simp add: get_fallback_pricing_def)
qed

lemma fallback_wf: "get_fallback_pricing m = Some p \<Longrightarrow> wf_card p"
  using fallback_complete [of m] by (cases "fallback_key m") (auto simp: get_fallback_pricing_def)

section \<open>Corrections keep a card well formed\<close>

lemma wf_enforce_fast: "wf_card p \<Longrightarrow> wf_card (enforce_fast_ratio p r)"
  by (auto simp: enforce_fast_ratio_def wf_card_def Let_def)

lemma wf_write_premium: "wf_card p \<Longrightarrow> wf_card (add_write_premium p)"
  by (auto simp: add_write_premium_def wf_card_def Let_def)

lemma wf_deepseek_official: "wf_card p \<Longrightarrow> wf_card (deepseek_official m now t p)"
  by (simp add: deepseek_official_def wf_card_def em_def deepseekFlashOffPeakInputPrice_def
      deepseekFlashOffPeakOutputPrice_def deepseekFlashOffPeakCacheRead_def deepseekProOffPeakInputPrice_def
      deepseekProOffPeakOutputPrice_def deepseekProOffPeakCacheRead_def)

lemma wf_card_updates:
  "wf_card p \<Longrightarrow> 0 \<le> x \<Longrightarrow> wf_card (p\<lparr>mp_write_pri := x\<rparr>)"
  "wf_card p \<Longrightarrow> 0 \<le> x \<Longrightarrow> wf_card (p\<lparr>mp_ultrafast := x\<rparr>)"
  "wf_card p \<Longrightarrow> 0 \<le> x \<Longrightarrow> wf_card (p\<lparr>mp_fast := Some x\<rparr>)"
  by (simp_all add: wf_card_def)

lemma wf_card_write: "wf_card p \<Longrightarrow> 0 \<le> mp_write p"
  by (simp add: wf_card_def)

lemma openai_fast_ratio_nonneg: "0 \<le> openai_fast_ratio n"
  by (simp add: openai_fast_ratio_def)

lemma wf_model_policy: "wf_card p \<Longrightarrow> wf_card (apply_model_policy now m p force t)"
  unfolding apply_model_policy_def Let_def
  by (simp add: wf_deepseek_official wf_enforce_fast wf_write_premium wf_card_updates wf_card_write
      openai_fast_ratio_nonneg)

lemma model_policy_input:
  "0 < mp_input p \<Longrightarrow> 0 < mp_input (apply_model_policy now m p force t)"
proof -
  have premium: "mp_input (add_write_premium p) = mp_input p" for p
    by (simp add: add_write_premium_def Let_def)
  have fast: "mp_input (enforce_fast_ratio p r) = mp_input p" for p r
    by (simp add: enforce_fast_ratio_def Let_def)
  have "0 < mp_input (deepseek_official m now t p)"
    by (simp add: deepseek_official_def em_def deepseekFlashOffPeakInputPrice_def deepseekProOffPeakInputPrice_def)
  moreover assume "0 < mp_input p"
  ultimately show ?thesis by (simp add: apply_model_policy_def Let_def premium fast)
qed

section \<open>Every card the service hands out\<close>

definition wf_entry :: "litellm_pricing \<Rightarrow> bool" where
  "wf_entry e =
     (0 \<le> li_input e \<and> 0 \<le> li_input_pri e \<and> 0 \<le> li_output e \<and> 0 \<le> li_output_pri e \<and> 0 \<le> li_write e \<and>
      0 \<le> li_write_pri e \<and> 0 \<le> li_write_1h e \<and> 0 \<le> li_read e \<and> 0 \<le> li_read_pri e \<and> 0 \<le> li_image_input e \<and>
      0 \<le> li_image_read e \<and> 0 \<le> li_image_output e)"

definition wf_catalogue :: "catalogue \<Rightarrow> bool" where
  "wf_catalogue c = (\<forall>m e. c m = Some e \<longrightarrow> wf_entry e)"

lemma wf_catalogue_card: "wf_entry e \<Longrightarrow> wf_card (catalogue_card m e)"
  by (simp add: wf_entry_def wf_card_def catalogue_card_def no_pricing_def)

lemma get_model_pricing_wf:
  assumes "wf_catalogue c" and "get_model_pricing_at c now m t = Inr p"
  shows "wf_card p"
proof -
  have "wf_entry e" if "c n = Some e" for n e using assms(1) that by (auto simp: wf_catalogue_def)
  then show ?thesis
    using assms(2)
    by (auto simp: get_model_pricing_at_def Let_def split: option.splits if_splits
        intro!: wf_model_policy wf_catalogue_card dest: fallback_wf)
qed

lemma match_claude_none:
  "match_claude m = None \<Longrightarrow>
     \<not> contains m ''claude'' \<and> \<not> contains m ''opus'' \<and> \<not> contains m ''sonnet'' \<and> \<not> contains m ''haiku''"
  unfolding match_claude_def by (simp only: split: if_splits) simp_all

lemma supported_matches:
  assumes "is_model_supported m"
  shows "\<exists>k. fallback_key m = Some k \<and> k \<notin> set free_models"
proof -
  let ?n = "normalize_antigravity_claude (to_lower m)"
  define sup where "sup x = (contains x ''claude'' \<or> contains x ''opus'' \<or> contains x ''sonnet'' \<or> contains x ''haiku'')"
    for x :: string
  have base: "?n = to_lower m \<or> ?n = ''claude-opus-5-5'' \<or> ?n = ''claude-sonnet-5-5''"
    by (auto simp: normalize_antigravity_claude_def find_Some_iff nth_Cons split: option.split nat.splits)
  have "sup (to_lower m)" using assms by (simp add: is_model_supported_def Let_def sup_def)
  moreover have "sup ''claude-opus-5-5''" "sup ''claude-sonnet-5-5''" by (simp_all add: sup_def)
  ultimately have "sup ?n" using base by metis
  then have "contains ?n ''claude'' \<or> contains ?n ''opus'' \<or> contains ?n ''sonnet'' \<or> contains ?n ''haiku''"
    by (simp only: sup_def)
  then obtain k where k: "match_claude ?n = Some k"
    using match_claude_none [of ?n] by (cases "match_claude ?n") blast+
  have "list_all (\<lambda>r. fst r \<notin> set free_models) fallback_claude" by code_simp
  then have free: "k \<notin> set free_models" using match_claude_rows [OF k] by (auto simp: list_all_iff)
  show ?thesis
  proof (cases "?n = ''jev-latest''")
    case True
    then have False using k by (simp add: match_claude_def) code_simp
    then show ?thesis ..
  next
    case False
    then show ?thesis using k free by (simp add: fallback_key_def Let_def)
  qed
qed

lemma to_lower_char_idem [simp]: "to_lower_char (to_lower_char c) = to_lower_char c"
proof (cases "65 \<le> (of_char c :: nat) \<and> (of_char c :: nat) \<le> 90")
  case True
  then have "(of_char (to_lower_char c) :: nat) = of_char c + 32" by (simp add: to_lower_char_def)
  with True show ?thesis by (simp add: to_lower_char_def [of "to_lower_char c"])
next
  case False
  then have "to_lower_char c = c" by (auto simp: to_lower_char_def)
  then show ?thesis by simp
qed

lemma to_lower_idem [simp]: "to_lower (to_lower s) = to_lower s"
  by (simp add: to_lower_def)

text \<open>C26: Every model the service declares supported (any name with claude, opus, sonnet or haiku in it,
in any case) has a price whatever the downloaded catalogue holds, and a well-formed card with a
positive input price when the catalogue does not list it: such a request is never refused for want
of a price and never billed at zero.\<close>

theorem supported_models_priced:
  assumes "is_model_supported model"
  shows "\<exists>p. get_model_pricing_at catalog now model t = Inr p \<and>
             (catalog (to_lower model) = None \<longrightarrow> wf_card p \<and> 0 < mp_input p)"
proof -
  have "is_model_supported (to_lower model)" using assms by (simp add: is_model_supported_def)
  then obtain k where "fallback_key (to_lower model) = Some k" "k \<notin> set free_models"
    using supported_matches by blast
  then obtain p where "get_fallback_pricing (to_lower model) = Some p" "wf_card p" "0 < mp_input p"
    using fallback_complete by blast
  then show ?thesis
    by (auto simp: get_model_pricing_at_def Let_def split: option.split intro: wf_model_policy model_policy_input)
qed

theorem supported_models_priced_witness:
  "\<exists>p. get_model_pricing_at (\<lambda>m. None) 1 ''Claude-Next'' 1 = Inr p \<and>
       ((\<lambda>m. None :: litellm_pricing option) (to_lower ''Claude-Next'') = None \<longrightarrow> wf_card p \<and> 0 < mp_input p)"
  by (rule supported_models_priced) code_simp

text \<open>Without the catalogue, Claude Haiku 4.5 is billed by the row of Claude 3 Haiku: a quarter of the
one dollar per million tokens of its entry in the bundled catalogue.\<close>

lemma haiku_45_quarter_price:
  "get_fallback_pricing ''claude-haiku-4-5'' = map_of fallback_prices ''claude-3-haiku''"
  "map_option mp_input (map_of fallback_prices ''claude-3-haiku'') = Some (em 1 6 / 4)"
proof -
  have "fallback_key ''claude-haiku-4-5'' = Some ''claude-3-haiku''" by code_simp
  then show "get_fallback_pricing ''claude-haiku-4-5'' = map_of fallback_prices ''claude-3-haiku''"
    by (simp add: get_fallback_pricing_def)
  show "map_option mp_input (map_of fallback_prices ''claude-3-haiku'') = Some (em 1 6 / 4)"
    by (simp add: fallback_prices_def fallback_claude_def Let_def no_pricing_def em_def)
qed

end
