(* ===== verification/Cost_Bounds.thy ===== *)
theory Cost_Bounds
  imports Token_Cost Price_Cards
begin

text \<open>
  The shape of every charge: cards, operator rows and resolved prices without negative prices stay so
  through every override and correction, the parts of a charge are not negative, they sum to the total,
  and the user pays the total times the rate. The split of cache writes by lifetime is bounded by the
  aggregate and keeps the reported ratio.
\<close>

section \<open>Operator rows without negative prices\<close>

definition wf_interval :: "pricing_interval \<Rightarrow> bool" where
  "wf_interval iv =
     (opt_nonneg (pi_input iv) \<and> opt_nonneg (pi_output iv) \<and> opt_nonneg (pi_write iv) \<and> opt_nonneg (pi_write_1h iv) \<and>
      opt_nonneg (pi_read iv) \<and> opt_nonneg (pi_input_mult iv) \<and> opt_nonneg (pi_output_mult iv) \<and>
      opt_nonneg (pi_write_mult iv) \<and> opt_nonneg (pi_read_mult iv) \<and> opt_nonneg (pi_per_request iv))"

definition wf_channel :: "channel_pricing \<Rightarrow> bool" where
  "wf_channel c =
     (opt_nonneg (cp_input c) \<and> opt_nonneg (cp_output c) \<and> opt_nonneg (cp_write c) \<and> opt_nonneg (cp_write_1h c) \<and>
      opt_nonneg (cp_read c) \<and> opt_nonneg (cp_fast c) \<and> opt_nonneg (cp_flex c) \<and> opt_nonneg (cp_image_input c) \<and>
      opt_nonneg (cp_image_output c) \<and> opt_nonneg (cp_per_request c) \<and> list_all wf_interval (cp_intervals c))"

definition wf_group :: "price_group \<Rightarrow> bool" where
  "wf_group g = list_all wf_channel (pg_pricing g)"

definition wf_env :: "pricing_env \<Rightarrow> bool" where
  "wf_env env = (wf_catalogue (pe_catalog env) \<and> (\<forall>g m c. pe_channel env g m = Some c \<longrightarrow> wf_channel c))"

definition wf_resolved :: "resolved_pricing \<Rightarrow> bool" where
  "wf_resolved r =
     (pred_option wf_card (rp_base r) \<and> list_all wf_interval (rp_intervals r) \<and> list_all wf_interval (rp_tiers r) \<and>
      0 \<le> rp_default r \<and> pred_option wf_channel (rp_channel r))"

definition wf_tokens :: "usage_tokens \<Rightarrow> bool" where
  "wf_tokens t =
     (0 \<le> ut_input t \<and> 0 \<le> ut_image_input t \<and> 0 \<le> ut_image_read t \<and> 0 \<le> ut_output t \<and> 0 \<le> ut_write t \<and>
      0 \<le> ut_read t \<and> 0 \<le> ut_write_5m t \<and> 0 \<le> ut_write_1h t \<and> 0 \<le> ut_image_output t)"

named_theorems wf_intros \<open>operations that keep prices non-negative\<close>

lemma tier_override_nonneg [simp]: "0 \<le> x \<Longrightarrow> 0 \<le> tier_override a b x"
  by (simp add: tier_override_def)

lemma wf_no_pricing [wf_intros]: "wf_card no_pricing"
  by (simp add: wf_card_def no_pricing_def)

lemma wf_override_parts:
  assumes "wf_card p" "wf_channel c"
  shows "wf_card (override_input c p)" and "wf_card (override_output c p)" and "wf_card (override_write c p)"
    and "wf_card (override_write_1h c p)" and "wf_card (override_read c p)"
  using assms
  by (auto simp: override_input_def override_output_def override_write_def override_write_1h_def override_read_def
      wf_card_def wf_channel_def split: option.split)

lemma wf_channel_token [wf_intros]: "wf_card p \<Longrightarrow> wf_channel c \<Longrightarrow> wf_card (apply_channel_token_prices p c)"
  by (simp add: apply_channel_token_prices_def wf_override_parts)

lemma wf_channel_image [wf_intros]:
  "wf_card p \<Longrightarrow> pred_option wf_channel cp \<Longrightarrow> wf_card (apply_channel_image_prices cp p)"
  by (auto simp: apply_channel_image_prices_def wf_card_def wf_channel_def Let_def split: option.split)

lemma wf_interval_parts:
  assumes "wf_card p" "wf_interval iv"
  shows "wf_card (interval_input iv p)" and "wf_card (interval_output iv p)" and "wf_card (interval_write iv p)"
    and "wf_card (interval_write_1h iv p)" and "wf_card (interval_read iv p)"
  using assms
  by (auto simp: interval_input_def interval_output_def interval_write_def interval_write_1h_def interval_read_def
      wf_card_def wf_interval_def split: option.split)

lemma wf_interval_card [wf_intros]:
  "pred_option wf_card base \<Longrightarrow> wf_interval iv \<Longrightarrow> pred_option wf_channel cp \<Longrightarrow> wf_card (interval_card iv base cp)"
  unfolding interval_card_def
  by (intro wf_channel_image wf_interval_parts) (auto simp: wf_no_pricing split: option.split)

section \<open>Resolved prices\<close>

lemma wf_breakdown [simp]: "wf_card (p\<lparr>mp_breakdown := b\<rparr>) = wf_card p"
  by (simp add: wf_card_def)

lemma wf_tiers_of_channel: "wf_card p \<Longrightarrow> wf_channel c \<Longrightarrow> wf_card (p\<lparr>mp_fast := cp_fast c, mp_flex := cp_flex c, mp_efforts := e\<rparr>)"
  by (simp add: wf_card_def wf_channel_def)

lemma wf_token_override [wf_intros]:
  "pred_option wf_card base \<Longrightarrow> wf_channel c \<Longrightarrow> wf_card (token_override_card c base)"
  unfolding token_override_card_def Let_def
  by (intro wf_channel_image wf_tiers_of_channel) (auto simp: wf_no_pricing wf_channel_token split: option.split)

lemma wf_filter_intervals: "list_all wf_interval ivs \<Longrightarrow> list_all wf_interval (filter_valid_intervals ivs)"
  by (auto simp: filter_valid_intervals_def list_all_iff)

lemma wf_apply_token_overrides [wf_intros]:
  "wf_resolved r \<Longrightarrow> wf_channel c \<Longrightarrow> wf_resolved (apply_token_overrides c r)"
  by (simp add: apply_token_overrides_def wf_resolved_def wf_token_override wf_filter_intervals wf_channel_def)

lemma wf_apply_request_tiers [wf_intros]:
  "wf_resolved r \<Longrightarrow> wf_channel c \<Longrightarrow> wf_resolved (apply_request_tiers c r)"
  by (auto simp: apply_request_tiers_def wf_resolved_def wf_filter_intervals wf_channel_def Let_def split: option.split)

lemma wf_resolve_base: "wf_env env \<Longrightarrow> pred_option wf_card (fst (resolve_base env m))"
  using get_model_pricing_wf [of "pe_catalog env" "pe_now env" m "pe_now env"]
  by (auto simp: resolve_base_def get_model_pricing_def wf_env_def split: sum.split)

lemma wf_fresh:
  "wf_resolved (resolved_empty mode s)"
  "pred_option wf_channel c \<Longrightarrow> wf_resolved r \<Longrightarrow> wf_resolved (r\<lparr>rp_channel := c\<rparr>)"
  "pred_option wf_card b \<Longrightarrow> wf_resolved r \<Longrightarrow> wf_resolved (r\<lparr>rp_base := b\<rparr>)"
  "wf_resolved (r\<lparr>rp_breakdown := x\<rparr>) = wf_resolved r"
  "wf_resolved (r\<lparr>rp_long := l\<rparr>) = wf_resolved r"
  by (simp_all add: wf_resolved_def resolved_empty_def)

lemma wf_resolve_configured: "wf_env env \<Longrightarrow> wf_channel c \<Longrightarrow> wf_resolved (resolve_configured env c m s)"
  by (simp add: resolve_configured_def Let_def wf_apply_request_tiers wf_apply_token_overrides wf_fresh wf_resolve_base)

lemma wf_lookup_channel: "wf_env env \<Longrightarrow> lookup_channel_pricing env g m = Some c \<Longrightarrow> wf_channel c"
  by (auto simp: lookup_channel_pricing_def wf_env_def Let_def split: option.splits if_splits)

lemma wf_match_group:
  assumes "pred_option wf_group g" "match_group_pricing g m = Some c"
  shows "wf_channel c"
proof -
  obtain h where h: "g = Some h" using assms(2) by (cases g) (auto simp: match_group_pricing_def)
  have "c \<in> set (pg_pricing h)"
    using assms(2) by (auto simp: h match_group_pricing_def Let_def find_Some_iff split: option.splits dest!: nth_mem)
  then show ?thesis using assms(1) h by (auto simp: wf_group_def list_all_iff)
qed

lemma wf_resolve:
  assumes "wf_env env" "pred_option wf_group g"
  shows "wf_resolved (resolve env gid g m)"
proof -
  have strip: "wf_channel c \<Longrightarrow> wf_channel (c\<lparr>cp_intervals := []\<rparr>)" for c by (simp add: wf_channel_def)
  have base: "pred_option wf_card (fst (resolve_base env m))" by (rule wf_resolve_base [OF assms(1)])
  show ?thesis
  proof (cases "match_group_pricing g m")
    case (Some c)
    then have "wf_channel c" using wf_match_group [OF assms(2)] by blast
    then show ?thesis
      using Some assms(1) strip by (simp add: resolve_def Let_def wf_resolve_configured wf_fresh)
  next
    case None
    define ch where "ch = (case gid of None \<Rightarrow> None | Some i \<Rightarrow> lookup_channel_pricing env i m)"
    have ch: "pred_option wf_channel ch"
      using wf_lookup_channel [OF assms(1)] by (cases gid) (auto simp: ch_def option.pred_set)
    show ?thesis
    proof (cases ch)
      case None
      then show ?thesis
        using \<open>match_group_pricing g m = None\<close> base
        by (cases "resolve_base env m") (simp add: resolve_def Let_def ch_def [symmetric] wf_fresh)
    next
      case (Some c)
      then show ?thesis
        using \<open>match_group_pricing g m = None\<close> base ch
        by (simp add: resolve_def Let_def ch_def [symmetric] wf_fresh wf_apply_request_tiers wf_apply_token_overrides)
    qed
  qed
qed

lemma find_matching_interval_in: "find_matching_interval ivs n = Some iv \<Longrightarrow> iv \<in> set ivs"
  by (induction ivs) (auto split: if_splits)

lemma wf_interval_pricing: "wf_resolved r \<Longrightarrow> get_interval_pricing r n = Some p \<Longrightarrow> wf_card p"
  by (auto simp: get_interval_pricing_def wf_resolved_def list_all_iff split: if_splits option.splits
      dest!: find_matching_interval_in intro!: wf_interval_card)

section \<open>The split of cache writes\<close>

lemma normalize_cache_writes_cases:
  fixes t defines "m5 \<equiv> max (ut_write_5m t) 0" and "h1 \<equiv> max (ut_write_1h t) 0"
  shows "ut_write t \<le> 0 \<or> m5 + h1 \<le> ut_write t \<Longrightarrow> normalize_cache_writes t = (m5, h1)"
    and "0 < ut_write t \<Longrightarrow> ut_write t < m5 + h1 \<Longrightarrow>
           normalize_cache_writes t =
             (let n = round_half_away (of_int (ut_write t) * of_int m5 / of_int (m5 + h1)) in (n, ut_write t - n)) \<and>
           0 \<le> round_half_away (of_int (ut_write t) * of_int m5 / of_int (m5 + h1)) \<and>
           round_half_away (of_int (ut_write t) * of_int m5 / of_int (m5 + h1)) \<le> ut_write t"
proof -
  show "ut_write t \<le> 0 \<or> m5 + h1 \<le> ut_write t \<Longrightarrow> normalize_cache_writes t = (m5, h1)"
    by (auto simp: normalize_cache_writes_def Let_def m5_def h1_def max_def)
  assume pos: "0 < ut_write t" and over: "ut_write t < m5 + h1"
  have m: "0 \<le> m5" "0 \<le> h1" by (simp_all add: m5_def h1_def)
  let ?q = "of_int (ut_write t) * of_int m5 / of_int (m5 + h1) :: rat"
  have "?q \<le> of_int (ut_write t)"
  proof -
    have "of_int (ut_write t) * of_int m5 \<le> (of_int (ut_write t) * of_int (m5 + h1) :: rat)"
      using pos m by (intro mult_left_mono) simp_all
    then show ?thesis using pos over by (simp add: divide_le_eq)
  qed
  from round_half_away_mono [OF this] have le: "round_half_away ?q \<le> ut_write t" by simp
  have "0 \<le> ?q" using pos m by (simp add: divide_nonneg_nonneg)
  from round_half_away_mono [OF this] have ge: "0 \<le> round_half_away ?q"
    using round_half_away_of_int [of 0] by simp
  have mm: "(if ut_write_5m t < 0 then 0 else ut_write_5m t) = m5" "(if ut_write_1h t < 0 then 0 else ut_write_1h t) = h1"
    by (auto simp: m5_def h1_def)
  show "normalize_cache_writes t = (let n = round_half_away ?q in (n, ut_write t - n)) \<and>
        0 \<le> round_half_away ?q \<and> round_half_away ?q \<le> ut_write t"
    using pos over le ge by (auto simp: normalize_cache_writes_def mm Let_def)
qed

lemma normalize_cache_writes_nonneg:
  "0 \<le> fst (normalize_cache_writes t)" "0 \<le> snd (normalize_cache_writes t)"
proof -
  have "0 \<le> fst (normalize_cache_writes t) \<and> 0 \<le> snd (normalize_cache_writes t)"
  proof (cases "ut_write t \<le> 0 \<or> max (ut_write_5m t) 0 + max (ut_write_1h t) 0 \<le> ut_write t")
    case True
    then show ?thesis using normalize_cache_writes_cases(1) [of t] by simp
  next
    case False
    then show ?thesis using normalize_cache_writes_cases(2) [of t] by (auto simp: Let_def)
  qed
  then show "0 \<le> fst (normalize_cache_writes t)" "0 \<le> snd (normalize_cache_writes t)" by simp_all
qed

lemma round_half_away_near: "\<bar>of_int (round_half_away x) - x\<bar> \<le> (1 / 2 :: rat)"
proof (cases "0 \<le> x")
  case True
  then have "of_int (round_half_away x) = (of_int \<lfloor>x + 1 / 2\<rfloor> :: rat)" by (simp add: round_half_away_def)
  moreover have "of_int \<lfloor>x + 1 / 2\<rfloor> \<le> x + 1 / 2" "x + 1 / 2 < of_int \<lfloor>x + 1 / 2\<rfloor> + 1"
    using floor_correct [of "x + 1 / 2"] by auto
  ultimately show ?thesis by (simp only: abs_le_iff) linarith
next
  case False
  then have "of_int (round_half_away x) = (- of_int \<lfloor>1 / 2 - x\<rfloor> :: rat)" by (simp add: round_half_away_def)
  moreover have "of_int \<lfloor>1 / 2 - x\<rfloor> \<le> 1 / 2 - x" "1 / 2 - x < of_int \<lfloor>1 / 2 - x\<rfloor> + 1"
    using floor_correct [of "1 / 2 - x"] by auto
  ultimately show ?thesis by (simp only: abs_le_iff) linarith
qed



section \<open>The shape of a charge\<close>

definition cost_parts :: "cost_breakdown \<Rightarrow> rat list" where
  "cost_parts c = [co_input c, co_image_input c, co_output c, co_image_output c, co_write c, co_read c]"

definition sound_cost :: "rat \<Rightarrow> cost_breakdown \<Rightarrow> bool" where
  "sound_cost rate c =
     (list_all (\<lambda>x. 0 \<le> x) (cost_parts c) \<and> 0 \<le> co_total c \<and> co_actual c = co_total c * max rate 0)"

definition itemised :: "cost_breakdown \<Rightarrow> bool" where
  "itemised c = (co_total c = sum_list (cost_parts c))"

lemma configured_tier_nonneg: "wf_card p \<Longrightarrow> 0 \<le> configured_tier_multiplier tier p"
  by (auto simp: configured_tier_multiplier_def tier_multiplier_def wf_card_def opt_nonneg_def Let_def split: option.splits)

lemma tier_prices_nonneg:
  assumes "wf_card p"
  shows "0 \<le> up_input (tier_prices tier p)" and "0 \<le> up_output (tier_prices tier p)"
    and "0 \<le> up_read (tier_prices tier p)" and "0 \<le> up_write (tier_prices tier p)"
    and "0 \<le> up_tier (tier_prices tier p)"
  using assms configured_tier_nonneg [OF assms, of tier]
  by (auto simp: tier_prices_def positive_or_def wf_card_def)

lemma long_or_one_pos [simp]: "0 < long_or_one k" "0 \<le> long_or_one k"
  by (simp_all add: long_or_one_def)

lemma long_prices_nonneg:
  assumes "wf_card p"
  shows "0 \<le> up_input (long_prices p (tier_prices tier p))" and "0 \<le> up_output (long_prices p (tier_prices tier p))"
    and "0 \<le> up_read (long_prices p (tier_prices tier p))" and "0 \<le> up_write (long_prices p (tier_prices tier p))"
    and "0 \<le> up_tier (long_prices p (tier_prices tier p))"
  using tier_prices_nonneg [OF assms, of tier] by (simp_all add: long_prices_def)

lemma token_costs_nonneg:
  assumes "wf_card p" "wf_tokens t"
  shows "0 \<le> x \<Longrightarrow> 0 \<le> fst (input_costs p t x)" and "0 \<le> x \<Longrightarrow> 0 \<le> snd (input_costs p t x)"
    and "0 \<le> x \<Longrightarrow> 0 \<le> output_cost t x" and "0 \<le> x \<Longrightarrow> 0 \<le> image_output_cost p t x"
    and "0 \<le> x \<Longrightarrow> 0 \<le> read_cost p t x"
  using assms
  by (auto simp: input_costs_def output_cost_def image_output_cost_def read_cost_def wf_card_def wf_tokens_def Let_def)

lemma cache_write_cost_nonneg:
  assumes "wf_card p" "wf_tokens t" "0 \<le> x" "0 \<le> k"
  shows "0 \<le> cache_write_cost p t x k"
  using assms normalize_cache_writes_nonneg [of t]
  by (auto simp: cache_write_cost_def wf_card_def wf_tokens_def split: prod.split)

lemma breakdown_sound:
  assumes "wf_card p" "wf_tokens t"
  shows "sound_cost rate (breakdown_at long p t rate tier)" and "itemised (breakdown_at long p t rate tier)"
proof -
  note prices = tier_prices_nonneg [OF assms(1), of tier] long_prices_nonneg [OF assms(1), of tier]
  note costs = token_costs_nonneg [OF assms] cache_write_cost_nonneg [OF assms]
  have "list_all (\<lambda>x. 0 \<le> x) (cost_parts (breakdown_at long p t rate tier))"
    using prices costs by (simp add: cost_parts_def breakdown_at_def Let_def)
  moreover show "itemised (breakdown_at long p t rate tier)"
    by (simp add: itemised_def cost_parts_def breakdown_at_def Let_def)
  moreover have "co_actual (breakdown_at long p t rate tier) = co_total (breakdown_at long p t rate tier) * max rate 0"
    by (simp add: breakdown_at_def Let_def max_def)
  ultimately show "sound_cost rate (breakdown_at long p t rate tier)"
    by (auto simp: sound_cost_def itemised_def list_all_iff intro!: sum_list_nonneg)
qed

lemma compute_sound:
  assumes "wf_card p" "wf_tokens t"
  shows "sound_cost rate (compute_token_breakdown p t rate tier long)" and "itemised (compute_token_breakdown p t rate tier long)"
  using breakdown_sound(1) [OF assms, of rate True tier] breakdown_sound(1) [OF assms, of rate False tier]
    breakdown_sound(2) [OF assms, of True rate tier] breakdown_sound(2) [OF assms, of False rate tier]
  by (simp_all add: compute_token_breakdown_def sound_cost_def itemised_def cost_parts_def Let_def)

lemma multiplied_sound:
  assumes "0 \<le> k"
  shows "sound_cost rate c \<Longrightarrow> sound_cost rate (apply_cost_multiplier k c)"
    and "itemised c \<Longrightarrow> itemised (apply_cost_multiplier k c)"
  using assms
  by (auto simp: sound_cost_def itemised_def apply_cost_multiplier_def cost_parts_def algebra_simps)

lemma effort_multiplier_pos [simp]: "0 < effort_multiplier e ms" "0 \<le> effort_multiplier e ms"
  by (auto simp: effort_multiplier_def Let_def split: option.split)

lemma parse_period_pos: "parse_period p = Some (a, b, k) \<Longrightarrow> 0 < k"
  by (auto simp: parse_period_def Let_def split: if_splits option.splits)

lemma parsed_periods_pos:
  assumes "parse_channel_time_periods ps = Some qs" "(a, b, k) \<in> set qs"
  shows "0 < k"
proof -
  obtain p where "p \<in> set ps" "parse_period p = Some (a, b, k)"
    using assms
    by (auto simp: parse_channel_time_periods_def Let_def list_ex_iff image_iff split: if_splits) (metis option.collapse)
  then show ?thesis using parse_period_pos by blast
qed

lemma period_multiplier_pos: "(\<And>a b k. (a, b, k) \<in> set qs \<Longrightarrow> 0 < k) \<Longrightarrow> 0 < period_multiplier qs n"
  by (induction qs n rule: period_multiplier.induct) auto

lemma multiplier_at_pos: "0 < multiplier_at env c t"
  using parsed_periods_pos
  by (auto simp: multiplier_at_def split: option.split prod.split intro!: period_multiplier_pos)

lemma resolved_time_multiplier_pos [simp]: "0 < resolved_time_multiplier env r t" "0 \<le> resolved_time_multiplier env r t"
  using multiplier_at_pos by (auto simp: resolved_time_multiplier_def less_imp_le split: option.split)

section \<open>Every charge\<close>

lemma wf_charged_card: "wf_card p \<Longrightarrow> wf_card (charged_card env r m t p)"
proof -
  have "wf_card q \<Longrightarrow> 1 < k \<Longrightarrow> wf_card (deepseek_peak_card k q)" for q k
    by (simp add: deepseek_peak_card_def wf_card_def)
  then show "wf_card p \<Longrightarrow> ?thesis" by (simp add: charged_card_def Let_def wf_model_policy)
qed

lemma token_cost_sound:
  assumes "wf_resolved r" "wf_tokens (ci_tokens i)" "calculate_token_cost env r i = Inr c"
  shows "sound_cost (ci_rate i) c \<and> itemised c"
proof -
  obtain p0 where p0: "get_interval_pricing r (if context_tiers_enabled r i then total_context (ci_tokens i) else 1) = Some p0"
    using assms(3) by (auto simp: calculate_token_cost_def Let_def split: option.splits)
  let ?p = "charged_card env r (ci_model i) (ci_at i) p0"
  have p: "wf_card ?p" using wf_interval_pricing [OF assms(1) p0] by (rule wf_charged_card)
  show ?thesis
    using assms(3) p0 compute_sound [OF p assms(2), of "ci_rate i"]
    by (auto simp: calculate_token_cost_def Let_def intro!: multiplied_sound)
qed

lemma request_tier_price_nonneg: "list_all wf_interval ts \<Longrightarrow> 0 \<le> request_tier_price ts l"
  by (induction ts) (auto simp: wf_interval_def)

lemma by_context_nonneg:
  assumes "wf_resolved r"
  shows "0 \<le> request_tier_price_by_context r n"
proof -
  have "wf_interval iv" if "find_matching_interval (rp_tiers r) n = Some iv" for iv
    using find_matching_interval_in [OF that] assms by (auto simp: wf_resolved_def list_all_iff)
  then show ?thesis
    by (fastforce simp: request_tier_price_by_context_def wf_interval_def split: option.split)
qed

lemma per_request_sound:
  assumes "wf_resolved r" "0 \<le> ci_rate i"
  shows "sound_cost (ci_rate i) (calculate_per_request_cost r i)"
proof -
  have "0 \<le> request_tier_price (rp_tiers r) (ci_size i)" "0 \<le> rp_default r"
    using assms(1) request_tier_price_nonneg by (simp_all add: wf_resolved_def)
  then have "0 \<le> co_total (calculate_per_request_cost r i)"
    using by_context_nonneg [OF assms(1), of "total_context (ci_tokens i)"]
    by (simp add: calculate_per_request_cost_def Let_def)
  then show ?thesis
    using assms(2) by (simp add: sound_cost_def cost_parts_def calculate_per_request_cost_def Let_def no_cost_def)
qed

lemma sound_cost_mode [simp]:
  "sound_cost rate (c\<lparr>co_mode := m\<rparr>) = sound_cost rate c" "itemised (c\<lparr>co_mode := m\<rparr>) = itemised c"
  by (simp_all add: sound_cost_def itemised_def cost_parts_def)

lemma clamp_rate_facts:
  "ci_rate (clamp_rate i) = max (ci_rate i) 0" "ci_tokens (clamp_rate i) = ci_tokens i" "0 \<le> ci_rate (clamp_rate i)"
  by (simp_all add: clamp_rate_def max_def)

lemma sound_cost_clamped: "sound_cost (max rate 0) c = sound_cost rate c"
  by (simp add: sound_cost_def)

lemma unified_cost_sound:
  assumes "wf_env env" and "pred_option wf_group (ci_group i)" and "pred_option wf_resolved (ci_resolved i)"
    and "wf_tokens (ci_tokens i)" and "calculate_cost_unified env i = Inr c"
  shows "sound_cost (ci_rate i) c \<and> (per_request_mode (co_mode c) \<or> itemised c)"
proof (cases "ci_resolver i")
  case False
  then obtain p where p: "get_model_pricing (pe_catalog env) (pe_now env) (ci_model i) = Inr p"
    using assms(5) by (auto simp: calculate_cost_unified_def Let_def split: sum.splits)
  then have "wf_card p" using get_model_pricing_wf assms(1) by (auto simp: wf_env_def get_model_pricing_def)
  from compute_sound [OF this assms(4)] show ?thesis
    using False p assms(5) by (auto simp: calculate_cost_unified_def Let_def intro!: multiplied_sound)
next
  case True
  define r where "r = (case ci_resolved i of Some r \<Rightarrow> r | None \<Rightarrow> resolve env (ci_gid i) (ci_group i) (ci_model i))"
  have r: "wf_resolved r" using assms(1-3) wf_resolve by (cases "ci_resolved i") (simp_all add: r_def)
  have tokens: "wf_tokens (ci_tokens (clamp_rate i))" using assms(4) by (simp add: clamp_rate_facts)
  note sound = per_request_sound [OF r clamp_rate_facts(3)] token_cost_sound [OF r tokens]
  show ?thesis
    using True assms(5) sound
    by (auto simp: calculate_cost_unified_def Let_def r_def [symmetric] clamp_rate_facts sound_cost_clamped
        mode_or_token_def map_sum_def per_request_mode_def split: if_splits option.splits sum.splits
        intro!: multiplied_sound)
qed


text \<open>A plain request without an operator price, for the concrete instances.\<close>

definition sample_env :: pricing_env where
  "sample_env = \<lparr>pe_catalog = (\<lambda>m. None), pe_now = 1, pe_zone = (\<lambda>z. None), pe_channel = (\<lambda>g m. None)\<rparr>"

definition sample_input :: cost_input where
  "sample_input =
     \<lparr>ci_model = ''gpt-5.4'', ci_gid = None, ci_group = None,
      ci_tokens = no_tokens\<lparr>ut_input := 1000, ut_output := 500, ut_write := 20, ut_write_5m := 15, ut_write_1h := 15\<rparr>,
      ci_count = 1, ci_units = 0, ci_size = [], ci_rate = 2, ci_at = 5, ci_tier = ''priority'', ci_effort = ''high'',
      ci_resolver = True, ci_resolved = None, ci_long = None, ci_no_model_long = False\<rparr>"


end
