(* ===== verification/Cost_Tiers.thy ===== *)
theory Cost_Tiers
  imports Usage_Cost Cost_Bounds
begin

text \<open>
  The service tier and the charge: every part of a charge is affine in its unit price, so a tier with
  unit prices that are nowhere dearer gives a charge that is not dearer; the tier billing settles on is
  then never dearer than the one the client asked for, on a card whose tiers are ordered. The concrete
  cards where the order fails, and the requests whose tier is not charged at all, are shown apart.
\<close>

section \<open>Charges are affine in the unit price\<close>

definition affine_cost :: "(rat \<Rightarrow> rat) \<Rightarrow> bool" where
  "affine_cost f = (\<exists>n c. 0 \<le> n \<and> 0 \<le> c \<and> (\<forall>x. f x = n * x + c))"

lemma affine_costI: "0 \<le> n \<Longrightarrow> 0 \<le> c \<Longrightarrow> (\<And>x. f x = n * x + c) \<Longrightarrow> affine_cost f"
  by (auto simp: affine_cost_def)

lemma affine_cost_const: "0 \<le> c \<Longrightarrow> affine_cost (\<lambda>x. c)"
  by (rule affine_costI [of 0 c]) simp_all

lemma affine_cost_le:
  assumes "affine_cost f" "x * k \<le> y * l" "k \<le> l"
  shows "f x * k \<le> f y * l"
proof -
  obtain n c where n: "0 \<le> n" "0 \<le> c" "\<And>x. f x = n * x + c" using assms(1) by (auto simp: affine_cost_def)
  have "n * (x * k) + c * k \<le> n * (y * l) + c * l"
    using n assms(2,3) by (intro add_mono mult_left_mono) auto
  then show ?thesis by (simp add: n algebra_simps)
qed

lemma affine_parts:
  assumes "wf_card p" "wf_tokens t"
  shows "affine_cost (\<lambda>x. fst (input_costs p t x))" and "affine_cost (\<lambda>x. snd (input_costs p t x))"
    and "affine_cost (output_cost t)" and "affine_cost (image_output_cost p t)"
    and "affine_cost (read_cost p t)" and "0 \<le> k \<Longrightarrow> affine_cost (\<lambda>x. cache_write_cost p t x k)"
proof -
  let ?text = "if ut_image_input t = 0 then ut_input t else max (ut_input t - ut_image_input t) 0"
  show "affine_cost (\<lambda>x. fst (input_costs p t x))"
    using assms(2)
    by (intro affine_costI [of "of_int ?text" 0]) (auto simp: input_costs_def Let_def wf_tokens_def max_def)
  let ?image = "if ut_image_input t = 0 then 0 else min (ut_input t) (ut_image_input t)"
  show "affine_cost (\<lambda>x. snd (input_costs p t x))"
  proof (cases "mp_image_input p = 0")
    case True
    then show ?thesis
      using assms(2)
      by (intro affine_costI [of "of_int ?image" 0]) (auto simp: input_costs_def Let_def wf_tokens_def min_def)
  next
    case False
    then show ?thesis
      using assms
      by (intro affine_costI [of 0 "of_int ?image * mp_image_input p"])
        (auto simp: input_costs_def Let_def wf_tokens_def wf_card_def min_def)
  qed
  show "affine_cost (output_cost t)"
    by (rule affine_costI [of "of_int (max (ut_output t - ut_image_output t) 0)" 0])
      (auto simp: output_cost_def Let_def max_def)
  show "affine_cost (image_output_cost p t)"
  proof (cases "mp_image_output p = 0 \<and> \<not> mp_image_output_explicit p")
    case True
    then show ?thesis
      using assms(2)
      by (intro affine_costI [of "of_int (ut_image_output t)" 0]) (auto simp: image_output_cost_def wf_tokens_def)
  next
    case False
    then show ?thesis
      using assms
      by (intro affine_costI [of 0 "of_int (ut_image_output t) * mp_image_output p"])
        (auto simp: image_output_cost_def wf_tokens_def wf_card_def)
  qed
  let ?im = "if 0 < mp_image_read p then min (ut_image_read t) (ut_read t) else 0"
  show "affine_cost (read_cost p t)"
    using assms
    by (intro affine_costI [of "of_int (ut_read t - ?im)" "of_int ?im * mp_image_read p"])
      (auto simp: read_cost_def Let_def wf_tokens_def wf_card_def min_def max_def)
  assume k: "0 \<le> k"
  show "affine_cost (\<lambda>x. cache_write_cost p t x k)"
  proof (cases "mp_breakdown p \<and> (0 < mp_write_5m p \<or> 0 < mp_write_1h p)")
    case True
    then have "(\<lambda>x. cache_write_cost p t x k) = (\<lambda>x. cache_write_cost p t 0 k)" by (auto simp: cache_write_cost_def)
    then show ?thesis using cache_write_cost_nonneg [OF assms, of 0 k] k affine_cost_const by simp
  next
    case False
    then show ?thesis
      using k assms(2)
      by (intro affine_costI [of "of_int (ut_write t) * k" 0]) (auto simp: cache_write_cost_def wf_tokens_def)
  qed
qed

section \<open>Cheaper unit prices, cheaper charge\<close>

definition tier_le :: "unit_prices \<Rightarrow> unit_prices \<Rightarrow> bool" where
  "tier_le u v =
     (up_tier u \<le> up_tier v \<and> up_input u * up_tier u \<le> up_input v * up_tier v \<and>
      up_output u * up_tier u \<le> up_output v * up_tier v \<and> up_read u * up_tier u \<le> up_read v * up_tier v \<and>
      up_write u * up_tier u \<le> up_write v * up_tier v)"

lemma scaled_le: "0 < (k::rat) \<Longrightarrow> x * a \<le> y * b \<Longrightarrow> x * k * a \<le> y * k * b"
  using mult_right_mono [of "x * a" "y * b" k] by (simp add: ac_simps)

lemma tier_le_long: "tier_le u v \<Longrightarrow> tier_le (long_prices p u) (long_prices p v)"
  by (simp add: tier_le_def long_prices_def scaled_le)

lemma breakdown_mono:
  assumes "wf_card p" "wf_tokens t" "tier_le (tier_prices a p) (tier_prices b p)"
  shows "co_total (breakdown_at long p t rate a) \<le> co_total (breakdown_at long p t rate b)"
proof -
  define u where "u = (if long then long_prices p (tier_prices a p) else tier_prices a p)"
  define v where "v = (if long then long_prices p (tier_prices b p) else tier_prices b p)"
  define k where "k = (if long then long_or_one (mp_long_input p) else 1)"
  have uv: "tier_le u v" using assms(3) tier_le_long by (simp add: u_def v_def)
  have "0 \<le> k" by (simp add: k_def)
  note parts = affine_parts [OF assms(1,2)] affine_parts(6) [OF assms(1,2) this]
  note le = uv [unfolded tier_le_def]
  have "fst (input_costs p t (up_input u)) * up_tier u + snd (input_costs p t (up_input u)) * up_tier u +
          output_cost t (up_output u) * up_tier u + image_output_cost p t (up_output u) * up_tier u +
          cache_write_cost p t (up_write u) k * up_tier u + read_cost p t (up_read u) * up_tier u
        \<le> fst (input_costs p t (up_input v)) * up_tier v + snd (input_costs p t (up_input v)) * up_tier v +
          output_cost t (up_output v) * up_tier v + image_output_cost p t (up_output v) * up_tier v +
          cache_write_cost p t (up_write v) k * up_tier v + read_cost p t (up_read v) * up_tier v"
    using le
    by (intro add_mono affine_cost_le [OF parts(1)] affine_cost_le [OF parts(2)] affine_cost_le [OF parts(3)]
        affine_cost_le [OF parts(4)] affine_cost_le [OF parts(5)] affine_cost_le [OF parts(7)]) simp_all
  then show ?thesis by (simp add: breakdown_at_def Let_def u_def [symmetric] v_def [symmetric] k_def [symmetric])
qed

lemma compute_mono:
  assumes "wf_card p" "wf_tokens t" "tier_le (tier_prices a p) (tier_prices b p)"
  shows "co_actual (compute_token_breakdown p t rate a long) \<le> co_actual (compute_token_breakdown p t rate b long)"
proof -
  have actual: "co_actual (breakdown_at l p t rate x) = co_total (breakdown_at l p t rate x) * max rate 0" for l x
    using breakdown_sound(1) [OF assms(1,2), of rate l x] by (simp add: sound_cost_def)
  show ?thesis
    using breakdown_mono [OF assms]
    by (simp add: compute_token_breakdown_def Let_def actual mult_right_mono)
qed

section \<open>Normalised tiers\<close>

text \<open>Trimming and lowering a tier twice is doing it once: the white space sequences hold no letters.\<close>

lemma strip_any_None: "strip_any ps s = None \<longleftrightarrow> (\<forall>p \<in> set ps. p = [] \<or> \<not> has_prefix s p)"
  by (induction ps) auto

lemma trim_with_fixed: "strip_any ps s = None \<Longrightarrow> trim_with ps s = s"
  by (subst trim_with.simps) simp

lemma strip_trim_with: "strip_any ps (trim_with ps s) = None"
proof (induction ps s rule: trim_with.induct)
  case (1 ps s)
  then show ?case
    by (cases "strip_any ps s") (subst trim_with.simps, simp)+
qed

lemma trim_with_suffix: "\<exists>a. s = a @ trim_with ps s"
proof (induction ps s rule: trim_with.induct)
  case (1 ps s)
  have drop: "strip_any ps s = Some r \<Longrightarrow> \<exists>a. s = a @ r" for r
    by (induction ps) (auto split: if_splits intro: append_take_drop_id [symmetric])
  show ?case
  proof (cases "strip_any ps s")
    case None
    then show ?thesis by (simp add: trim_with_fixed)
  next
    case (Some r)
    then obtain a b where "s = a @ r" "r = b @ trim_with ps r" using drop 1 by blast
    moreover have "trim_with ps s = trim_with ps r" using Some by (subst trim_with.simps) simp
    ultimately show ?thesis by (metis append.assoc)
  qed
qed

lemma has_prefix_of_prefix: "has_prefix a p \<Longrightarrow> has_prefix (a @ b) p"
  by (auto simp: has_prefix_append)

lemma trim_space_no_ends:
  "strip_any space_seqs (trim_space s) = None" "strip_any (map rev space_seqs) (rev (trim_space s)) = None"
proof -
  let ?l = "trim_with space_seqs s"
  obtain a where "rev ?l = a @ trim_with (map rev space_seqs) (rev ?l)" using trim_with_suffix by blast
  then have l: "?l = trim_space s @ rev a" by (metis rev_append rev_rev_ident trim_space_def)
  have "strip_any space_seqs ?l = None" by (rule strip_trim_with)
  then show "strip_any space_seqs (trim_space s) = None"
    using has_prefix_of_prefix [of "trim_space s" _ "rev a"] by (auto simp: strip_any_None l)
  show "strip_any (map rev space_seqs) (rev (trim_space s)) = None"
    by (simp add: trim_space_def strip_trim_with)
qed

definition no_letter :: "char \<Rightarrow> bool" where
  "no_letter c = (to_lower_char c = c \<and> \<not> (97 \<le> (of_char c :: nat) \<and> (of_char c :: nat) \<le> 122))"

lemma space_no_letters: "list_all (list_all no_letter) space_seqs" "list_all (list_all no_letter) (map rev space_seqs)"
  by code_simp+

lemma lower_no_letter: "no_letter d \<Longrightarrow> to_lower_char c = d \<longleftrightarrow> c = d"
proof (cases "65 \<le> (of_char c :: nat) \<and> (of_char c :: nat) \<le> 90")
  case True
  then have "(of_char (to_lower_char c) :: nat) = of_char c + 32" by (simp add: to_lower_char_def)
  moreover assume "no_letter d"
  ultimately show ?thesis using True by (auto simp: no_letter_def)
next
  case False
  then have "to_lower_char c = c" by (auto simp: to_lower_char_def)
  then show ?thesis by simp
qed

lemma has_prefix_lower: "list_all no_letter p \<Longrightarrow> has_prefix (to_lower s) p = has_prefix s p"
  by (induction s p rule: has_prefix.induct) (simp_all add: to_lower_def lower_no_letter)

lemma strip_lower: "list_all (list_all no_letter) ps \<Longrightarrow> strip_any ps s = None \<Longrightarrow> strip_any ps (to_lower s) = None"
  by (auto simp: strip_any_None has_prefix_lower list_all_iff)

lemma rev_to_lower: "rev (to_lower s) = to_lower (rev s)"
  by (simp add: to_lower_def rev_map)

lemma normalize_billing_tier_idem [simp]: "normalize_billing_tier (normalize_billing_tier t) = normalize_billing_tier t"
proof -
  let ?n = "to_lower (trim_space t)"
  have "trim_with space_seqs ?n = ?n"
    by (rule trim_with_fixed, rule strip_lower [OF space_no_letters(1) trim_space_no_ends(1)])
  moreover have "trim_with (map rev space_seqs) (rev ?n) = rev ?n"
    unfolding rev_to_lower
    by (rule trim_with_fixed, rule strip_lower [OF space_no_letters(2) trim_space_no_ends(2)])
  ultimately have "trim_space ?n = ?n" by (simp add: trim_space_def)
  then show ?thesis by (simp add: normalize_billing_tier_def)
qed

lemma tier_prices_normalized [simp]: "tier_prices (normalize_billing_tier t) p = tier_prices t p"
  by (simp only: tier_prices_def use_priority_pricing_def configured_tier_multiplier_def tier_multiplier_def
      normalize_billing_tier_idem)

lemma service_tier_rank_normalized [simp]: "service_tier_rank (normalize_billing_tier t) = service_tier_rank t"
  by (simp add: service_tier_rank_def)

section \<open>The billed tier\<close>

definition ordered_tiers :: "model_pricing \<Rightarrow> bool" where
  "ordered_tiers p =
     (tier_le (tier_prices ''flex'' p) (tier_prices [] p) \<and> tier_le (tier_prices [] p) (tier_prices ''priority'' p) \<and>
      tier_le (tier_prices ''priority'' p) (tier_prices ''ultrafast'' p))"

lemma normalize_literals [simp]:
  "normalize_billing_tier ''flex'' = ''flex''" "normalize_billing_tier [] = []"
  "normalize_billing_tier ''priority'' = ''priority''" "normalize_billing_tier ''fast'' = ''fast''"
  "normalize_billing_tier ''ultrafast'' = ''ultrafast''"
  by code_simp+

definition tier_class :: "int \<Rightarrow> string" where
  "tier_class r = (if r = 0 then ''flex'' else if r = 2 then ''priority'' else if r = 3 then ''ultrafast'' else [])"

lemma tier_prices_class: "tier_prices t p = tier_prices (tier_class (fst (service_tier_rank t))) p"
proof -
  let ?n = "normalize_billing_tier t"
  have self: "tier_prices t p = tier_prices ?n p" by simp
  consider "?n = ''flex''" | "?n = ''priority''" | "?n = ''fast''" | "?n = ''ultrafast''"
    | "?n \<notin> {''flex'', ''priority'', ''fast'', ''ultrafast''}" by blast
  then show ?thesis
  proof cases
    case 3
    have "tier_prices ''fast'' p = tier_prices ''priority'' p"
      by (simp add: tier_prices_def use_priority_pricing_def configured_tier_multiplier_def tier_multiplier_def Let_def)
    with 3 show ?thesis unfolding self by (simp add: service_tier_rank_def tier_class_def)
  next
    case 5
    then have "tier_prices ?n p = tier_prices [] p"
      by (simp add: tier_prices_def use_priority_pricing_def configured_tier_multiplier_def tier_multiplier_def Let_def)
    with 5 show ?thesis unfolding self by (simp add: service_tier_rank_def tier_class_def Let_def)
  qed (unfold self, simp_all add: service_tier_rank_def tier_class_def)
qed

lemma service_tier_rank_range: "fst (service_tier_rank t) \<in> {0, 1, 2, 3}"
  by (simp add: service_tier_rank_def Let_def)

lemma tier_le_refl: "tier_le u u"
  by (simp add: tier_le_def)

lemma tier_le_trans [trans]: "tier_le u v \<Longrightarrow> tier_le v w \<Longrightarrow> tier_le u w"
  by (auto simp: tier_le_def)

lemma ordered_tiers_rank:
  assumes "ordered_tiers p" "fst (service_tier_rank a) \<le> fst (service_tier_rank b)"
  shows "tier_le (tier_prices a p) (tier_prices b p)"
proof -
  have "tier_le (tier_prices (tier_class m) p) (tier_prices (tier_class n) p)"
    if "m \<le> n" "m \<in> {0, 1, 2, 3}" "n \<in> {0, 1, 2, 3}" for m n
    using that assms(1) by (auto simp: ordered_tiers_def tier_class_def intro: tier_le_refl tier_le_trans)
  then show ?thesis
    using assms(2) service_tier_rank_range by (simp add: tier_prices_class [of a] tier_prices_class [of b])
qed

lemma billed_tier_le:
  "ordered_tiers p \<Longrightarrow> tier_le (tier_prices (st_billing (resolve_billing_tier req obs)) p) (tier_prices req p)"
  by (auto simp: resolve_billing_tier_def Let_def tier_le_refl intro!: ordered_tiers_rank)

text \<open>C21: Settling the billed tier between the tier the client asked for and the tier the upstream declares
never raises the bill, on a card whose tiers are ordered (flex, standard, priority, ultrafast): whatever
the upstream answers, and whatever the tokens, the rate and the long-context pricing are.\<close>

theorem tier_settlement_never_dearer:
  assumes "wf_card p" and "ordered_tiers p" and "wf_tokens t"
  shows "co_actual (compute_token_breakdown p t rate (st_billing (resolve_billing_tier requested observed)) long)
           \<le> co_actual (compute_token_breakdown p t rate requested long)"
  by (rule compute_mono [OF assms(1,3) billed_tier_le [OF assms(2)]])

definition sample_card :: model_pricing where
  "sample_card = with_priority_multiplier (no_pricing\<lparr>mp_input := em 5 6, mp_output := em 30 6, mp_read := em 0.5 6\<rparr>) 2"

theorem tier_settlement_never_dearer_witness:
  "co_actual (compute_token_breakdown sample_card (no_tokens\<lparr>ut_input := 100\<rparr>) 1
       (st_billing (resolve_billing_tier '' Priority'' ''default'')) True)
     \<le> co_actual (compute_token_breakdown sample_card (no_tokens\<lparr>ut_input := 100\<rparr>) 1 '' Priority'' True)"
proof (rule tier_settlement_never_dearer)
  show "wf_card sample_card" by code_simp
  show "ordered_tiers sample_card" by code_simp
  show "wf_tokens (no_tokens\<lparr>ut_input := 100\<rparr>)" by code_simp
qed


section \<open>Tiers that are not charged\<close>

text \<open>The gateway charges a request of a key without a group, sent without a reasoning effort, the same
amount whatever its service tier: a fast request is billed at the standard price.\<close>

theorem ungrouped_tier_not_charged:
  assumes "pk_group key = None" and "string_value (fr_effort r) = []"
  shows "gateway_token_cost env (r\<lparr>fr_tier := tier\<rparr>) key model rate at0 =
         gateway_token_cost env (r\<lparr>fr_tier := None\<rparr>) key model rate at0"
  using assms
  by (simp add: gateway_token_cost_def calculate_token_cost_for_request_def operator_priced_def)

definition sample_usage_env :: usage_env where
  "sample_usage_env =
     \<lparr>ue_prices = sample_env, ue_resolver = True, ue_identified = (\<lambda>m. None), ue_storage = (\<lambda>m. 0), ue_default_rate = 1,
      ue_user_rate = (\<lambda>u g x. x), ue_minute = (\<lambda>t. 0)\<rparr>"

definition sample_result :: "string option \<Rightarrow> string option \<Rightarrow> forward_result" where
  "sample_result tier effort =
     \<lparr>fr_model = ''gpt-5.4'', fr_upstream = ''gpt-5.4'', fr_input = 1000000, fr_output = 0, fr_write = 0, fr_read = 0,
      fr_write_5m = 0, fr_write_1h = 0, fr_image_output = 0, fr_tier = tier, fr_effort = effort, fr_images = 0,
      fr_image_size = [], fr_image_input_size = [], fr_image_output_size = [], fr_image_output_sizes = [],
      fr_image_source = [], fr_image_breakdown = [], fr_audio = None, fr_searches = 0, fr_storage_hours = 0,
      fr_response_tier = [], fr_response_model = [], fr_response_conflict = False\<rparr>"

text \<open>At the same prices the same fast request costs twice as much once it names an effort.\<close>

lemma effort_makes_tier_count:
  "co_actual (gateway_token_cost sample_usage_env (sample_result (Some ''priority'') None) \<lparr>pk_gid = None, pk_group = None\<rparr>
     ''gpt-5.4'' 1 5) = 2.5"
  "co_actual (gateway_token_cost sample_usage_env (sample_result (Some ''priority'') (Some ''low'')) \<lparr>pk_gid = None, pk_group = None\<rparr>
     ''gpt-5.4'' 1 5) = 5"
  by code_simp+

theorem ungrouped_tier_not_charged_witness:
  "gateway_token_cost sample_usage_env ((sample_result None None)\<lparr>fr_tier := Some ''priority''\<rparr>) \<lparr>pk_gid = None, pk_group = None\<rparr>
     ''gpt-5.4'' 1 5 =
   gateway_token_cost sample_usage_env ((sample_result None None)\<lparr>fr_tier := None\<rparr>) \<lparr>pk_gid = None, pk_group = None\<rparr>
     ''gpt-5.4'' 1 5"
  by (rule ungrouped_tier_not_charged) (simp_all add: sample_result_def string_value_def)

text \<open>On a card that splits cache writes by lifetime, a priority request writes at the standard price; the
priority price of the card is not read.\<close>

lemma priority_writes_at_standard_price:
  assumes "use_priority_pricing tier p" and "mp_breakdown p" and "0 < mp_write_5m p \<or> 0 < mp_write_1h p"
  shows "co_write (breakdown_at long p t rate tier) = co_write (breakdown_at long p t rate [])"
proof -
  have "\<not> use_priority_pricing [] q" "configured_tier_multiplier [] q = 1" for q
    by (simp_all add: use_priority_pricing_def configured_tier_multiplier_def tier_multiplier_def)
  then show ?thesis
    using assms by (simp add: breakdown_at_def tier_prices_def long_prices_def cache_write_cost_def Let_def split: prod.split)
qed

section \<open>Explicitly free tiers\<close>

text \<open>A row that prices its request tier at zero on purpose, while its default price is positive, does not
make that tier free: the charge falls through to the default price.\<close>

theorem zero_tier_price_not_free:
  assumes "rp_tiers r = [tier]" and "pi_label tier = ci_size i" and "pi_per_request tier = Some 0"
    and "0 < rp_default r" and "0 < ci_rate i"
  shows "0 < co_actual (calculate_per_request_cost r i)"
proof -
  have "request_tier_price (rp_tiers r) (ci_size i) = 0" using assms(1-3) by simp
  moreover have "request_tier_price_by_context r n = 0" for n
    using assms(1,3) by (simp add: request_tier_price_by_context_def)
  ultimately show ?thesis using assms(4,5) by (simp add: calculate_per_request_cost_def Let_def)
qed

definition free_tier :: pricing_interval where
  "free_tier =
     \<lparr>pi_min = 0, pi_max = None, pi_label = ''1K'', pi_input = None, pi_output = None, pi_write = None,
      pi_write_1h = None, pi_read = None, pi_input_mult = None, pi_output_mult = None, pi_write_mult = None,
      pi_read_mult = None, pi_per_request = Some 0\<rparr>"

theorem zero_tier_price_not_free_witness:
  "0 < co_actual (calculate_per_request_cost
         ((resolved_empty ''image'' ''channel'')\<lparr>rp_default := 0.05, rp_tiers := [free_tier]\<rparr>)
         (sample_input\<lparr>ci_size := ''1K''\<rparr>))"
  by (rule zero_tier_price_not_free [where tier = free_tier]) (simp_all add: free_tier_def sample_input_def)

end
