(* ===== verification/Cost_Recording.thy ===== *)
theory Cost_Recording
  imports Cost_Tiers Billing_Ledger
begin

text \<open>
  What recording a request does with its charge: billing by the model the upstream reports is never
  dearer, never free and never leaves the operator's prices; a quote is what recording charges; and the
  usage command built from a charge, applied by the ledger under retries and lost acknowledgements, takes
  exactly that charge from the user, once.
\<close>

section \<open>The gateway's token charge\<close>

definition wf_usage :: "usage_env \<Rightarrow> price_key \<Rightarrow> forward_result \<Rightarrow> bool" where
  "wf_usage env key r =
     (wf_env (ue_prices env) \<and> pred_option wf_group (pk_group key) \<and> 0 \<le> fr_input r \<and> 0 \<le> fr_output r \<and> 0 \<le> fr_write r \<and>
      0 \<le> fr_read r \<and> 0 \<le> fr_write_5m r \<and> 0 \<le> fr_write_1h r \<and> 0 \<le> fr_image_output r)"

lemma no_cost_sound [simp]: "sound_cost rate no_cost"
  by (simp add: sound_cost_def cost_parts_def no_cost_def)

lemma gateway_token_sound:
  assumes "wf_usage env key r"
  shows "sound_cost rate (gateway_token_cost env r key model rate at0)"
proof -
  let ?env = "ue_prices env"
  let ?t = "no_tokens\<lparr>ut_input := fr_input r, ut_output := fr_output r, ut_write := fr_write r, ut_read := fr_read r,
    ut_write_5m := fr_write_5m r, ut_write_1h := fr_write_1h r, ut_image_output := fr_image_output r\<rparr>"
  have env: "wf_env ?env" and g: "pred_option wf_group (pk_group key)" and t: "wf_tokens ?t"
    using assms by (simp_all add: wf_usage_def wf_tokens_def no_tokens_def)
  define q where "q = \<lparr>tr_model = model, tr_group = pk_group key, tr_tokens = ?t, tr_rate = rate, tr_at = at0,
    tr_tier = string_value (fr_tier r), tr_effort = string_value (fr_effort r), tr_resolver = ue_resolver env,
    tr_resolved = (case pk_group key of None \<Rightarrow> None
      | Some g \<Rightarrow> if ue_resolver env then Some (resolve ?env (Some (pg_id g)) (Some g) model) else None)\<rparr>"
  have resolved: "pred_option wf_resolved (tr_resolved q)"
    using wf_resolve [OF env] g by (cases "pk_group key") (auto simp: q_def)
  have unified: "sound_cost rate c" if "calculate_cost_unified ?env (token_cost_input q) = Inr c" for c
    using unified_cost_sound [OF env _ _ _ that] g t resolved by (simp add: token_cost_input_def q_def)
  have plain: "sound_cost rate c" if "calculate_cost ?env (tr_model q) (tr_tokens q) (tr_rate q) = Inr c" for c
  proof -
    have tq: "tr_tokens q = ?t" "tr_rate q = rate" by (simp_all add: q_def)
    note run = that [unfolded calculate_cost_def calculate_cost_with_policy_def get_model_pricing_with_channel_def tq]
    obtain p where p: "get_model_pricing (pe_catalog ?env) (pe_now ?env) (tr_model q) = Inr p"
      using run by (cases "get_model_pricing (pe_catalog ?env) (pe_now ?env) (tr_model q)") simp_all
    with run have c: "c = compute_token_breakdown p ?t rate [] True" by simp
    have "wf_card p" using get_model_pricing_wf p env by (auto simp: wf_env_def get_model_pricing_def)
    then show ?thesis using compute_sound(1) t c by blast
  qed
  have "gateway_token_cost env r key model rate at0 =
      (case calculate_token_cost_for_request ?env q of Inl e \<Rightarrow> no_cost | Inr c \<Rightarrow> c)"
    by (simp add: gateway_token_cost_def q_def Let_def)
  then show ?thesis
    using unified plain by (auto simp: calculate_token_cost_for_request_def split: sum.split)
qed

section \<open>Billing by the reported model\<close>

lemma response_cost_cases:
  "response_model_cost env r key cf model rate irate at0 cost = cost \<or>
   \<not> media_billed r \<and>
   (let response = trim_space (fr_response_model r);
        c = calculate_record_usage_cost env r key response rate irate at0
    in response_model_cost env r key cf model rate irate at0 cost = c \<and>
       co_total c \<le> co_total cost + response_cost_epsilon \<and> (0 < co_total cost \<longrightarrow> 0 < co_total c) \<and>
       (resolve_channel_pricing env model key \<noteq> None \<longrightarrow> resolve_channel_pricing env response key \<noteq> None))"
  by (auto simp: response_model_cost_def response_model_declaration_def response_model_adoptable_def
      identified_response_pricing_def Let_def split: prod.split if_splits)

text \<open>C12: Billing by the model the upstream reports never makes a request dearer than the tolerance of
1e-12 dollars (times the rate), never makes a charged request free, and never moves a request priced by the
operator to the public price list, whatever model name the upstream invents.\<close>

theorem response_model_billing_safe:
  assumes "wf_usage env key r"
    and "cost = calculate_record_usage_cost env r key model rate irate t"
    and "cost' = response_model_cost env r key cf model rate irate t cost"
  shows "co_total cost' \<le> co_total cost + response_cost_epsilon \<and>
         (0 < co_total cost \<longrightarrow> 0 < co_total cost') \<and>
         (cost' = cost \<or>
          co_actual cost' \<le> co_actual cost + response_cost_epsilon * max rate 0 \<and>
          (resolve_channel_pricing env model key \<noteq> None \<longrightarrow>
             resolve_channel_pricing env (trim_space (fr_response_model r)) key \<noteq> None))"
proof (cases "cost' = cost")
  case True
  then show ?thesis by (simp add: response_cost_epsilon_def em_def)
next
  case False
  let ?response = "trim_space (fr_response_model r)"
  have c: "\<not> media_billed r" "cost' = calculate_record_usage_cost env r key ?response rate irate t"
    "co_total cost' \<le> co_total cost + response_cost_epsilon" "0 < co_total cost \<longrightarrow> 0 < co_total cost'"
    "resolve_channel_pricing env model key \<noteq> None \<longrightarrow> resolve_channel_pricing env ?response key \<noteq> None"
    using response_cost_cases [of env r key cf model rate irate t cost] False assms(3) by (simp_all add: Let_def)
  have plain: "calculate_record_usage_cost env r key m rate irate t = gateway_token_cost env r key m rate t" for m
    using c(1)
    by (cases "fr_audio r") (simp_all add: media_billed_def calculate_record_usage_cost_def storage_only_def
        cache_storage_cost_def calculate_search_cost_def Let_def)
  have "co_actual (gateway_token_cost env r key m rate t) = co_total (gateway_token_cost env r key m rate t) * max rate 0" for m
    using gateway_token_sound [OF assms(1)] by (simp add: sound_cost_def)
  then have actual: "co_actual cost = co_total cost * max rate 0" "co_actual cost' = co_total cost' * max rate 0"
    using plain assms(2) c(2) by metis+
  have "co_total cost' * max rate 0 \<le> (co_total cost + response_cost_epsilon) * max rate 0"
    using c(3) by (intro mult_right_mono) simp_all
  then have "co_actual cost' \<le> co_actual cost + response_cost_epsilon * max rate 0"
    unfolding actual by (simp only: distrib_right)
  with c(3-5) show ?thesis by blast
qed

section \<open>Quotes\<close>

text \<open>The amount quoted for a result is the amount recording charges for it, for a text result whose tier
the upstream does not declare, on an account that rewrites neither cache writes nor input, in a channel that
does not bill by the reported model.\<close>

lemma quote_is_recorded:
  assumes "fr_images r \<le> 0" and "normalize_billing_tier (fr_response_tier r) = []" and "cf_source cf \<noteq> ''response_model''"
  shows "co_actual (snd (record_usage_cost env r key user cf False None at0)) = quote_usage_cost env r key user cf at0"
proof -
  have "snd (apply_forward_tier (apply_forward_image r)) = r"
    using assms(1,2) by (simp add: apply_forward_image_def apply_forward_tier_def resolve_billing_tier_def Let_def)
  then show ?thesis
    using assms(3)
    by (simp add: record_usage_cost_def quote_usage_cost_def response_model_cost_def response_model_declaration_def Let_def
        split: prod.split)
qed

section \<open>A recorded request is paid once\<close>

definition balance_charge :: "post_billing \<Rightarrow> rat" where
  "balance_charge p =
     (if pb_is_subscription p \<and> pb_subscription p \<noteq> None \<and> 0 < co_total (pb_cost p) then 0
      else quantize_usage_billing_amount (max (co_actual (pb_cost p)) 0))"

lemma quantize_zero: "quantize_usage_billing_amount 0 = 0"
  by (simp add: quantize_usage_billing_amount_def)

lemma charge_command_keeps:
  "uc_user (charge_command p c) = uc_user c" "uc_rental (charge_command p c) = uc_rental c"
  "uc_key (charge_command p c) = uc_key c" "uc_request_id (charge_command p c) = uc_request_id c"
  "uc_account (charge_command p c) = uc_account c"
  by (simp_all add: charge_command_def Let_def)

lemma charge_command_balance:
  assumes "uc_balance_cost c = 0"
  shows "quantize_usage_billing_amount (uc_balance_cost (charge_command p c)) = balance_charge p"
  using assms by (auto simp: charge_command_def balance_charge_def Let_def quantize_zero max_def simp del: quantize_scale8)

lemma charge_command_unsubscribed:
  "\<not> pb_is_subscription p \<Longrightarrow> uc_subscription_cost (charge_command p c) = uc_subscription_cost c"
  by (simp add: charge_command_def Let_def)

lemma header_fields:
  "uc_user (command_header rid ul p) = pb_user p" "uc_rental (command_header rid ul p) = pb_rental p"
  "uc_key (command_header rid ul p) = pb_key p" "uc_request_id (command_header rid ul p) = rid"
  "uc_account (command_header rid ul p) = pb_account p" "uc_balance_cost (command_header rid ul p) = 0"
  "uc_subscription_cost (command_header rid ul p) = 0"
  by (simp_all add: command_header_def no_command_def Let_def split: option.split)

lemma normalize_keeps:
  "uc_user (normalize_usage sha c) = uc_user c" "uc_rental (normalize_usage sha c) = uc_rental c"
  "uc_key (normalize_usage sha c) = uc_key c" "uc_request_id (normalize_usage sha c) = trim_space (uc_request_id c)"
  "uc_account (normalize_usage sha c) = uc_account c"
  "uc_balance_cost (normalize_usage sha c) = quantize_usage_billing_amount (uc_balance_cost c)"
  "uc_subscription_cost (normalize_usage sha c) = quantize_usage_billing_amount (uc_subscription_cost c)"
  by (simp_all add: normalize_usage_def quantize_monetary_fields_def Let_def)

lemma build_command_fields:
  assumes "\<not> pb_simple_mode p"
  shows "uc_user (build_usage_billing_command sha rid ul p) = pb_user p"
    "uc_rental (build_usage_billing_command sha rid ul p) = pb_rental p"
    "uc_key (build_usage_billing_command sha rid ul p) = pb_key p"
    "uc_account (build_usage_billing_command sha rid ul p) = pb_account p"
    "uc_request_id (build_usage_billing_command sha rid ul p) = trim_space rid"
    "uc_balance_cost (build_usage_billing_command sha rid ul p) = balance_charge p"
    "\<not> pb_is_subscription p \<Longrightarrow> uc_subscription_cost (build_usage_billing_command sha rid ul p) = 0"
  using assms
  by (simp_all add: build_usage_billing_command_def Let_def normalize_keeps charge_command_keeps header_fields
      charge_command_balance charge_command_unsubscribed quantize_zero)

lemma balance_succeeds:
  assumes "live_user db (uc_user c) \<noteq> None"
  shows "\<exists>r' d. effect_balance c r db = Inr (r', d) \<and> bd_accounts d = bd_accounts db"
  using assms by (auto simp: effect_balance_def and_then_def deduct_usage_billing_balance_def put_user_def Let_def)

lemma quota_succeeds: "\<exists>r' d. effect_key_quota c r db = Inr (r', d) \<and> bd_accounts d = bd_accounts db"
  by (cases "live_key db (uc_key c)") (simp_all add: effect_key_quota_def and_then_def skip_missing_key_def
      increment_usage_billing_api_key_quota_def put_key_def Let_def)

lemma rate_limit_succeeds: "\<exists>r' d. effect_rate_limit z c r db = Inr (r', d) \<and> bd_accounts d = bd_accounts db"
  by (cases "live_key db (uc_key c)") (simp_all add: effect_rate_limit_def and_then_def skip_missing_key_def
      increment_usage_billing_api_key_rate_limit_def put_key_def Let_def)

definition live_account :: "billing_db \<Rightarrow> int \<Rightarrow> bool" where
  "live_account db a = (case bd_accounts db a of None \<Rightarrow> False | Some x \<Rightarrow> \<not> ba_deleted x)"

lemma account_succeeds: "live_account db (uc_account c) \<Longrightarrow> \<exists>r' d. effect_account z c r db = Inr (r', d)"
  by (auto simp: live_account_def effect_account_def and_then_def increment_usage_billing_account_quota_def Let_def
      split: option.splits)

lemma charge_request_succeeds:
  assumes "live_user db (uc_user c) \<noteq> None" "live_account db (uc_account c)" "uc_rental c = None" "uc_subscription_cost c = 0"
  shows "\<exists>r d. charge_request z c db = Inr (r, d)"
proof -
  let ?r0 = "no_apply_result\<lparr>ar_applied := True\<rparr>"
  have e1: "effect_subscription c ?r0 db = Inr (?r0, db)" using assms(4) by (simp add: effect_subscription_def split: option.split)
  obtain r2 d2 where e2: "effect_balance c ?r0 db = Inr (r2, d2)" "bd_accounts d2 = bd_accounts db"
    using balance_succeeds [OF assms(1)] by blast
  obtain r3 d3 where e3: "effect_key_quota c r2 d2 = Inr (r3, d3)" "bd_accounts d3 = bd_accounts d2"
    using quota_succeeds by blast
  obtain r4 d4 where e4: "effect_rate_limit z c r3 d3 = Inr (r4, d4)" "bd_accounts d4 = bd_accounts d3"
    using rate_limit_succeeds by blast
  have "live_account d4 (uc_account c)" using assms(2) e2 e3 e4 by (simp add: live_account_def)
  then obtain r5 d5 where e5: "effect_account z c r4 d4 = Inr (r5, d5)" using account_succeeds by blast
  show ?thesis
    using assms(3) e1 e2 e3 e4 e5
    by (simp add: charge_request_def prepare_rental_settlement_def and_then_def apply_usage_billing_effects_def
        apply_rental_settlement_def)
qed

lemma fresh_charge_applied:
  fixes c sha defines "n \<equiv> normalize_usage sha c"
  assumes "live_user db (uc_user n) \<noteq> None" "live_account db (uc_account n)" "uc_rental n = None" "uc_subscription_cost n = 0"
    and fresh: "\<not> claimed db (uc_request_id n, uc_key n)" "uc_request_id n \<noteq> []"
  shows "fst (run_op sha z (Charge (Some c)) db) = Some (Charged n)"
proof -
  let ?d = "db\<lparr>bd_dedup := (bd_dedup db)((uc_request_id n, uc_key n) \<mapsto> (uc_fingerprint n, bd_now db))\<rparr>"
  have claim: "claim_usage_billing_request (uc_request_id n) (uc_key n) (uc_fingerprint n) db = Inr (True, ?d)"
    using fresh by (cases "bd_dedup db (uc_request_id n, uc_key n)")
      (auto simp: claim_usage_billing_request_def claimed_def batch_image_hold_claim_exists_def)
  have "live_user ?d (uc_user n) \<noteq> None" "live_account ?d (uc_account n)"
    using assms(2,3) by (simp_all add: live_user_def live_account_def)
  then obtain r d where r: "charge_request z n ?d = Inr (r, d)"
    using charge_request_succeeds assms(4,5) by blast
  moreover from r have "ar_applied r" by (rule charge_applied)
  ultimately show ?thesis
    using claim fresh(2)
    by (simp add: apply_usage_billing_def n_def [symmetric] transact_def claimed_transaction_def)
qed

lemma attempts_applied:
  assumes "run_ops sha z (map (\<lambda>f. (Charge (Some c), f)) fs) db = (acts, db')" "\<exists>f \<in> set fs. f \<noteq> Refused"
    and "live_user db (uc_user (normalize_usage sha c)) \<noteq> None" "live_account db (uc_account (normalize_usage sha c))"
    "uc_rental (normalize_usage sha c) = None" "uc_subscription_cost (normalize_usage sha c) = 0"
    "\<not> claimed db (uc_request_id (normalize_usage sha c), uc_key (normalize_usage sha c))"
    "uc_request_id (normalize_usage sha c) \<noteq> []"
  shows "acts \<noteq> []"
  using assms(1,2)
proof (induction fs)
  case (Cons f fs)
  show ?case
  proof (cases "f = Refused")
    case True
    with Cons show ?thesis by simp
  next
    case False
    with Cons.prems(1) fresh_charge_applied [OF assms(3-8), of z] show ?thesis
      by (auto simp: Let_def split: prod.splits simp del: run_op.simps)
  qed
qed simp

lemma attempts_same:
  "run_ops sha z (map (\<lambda>f. (Charge (Some c), f)) fs) db = (acts, db') \<Longrightarrow> set acts \<subseteq> {Charged (normalize_usage sha c)}"
proof (induction fs arbitrary: db acts)
  case (Cons f fs)
  show ?case
  proof (cases "f = Refused")
    case True
    with Cons show ?thesis by simp
  next
    case False
    obtain x d as where x: "run_op sha z (Charge (Some c)) db = (x, d)"
      and r: "run_ops sha z (map (\<lambda>f. (Charge (Some c), f)) fs) d = (as, db')" "acts = (case x of None \<Rightarrow> [] | Some a \<Rightarrow> [a]) @ as"
      using Cons.prems False by (auto simp: Let_def simp del: run_op.simps split: prod.splits)
    have "x = None \<or> x = Some (Charged (normalize_usage sha c))"
    proof (cases x)
      case (Some a)
      from x [unfolded this] show ?thesis by (rule run_op_applied) (simp_all add: Some)
    qed simp
    with Cons.IH [OF r(1)] r(2) show ?thesis by auto
  qed
qed simp

lemma balance_charge_nonneg: "0 \<le> balance_charge p"
  by (simp add: balance_charge_def quantize_usage_billing_amount_def dec_round_nonneg del: quantize_scale8)

lemma balance_charge_scale8 [simp]: "scale8 (balance_charge p)"
  using scale8_quantized [of 0] by (simp add: balance_charge_def quantize_zero del: quantize_scale8)

lemma one_charge:
  assumes "distinct (map f acts)" "set acts \<subseteq> {a}" "acts \<noteq> []"
  shows "acts = [a]"
  using assms by (cases acts rule: remdups_adj.cases) auto

lemma recorded_once:
  assumes run: "run_ops sha z (map (\<lambda>f. (Charge (Some (build_usage_billing_command sha rid ul p)), f)) fs) db = (acts, db')"
    and db: "scaled db" "live_user db (pb_user p) \<noteq> None" "live_account db (pb_account p)" "\<not> claimed db (rid, pb_key p)"
    and rid: "trim_space rid = rid" "rid \<noteq> []"
    and p: "\<not> pb_simple_mode p" "\<not> pb_is_subscription p" "pb_rental p = None"
    and "\<exists>f \<in> set fs. f \<noteq> Refused"
  shows "length acts = 1 \<and> funds_of db' u = funds_of db u -
    (if u = pb_user p then quantize_usage_billing_amount (max (co_actual (pb_cost p)) 0) else 0)"
proof -
  let ?c = "build_usage_billing_command sha rid ul p"
  note fields = build_command_fields [OF p(1)] normalize_keeps
  have bal: "uc_balance_cost (normalize_usage sha ?c) = balance_charge p"
    by (simp add: fields balance_charge_def quantize_zero)
  have plain: "plain_run (map (\<lambda>f. (Charge (Some ?c), f)) fs)" by (simp add: plain_run_def own_id_def)
  note log = run_log [OF run db(1) plain]
  have nonempty: "acts \<noteq> []"
    using attempts_applied [OF run assms(11)] db p rid by (simp add: fields quantize_zero)
  have "distinct (map applied_key acts)" using log by simp
  from one_charge [OF this attempts_same [OF run] nonempty] have acts: "acts = [Charged (normalize_usage sha ?c)]" .
  have "rental_delta (normalize_usage sha ?c) = nothing" using p(3) by (simp add: rental_delta_def rental_of_def fields)
  then have "charge_delta (normalize_usage sha ?c) u = - (if u = pb_user p then balance_charge p else 0)"
    using balance_charge_nonneg [of p]
    by (simp add: charge_delta_def plus_fun_def nothing_def on_id_def if_positive_def bal fields)
  moreover have "balance_charge p = quantize_usage_billing_amount (max (co_actual (pb_cost p)) 0)"
    using p(2) by (simp add: balance_charge_def)
  ultimately show ?thesis using log [of u] acts by simp
qed

text \<open>C2: The quoted amount is paid exactly once. The usage command built from the charge of a request, sent to
the ledger any number of times with refused attempts and lost acknowledgements, of which one reaches the
database, is applied once; the user's money falls by the amount quoted for the result, rounded to eight
decimals, and nobody else's changes. The user and the account exist, the request identifier is new, and the
bill goes to the balance.\<close>

theorem quoted_amount_paid_once:
  assumes "run_ops sha z (map (\<lambda>f. (Charge (Some (build_usage_billing_command sha rid ul p)), f)) fs) db = (acts, db')"
    and "pb_cost p = snd (record_usage_cost env r key user cf False None at0)"
    and "fr_images r \<le> 0" "normalize_billing_tier (fr_response_tier r) = []" "cf_source cf \<noteq> ''response_model''"
    and "scaled db" "live_user db (pb_user p) \<noteq> None" "live_account db (pb_account p)" "\<not> claimed db (rid, pb_key p)"
    and "trim_space rid = rid" "rid \<noteq> []"
    and "\<not> pb_simple_mode p" "\<not> pb_is_subscription p" "pb_rental p = None"
    and "\<exists>f \<in> set fs. f \<noteq> Refused"
  shows "length acts = 1 \<and>
    (\<forall>u. funds_of db' u = funds_of db u -
      (if u = pb_user p then quantize_usage_billing_amount (max (quote_usage_cost env r key user cf at0) 0) else 0))"
  using recorded_once [OF assms(1,6-15)] quote_is_recorded [OF assms(3-5), of env key user at0] assms(2) by simp

section \<open>Examples\<close>

definition fresh_quota :: quota_extra where
  "fresh_quota =
     \<lparr>qe_used = None, qe_limit = None, qe_daily_used = None, qe_daily_limit = None, qe_daily_start = None,
      qe_daily_mode = None, qe_daily_reset_at = None, qe_daily_hour = None, qe_weekly_used = None, qe_weekly_limit = None,
      qe_weekly_start = None, qe_weekly_mode = None, qe_weekly_reset_at = None, qe_weekly_hour = None,
      qe_weekly_day = None, qe_timezone = None\<rparr>"

definition sample_db :: billing_db where
  "sample_db = demo_bill_db\<lparr>bd_accounts := [3 \<mapsto> \<lparr>ba_extra = fresh_quota, ba_deleted = False\<rparr>]\<rparr>"

definition sample_key :: price_key where
  "sample_key = \<lparr>pk_gid = None, pk_group = None\<rparr>"

definition sample_fields :: channel_fields where
  "sample_fields = \<lparr>cf_source = [], cf_mapped = [], cf_original = []\<rparr>"

definition sample_payment :: post_billing where
  "sample_payment =
     \<lparr>pb_cost = snd (record_usage_cost sample_usage_env (sample_result None None) sample_key (Some 1) sample_fields False None 5),
      pb_user = 1, pb_key = 7, pb_account = 3, pb_account_type = ''oauth'', pb_rental = None, pb_payload_hash = ''h'',
      pb_subscription = None, pb_is_subscription = False, pb_account_rate = 1, pb_key_service = True, pb_key_quota = 5,
      pb_key_rate_limits = False, pb_account_key_or_bedrock = False, pb_account_limited = False, pb_simple_mode = False\<rparr>"

theorem quoted_amount_paid_once_witness:
  "funds_of (snd (run_ops demo_sha demo_zones
     (map (\<lambda>f. (Charge (Some (build_usage_billing_command demo_sha ''r1'' None sample_payment)), f)) [Refused, AckLost, Fine])
     sample_db)) 1 = 7.5"
proof -
  obtain acts db' where run: "run_ops demo_sha demo_zones
     (map (\<lambda>f. (Charge (Some (build_usage_billing_command demo_sha ''r1'' None sample_payment)), f)) [Refused, AckLost, Fine])
     sample_db = (acts, db')" by fastforce
  have quote: "quote_usage_cost sample_usage_env (sample_result None None) sample_key (Some 1) sample_fields 5 = 2.5"
    by code_simp
  have none: "normalize_billing_tier [] = []" by code_simp
  have q: "quantize_usage_billing_amount (max 2.5 0) = 2.5" by code_simp
  have "pb_cost sample_payment =
      snd (record_usage_cost sample_usage_env (sample_result None None) sample_key (Some 1) sample_fields False None 5)"
    "fr_images (sample_result None None) \<le> 0" "normalize_billing_tier (fr_response_tier (sample_result None None)) = []"
    "cf_source sample_fields \<noteq> ''response_model''" "scaled sample_db" "live_user sample_db (pb_user sample_payment) \<noteq> None"
    "live_account sample_db (pb_account sample_payment)" "\<not> claimed sample_db (''r1'', pb_key sample_payment)"
    "trim_space ''r1'' = ''r1''" "''r1'' \<noteq> []" "\<not> pb_simple_mode sample_payment" "\<not> pb_is_subscription sample_payment"
    "pb_rental sample_payment = None" "\<exists>f \<in> set [Refused, AckLost, Fine]. f \<noteq> Refused"
    using demo_bill_fresh(2)
    by (simp_all add: sample_payment_def sample_result_def sample_fields_def sample_db_def demo_bill_db_def live_user_def
        live_account_def claimed_def batch_image_hold_claim_exists_def scaled_def balance_of_def frozen_of_def quota_used_of_def none)
  from quoted_amount_paid_once [OF run this, unfolded quote q] run
  show ?thesis by (simp add: sample_db_def demo_bill_db_def funds_of_def balance_of_def frozen_of_def sample_payment_def)
qed

definition mini_result :: forward_result where
  "mini_result = (sample_result None None)\<lparr>fr_response_model := ''gpt-5.4-mini''\<rparr>"

theorem response_model_billing_safe_witness:
  "let cost = calculate_record_usage_cost sample_usage_env mini_result sample_key ''gpt-5.4'' 2 1 5;
       cost' = response_model_cost sample_usage_env mini_result sample_key (sample_fields\<lparr>cf_source := ''response_model''\<rparr>)
                 ''gpt-5.4'' 2 1 5 cost
   in cost' \<noteq> cost \<and> co_total cost' \<le> co_total cost + response_cost_epsilon \<and> 0 < co_total cost'"
proof -
  let ?cost = "calculate_record_usage_cost sample_usage_env mini_result sample_key ''gpt-5.4'' 2 1 5"
  let ?cost' = "response_model_cost sample_usage_env mini_result sample_key (sample_fields\<lparr>cf_source := ''response_model''\<rparr>)
                 ''gpt-5.4'' 2 1 5 ?cost"
  have wf: "wf_usage sample_usage_env sample_key mini_result"
    by (simp add: wf_usage_def sample_usage_env_def sample_env_def wf_env_def wf_catalogue_def sample_key_def mini_result_def
        sample_result_def)
  have "0 < co_total ?cost \<and> co_total ?cost' \<noteq> co_total ?cost" by code_simp
  with response_model_billing_safe [OF wf refl refl, where model = "''gpt-5.4''" and rate = 2 and irate = 1
      and t = 5 and cf = "sample_fields\<lparr>cf_source := ''response_model''\<rparr>"]
  show ?thesis by (auto simp: Let_def)
qed

end
