(* ===== verification/Price_Schedule.thy ===== *)
theory Price_Schedule
  imports Cost_Tiers
begin

text \<open>
  The table of prices by context length that users are shown (service/billing_context_schedule.go). Its
  unit prices are difference quotients of the charge itself, taken at two points of each segment between
  the breakpoints of the charge. The labels of the tiers and the list of time periods are left out. What is
  shown is what the gateway charges, up to the rounding of the table.
\<close>

section \<open>Rounding to twelve significant digits\<close>

fun decimal_digits :: "nat \<Rightarrow> nat" where
  "decimal_digits n = (if n = 0 then 0 else Suc (decimal_digits (n div 10)))"

declare decimal_digits.simps [simp del]

fun scale12 :: "nat \<Rightarrow> rat \<Rightarrow> rat \<Rightarrow> rat" where
  "scale12 0 v s = s"
| "scale12 (Suc n) v s =
     (if \<bar>v\<bar> * s < 10 ^ 11 then scale12 n v (s * 10)
      else if 10 ^ 12 \<le> \<bar>v\<bar> * s then scale12 n v (s / 10)
      else s)"

definition round_half_even :: "rat \<Rightarrow> int" where
  "round_half_even x =
     (let f = \<lfloor>x\<rfloor>; d = x - of_int f
      in if d < 1 / 2 then f else if 1 / 2 < d then f + 1 else if even f then f else f + 1)"

text \<open>\<open>FormatFloat(v, 'g', 12)\<close> read back.\<close>

definition round_context_price :: "rat \<Rightarrow> rat" where
  "round_context_price v =
     (if v = 0 then 0
      else
        let s = scale12 (12 + decimal_digits (nat \<lceil>\<bar>v\<bar>\<rceil>) + decimal_digits (nat \<lceil>1 / \<bar>v\<bar>\<rceil>)) v 1
        in of_int (round_half_even (v * s)) / s)"

section \<open>Breakpoints and segments\<close>

definition interval_bounds :: "pricing_interval list \<Rightarrow> int list" where
  "interval_bounds ivs =
     sort (remdups (concat (map (\<lambda>iv. (if 0 < pi_min iv then [pi_min iv] else []) @
                                     (case pi_max iv of None \<Rightarrow> [] | Some b \<Rightarrow> [b])) ivs)))"

definition threshold_bounds :: "model_pricing \<Rightarrow> int list" where
  "threshold_bounds p =
     (let b = (if mp_long_inclusive p then mp_long_threshold p - 1 else mp_long_threshold p)
      in if mp_long_threshold p \<le> 0 \<or> b \<le> 0 then [] else [b])"

definition context_breakpoints :: "pricing_env \<Rightarrow> resolved_pricing \<Rightarrow> string \<Rightarrow> int list" where
  "context_breakpoints env r model =
     (if \<not> rp_long r then []
      else if rp_intervals r \<noteq> [] then interval_bounds (rp_intervals r)
      else case get_interval_pricing r 1 of
             None \<Rightarrow> []
           | Some p \<Rightarrow> threshold_bounds (apply_model_policy (pe_now env) model p True (pe_now env)))"

type_synonym segment = "int \<times> int option"

fun build_segments :: "int \<Rightarrow> int list \<Rightarrow> segment list" where
  "build_segments prev [] = [(prev, None)]"
| "build_segments prev (b # bs) = (if b \<le> prev then build_segments prev bs else (prev, Some b) # build_segments b bs)"

definition in_segment :: "segment \<Rightarrow> int \<Rightarrow> bool" where
  "in_segment s n = (fst s < n \<and> (case snd s of None \<Rightarrow> True | Some b \<Rightarrow> n \<le> b))"

section \<open>Probes\<close>

definition schedule_probe ::
    "pricing_env \<Rightarrow> string \<Rightarrow> price_group option \<Rightarrow> resolved_pricing \<Rightarrow> usage_tokens \<Rightarrow> price_error + cost_breakdown" where
  "schedule_probe env model g r t =
     calculate_token_cost_for_request env
       \<lparr>tr_model = model, tr_group = g, tr_tokens = t, tr_rate = 1, tr_at = 0, tr_tier = [], tr_effort = [],
        tr_resolver = True, tr_resolved = Some r\<rparr>"

type_synonym probe = "usage_tokens \<Rightarrow> price_error + cost_breakdown"

definition probe_component :: "probe \<Rightarrow> (int \<Rightarrow> usage_tokens) \<Rightarrow> int \<Rightarrow> int \<Rightarrow> price_error + rat" where
  "probe_component probe tokens_at a delta =
     (if delta \<le> 0 then
        (let n = (if a \<le> 0 then 1 else a)
         in map_sum id (\<lambda>c. round_context_price (co_actual c / of_int n)) (probe (tokens_at n)))
      else
        case (probe (tokens_at a), probe (tokens_at (a + delta))) of
          (Inr lo, Inr hi) \<Rightarrow> Inr (round_context_price ((co_actual hi - co_actual lo) / of_int delta))
        | (Inl e, _) \<Rightarrow> Inl e
        | (_, Inl e) \<Rightarrow> Inl e)"

record context_tier =
  ct_min :: int
  ct_max :: "int option"
  ct_input :: "rat option"
  ct_output :: "rat option"
  ct_write :: "rat option"
  ct_write_1h :: "rat option"
  ct_read :: "rat option"

text \<open>Whether the row of the group or channel, or its interval for the context, sets input, output, cache
writes, one-hour writes and reads.\<close>

definition explicit_fields :: "resolved_pricing \<Rightarrow> int \<Rightarrow> bool \<times> bool \<times> bool \<times> bool \<times> bool" where
  "explicit_fields r n =
     (case rp_channel r of
        None \<Rightarrow> (False, False, False, False, False)
      | Some c \<Rightarrow>
          let iv = find_matching_interval (rp_intervals r) n;
              by_iv = (\<lambda>f. case iv of None \<Rightarrow> False | Some v \<Rightarrow> f v \<noteq> None)
          in (cp_input c \<noteq> None \<or> by_iv pi_input, cp_output c \<noteq> None \<or> by_iv pi_output,
              cp_write c \<noteq> None \<or> by_iv pi_write,
              cp_write_1h c \<noteq> None \<or> cp_write c \<noteq> None \<or> by_iv pi_write_1h \<or> by_iv pi_write,
              cp_read c \<noteq> None \<or> by_iv pi_read))"

definition context_price_ptr :: "rat \<Rightarrow> bool \<Rightarrow> rat option" where
  "context_price_ptr v explicit = (if v = 0 \<and> \<not> explicit then None else Some v)"

definition probe_width :: "segment \<Rightarrow> int" where
  "probe_width s =
     (case snd s of None \<Rightarrow> 1000 | Some b \<Rightarrow> (if b - fst s - 1 < 1000 then b - fst s - 1 else 1000))"

definition probe_context_tier :: "segment \<Rightarrow> resolved_pricing \<Rightarrow> probe \<Rightarrow> price_error + context_tier" where
  "probe_context_tier s r probe =
     (let c = fst s + 1; d = probe_width s;
          (ei, eo, ew, eh, er) = explicit_fields r c
      in case (probe_component probe (\<lambda>n. no_tokens\<lparr>ut_input := n\<rparr>) c d,
               probe_component probe (\<lambda>n. no_tokens\<lparr>ut_read := n\<rparr>) c d,
               probe_component probe (\<lambda>n. no_tokens\<lparr>ut_write := n\<rparr>) c d,
               probe_component probe (\<lambda>n. no_tokens\<lparr>ut_write := n, ut_write_1h := n\<rparr>) c d,
               probe_component probe (\<lambda>n. no_tokens\<lparr>ut_input := c, ut_output := n\<rparr>) 0 1000) of
           (Inr i, Inr rd, Inr w, Inr h, Inr out) \<Rightarrow>
             Inr \<lparr>ct_min = fst s, ct_max = snd s, ct_input = context_price_ptr i ei, ct_output = context_price_ptr out eo,
                  ct_write = context_price_ptr w ew, ct_write_1h = context_price_ptr h eh, ct_read = context_price_ptr rd er\<rparr>
         | _ \<Rightarrow> Inl PricingUnavailable)"

fun probe_segments :: "segment list \<Rightarrow> resolved_pricing \<Rightarrow> probe \<Rightarrow> price_error + context_tier list" where
  "probe_segments [] r probe = Inr []"
| "probe_segments (s # ss) r probe =
     (case probe_context_tier s r probe of
        Inl e \<Rightarrow> Inl e
      | Inr t \<Rightarrow> map_sum id (\<lambda>ts. t # ts) (probe_segments ss r probe))"

section \<open>The table\<close>

definition same_price :: "rat option \<Rightarrow> rat option \<Rightarrow> bool" where
  "same_price a b =
     (case (a, b) of
        (Some x, Some y) \<Rightarrow> x = y \<or> \<bar>x - y\<bar> \<le> max \<bar>x\<bar> \<bar>y\<bar> * (1 / 10 ^ 9)
      | (None, None) \<Rightarrow> True
      | _ \<Rightarrow> False)"

definition same_context_prices :: "context_tier \<Rightarrow> context_tier \<Rightarrow> bool" where
  "same_context_prices a b =
     (same_price (ct_input a) (ct_input b) \<and> same_price (ct_output a) (ct_output b) \<and> same_price (ct_write a) (ct_write b) \<and>
      same_price (ct_write_1h a) (ct_write_1h b) \<and> same_price (ct_read a) (ct_read b))"

fun merge_equal_tiers :: "context_tier list \<Rightarrow> context_tier list" where
  "merge_equal_tiers (a # b # ts) =
     (if same_context_prices a b then merge_equal_tiers (a\<lparr>ct_max := ct_max b\<rparr> # ts)
      else a # merge_equal_tiers (b # ts))"
| "merge_equal_tiers ts = ts"

text \<open>\<open>Inr None\<close>: the model is not charged by tokens.\<close>

definition resolve_context_schedule ::
    "pricing_env \<Rightarrow> string \<Rightarrow> price_group option \<Rightarrow> price_error + context_tier list option" where
  "resolve_context_schedule env model g =
     (let r = resolve env (map_option pg_id g) g model
      in if rp_mode r \<noteq> [] \<and> rp_mode r \<noteq> BillingModeToken then Inr None
         else map_sum id (\<lambda>ts. Some (merge_equal_tiers ts))
                (probe_segments (build_segments 0 (context_breakpoints env r model)) r (schedule_probe env model g r)))"

text \<open>How a reader finds the row of a context.\<close>

definition tier_of :: "context_tier list \<Rightarrow> int \<Rightarrow> context_tier option" where
  "tier_of ts n = find (\<lambda>t. in_segment (ct_min t, ct_max t) n) ts"

section \<open>Rounding\<close>

lemma decimal_digits_less: "n < 10 ^ decimal_digits n"
proof (induction n rule: decimal_digits.induct)
  case (1 n)
  show ?case
  proof (cases "n = 0")
    case False
    then have "n div 10 < 10 ^ decimal_digits (n div 10)" using 1 by blast
    then show ?thesis using False by (subst decimal_digits.simps) auto
  qed (simp add: decimal_digits.simps)
qed

lemma scale12_range:
  assumes "0 < s" "10 ^ 11 \<le> \<bar>v\<bar> * s * 10 ^ n" "\<bar>v\<bar> * s < 10 ^ (12 + n)"
  shows "10 ^ 11 \<le> \<bar>v\<bar> * scale12 n v s \<and> 0 < scale12 n v s"
  using assms
proof (induction n v s rule: scale12.induct)
  case (2 n v s)
  show ?case
  proof (cases "\<bar>v\<bar> * s < 10 ^ 11")
    case True
    then have "\<bar>v\<bar> * (s * 10) < 10 ^ 12" by (simp add: algebra_simps)
    also have "\<dots> \<le> 10 ^ (12 + n)" by (intro power_increasing) auto
    finally show ?thesis using 2(1) [OF True] 2(3-5) True by (simp add: mult.assoc)
  next
    case big: False
    show ?thesis
    proof (cases "10 ^ 12 \<le> \<bar>v\<bar> * s")
      case True
      then have "10 ^ 11 * 1 \<le> \<bar>v\<bar> * (s / 10) * 10 ^ n" using one_le_power [of "10 :: rat" n]
        by (intro mult_mono) auto
      moreover have "(10 :: rat) ^ (12 + Suc n) = 10 ^ (12 + n) * 10"
        by (simp only: add_Suc_right power_Suc mult.commute)
      with 2(5) have "\<bar>v\<bar> * (s / 10) < 10 ^ (12 + n)" by simp
      ultimately show ?thesis using 2(2) [OF big True] 2(3) True big by simp
    next
      case False
      then show ?thesis using big 2(3) by simp
    qed
  qed
qed simp

lemma round_half_even_near: "\<bar>of_int (round_half_even x) - x\<bar> \<le> (1 / 2 :: rat)"
proof -
  have "of_int \<lfloor>x\<rfloor> \<le> x" "x < of_int \<lfloor>x\<rfloor> + 1" using floor_correct [of x] by auto
  then show ?thesis by (auto simp: round_half_even_def Let_def abs_le_iff)
qed

lemma round_context_price_near: "\<bar>round_context_price v - v\<bar> \<le> \<bar>v\<bar> * (1 / 10 ^ 11)"
proof (cases "v = 0")
  case False
  let ?a = "decimal_digits (nat \<lceil>\<bar>v\<bar>\<rceil>)" and ?b = "decimal_digits (nat \<lceil>1 / \<bar>v\<bar>\<rceil>)"
  let ?n = "12 + ?a + ?b"
  let ?s = "scale12 ?n v 1"
  have up: "\<bar>x\<bar> \<le> 10 ^ decimal_digits (nat \<lceil>\<bar>x\<bar>\<rceil>)" for x :: rat
  proof -
    have "\<bar>x\<bar> \<le> of_int \<lceil>\<bar>x\<bar>\<rceil>" by (rule le_of_int_ceiling)
    also have "\<dots> = of_nat (nat \<lceil>\<bar>x\<bar>\<rceil>)" by simp
    also have "\<dots> \<le> of_nat (10 ^ decimal_digits (nat \<lceil>\<bar>x\<bar>\<rceil>))"
      using decimal_digits_less [of "nat \<lceil>\<bar>x\<bar>\<rceil>"] by (simp only: of_nat_le_iff)
    finally show ?thesis by simp
  qed
  have "\<bar>v\<bar> \<le> 10 ^ ?a" by (rule up)
  also have "\<dots> < 10 ^ (12 + ?n)" by (rule power_strict_increasing) auto
  finally have small: "\<bar>v\<bar> * 1 < 10 ^ (12 + ?n)" by simp
  have "1 / \<bar>v\<bar> \<le> 10 ^ ?b" using up [of "1 / v"] by simp
  then have "1 \<le> \<bar>v\<bar> * 10 ^ ?b" using False by (simp add: field_simps)
  then have "10 ^ 11 * 1 \<le> 10 ^ (12 + ?a) * (\<bar>v\<bar> * 10 ^ ?b)"
    by (intro mult_mono power_increasing) auto
  then have "10 ^ 11 \<le> \<bar>v\<bar> * 1 * 10 ^ ?n" by (simp add: power_add mult_ac)
  from scale12_range [OF _ this small] have s: "10 ^ 11 \<le> \<bar>v\<bar> * ?s" "0 < ?s" by auto
  have "\<bar>of_int (round_half_even (v * ?s)) / ?s - v\<bar> = \<bar>of_int (round_half_even (v * ?s)) - v * ?s\<bar> / ?s"
    using s(2) by (simp add: diff_divide_distrib [symmetric] abs_divide field_simps)
  also have "\<dots> \<le> 1 / ?s"
    using round_half_even_near [of "v * ?s"] s(2) by (intro divide_right_mono) auto
  also have "\<dots> \<le> \<bar>v\<bar> * (1 / 10 ^ 11)" using s by (simp add: field_simps)
  finally show ?thesis using False by (simp add: round_context_price_def Let_def)
qed (simp add: round_context_price_def)

section \<open>Segments and breakpoints\<close>

lemma build_segments_sorted:
  assumes "sorted bs" "s \<in> set (build_segments prev bs)" "x \<in> set bs \<or> x \<le> prev"
  shows "prev \<le> fst s \<and> (x \<le> fst s \<or> (\<exists>b. snd s = Some b \<and> b \<le> x)) \<and> (\<forall>b. snd s = Some b \<longrightarrow> fst s < b)"
  using assms
proof (induction prev bs rule: build_segments.induct)
  case (2 prev b bs)
  show ?case
  proof (cases "b \<le> prev")
    case True
    then show ?thesis using 2(1) [OF True] 2(3-5) by auto
  next
    case False
    show ?thesis
    proof (cases "s = (prev, Some b)")
      case True
      then show ?thesis using False 2(3,5) by auto
    next
      case other: False
      then have s: "s \<in> set (build_segments b bs)" using 2(4) False by simp
      have "x \<in> set bs \<or> x \<le> b" using 2(5) False by auto
      then show ?thesis using 2(2) [OF False _ s] 2(3) False by auto
    qed
  qed
qed auto

lemma same_side:
  assumes "sorted bs" "s \<in> set (build_segments 0 bs)" "in_segment s n" "in_segment s n'" "x \<in> set bs \<or> x \<le> 0"
  shows "x < n \<longleftrightarrow> x < n'"
  using build_segments_sorted [OF assms(1,2,5)] assms(3,4) by (auto simp: in_segment_def)

lemma interval_bounds_sound:
  "sorted (interval_bounds ivs)"
  "iv \<in> set ivs \<Longrightarrow> pi_min iv \<in> set (interval_bounds ivs) \<or> pi_min iv \<le> 0"
  "iv \<in> set ivs \<Longrightarrow> pi_max iv = Some b \<Longrightarrow> b \<in> set (interval_bounds ivs) \<or> b \<le> 0"
  by (force simp: interval_bounds_def)+

lemma interval_same:
  assumes "\<And>iv. iv \<in> set ivs \<Longrightarrow> (pi_min iv < n) = (pi_min iv < n')"
    and "\<And>iv b. iv \<in> set ivs \<Longrightarrow> pi_max iv = Some b \<Longrightarrow> (b < n) = (b < n')"
  shows "find_matching_interval ivs n = find_matching_interval ivs n'"
  using assms
proof (induction ivs)
  case (Cons iv ivs)
  have "pi_max iv = Some b \<Longrightarrow> (n \<le> b) = (n' \<le> b)" for b using Cons.prems(2) [of iv b] by auto
  then show ?case using Cons by (auto split: option.split)
qed simp

lemma long_same:
  assumes "s \<in> set (build_segments 0 (threshold_bounds q))"
    and "in_segment s (total_context t)" "in_segment s (total_context t')"
    and q: "mp_long_threshold p = mp_long_threshold q" "mp_long_inclusive p = mp_long_inclusive q"
  shows "long_context_applies t p = long_context_applies t' p"
proof (cases "mp_long_threshold p \<le> 0")
  case True
  then show ?thesis by (simp add: long_context_applies_def)
next
  case False
  let ?b = "if mp_long_inclusive q then mp_long_threshold q - 1 else mp_long_threshold q"
  have "sorted (threshold_bounds q)" by (simp add: threshold_bounds_def Let_def)
  moreover have "?b \<in> set (threshold_bounds q) \<or> ?b \<le> 0" by (auto simp: threshold_bounds_def Let_def)
  ultimately have "?b < total_context t \<longleftrightarrow> ?b < total_context t'" by (rule same_side [OF _ assms(1-3)])
  then show ?thesis by (auto simp: long_context_applies_def q split: if_splits)
qed

lemma policy_keeps_long:
  "mp_long_threshold (apply_model_policy now m p f t) = mp_long_threshold p"
  "mp_long_inclusive (apply_model_policy now m p f t) = mp_long_inclusive p"
  by (simp_all add: apply_model_policy_def deepseek_official_def add_write_premium_def enforce_fast_ratio_def Let_def)

lemma charged_keeps_long:
  "mp_long_threshold (charged_card env r m t p) = mp_long_threshold p"
  "mp_long_inclusive (charged_card env r m t p) = mp_long_inclusive p"
  by (simp_all add: charged_card_def deepseek_peak_card_def policy_keeps_long Let_def)

section \<open>The charge of a plain request is linear\<close>

record token_units =
  tu_input :: rat
  tu_output :: rat
  tu_write :: rat
  tu_write_1h :: rat
  tu_read :: rat

definition units_of :: "bool \<Rightarrow> model_pricing \<Rightarrow> token_units" where
  "units_of long p =
     (let ki = (if long then long_or_one (mp_long_input p) else 1);
          ko = (if long then long_or_one (mp_long_output p) else 1);
          split = (mp_breakdown p \<and> (0 < mp_write_5m p \<or> 0 < mp_write_1h p))
      in \<lparr>tu_input = mp_input p * ki, tu_output = mp_output p * ko,
          tu_write = (if split then mp_write_5m p else mp_write p) * ki,
          tu_write_1h = (if split then mp_write_1h p else mp_write p) * ki, tu_read = mp_read p * ki\<rparr>)"

definition units_price :: "token_units \<Rightarrow> usage_tokens \<Rightarrow> rat" where
  "units_price u t =
     of_int (ut_input t) * tu_input u + of_int (ut_output t) * tu_output u +
     of_int (ut_write t) * (if ut_write_1h t = 0 then tu_write u else tu_write_1h u) + of_int (ut_read t) * tu_read u"

text \<open>Text tokens whose cache writes are all of one lifetime.\<close>

definition plain_tokens :: "usage_tokens \<Rightarrow> bool" where
  "plain_tokens t =
     (wf_tokens t \<and> ut_image_input t = 0 \<and> ut_image_read t = 0 \<and> ut_image_output t = 0 \<and> ut_write_5m t = 0 \<and>
      (ut_write_1h t = 0 \<or> ut_write_1h t = ut_write t))"

lemma no_tier [simp]: "normalize_billing_tier [] = []" "effort_multiplier [] ms = 1"
  by code_simp (simp add: effort_multiplier_def, code_simp)

lemma standard_prices:
  "tier_prices [] p = \<lparr>up_input = mp_input p, up_output = mp_output p, up_read = mp_read p, up_write = mp_write p, up_tier = 1\<rparr>"
  by (simp add: tier_prices_def use_priority_pricing_def configured_tier_multiplier_def tier_multiplier_def Let_def)

lemma plain_breakdown:
  assumes "plain_tokens t"
  shows "co_actual (breakdown_at long p t rate []) = max rate 0 * units_price (units_of long p) t"
proof -
  have "normalize_cache_writes t = (0, ut_write_1h t)"
    using assms by (auto simp: normalize_cache_writes_def plain_tokens_def wf_tokens_def Let_def)
  then show ?thesis
    using assms
    by (auto simp: breakdown_at_def standard_prices long_prices_def units_price_def units_of_def plain_tokens_def wf_tokens_def
        input_costs_def output_cost_def image_output_cost_def read_cost_def cache_write_cost_def Let_def algebra_simps)
qed

lemma plain_compute:
  assumes "plain_tokens t"
  shows "co_actual (compute_token_breakdown p t rate [] al) =
    max rate 0 * units_price (units_of (al \<and> long_context_applies t p) p) t"
proof -
  have "co_actual (compute_token_breakdown p t rate [] al) = co_actual (breakdown_at (al \<and> long_context_applies t p) p t rate [])"
    by (cases al; cases "long_context_applies t p") (simp_all add: compute_token_breakdown_def Let_def)
  then show ?thesis by (simp only: plain_breakdown [OF assms])
qed

lemma multiplied_actual: "co_actual (apply_cost_multiplier k c) = k * co_actual c"
  by (simp add: apply_cost_multiplier_def)

definition by_resolver :: "price_group option \<Rightarrow> resolved_pricing \<Rightarrow> bool" where
  "by_resolver g r = (operator_priced (Some r) \<or> g \<noteq> None)"

definition context_request :: "int \<Rightarrow> usage_tokens" where
  "context_request n = no_tokens\<lparr>ut_input := n\<rparr>"

lemma context_request_total [simp]: "total_context (context_request n) = n"
  by (simp add: context_request_def total_context_def no_tokens_def)

text \<open>The unit prices of a context of \<open>n\<close> tokens.\<close>

definition charge_units ::
    "pricing_env \<Rightarrow> price_group option \<Rightarrow> resolved_pricing \<Rightarrow> string \<Rightarrow> int \<Rightarrow> token_units option" where
  "charge_units env g r model n =
     (if by_resolver g r then
        map_option (\<lambda>p0. let p = charged_card env r model 0 p0
                        in units_of (rp_intervals r = [] \<and> rp_long r \<and> long_context_applies (context_request n) p) p)
          (get_interval_pricing r (if rp_long r then n else 1))
      else case get_model_pricing (pe_catalog env) (pe_now env) model of
             Inl e \<Rightarrow> None
           | Inr p \<Rightarrow> Some (units_of (long_context_applies (context_request n) p) p))"

definition charged_time :: "pricing_env \<Rightarrow> price_group option \<Rightarrow> resolved_pricing \<Rightarrow> gotime \<Rightarrow> rat" where
  "charged_time env g r at0 = (if by_resolver g r then resolved_time_multiplier env r at0 else 1)"

definition plain_request ::
    "string \<Rightarrow> price_group option \<Rightarrow> resolved_pricing \<Rightarrow> rat \<Rightarrow> gotime \<Rightarrow> usage_tokens \<Rightarrow> token_request" where
  "plain_request model g r rate at0 t =
     \<lparr>tr_model = model, tr_group = g, tr_tokens = t, tr_rate = rate, tr_at = at0, tr_tier = [], tr_effort = [],
      tr_resolver = True, tr_resolved = Some r\<rparr>"

lemma long_context_request: "long_context_applies (context_request (total_context t)) p = long_context_applies t p"
  by (simp add: long_context_applies_def)

lemma charge_plain:
  assumes t: "plain_tokens t" and mode: "\<not> per_request_mode (rp_mode r)" and at0: "at0 = 0 \<or> at0 = pe_now env" and rate: "0 \<le> rate"
  shows "case charge_units env g r model (total_context t) of
      None \<Rightarrow> calculate_token_cost_for_request env (plain_request model g r rate at0 t) = Inl PricingUnavailable
    | Some u \<Rightarrow> \<exists>c. calculate_token_cost_for_request env (plain_request model g r rate at0 t) = Inr c \<and>
        co_actual c = rate * charged_time env g r at0 * units_price u t"
proof (cases "by_resolver g r")
  case True
  let ?q = "plain_request model g r rate at0 t"
  have q: "calculate_token_cost_for_request env ?q = calculate_cost_unified env (token_cost_input ?q)"
    using True by (auto simp: calculate_token_cost_for_request_def plain_request_def by_resolver_def)
  have i: "clamp_rate (token_cost_input ?q) = token_cost_input ?q"
    using rate by (simp add: clamp_rate_def token_cost_input_def plain_request_def)
  have unified: "calculate_cost_unified env (token_cost_input ?q) =
      map_sum id (\<lambda>c. c\<lparr>co_mode := mode_or_token (rp_mode r)\<rparr>) (calculate_token_cost env r (token_cost_input ?q))"
    using mode by (simp add: calculate_cost_unified_def i) (simp add: token_cost_input_def plain_request_def)
  have card: "charged_card env r model at0 p = charged_card env r model 0 p" for p
    using at0 by (auto simp: charged_card_def Let_def)
  have cost: "calculate_token_cost env r (token_cost_input ?q) =
      (case get_interval_pricing r (if rp_long r then total_context t else 1) of
         None \<Rightarrow> Inl PricingUnavailable
       | Some p0 \<Rightarrow> let p = charged_card env r model 0 p0 in
           Inr (apply_cost_multiplier 1 (apply_cost_multiplier (resolved_time_multiplier env r at0)
                 (compute_token_breakdown p t rate [] (rp_intervals r = [] \<and> rp_long r)))))"
    by (simp add: calculate_token_cost_def context_tiers_enabled_def token_cost_input_def plain_request_def card Let_def
        cong: option.case_cong)
  show ?thesis
    using True rate
    by (cases "get_interval_pricing r (if rp_long r then total_context t else 1)")
      (simp_all add: q unified cost charge_units_def charged_time_def multiplied_actual plain_compute [OF t] long_context_request
        Let_def)
next
  case False
  have "e = PricingUnavailable" for e by (cases e)
  then show ?thesis
    using rate t False
    by (auto simp: calculate_token_cost_for_request_def plain_request_def by_resolver_def charge_units_def charged_time_def
        calculate_cost_def calculate_cost_with_policy_def get_model_pricing_with_channel_def plain_compute long_context_request
        split: sum.split)
qed

section \<open>Constant unit prices inside a segment\<close>

lemma resolve_by_resolver:
  assumes "\<not> by_resolver g (resolve env (map_option pg_id g) g m)"
  shows "g = None" "rp_intervals (resolve env None None m) = []" "rp_long (resolve env None None m)"
    "rp_base (resolve env None None m) = (case get_model_pricing (pe_catalog env) (pe_now env) m of Inl e \<Rightarrow> None | Inr p \<Rightarrow> Some p)"
  using assms
  by (auto simp: by_resolver_def resolve_def match_group_pricing_def resolved_empty_def resolve_base_def Let_def split: sum.split)

lemma breakpoints_of_threshold:
  assumes "rp_long r" "rp_intervals r = []" "rp_base r = Some p"
  obtains q where "context_breakpoints env r m = threshold_bounds q" "mp_long_threshold q = mp_long_threshold p"
    "mp_long_inclusive q = mp_long_inclusive p"
proof -
  show thesis
    by (rule that [of "apply_model_policy (pe_now env) m p True (pe_now env)"])
      (use assms in \<open>simp_all add: context_breakpoints_def get_interval_pricing_def policy_keeps_long\<close>)
qed

lemma charge_units_segment:
  fixes env g m
  defines "r \<equiv> resolve env (map_option pg_id g) g m"
  assumes s: "s \<in> set (build_segments 0 (context_breakpoints env r m))" and n: "in_segment s n" "in_segment s n'"
  shows "charge_units env g r m n = charge_units env g r m n'"
proof -
  have threshold: "long_context_applies (context_request n) p = long_context_applies (context_request n') p"
    if "rp_long r" "rp_intervals r = []" "rp_base r = Some p0"
      "mp_long_threshold p = mp_long_threshold p0" "mp_long_inclusive p = mp_long_inclusive p0" for p p0
  proof -
    note h = that
    obtain q where q: "context_breakpoints env r m = threshold_bounds q" "mp_long_threshold q = mp_long_threshold p0"
      "mp_long_inclusive q = mp_long_inclusive p0" using breakpoints_of_threshold [OF h(1-3)] .
    show ?thesis
      by (rule long_same [of s q]) (use s n q h in simp_all)
  qed
  have matching: "find_matching_interval (rp_intervals r) n = find_matching_interval (rp_intervals r) n'"
    if "rp_long r"
  proof (cases "rp_intervals r = []")
    case False
    then have bs: "context_breakpoints env r m = interval_bounds (rp_intervals r)" using that by (simp add: context_breakpoints_def)
    note side = same_side [OF interval_bounds_sound(1) s [unfolded bs] n]
    show ?thesis using side interval_bounds_sound(2,3) by (intro interval_same) blast+
  qed simp
  show ?thesis
  proof (cases "by_resolver g r")
    case True
    show ?thesis
    proof (cases "rp_long r")
      case long: True
      then have "get_interval_pricing r n = get_interval_pricing r n'" by (simp add: get_interval_pricing_def matching)
      moreover have "rp_intervals r = [] \<Longrightarrow> get_interval_pricing r n = Some p0 \<Longrightarrow>
          long_context_applies (context_request n) (charged_card env r m 0 p0) =
          long_context_applies (context_request n') (charged_card env r m 0 p0)" for p0
        using threshold [OF long, of p0 "charged_card env r m 0 p0"] by (simp add: get_interval_pricing_def charged_keeps_long)
      ultimately show ?thesis
        using True long
        by (cases "rp_intervals r = []") (auto simp: charge_units_def Let_def intro!: option.map_cong)
    qed (simp add: charge_units_def True Let_def)
  next
    case False
    note d = resolve_by_resolver [OF False [unfolded r_def]]
    show ?thesis
    proof (cases "get_model_pricing (pe_catalog env) (pe_now env) m")
      case (Inr p)
      have "long_context_applies (context_request n) p = long_context_applies (context_request n') p"
        by (rule threshold [of p]) (use d Inr in \<open>simp_all add: r_def\<close>)
      then show ?thesis using False Inr by (simp add: charge_units_def)
    qed (simp add: charge_units_def False)
  qed
qed

section \<open>What the probes find\<close>

lemma segment_ends:
  assumes "sorted bs" "s \<in> set (build_segments 0 bs)"
  shows "0 \<le> fst s" "in_segment s (fst s + 1)" "0 < probe_width s \<Longrightarrow> in_segment s (fst s + 1 + probe_width s)"
proof -
  have "0 \<le> fst s \<and> (\<forall>b. snd s = Some b \<longrightarrow> fst s < b)" using build_segments_sorted [OF assms, of 0] by simp
  then show "0 \<le> fst s" "in_segment s (fst s + 1)" "0 < probe_width s \<Longrightarrow> in_segment s (fst s + 1 + probe_width s)"
    by (auto simp: in_segment_def probe_width_def split: option.splits if_splits)
qed

lemma probe_component_linear:
  assumes "0 < a" "\<exists>c. probe (f a) = Inr c \<and> co_actual c = of_int a * x"
    and "0 < d \<Longrightarrow> \<exists>c. probe (f (a + d)) = Inr c \<and> co_actual c = of_int (a + d) * x"
  shows "probe_component probe f a d = Inr (round_context_price x)"
proof (cases "0 < d")
  case True
  have "(of_int (a + d) * x - of_int a * x) / of_int d = x" using True by (simp add: field_simps)
  then show ?thesis using True assms by (auto simp: probe_component_def simp del: of_int_add)
next
  case False
  then show ?thesis using assms(1,2) by (auto simp: probe_component_def)
qed

lemma probe_component_none:
  "(\<And>n. probe (f n) = Inl e) \<Longrightarrow> probe_component probe f a d = Inl e"
  by (simp add: probe_component_def Let_def)

definition kinds :: "(int \<Rightarrow> usage_tokens) list" where
  "kinds = [\<lambda>n. no_tokens\<lparr>ut_input := n\<rparr>, \<lambda>n. no_tokens\<lparr>ut_read := n\<rparr>, \<lambda>n. no_tokens\<lparr>ut_write := n\<rparr>,
            \<lambda>n. no_tokens\<lparr>ut_write := n, ut_write_1h := n\<rparr>]"

definition unit_tier :: "segment \<Rightarrow> resolved_pricing \<Rightarrow> token_units \<Rightarrow> context_tier" where
  "unit_tier s r u =
     (let (ei, eo, ew, eh, er) = explicit_fields r (fst s + 1)
      in \<lparr>ct_min = fst s, ct_max = snd s, ct_input = context_price_ptr (round_context_price (tu_input u)) ei,
          ct_output = context_price_ptr (round_context_price (tu_output u)) eo,
          ct_write = context_price_ptr (round_context_price (tu_write u)) ew,
          ct_write_1h = context_price_ptr (round_context_price (tu_write_1h u)) eh,
          ct_read = context_price_ptr (round_context_price (tu_read u)) er\<rparr>)"

lemma probe_tier_units:
  fixes env g m
  defines "r \<equiv> resolve env (map_option pg_id g) g m"
  assumes mode: "\<not> per_request_mode (rp_mode r)" and bs: "sorted (context_breakpoints env r m)"
    and s: "s \<in> set (build_segments 0 (context_breakpoints env r m))"
  shows "probe_context_tier s r (schedule_probe env m g r) =
    (case charge_units env g r m (fst s + 1) of None \<Rightarrow> Inl PricingUnavailable | Some u \<Rightarrow> Inr (unit_tier s r u))"
proof -
  let ?c = "fst s + 1" and ?d = "probe_width s" and ?probe = "schedule_probe env m g r"
  note ends = segment_ends [OF bs s]
  have same: "charge_units env g r m n = charge_units env g r m ?c" if "in_segment s n" for n
    using charge_units_segment [OF s [unfolded r_def] that ends(2)] by (simp add: r_def)
  have at1: "charged_time env g r 0 = 1" 
    by (simp add: charged_time_def resolved_time_multiplier_def multiplier_at_def split: option.split)
  have probe: "?probe t = calculate_token_cost_for_request env (plain_request m g r 1 0 t)" for t
    by (simp add: schedule_probe_def plain_request_def)
  show ?thesis
  proof (cases "charge_units env g r m ?c")
    case (Some u)
    have priced: "\<exists>c. ?probe t = Inr c \<and> co_actual c = units_price u t"
      if "plain_tokens t" "in_segment s (total_context t)" for t
      using charge_plain [where env = env and g = g and model = m and rate = 1 and ?at0.0 = 0, OF that(1) mode] Some same [OF that(2)] by (simp add: probe at1)
    have plain: "plain_tokens (f n)" "total_context (f n) = n" if "f \<in> set kinds" "0 \<le> n" for f n
      using that by (auto simp: kinds_def plain_tokens_def wf_tokens_def total_context_def no_tokens_def)
    have found: "probe_component ?probe f ?c ?d = Inr (round_context_price x)"
      if "f \<in> set kinds" and "\<And>n. 0 < n \<Longrightarrow> units_price u (f n) = of_int n * x" for f x
    proof (rule probe_component_linear)
      show "\<exists>c. ?probe (f ?c) = Inr c \<and> co_actual c = of_int ?c * x"
        using priced [OF plain(1) [OF that(1), of ?c]] plain(2) [OF that(1), of ?c] ends(1,2) that(2) [of ?c] by simp
      show "\<exists>c. ?probe (f (?c + ?d)) = Inr c \<and> co_actual c = of_int (?c + ?d) * x" if "0 < ?d"
        using priced [OF plain(1) [OF \<open>f \<in> set kinds\<close>, of "?c + ?d"]] plain(2) [OF \<open>f \<in> set kinds\<close>, of "?c + ?d"]
          ends(1) ends(3) [OF \<open>0 < ?d\<close>] that \<open>\<And>n. 0 < n \<Longrightarrow> units_price u (f n) = of_int n * x\<close> [of "?c + ?d"] by simp
    qed (use ends(1) in simp)
    have out: "probe_component ?probe (\<lambda>n. no_tokens\<lparr>ut_input := ?c, ut_output := n\<rparr>) 0 1000 =
        Inr (round_context_price (tu_output u))"
    proof -
      have "\<exists>c. ?probe (no_tokens\<lparr>ut_input := ?c, ut_output := n\<rparr>) = Inr c \<and>
          co_actual c = of_int ?c * tu_input u + of_int n * tu_output u" if "0 \<le> n" for n
        using priced [of "no_tokens\<lparr>ut_input := ?c, ut_output := n\<rparr>"] ends(1,2) that
        by (simp add: plain_tokens_def wf_tokens_def total_context_def no_tokens_def units_price_def)
      from this [of 0] this [of 1000] show ?thesis by (auto simp: probe_component_def)
    qed
    show ?thesis
      using found [of "\<lambda>n. no_tokens\<lparr>ut_input := n\<rparr>" "tu_input u"] found [of "\<lambda>n. no_tokens\<lparr>ut_read := n\<rparr>" "tu_read u"]
        found [of "\<lambda>n. no_tokens\<lparr>ut_write := n\<rparr>" "tu_write u"]
        found [of "\<lambda>n. no_tokens\<lparr>ut_write := n, ut_write_1h := n\<rparr>" "tu_write_1h u"] out
      by (simp add: probe_context_tier_def unit_tier_def Some kinds_def units_price_def no_tokens_def Let_def
          split: prod.split)
  next
    case None
    have "?probe (no_tokens\<lparr>ut_input := ?c\<rparr>) = Inl PricingUnavailable"
      using charge_plain [where env = env and g = g and model = m and rate = 1 and ?at0.0 = 0, OF _ mode,
          of "no_tokens\<lparr>ut_input := ?c\<rparr>"] None ends(1)
      by (simp add: probe plain_tokens_def wf_tokens_def total_context_def no_tokens_def)
    then have "\<exists>e. probe_component ?probe (\<lambda>n. no_tokens\<lparr>ut_input := n\<rparr>) ?c ?d = Inl e"
      using ends(1) by (auto simp: probe_component_def split: sum.split)
    then show ?thesis by (auto simp: probe_context_tier_def None Let_def split: prod.split sum.split)
  qed
qed

section \<open>Merged rows\<close>

definition span :: "context_tier \<Rightarrow> segment" where
  "span t = (ct_min t, ct_max t)"

definition row_units :: "context_tier \<Rightarrow> token_units" where
  "row_units t =
     (let v = (\<lambda>x. case x of None \<Rightarrow> 0 | Some p \<Rightarrow> p)
      in \<lparr>tu_input = v (ct_input t), tu_output = v (ct_output t), tu_write = v (ct_write t), tu_write_1h = v (ct_write_1h t),
          tu_read = v (ct_read t)\<rparr>)"

fun chained :: "segment list \<Rightarrow> bool" where
  "chained (s # s' # ss) = (fst s < fst s' \<and> snd s = Some (fst s') \<and> chained (s' # ss))"
| "chained [s] = (snd s = None)"
| "chained [] = False"

lemma build_segments_chained: "chained (build_segments prev bs) \<and> fst (hd (build_segments prev bs)) = prev"
proof (induction prev bs rule: build_segments.induct)
  case (2 prev b bs)
  then show ?case by (cases "build_segments b bs") auto
qed simp

lemma same_context_prices_refl [simp]: "same_context_prices a a"
  by (simp add: same_context_prices_def same_price_def split: option.split)

lemma same_context_prices_span [simp]:
  "same_context_prices (a\<lparr>ct_max := m\<rparr>) b = same_context_prices a b" "same_context_prices b (a\<lparr>ct_max := m\<rparr>) = same_context_prices b a"
  by (simp_all add: same_context_prices_def)

lemma row_units_span [simp]: "row_units (a\<lparr>ct_max := m\<rparr>) = row_units a"
  by (simp add: row_units_def)

lemma tier_of_Cons [simp]: "tier_of (a # ts) n = (if in_segment (span a) n then Some a else tier_of ts n)"
  by (simp add: tier_of_def span_def)

definition prices :: "context_tier \<Rightarrow> rat option \<times> rat option \<times> rat option \<times> rat option \<times> rat option" where
  "prices t = (ct_input t, ct_output t, ct_write t, ct_write_1h t, ct_read t)"

lemma same_of_prices: "prices h = prices a \<Longrightarrow> same_context_prices h b = same_context_prices a b"
  by (simp add: prices_def same_context_prices_def)

lemma merged_row:
  assumes "chained (map span (a # ts))" "ct_min a < n"
  shows "\<exists>t h. tier_of (a # ts) n = Some t \<and> tier_of (merge_equal_tiers (a # ts)) n = Some h \<and> same_context_prices h t \<and>
    (in_segment (span a) n \<longrightarrow> prices h = prices a)"
  using assms
proof (induction "a # ts" arbitrary: a ts rule: merge_equal_tiers.induct)
  case (1 a b ts)
  have ab: "ct_max a = Some (ct_min b)" "ct_min a < ct_min b" and bts: "chained (map span (b # ts))"
    using 1(3) by (simp_all add: span_def)
  have later: "ct_min b < n" if "\<not> in_segment (span a) n" using that ab 1(4) by (simp add: in_segment_def span_def)
  show ?case
  proof (cases "same_context_prices a b")
    case True
    let ?a = "a\<lparr>ct_max := ct_max b\<rparr>"
    have c: "chained (map span (?a # ts))" using bts ab(2) by (cases ts) (auto simp: span_def)
    have m: "ct_min ?a < n" using 1(4) by simp
    from 1(1) [OF True c m] obtain t h where ih: "tier_of (?a # ts) n = Some t" "tier_of (merge_equal_tiers (?a # ts)) n = Some h"
      "same_context_prices h t" "in_segment (span ?a) n \<longrightarrow> prices h = prices ?a" by blast
    have a: "prices ?a = prices a" by (simp add: prices_def)
    have aa: "in_segment (span a) n \<or> in_segment (span b) n \<longleftrightarrow> in_segment (span ?a) n"
      if "\<forall>m. ct_max b = Some m \<longrightarrow> ct_min b < m"
      using that ab 1(4) by (auto simp: in_segment_def span_def split: option.split)
    have "\<forall>m. ct_max b = Some m \<longrightarrow> ct_min b < m" using bts by (cases ts) (auto simp: span_def)
    note aa = aa [OF this]
    have "\<exists>t'. tier_of (a # b # ts) n = Some t' \<and> same_context_prices h t'"
    proof (cases "in_segment (span ?a) n")
      case inside: True
      then have "prices h = prices a" using ih(4) a by simp
      then have h: "same_context_prices h x = same_context_prices a x" for x by (rule same_of_prices)
      show ?thesis using inside aa True by (auto simp: h)
    next
      case False
      then show ?thesis using ih(1,3) aa by auto
    qed
    then show ?thesis using True ih(2,4) a aa by auto
  next
    case False
    show ?thesis
    proof (cases "in_segment (span a) n")
      case True
      then show ?thesis using False by simp
    next
      case out: False
      from 1(2) [OF False bts later [OF out]] obtain t h where "tier_of (b # ts) n = Some t"
        "tier_of (merge_equal_tiers (b # ts)) n = Some h" "same_context_prices h t" by blast
      then show ?thesis using False out by auto
    qed
  qed
qed (simp_all add: in_segment_def span_def)

section \<open>The shown price is the charged price\<close>

definition near :: "rat \<Rightarrow> rat \<Rightarrow> bool" where
  "near x y = (\<bar>x - y\<bar> \<le> y * (2 / 10 ^ 9))"

lemma near_merged:
  assumes "0 \<le> (x::rat)" "\<bar>r - x\<bar> \<le> \<bar>x\<bar> * (1 / 10 ^ 11)" "h = r \<or> \<bar>h - r\<bar> \<le> max \<bar>h\<bar> \<bar>r\<bar> * (1 / 10 ^ 9)"
  shows "near h x"
  using assms unfolding near_def by (auto simp: max_def abs_if split: if_splits)

lemma near_scale:
  assumes "0 \<le> (k::rat)" "near x y"
  shows "near (k * x) (k * y)"
proof -
  have "\<bar>k * x - k * y\<bar> = k * \<bar>x - y\<bar>" using assms(1) by (simp add: right_diff_distrib [symmetric] abs_mult)
  also have "\<dots> \<le> k * (y * (2 / 10 ^ 9))" using assms by (intro mult_left_mono) (auto simp: near_def)
  finally show ?thesis by (simp add: near_def)
qed

lemma near_units:
  assumes "wf_tokens t" "near (tu_input u) (tu_input v)" "near (tu_output u) (tu_output v)" "near (tu_write u) (tu_write v)"
    "near (tu_write_1h u) (tu_write_1h v)" "near (tu_read u) (tu_read v)"
  shows "near (units_price u t) (units_price v t)"
proof -
  have scale: "\<bar>of_int n * x - of_int n * y\<bar> \<le> of_int n * y * (2 / 10 ^ 9)" if "0 \<le> n" "near x y" for n :: int and x y :: rat
    using near_scale [OF _ that(2), of "of_int n"] that(1) by (simp add: near_def)
  let ?w = "\<lambda>u. if ut_write_1h t = 0 then tu_write u else tu_write_1h u"
  have "near (?w u) (?w v)" using assms(4,5) by simp
  note parts = scale [OF _ assms(2), of "ut_input t"] scale [OF _ assms(3), of "ut_output t"]
    scale [OF _ this, of "ut_write t"] scale [OF _ assms(6), of "ut_read t"]
  have sums: "\<bar>(a + b + c + d) - (a' + b' + c' + d')\<bar> \<le> (a' + b' + c' + d') * k"
    if "\<bar>a - a'\<bar> \<le> a' * k" "\<bar>b - b'\<bar> \<le> b' * k" "\<bar>c - c'\<bar> \<le> c' * k" "\<bar>d - d'\<bar> \<le> d' * k"
    for a b c d a' b' c' d' k :: rat
    using that by (simp add: ring_distribs abs_le_iff)
  show ?thesis
    unfolding near_def units_price_def
    by (rule sums) (use parts assms(1) in \<open>simp_all add: wf_tokens_def\<close>)
qed

lemma units_nonneg:
  assumes "wf_card p"
  shows "0 \<le> tu_input (units_of l p)" "0 \<le> tu_output (units_of l p)" "0 \<le> tu_write (units_of l p)"
    "0 \<le> tu_write_1h (units_of l p)" "0 \<le> tu_read (units_of l p)"
  using assms by (auto simp: units_of_def wf_card_def Let_def)

lemma charge_units_card:
  assumes "wf_env env" "wf_resolved r" "charge_units env g r m n = Some u"
  shows "\<exists>l p. u = units_of l p \<and> wf_card p"
proof (cases "by_resolver g r")
  case True
  then obtain p0 l where "get_interval_pricing r (if rp_long r then n else 1) = Some p0" "u = units_of l (charged_card env r m 0 p0)"
    using assms(3) by (auto simp: charge_units_def Let_def)
  then show ?thesis using wf_charged_card [OF wf_interval_pricing [OF assms(2)]] by blast
next
  case False
  then show ?thesis
    using assms(3) wf_resolve_base [OF assms(1), of m] by (auto simp: charge_units_def resolve_base_def split: sum.splits)
qed

lemma row_near:
  assumes "wf_card p" "same_context_prices h (unit_tier s r (units_of l p))"
  shows "near (tu_input (row_units h)) (tu_input (units_of l p))" "near (tu_output (row_units h)) (tu_output (units_of l p))"
    "near (tu_write (row_units h)) (tu_write (units_of l p))" "near (tu_write_1h (row_units h)) (tu_write_1h (units_of l p))"
    "near (tu_read (row_units h)) (tu_read (units_of l p))"
proof -
  have one: "near (case q of None \<Rightarrow> 0 | Some y \<Rightarrow> y) x"
    if "0 \<le> x" "same_price q (context_price_ptr (round_context_price x) e)" for q x e
    using that(2) round_context_price_near [of x]
    by (intro near_merged [OF that(1), of "round_context_price x"])
      (auto simp: same_price_def context_price_ptr_def split: option.splits if_splits)
  obtain ei eo ew eh er where "explicit_fields r (fst s + 1) = (ei, eo, ew, eh, er)" by (metis prod_cases5)
  then show "near (tu_input (row_units h)) (tu_input (units_of l p))" "near (tu_output (row_units h)) (tu_output (units_of l p))"
    "near (tu_write (row_units h)) (tu_write (units_of l p))" "near (tu_write_1h (row_units h)) (tu_write_1h (units_of l p))"
    "near (tu_read (row_units h)) (tu_read (units_of l p))"
    using assms(2) one units_nonneg [OF assms(1)] by (auto simp: row_units_def same_context_prices_def unit_tier_def Let_def)
qed

lemma probed_rows:
  "probe_segments ss r probe = Inr ts \<Longrightarrow> map span ts = ss \<and> (\<forall>t \<in> set ts. probe_context_tier (span t) r probe = Inr t)"
proof (induction ss arbitrary: ts)
  case (Cons s ss)
  then obtain t ts' where t: "probe_context_tier s r probe = Inr t" "probe_segments ss r probe = Inr ts'" "ts = t # ts'"
    by (cases "probe_segments ss r probe") (auto split: sum.splits)
  moreover from t(1) have "span t = s"
    by (auto simp: probe_context_tier_def span_def Let_def split: prod.splits sum.splits)
  ultimately show ?case using Cons.IH by auto
qed simp

lemma sorted_breakpoints: "sorted (context_breakpoints env r m)"
  by (simp add: context_breakpoints_def interval_bounds_sound(1) threshold_bounds_def Let_def split: option.split)

lemma tier_of_Some: "tier_of ts n = Some t \<Longrightarrow> t \<in> set ts \<and> in_segment (span t) n"
  by (auto simp: tier_of_def span_def find_Some_iff)

lemma shown_row:
  fixes env g m
  defines "r \<equiv> resolve env (map_option pg_id g) g m"
  assumes wf: "wf_env env" "pred_option wf_group g" and ts: "resolve_context_schedule env m g = Inr (Some ts)" and n: "0 < n"
  shows "\<not> per_request_mode (rp_mode r) \<and> (\<exists>h u. tier_of ts n = Some h \<and> charge_units env g r m n = Some u \<and>
    (\<forall>t. wf_tokens t \<longrightarrow> near (units_price (row_units h) t) (units_price u t)))"
proof -
  let ?ss = "build_segments 0 (context_breakpoints env r m)" and ?probe = "schedule_probe env m g r"
  obtain rows where rows: "probe_segments ?ss r ?probe = Inr rows" "ts = merge_equal_tiers rows"
    and mode: "\<not> per_request_mode (rp_mode r)"
    using ts by (cases "probe_segments ?ss r ?probe")
      (auto simp: resolve_context_schedule_def r_def [symmetric] per_request_mode_def Let_def split: if_splits)
  note spans = probed_rows [OF rows(1)]
  have ch: "chained (map span rows)" "fst (hd (map span rows)) = 0"
    using build_segments_chained [of 0 "context_breakpoints env r m"] spans by simp_all
  then obtain a as where as: "rows = a # as" "ct_min a = 0" by (cases rows) (auto simp: span_def)
  obtain t h where t: "tier_of rows n = Some t" "tier_of ts n = Some h" "same_context_prices h t"
    using merged_row [of a as n] ch as n rows(2) by auto
  have inside: "span t \<in> set ?ss" "in_segment (span t) n" and probed: "probe_context_tier (span t) r ?probe = Inr t"
    using tier_of_Some [OF t(1)] spans by (metis image_eqI set_map, simp_all)
  obtain u where u: "charge_units env g r m (fst (span t) + 1) = Some u" "t = unit_tier (span t) r u"
    using probe_tier_units [OF mode [unfolded r_def] sorted_breakpoints inside(1) [unfolded r_def]] probed
    by (auto simp: r_def [symmetric] split: option.splits)
  have un: "charge_units env g r m n = Some u"
    using charge_units_segment [OF inside(1) [unfolded r_def] inside(2) segment_ends(2) [OF sorted_breakpoints inside(1) [unfolded r_def]]] u(1)
    by (simp add: r_def)
  obtain l p where up: "u = units_of l p" "wf_card p"
    using charge_units_card [OF wf(1) wf_resolve [OF wf, of "map_option pg_id g" m, folded r_def] un] by blast
  have "same_context_prices h (unit_tier (span t) r (units_of l p))" using t(3) u(2) up(1) by simp
  note row = row_near [OF up(2) this]
  have "\<forall>t. wf_tokens t \<longrightarrow> near (units_price (row_units h) t) (units_price u t)"
    using near_units [OF _ row] up(1) by simp
  then show ?thesis using mode t(2) un by blast
qed

text \<open>A model with a card that is charged by tokens has a table.\<close>

lemma table_exists:
  fixes env g m
  defines "r \<equiv> resolve env (map_option pg_id g) g m"
  assumes base: "case rp_base r of None \<Rightarrow> False | Some p \<Rightarrow> True" and mode: "rp_mode r = BillingModeToken"
  shows "\<exists>ts. resolve_context_schedule env m g = Inr (Some ts)"
proof -
  have priced: "charge_units env g r m n \<noteq> None" for n
  proof (cases "by_resolver g r")
    case True
    then show ?thesis using base by (auto simp: charge_units_def get_interval_pricing_def split: option.splits)
  next
    case False
    then show ?thesis
      using base resolve_by_resolver [OF False [unfolded r_def]] by (auto simp: charge_units_def r_def split: sum.splits)
  qed
  have "\<exists>ts. probe_segments ss r (schedule_probe env m g r) = Inr ts"
    if "set ss \<subseteq> set (build_segments 0 (context_breakpoints env r m))" for ss
    using that
  proof (induction ss)
    case (Cons s ss)
    have "\<not> per_request_mode (rp_mode r)" using mode by (simp add: per_request_mode_def)
    from probe_tier_units [OF this [unfolded r_def] sorted_breakpoints, of s] Cons.prems
    have "\<exists>t. probe_context_tier s r (schedule_probe env m g r) = Inr t"
      using priced [of "fst s + 1"] by (auto simp: r_def)
    then show ?case using Cons by auto
  qed simp
  then show ?thesis using mode by (fastforce simp: resolve_context_schedule_def r_def Let_def)
qed

definition result_tokens :: "forward_result \<Rightarrow> usage_tokens" where
  "result_tokens r =
     no_tokens\<lparr>ut_input := fr_input r, ut_output := fr_output r, ut_write := fr_write r, ut_read := fr_read r,
                ut_write_5m := fr_write_5m r, ut_write_1h := fr_write_1h r, ut_image_output := fr_image_output r\<rparr>"

text \<open>A key without a group hands over no resolution, which changes nothing.\<close>

lemma gateway_plain:
  fixes env key m
  defines "r \<equiv> resolve (ue_prices env) (map_option pg_id (pk_group key)) (pk_group key) m"
  assumes "ue_resolver env" "string_value (fr_tier res) = []" "string_value (fr_effort res) = []"
  shows "gateway_token_cost env res key m rate at0 =
    (case calculate_token_cost_for_request (ue_prices env) (plain_request m (pk_group key) r rate at0 (result_tokens res)) of
       Inl e \<Rightarrow> no_cost | Inr c \<Rightarrow> c)"
proof (cases "pk_group key")
  case None
  then have "\<not> operator_priced (Some r)"
    by (simp add: r_def operator_priced_def resolve_def match_group_pricing_def resolved_empty_def resolve_base_def Let_def split: sum.split)
  then show ?thesis
    using None assms(3,4)
    by (simp add: gateway_token_cost_def result_tokens_def plain_request_def calculate_token_cost_for_request_def
        operator_priced_def Let_def)
next
  case (Some g)
  then show ?thesis using assms(2-4) by (simp add: gateway_token_cost_def result_tokens_def plain_request_def r_def Let_def)
qed

text \<open>C10: The table of prices by context length is the price the gateway charges: for a model charged by tokens,
on well-formed operator rows, every request of plain text tokens finds its row in the table by its context, and
the tokens at the prices of that row, times the rate of the key and the multiplier of the time of day, are what
the gateway bills, to within two parts in a thousand million. So the breakpoints the table is cut at miss no
jump of the charge, the difference quotients recover the unit prices, and the merging of equal rows and the
rounding to twelve digits lose nothing that matters.\<close>

theorem shown_price_is_charged:
  assumes "wf_env (ue_prices env)" and "pred_option wf_group (pk_group key)" and "ue_resolver env"
    and "resolve_context_schedule (ue_prices env) m (pk_group key) = Inr (Some ts)"
    and "plain_tokens (result_tokens res)" and "0 < total_context (result_tokens res)"
    and "string_value (fr_tier res) = []" and "string_value (fr_effort res) = []"
    and "0 \<le> rate" and "at0 = 0 \<or> at0 = pe_now (ue_prices env)"
  shows "\<exists>h. tier_of ts (total_context (result_tokens res)) = Some h \<and>
    near (rate * resolved_time_multiplier (ue_prices env)
            (resolve (ue_prices env) (map_option pg_id (pk_group key)) (pk_group key) m) at0 *
            units_price (row_units h) (result_tokens res))
      (co_actual (gateway_token_cost env res key m rate at0))"
proof -
  let ?t = "result_tokens res" and ?e = "ue_prices env" and ?g = "pk_group key"
  let ?r = "resolve ?e (map_option pg_id ?g) ?g m"
  let ?k = "rate * resolved_time_multiplier ?e ?r at0"
  obtain h u where h: "\<not> per_request_mode (rp_mode ?r)" "tier_of ts (total_context ?t) = Some h"
    "charge_units ?e ?g ?r m (total_context ?t) = Some u" "near (units_price (row_units h) ?t) (units_price u ?t)"
    using shown_row [OF assms(1,2,4,6)] assms(5) by (auto simp: plain_tokens_def)
  have "charged_time ?e ?g ?r at0 = resolved_time_multiplier ?e ?r at0"
    by (auto simp: charged_time_def by_resolver_def operator_priced_def resolved_time_multiplier_def)
  then have "co_actual (gateway_token_cost env res key m rate at0) = ?k * units_price u ?t"
    using charge_plain [where g = ?g and model = m, OF assms(5) h(1) assms(10,9)] h(3)
    by (auto simp: gateway_plain [OF assms(3,7,8)])
  moreover have "0 \<le> ?k" using assms(9) by simp
  then have "near (?k * units_price (row_units h) ?t) (?k * units_price u ?t)"
    by (rule near_scale [OF _ h(4)])
  ultimately show ?thesis using h(2) by auto
qed

text \<open>A channel with a dearer interval above 100 tokens, for a context of 150.\<close>

definition dear_interval :: pricing_interval where
  "dear_interval = free_tier\<lparr>pi_min := 100, pi_max := Some 200, pi_label := [], pi_per_request := None, pi_input := Some 3, pi_output := Some 7\<rparr>"

definition interval_channel :: channel_pricing where
  "interval_channel =
     \<lparr>cp_models = [''gpt-5.4''], cp_mode = ''token'', cp_input = Some 1, cp_output = Some 5, cp_write = None, cp_write_1h = None,
      cp_read = None, cp_fast = None, cp_flex = None, cp_efforts = [], cp_image_input = None, cp_image_output = None,
      cp_per_request = None, cp_intervals = [dear_interval], cp_time = None\<rparr>"

definition interval_group :: price_group where
  "interval_group =
     \<lparr>pg_id = 4, pg_platform = ''openai'', pg_pricing = [], pg_long_enabled = True, pg_rate = 1, pg_subscription = False,
      pg_peak_enabled = False, pg_peak_start = [], pg_peak_end = [], pg_peak_rate = 1, pg_image_independent = False,
      pg_image_rate = 1, pg_video_independent = False, pg_video_rate = 1, pg_image_1k = None, pg_image_2k = None,
      pg_image_4k = None, pg_video_480 = None, pg_video_720 = None, pg_video_1080 = None, pg_video_models = [],
      pg_audio_realtime = None, pg_audio_tts = None, pg_audio_stt = None, pg_search_1k = None\<rparr>"

definition interval_env :: usage_env where
  "interval_env = sample_usage_env\<lparr>ue_prices := sample_env\<lparr>pe_channel := (\<lambda>g m. Some interval_channel)\<rparr>\<rparr>"

lemma cut_at_the_interval:
  "build_segments 0 (context_breakpoints (ue_prices interval_env)
     (resolve (ue_prices interval_env) (Some 4) (Some interval_group) ''gpt-5.4'') ''gpt-5.4'') =
   [(0, Some 100), (100, Some 200), (200, None)]"
  by code_simp

lemma round_context_price_cases:
  "round_context_price 3 = 3" "round_context_price (2 / 3) = 666666666667 / 10 ^ 12"
  by code_simp+

theorem shown_price_is_charged_witness:
  "let key = \<lparr>pk_gid = Some 4, pk_group = Some interval_group\<rparr>; res = (sample_result None None)\<lparr>fr_input := 150, fr_output := 10\<rparr>
   in \<exists>ts h. resolve_context_schedule (ue_prices interval_env) ''gpt-5.4'' (Some interval_group) = Inr (Some ts) \<and>
        tier_of ts 150 = Some h \<and>
        near (2 * 1 * units_price (row_units h) (result_tokens res))
          (co_actual (gateway_token_cost interval_env res key ''gpt-5.4'' 2 0))"
proof -
  let ?key = "\<lparr>pk_gid = Some 4, pk_group = Some interval_group\<rparr>"
  let ?res = "(sample_result None None)\<lparr>fr_input := 150, fr_output := 10\<rparr>"
  let ?e = "ue_prices interval_env"
  have base: "(case rp_base (resolve ?e (map_option pg_id (Some interval_group)) (Some interval_group) ''gpt-5.4'') of None \<Rightarrow> False | Some p \<Rightarrow> True)"
    "rp_mode (resolve ?e (map_option pg_id (Some interval_group)) (Some interval_group) ''gpt-5.4'') = BillingModeToken"
    by code_simp+
  obtain ts where ts: "resolve_context_schedule ?e ''gpt-5.4'' (Some interval_group) = Inr (Some ts)"
    using table_exists [of ?e "Some interval_group" "''gpt-5.4''"] base by auto
  have wf: "wf_env ?e"
    by (simp add: interval_env_def sample_usage_env_def sample_env_def wf_env_def wf_catalogue_def wf_channel_def
        interval_channel_def wf_interval_def dear_interval_def free_tier_def)
  have "resolved_time_multiplier ?e (resolve ?e (Some 4) (Some interval_group) ''gpt-5.4'') 0 = 1" by code_simp
  moreover have "total_context (result_tokens ?res) = 150" by code_simp
  moreover have "\<exists>h. tier_of ts (total_context (result_tokens ?res)) = Some h \<and>
      near (2 * resolved_time_multiplier ?e (resolve ?e (map_option pg_id (pk_group ?key)) (pk_group ?key) ''gpt-5.4'') 0 *
              units_price (row_units h) (result_tokens ?res))
        (co_actual (gateway_token_cost interval_env ?res ?key ''gpt-5.4'' 2 0))"
  proof (rule shown_price_is_charged)
    show "wf_env ?e" by (rule wf)
    show "plain_tokens (result_tokens ?res)" by code_simp
    show "0 < total_context (result_tokens ?res)" by code_simp
    show "resolve_context_schedule ?e ''gpt-5.4'' (pk_group ?key) = Inr (Some ts)" using ts by simp
  qed (simp_all add: interval_env_def sample_usage_env_def interval_group_def wf_group_def sample_result_def string_value_def)
  ultimately show ?thesis using ts by (auto simp: interval_group_def Let_def)
qed

end
